(* ===== verification/Libera_Prelude.thy ===== *)
theory Libera_Prelude
  imports Main "HOL-Library.Word"
begin

text \<open>
  Shared ground of the development: the C integer types of the 32-bit ARM target
  (\<open>int\<close>, \<open>long\<close>, \<open>size_t\<close> and pointers are 32 bits wide, \<open>long long\<close> is 64),
  the kernel's error numbers, the mutex discipline of the driver, the memory-mapped
  register interface (\<open>readl\<close>/\<open>writel\<close>), and the lemmas on masked words that
  every ring buffer and every bit field uses.
\<close>

unbundle bit_operations_syntax

named_theorems masked_word \<open>bit masks of machine words as remainders\<close>

section \<open>C integers\<close>

type_synonym u8 = "8 word"
type_synonym u16 = "16 word"
type_synonym u32 = "32 word"
type_synonym u64 = "64 word"

text \<open>Signed C integers share the word type; \<open>sint\<close> reads the value.\<close>

type_synonym s16 = "16 word"
type_synonym s32 = "32 word"
type_synonym s64 = "64 word"

lemma unat_and_mask [masked_word]:
  "unat (x AND mask k :: 'a::len word) = unat x mod 2 ^ k"
proof -
  have "unat (x AND mask k) = take_bit k (unat x)"
    by (simp only: take_bit_eq_mask [symmetric] unsigned_take_bit_eq)
  then show ?thesis by (simp only: take_bit_eq_mod)
qed

lemma uint_and_mask [masked_word]:
  "uint (x AND mask k :: 'a::len word) = uint x mod 2 ^ k"
proof -
  have "uint (x AND mask k) = take_bit k (uint x)"
    by (simp only: take_bit_eq_mask [symmetric] unsigned_take_bit_eq)
  then show ?thesis by (simp only: take_bit_eq_mod)
qed

lemma unat_pow2_word: "k < LENGTH('a) \<Longrightarrow> unat (2 ^ k :: 'a::len word) = 2 ^ k"
  by transfer (simp add: take_bit_eq_mod)

lemma and_mask_less:
  "k < LENGTH('a) \<Longrightarrow> (x AND mask k :: 'a::len word) < 2 ^ k"
  by (simp add: word_less_nat_alt unat_and_mask unat_pow2_word)

lemma and_mask_id:
  "x < 2 ^ k \<Longrightarrow> k < LENGTH('a) \<Longrightarrow> (x AND mask k :: 'a::len word) = x"
  by (rule word_unat_eq_iff [THEN iffD2])
     (simp add: unat_and_mask word_less_nat_alt unat_pow2_word)

lemma sint_small: "unat (x :: 'a::len word) < 2 ^ (LENGTH('a) - 1) \<Longrightarrow> sint x = int (unat x)"
proof -
  assume "unat x < 2 ^ (LENGTH('a) - 1)"
  then have "int (unat x) < int (2 ^ (LENGTH('a) - 1))" by (simp only: of_nat_less_iff)
  then have "uint x < 2 ^ (LENGTH('a) - 1)" by simp
  moreover have "- (2 ^ (LENGTH('a) - 1)) \<le> uint x"
    by (rule order_trans [of _ 0]) simp_all
  ultimately show ?thesis by (simp add: sint_uint signed_take_bit_int_eq_self)
qed

lemma scast_small:
  "unat (x :: 'a::len word) < 2 ^ (LENGTH('a) - 1) \<Longrightarrow> (scast x :: 'b::len word) = ucast x"
proof -
  assume "unat x < 2 ^ (LENGTH('a) - 1)"
  then have "sint x = uint x" by (simp add: sint_small)
  then show ?thesis by (simp only: scast_eq ucast_eq)
qed

section \<open>Errors of the kernel and of the C library\<close>

text \<open>
  A driver entry point returns a negative error number or a non-negative result; the
  model returns \<open>Inl e\<close> for \<open>-e\<close> and \<open>Inr\<close> for the result.
\<close>

datatype errno =
    EPERM | ENOENT | ESRCH | EINTR | EIO | ENXIO | EAGAIN | ENOMEM | EACCES | EFAULT
  | EBUSY | EEXIST | ENODEV | EINVAL | ENOTTY | ESPIPE | ERANGE | ENOSYS | ENODATA
  | ERESTARTSYS | ECHRNG | EDEADLK | EBADE

section \<open>Mutexes\<close>

text \<open>
  A device mutex is a flag. \<open>mutex_lock\<close> on a free mutex takes it; on a held one the
  caller sleeps. Each entry point is modelled as one atomic call, so a call that finds
  the mutex held waits for a call that has already returned: it never returns, which is
  the value \<open>Hang\<close>. \<open>mutex_lock_interruptible\<close> gives up when a signal arrives in
  that sleep.
\<close>

datatype 'a call = Ret 'a | Hang | Fault

text \<open>
  \<open>Fault\<close> is what C leaves undefined: an index outside its array, a null pointer, a
  division by zero.
\<close>

definition call_bind :: "'a call \<Rightarrow> ('a \<Rightarrow> 'b call) \<Rightarrow> 'b call" where
  "call_bind x f = (case x of Ret a \<Rightarrow> f a | Hang \<Rightarrow> Hang | Fault \<Rightarrow> Fault)"

lemma call_bind_simps [simp]:
  "call_bind (Ret a) f = f a"
  "call_bind Hang f = Hang"
  "call_bind Fault f = Fault"
  by (simp_all add: call_bind_def)

lemma call_bind_Ret_iff: "call_bind x f = Ret b \<longleftrightarrow> (\<exists>a. x = Ret a \<and> f a = Ret b)"
  by (cases x) auto

datatype lock_result = Acquired | Interrupted | Sleeps

definition mutex_lock_interruptible :: "bool \<Rightarrow> bool \<Rightarrow> lock_result" where
  "mutex_lock_interruptible signal held =
     (if \<not> held then Acquired else if signal then Interrupted else Sleeps)"

lemma mutex_lock_interruptible_free [simp]:
  "mutex_lock_interruptible signal False = Acquired"
  by (simp add: mutex_lock_interruptible_def)

section \<open>Memory-mapped registers\<close>

text \<open>
  \<open>readl\<close> of an offset from \<open>iobase\<close> is a parameter (what the FPGA presents there);
  \<open>writel\<close> appends the pair of offset and value to the trace of writes.
\<close>

type_synonym reg_read = "u32 \<Rightarrow> u32"
type_synonym reg_trace = "(u32 \<times> u32) list"

definition writel :: "u32 \<Rightarrow> u32 \<Rightarrow> reg_trace \<Rightarrow> reg_trace" where
  "writel v a tr = tr @ [(a, v)]"

lemma length_writel [simp]: "length (writel v a tr) = Suc (length tr)"
  by (simp add: writel_def)

lemma writel_last [simp]: "last (writel v a tr) = (a, v)"
  by (simp add: writel_def)

lemma set_writel [simp]: "set (writel v a tr) = insert (a, v) (set tr)"
  by (simp add: writel_def)

section \<open>C truncating division\<close>

definition cdiv :: "int \<Rightarrow> int \<Rightarrow> int" where
  "cdiv a b = (if 0 \<le> a \<longleftrightarrow> 0 \<le> b then \<bar>a\<bar> div \<bar>b\<bar> else - (\<bar>a\<bar> div \<bar>b\<bar>))"

lemma cdiv_nonneg: "0 \<le> a \<Longrightarrow> 0 < b \<Longrightarrow> cdiv a b = a div b"
  by (simp add: cdiv_def)

lemma cdiv_minus: "0 < b \<Longrightarrow> cdiv (- a) b = - cdiv a b"
  by (cases "a = 0") (auto simp: cdiv_def)

lemma abs_cdiv_le: "0 < b \<Longrightarrow> \<bar>cdiv a b\<bar> \<le> \<bar>a\<bar>"
  using zdiv_mono2 [of "\<bar>a\<bar>" 1 b] by (cases "0 \<le> a") (auto simp: cdiv_def pos_imp_zdiv_nonneg_iff)

text \<open>64-bit words as signed numbers.\<close>

lemma sint_of_small_int:
  assumes "x = (of_int i :: u64)" "- 9223372036854775808 \<le> i" "i < 9223372036854775808"
  shows "sint x = i"
  using assms by (simp add: signed_of_int signed_take_bit_int_eq_self)

lemma u32_of_int: "ucast (y :: u32) = (word_of_int (uint y) :: u64)"
  by (rule ucast_eq)

lemma sint_ucast_u32: "sint (ucast (x :: u32) :: u64) = uint x"
proof -
  have x: "uint x < 4294967296" "0 \<le> uint x" using uint_lt2p [of x] by simp_all
  have e: "ucast x = of_int (uint x)" unfolding u32_of_int by simp
  show ?thesis by (rule sint_of_small_int [OF e]) (use x in linarith)+
qed

end
