(* ===== verification/Libera_Ring.thy ===== *)
theory Libera_Ring
  imports Libera_Prelude
begin

text \<open>
  The ring buffers of the driver (\<open>libera_event.h\<close>, \<open>libera_sa.h\<close>). All of them keep
  two indices: \<open>put\<close>, the slot written last, and \<open>get\<close>, the slot read last; they are
  equal when the ring is empty, so a ring of \<open>2 ^ k\<close> slots holds at most
  \<open>2 ^ k - 1\<close> elements. The three element types (64-bit stamps, events, SA atoms) share the code, hence
  the generic operations \<open>ring_*\<close> below, with the exponent \<open>k\<close> as argument; the named
  operations of the source are their instances.

  The locale \<open>bounded_fifo\<close> is the contract the readers and the interrupt handlers rely
  on; it is interpreted on the three FIFOs of the source.
\<close>

section \<open>The generic ring\<close>

record 'a ring =
  rdata :: "nat \<Rightarrow> 'a"
  rput :: u32
  rget :: u32

definition ring_flush :: "'a ring \<Rightarrow> 'a ring" where
  "ring_flush q = q\<lparr>rput := 0, rget := 0\<rparr>"

definition ring_len :: "nat \<Rightarrow> 'a ring \<Rightarrow> u32" where
  "ring_len k q = (rput q + 2 ^ k - rget q) AND mask k"

definition ring_not_empty :: "'a ring \<Rightarrow> bool" where
  "ring_not_empty q = (rput q \<noteq> rget q)"

definition ring_empty :: "'a ring \<Rightarrow> bool" where
  "ring_empty q = (rput q = rget q)"

definition ring_put :: "nat \<Rightarrow> 'a ring \<Rightarrow> 'a \<Rightarrow> 'a ring \<times> int" where
  "ring_put k q d =
     (let index = (rput q + 1) AND mask k in
      if index = rget q then (q, - 1)
      else (q\<lparr>rdata := (rdata q)(unat index := d), rput := index\<rparr>, 0))"

definition ring_get :: "nat \<Rightarrow> 'a ring \<Rightarrow> 'a ring \<times> 'a option" where
  "ring_get k q =
     (if rput q = rget q then (q, None)
      else let index = (rget q + 1) AND mask k in
        (q\<lparr>rget := index\<rparr>, Some (rdata q (unat index))))"

text \<open>What the ring holds, oldest first.\<close>

definition ring_inv :: "nat \<Rightarrow> 'a ring \<Rightarrow> bool" where
  "ring_inv k q \<longleftrightarrow> unat (rput q) < 2 ^ k \<and> unat (rget q) < 2 ^ k"

definition ring_list :: "nat \<Rightarrow> 'a ring \<Rightarrow> 'a list" where
  "ring_list k q =
     map (\<lambda>i. rdata q ((unat (rget q) + 1 + i) mod 2 ^ k)) [0..<unat (ring_len k q)]"

subsection \<open>Index arithmetic\<close>

lemma ring_step:
  assumes "k < 32" "unat x < 2 ^ k"
  shows "unat ((x + 1) AND mask k :: u32) = (unat x + 1) mod 2 ^ k"
proof -
  have "(2::nat) ^ k \<le> 2 ^ 31" by (rule power_increasing) (use assms in auto)
  then have "unat (x + 1) = unat x + 1"
    using assms by (simp add: unat_word_ariths)
  then show ?thesis by (simp add: unat_and_mask)
qed

lemma ring_len_unat:
  assumes k: "k < 32" and inv: "ring_inv k q"
  shows "unat (ring_len k q) = (unat (rput q) + 2 ^ k - unat (rget q)) mod 2 ^ k"
proof -
  have le: "(2::nat) ^ k \<le> 2 ^ 31" by (rule power_increasing) (use k in auto)
  have p: "unat (2 ^ k :: u32) = 2 ^ k" by (rule unat_pow2_word) (use k in simp)
  have s: "unat (rput q + 2 ^ k :: u32) = unat (rput q) + 2 ^ k"
    using le inv by (simp add: unat_word_ariths p ring_inv_def)
  have "unat (rput q + 2 ^ k - rget q :: u32) = unat (rput q) + 2 ^ k - unat (rget q)"
    using inv by (subst unat_sub_if') (simp add: s ring_inv_def)
  then show ?thesis by (simp add: ring_len_def unat_and_mask)
qed

lemma ring_len_less:
  "k < 32 \<Longrightarrow> ring_inv k q \<Longrightarrow> unat (ring_len k q) < 2 ^ k"
  by (simp add: ring_len_unat)

lemma ring_put_index:
  assumes "k < 32" "ring_inv k q"
  shows "unat (rput q) = (unat (rget q) + unat (ring_len k q)) mod 2 ^ k"
proof -
  have "(unat (rget q) + (unat (rput q) + 2 ^ k - unat (rget q))) mod 2 ^ k = unat (rput q)"
    using assms by (simp add: ring_inv_def)
  then show ?thesis using assms by (simp add: ring_len_unat mod_add_right_eq)
qed

lemma ring_offset_unique:
  fixes i j N a :: nat
  assumes "(a + i) mod N = (a + j) mod N" "i < N" "j < N"
  shows "i = j"
proof -
  have "int i mod int N = int j mod int N"
    using assms(1) by (metis add.commute add_diff_cancel_right' mod_diff_left_eq of_nat_add zmod_int)
  then have "i mod N = j mod N" by (metis of_nat_eq_iff zmod_int)
  then show ?thesis using assms(2,3) by simp
qed

lemma ring_skip: "Suc (Suc a mod N + i) mod N = Suc (Suc (a + i)) mod (N::nat)"
proof -
  have "Suc (Suc a mod N + i) mod N = (Suc a mod N + Suc i) mod N" by simp
  also have "\<dots> = (Suc a + Suc i) mod N" by (rule mod_add_left_eq)
  finally show ?thesis by simp
qed

lemma length_ring_list [simp]: "length (ring_list k q) = unat (ring_len k q)"
  by (simp add: ring_list_def)

lemma ring_empty_iff:
  assumes "k < 32" "ring_inv k q"
  shows "rput q = rget q \<longleftrightarrow> ring_list k q = []"
proof -
  have "rput q = rget q \<longleftrightarrow> unat (ring_len k q) = 0"
    using ring_put_index [OF assms] ring_len_unat [OF assms] assms(2)
    by (auto simp: ring_inv_def word_unat_eq_iff)
  then show ?thesis by (metis length_0_conv length_ring_list)
qed

subsection \<open>The operations on the contents\<close>

lemma ring_len_of:
  assumes "k < 32" "ring_inv k q" "unat (rput q) = (unat (rget q) + n) mod 2 ^ k" "n < 2 ^ k"
  shows "unat (ring_len k q) = n"
  by (rule ring_offset_unique [where a = "unat (rget q)" and N = "2 ^ k"])
     (use assms ring_put_index [OF assms(1,2)] ring_len_less [OF assms(1,2)] in simp_all)

lemma ring_put_full:
  assumes "k < 32" "ring_inv k q" "2 ^ k - 1 \<le> unat (ring_len k q)"
  shows "ring_put k q d = (q, - 1)"
proof -
  have n: "unat (ring_len k q) = 2 ^ k - 1"
    using ring_len_less [OF assms(1,2)] assms(3) by simp
  have "unat ((rput q + 1) AND mask k) = (unat (rput q) + 1) mod 2 ^ k"
    using assms by (intro ring_step) (auto simp: ring_inv_def)
  also have "\<dots> = (unat (rget q) + (2 ^ k - 1) + 1) mod 2 ^ k"
    by (simp only: ring_put_index [OF assms(1,2)] n mod_add_left_eq)
  also have "\<dots> = unat (rget q)"
    using assms(2) by (simp add: ring_inv_def)
  finally show ?thesis by (simp add: ring_put_def word_unat_eq_iff)
qed

lemma ring_put_ok:
  assumes k: "k < 32" and inv: "ring_inv k q" and room: "unat (ring_len k q) < 2 ^ k - 1"
  shows "\<exists>q'. ring_put k q d = (q', 0) \<and> ring_inv k q' \<and> ring_list k q' = ring_list k q @ [d]"
proof -
  let ?g = "unat (rget q)" and ?n = "unat (ring_len k q)"
  let ?ix = "(rput q + 1) AND mask k"
  let ?q = "q\<lparr>rdata := (rdata q)(unat ?ix := d), rput := ?ix\<rparr>"
  have ix: "unat ?ix = (?g + Suc ?n) mod 2 ^ k"
    using k inv ring_put_index [OF k inv]
    by (simp add: ring_step ring_inv_def mod_Suc_eq)
  have ne: "?ix \<noteq> rget q"
  proof
    assume "?ix = rget q"
    then have "(?g + Suc ?n) mod 2 ^ k = (?g + 0) mod 2 ^ k"
      using ix inv by (simp add: ring_inv_def)
    moreover have "Suc ?n < 2 ^ k" using room by arith
    ultimately show False
      using ring_offset_unique [of ?g "Suc ?n" "2 ^ k" 0] by simp
  qed
  have inv': "ring_inv k ?q" using inv ix by (simp add: ring_inv_def)
  have n': "unat (ring_len k ?q) = Suc ?n"
    by (rule ring_len_of [OF k inv']) (use ix room in simp_all)
  have "ring_list k ?q = ring_list k q @ [d]"
  proof -
    have old: "(Suc (?g + i)) mod 2 ^ k \<noteq> unat ?ix" if "i < ?n" for i
    proof
      assume "(Suc (?g + i)) mod 2 ^ k = unat ?ix"
      then have "(?g + Suc i) mod 2 ^ k = (?g + Suc ?n) mod 2 ^ k" using ix by simp
      moreover have "Suc ?n < 2 ^ k" using room by arith
      ultimately show False
        using ring_offset_unique [of ?g "Suc i" "2 ^ k" "Suc ?n"] that by simp
    qed
    have "ring_list k ?q = map (\<lambda>i. ((rdata q)(unat ?ix := d))
        ((?g + 1 + i) mod 2 ^ k)) [0..<Suc ?n]"
      by (simp only: ring_list_def n') simp
    also have "\<dots> = ring_list k q @ [d]"
      using old ix by (simp add: ring_list_def)
    finally show ?thesis .
  qed
  then show ?thesis using ne inv' by (simp add: ring_put_def Let_def)
qed

lemma ring_get_empty:
  "k < 32 \<Longrightarrow> ring_inv k q \<Longrightarrow> ring_list k q = [] \<Longrightarrow> ring_get k q = (q, None)"
  by (simp add: ring_get_def ring_empty_iff)

lemma ring_get_some:
  assumes k: "k < 32" and inv: "ring_inv k q" and c: "ring_list k q = x # xs"
  shows "\<exists>q'. ring_get k q = (q', Some x) \<and> ring_inv k q' \<and> ring_list k q' = xs"
proof -
  let ?g = "unat (rget q)" and ?n = "unat (ring_len k q)"
  let ?ix = "(rget q + 1) AND mask k"
  let ?q = "q\<lparr>rget := ?ix\<rparr>"
  have n: "?n = Suc (length xs)" using c by (metis length_Cons length_ring_list)
  have ix: "unat ?ix = (?g + 1) mod 2 ^ k"
    using k inv by (simp add: ring_step ring_inv_def)
  have inv': "ring_inv k ?q" using inv ix by (simp add: ring_inv_def)
  have "?n < 2 ^ k" by (rule ring_len_less [OF k inv])
  then have n': "unat (ring_len k ?q) = length xs"
    by (intro ring_len_of [OF k inv'])
       (use ix n ring_put_index [OF k inv] in \<open>simp_all add: mod_simps\<close>)
  have l: "ring_list k q = rdata q ((?g + 1) mod 2 ^ k) #
      map (\<lambda>i. rdata q ((?g + 2 + i) mod 2 ^ k)) [0..<length xs]"
    by (simp add: ring_list_def n upt_conv_Cons map_Suc_upt [symmetric] comp_def del: upt_Suc)
  have "ring_list k ?q = xs"
    using l c by (simp add: ring_list_def n' ix ring_skip)
  moreover have "rdata q (unat ?ix) = x" using l c ix by simp
  moreover have "rput q \<noteq> rget q" using ring_empty_iff [OF k inv] c by simp
  ultimately show ?thesis using inv' by (simp add: ring_get_def Let_def)
qed

lemma ring_flush_ok: "k < 32 \<Longrightarrow> ring_inv k (ring_flush q) \<and> ring_list k (ring_flush q) = []"
  by (simp add: ring_flush_def ring_inv_def ring_list_def ring_len_def unat_and_mask unat_pow2_word)

section \<open>The contract of a bounded FIFO\<close>

text \<open>
  \<open>put\<close> answers 0 or -1, \<open>get\<close> answers the element or the null pointer. The contract:
  \<open>put\<close> appends while there is room and refuses without a change when there is
  none; \<open>get\<close> removes the oldest element.
\<close>

datatype 'a fifo_call = Put 'a | Get

text \<open>A run of calls, with the elements accepted and the elements delivered.\<close>

fun fifo_run ::
  "('s \<Rightarrow> 'a \<Rightarrow> 's \<times> int) \<Rightarrow> ('s \<Rightarrow> 's \<times> 'a option) \<Rightarrow> 's \<Rightarrow> 'a fifo_call list
    \<Rightarrow> 's \<times> 'a list \<times> 'a list" where
  "fifo_run put get q [] = (q, [], [])"
| "fifo_run put get q (Put d # cs) =
     (let (q', r) = put q d; (q'', acc, del) = fifo_run put get q' cs
      in (q'', (if r = 0 then d # acc else acc), del))"
| "fifo_run put get q (Get # cs) =
     (let (q', r) = get q; (q'', acc, del) = fifo_run put get q' cs
      in (q'', acc, (case r of None \<Rightarrow> del | Some x \<Rightarrow> x # del)))"

text \<open>Reading up to \<open>n\<close> elements, the loop of the readers; it stops at the first null.\<close>

fun fifo_drain :: "('s \<Rightarrow> 's \<times> 'a option) \<Rightarrow> nat \<Rightarrow> 's \<Rightarrow> 's \<times> 'a list" where
  "fifo_drain get 0 q = (q, [])"
| "fifo_drain get (Suc n) q =
     (case get q of
        (q', None) \<Rightarrow> (q', [])
      | (q', Some x) \<Rightarrow> (let (q'', xs) = fifo_drain get n q' in (q'', x # xs)))"

text \<open>Writing a list of elements, stopping at the first refusal.\<close>

fun fifo_fill :: "('s \<Rightarrow> 'a \<Rightarrow> 's \<times> int) \<Rightarrow> 'a list \<Rightarrow> 's \<Rightarrow> 's \<times> nat" where
  "fifo_fill put [] q = (q, 0)"
| "fifo_fill put (d # ds) q =
     (case put q d of (q', r) \<Rightarrow>
        if r \<noteq> 0 then (q', 0) else (let (q'', n) = fifo_fill put ds q' in (q'', Suc n)))"

locale bounded_fifo =
  fixes inv :: "'s \<Rightarrow> bool"
    and contents :: "'s \<Rightarrow> 'a list"
    and cap :: nat
    and put :: "'s \<Rightarrow> 'a \<Rightarrow> 's \<times> int"
    and get :: "'s \<Rightarrow> 's \<times> 'a option"
    and flush :: "'s \<Rightarrow> 's"
  assumes bound: "inv q \<Longrightarrow> length (contents q) \<le> cap"
    and put_room: "inv q \<Longrightarrow> length (contents q) < cap \<Longrightarrow>
          \<exists>q'. put q d = (q', 0) \<and> inv q' \<and> contents q' = contents q @ [d]"
    and put_full: "inv q \<Longrightarrow> length (contents q) = cap \<Longrightarrow> put q d = (q, - 1)"
    and get_nil: "inv q \<Longrightarrow> contents q = [] \<Longrightarrow> get q = (q, None)"
    and get_cons: "inv q \<Longrightarrow> contents q = x # xs \<Longrightarrow>
          \<exists>q'. get q = (q', Some x) \<and> inv q' \<and> contents q' = xs"
    and flush_ok: "inv (flush q) \<and> contents (flush q) = []"
begin

lemma put_cases:
  assumes "inv q"
  obtains q' where "put q d = (q', 0)" "inv q'" "contents q' = contents q @ [d]"
      "length (contents q) < cap"
  | "put q d = (q, - 1)" "length (contents q) = cap"
  using assms put_room [of q d] put_full [of q d] bound [of q] by fastforce

lemma get_cases:
  assumes "inv q"
  obtains "get q = (q, None)" "contents q = []"
  | x q' where "get q = (q', Some x)" "inv q'" "contents q = x # contents q'"
proof (cases "contents q")
  case Nil
  then show ?thesis using that(1) get_nil [OF assms] by simp
next
  case (Cons x xs)
  then show ?thesis using that(2) get_cons [OF assms Cons] by auto
qed

lemma fifo_order:
  "inv q \<Longrightarrow> fifo_run put get q cs = (q', acc, del) \<Longrightarrow>
     inv q' \<and> contents q @ acc = del @ contents q'"
proof (induction cs arbitrary: q acc del)
  case Nil
  then show ?case by simp
next
  case (Cons c cs)
  show ?case
  proof (cases c)
    case (Put d)
    obtain q1 r1 where p: "put q d = (q1, r1)" by fastforce
    obtain q2 a2 d2 where r: "fifo_run put get q1 cs = (q2, a2, d2)" by (metis prod_cases3)
    have eq: "q' = q2" "acc = (if r1 = 0 then d # a2 else a2)" "del = d2"
      using Cons.prems(2) by (simp_all add: Put p r)
    show ?thesis
    proof (rule put_cases [OF Cons.prems(1), of d])
      fix q3
      assume "put q d = (q3, 0)" "inv q3" "contents q3 = contents q @ [d]"
      then show ?thesis using Cons.IH [of q1 a2 d2] p r eq by simp
    next
      assume "put q d = (q, - 1)"
      then show ?thesis using Cons.IH [of q1 a2 d2] Cons.prems(1) p r eq by simp
    qed
  next
    case Get
    obtain q1 r1 where p: "get q = (q1, r1)" by fastforce
    obtain q2 a2 d2 where r: "fifo_run put get q1 cs = (q2, a2, d2)" by (metis prod_cases3)
    have eq: "q' = q2" "acc = a2" "del = (case r1 of None \<Rightarrow> d2 | Some x \<Rightarrow> x # d2)"
      using Cons.prems(2) by (simp_all add: Get p r)
    show ?thesis
    proof (rule get_cases [OF Cons.prems(1)])
      assume "get q = (q, None)"
      then show ?thesis using Cons.IH [of q1 a2 d2] Cons.prems(1) p r eq by simp
    next
      fix x q3
      assume "get q = (q3, Some x)" "inv q3" "contents q = x # contents q3"
      then show ?thesis using Cons.IH [of q1 a2 d2] p r eq by simp
    qed
  qed
qed

lemma drain:
  "inv q \<Longrightarrow> fifo_drain get n q = (q', xs) \<Longrightarrow>
     inv q' \<and> xs = take n (contents q) \<and> contents q' = drop n (contents q)"
proof (induction n arbitrary: q xs)
  case 0
  then show ?case by simp
next
  case (Suc n)
  show ?case
  proof (rule get_cases [OF Suc.prems(1)])
    assume "get q = (q, None)" "contents q = []"
    then show ?thesis using Suc.prems by simp
  next
    fix x q1
    assume g: "get q = (q1, Some x)" "inv q1" "contents q = x # contents q1"
    obtain q2 ys where r: "fifo_drain get n q1 = (q2, ys)" by fastforce
    moreover have "q' = q2" "xs = x # ys" using Suc.prems(2) g(1) r by simp_all
    ultimately show ?thesis using Suc.IH [of q1 ys] g by simp
  qed
qed

lemma fill:
  "inv q \<Longrightarrow> fifo_fill put ds q = (q', n) \<Longrightarrow>
     inv q' \<and> n = min (length ds) (cap - length (contents q)) \<and>
     contents q' = contents q @ take n ds"
proof (induction ds arbitrary: q n)
  case Nil
  then show ?case by simp
next
  case (Cons d ds)
  show ?case
  proof (rule put_cases [of q d, OF Cons.prems(1)])
    fix q1
    assume q1: "put q d = (q1, 0)" "inv q1" "contents q1 = contents q @ [d]"
      "length (contents q) < cap"
    obtain m where m: "fifo_fill put ds q1 = (q', m)" "n = Suc m"
      using Cons.prems(2) q1(1) by (auto split: prod.splits)
    show ?thesis using Cons.IH [OF q1(2) m(1)] q1 m(2) by auto
  next
    assume "put q d = (q, - 1)" "length (contents q) = cap"
    then show ?thesis using Cons.prems by auto
  qed
qed

lemma flushed_drain: "fifo_drain get n (flush q) = (q', xs) \<Longrightarrow> xs = []"
  using drain [of "flush q"] flush_ok by auto

end

text \<open>Every ring whose index fits a 32-bit word is such a FIFO.\<close>

lemma ring_bounded_fifo:
  assumes "k < 32"
  shows "bounded_fifo (ring_inv k) (ring_list k) (2 ^ k - 1) (ring_put k) (ring_get k) ring_flush"
proof
  fix q :: "'a ring" and d x :: 'a and xs
  show "ring_inv k q \<Longrightarrow> length (ring_list k q) \<le> 2 ^ k - 1"
    using ring_len_less [OF assms, of q] by simp
  show "ring_inv k q \<Longrightarrow> length (ring_list k q) < 2 ^ k - 1 \<Longrightarrow>
      \<exists>q'. ring_put k q d = (q', 0) \<and> ring_inv k q' \<and> ring_list k q' = ring_list k q @ [d]"
    by (rule ring_put_ok [OF assms]) simp_all
  show "ring_inv k q \<Longrightarrow> length (ring_list k q) = 2 ^ k - 1 \<Longrightarrow> ring_put k q d = (q, - 1)"
    by (rule ring_put_full [OF assms]) simp_all
  show "ring_inv k q \<Longrightarrow> ring_list k q = [] \<Longrightarrow> ring_get k q = (q, None)"
    by (rule ring_get_empty [OF assms])
  show "ring_inv k q \<Longrightarrow> ring_list k q = x # xs \<Longrightarrow>
      \<exists>q'. ring_get k q = (q', Some x) \<and> ring_inv k q' \<and> ring_list k q' = xs"
    by (rule ring_get_some [OF assms])
  show "ring_inv k (ring_flush q) \<and> ring_list k (ring_flush q) = []"
    by (rule ring_flush_ok [OF assms])
qed

section \<open>Timestamp FIFOs: \<open>struct libera_fifo\<close>\<close>

text \<open>\<open>TRIG_LOG\<close> is 4096, the mask is 4095.\<close>

definition TRIG_LOG_BITS :: nat where
  "TRIG_LOG_BITS = 12"

type_synonym libera_fifo = "u64 ring"

definition flushFIFO :: "libera_fifo \<Rightarrow> libera_fifo" where
  "flushFIFO q = ring_flush q"

definition lenFIFO :: "libera_fifo \<Rightarrow> u32" where
  "lenFIFO q = ring_len TRIG_LOG_BITS q"

definition not_emptyFIFO :: "libera_fifo \<Rightarrow> bool" where
  "not_emptyFIFO q = ring_not_empty q"

definition emptyFIFO :: "libera_fifo \<Rightarrow> bool" where
  "emptyFIFO q = ring_empty q"

definition putToFIFO :: "libera_fifo \<Rightarrow> u64 \<Rightarrow> libera_fifo \<times> int" where
  "putToFIFO q data = ring_put TRIG_LOG_BITS q data"

definition getFromFIFO :: "libera_fifo \<Rightarrow> libera_fifo \<times> u64 option" where
  "getFromFIFO q = ring_get TRIG_LOG_BITS q"

definition fifo_ok :: "libera_fifo \<Rightarrow> bool" where
  "fifo_ok q = ring_inv TRIG_LOG_BITS q"

definition fifo_list :: "libera_fifo \<Rightarrow> u64 list" where
  "fifo_list q = ring_list TRIG_LOG_BITS q"

interpretation stamp_fifo: bounded_fifo fifo_ok fifo_list 4095 putToFIFO getFromFIFO flushFIFO
  using ring_bounded_fifo [of TRIG_LOG_BITS]
  unfolding fifo_ok_def [abs_def] fifo_list_def [abs_def] putToFIFO_def [abs_def]
    getFromFIFO_def [abs_def] flushFIFO_def [abs_def]
  by (simp add: TRIG_LOG_BITS_def)

section \<open>Event FIFO: \<open>struct libera_event_fifo\<close>\<close>

text \<open>\<open>libera_event_t\<close>: an event number and its parameter.\<close>

record libera_event_t =
  ev_id :: s32
  ev_param :: s32

type_synonym libera_event_fifo = "libera_event_t ring"

definition flush_eventFIFO :: "libera_event_fifo \<Rightarrow> libera_event_fifo" where
  "flush_eventFIFO q = ring_flush q"

definition len_eventFIFO :: "libera_event_fifo \<Rightarrow> u32" where
  "len_eventFIFO q = ring_len TRIG_LOG_BITS q"

definition not_empty_eventFIFO :: "libera_event_fifo \<Rightarrow> bool" where
  "not_empty_eventFIFO q = ring_not_empty q"

definition empty_eventFIFO :: "libera_event_fifo \<Rightarrow> bool" where
  "empty_eventFIFO q = ring_empty q"

definition putTo_eventFIFO :: "libera_event_fifo \<Rightarrow> libera_event_t \<Rightarrow> libera_event_fifo \<times> int" where
  "putTo_eventFIFO q data = ring_put TRIG_LOG_BITS q data"

definition getFrom_eventFIFO :: "libera_event_fifo \<Rightarrow> libera_event_fifo \<times> libera_event_t option" where
  "getFrom_eventFIFO q = ring_get TRIG_LOG_BITS q"

definition event_fifo_ok :: "libera_event_fifo \<Rightarrow> bool" where
  "event_fifo_ok q = ring_inv TRIG_LOG_BITS q"

definition event_fifo_list :: "libera_event_fifo \<Rightarrow> libera_event_t list" where
  "event_fifo_list q = ring_list TRIG_LOG_BITS q"

interpretation event_fifo:
  bounded_fifo event_fifo_ok event_fifo_list 4095 putTo_eventFIFO getFrom_eventFIFO flush_eventFIFO
  using ring_bounded_fifo [of TRIG_LOG_BITS]
  unfolding event_fifo_ok_def [abs_def] event_fifo_list_def [abs_def] putTo_eventFIFO_def [abs_def]
    getFrom_eventFIFO_def [abs_def] flush_eventFIFO_def [abs_def]
  by (simp add: TRIG_LOG_BITS_def)

section \<open>SA pipes: \<open>struct libera_sa_fifo\<close>\<close>

text \<open>\<open>SA_LOG\<close> is 64. An SA atom is sixteen 32-bit words.\<close>

definition SA_LOG_BITS :: nat where
  "SA_LOG_BITS = 6"

definition SA_LOG :: u32 where
  "SA_LOG = 64"

type_synonym libera_atom_sa_t = "u32 list"

type_synonym libera_sa_fifo = "libera_atom_sa_t ring"

definition flush_saFIFO :: "libera_sa_fifo \<Rightarrow> libera_sa_fifo" where
  "flush_saFIFO q = ring_flush q"

definition len_saFIFO :: "libera_sa_fifo \<Rightarrow> u32" where
  "len_saFIFO q = ring_len SA_LOG_BITS q"

definition not_empty_saFIFO :: "libera_sa_fifo \<Rightarrow> bool" where
  "not_empty_saFIFO q = ring_not_empty q"

definition empty_saFIFO :: "libera_sa_fifo \<Rightarrow> bool" where
  "empty_saFIFO q = ring_empty q"

definition free_saFIFO :: "libera_sa_fifo \<Rightarrow> u32" where
  "free_saFIFO q = SA_LOG - len_saFIFO q"

definition putTo_saFIFO :: "libera_sa_fifo \<Rightarrow> libera_atom_sa_t \<Rightarrow> libera_sa_fifo \<times> int" where
  "putTo_saFIFO q data = ring_put SA_LOG_BITS q data"

definition getFrom_saFIFO :: "libera_sa_fifo \<Rightarrow> libera_sa_fifo \<times> libera_atom_sa_t option" where
  "getFrom_saFIFO q = ring_get SA_LOG_BITS q"

definition sa_fifo_ok :: "libera_sa_fifo \<Rightarrow> bool" where
  "sa_fifo_ok q = ring_inv SA_LOG_BITS q"

definition sa_fifo_list :: "libera_sa_fifo \<Rightarrow> libera_atom_sa_t list" where
  "sa_fifo_list q = ring_list SA_LOG_BITS q"

interpretation sa_fifo:
  bounded_fifo sa_fifo_ok sa_fifo_list 63 putTo_saFIFO getFrom_saFIFO flush_saFIFO
  using ring_bounded_fifo [of SA_LOG_BITS]
  unfolding sa_fifo_ok_def [abs_def] sa_fifo_list_def [abs_def] putTo_saFIFO_def [abs_def]
    getFrom_saFIFO_def [abs_def] flush_saFIFO_def [abs_def]
  by (simp add: SA_LOG_BITS_def)

section \<open>Paired timestamps: \<open>struct libera_circbuf\<close>\<close>

text \<open>
  \<open>libera_Ltimestamp_t\<close> pairs the Libera system time and the Libera machine time of one
  trigger. The circular buffer overwrites its oldest pair; \<open>put\<close> is the next free slot.
  The SC interrupt stores the system time of a trigger first and leaves \<open>put\<close> alone; the MC
  interrupt stores the machine time and advances it.
\<close>

record libera_Ltimestamp_t =
  lst :: u64
  lmt :: u64

record libera_circbuf =
  cstamp :: "nat \<Rightarrow> libera_Ltimestamp_t"
  cput :: u32

definition flushCircBuf :: "libera_circbuf \<Rightarrow> libera_circbuf" where
  "flushCircBuf q = q\<lparr>cstamp := (\<lambda>_. \<lparr>lst = 0, lmt = 0\<rparr>), cput := 0\<rparr>"

definition putLSTtoCircBuf :: "libera_circbuf \<Rightarrow> u64 \<Rightarrow> libera_circbuf" where
  "putLSTtoCircBuf q t =
     q\<lparr>cstamp := (cstamp q)(unat (cput q) := (cstamp q (unat (cput q)))\<lparr>lst := t\<rparr>)\<rparr>"

definition putLMTtoCircBuf :: "libera_circbuf \<Rightarrow> u64 \<Rightarrow> libera_circbuf" where
  "putLMTtoCircBuf q t =
     q\<lparr>cstamp := (cstamp q)(unat (cput q) := (cstamp q (unat (cput q)))\<lparr>lmt := t\<rparr>),
       cput := (cput q + 1) AND mask TRIG_LOG_BITS\<rparr>"

definition putToCircBuf :: "libera_circbuf \<Rightarrow> libera_Ltimestamp_t \<Rightarrow> libera_circbuf" where
  "putToCircBuf q data =
     q\<lparr>cstamp := (cstamp q)(unat (cput q) := data),
       cput := (cput q + 1) AND mask TRIG_LOG_BITS\<rparr>"

definition getFromCircBuf :: "libera_circbuf \<Rightarrow> libera_Ltimestamp_t" where
  "getFromCircBuf q = cstamp q (unat ((cput q - 1) AND mask TRIG_LOG_BITS))"

definition circbuf_ok :: "libera_circbuf \<Rightarrow> bool" where
  "circbuf_ok q \<longleftrightarrow> unat (cput q) < 4096"

lemma circbuf_prev:
  assumes "unat p < 4096"
  shows "(((p + 1) AND mask 12) - 1) AND mask 12 = (p :: u32)"
proof -
  have p: "p < 2 ^ 12" using assms by (simp add: word_less_nat_alt)
  show ?thesis
  proof (cases "p = 4095")
    case True
    then show ?thesis by (simp add: mask_eq_exp_minus_1)
  next
    case False
    then have "p + 1 < 2 ^ 12"
      using assms by (simp add: word_less_nat_alt unat_word_ariths word_unat_eq_iff)
    then have "(p + 1) AND mask 12 = p + 1" by (rule and_mask_id) simp
    then show ?thesis using and_mask_id [OF p] by simp
  qed
qed

lemma getFromCircBuf_putTo:
  "circbuf_ok q \<Longrightarrow> getFromCircBuf (putToCircBuf q d) = d"
  by (simp add: circbuf_ok_def getFromCircBuf_def putToCircBuf_def TRIG_LOG_BITS_def circbuf_prev)

lemma circbuf_ok_putTo: "circbuf_ok q \<Longrightarrow> circbuf_ok (putToCircBuf q d)"
  by (simp add: circbuf_ok_def putToCircBuf_def TRIG_LOG_BITS_def unat_and_mask)

lemma putLMT_putLST: "putLMTtoCircBuf (putLSTtoCircBuf q a) b = putToCircBuf q \<lparr>lst = a, lmt = b\<rparr>"
  by (cases "cstamp q (unat (cput q))")
     (simp add: putLMTtoCircBuf_def putLSTtoCircBuf_def putToCircBuf_def)

lemma circbuf_ok_putLMT: "circbuf_ok q \<Longrightarrow> circbuf_ok (putLMTtoCircBuf q d)"
  by (simp add: circbuf_ok_def putLMTtoCircBuf_def TRIG_LOG_BITS_def unat_and_mask)

lemma circbuf_ok_putLST: "circbuf_ok q \<Longrightarrow> circbuf_ok (putLSTtoCircBuf q d)"
  by (simp add: circbuf_ok_def putLSTtoCircBuf_def)

lemma circbuf_ok_flush: "circbuf_ok (flushCircBuf q)"
  by (simp add: circbuf_ok_def flushCircBuf_def)

end
