(* ===== verification/Libera_Time.thy ===== *)
theory Libera_Time
  imports Libera_Ring
begin

text \<open>
  The clock conversions of \<open>libera_dd.h\<close>. The module globals they read (the decimation
  \<open>lgbl.d\<close>, the machine clock \<open>flmcdHz\<close> in tenths of a hertz) are arguments.
  \<open>div_u64\<close> divides a 64-bit number by a 32-bit one; a division by zero is \<open>None\<close>.
\<close>

definition div_u64 :: "u64 \<Rightarrow> u32 \<Rightarrow> u64 option" where
  "div_u64 a b = (if b = 0 then None else Some (a div ucast b))"

definition div_u64_rem :: "u64 \<Rightarrow> u32 \<Rightarrow> (u64 \<times> u32) option" where
  "div_u64_rem a b = (if b = 0 then None else Some (a div ucast b, ucast (a mod ucast b)))"

definition NS_IN_SECOND :: u32 where "NS_IN_SECOND = 1000000000"
definition LSC_FREQ :: u32 where "LSC_FREQ = 125000000"
definition FLMC_DECI_HZ :: u32 where "FLMC_DECI_HZ = 10"
definition DELTA_LST_OVERFLOW :: u64 where "DELTA_LST_OVERFLOW = 15707377440"
definition DELTA_LMT_OVERFLOW :: u64 where "DELTA_LMT_OVERFLOW = 14757395240"
definition LIBERA_CIRCBUF_ATOMS :: u32 where "LIBERA_CIRCBUF_ATOMS = 2097152"

text \<open>\<open>struct timespec\<close> of the 32-bit target: two signed longs.\<close>

record timespec =
  tv_sec :: s32
  tv_nsec :: s32

definition st2lst :: "timespec \<Rightarrow> u64" where
  "st2lst st =
     scast (tv_sec st) * ucast LSC_FREQ
     + (scast (tv_nsec st) * ucast LSC_FREQ) div ucast NS_IN_SECOND"

definition lst2st :: "u64 \<Rightarrow> timespec" where
  "lst2st t =
     (let (q, rem) = the (div_u64_rem t LSC_FREQ) in
      \<lparr>tv_sec = ucast q, tv_nsec = rem * (NS_IN_SECOND div LSC_FREQ)\<rparr>)"

definition mt2lmt :: "u32 \<Rightarrow> u64 \<Rightarrow> u64" where
  "mt2lmt d mt = mt * ucast d"

definition lmt2mt :: "u32 \<Rightarrow> u64 \<Rightarrow> u64 option" where
  "lmt2mt d t = div_u64 t d"

text \<open>\<open>off\<close> is \<open>settime.lmt.off\<close>, \<open>start\<close> is \<open>HB_start_lmt\<close> of the event device.\<close>

definition get_circ_offset_lmt :: "u32 \<Rightarrow> u64 \<Rightarrow> u64 \<Rightarrow> u64 \<Rightarrow> u32 option" where
  "get_circ_offset_lmt d off start t =
     (case div_u64 (t - (off + start) + ucast (d div 2)) d of
        None \<Rightarrow> None
      | Some v \<Rightarrow> map_option snd (div_u64_rem v LIBERA_CIRCBUF_ATOMS))"

definition get_circ_offset_mt :: "u32 \<Rightarrow> u64 \<Rightarrow> u64 \<Rightarrow> u64 \<Rightarrow> u32 option" where
  "get_circ_offset_mt d off start mt =
     (case div_u64 (off + start) d of
        None \<Rightarrow> None
      | Some v \<Rightarrow> map_option snd (div_u64_rem (mt - v) LIBERA_CIRCBUF_ATOMS))"

text \<open>The result is the converted time or an error; \<open>None\<close> is the division by zero.\<close>

definition lst2lmt :: "u32 \<Rightarrow> u64 \<Rightarrow> libera_Ltimestamp_t \<Rightarrow> (errno + u64) option" where
  "lst2lmt flmcdHz t stime =
     (let positive = lst stime < t;
          deltaLST = (if positive then t - lst stime else lst stime - t) in
      if DELTA_LST_OVERFLOW < deltaLST then Some (Inl ERANGE)
      else case div_u64 (deltaLST * ucast flmcdHz) (LSC_FREQ * FLMC_DECI_HZ) of
        None \<Rightarrow> None
      | Some deltaLMT \<Rightarrow>
          Some (Inr (if positive then lmt stime + deltaLMT else lmt stime - deltaLMT)))"

definition lmt2lst :: "u32 \<Rightarrow> u64 \<Rightarrow> libera_Ltimestamp_t \<Rightarrow> (errno + u64) option" where
  "lmt2lst flmcdHz t stime =
     (let positive = lmt stime < t;
          deltaLMT = (if positive then t - lmt stime else lmt stime - t) in
      if DELTA_LMT_OVERFLOW < deltaLMT then Some (Inl ERANGE)
      else case div_u64 (deltaLMT * ucast LSC_FREQ * ucast FLMC_DECI_HZ) flmcdHz of
        None \<Rightarrow> None
      | Some deltaLST \<Rightarrow>
          Some (Inr (if positive then lst stime + deltaLST else lst stime - deltaLST)))"

section \<open>Exactness\<close>

lemma unat_ucast_u32 [simp]: "unat (ucast (x :: u32) :: u64) = unat x"
  by (simp add: unsigned_ucast_eq take_bit_nat_eq_self order_less_le_trans [OF unsigned_less])

lemma unat_mult_exact:
  "unat a * unat b < 2 ^ 64 \<Longrightarrow> unat (a * b :: u64) = unat a * unat b"
  by (simp add: unat_word_ariths)

lemma unat_add_exact:
  "unat a + unat b < 2 ^ 64 \<Longrightarrow> unat (a + b :: u64) = unat a + unat b"
  by (simp add: unat_word_ariths)

lemma div_u64_unat: "div_u64 a b = Some c \<Longrightarrow> unat c = unat a div unat b"
  by (auto simp: div_u64_def unat_div split: if_splits)

lemma unat_LSC_FREQ [simp]: "unat LSC_FREQ = 125000000"
  by (simp add: LSC_FREQ_def)

lemma unat_FLMC_DECI_HZ [simp]: "unat FLMC_DECI_HZ = 10"
  by (simp add: FLMC_DECI_HZ_def)

lemma unat_NS_IN_SECOND [simp]: "unat NS_IN_SECOND = 1000000000"
  by (simp add: NS_IN_SECOND_def)

lemma LSC_deci: "LSC_FREQ * FLMC_DECI_HZ = 1250000000"
  by (simp add: LSC_FREQ_def FLMC_DECI_HZ_def)

lemma unat_scast_nonneg:
  "unat (x :: s32) < 2 ^ 31 \<Longrightarrow> unat (scast x :: u64) = unat x"
  by (subst scast_small) simp_all

text \<open>A time of day that \<open>timespec\<close> can hold: seconds are not negative, nanoseconds normal.\<close>

definition timespec_ok :: "timespec \<Rightarrow> bool" where
  "timespec_ok st \<longleftrightarrow> unat (tv_sec st) < 2 ^ 31 \<and> unat (tv_nsec st) < 1000000000"

lemma st2lst_unat:
  assumes "timespec_ok st"
  shows "unat (st2lst st) = unat (tv_sec st) * 125000000 + unat (tv_nsec st) div 8"
proof -
  have s: "unat (scast (tv_sec st) :: u64) = unat (tv_sec st)"
    "unat (scast (tv_nsec st) :: u64) = unat (tv_nsec st)"
    using assms by (auto intro!: unat_scast_nonneg simp: timespec_ok_def)
  have a: "unat (scast (tv_sec st) * ucast LSC_FREQ :: u64) = unat (tv_sec st) * 125000000"
    using assms by (subst unat_mult_exact) (simp_all add: s timespec_ok_def)
  have b: "unat (scast (tv_nsec st) * ucast LSC_FREQ :: u64) = unat (tv_nsec st) * 125000000"
    using assms by (subst unat_mult_exact) (simp_all add: s timespec_ok_def)
  have c: "unat ((scast (tv_nsec st) * ucast LSC_FREQ :: u64) div ucast NS_IN_SECOND)
      = unat (tv_nsec st) div 8"
    by (simp add: unat_div b)
  show ?thesis
  proof -
    have "unat (tv_nsec st) div 8 < 125000000" "unat (tv_sec st) < 2147483648"
      using assms by (auto simp: timespec_ok_def less_mult_imp_div_less)
    then show ?thesis
      unfolding st2lst_def by (subst unat_add_exact) (simp_all add: a c)
  qed
qed

lemma lst2st_fields:
  assumes "unat t < 2 ^ 31 * 125000000"
  shows "unat (tv_sec (lst2st t)) = unat t div 125000000"
    and "unat (tv_nsec (lst2st t)) = 8 * (unat t mod 125000000)"
proof -
  have "unat t div 125000000 < 2 ^ 31" using assms by (simp add: less_mult_imp_div_less)
  then show "unat (tv_sec (lst2st t)) = unat t div 125000000"
    by (simp add: lst2st_def div_u64_rem_def LSC_FREQ_def unsigned_ucast_eq unat_div
        take_bit_nat_eq_self)
  have m: "unat t mod 125000000 < 125000000" by simp
  then have "unat (ucast (t mod 125000000) :: u32) = unat t mod 125000000"
    by (simp add: unsigned_ucast_eq unat_mod take_bit_nat_eq_self)
  then show "unat (tv_nsec (lst2st t)) = 8 * (unat t mod 125000000)"
    using m by (simp add: lst2st_def div_u64_rem_def LSC_FREQ_def NS_IN_SECOND_def
        unat_word_ariths)
qed

lemma st2lst_lst2st:
  assumes "unat t < 2 ^ 31 * 125000000"
  shows "st2lst (lst2st t) = t"
proof -
  have "timespec_ok (lst2st t)"
    using assms by (auto simp: timespec_ok_def lst2st_fields less_mult_imp_div_less)
  then show ?thesis
    by (simp add: word_unat_eq_iff st2lst_unat lst2st_fields [OF assms])
qed

lemma lst2st_st2lst:
  assumes "timespec_ok st"
  shows "unat (tv_sec (lst2st (st2lst st))) = unat (tv_sec st)"
    and "unat (tv_nsec (lst2st (st2lst st))) = unat (tv_nsec st) - unat (tv_nsec st) mod 8"
proof -
  have l: "unat (tv_nsec st) div 8 < 125000000" "unat (tv_sec st) < 2 ^ 31"
    using assms by (auto simp: timespec_ok_def less_mult_imp_div_less)
  then have lim: "unat (st2lst st) < 2 ^ 31 * 125000000"
    using assms by (simp add: st2lst_unat)
  show "unat (tv_sec (lst2st (st2lst st))) = unat (tv_sec st)"
    using l assms by (simp add: lst2st_fields [OF lim] st2lst_unat)
  show "unat (tv_nsec (lst2st (st2lst st))) = unat (tv_nsec st) - unat (tv_nsec st) mod 8"
    using l assms by (simp add: lst2st_fields [OF lim] st2lst_unat minus_mod_eq_mult_div)
qed

section \<open>Machine time and system time\<close>

text \<open>
  Up to the fastest machine clock the source names (117.44 MHz) the guards on the distance
  from the sync point keep the products below \<open>2 ^ 64\<close>, so both conversions are the exact
  floor of the rational result.
\<close>

definition flmc_ok :: "u32 \<Rightarrow> bool" where
  "flmc_ok f \<longleftrightarrow> 0 < unat f \<and> unat f \<le> 1174400000"

definition dist :: "u64 \<Rightarrow> u64 \<Rightarrow> u64" where
  "dist t s = (if s < t then t - s else s - t)"

lemma dist_unat:
  "unat (dist t s) = (if unat s < unat t then unat t - unat s else unat s - unat t)"
  by (auto simp: dist_def unat_sub word_less_nat_alt word_le_nat_alt not_less)

lemma lst2lmt_cases:
  "lst2lmt f t s =
     (if DELTA_LST_OVERFLOW < dist t (lst s) then Some (Inl ERANGE)
      else let dl = (dist t (lst s) * ucast f) div 1250000000 in
        Some (Inr (if lst s < t then lmt s + dl else lmt s - dl)))"
  by (simp add: lst2lmt_def dist_def div_u64_def LSC_deci Let_def)

lemma lmt2lst_cases:
  "lmt2lst f t s =
     (if DELTA_LMT_OVERFLOW < dist t (lmt s) then Some (Inl ERANGE)
      else if f = 0 then None
      else let dl = (dist t (lmt s) * ucast LSC_FREQ * ucast FLMC_DECI_HZ) div ucast f in
        Some (Inr (if lmt s < t then lst s + dl else lst s - dl)))"
  by (simp add: lmt2lst_def dist_def div_u64_def Let_def)

lemma lst2lmt_delta:
  assumes "flmc_ok f" "\<not> DELTA_LST_OVERFLOW < d"
  shows "unat ((d * ucast f) div 1250000000 :: u64) = unat d * unat f div 1250000000"
proof -
  have d: "unat d \<le> 15707377440"
    using assms(2) by (simp add: DELTA_LST_OVERFLOW_def word_le_nat_alt not_less)
  have "unat d * unat f \<le> 15707377440 * 1174400000"
    by (rule mult_le_mono) (use d assms(1) in \<open>simp_all add: flmc_ok_def\<close>)
  then have "unat (d * ucast f :: u64) = unat d * unat f"
    by (subst unat_mult_exact) simp_all
  then show ?thesis by (simp add: unat_div)
qed

lemma lmt2lst_delta:
  assumes "\<not> DELTA_LMT_OVERFLOW < d"
  shows "unat ((d * ucast LSC_FREQ * ucast FLMC_DECI_HZ) div ucast (f :: u32) :: u64)
    = unat d * 1250000000 div unat f"
proof -
  have d: "unat d \<le> 14757395240"
    using assms by (simp add: DELTA_LMT_OVERFLOW_def word_le_nat_alt not_less)
  have a: "unat (d * ucast LSC_FREQ :: u64) = unat d * 125000000"
    using d by (subst unat_mult_exact) simp_all
  have "unat (d * ucast LSC_FREQ * ucast FLMC_DECI_HZ :: u64) = unat d * 1250000000"
    using d by (subst unat_mult_exact) (simp_all add: a)
  then show ?thesis by (simp add: unat_div)
qed

text \<open>The floor and its inverse lose less than \<open>C / f + 1\<close> ticks.\<close>

lemma floor_back:
  fixes D f C :: nat
  assumes "0 < f" "0 < C"
  shows "(D * f div C) * C div f \<le> D" and "D * f < ((D * f div C) * C div f) * f + C + f"
proof -
  let ?m = "D * f div C"
  have le: "?m * C \<le> D * f" by (simp add: div_times_less_eq_dividend)
  have "?m * C div f \<le> D * f div f" by (rule div_le_mono [OF le])
  then show "?m * C div f \<le> D" using assms by simp
  have "D * f < ?m * C + C" using dividend_less_div_times [OF assms(2), of "D * f"] by simp
  moreover have "?m * C < (?m * C div f) * f + f"
    using dividend_less_div_times [OF assms(1), of "?m * C"] by simp
  ultimately show "D * f < ((?m * C) div f) * f + C + f" by linarith
qed

lemma delta_between:
  assumes "x \<le> unat (dist t s)"
  shows "unat (if s < t then s + of_nat x else s - of_nat x) =
     (if s < t then unat s + x else unat s - x)"
proof -
  have x: "unat (of_nat x :: u64) = x"
    using assms order_le_less_trans [OF assms unsigned_less [of "dist t s"]]
    by (simp add: unat_of_nat)
  show ?thesis
  proof (cases "s < t")
    case True
    then have "unat s + x \<le> unat t"
      using assms by (simp add: dist_unat word_less_nat_alt)
    moreover have "unat t < 2 ^ 64" using unsigned_less [of t] by simp
    ultimately have "unat s + x < 2 ^ 64" by (rule order_le_less_trans)
    then show ?thesis using True by (simp add: unat_word_ariths x)
  next
    case False
    then have "x \<le> unat s" using assms by (simp add: dist_unat word_less_nat_alt)
    then show ?thesis using False by (simp add: unat_sub x word_le_nat_alt)
  qed
qed

lemma dist_shift:
  assumes "y = (if s < t then S + x else S - x)" "unat y = (if s < t then unat S + unat x else unat S - unat x)"
    "unat x \<le> unat S \<or> s < t"
  shows "dist y S = x" and "x \<noteq> 0 \<Longrightarrow> S < y \<longleftrightarrow> s < t"
  using assms(2,3) by (auto simp: word_unat_eq_iff dist_unat word_less_nat_alt)

lemma lst_lmt_lst:
  assumes f: "flmc_ok f" and there: "lst2lmt f t s = Some (Inr m)"
    and bk: "lmt2lst f m s = Some (Inr t')"
    and up: "unat (lmt s) + 2 ^ 34 \<le> 2 ^ 64" and down: "t < lst s \<Longrightarrow> 2 ^ 34 \<le> unat (lmt s)"
  shows "\<bar>int (unat t') - int (unat t)\<bar> * int (unat f) < 1250000000 + int (unat f)"
proof -
  let ?D = "dist t (lst s)" and ?f = "unat f" and ?C = "1250000000 :: nat"
  define M where "M = unat ?D * ?f div ?C"
  define B where "B = M * ?C div ?f"
  have f0: "0 < ?f" "f \<noteq> 0" using f by (auto simp: flmc_ok_def word_unat_eq_iff)
  define X where "X = (?D * ucast f) div 1250000000"
  have nD: "\<not> DELTA_LST_OVERFLOW < ?D"
    and m: "m = (if lst s < t then lmt s + X else lmt s - X)"
    using there by (auto simp: lst2lmt_cases Let_def X_def split: if_splits)
  have uM: "unat X = M"
    unfolding M_def X_def by (rule lst2lmt_delta [OF f nD])
  have "unat ?D \<le> 15707377440" "?f \<le> 1174400000"
    using nD f by (simp_all add: DELTA_LST_OVERFLOW_def word_le_nat_alt not_less flmc_ok_def)
  then have "unat ?D * ?f \<le> 15707377440 * 1174400000" by (rule mult_le_mono)
  then have M34: "M < 2 ^ 34" unfolding M_def by (simp add: less_mult_imp_div_less)
  have D0: "M = 0" if "\<not> lst s < t" "\<not> t < lst s"
    using that by (simp add: M_def dist_unat word_less_nat_alt)
  have un: "unat m = (if lst s < t then unat (lmt s) + M else unat (lmt s) - M)"
    and ok: "unat X \<le> unat (lmt s) \<or> lst s < t"
    using m uM up down M34 D0 by (cases "lst s < t"; cases "t < lst s";
      auto simp: unat_word_ariths unat_sub word_le_nat_alt)+
  note sh = dist_shift [OF m un [folded uM] ok]
  have uB: "unat ((dist m (lmt s) * ucast LSC_FREQ * ucast FLMC_DECI_HZ) div ucast f) = B"
    and t': "t' = (let dl = (dist m (lmt s) * ucast LSC_FREQ * ucast FLMC_DECI_HZ) div ucast f in
        if lmt s < m then lst s + dl else lst s - dl)"
    using bk f0 lmt2lst_delta [of "dist m (lmt s)" f]
    by (auto simp: lmt2lst_cases Let_def sh(1) uM B_def split: if_splits)
  have BD: "B \<le> unat ?D" and close: "unat ?D * ?f < B * ?f + ?C + ?f"
    using floor_back [OF f0(1), of ?C "unat ?D"] by (simp_all add: B_def M_def)
  have "unat t' = (if lst s < t then unat (lst s) + B else unat (lst s) - B)"
  proof (cases "M = 0")
    case True
    then have "B = 0" by (simp add: B_def)
    then show ?thesis using t' uB by (simp add: Let_def word_unat_eq_iff [symmetric] unat_eq_0)
  next
    case False
    then have "lmt s < m \<longleftrightarrow> lst s < t" by (intro sh(2)) (auto simp: uM word_unat_eq_iff)
    moreover have "(dist m (lmt s) * ucast LSC_FREQ * ucast FLMC_DECI_HZ) div ucast f = of_nat B"
      by (simp only: uB [symmetric] of_nat_unat ucast_id)
    ultimately show ?thesis
      using delta_between [OF BD] t' by (simp only: Let_def)
  qed
  then have "\<bar>int (unat t') - int (unat t)\<bar> = int (unat ?D) - int B"
    using BD by (auto simp: dist_unat word_less_nat_alt simp del: of_nat_unat split: if_splits)
  moreover have "int (unat ?D) * int ?f < int B * int ?f + int ?C + int ?f"
    using close by (metis of_nat_add of_nat_less_iff of_nat_mult)
  ultimately show ?thesis by (simp add: left_diff_distrib)
qed

section \<open>Circular buffer positions\<close>

lemma lmt2mt_mt2lmt:
  "d \<noteq> 0 \<Longrightarrow> unat mt * unat d < 2 ^ 64 \<Longrightarrow> lmt2mt d (mt2lmt d mt) = Some mt"
  by (simp add: lmt2mt_def mt2lmt_def div_u64_def word_unat_eq_iff unat_div unat_mult_exact)

lemma circ_offset_floor:
  fixes m d S :: nat
  assumes "0 < d" "S mod d \<le> d div 2" "S \<le> m * d"
  shows "(m * d - S + d div 2) div d = m - S div d"
proof -
  let ?q = "S div d" and ?r = "S mod d"
  have S: "S = ?q * d + ?r" by (simp add: div_mult_mod_eq)
  have qm: "?q \<le> m" using assms(1,3) by (metis div_le_mono div_mult_self_is_m)
  have "m * d - S + d div 2 = (m - ?q) * d + (d div 2 - ?r)"
    using S assms(2,3) qm by (simp add: diff_mult_distrib)
  moreover have "d div 2 - ?r < d" using assms(1) by simp
  ultimately show ?thesis using assms(1) by simp
qed

lemma get_circ_offset_agree:
  assumes d: "d \<noteq> 0" and m: "unat mt * unat d + unat d div 2 < 2 ^ 64"
    and s: "unat off + unat start < 2 ^ 64"
    and le: "unat off + unat start \<le> unat mt * unat d"
    and r: "(unat off + unat start) mod unat d \<le> unat d div 2"
  shows "get_circ_offset_lmt d off start (mt2lmt d mt) = get_circ_offset_mt d off start mt"
proof -
  let ?S = "unat off + unat start"
  have S: "unat (off + start) = ?S" by (rule unat_add_exact [OF s])
  have M: "unat (mt2lmt d mt) = unat mt * unat d"
    unfolding mt2lmt_def using m by (subst unat_mult_exact) simp_all
  have a: "unat (mt2lmt d mt - (off + start)) = unat mt * unat d - ?S"
    by (subst unat_sub) (simp_all add: word_le_nat_alt S M le)
  have b: "unat (mt2lmt d mt - (off + start) + ucast (d div 2)) = unat mt * unat d - ?S + unat d div 2"
    using m by (subst unat_add_exact) (simp_all add: a unat_div)
  have d0: "0 < unat d" using d by (simp add: word_unat_eq_iff)
  have q: "?S div unat d \<le> unat mt"
    using le d0 by (metis div_le_mono div_mult_self_is_m)
  have "(mt2lmt d mt - (off + start) + ucast (d div 2)) div ucast d = mt - (off + start) div ucast d"
    using circ_offset_floor [OF d0 r le] q
    by (simp add: word_unat_eq_iff unat_div b S unat_sub word_le_nat_alt)
  then show ?thesis
    using d by (simp add: get_circ_offset_lmt_def get_circ_offset_mt_def div_u64_def)
qed

lemma get_circ_offset_bound:
  assumes "get_circ_offset_lmt d off start t = Some p"
  shows "unat p < 2097152"
proof -
  have "unat (ucast (v mod 2097152 :: u64) :: u32) < 2097152" for v :: u64
  proof -
    have "unat (v mod 2097152) < 2097152" by (simp add: unat_mod)
    then show ?thesis by (simp add: unsigned_ucast_eq take_bit_nat_eq_self)
  qed
  then show ?thesis
    using assms by (auto simp: get_circ_offset_lmt_def div_u64_rem_def LIBERA_CIRCBUF_ATOMS_def
        split: option.splits)
qed

section \<open>Properties\<close>

text \<open>C0. System time and its 8 ns ticks: for every time of day that \<open>timespec\<close> can hold, going to
  ticks and back keeps the seconds and rounds the nanoseconds down to a multiple of eight; and
  every tick count below \<open>2 ^ 31\<close> seconds survives the way to \<open>timespec\<close> and back.\<close>

theorem st_lst_roundtrip:
  assumes "timespec_ok st" "unat t < 2 ^ 31 * 125000000"
  shows "unat (tv_sec (lst2st (st2lst st))) = unat (tv_sec st)
    \<and> unat (tv_nsec (lst2st (st2lst st))) = unat (tv_nsec st) - unat (tv_nsec st) mod 8
    \<and> st2lst (lst2st t) = t"
  using lst2st_st2lst [OF assms(1)] st2lst_lst2st [OF assms(2)] by simp

lemma st_lst_roundtrip_witness:
  "unat (tv_nsec (lst2st (st2lst \<lparr>tv_sec = 10, tv_nsec = 1003\<rparr>))) = 1000 \<and> st2lst (lst2st 77) = 77"
  using st_lst_roundtrip [of "\<lparr>tv_sec = 10, tv_nsec = 1003\<rparr>" 77] by (simp add: timespec_ok_def)

text \<open>The guards on the distance from the sync point suffice: for every machine clock up to
  117.44 MHz the conversions between system and machine time do not overflow 64 bits, and
  converting there and back misses by less than one machine-clock period plus one tick.\<close>

theorem lst_lmt_roundtrip:
  assumes "flmc_ok f" "lst2lmt f t s = Some (Inr m)" "lmt2lst f m s = Some (Inr t')"
    and "unat (lmt s) + 2 ^ 34 \<le> 2 ^ 64" "t < lst s \<Longrightarrow> 2 ^ 34 \<le> unat (lmt s)"
  shows "\<bar>int (unat t') - int (unat t)\<bar> * int (unat f) < 1250000000 + int (unat f)"
  by (rule lst_lmt_lst [OF assms])

lemma lst_lmt_roundtrip_witness:
  "\<exists>m t'. lst2lmt 1080000000 1000000 \<lparr>lst = 0, lmt = 0\<rparr> = Some (Inr m)
    \<and> lmt2lst 1080000000 m \<lparr>lst = 0, lmt = 0\<rparr> = Some (Inr t')
    \<and> \<bar>int (unat t') - 1000000\<bar> * 1080000000 < 2330000000"
proof -
  have a: "lst2lmt 1080000000 1000000 \<lparr>lst = 0, lmt = 0\<rparr> = Some (Inr 864000)"
    by (simp add: lst2lmt_def div_u64_def LSC_deci DELTA_LST_OVERFLOW_def)
  have b: "lmt2lst 1080000000 864000 \<lparr>lst = 0, lmt = 0\<rparr> = Some (Inr 1000000)"
    by (simp add: lmt2lst_def div_u64_def LSC_FREQ_def FLMC_DECI_HZ_def DELTA_LMT_OVERFLOW_def)
  have "\<bar>int (unat (1000000 :: u64)) - int (unat (1000000 :: u64))\<bar> * int (unat (1080000000 :: u32))
      < 1250000000 + int (unat (1080000000 :: u32))"
    by (rule lst_lmt_roundtrip [OF _ a b]) (simp_all add: flmc_ok_def)
  then show ?thesis using a b by auto
qed

text \<open>The two ways to find a position in the circular buffer agree: from machine time and from
  its clock ticks the same atom is found, when the offset of the buffer's start is at most half
  an atom past an atom boundary.\<close>

theorem circ_offset_agree:
  assumes "d \<noteq> 0" "unat mt * unat d + unat d div 2 < 2 ^ 64" "unat off + unat start < 2 ^ 64"
    and "unat off + unat start \<le> unat mt * unat d"
    and "(unat off + unat start) mod unat d \<le> unat d div 2"
  shows "get_circ_offset_lmt d off start (mt2lmt d mt) = get_circ_offset_mt d off start mt"
  by (rule get_circ_offset_agree [OF assms])

lemma circ_offset_agree_witness:
  "get_circ_offset_lmt 128 0 0x8000000 (mt2lmt 128 2000000) = get_circ_offset_mt 128 0 0x8000000 2000000"
  by (rule circ_offset_agree) simp_all

end
