(* ===== verification/Libera_Kernel.thy ===== *)
theory Libera_Kernel
  imports Libera_Time
begin

text \<open>
  The device structures of \<open>libera_kernel.h\<close>, the globals of the module, the register
  map and the functions every device uses: \<open>set_irqMask\<close>, \<open>libera_send_event\<close>, the default
  file operations. Register addresses are offsets from \<open>iobase\<close>; the state keeps the trace of
  the register writes.
\<close>

section \<open>Common part of the devices\<close>

text \<open>\<open>LIBERA_COMMON_DEV\<close>; a file is named by a number, the spinlock plays no role in the
  sequential steps.\<close>

record common_dev =
  open_count :: s32
  writers :: u32
  readers :: u32
  master_filp :: "nat option"
  sem :: bool

text \<open>\<open>struct file\<close>: identity, access mode, flags.\<close>

record filp =
  file_id :: nat
  fmode_read :: bool
  fmode_write :: bool
  o_nonblock :: bool

section \<open>Event device\<close>

record libera_settime_t =
  st_update :: u32
  st_lst_ref :: u64
  st_lst_off :: u64
  st_lst_scphi :: u64
  st_lmt_ref :: u64
  st_lmt_off_all :: u64
  st_lmt_off :: u64
  st_lmt_off_pll :: u64
  st_lmt_mcphi :: u64

text \<open>The event to generate: its time and its bits. The list of the source has this one node.\<close>

record evgen_t =
  eg_time :: u64
  eg_event :: u32

record libera_event_device = common_dev +
  CTIME_sem :: bool
  paired_timestamps :: "nat \<Rightarrow> libera_circbuf"
  sc_timestamps :: "nat \<Rightarrow> libera_fifo"
  mc_timestamps :: "nat \<Rightarrow> libera_fifo"
  events :: libera_event_fifo
  sc_time :: u64
  mc_time :: u64
  sc_trigVec :: u32
  mc_trigVec :: u32
  settime :: libera_settime_t
  HB_start_lmt :: u64
  HB_offset_lmt :: u64
  ValidTrigVector :: s32
  evgen :: evgen_t

section \<open>Configuration device\<close>

definition LIBERA_CFG_PARAMS_MAX :: nat where "LIBERA_CFG_PARAMS_MAX = 512"

record libera_cfg_device = common_dev +
  cfg_param :: "nat \<Rightarrow> u32"
  pm_freezed :: s32

section \<open>Data devices\<close>

text \<open>\<open>libera_timestamp_t\<close>: system time and machine time for user space.\<close>

record libera_timestamp_t =
  ts_st :: timespec
  ts_mt :: u64

record libera_dd_device = common_dev +
  decimation :: u32
  dd_irqevents :: libera_fifo
  pm_entry :: s32

text \<open>A DD atom is eight 32-bit words, an ADC atom four 16-bit samples.\<close>

type_synonym libera_atom_dd_t = "u32 list"
type_synonym libera_atom_adc_t = "s16 list"

text \<open>The DMA FIFO between the interrupt handler and the reader of DD data.\<close>

record libera_dma_t =
  dma_buf :: "nat \<Rightarrow> libera_atom_dd_t"
  dma_put :: s32
  dma_get :: s32
  csize :: s32
  remaining :: s32
  obFIFOstatus :: u32
  Overrun :: bool
  DMAC_transfer :: bool
  aborting :: bool
  written :: u32

record libera_pm_device = common_dev +
  pm_buf :: "nat \<Rightarrow> libera_atom_dd_t"
  PMevent :: libera_Ltimestamp_t
  pm_tstamp :: libera_timestamp_t

text \<open>
  A reader of the SA device owns a pipe. The pipes live in a heap of their own: the
  descriptor and the table of registered pipes hold their addresses.
\<close>

record sa_local =
  sa_sem :: bool
  sa_fifo :: libera_sa_fifo

record libera_registered_pipes =
  sa_pipe :: "nat \<Rightarrow> nat option"
  registered :: s32
  next_pipe :: nat

text \<open>\<open>buf_head\<close> and \<open>buf_tail\<close> are indices of the ring of 32 atoms.\<close>

record libera_sa_device = common_dev +
  pipe :: libera_registered_pipes
  sa_heap :: "nat \<Rightarrow> sa_local option"
  sa_buf :: "nat \<Rightarrow> libera_atom_sa_t"
  buf_head :: nat
  buf_tail :: nat
  inputovr :: bool

record libera_adc_device = common_dev +
  trig_lock :: s32
  adc_buf :: "libera_atom_adc_t list"
  adc_op :: "(libera_atom_adc_t \<Rightarrow> libera_atom_adc_t) option"

text \<open>The block devices keep a copy of their register block, in bytes.\<close>

record libera_blk_device = common_dev +
  blk_buf :: "u8 list"

section \<open>Globals\<close>

text \<open>\<open>live_allocs\<close> counts the blocks obtained by \<open>kmalloc\<close> and not yet freed;
  \<open>sa_tasklet\<close> is set while the SA tasklet is scheduled.\<close>

record kernel =
  trace :: reg_trace
  live_allocs :: nat
  event_mask :: u32
  irqMask :: u32
  feature :: u32
  lgbl_d :: u32
  lgbl_dfa :: u32
  lgbl_dcic :: u32
  num_dfir :: u32
  flmcdHz :: u32
  kadc :: u32
  ilkdur :: u32
  pmdur :: u32
  pmsize :: u32
  sa_tasklet :: bool
  event :: libera_event_device
  cfg :: libera_cfg_device
  dd :: libera_dd_device
  dma :: libera_dma_t
  pm :: libera_pm_device
  sa :: libera_sa_device
  adc :: libera_adc_device
  fa :: libera_blk_device
  dsc :: libera_blk_device

text \<open>A register write of the model.\<close>

definition reg_write :: "u32 \<Rightarrow> u32 \<Rightarrow> kernel \<Rightarrow> kernel" where
  "reg_write v a k = k\<lparr>trace := writel v a (trace k)\<rparr>"

lemma reg_write_simps [simp]:
  "event (reg_write v a k) = event k"
  "cfg (reg_write v a k) = cfg k"
  "dd (reg_write v a k) = dd k"
  "dma (reg_write v a k) = dma k"
  "pm (reg_write v a k) = pm k"
  "sa (reg_write v a k) = sa k"
  "adc (reg_write v a k) = adc k"
  "fa (reg_write v a k) = fa k"
  "dsc (reg_write v a k) = dsc k"
  "event_mask (reg_write v a k) = event_mask k"
  "irqMask (reg_write v a k) = irqMask k"
  "lgbl_d (reg_write v a k) = lgbl_d k"
  "lgbl_dfa (reg_write v a k) = lgbl_dfa k"
  "flmcdHz (reg_write v a k) = flmcdHz k"
  "live_allocs (reg_write v a k) = live_allocs k"
  "pmsize (reg_write v a k) = pmsize k"
  "trace (reg_write v a k) = trace k @ [(a, v)]"
  by (simp_all add: reg_write_def writel_def)

section \<open>Register map\<close>

definition SBC_OFFSET :: u32 where "SBC_OFFSET = 0x00000000"
definition CLK_OFFSET :: u32 where "CLK_OFFSET = 0x00004000"
definition ADC_OFFSET :: u32 where "ADC_OFFSET = 0x00008000"
definition DSC_OFFSET :: u32 where "DSC_OFFSET = 0x0000c000"
definition DDC_OFFSET :: u32 where "DDC_OFFSET = 0x00014000"
definition HB_OFFSET :: u32 where "HB_OFFSET = 0x00018000"
definition FA_OFFSET :: u32 where "FA_OFFSET = 0x0001c000"
definition SA_OFFSET :: u32 where "SA_OFFSET = 0x00020000"
definition ILK_OFFSET :: u32 where "ILK_OFFSET = 0x00024000"
definition FAI_OFFSET :: u32 where "FAI_OFFSET = 0x00028000"

definition DDC_NCO :: u32 where "DDC_NCO = 0x4 + DDC_OFFSET"
definition DDC_MAF_LENGTH :: u32 where "DDC_MAF_LENGTH = 0xc + DDC_OFFSET"
definition DDC_MAF_DELAY :: u32 where "DDC_MAF_DELAY = 0x10 + DDC_OFFSET"

definition T_SC_STATUSL :: u32 where "T_SC_STATUSL = 0x0 + CLK_OFFSET"
definition T_SC_STATUSH :: u32 where "T_SC_STATUSH = 0x4 + CLK_OFFSET"
definition T_SC_EVENTGENL :: u32 where "T_SC_EVENTGENL = 0x0 + CLK_OFFSET"
definition T_SC_EVENTGENH :: u32 where "T_SC_EVENTGENH = 0x4 + CLK_OFFSET"
definition T_SC_EVENTGEN :: u32 where "T_SC_EVENTGEN = 0x8 + CLK_OFFSET"
definition T_SC_FIFOADV :: u32 where "T_SC_FIFOADV = 0x8 + CLK_OFFSET"
definition T_SC_TRIGGER_MASK :: u32 where "T_SC_TRIGGER_MASK = 0x18 + CLK_OFFSET"
definition T_MC_STATUSL :: u32 where "T_MC_STATUSL = 0xc + CLK_OFFSET"
definition T_MC_STATUSH :: u32 where "T_MC_STATUSH = 0x10 + CLK_OFFSET"
definition T_MC_EVENTGENL :: u32 where "T_MC_EVENTGENL = 0xc + CLK_OFFSET"
definition T_MC_EVENTGENH :: u32 where "T_MC_EVENTGENH = 0x10 + CLK_OFFSET"
definition T_MC_FIFOADV :: u32 where "T_MC_FIFOADV = 0x14 + CLK_OFFSET"
definition T_MC_EVENTGEN :: u32 where "T_MC_EVENTGEN = 0x14 + CLK_OFFSET"
definition T_MC_TRIGGER_MASK :: u32 where "T_MC_TRIGGER_MASK = 0x1c + CLK_OFFSET"
definition T_TRIG_DELAY :: u32 where "T_TRIG_DELAY = 0x38 + CLK_OFFSET"

definition T_TRIG_TIME_64_EXT :: nat where "T_TRIG_TIME_64_EXT = 9"
definition T_TRIG_TRIGGER :: nat where "T_TRIG_TRIGGER = 8"
definition T_TRIG_POST_MORTEM :: nat where "T_TRIG_POST_MORTEM = 7"
definition T_TRIG_MC_PRESCALER :: nat where "T_TRIG_MC_PRESCALER = 6"
definition T_TRIG_SC_PRESCALER :: nat where "T_TRIG_SC_PRESCALER = 5"
definition T_TRIG_CTIME :: nat where "T_TRIG_CTIME = 4"

definition T_EG_DDC :: nat where "T_EG_DDC = 31"
definition T_EG_HB :: nat where "T_EG_HB = 30"
definition T_EG_FA :: nat where "T_EG_FA = 29"
definition T_EG_SA :: nat where "T_EG_SA = 28"
definition T_EG_FAI :: nat where "T_EG_FAI = 25"

definition EVENT_SC_DAC :: u32 where "EVENT_SC_DAC = 0x20 + CLK_OFFSET"
definition EVENT_MC_DAC :: u32 where "EVENT_MC_DAC = 0x24 + CLK_OFFSET"

definition FAI_SW_STATUS :: u32 where "FAI_SW_STATUS = 0x14024 + FAI_OFFSET"
definition FAI_COUNTER_RESET :: u32 where "FAI_COUNTER_RESET = 0x14028 + FAI_OFFSET"
definition FAI_PLL_STATUS_MASK :: u32 where "FAI_PLL_STATUS_MASK = 3"

definition SBC_IRQ_MASK :: u32 where "SBC_IRQ_MASK = 0 + SBC_OFFSET"
definition SBC_IRQ :: u32 where "SBC_IRQ = 0 + SBC_OFFSET"

definition TRIG_ALL_MASK :: u32 where "TRIG_ALL_MASK = push_bit 22 0x1FF"

text \<open>
  The macro has no parentheses: \<open>~TRIG_ALL_MASK\<close> reads \<open>(~0x1FF) << 22\<close>, which keeps bit 31
  alone.
\<close>

definition not_TRIG_ALL_MASK :: u32 where "not_TRIG_ALL_MASK = push_bit 22 (NOT 0x1FF)"

lemma not_TRIG_ALL_MASK_value: "not_TRIG_ALL_MASK = 0x80000000"
  by (simp add: not_TRIG_ALL_MASK_def)

definition SELF_INC_TRIGGER :: u32 where "SELF_INC_TRIGGER = push_bit 22 0x200"

definition TRIG_EVENTS_MAX :: nat where "TRIG_EVENTS_MAX = 11"

definition TRIGGER_BIT :: "nat \<Rightarrow> u32" where
  "TRIGGER_BIT x = push_bit (x + 22) 1"

text \<open>Events and trigger modes (\<open>libera.h\<close>).\<close>

definition LIBERA_EVENT_OVERFLOW :: s32 where "LIBERA_EVENT_OVERFLOW = 1"
definition LIBERA_EVENT_CFG :: s32 where "LIBERA_EVENT_CFG = 2"
definition LIBERA_EVENT_SA :: s32 where "LIBERA_EVENT_SA = 4"
definition LIBERA_EVENT_INTERLOCK :: s32 where "LIBERA_EVENT_INTERLOCK = 8"
definition LIBERA_EVENT_PM :: s32 where "LIBERA_EVENT_PM = 16"
definition LIBERA_EVENT_FA :: s32 where "LIBERA_EVENT_FA = 32"
definition LIBERA_EVENT_TRIGGET :: s32 where "LIBERA_EVENT_TRIGGET = 64"
definition LIBERA_EVENT_TRIGSET :: s32 where "LIBERA_EVENT_TRIGSET = 128"

definition LIBERA_OVERFLOW_DD_FPGA :: s32 where "LIBERA_OVERFLOW_DD_FPGA = 0"
definition LIBERA_OVERFLOW_SA_FPGA :: s32 where "LIBERA_OVERFLOW_SA_FPGA = 1"
definition LIBERA_OVERFLOW_SA_DRV :: s32 where "LIBERA_OVERFLOW_SA_DRV = 2"

definition LIBERA_TRIGMODE_UNKNOWN :: u32 where "LIBERA_TRIGMODE_UNKNOWN = 0"
definition LIBERA_TRIGMODE_GET :: u32 where "LIBERA_TRIGMODE_GET = 1"
definition LIBERA_TRIGMODE_SET :: u32 where "LIBERA_TRIGMODE_SET = 2"

definition LIBERA_CFG_TRIGMODE :: nat where "LIBERA_CFG_TRIGMODE = 0"
definition LIBERA_CFG_MCPLL :: nat where "LIBERA_CFG_MCPLL = 1"
definition LIBERA_CFG_SCPLL :: nat where "LIBERA_CFG_SCPLL = 2"
definition LIBERA_CFG_FEATURE_CUSTOMER :: nat where "LIBERA_CFG_FEATURE_CUSTOMER = 3"
definition LIBERA_CFG_FEATURE_ITECH :: nat where "LIBERA_CFG_FEATURE_ITECH = 4"
definition LIBERA_CFG_CUSTOM_FIRST :: nat where "LIBERA_CFG_CUSTOM_FIRST = 128"

definition LIBERA_SETTIME_ST :: u32 where "LIBERA_SETTIME_ST = 1"
definition LIBERA_SETTIME_MT :: u32 where "LIBERA_SETTIME_MT = 2"

section \<open>Shared functions\<close>

definition set_irqMask :: "u32 \<Rightarrow> kernel \<Rightarrow> kernel" where
  "set_irqMask newMask k = reg_write newMask SBC_IRQ_MASK (k\<lparr>irqMask := newMask\<rparr>)"

text \<open>Sending an event to the daemon; the kernel log and the wake-up have no state here.\<close>

definition libera_send_event :: "s32 \<Rightarrow> s32 \<Rightarrow> kernel \<Rightarrow> kernel \<times> (errno + int)" where
  "libera_send_event eid param k =
     (if eid AND event_mask k = 0 then (k, Inl EINVAL)
      else
        let (q, r) = putTo_eventFIFO (events (event k)) \<lparr>ev_id = eid, ev_param = param\<rparr> in
        (k\<lparr>event := (event k)\<lparr>events := q\<rparr>\<rparr>, Inr 0))"

text \<open>The default file operations of \<open>libera_main.c\<close> refuse.\<close>

definition libera_llseek :: "errno + int" where "libera_llseek = Inl ESPIPE"
definition libera_read :: "errno + int" where "libera_read = Inl EINVAL"
definition libera_write :: "errno + int" where "libera_write = Inl EINVAL"
definition libera_ioctl :: "errno + int" where "libera_ioctl = Inl EINVAL"

text \<open>
  \<open>libera_open\<close> dispatches on the minor number; the devices are numbered as in
  \<open>libera_fops_array\<close>.
\<close>

datatype libera_minor =
    MINOR_CFG | MINOR_DD | MINOR_FA | MINOR_PM | MINOR_SA | MINOR_EVENT | MINOR_ADC | MINOR_DSC

definition libera_fops_array :: "libera_minor list" where
  "libera_fops_array =
     [MINOR_CFG, MINOR_DD, MINOR_FA, MINOR_PM, MINOR_SA, MINOR_EVENT, MINOR_ADC, MINOR_DSC]"

definition LIBERA_MAX_MINOR :: nat where "LIBERA_MAX_MINOR = 7"

definition libera_open :: "nat \<Rightarrow> errno + libera_minor" where
  "libera_open minor =
     (if LIBERA_MAX_MINOR < minor then Inl ENODEV else Inr (libera_fops_array ! minor))"

lemma send_event_frame [simp]:
  "sa (fst (libera_send_event eid p k)) = sa k" "dd (fst (libera_send_event eid p k)) = dd k"
  "dma (fst (libera_send_event eid p k)) = dma k" "pm (fst (libera_send_event eid p k)) = pm k"
  "cfg (fst (libera_send_event eid p k)) = cfg k" "trace (fst (libera_send_event eid p k)) = trace k"
  "adc (fst (libera_send_event eid p k)) = adc k" "irqMask (fst (libera_send_event eid p k)) = irqMask k"
  "event_mask (fst (libera_send_event eid p k)) = event_mask k"
  "lgbl_d (fst (libera_send_event eid p k)) = lgbl_d k"
  "lgbl_dfa (fst (libera_send_event eid p k)) = lgbl_dfa k"
  "live_allocs (fst (libera_send_event eid p k)) = live_allocs k"
  by (simp_all add: libera_send_event_def split: prod.splits)

lemma send_event_masked:
  "eid AND event_mask k = 0 \<Longrightarrow> libera_send_event eid param k = (k, Inl EINVAL)"
  by (simp add: libera_send_event_def)

lemma send_event_sent:
  assumes "eid AND event_mask k \<noteq> 0" "event_fifo_ok (events (event k))"
    "libera_send_event eid param k = (k', r)"
  shows "r = Inr 0" "event_fifo_ok (events (event k'))"
    "event_fifo_list (events (event k')) =
       (if length (event_fifo_list (events (event k))) < 4095
        then event_fifo_list (events (event k)) @ [\<lparr>ev_id = eid, ev_param = param\<rparr>]
        else event_fifo_list (events (event k)))"
proof -
  obtain q n where p: "putTo_eventFIFO (events (event k)) \<lparr>ev_id = eid, ev_param = param\<rparr> = (q, n)"
    by fastforce
  have k': "k' = k\<lparr>event := (event k)\<lparr>events := q\<rparr>\<rparr>" "r = Inr 0"
    using assms(1,3) p by (simp_all add: libera_send_event_def split: if_splits)
  have "event_fifo_ok q \<and> event_fifo_list q =
      (if length (event_fifo_list (events (event k))) < 4095
       then event_fifo_list (events (event k)) @ [\<lparr>ev_id = eid, ev_param = param\<rparr>]
       else event_fifo_list (events (event k)))"
    using event_fifo.put_cases [OF assms(2), of "\<lparr>ev_id = eid, ev_param = param\<rparr>"] p assms(2)
    by (metis less_irrefl prod.inject)
  then show "r = Inr 0" "event_fifo_ok (events (event k'))"
    "event_fifo_list (events (event k')) =
       (if length (event_fifo_list (events (event k))) < 4095
        then event_fifo_list (events (event k)) @ [\<lparr>ev_id = eid, ev_param = param\<rparr>]
        else event_fifo_list (events (event k)))"
    using k' by simp_all
qed

section \<open>Initial state\<close>

text \<open>
  \<open>libera_init_devs\<close> clears every device and the globals and sets the fields that do not start
  at zero. \<open>boot_kernel\<close> is the memory of the freshly loaded module with its default
  parameters.
\<close>

definition LIBERA_FLMC_INITIAL :: u32 where "LIBERA_FLMC_INITIAL = 1080000000"
definition LIBERA_KADC_INITIAL :: u32 where "LIBERA_KADC_INITIAL = 1000"
definition LIBERA_DUR_INITIAL :: u32 where "LIBERA_DUR_INITIAL = 1000"
definition LIBERA_PMSIZE_INITIAL :: u32 where "LIBERA_PMSIZE_INITIAL = 16384"

definition empty_ring :: "'a \<Rightarrow> 'a ring" where
  "empty_ring z = \<lparr>rdata = (\<lambda>_. z), rput = 0, rget = 0\<rparr>"

definition init_cfg :: libera_cfg_device where
  "init_cfg = \<lparr>open_count = 0, writers = 0, readers = 0, master_filp = None, sem = False,
     cfg_param = (\<lambda>_. 0)(LIBERA_CFG_TRIGMODE := LIBERA_TRIGMODE_GET), pm_freezed = 0\<rparr>"

definition init_dd :: libera_dd_device where
  "init_dd = \<lparr>open_count = 0, writers = 0, readers = 0, master_filp = None, sem = False,
     decimation = 1, dd_irqevents = empty_ring 0, pm_entry = 0\<rparr>"

definition zero_timestamp :: libera_timestamp_t where
  "zero_timestamp = \<lparr>ts_st = \<lparr>tv_sec = 0, tv_nsec = 0\<rparr>, ts_mt = 0\<rparr>"

definition init_pm :: libera_pm_device where
  "init_pm = \<lparr>open_count = 0, writers = 0, readers = 0, master_filp = None, sem = False,
     pm_buf = (\<lambda>_. replicate 8 0), PMevent = \<lparr>lst = 0, lmt = 0\<rparr>, pm_tstamp = zero_timestamp\<rparr>"

definition init_sa :: libera_sa_device where
  "init_sa = \<lparr>open_count = 0, writers = 0, readers = 0, master_filp = None, sem = False,
     pipe = \<lparr>sa_pipe = (\<lambda>_. None), registered = 0, next_pipe = 0\<rparr>, sa_heap = (\<lambda>_. None),
     sa_buf = (\<lambda>_. replicate 16 0), buf_head = 0, buf_tail = 0, inputovr = False\<rparr>"

definition init_settime :: libera_settime_t where
  "init_settime = \<lparr>st_update = 0, st_lst_ref = 0, st_lst_off = 0, st_lst_scphi = 0, st_lmt_ref = 0,
     st_lmt_off_all = 0, st_lmt_off = 0, st_lmt_off_pll = 0, st_lmt_mcphi = 0\<rparr>"

definition init_event :: libera_event_device where
  "init_event = \<lparr>open_count = 0, writers = 0, readers = 0, master_filp = None, sem = False,
     CTIME_sem = False,
     paired_timestamps = (\<lambda>_. \<lparr>cstamp = (\<lambda>_. \<lparr>lst = 0, lmt = 0\<rparr>), cput = 0\<rparr>),
     sc_timestamps = (\<lambda>_. empty_ring 0), mc_timestamps = (\<lambda>_. empty_ring 0),
     events = empty_ring \<lparr>ev_id = 0, ev_param = 0\<rparr>,
     sc_time = 0, mc_time = 0, sc_trigVec = 0, mc_trigVec = 0, settime = init_settime,
     HB_start_lmt = 0x8000000, HB_offset_lmt = 0, ValidTrigVector = 0xffffffff,
     evgen = \<lparr>eg_time = 0x8000000,
       eg_event = push_bit T_EG_DDC 1 OR push_bit T_EG_HB 1 OR push_bit T_EG_FAI 1
         OR push_bit T_EG_FA 1 OR push_bit T_EG_SA 1\<rparr>\<rparr>"

definition init_adc :: libera_adc_device where
  "init_adc = \<lparr>open_count = 0, writers = 0, readers = 0, master_filp = None, sem = False,
     trig_lock = 0, adc_buf = replicate 1024 [0, 0, 0, 0], adc_op = None\<rparr>"

definition init_blk :: "nat \<Rightarrow> libera_blk_device" where
  "init_blk n = \<lparr>open_count = 0, writers = 0, readers = 0, master_filp = None, sem = False,
     blk_buf = replicate n 0\<rparr>"

definition init_dma :: libera_dma_t where
  "init_dma = \<lparr>dma_buf = (\<lambda>_. replicate 8 0), dma_put = 0, dma_get = 0, csize = 0, remaining = 0,
     obFIFOstatus = 0, Overrun = False, DMAC_transfer = False, aborting = False, written = 0\<rparr>"

definition FAI_BLOCKSIZE :: nat where "FAI_BLOCKSIZE = 0x14000"
definition DSC_BLOCKSIZE :: nat where "DSC_BLOCKSIZE = 0xc000"

definition libera_init_devs :: "kernel \<Rightarrow> kernel" where
  "libera_init_devs k = k\<lparr>
     event_mask := 0, irqMask := 0, feature := 0, lgbl_d := 0, lgbl_dfa := 0, lgbl_dcic := 0,
     num_dfir := 0, event := init_event, cfg := init_cfg, dd := init_dd, dma := init_dma,
     pm := init_pm, sa := init_sa, adc := init_adc, fa := init_blk FAI_BLOCKSIZE,
     dsc := init_blk DSC_BLOCKSIZE\<rparr>"

definition boot_kernel :: kernel where
  "boot_kernel = libera_init_devs \<lparr>trace = [], live_allocs = 0,
     event_mask = 0, irqMask = 0, feature = 0, lgbl_d = 0, lgbl_dfa = 0, lgbl_dcic = 0, num_dfir = 0,
     flmcdHz = LIBERA_FLMC_INITIAL, kadc = LIBERA_KADC_INITIAL, ilkdur = LIBERA_DUR_INITIAL,
     pmdur = LIBERA_DUR_INITIAL, pmsize = LIBERA_PMSIZE_INITIAL,
     sa_tasklet = False, event = init_event, cfg = init_cfg, dd = init_dd, dma = init_dma, pm = init_pm, sa = init_sa,
     adc = init_adc, fa = init_blk 0, dsc = init_blk 0\<rparr>"

lemma boot_kernel_simps [simp]:
  "event boot_kernel = init_event" "cfg boot_kernel = init_cfg" "dd boot_kernel = init_dd"
  "dma boot_kernel = init_dma" "pm boot_kernel = init_pm" "sa boot_kernel = init_sa"
  "adc boot_kernel = init_adc" "event_mask boot_kernel = 0" "irqMask boot_kernel = 0"
  "live_allocs boot_kernel = 0" "trace boot_kernel = []" "flmcdHz boot_kernel = LIBERA_FLMC_INITIAL"
  "lgbl_d boot_kernel = 0" "lgbl_dfa boot_kernel = 0" "pmsize boot_kernel = LIBERA_PMSIZE_INITIAL"
  by (simp_all add: boot_kernel_def libera_init_devs_def)

lemma empty_ring_inv: "k < 32 \<Longrightarrow> ring_inv k (empty_ring z) \<and> ring_list k (empty_ring z) = []"
  by (simp add: empty_ring_def ring_inv_def ring_list_def ring_len_def unat_and_mask unat_pow2_word)

end
