(* ===== verification/Libera_Event.thy ===== *)
theory Libera_Event
  imports Libera_Kernel
begin

text \<open>
  The event device (\<open>libera_event.c\<close>): opening and closing with a single writer, the
  trigger subscriptions of each descriptor, the blocking reads of trigger stamps, the ioctl
  commands, and the delivery of asynchronous events to the daemon.

  The calls that sleep take a list of wake-ups: what happened in each sleep (stamps put
  by the interrupt handlers, or events sent), whether a signal is pending after it, the
  jiffies left, and whether another process holds the device mutex at that moment. An empty
  list means that nobody wakes the caller, which is the value \<open>Hang\<close>.
\<close>

section \<open>Descriptors\<close>

record libera_event_local =
  loc_sc_trigVec :: u32
  loc_mc_trigVec :: u32

section \<open>Trigger masks\<close>

definition libera_sctrig_enable :: "u32 \<Rightarrow> kernel \<Rightarrow> kernel \<times> int" where
  "libera_sctrig_enable msk k =
     (if msk AND not_TRIG_ALL_MASK \<noteq> 0 then (k, - 1)
      else
        let k = k\<lparr>event := (event k)\<lparr>sc_trigVec := sc_trigVec (event k) OR msk\<rparr>\<rparr> in
        (reg_write (sc_trigVec (event k) OR 0x80000000) T_SC_TRIGGER_MASK k, 0))"

definition libera_mctrig_enable :: "u32 \<Rightarrow> kernel \<Rightarrow> kernel \<times> int" where
  "libera_mctrig_enable msk k =
     (if msk AND not_TRIG_ALL_MASK \<noteq> 0 then (k, - 1)
      else
        let k = k\<lparr>event := (event k)\<lparr>mc_trigVec := mc_trigVec (event k) OR msk\<rparr>\<rparr> in
        (reg_write (mc_trigVec (event k) OR 0x80000000) T_MC_TRIGGER_MASK k, 0))"

section \<open>Open and release\<close>

text \<open>
  \<open>kmalloc_ok\<close> says whether the allocation succeeds. The new descriptor data is returned
  together with the result: \<open>file->f_version\<close> holds it even when the call then fails.
\<close>

definition libera_event_open ::
  "filp \<Rightarrow> bool \<Rightarrow> kernel \<Rightarrow> (kernel \<times> libera_event_local option \<times> (errno + int)) call" where
  "libera_event_open f kmalloc_ok k =
     (if sem (event k) then Hang
      else if \<not> kmalloc_ok then Ret (k, None, Inl ENOMEM)
      else
        let loc = \<lparr>loc_sc_trigVec = 0, loc_mc_trigVec = 0\<rparr>;
            k = k\<lparr>live_allocs := live_allocs k + 1\<rparr>
        in if fmode_write f \<and> master_filp (event k) \<noteq> None then Ret (k, Some loc, Inl EBUSY)
        else
          let dev = event k;
              dev = (if fmode_write f
                     then dev\<lparr>master_filp := Some (file_id f), events := flush_eventFIFO (events dev),
                       writers := writers dev + 1\<rparr>
                     else dev);
              dev = (if fmode_read f then dev\<lparr>readers := readers dev + 1\<rparr> else dev);
              dev = dev\<lparr>open_count := open_count dev + 1\<rparr>
          in Ret (k\<lparr>event := dev\<rparr>, Some loc, Inr 0))"

text \<open>\<open>release\<close> takes no mutex.\<close>

definition libera_event_release :: "filp \<Rightarrow> libera_event_local \<Rightarrow> kernel \<Rightarrow> kernel" where
  "libera_event_release f loc k =
     (let k = k\<lparr>event := (event k)\<lparr>open_count := open_count (event k) - 1\<rparr>\<rparr>;
          k = (if fmode_read f then
                 let k = k\<lparr>event := (event k)\<lparr>readers := readers (event k) - 1\<rparr>\<rparr> in
                 if \<not> fmode_write f then
                   let k = k\<lparr>event := (event k)\<lparr>
                         mc_trigVec := mc_trigVec (event k) AND NOT (loc_mc_trigVec loc),
                         sc_trigVec := sc_trigVec (event k) AND NOT (loc_sc_trigVec loc)\<rparr>\<rparr>;
                       k = reg_write (sc_trigVec (event k) OR 0x80000000) T_SC_TRIGGER_MASK k
                   in reg_write (mc_trigVec (event k) OR 0x80000000) T_MC_TRIGGER_MASK k
                 else k
               else k);
          k = (if fmode_write f then
                 let k = k\<lparr>event := (event k)\<lparr>writers := writers (event k) - 1\<rparr>\<rparr> in
                 if writers (event k) = 0 then
                   k\<lparr>event := (event k)\<lparr>master_filp := None,
                       events := flush_eventFIFO (events (event k))\<rparr>, event_mask := 0\<rparr>
                 else k
               else k)
      in k\<lparr>live_allocs := live_allocs k - 1\<rparr>)"

section \<open>Blocking reads of trigger stamps\<close>

datatype fifo_sel = SCQ nat | MCQ nat | DDQ

fun fifo_of :: "fifo_sel \<Rightarrow> kernel \<Rightarrow> libera_fifo" where
  "fifo_of (SCQ i) k = sc_timestamps (event k) i"
| "fifo_of (MCQ i) k = mc_timestamps (event k) i"
| "fifo_of DDQ k = dd_irqevents (dd k)"

fun set_fifo :: "fifo_sel \<Rightarrow> libera_fifo \<Rightarrow> kernel \<Rightarrow> kernel" where
  "set_fifo (SCQ i) q k =
     k\<lparr>event := (event k)\<lparr>sc_timestamps := (sc_timestamps (event k))(i := q)\<rparr>\<rparr>"
| "set_fifo (MCQ i) q k =
     k\<lparr>event := (event k)\<lparr>mc_timestamps := (mc_timestamps (event k))(i := q)\<rparr>\<rparr>"
| "set_fifo DDQ q k = k\<lparr>dd := (dd k)\<lparr>dd_irqevents := q\<rparr>\<rparr>"

definition set_event_sem :: "bool \<Rightarrow> kernel \<Rightarrow> kernel" where
  "set_event_sem b k = k\<lparr>event := (event k)\<lparr>sem := b\<rparr>\<rparr>"

text \<open>What the interrupt handlers do to the FIFOs in a sleep; a full FIFO drops the stamp.\<close>

definition irq_stamp :: "fifo_sel \<times> u64 \<Rightarrow> kernel \<Rightarrow> kernel" where
  "irq_stamp st k = set_fifo (fst st) (fst (putToFIFO (fifo_of (fst st) k) (snd st))) k"

record wake =
  wk_stamps :: "(fifo_sel \<times> u64) list"
  wk_signal :: bool
  wk_left :: u32
  wk_held :: bool

fun fifo_wait ::
  "fifo_sel \<Rightarrow> bool \<Rightarrow> wake list \<Rightarrow> kernel \<Rightarrow> (kernel \<times> errno option) call" where
  "fifo_wait s sig [] k =
     (if not_emptyFIFO (fifo_of s k) then Ret (k, None)
      else if sig then Ret (k, Some ERESTARTSYS) else Hang)"
| "fifo_wait s sig (w # ws) k =
     (if not_emptyFIFO (fifo_of s k) then Ret (k, None)
      else if sig then Ret (k, Some ERESTARTSYS)
      else fifo_wait s (wk_signal w) ws (fold irq_stamp (wk_stamps w) k))"

definition getBlockedFromFIFO ::
  "fifo_sel \<Rightarrow> bool \<Rightarrow> wake list \<Rightarrow> kernel \<Rightarrow> (kernel \<times> (errno + u64)) call" where
  "getBlockedFromFIFO s sig ws k =
     (case mutex_lock_interruptible sig (sem (event k)) of
        Interrupted \<Rightarrow> Ret (k, Inl ERESTARTSYS)
      | Sleeps \<Rightarrow> Hang
      | Acquired \<Rightarrow>
          call_bind (fifo_wait s sig ws (set_event_sem True k)) (\<lambda>(k, e).
            case e of
              Some err \<Rightarrow> Ret (set_event_sem False k, Inl err)
            | None \<Rightarrow>
                (case getFromFIFO (fifo_of s k) of
                   (q, None) \<Rightarrow> Ret (set_event_sem False k, Inl EFAULT)
                 | (q, Some t) \<Rightarrow> Ret (set_event_sem False (set_fifo s q k), Inr t))))"

text \<open>
  The variant with a timeout. When the time is up the loop breaks without the mutex, which may
  be held by another process (\<open>wk_held\<close>); the exit path unlocks it all the same.
\<close>

fun fifo_wait_timeout ::
  "fifo_sel \<Rightarrow> bool \<Rightarrow> wake list \<Rightarrow> kernel \<Rightarrow> (kernel \<times> errno option) call" where
  "fifo_wait_timeout s sig [] k =
     (if not_emptyFIFO (fifo_of s k) then Ret (k, None)
      else if sig then Ret (k, Some ERESTARTSYS) else Hang)"
| "fifo_wait_timeout s sig (w # ws) k =
     (if not_emptyFIFO (fifo_of s k) then Ret (k, None)
      else if sig then Ret (k, Some ERESTARTSYS)
      else
        let k = fold irq_stamp (wk_stamps w) (set_event_sem (wk_held w) k) in
        if wk_left w = 0 then Ret (k, Some EAGAIN)
        else fifo_wait_timeout s (wk_signal w) ws (set_event_sem True k))"

text \<open>\<open>uncopied\<close> is what \<open>copy_to_user\<close> returns: the number of bytes it could not copy.\<close>

definition getBlockedFromFIFOuser ::
  "fifo_sel \<Rightarrow> bool \<Rightarrow> wake list \<Rightarrow> u32 \<Rightarrow> kernel \<Rightarrow> (kernel \<times> (errno + u64)) call" where
  "getBlockedFromFIFOuser s sig ws uncopied k =
     (case mutex_lock_interruptible sig (sem (event k)) of
        Interrupted \<Rightarrow> Ret (k, Inl ERESTARTSYS)
      | Sleeps \<Rightarrow> Hang
      | Acquired \<Rightarrow>
          call_bind (fifo_wait_timeout s sig ws (set_event_sem True k)) (\<lambda>(k, e).
            case e of
              Some err \<Rightarrow> Ret (set_event_sem False k, Inl err)
            | None \<Rightarrow>
                (case getFromFIFO (fifo_of s k) of
                   (q, None) \<Rightarrow> Ret (set_event_sem False k, Inl EFAULT)
                 | (q, Some t) \<Rightarrow>
                     Ret (set_event_sem False (set_fifo s q k),
                       if uncopied \<noteq> 0 then Inl EFAULT else Inr t))))"

section \<open>Current time\<close>

text \<open>
  \<open>libera_get_CTIME\<close> fires the software trigger and waits for the stamps. The result is the
  pair read, or the error.
\<close>

definition libera_get_CTIME ::
  "bool \<Rightarrow> wake list \<Rightarrow> kernel \<Rightarrow> (kernel \<times> (errno + libera_Ltimestamp_t)) call" where
  "libera_get_CTIME sig ws k =
     (case mutex_lock_interruptible sig (CTIME_sem (event k)) of
        Interrupted \<Rightarrow> Ret (k, Inl ERESTARTSYS)
      | Sleeps \<Rightarrow> Hang
      | Acquired \<Rightarrow>
          let k = reg_write (TRIGGER_BIT T_TRIG_CTIME) T_SC_EVENTGEN
                    (k\<lparr>event := (event k)\<lparr>CTIME_sem := True\<rparr>\<rparr>)
          in call_bind (getBlockedFromFIFO (MCQ T_TRIG_CTIME) sig ws k) (\<lambda>(k, r).
            case r of
              Inl err \<Rightarrow> Ret (k\<lparr>event := (event k)\<lparr>CTIME_sem := False\<rparr>\<rparr>, Inl err)
            | Inr m \<Rightarrow>
                (case getFromFIFO (sc_timestamps (event k) T_TRIG_CTIME) of
                   (q, None) \<Rightarrow> Ret (k\<lparr>event := (event k)\<lparr>CTIME_sem := False\<rparr>\<rparr>, Inl EFAULT)
                 | (q, Some t) \<Rightarrow>
                     Ret (let k = set_fifo (SCQ T_TRIG_CTIME) q k in k\<lparr>event := (event k)\<lparr>CTIME_sem := False\<rparr>\<rparr>,
                       Inr \<lparr>lst = t, lmt = m\<rparr>))))"

section \<open>Reading events\<close>

text \<open>A sleep of the reader: the events sent in it, and whether a signal is pending after it.\<close>

fun event_wait ::
  "bool \<Rightarrow> (libera_event_t list \<times> bool) list \<Rightarrow> libera_event_fifo \<Rightarrow> (libera_event_fifo \<times> errno option) call" where
  "event_wait sig [] q =
     (if not_empty_eventFIFO q then Ret (q, None)
      else if sig then Ret (q, Some ERESTARTSYS) else Hang)"
| "event_wait sig (w # ws) q =
     (if not_empty_eventFIFO q then Ret (q, None)
      else if sig then Ret (q, Some ERESTARTSYS)
      else event_wait (snd w) ws (fold (\<lambda>e q. fst (putTo_eventFIFO q e)) (fst w) q))"

text \<open>The copy loop: \<open>fails i\<close> when \<open>copy_to_user\<close> of the \<open>i\<close>-th event does not succeed.\<close>

fun event_copy ::
  "(nat \<Rightarrow> bool) \<Rightarrow> nat \<Rightarrow> nat \<Rightarrow> libera_event_fifo \<Rightarrow> libera_event_t list \<Rightarrow> u32
     \<Rightarrow> libera_event_fifo \<times> libera_event_t list \<times> (errno + u32)" where
  "event_copy fails i 0 q out ret = (q, out, Inr ret)"
| "event_copy fails i (Suc n) q out ret =
     (case getFrom_eventFIFO q of
        (q, None) \<Rightarrow> (q, out, Inl EFAULT)
      | (q, Some data) \<Rightarrow>
          if fails i then (q, out, Inl EFAULT)
          else event_copy fails (i + 1) n q (out @ [data]) (ret + 8))"

definition libera_event_read ::
  "filp \<Rightarrow> bool \<Rightarrow> (libera_event_t list \<times> bool) list \<Rightarrow> (nat \<Rightarrow> bool) \<Rightarrow> u32 \<Rightarrow> kernel
     \<Rightarrow> (kernel \<times> libera_event_t list \<times> (errno + u32)) call" where
  "libera_event_read f sig ws fails count k =
     (case mutex_lock_interruptible sig (sem (event k)) of
        Interrupted \<Rightarrow> Ret (k, [], Inl ERESTARTSYS)
      | Sleeps \<Rightarrow> Hang
      | Acquired \<Rightarrow>
          if o_nonblock f \<and> empty_eventFIFO (events (event k)) then Ret (k, [], Inl EAGAIN)
          else if count = 0 then Ret (k, [], Inr 0)
          else if count mod 8 \<noteq> 0 then Ret (k, [], Inl EINVAL)
          else call_bind (event_wait sig ws (events (event k))) (\<lambda>(q, e).
            case e of
              Some err \<Rightarrow> Ret (k\<lparr>event := (event k)\<lparr>events := q\<rparr>\<rparr>, [], Inl err)
            | None \<Rightarrow>
                let event_count = min (count div 8) (len_eventFIFO q);
                    (q, out, r) = event_copy fails 0 (unat event_count) q [] 0
                in Ret (k\<lparr>event := (event k)\<lparr>events := q\<rparr>\<rparr>, out, r)))"

definition libera_event_poll :: "kernel \<Rightarrow> bool" where
  "libera_event_poll k = not_empty_eventFIFO (events (event k))"

section \<open>Enabling triggers\<close>

text \<open>
  The two nested loops of \<open>LIBERA_EVENT_ENABLE_SC_TRIG\<close>: \<open>m\<close> starts at bit 22 again for every
  trigger, the FIFO index \<open>i\<close> does not. \<open>find_trig\<close> carries the position \<open>n\<close> of the one bit of \<open>m\<close>.
\<close>

function find_trig :: "nat \<Rightarrow> u16 \<Rightarrow> u32 \<Rightarrow> u16 \<times> u32" where
  "find_trig n i arg =
     (if push_bit n 1 AND arg \<noteq> 0 \<or> 32 \<le> n then (i, push_bit n 1)
      else find_trig (Suc n) (i + 1) arg)"
  by pat_completeness auto
termination by (relation "measure (\<lambda>(n, i, arg). 32 - n)") auto

declare find_trig.simps [simp del]

lemma two_pow_and: "2 ^ n AND (a :: u32) = (if bit a n then 2 ^ n else 0)"
  by (rule bit_word_eqI) (auto simp: bit_simps)

lemma two_pow_nonzero: "n < 32 \<Longrightarrow> (2 :: u32) ^ n \<noteq> 0"
  by (simp add: unat_eq_0 [symmetric] unat_pow2_word)

lemma find_trig_spec:
  assumes "n \<le> p" "p < 32" "bit arg p" "\<And>j. n \<le> j \<Longrightarrow> j < p \<Longrightarrow> \<not> bit arg j"
  shows "find_trig n i arg = (i + of_nat (p - n), push_bit p 1)"
  using assms
proof (induction "p - n" arbitrary: n i)
  case 0
  then have "n = p" by simp
  then show ?case using 0 by (subst find_trig.simps) (simp add: two_pow_and two_pow_nonzero)
next
  case (Suc x)
  then have "n < p" by simp
  then have "find_trig n i arg = find_trig (Suc n) (i + 1) arg"
    using Suc.prems by (subst find_trig.simps) (simp add: two_pow_and two_pow_nonzero)
  also have "\<dots> = (i + 1 + of_nat (p - Suc n), push_bit p 1)"
    using Suc by (intro Suc.hyps(1)) auto
  also have "i + 1 + of_nat (p - Suc n) = i + of_nat (p - n)"
  proof -
    have "p - n = Suc (p - Suc n)" using \<open>n < p\<close> by simp
    then show ?thesis by (simp only: of_nat_Suc) (simp add: add.assoc)
  qed
  finally show ?case .
qed

lemma TRIG_ALL_MASK_bit: "bit TRIG_ALL_MASK n \<longleftrightarrow> 22 \<le> n \<and> n \<le> 30"
proof -
  have m: "TRIG_ALL_MASK = push_bit 22 (mask 9)"
    by (simp add: TRIG_ALL_MASK_def mask_eq_exp_minus_1)
  show ?thesis by (auto simp: m bit_simps)
qed

lemma lowest_trig:
  assumes "arg AND TRIG_ALL_MASK \<noteq> 0"
  obtains p where "22 \<le> p" "p \<le> 30" "bit arg p" "\<And>j. 22 \<le> j \<Longrightarrow> j < p \<Longrightarrow> \<not> bit arg j"
proof -
  have "\<exists>n. bit (arg AND TRIG_ALL_MASK) n"
    using assms by (metis bit_0_eq bit_word_eqI bot_apply bot_bool_def)
  then have ex: "\<exists>n. 22 \<le> n \<and> n \<le> 30 \<and> bit arg n"
    by (auto simp: bit_and_iff TRIG_ALL_MASK_bit)
  define p where "p = (LEAST n. 22 \<le> n \<and> n \<le> 30 \<and> bit arg n)"
  have p: "22 \<le> p \<and> p \<le> 30 \<and> bit arg p" unfolding p_def by (rule LeastI_ex [OF ex])
  have "\<not> bit arg j" if "22 \<le> j" "j < p" for j
    using that p not_less_Least [of j "\<lambda>n. 22 \<le> n \<and> n \<le> 30 \<and> bit arg n"]
    by (auto simp: p_def [symmetric])
  then show ?thesis using p that by blast
qed

lemma clear_bit_less: "bit (a :: u32) p \<Longrightarrow> unat (a AND NOT (push_bit p 1)) < unat a"
proof -
  assume b: "bit a p"
  have "a AND NOT (push_bit p 1) \<le> a" by (rule word_and_le2)
  moreover have "a AND NOT (push_bit p 1) \<noteq> a"
  proof
    assume "a AND NOT (push_bit p 1) = a"
    then have "bit (a AND NOT (push_bit p 1)) p" using b by simp
    then show False by (simp add: bit_simps)
  qed
  ultimately have "a AND NOT (push_bit p 1) < a" by (rule order.not_eq_order_implies_strict [rotated])
  then show ?thesis by (simp only: word_less_nat_alt)
qed

lemma find_trig_clears:
  assumes "arg AND TRIG_ALL_MASK \<noteq> 0"
  shows "unat (arg AND NOT (snd (find_trig 22 i arg))) < unat arg"
proof -
  obtain p where "22 \<le> p" "p \<le> 30" "bit arg p" "\<And>j. 22 \<le> j \<Longrightarrow> j < p \<Longrightarrow> \<not> bit arg j"
    by (rule lowest_trig [OF assms]) blast
  then have "find_trig 22 i arg = (i + of_nat (p - 22), push_bit p 1)"
    by (intro find_trig_spec) auto
  then show ?thesis using clear_bit_less [OF \<open>bit arg p\<close>] by simp
qed

text \<open>The FIFO indices flushed, in order.\<close>

function trig_flush :: "u16 \<Rightarrow> u32 \<Rightarrow> u16 list" where
  "trig_flush i arg =
     (if arg AND TRIG_ALL_MASK = 0 then []
      else let (i', m) = find_trig 22 i arg in i' # trig_flush i' (arg AND NOT m))"
  by pat_completeness auto
termination
  by (relation "measure (\<lambda>(i, arg). unat arg)")
     (auto, metis find_trig_clears snd_conv)

declare trig_flush.simps [simp del]

text \<open>
  An index outside the array of \<open>TRIG_EVENTS_MAX\<close> FIFOs is a write outside the array.
\<close>

definition flush_scs :: "u16 list \<Rightarrow> kernel \<Rightarrow> kernel call" where
  "flush_scs is k =
     (if \<forall>i\<in>set is. unat i < TRIG_EVENTS_MAX
      then Ret (fold (\<lambda>i k. set_fifo (SCQ (unat i)) (flushFIFO (sc_timestamps (event k) (unat i))) k) is k)
      else Fault)"

definition flush_mcs :: "u16 list \<Rightarrow> kernel \<Rightarrow> kernel call" where
  "flush_mcs is k =
     (if \<forall>i\<in>set is. unat i < TRIG_EVENTS_MAX
      then Ret (fold (\<lambda>i k. set_fifo (MCQ (unat i)) (flushFIFO (mc_timestamps (event k) (unat i))) k) is k)
      else Fault)"

definition cmd_enable_sc_trig ::
  "u32 \<Rightarrow> libera_event_local \<Rightarrow> kernel \<Rightarrow> (kernel \<times> libera_event_local \<times> (errno + int)) call" where
  "cmd_enable_sc_trig arg loc k =
     (if arg = 0 \<or> arg AND not_TRIG_ALL_MASK \<noteq> 0 then Ret (k, loc, Inl EINVAL)
      else if arg AND sc_trigVec (event k) \<noteq> 0 then Ret (k, loc, Inl EBUSY)
      else
        let loc = loc\<lparr>loc_sc_trigVec := loc_sc_trigVec loc OR arg\<rparr> in
        call_bind (flush_scs (trig_flush 0 arg) k) (\<lambda>k.
          Ret (fst (libera_sctrig_enable (loc_sc_trigVec loc) k), loc, Inr 0)))"

definition cmd_enable_mc_trig ::
  "u32 \<Rightarrow> libera_event_local \<Rightarrow> kernel \<Rightarrow> (kernel \<times> libera_event_local \<times> (errno + int)) call" where
  "cmd_enable_mc_trig arg loc k =
     (if arg = 0 \<or> arg AND not_TRIG_ALL_MASK \<noteq> 0 then Ret (k, loc, Inl EINVAL)
      else if arg AND mc_trigVec (event k) \<noteq> 0 then Ret (k, loc, Inl EBUSY)
      else
        let loc = loc\<lparr>loc_mc_trigVec := loc_mc_trigVec loc OR arg\<rparr> in
        call_bind (flush_mcs (trig_flush 0 arg) k) (\<lambda>k.
          Ret (fst (libera_mctrig_enable (loc_mc_trigVec loc) k), loc, Inr 0)))"

section \<open>The ioctl commands\<close>

text \<open>
  \<open>copy_from_user\<close> is the pair of the number of bytes it could not copy and the value the
  kernel variable then has.
\<close>

type_synonym 'a from_user = "u32 \<times> 'a"

record libera_HRtimestamp_t =
  hr_st :: timespec
  hr_mt :: u64
  hr_phase :: u32

datatype event_cmd =
    SET_DAC_A u32 | SET_DAC_B u32
  | ENABLE_SC_TRIG u32 | ENABLE_MC_TRIG u32
  | GET_SC_TRIGGER_19 | GET_MC_TRIGGER_19
  | GET_SC_TRIGGER_10 | GET_SC_TRIGGER_9
  | GET_MC_TRIGGER_10 | GET_MC_TRIGGER_1 | GET_MC_TRIGGER_0
  | SET_SC_EVENT
  | GET_FLMC | SET_FLMC "u32 from_user"
  | GET_MCPHI | SET_MCPHI "u64 from_user"
  | GET_SCPHI | SET_SCPHI "u64 from_user"
  | SET_NCO "u32 from_user"
  | SET_MCPLL "u32 from_user" | SET_SCPLL "u32 from_user"
  | GET_CTIME
  | GET_ST | SET_ST "libera_HRtimestamp_t from_user"
  | GET_MT | SET_MT "libera_HRtimestamp_t from_user"
  | GET_TRIG_TRIGGER
  | GET_FIFOLEN_SC "u32 from_user" | GET_FIFOLEN_MC "u32 from_user"
  | GET_MASK | SET_MASK "u32 from_user"
  | EVENT_FLUSH
  | ACQ_PM
  | FIONREAD
  | OTHER_EVENT_CMD
  | FOREIGN_CMD

text \<open>What a command hands to user space.\<close>

datatype user_out =
    OutNone | OutU32 u32 | OutTime u64 | OutPair libera_Ltimestamp_t | OutSpec timespec

text \<open>
  The environment of a call: a pending signal, the wake-ups of its sleeps, what
  \<open>copy_to_user\<close> returns, the \<open>access_ok\<close> verdict, the registers, and (for a failed
  \<open>libera_get_CTIME\<close>, whose result the callers ignore) the content of the uninitialised pair.
\<close>

record ioenv =
  io_signal :: bool
  io_wakes :: "wake list"
  io_uncopied :: u32
  io_access :: bool
  io_reg :: reg_read
  io_stack :: libera_Ltimestamp_t

type_synonym cmd_result = "kernel \<times> libera_event_local \<times> (errno + int) \<times> user_out"

definition get_trigger ::
  "fifo_sel \<Rightarrow> u32 \<Rightarrow> nat \<Rightarrow> ioenv \<Rightarrow> libera_event_local \<Rightarrow> kernel \<Rightarrow> cmd_result call" where
  "get_trigger s vec x env loc k =
     (if vec AND TRIGGER_BIT x = 0 then Ret (k, loc, Inl EPERM, OutNone)
      else call_bind (getBlockedFromFIFOuser s (io_signal env) (io_wakes env) (io_uncopied env) k)
        (\<lambda>(k, r). Ret (case r of
            Inl e \<Rightarrow> (k, loc, Inl e, OutNone)
          | Inr t \<Rightarrow> (k, loc, Inr 0, OutTime t))))"

fun cmd_get_trigger ::
  "event_cmd \<Rightarrow> ioenv \<Rightarrow> libera_event_local \<Rightarrow> kernel \<Rightarrow> cmd_result call" where
  "cmd_get_trigger GET_SC_TRIGGER_10 env loc k = get_trigger (SCQ 6) (loc_sc_trigVec loc) 6 env loc k"
| "cmd_get_trigger GET_SC_TRIGGER_9 env loc k = get_trigger (SCQ 5) (loc_sc_trigVec loc) 5 env loc k"
| "cmd_get_trigger GET_MC_TRIGGER_10 env loc k = get_trigger (MCQ 6) (loc_mc_trigVec loc) 6 env loc k"
| "cmd_get_trigger GET_MC_TRIGGER_1 env loc k = get_trigger (MCQ 1) (loc_mc_trigVec loc) 1 env loc k"
| "cmd_get_trigger GET_MC_TRIGGER_0 env loc k = get_trigger (MCQ 0) (loc_mc_trigVec loc) 0 env loc k"
| "cmd_get_trigger _ env loc k = Ret (k, loc, Inl ENOSYS, OutNone)"

definition copy_ret :: "u32 \<Rightarrow> errno + int" where
  "copy_ret n = Inr (uint n)"

text \<open>Machine clock and phases.\<close>

definition cmd_set_flmc :: "u32 from_user \<Rightarrow> kernel \<Rightarrow> kernel" where
  "cmd_set_flmc u k = (if snd u = 0 then k else k\<lparr>flmcdHz := snd u\<rparr>)"

definition cmd_set_mcphi :: "u64 from_user \<Rightarrow> kernel \<Rightarrow> kernel" where
  "cmd_set_mcphi u k =
     k\<lparr>event := (event k)\<lparr>settime := (settime (event k))\<lparr>st_lmt_mcphi := snd u\<rparr>\<rparr>\<rparr>"

definition cmd_set_scphi :: "u64 from_user \<Rightarrow> kernel \<Rightarrow> kernel" where
  "cmd_set_scphi u k =
     k\<lparr>event := (event k)\<lparr>settime := (settime (event k))\<lparr>st_lst_scphi := snd u\<rparr>\<rparr>\<rparr>"

definition set_cfg_param :: "nat \<Rightarrow> u32 \<Rightarrow> kernel \<Rightarrow> kernel" where
  "set_cfg_param i v k = k\<lparr>cfg := (cfg k)\<lparr>cfg_param := (cfg_param (cfg k))(i := v)\<rparr>\<rparr>"

definition cmd_set_mcpll :: "u32 from_user \<Rightarrow> reg_read \<Rightarrow> kernel \<Rightarrow> kernel" where
  "cmd_set_mcpll u reg k =
     (let k = set_cfg_param LIBERA_CFG_MCPLL (snd u AND FAI_PLL_STATUS_MASK) k;
          k = reg_write ((reg FAI_SW_STATUS AND NOT FAI_PLL_STATUS_MASK) OR
                cfg_param (cfg k) LIBERA_CFG_MCPLL) FAI_SW_STATUS k
      in fst (libera_send_event LIBERA_EVENT_CFG (of_nat LIBERA_CFG_MCPLL) k))"

definition cmd_set_scpll :: "u32 from_user \<Rightarrow> kernel \<Rightarrow> kernel" where
  "cmd_set_scpll u k =
     (let k = set_cfg_param LIBERA_CFG_SCPLL (snd u AND FAI_PLL_STATUS_MASK) k
      in fst (libera_send_event LIBERA_EVENT_CFG (of_nat LIBERA_CFG_SCPLL) k))"

text \<open>Reading the time; a failure of \<open>libera_get_CTIME\<close> is ignored by the three commands.\<close>

definition read_ctime :: "ioenv \<Rightarrow> kernel \<Rightarrow> (kernel \<times> libera_Ltimestamp_t) call" where
  "read_ctime env k =
     call_bind (libera_get_CTIME (io_signal env) (io_wakes env) k) (\<lambda>(k, r).
       Ret (k, (case r of Inl _ \<Rightarrow> io_stack env | Inr t \<Rightarrow> t)))"

fun cmd_get_time ::
  "event_cmd \<Rightarrow> ioenv \<Rightarrow> libera_event_local \<Rightarrow> kernel \<Rightarrow> cmd_result call" where
  "cmd_get_time GET_ST env loc k =
     call_bind (read_ctime env k) (\<lambda>(k, t).
       Ret (k, loc, copy_ret (io_uncopied env), OutSpec (lst2st (lst t))))"
| "cmd_get_time GET_MT env loc k =
     call_bind (read_ctime env k) (\<lambda>(k, t).
       case lmt2mt (lgbl_d k) (lmt t) of
         None \<Rightarrow> Fault
       | Some mt \<Rightarrow> Ret (k, loc, copy_ret (io_uncopied env), OutTime mt))"
| "cmd_get_time _ env loc k =
     call_bind (read_ctime env k) (\<lambda>(k, t).
       Ret (k, loc, copy_ret (io_uncopied env), OutPair t))"

text \<open>Setting the time arms the next trigger.\<close>

definition cmd_set_st :: "libera_HRtimestamp_t from_user \<Rightarrow> kernel \<Rightarrow> kernel" where
  "cmd_set_st u k =
     (let k = k\<lparr>event := (event k)\<lparr>settime :=
                (settime (event k))\<lparr>st_lst_ref := st2lst (hr_st (snd u))\<rparr>\<rparr>\<rparr>;
          k = set_cfg_param LIBERA_CFG_TRIGMODE LIBERA_TRIGMODE_SET k
      in k\<lparr>event := (event k)\<lparr>settime :=
            (settime (event k))\<lparr>st_update := st_update (settime (event k)) OR LIBERA_SETTIME_ST\<rparr>\<rparr>\<rparr>)"

definition cmd_set_mt ::
  "libera_HRtimestamp_t from_user \<Rightarrow> kernel \<Rightarrow> kernel \<times> (errno + int)" where
  "cmd_set_mt u k =
     (if lgbl_d k \<le> hr_phase (snd u) then (k, Inl EINVAL)
      else
        let ref = mt2lmt (lgbl_d k) (hr_mt (snd u)) + ucast (hr_phase (snd u));
            k = k\<lparr>event := (event k)\<lparr>settime := (settime (event k))\<lparr>st_lmt_ref := ref\<rparr>\<rparr>\<rparr>;
            k = set_cfg_param LIBERA_CFG_TRIGMODE LIBERA_TRIGMODE_SET k;
            k = k\<lparr>event := (event k)\<lparr>settime := (settime (event k))\<lparr>
                  st_update := st_update (settime (event k)) OR LIBERA_SETTIME_MT\<rparr>\<rparr>\<rparr>
        in (reg_write 0xffffffff FAI_COUNTER_RESET k, copy_ret (fst u)))"

definition cmd_get_fifolen ::
  "(nat \<Rightarrow> libera_fifo) \<Rightarrow> u32 from_user \<Rightarrow> ioenv \<Rightarrow> (errno + int) \<times> user_out" where
  "cmd_get_fifolen fifos u env =
     (if fst u \<noteq> 0 then (Inr (uint (fst u)), OutNone)
      else if TRIG_EVENTS_MAX \<le> unat (snd u) then (Inl EINVAL, OutNone)
      else (copy_ret (io_uncopied env), OutU32 (lenFIFO (fifos (unat (snd u))))))"

text \<open>
  The command decoder. The post-mortem acquisition belongs to the DD device; it is the
  argument \<open>acq_pm\<close> here and is supplied where that device is modelled.
\<close>

fun libera_event_cmd ::
  "(kernel \<Rightarrow> (kernel \<times> (errno + int)) call) \<Rightarrow> filp \<Rightarrow> event_cmd \<Rightarrow> ioenv \<Rightarrow> libera_event_local
     \<Rightarrow> kernel \<Rightarrow> cmd_result call" where
  "libera_event_cmd acq_pm f (SET_DAC_A arg) env loc k =
     (if arg AND NOT 0xFFFF \<noteq> 0 then Ret (k, loc, Inl EINVAL, OutNone)
      else Ret (reg_write arg EVENT_MC_DAC k, loc, Inr 0, OutNone))"
| "libera_event_cmd acq_pm f (SET_DAC_B arg) env loc k =
     (if arg AND NOT 0xFFFF \<noteq> 0 then Ret (k, loc, Inl EINVAL, OutNone)
      else Ret (reg_write arg EVENT_SC_DAC k, loc, Inr 0, OutNone))"
| "libera_event_cmd acq_pm f (ENABLE_SC_TRIG arg) env loc k =
     call_bind (cmd_enable_sc_trig arg loc k) (\<lambda>(k, loc, r). Ret (k, loc, r, OutNone))"
| "libera_event_cmd acq_pm f (ENABLE_MC_TRIG arg) env loc k =
     call_bind (cmd_enable_mc_trig arg loc k) (\<lambda>(k, loc, r). Ret (k, loc, r, OutNone))"
| "libera_event_cmd acq_pm f SET_SC_EVENT env loc k =
     Ret (reg_write (TRIGGER_BIT 5) T_SC_EVENTGEN k, loc, Inr 0, OutNone)"
| "libera_event_cmd acq_pm f GET_FLMC env loc k =
     Ret (k, loc, copy_ret (io_uncopied env), OutU32 (flmcdHz k))"
| "libera_event_cmd acq_pm f (SET_FLMC u) env loc k =
     Ret (cmd_set_flmc u k, loc, copy_ret (fst u), OutNone)"
| "libera_event_cmd acq_pm f GET_MCPHI env loc k =
     Ret (k, loc, copy_ret (io_uncopied env), OutTime (st_lmt_mcphi (settime (event k))))"
| "libera_event_cmd acq_pm f (SET_MCPHI u) env loc k =
     Ret (cmd_set_mcphi u k, loc, copy_ret (fst u), OutNone)"
| "libera_event_cmd acq_pm f GET_SCPHI env loc k =
     Ret (k, loc, copy_ret (io_uncopied env), OutTime (st_lst_scphi (settime (event k))))"
| "libera_event_cmd acq_pm f (SET_SCPHI u) env loc k =
     Ret (cmd_set_scphi u k, loc, copy_ret (fst u), OutNone)"
| "libera_event_cmd acq_pm f (SET_NCO u) env loc k =
     Ret (reg_write (snd u) DDC_NCO k, loc, copy_ret (fst u), OutNone)"
| "libera_event_cmd acq_pm f (SET_MCPLL u) env loc k =
     Ret (cmd_set_mcpll u (io_reg env) k, loc, copy_ret (fst u), OutNone)"
| "libera_event_cmd acq_pm f (SET_SCPLL u) env loc k =
     Ret (cmd_set_scpll u k, loc, copy_ret (fst u), OutNone)"
| "libera_event_cmd acq_pm f GET_CTIME env loc k = cmd_get_time GET_CTIME env loc k"
| "libera_event_cmd acq_pm f GET_ST env loc k = cmd_get_time GET_ST env loc k"
| "libera_event_cmd acq_pm f GET_MT env loc k = cmd_get_time GET_MT env loc k"
| "libera_event_cmd acq_pm f (SET_ST u) env loc k =
     Ret (cmd_set_st u k, loc, copy_ret (fst u), OutNone)"
| "libera_event_cmd acq_pm f (SET_MT u) env loc k =
     (let (k, r) = cmd_set_mt u k in Ret (k, loc, r, OutNone))"
| "libera_event_cmd acq_pm f GET_TRIG_TRIGGER env loc k =
     Ret (k, loc, copy_ret (io_uncopied env),
       OutPair (getFromCircBuf (paired_timestamps (event k) T_TRIG_TRIGGER)))"
| "libera_event_cmd acq_pm f (GET_FIFOLEN_SC u) env loc k =
     (let (r, v) = cmd_get_fifolen (sc_timestamps (event k)) u env in Ret (k, loc, r, v))"
| "libera_event_cmd acq_pm f (GET_FIFOLEN_MC u) env loc k =
     (let (r, v) = cmd_get_fifolen (mc_timestamps (event k)) u env in Ret (k, loc, r, v))"
| "libera_event_cmd acq_pm f GET_MASK env loc k =
     Ret (k, loc, copy_ret (io_uncopied env), OutU32 (event_mask k))"
| "libera_event_cmd acq_pm f (SET_MASK u) env loc k =
     (if master_filp (event k) \<noteq> Some (file_id f) then Ret (k, loc, Inl EPERM, OutNone)
      else Ret (k\<lparr>event_mask := snd u\<rparr>, loc, copy_ret (fst u), OutNone))"
| "libera_event_cmd acq_pm f EVENT_FLUSH env loc k =
     (if master_filp (event k) \<noteq> Some (file_id f) then Ret (k, loc, Inl EPERM, OutNone)
      else Ret (k\<lparr>event := (event k)\<lparr>events := flush_eventFIFO (events (event k))\<rparr>\<rparr>, loc, Inr 0, OutNone))"
| "libera_event_cmd acq_pm f ACQ_PM env loc k =
     call_bind (acq_pm k) (\<lambda>(k, r). Ret (k, loc, r, OutNone))"
| "libera_event_cmd acq_pm f FIONREAD env loc k =
     Ret (k, loc, (if io_uncopied env \<noteq> 0 then Inl EFAULT else Inr 0),
       OutU32 (len_eventFIFO (events (event k)) * 8))"
| "libera_event_cmd acq_pm f OTHER_EVENT_CMD env loc k = Ret (k, loc, Inl ENOTTY, OutNone)"
| "libera_event_cmd acq_pm f FOREIGN_CMD env loc k = Ret (k, loc, Inl ENOTTY, OutNone)"
| "libera_event_cmd acq_pm f cmd env loc k = cmd_get_trigger cmd env loc k"

definition libera_event_ioctl ::
  "(kernel \<Rightarrow> (kernel \<times> (errno + int)) call) \<Rightarrow> filp \<Rightarrow> event_cmd \<Rightarrow> ioenv \<Rightarrow> libera_event_local
     \<Rightarrow> kernel \<Rightarrow> cmd_result call" where
  "libera_event_ioctl acq_pm f cmd env loc k =
     (if cmd = FOREIGN_CMD then Ret (k, loc, Inl ENOTTY, OutNone)
      else if \<not> io_access env then Ret (k, loc, Inl EFAULT, OutNone)
      else libera_event_cmd acq_pm f cmd env loc k)"

end
