(* ===== verification/Libera_Event_Props.thy ===== *)
theory Libera_Event_Props
  imports Libera_Event
begin

text \<open>
  What the event device guarantees: reading returns the oldest events, at most one writer
  holds the device, a trigger belongs to at most one descriptor. The sessions of the device are
  the step relation \<open>event_step\<close> on the kernel state and the table of open descriptors.
\<close>

section \<open>Reading\<close>

lemma event_copy_all:
  assumes "event_fifo_ok q" "n \<le> length (event_fifo_list q)" "fails = (\<lambda>_. False)"
    "event_copy fails i n q out ret = (q', out', r)"
  shows "event_fifo_ok q'" "event_fifo_list q' = drop n (event_fifo_list q)"
    "out' = out @ take n (event_fifo_list q)" "r = Inr (ret + 8 * of_nat n)"
proof -
  have "event_fifo_ok q' \<and> event_fifo_list q' = drop n (event_fifo_list q) \<and>
      out' = out @ take n (event_fifo_list q) \<and> r = Inr (ret + 8 * of_nat n)"
    using assms
  proof (induction n arbitrary: i q out ret)
    case 0
    then show ?case by simp
  next
    case (Suc n)
    then obtain x xs where c: "event_fifo_list q = x # xs"
      by (cases "event_fifo_list q") auto
    then obtain q1 where g: "getFrom_eventFIFO q = (q1, Some x)" "event_fifo_ok q1" "event_fifo_list q1 = xs"
      using event_fifo.get_cons [OF Suc.prems(1)] by blast
    have "event_copy fails (i + 1) n q1 (out @ [x]) (ret + 8) = (q', out', r)"
      using Suc.prems(3,4) g(1) by simp
    then show ?case
      using Suc.IH [of q1 "i + 1" "out @ [x]" "ret + 8"] Suc.prems(2,3) g c
      by (simp add: algebra_simps)
  qed
  then show "event_fifo_ok q'" "event_fifo_list q' = drop n (event_fifo_list q)"
    "out' = out @ take n (event_fifo_list q)" "r = Inr (ret + 8 * of_nat n)"
    by simp_all
qed

lemma unat_min: "unat (min a b) = min (unat a) (unat (b :: 'a::len word))"
  by (simp add: min_def word_le_nat_alt)

lemma len_eventFIFO_unat: "unat (len_eventFIFO q) = length (event_fifo_list q)"
  by (simp add: len_eventFIFO_def event_fifo_list_def)

lemma not_empty_event_iff:
  "event_fifo_ok q \<Longrightarrow> not_empty_eventFIFO q \<longleftrightarrow> event_fifo_list q \<noteq> []"
  by (simp add: not_empty_eventFIFO_def ring_not_empty_def event_fifo_ok_def event_fifo_list_def
      ring_empty_iff TRIG_LOG_BITS_def)

lemma empty_event_iff: "empty_eventFIFO q \<longleftrightarrow> \<not> not_empty_eventFIFO q"
  by (simp add: empty_eventFIFO_def not_empty_eventFIFO_def ring_empty_def ring_not_empty_def)

lemma event_wait_ready: "not_empty_eventFIFO q \<Longrightarrow> event_wait sig ws q = Ret (q, None)"
  by (cases ws) simp_all

lemma event_read_ready:
  assumes ok: "event_fifo_ok (events (event k))" and s: "\<not> sem (event k)"
    and ne: "event_fifo_list (events (event k)) \<noteq> []"
    and c: "count \<noteq> 0" "count mod 8 = 0" and nf: "fails = (\<lambda>_. False)"
  defines "n \<equiv> min (unat count div 8) (length (event_fifo_list (events (event k))))"
  shows "\<exists>k'. libera_event_read f sig ws fails count k =
       Ret (k', take n (event_fifo_list (events (event k))), Inr (8 * of_nat n))
     \<and> event_fifo_list (events (event k')) = drop n (event_fifo_list (events (event k)))
     \<and> event_fifo_ok (events (event k'))"
proof -
  let ?q = "events (event k)"
  have w: "event_wait sig ws ?q = Ret (?q, None)"
    using event_wait_ready not_empty_event_iff [OF ok] ne by blast
  have e: "\<not> empty_eventFIFO ?q" using not_empty_event_iff [OF ok] ne empty_event_iff by blast
  have n: "unat (min (count div 8) (len_eventFIFO ?q)) = n"
    by (simp add: n_def unat_min unat_div len_eventFIFO_unat)
  obtain q' out' r where cp: "event_copy fails 0 n ?q [] 0 = (q', out', r)"
    by (metis prod_cases3)
  have "n \<le> length (event_fifo_list ?q)" by (simp add: n_def)
  note facts = event_copy_all [OF ok this nf cp]
  have "libera_event_read f sig ws fails count k = Ret (k\<lparr>event := (event k)\<lparr>events := q'\<rparr>\<rparr>, out', r)"
    using s e c w cp by (simp add: libera_event_read_def n)
  then show ?thesis using facts by simp
qed

section \<open>Enabling triggers\<close>

lemma TRIG_bit_nonzero: "22 \<le> p \<Longrightarrow> p \<le> 30 \<Longrightarrow> bit arg p \<Longrightarrow> arg AND TRIG_ALL_MASK \<noteq> 0"
  by (metis TRIG_ALL_MASK_bit bit_0_eq bit_and_iff bot_apply bot_bool_def)

lemma trig_flush_none:
  assumes "\<And>j. 22 \<le> j \<Longrightarrow> j \<le> 30 \<Longrightarrow> \<not> bit arg j"
  shows "trig_flush i arg = []"
proof -
  have "arg AND TRIG_ALL_MASK = 0"
    by (rule ccontr) (use assms in \<open>metis lowest_trig\<close>)
  then show ?thesis by (subst trig_flush.simps) simp
qed

lemma trig_flush_next:
  assumes "22 \<le> p" "p \<le> 30" "bit arg p" "\<And>j. 22 \<le> j \<Longrightarrow> j < p \<Longrightarrow> \<not> bit arg j"
  shows "trig_flush i arg = (i + of_nat (p - 22)) # trig_flush (i + of_nat (p - 22)) (arg AND NOT (2 ^ p))"
proof -
  have "find_trig 22 i arg = (i + of_nat (p - 22), push_bit p 1)"
    by (rule find_trig_spec) (use assms in auto)
  then show ?thesis
    using TRIG_bit_nonzero [OF assms(1-3)] by (subst trig_flush.simps) simp
qed

lemma bit_two_pow: "bit (2 ^ p :: u32) j \<longleftrightarrow> j = p \<and> p < 32"
  by (auto simp: bit_simps)

lemma trig_flush_one:
  assumes "22 \<le> p" "p \<le> 30"
  shows "trig_flush 0 (2 ^ p) = [of_nat (p - 22)]"
proof -
  have "trig_flush 0 (2 ^ p) = of_nat (p - 22) # trig_flush (of_nat (p - 22)) (2 ^ p AND NOT (2 ^ p))"
    using trig_flush_next [of p "2 ^ p" 0] assms by (simp add: bit_two_pow)
  moreover have "trig_flush (of_nat (p - 22)) (2 ^ p AND NOT (2 ^ p)) = []"
    by (rule trig_flush_none) (simp add: bit_simps)
  ultimately show ?thesis by simp
qed

lemma trig_flush_two:
  assumes "22 \<le> p" "p < q" "q \<le> 30"
  shows "trig_flush 0 (2 ^ p OR 2 ^ q) = [of_nat (p - 22), of_nat (p - 22) + of_nat (q - 22)]"
proof -
  let ?a = "2 ^ p OR 2 ^ q :: u32"
  have b: "bit ?a j \<longleftrightarrow> j = p \<or> j = q" for j
    using assms by (auto simp: bit_or_iff bit_two_pow)
  have r: "bit (?a AND NOT (2 ^ p)) j \<longleftrightarrow> j = q" for j
    using assms b by (auto simp: bit_and_iff bit_not_iff bit_two_pow)
  have r2: "\<not> bit ((?a AND NOT (2 ^ p)) AND NOT (2 ^ q)) j" for j
    using assms r [of j] by (auto simp: bit_and_iff [of "?a AND NOT (2 ^ p)"] bit_not_iff bit_two_pow)
  have "trig_flush 0 ?a = of_nat (p - 22) # trig_flush (of_nat (p - 22)) (?a AND NOT (2 ^ p))"
    using trig_flush_next [of p ?a 0] assms b by simp
  also have "trig_flush (of_nat (p - 22)) (?a AND NOT (2 ^ p)) =
      (of_nat (p - 22) + of_nat (q - 22)) #
      trig_flush (of_nat (p - 22) + of_nat (q - 22)) ((?a AND NOT (2 ^ p)) AND NOT (2 ^ q))"
    by (rule trig_flush_next) (use assms r in auto)
  also have "trig_flush (of_nat (p - 22) + of_nat (q - 22)) ((?a AND NOT (2 ^ p)) AND NOT (2 ^ q)) = []"
    by (rule trig_flush_none) (simp add: r2)
  finally show ?thesis .
qed

section \<open>What the commands leave alone\<close>

text \<open>The fields that open and release maintain, and the well-formedness of the event FIFO.\<close>

definition ev_access :: "kernel \<Rightarrow> s32 \<times> u32 \<times> u32 \<times> nat option" where
  "ev_access k = (open_count (event k), writers (event k), readers (event k), master_filp (event k))"

definition ev_keep :: "kernel \<Rightarrow> kernel \<Rightarrow> bool" where
  "ev_keep k k' \<longleftrightarrow> ev_access k' = ev_access k \<and>
     (event_fifo_ok (events (event k)) \<longrightarrow> event_fifo_ok (events (event k')))"

lemma ev_keep_refl [simp, intro]: "ev_keep k k"
  by (simp add: ev_keep_def)

lemma ev_keep_trans: "ev_keep k k1 \<Longrightarrow> ev_keep k1 k2 \<Longrightarrow> ev_keep k k2"
  by (simp add: ev_keep_def)

text \<open>Trigger vectors of the device.\<close>

definition ev_trig :: "kernel \<Rightarrow> u32 \<times> u32" where
  "ev_trig k = (sc_trigVec (event k), mc_trigVec (event k))"

definition ev_same :: "kernel \<Rightarrow> kernel \<Rightarrow> bool" where
  "ev_same k k' \<longleftrightarrow> ev_keep k k' \<and> ev_trig k' = ev_trig k"

lemma ev_same_refl [simp, intro]: "ev_same k k"
  by (simp add: ev_same_def)

lemma ev_same_trans: "ev_same k k1 \<Longrightarrow> ev_same k1 k2 \<Longrightarrow> ev_same k k2"
  by (auto simp: ev_same_def intro: ev_keep_trans)

named_theorems ev_same \<open>steps that leave the sessions alone\<close>

lemma ev_same_set_fifo [ev_same]: "ev_same k (set_fifo s q k)"
  by (cases s) (simp_all add: ev_same_def ev_keep_def ev_access_def ev_trig_def)

lemma ev_same_sem [ev_same]: "ev_same k (set_event_sem b k)"
  by (simp add: set_event_sem_def ev_same_def ev_keep_def ev_access_def ev_trig_def)

lemma ev_same_reg [ev_same]: "ev_same k (reg_write v a k)"
  by (simp add: ev_same_def ev_keep_def ev_access_def ev_trig_def)

lemma ev_same_send [ev_same]: "ev_same k (fst (libera_send_event i p k))"
proof (cases "i AND event_mask k = 0")
  case True
  then show ?thesis by (simp add: send_event_masked)
next
  case False
  obtain k' r where s: "libera_send_event i p k = (k', r)" by fastforce
  have "ev_access k' = ev_access k \<and> ev_trig k' = ev_trig k"
    using s False by (auto simp: libera_send_event_def ev_access_def ev_trig_def split: prod.splits)
  then show ?thesis
    using send_event_sent(2) [OF False _ s] s by (simp add: ev_same_def ev_keep_def)
qed

lemma ev_same_irq [ev_same]: "ev_same k (irq_stamp st k)"
  by (simp add: irq_stamp_def ev_same)

lemma ev_same_irqs [ev_same]: "ev_same k (fold irq_stamp sts k)"
proof (induction sts arbitrary: k)
  case (Cons a sts)
  then show ?case using ev_same_irq ev_same_trans by fastforce
qed simp

lemma ev_same_fifo_wait [ev_same]: "fifo_wait s sig ws k = Ret (k', e) \<Longrightarrow> ev_same k k'"
proof (induction ws arbitrary: k sig)
  case Nil
  then show ?case by (simp split: if_splits)
next
  case (Cons w ws)
  then show ?case using ev_same_irqs ev_same_trans by (fastforce split: if_splits)
qed

lemma ev_same_fifo_wait_timeout [ev_same]:
  "fifo_wait_timeout s sig ws k = Ret (k', e) \<Longrightarrow> ev_same k k'"
proof (induction ws arbitrary: k sig)
  case Nil
  then show ?case by (simp split: if_splits)
next
  case (Cons w ws)
  have a: "ev_same k (fold irq_stamp (wk_stamps w) (set_event_sem b k))" for b
    using ev_same_sem ev_same_irqs ev_same_trans by blast
  have b: "ev_same k (set_event_sem True (fold irq_stamp (wk_stamps w) (set_event_sem b k)))" for b
    using a ev_same_sem ev_same_trans by blast
  show ?case
    using Cons.prems Cons.IH [THEN ev_same_trans [OF b]] a
    by (auto simp: Let_def split: if_splits)
qed

lemma ev_same_getBlocked [ev_same]:
  assumes "getBlockedFromFIFO s sig ws k = Ret (k', r)"
  shows "ev_same k k'"
proof -
  have "ev_same k k1" if "fifo_wait s sig ws (set_event_sem True k) = Ret (k1, e)" for k1 e
    using ev_same_trans [OF ev_same_sem ev_same_fifo_wait [OF that]] .
  then show ?thesis
    using assms
    by (fastforce simp: getBlockedFromFIFO_def call_bind_Ret_iff
        intro: ev_same_trans ev_same_sem ev_same_set_fifo
        split: lock_result.splits option.splits prod.splits)
qed

lemma ev_same_getBlockedUser [ev_same]:
  assumes "getBlockedFromFIFOuser s sig ws u k = Ret (k', r)"
  shows "ev_same k k'"
proof -
  have "ev_same k k1" if "fifo_wait_timeout s sig ws (set_event_sem True k) = Ret (k1, e)" for k1 e
    using ev_same_trans [OF ev_same_sem ev_same_fifo_wait_timeout [OF that]] .
  then show ?thesis
    using assms
    by (fastforce simp: getBlockedFromFIFOuser_def call_bind_Ret_iff
        intro: ev_same_trans ev_same_sem ev_same_set_fifo
        split: lock_result.splits option.splits prod.splits)
qed

lemma ev_same_ctime_sem [ev_same]: "ev_same k (k\<lparr>event := (event k)\<lparr>CTIME_sem := b\<rparr>\<rparr>)"
  by (simp add: ev_same_def ev_keep_def ev_access_def ev_trig_def)

lemma ev_same_get_CTIME [ev_same]:
  assumes "libera_get_CTIME sig ws k = Ret (k', r)"
  shows "ev_same k k'"
proof (cases "mutex_lock_interruptible sig (CTIME_sem (event k))")
  case Acquired
  let ?k = "reg_write (TRIGGER_BIT T_TRIG_CTIME) T_SC_EVENTGEN
    (k\<lparr>event := (event k)\<lparr>CTIME_sem := True\<rparr>\<rparr>)"
  have a: "ev_same k ?k" using ev_same_trans [OF ev_same_ctime_sem ev_same_reg] .
  obtain k1 r1 where g: "getBlockedFromFIFO (MCQ T_TRIG_CTIME) sig ws ?k = Ret (k1, r1)"
    using assms Acquired by (auto simp: libera_get_CTIME_def call_bind_Ret_iff Let_def)
  have b: "ev_same k k1" using ev_same_trans [OF a ev_same_getBlocked [OF g]] .
  note c = ev_same_trans [OF b ev_same_ctime_sem]
  note d = ev_same_trans [OF ev_same_trans [OF b ev_same_set_fifo] ev_same_ctime_sem]
  obtain q t where q: "getFromFIFO (sc_timestamps (event k1) T_TRIG_CTIME) = (q, t)" by fastforce
  show ?thesis
    using assms Acquired g q c d
    by (cases r1; cases t) (auto simp: libera_get_CTIME_def Let_def simp del: set_fifo.simps)
qed (use assms in \<open>simp_all add: libera_get_CTIME_def\<close>)

section \<open>What a command does to its descriptor\<close>

lemma ev_same_read_ctime: "read_ctime env k = Ret (k', t) \<Longrightarrow> ev_same k k'"
  by (auto simp: read_ctime_def call_bind_Ret_iff intro: ev_same_get_CTIME)

lemma cmd_get_time_same:
  "cmd_get_time c env loc k = Ret (k', loc', r, out) \<Longrightarrow> ev_same k k' \<and> loc' = loc"
  by (cases c) (auto simp: call_bind_Ret_iff intro: ev_same_read_ctime split: option.splits)

lemma get_trigger_same:
  assumes "get_trigger s vec x env loc k = Ret (k', loc', r, out)"
  shows "ev_same k k' \<and> loc' = loc"
proof (cases "vec AND TRIGGER_BIT x = 0")
  case False
  then obtain k1 r1
    where "getBlockedFromFIFOuser s (io_signal env) (io_wakes env) (io_uncopied env) k = Ret (k1, r1)"
    using assms by (auto simp: get_trigger_def call_bind_Ret_iff)
  then show ?thesis
    using assms False ev_same_getBlockedUser by (cases r1) (auto simp: get_trigger_def)
qed (use assms in \<open>simp add: get_trigger_def\<close>)

lemma cmd_get_trigger_same:
  "cmd_get_trigger c env loc k = Ret (k', loc', r, out) \<Longrightarrow> ev_same k k' \<and> loc' = loc"
  by (cases c) (auto dest: get_trigger_same)

lemma ev_same_cfg_param: "ev_same k (set_cfg_param i v k)"
  by (simp add: set_cfg_param_def ev_same_def ev_keep_def ev_access_def ev_trig_def)

lemma ev_same_settime: "ev_same k (k\<lparr>event := (event k)\<lparr>settime := s\<rparr>\<rparr>)"
  by (simp add: ev_same_def ev_keep_def ev_access_def ev_trig_def)

lemma ev_same_flmc: "ev_same k (cmd_set_flmc u k)"
  by (simp add: cmd_set_flmc_def ev_same_def ev_keep_def ev_access_def ev_trig_def)

lemma ev_same_set_mt: "ev_same k (fst (cmd_set_mt u k))"
  by (simp add: cmd_set_mt_def Let_def set_cfg_param_def ev_same_def ev_keep_def ev_access_def ev_trig_def)

lemma ev_same_set_st: "ev_same k (cmd_set_st u k)"
  by (simp add: cmd_set_st_def Let_def set_cfg_param_def ev_same_def ev_keep_def ev_access_def ev_trig_def)

lemma ev_same_mcpll: "ev_same k (cmd_set_mcpll u reg k)"
  unfolding cmd_set_mcpll_def Let_def
  by (rule ev_same_trans [OF ev_same_trans [OF ev_same_cfg_param ev_same_reg] ev_same_send])

lemma ev_same_scpll: "ev_same k (cmd_set_scpll u k)"
  unfolding cmd_set_scpll_def Let_def
  by (rule ev_same_trans [OF ev_same_cfg_param ev_same_send])

lemma ev_same_mask: "ev_same k (k\<lparr>event_mask := m\<rparr>)"
  by (simp add: ev_same_def ev_keep_def ev_access_def ev_trig_def)

lemma ev_same_flush: "ev_same k (k\<lparr>event := (event k)\<lparr>events := flush_eventFIFO (events (event k))\<rparr>\<rparr>)"
  by (simp add: ev_same_def ev_keep_def ev_access_def ev_trig_def event_fifo.flush_ok)

text \<open>
  \<open>trig_grow a loc k loc' k'\<close>: the descriptor gained the SC triggers \<open>fst a\<close> and the MC
  triggers \<open>snd a\<close>, none of which the device had given out before.
\<close>

definition trig_grow ::
  "u32 \<times> u32 \<Rightarrow> libera_event_local \<Rightarrow> kernel \<Rightarrow> libera_event_local \<Rightarrow> kernel \<Rightarrow> bool" where
  "trig_grow a loc k loc' k' \<longleftrightarrow> ev_keep k k'
     \<and> loc_sc_trigVec loc' = loc_sc_trigVec loc OR fst a
     \<and> loc_mc_trigVec loc' = loc_mc_trigVec loc OR snd a
     \<and> fst a AND sc_trigVec (event k) = 0 \<and> snd a AND mc_trigVec (event k) = 0
     \<and> sc_trigVec (event k') = (if fst a = 0 then sc_trigVec (event k)
                                else sc_trigVec (event k) OR loc_sc_trigVec loc')
     \<and> mc_trigVec (event k') = (if snd a = 0 then mc_trigVec (event k)
                                else mc_trigVec (event k) OR loc_mc_trigVec loc')"

lemma trig_grow_same: "ev_same k k' \<Longrightarrow> trig_grow (0, 0) loc k loc k'"
  by (simp add: trig_grow_def ev_same_def ev_trig_def)

lemma fold_set_fifo_same: "ev_same k (fold (\<lambda>i k. set_fifo (s i) (g k i) k) is k)"
proof (induction "is" arbitrary: k)
  case (Cons a as)
  then show ?case using ev_same_set_fifo ev_same_trans by fastforce
qed simp

lemma flush_scs_same: "flush_scs is k = Ret k' \<Longrightarrow> ev_same k k'"
  by (auto simp: flush_scs_def intro: fold_set_fifo_same simp del: set_fifo.simps split: if_splits)

lemma flush_mcs_same: "flush_mcs is k = Ret k' \<Longrightarrow> ev_same k k'"
  by (auto simp: flush_mcs_def intro: fold_set_fifo_same simp del: set_fifo.simps split: if_splits)

lemma or_high_bit:
  "a AND not_TRIG_ALL_MASK = 0 \<Longrightarrow> b AND not_TRIG_ALL_MASK = 0 \<Longrightarrow> (a OR b) AND not_TRIG_ALL_MASK = 0"
  by (simp add: bit.conj_disj_distrib2)

text \<open>Bit 31 never enters a descriptor, so \<open>libera_sctrig_enable\<close> does not refuse.\<close>

definition loc_ok :: "libera_event_local \<Rightarrow> bool" where
  "loc_ok loc \<longleftrightarrow> loc_sc_trigVec loc AND not_TRIG_ALL_MASK = 0
     \<and> loc_mc_trigVec loc AND not_TRIG_ALL_MASK = 0"

lemma enable_sc_grow:
  assumes "cmd_enable_sc_trig arg loc k = Ret (k', loc', r)" "loc_ok loc"
  shows "loc_ok loc' \<and> (\<exists>a. trig_grow a loc k loc' k')"
proof (cases "r = Inr 0 \<and> \<not> (arg = 0 \<or> arg AND not_TRIG_ALL_MASK \<noteq> 0) \<and> arg AND sc_trigVec (event k) = 0")
  case True
  then obtain k1 where f: "flush_scs (trig_flush 0 arg) k = Ret k1"
    and k': "k' = fst (libera_sctrig_enable (loc_sc_trigVec loc OR arg) k1)"
    and loc': "loc' = loc\<lparr>loc_sc_trigVec := loc_sc_trigVec loc OR arg\<rparr>"
    using assms by (auto simp: cmd_enable_sc_trig_def call_bind_Ret_iff Let_def)
  have hb: "(loc_sc_trigVec loc OR arg) AND not_TRIG_ALL_MASK = 0"
    using True assms(2) by (intro or_high_bit) (auto simp: loc_ok_def)
  have "trig_grow (arg, 0) loc k loc' k'"
    using flush_scs_same [OF f] hb True
    by (auto simp: k' loc' trig_grow_def ev_same_def ev_keep_def ev_trig_def ev_access_def
        libera_sctrig_enable_def Let_def)
  moreover have "loc_ok loc'" using hb assms(2) by (simp add: loc_ok_def loc')
  ultimately show ?thesis by blast
next
  case False
  then have "k' = k" "loc' = loc"
    using assms by (auto simp: cmd_enable_sc_trig_def call_bind_Ret_iff Let_def split: if_splits)
  then show ?thesis using assms(2) trig_grow_same [of k k loc] by auto
qed

lemma enable_mc_grow:
  assumes "cmd_enable_mc_trig arg loc k = Ret (k', loc', r)" "loc_ok loc"
  shows "loc_ok loc' \<and> (\<exists>a. trig_grow a loc k loc' k')"
proof (cases "r = Inr 0 \<and> \<not> (arg = 0 \<or> arg AND not_TRIG_ALL_MASK \<noteq> 0) \<and> arg AND mc_trigVec (event k) = 0")
  case True
  then obtain k1 where f: "flush_mcs (trig_flush 0 arg) k = Ret k1"
    and k': "k' = fst (libera_mctrig_enable (loc_mc_trigVec loc OR arg) k1)"
    and loc': "loc' = loc\<lparr>loc_mc_trigVec := loc_mc_trigVec loc OR arg\<rparr>"
    using assms by (auto simp: cmd_enable_mc_trig_def call_bind_Ret_iff Let_def)
  have hb: "(loc_mc_trigVec loc OR arg) AND not_TRIG_ALL_MASK = 0"
    using True assms(2) by (intro or_high_bit) (auto simp: loc_ok_def)
  have "trig_grow (0, arg) loc k loc' k'"
    using flush_mcs_same [OF f] hb True
    by (auto simp: k' loc' trig_grow_def ev_same_def ev_keep_def ev_trig_def ev_access_def
        libera_mctrig_enable_def Let_def)
  moreover have "loc_ok loc'" using hb assms(2) by (simp add: loc_ok_def loc')
  ultimately show ?thesis by blast
next
  case False
  then have "k' = k" "loc' = loc"
    using assms by (auto simp: cmd_enable_mc_trig_def call_bind_Ret_iff Let_def split: if_splits)
  then show ?thesis using assms(2) trig_grow_same [of k k loc] by auto
qed

lemma event_cmd_grow:
  assumes acq: "\<And>k k' r. acq k = Ret (k', r) \<Longrightarrow> ev_same k k'"
    and cmd: "libera_event_cmd acq f c env loc k = Ret (k', loc', r, out)" and loc: "loc_ok loc"
  shows "loc_ok loc' \<and> (\<exists>a. trig_grow a loc k loc' k')"
proof -
  have same: "loc_ok loc' \<and> (\<exists>a. trig_grow a loc k loc' k')" if "ev_same k k' \<and> loc' = loc"
    using that loc trig_grow_same by blast
  show ?thesis
  proof (cases c)
    case (ENABLE_SC_TRIG x)
    then show ?thesis using cmd enable_sc_grow [OF _ loc] by (auto simp: call_bind_Ret_iff)
  next
    case (ENABLE_MC_TRIG x)
    then show ?thesis using cmd enable_mc_grow [OF _ loc] by (auto simp: call_bind_Ret_iff)
  next
    case (SET_MT u)
    then show ?thesis
      using cmd ev_same_set_mt [of k u] by (intro same) (auto split: prod.splits)
  next
    case ACQ_PM
    then show ?thesis using cmd acq by (intro same) (auto simp: call_bind_Ret_iff)
  qed (use cmd in \<open>intro same; auto simp: cmd_set_mcphi_def cmd_set_scphi_def
        intro: ev_same_reg ev_same_flmc ev_same_settime ev_same_mcpll ev_same_scpll ev_same_set_st
          ev_same_mask ev_same_flush
        dest: cmd_get_time_same cmd_get_trigger_same
        simp del: cmd_get_time.simps cmd_get_trigger.simps split: if_splits prod.splits\<close>)+
qed

section \<open>Sessions\<close>

text \<open>
  The state of a run: the kernel and the open descriptors with their data. \<open>Elsewhere\<close>
  stands for everything the other devices and the interrupt handlers do: they may change the
  FIFOs, send events and set the time, but neither open or close a descriptor nor
  touch the trigger vectors.
\<close>

type_synonym event_fds = "nat \<Rightarrow> (filp \<times> libera_event_local) option"

inductive event_step ::
  "(kernel \<Rightarrow> (kernel \<times> (errno + int)) call) \<Rightarrow> kernel \<times> event_fds \<Rightarrow> kernel \<times> event_fds \<Rightarrow> bool"
  for acq where
  Opened: "fds (file_id f) = None \<Longrightarrow> libera_event_open f ok k = Ret (k', Some loc, Inr 0) \<Longrightarrow>
     event_step acq (k, fds) (k', fds(file_id f \<mapsto> (f, loc)))"
| Open_failed: "libera_event_open f ok k = Ret (k', l, Inl e) \<Longrightarrow>
     event_step acq (k, fds) (k', fds)"
| Released: "fds i = Some (f, loc) \<Longrightarrow>
     event_step acq (k, fds) (libera_event_release f loc k, fds(i := None))"
| Ioctl: "fds i = Some (f, loc) \<Longrightarrow> libera_event_ioctl acq f c env loc k = Ret (k', loc', r, out) \<Longrightarrow>
     event_step acq (k, fds) (k', fds(i \<mapsto> (f, loc')))"
| Read: "fds i = Some (f, loc) \<Longrightarrow> libera_event_read f sig ws fails n k = Ret (k', out, r) \<Longrightarrow>
     event_step acq (k, fds) (k', fds)"
| Elsewhere: "ev_same k k' \<Longrightarrow> event_step acq (k, fds) (k', fds)"

inductive_cases event_step_cases: "event_step acq S S'"

definition writer_fds :: "event_fds \<Rightarrow> nat set" where
  "writer_fds fds = {i. \<exists>f loc. fds i = Some (f, loc) \<and> fmode_write f}"

definition reader_fds :: "event_fds \<Rightarrow> nat set" where
  "reader_fds fds = {i. \<exists>f loc. fds i = Some (f, loc) \<and> fmode_read f}"

text \<open>The bookkeeping of open and release.\<close>

definition access_inv :: "kernel \<times> event_fds \<Rightarrow> bool" where
  "access_inv S \<longleftrightarrow> (case S of (k, fds) \<Rightarrow>
     finite (dom fds) \<and> (\<forall>i f loc. fds i = Some (f, loc) \<longrightarrow> file_id f = i)
     \<and> open_count (event k) = of_nat (card (dom fds))
     \<and> readers (event k) = of_nat (card (reader_fds fds))
     \<and> writers (event k) = of_nat (card (writer_fds fds))
     \<and> writer_fds fds = (case master_filp (event k) of None \<Rightarrow> {} | Some m \<Rightarrow> {m}))"

text \<open>Who owns which trigger.\<close>

definition trig_inv :: "kernel \<times> event_fds \<Rightarrow> bool" where
  "trig_inv S \<longleftrightarrow> (case S of (k, fds) \<Rightarrow>
     (\<forall>i f loc. fds i = Some (f, loc) \<longrightarrow> loc_ok loc
        \<and> (\<forall>n. bit (loc_sc_trigVec loc) n \<longrightarrow> bit (sc_trigVec (event k)) n)
        \<and> (\<forall>n. bit (loc_mc_trigVec loc) n \<longrightarrow> bit (mc_trigVec (event k)) n))
     \<and> (\<forall>i j f g loc loc'. fds i = Some (f, loc) \<longrightarrow> fds j = Some (g, loc') \<longrightarrow> i \<noteq> j \<longrightarrow>
          loc_sc_trigVec loc AND loc_sc_trigVec loc' = 0 \<and> loc_mc_trigVec loc AND loc_mc_trigVec loc' = 0))"

definition event_init :: "kernel \<Rightarrow> bool" where
  "event_init k \<longleftrightarrow> ev_access k = (0, 0, 0, None) \<and> event_fifo_ok (events (event k))"

definition event_inv :: "kernel \<times> event_fds \<Rightarrow> bool" where
  "event_inv S \<longleftrightarrow> access_inv S \<and> trig_inv S \<and> event_fifo_ok (events (event (fst S)))"

lemma access_inv_keep:
  "access_inv (k, fds) \<Longrightarrow> ev_access k' = ev_access k \<Longrightarrow> access_inv (k', fds)"
  by (simp add: access_inv_def ev_access_def)

lemma access_inv_local:
  assumes "access_inv (k, fds)" "ev_access k' = ev_access k" "fds i = Some (f, loc)"
  shows "access_inv (k', fds(i \<mapsto> (f, loc')))"
proof -
  have "writer_fds (fds(i \<mapsto> (f, loc'))) = writer_fds fds"
    "reader_fds (fds(i \<mapsto> (f, loc'))) = reader_fds fds" "dom (fds(i \<mapsto> (f, loc'))) = dom fds"
    using assms(3) by (auto simp: writer_fds_def reader_fds_def split: if_splits)
  then show ?thesis using assms by (auto simp: access_inv_def ev_access_def)
qed

lemma finite_fds: "finite (dom fds) \<Longrightarrow> finite (writer_fds fds)" "finite (dom fds) \<Longrightarrow> finite (reader_fds fds)"
  by (auto simp: writer_fds_def reader_fds_def intro: finite_subset [of _ "dom fds"])

lemma fds_insert:
  assumes "fds i = None"
  shows "writer_fds (fds(i \<mapsto> (f, loc))) = (if fmode_write f then insert i (writer_fds fds) else writer_fds fds)"
    and "reader_fds (fds(i \<mapsto> (f, loc))) = (if fmode_read f then insert i (reader_fds fds) else reader_fds fds)"
    and "i \<notin> writer_fds fds" "i \<notin> reader_fds fds" "i \<notin> dom fds"
  using assms by (auto simp: writer_fds_def reader_fds_def split: if_splits)

lemma fds_remove:
  "writer_fds (fds(i := None)) = writer_fds fds - {i}"
  "reader_fds (fds(i := None)) = reader_fds fds - {i}"
  by (auto simp: writer_fds_def reader_fds_def split: if_splits)

lemma access_inv_open:
  assumes inv: "access_inv (k, fds)" and new: "fds (file_id f) = None"
    and op: "libera_event_open f ok k = Ret (k', Some loc, Inr 0)"
  shows "access_inv (k', fds(file_id f \<mapsto> (f, loc)))"
proof -
  have free: "fmode_write f \<Longrightarrow> master_filp (event k) = None"
    and acc: "ev_access k' = (open_count (event k) + 1,
      (if fmode_write f then writers (event k) + 1 else writers (event k)),
      (if fmode_read f then readers (event k) + 1 else readers (event k)),
      (if fmode_write f then Some (file_id f) else master_filp (event k)))"
    using op by (auto simp: libera_event_open_def Let_def ev_access_def split: if_splits)
  note ins = fds_insert [where fds = fds and i = "file_id f", OF new]
  have fin: "finite (dom fds)" using inv by (simp add: access_inv_def)
  show ?thesis
    using inv acc free new ins finite_fds [OF fin] fin
    by (auto simp: access_inv_def ev_access_def split: if_splits option.splits)
qed

lemma access_inv_release:
  assumes inv: "access_inv (k, fds)" and i: "fds i = Some (f, loc)"
  shows "access_inv (libera_event_release f loc k, fds(i := None))"
proof -
  have fin: "finite (dom fds)" and fi: "file_id f = i" using inv i by (auto simp: access_inv_def)
  have w: "i \<in> writer_fds fds \<longleftrightarrow> fmode_write f" and r: "i \<in> reader_fds fds \<longleftrightarrow> fmode_read f"
    using i by (auto simp: writer_fds_def reader_fds_def)
  have wm: "fmode_write f \<Longrightarrow> master_filp (event k) = Some i \<and> writer_fds fds = {i}"
    using inv w by (auto simp: access_inv_def split: option.splits)
  have acc: "ev_access (libera_event_release f loc k) = (open_count (event k) - 1,
      (if fmode_write f then writers (event k) - 1 else writers (event k)),
      (if fmode_read f then readers (event k) - 1 else readers (event k)),
      (if fmode_write f \<and> writers (event k) = 1 then None else master_filp (event k)))"
    by (simp add: libera_event_release_def Let_def ev_access_def)
  have c: "(of_nat (card (A - {i})) :: u32) = of_nat (card A) - 1" if "finite A" "i \<in> A" for A :: "nat set"
  proof -
    have "card A = Suc (card (A - {i}))" using that by (metis card.remove)
    then show ?thesis by simp
  qed
  have "dom (fds(i := None)) = dom fds - {i}" "i \<in> dom fds" using i by auto
  then show ?thesis
    using inv acc c [of "dom fds"] c [of "reader_fds fds"] finite_fds [OF fin] fin w r wm fds_remove [of fds i]
    by (auto simp: access_inv_def ev_access_def split: if_splits option.splits)
qed

lemma trig_inv_keep: "trig_inv (k, fds) \<Longrightarrow> ev_trig k' = ev_trig k \<Longrightarrow> trig_inv (k', fds)"
  by (simp add: trig_inv_def ev_trig_def)

lemma open_trig: "libera_event_open f ok k = Ret (k', l, r) \<Longrightarrow> ev_trig k' = ev_trig k
   \<and> (\<forall>loc. l = Some loc \<longrightarrow> loc = \<lparr>loc_sc_trigVec = 0, loc_mc_trigVec = 0\<rparr>)
   \<and> (event_fifo_ok (events (event k)) \<longrightarrow> event_fifo_ok (events (event k')))
   \<and> (\<forall>e. r = Inl e \<longrightarrow> ev_access k' = ev_access k)"
  by (auto simp: libera_event_open_def Let_def ev_trig_def ev_access_def event_fifo.flush_ok split: if_splits)

lemma trig_inv_open:
  assumes "trig_inv (k, fds)" "ev_trig k' = ev_trig k" "fds i = None"
  shows "trig_inv (k', fds(i \<mapsto> (f, \<lparr>loc_sc_trigVec = 0, loc_mc_trigVec = 0\<rparr>)))"
  using assms by (auto simp: trig_inv_def ev_trig_def loc_ok_def split: if_splits)

lemma disjoint_bits: "(a :: u32) AND b = 0 \<longleftrightarrow> (\<forall>n. \<not> (bit a n \<and> bit b n))"
  using bit_imp_le_length [of a] by (auto simp: bit_eq_iff bit_simps)

lemma bit_and_not: "bit (a AND NOT b :: u32) n \<longleftrightarrow> bit a n \<and> \<not> bit b n"
  by (auto simp: bit_simps dest: bit_imp_le_length)

lemma trig_inv_release:
  assumes inv: "trig_inv (k, fds)" and i: "fds i = Some (f, loc)"
  shows "trig_inv (libera_event_release f loc k, fds(i := None))"
proof -
  have v: "sc_trigVec (event (libera_event_release f loc k)) =
        (if fmode_read f \<and> \<not> fmode_write f then sc_trigVec (event k) AND NOT (loc_sc_trigVec loc)
         else sc_trigVec (event k))"
      "mc_trigVec (event (libera_event_release f loc k)) =
        (if fmode_read f \<and> \<not> fmode_write f then mc_trigVec (event k) AND NOT (loc_mc_trigVec loc)
         else mc_trigVec (event k))"
    by (simp_all add: libera_event_release_def Let_def)
  have dis: "loc_sc_trigVec loc AND loc_sc_trigVec loc' = 0 \<and> loc_mc_trigVec loc AND loc_mc_trigVec loc' = 0"
    if "fds j = Some (g, loc')" "j \<noteq> i" for j g loc'
    by (rule inv [unfolded trig_inv_def prod.case, THEN conjunct2, rule_format,
          OF i that(1) that(2) [symmetric]])
  have dsc: "\<not> bit (loc_sc_trigVec loc) n" if "fds j = Some (g, loc')" "j \<noteq> i" "bit (loc_sc_trigVec loc') n"
    for j g loc' n using dis [OF that(1,2)] that(3) by (auto simp: disjoint_bits)
  have dmc: "\<not> bit (loc_mc_trigVec loc) n" if "fds j = Some (g, loc')" "j \<noteq> i" "bit (loc_mc_trigVec loc') n"
    for j g loc' n using dis [OF that(1,2)] that(3) by (auto simp: disjoint_bits)
  have "loc_ok loc'
        \<and> (\<forall>n. bit (loc_sc_trigVec loc') n \<longrightarrow> bit (sc_trigVec (event (libera_event_release f loc k))) n)
        \<and> (\<forall>n. bit (loc_mc_trigVec loc') n \<longrightarrow> bit (mc_trigVec (event (libera_event_release f loc k))) n)"
    if "(fds(i := None)) j = Some (g, loc')" for j g loc'
  proof -
    have j: "fds j = Some (g, loc')" "j \<noteq> i" using that by (simp_all split: if_splits)
    have o: "loc_ok loc'" "\<And>n. bit (loc_sc_trigVec loc') n \<Longrightarrow> bit (sc_trigVec (event k)) n"
      "\<And>n. bit (loc_mc_trigVec loc') n \<Longrightarrow> bit (mc_trigVec (event k)) n"
      using inv j(1) unfolding trig_inv_def by auto
    show ?thesis using o dsc [OF j] dmc [OF j] by (simp add: v bit_and_not)
  qed
  moreover have "fds j = Some (g, l)" if "(fds(i := None)) j = Some (g, l)" for j g l
    using that by (simp split: if_splits)
  ultimately show ?thesis
    using inv [unfolded trig_inv_def prod.case, THEN conjunct2]
    unfolding trig_inv_def prod.case by meson
qed

text \<open>A command may give its descriptor more triggers, all of them free before.\<close>

lemma or_sub: "(\<forall>n. bit a n \<longrightarrow> bit v n) \<Longrightarrow> v OR (a OR x) = v OR (x :: u32)"
  by (auto simp: bit_eq_iff bit_or_iff)

lemma trig_grow_vec:
  assumes "trig_grow a loc k loc' k'"
    "\<forall>n. bit (loc_sc_trigVec loc) n \<longrightarrow> bit (sc_trigVec (event k)) n"
    "\<forall>n. bit (loc_mc_trigVec loc) n \<longrightarrow> bit (mc_trigVec (event k)) n"
  shows "sc_trigVec (event k') = sc_trigVec (event k) OR fst a"
    "mc_trigVec (event k') = mc_trigVec (event k) OR snd a"
  using assms or_sub by (auto simp: trig_grow_def split: if_splits)

lemma trig_inv_grow:
  assumes inv: "trig_inv (k, fds)" and i: "fds i = Some (f, loc)"
    and g: "trig_grow a loc k loc' k'" and ok: "loc_ok loc'"
  shows "trig_inv (k', fds(i \<mapsto> (f, loc')))"
proof -
  note inv1 = inv [unfolded trig_inv_def prod.case, THEN conjunct1, rule_format]
  note inv2 = inv [unfolded trig_inv_def prod.case, THEN conjunct2, rule_format]
  have sub: "\<And>n. bit (loc_sc_trigVec loc) n \<Longrightarrow> bit (sc_trigVec (event k)) n"
    "\<And>n. bit (loc_mc_trigVec loc) n \<Longrightarrow> bit (mc_trigVec (event k)) n"
    using inv1 [OF i] by auto
  have vec: "sc_trigVec (event k') = sc_trigVec (event k) OR fst a"
    "mc_trigVec (event k') = mc_trigVec (event k) OR snd a"
    using trig_grow_vec [OF g] sub by auto
  have loc': "loc_sc_trigVec loc' = loc_sc_trigVec loc OR fst a"
    "loc_mc_trigVec loc' = loc_mc_trigVec loc OR snd a"
    and new: "\<And>n. bit (fst a) n \<Longrightarrow> \<not> bit (sc_trigVec (event k)) n"
    "\<And>n. bit (snd a) n \<Longrightarrow> \<not> bit (mc_trigVec (event k)) n"
    using g by (auto simp: trig_grow_def disjoint_bits)
  have one: "loc_ok l \<and> (\<forall>n. bit (loc_sc_trigVec l) n \<longrightarrow> bit (sc_trigVec (event k')) n)
      \<and> (\<forall>n. bit (loc_mc_trigVec l) n \<longrightarrow> bit (mc_trigVec (event k')) n)"
    if "(fds(i \<mapsto> (f, loc'))) j = Some (h, l)" for j h l
  proof (cases "j = i")
    case True
    then have "l = loc'" using that by simp
    then show ?thesis using ok sub by (auto simp: vec loc' bit_or_iff)
  next
    case False
    then show ?thesis using that inv1 [of j h l] by (simp add: vec bit_or_iff)
  qed
  have two: "loc_sc_trigVec loc' AND loc_sc_trigVec l = 0 \<and> loc_mc_trigVec loc' AND loc_mc_trigVec l = 0"
    if "fds j = Some (h, l)" "j \<noteq> i" for j h l
  proof -
    have d: "loc_sc_trigVec loc AND loc_sc_trigVec l = 0" "loc_mc_trigVec loc AND loc_mc_trigVec l = 0"
      using inv2 [OF i that(1) that(2) [symmetric]] by auto
    have s: "\<And>n. bit (loc_sc_trigVec l) n \<Longrightarrow> bit (sc_trigVec (event k)) n"
      "\<And>n. bit (loc_mc_trigVec l) n \<Longrightarrow> bit (mc_trigVec (event k)) n"
      using inv1 [OF that(1)] by auto
    show ?thesis
      using d new s unfolding disjoint_bits loc' bit_or_iff by metis
  qed
  have "loc_sc_trigVec l AND loc_sc_trigVec l' = 0 \<and> loc_mc_trigVec l AND loc_mc_trigVec l' = 0"
    if "(fds(i \<mapsto> (f, loc'))) j = Some (h, l)" "(fds(i \<mapsto> (f, loc'))) j' = Some (h', l')" "j \<noteq> j'"
    for j j' h h' l l'
  proof -
    consider "j = i" | "j' = i" | "j \<noteq> i" "j' \<noteq> i" by blast
    then show ?thesis
    proof cases
      case 1
      then have "l = loc'" "fds j' = Some (h', l')" "j' \<noteq> i" using that by auto
      then show ?thesis using two by blast
    next
      case 2
      then have "l' = loc'" "fds j = Some (h, l)" "j \<noteq> i" using that by auto
      then show ?thesis using two [of j h l] by (simp add: and.commute)
    next
      case 3
      then show ?thesis using inv2 [of j h l j' h' l'] that by simp
    qed
  qed
  then show ?thesis
    unfolding trig_inv_def prod.case using one by meson
qed

section \<open>The invariant of the sessions\<close>

lemma event_read_same:
  assumes "libera_event_read f sig ws fails n k = Ret (k', out, r)" "event_fifo_ok (events (event k))"
  shows "ev_access k' = ev_access k" "ev_trig k' = ev_trig k" "event_fifo_ok (events (event k'))"
proof -
  have put: "event_fifo_ok (fold (\<lambda>e q. fst (putTo_eventFIFO q e)) es q)" if "event_fifo_ok q" for es q
    using that
  proof (induction es arbitrary: q)
    case (Cons e es)
    have "event_fifo_ok (fst (putTo_eventFIFO q e))"
      by (rule event_fifo.put_cases [OF Cons.prems, of e]) (simp_all add: Cons.prems)
    then show ?case using Cons.IH by simp
  qed simp
  have wait: "event_fifo_ok q'" if "event_wait s ws q = Ret (q', e)" "event_fifo_ok q" for s ws q q' e
    using that
  proof (induction ws arbitrary: q s)
    case (Cons w ws)
    then show ?case using put by (auto split: if_splits)
  qed (auto split: if_splits)
  have copy: "event_fifo_ok q'" if "event_copy fails i m q out ret = (q', out', r)" "event_fifo_ok q"
    for i m q out ret q' out' r
    using that
  proof (induction m arbitrary: i q out ret)
    case (Suc m)
    show ?case
    proof (rule event_fifo.get_cases [OF Suc.prems(2)])
      assume "getFrom_eventFIFO q = (q, None)"
      then show ?thesis using Suc.prems by simp
    next
      fix x q1
      assume "getFrom_eventFIFO q = (q1, Some x)" "event_fifo_ok q1"
      then show ?thesis using Suc.prems Suc.IH [of "i + 1" q1 "out @ [x]" "ret + 8"]
        by (simp split: if_splits)
    qed
  qed simp
  have "k' = k \<or> (\<exists>q. k' = k\<lparr>event := (event k)\<lparr>events := q\<rparr>\<rparr> \<and> event_fifo_ok q)"
  proof (cases "k' = k")
    case False
    then obtain q e where w: "event_wait sig ws (events (event k)) = Ret (q, e)"
      using assms(1) by (auto simp: libera_event_read_def call_bind_Ret_iff
          split: lock_result.splits if_splits)
    obtain q' o' r' where c: "event_copy fails 0 (unat (min (n div 8) (len_eventFIFO q))) q [] 0 = (q', o', r')"
      by (metis prod_cases3)
    have "event_fifo_ok q" by (rule wait [OF w assms(2)])
    then show ?thesis
      using assms(1) False w c copy [OF c]
      by (cases e) (auto simp: libera_event_read_def Let_def split: lock_result.splits if_splits)
  qed simp
  then show "ev_access k' = ev_access k" "ev_trig k' = ev_trig k" "event_fifo_ok (events (event k'))"
    using assms(2) by (auto simp: ev_access_def ev_trig_def)
qed

lemma event_release_fifo:
  "event_fifo_ok (events (event k)) \<Longrightarrow> event_fifo_ok (events (event (libera_event_release f loc k)))"
  by (simp add: libera_event_release_def Let_def event_fifo.flush_ok)

lemma event_inv_step:
  assumes acq: "\<And>k k' r. acq k = Ret (k', r) \<Longrightarrow> ev_same k k'"
  assumes step: "event_step acq S S'" and inv: "event_inv S"
  shows "event_inv S'"
  using step inv
proof cases
  case (Opened fds f ok k k' loc)
  then show ?thesis
    using inv open_trig [OF Opened(4)] access_inv_open [of k fds f ok k' loc]
      trig_inv_open [of k fds k' "file_id f" f]
    by (simp add: event_inv_def)
next
  case (Open_failed f ok k k' l e fds)
  then show ?thesis
    using inv open_trig [OF Open_failed(3)] access_inv_keep [of k fds k'] trig_inv_keep [of k fds k']
    by (simp add: event_inv_def)
next
  case (Released fds i f loc k)
  then show ?thesis
    using inv access_inv_release [of k fds i f loc] trig_inv_release [of k fds i f loc] event_release_fifo
    by (simp add: event_inv_def)
next
  case (Ioctl fds i f loc c env k k' loc' r out)
  have lk: "loc_ok loc" using inv Ioctl(1,3) by (auto simp: event_inv_def trig_inv_def)
  have "loc_ok loc' \<and> (\<exists>a. trig_grow a loc k loc' k')"
    using Ioctl(4) lk trig_grow_same [of k k loc] event_cmd_grow [OF acq _ lk]
    by (fastforce simp: libera_event_ioctl_def split: if_splits)
  then obtain a where g: "trig_grow a loc k loc' k'" "loc_ok loc'" by blast
  then have "ev_keep k k'" by (simp add: trig_grow_def)
  then show ?thesis
    using inv Ioctl trig_inv_grow [of k fds i f loc, OF _ Ioctl(3) g] access_inv_local [of k fds k' i f loc]
    by (simp add: event_inv_def ev_keep_def)
next
  case (Read fds i f loc sig ws fails n k k' out r)
  then show ?thesis
    using inv event_read_same [OF Read(4)] access_inv_keep [of k fds k'] trig_inv_keep [of k fds k']
    by (simp add: event_inv_def)
next
  case (Elsewhere k k' fds)
  then show ?thesis
    using inv access_inv_keep [of k fds k'] trig_inv_keep [of k fds k']
    by (simp add: event_inv_def ev_same_def ev_keep_def)
qed

lemma event_inv_init: "event_init k \<Longrightarrow> event_inv (k, \<lambda>_. None)"
  by (simp add: event_init_def event_inv_def access_inv_def trig_inv_def ev_access_def
      writer_fds_def reader_fds_def)

lemma event_inv_reachable:
  assumes acq: "\<And>k k' r. acq k = Ret (k', r) \<Longrightarrow> ev_same k k'"
    and "(event_step acq)\<^sup>*\<^sup>* (k0, \<lambda>_. None) S" "event_init k0"
  shows "event_inv S"
  using assms(2,3) by (induction rule: rtranclp_induct) (auto intro: event_inv_init event_inv_step [OF acq])

section \<open>Properties\<close>

text \<open>C38. The event FIFO neither loses, duplicates nor reorders an accepted event: over any
  sequence of calls of \<open>putTo_eventFIFO\<close> and \<open>getFrom_eventFIFO\<close>, what was in the FIFO followed
  by what was accepted is what was delivered followed by what is still there.\<close>

theorem event_fifo_order:
  assumes "event_fifo_ok q" "fifo_run putTo_eventFIFO getFrom_eventFIFO q cs = (q', acc, del)"
  shows "event_fifo_ok q' \<and> event_fifo_list q @ acc = del @ event_fifo_list q'"
  by (rule event_fifo.fifo_order [OF assms])

definition event0 :: libera_event_t where "event0 = \<lparr>ev_id = 0, ev_param = 0\<rparr>"

lemma event0_ok: "event_fifo_ok (empty_ring z)" "event_fifo_list (empty_ring z) = []"
  by (simp_all add: event_fifo_ok_def event_fifo_list_def TRIG_LOG_BITS_def empty_ring_inv)

lemma event_fifo_order_witness:
  "\<exists>q' acc del. fifo_run putTo_eventFIFO getFrom_eventFIFO (empty_ring event0)
      [Put \<lparr>ev_id = 1, ev_param = 7\<rparr>, Put event0, Get] = (q', acc, del)
    \<and> acc = del @ event_fifo_list q'"
proof -
  obtain q' acc del where r: "fifo_run putTo_eventFIFO getFrom_eventFIFO (empty_ring event0)
      [Put \<lparr>ev_id = 1, ev_param = 7\<rparr>, Put event0, Get] = (q', acc, del)"
    by (metis prod_cases3)
  show ?thesis using event_fifo_order [OF event0_ok(1) r] r by (simp add: event0_ok)
qed

text \<open>C0. A read of the event device with events waiting returns the oldest events, as many as
  were asked for and are there, and removes exactly these.\<close>

theorem event_read_oldest:
  assumes "event_fifo_ok (events (event k))" "\<not> sem (event k)"
    and "event_fifo_list (events (event k)) \<noteq> []" "count \<noteq> 0" "count mod 8 = 0"
    and "n = min (unat count div 8) (length (event_fifo_list (events (event k))))"
  shows "\<exists>k'. libera_event_read f sig ws (\<lambda>_. False) count k =
       Ret (k', take n (event_fifo_list (events (event k))), Inr (8 * of_nat n))
     \<and> event_fifo_list (events (event k')) = drop n (event_fifo_list (events (event k)))"
  using event_read_ready [OF assms(1-5), of "\<lambda>_. False" f sig ws] assms(6) by auto

definition reader0 :: filp where
  "reader0 = \<lparr>file_id = 1, fmode_read = True, fmode_write = False, o_nonblock = False\<rparr>"

definition kernel_one_event :: kernel where
  "kernel_one_event = fst (libera_send_event LIBERA_EVENT_SA 1 (boot_kernel\<lparr>event_mask := 4\<rparr>))"

lemma kernel_one_event:
  "event_fifo_ok (events (event kernel_one_event))"
  "event_fifo_list (events (event kernel_one_event)) = [\<lparr>ev_id = 4, ev_param = 1\<rparr>]"
  "\<not> sem (event kernel_one_event)"
proof -
  let ?k = "boot_kernel\<lparr>event_mask := 4\<rparr>"
  have e: "event_fifo_ok (events (event ?k))" "event_fifo_list (events (event ?k)) = []"
    using event0_ok [of event0] by (simp_all add: init_event_def event0_def)
  have m: "LIBERA_EVENT_SA AND event_mask ?k \<noteq> 0" by (simp add: LIBERA_EVENT_SA_def)
  obtain k' r where k': "libera_send_event LIBERA_EVENT_SA 1 ?k = (k', r)" by fastforce
  note sent = send_event_sent [OF m e(1) k']
  have eq: "kernel_one_event = k'" by (simp only: kernel_one_event_def k' fst_conv)
  show "event_fifo_ok (events (event kernel_one_event))"
    "event_fifo_list (events (event kernel_one_event)) = [\<lparr>ev_id = 4, ev_param = 1\<rparr>]"
    using sent e(2) eq by (simp_all add: LIBERA_EVENT_SA_def)
  show "\<not> sem (event kernel_one_event)"
    using m by (simp add: kernel_one_event_def libera_send_event_def init_event_def
        split: prod.splits)
qed

lemma event_read_oldest_witness:
  "\<exists>k'. libera_event_read reader0 False [] (\<lambda>_. False) 80 kernel_one_event =
     Ret (k', [\<lparr>ev_id = 4, ev_param = 1\<rparr>], Inr 8)"
  using event_read_oldest [of kernel_one_event 80 1 reader0 False "[]"]
  by (auto simp: kernel_one_event)

lemma unat16: "n < 65536 \<Longrightarrow> unat (of_nat n :: u16) = n"
  by (simp add: unat_of_nat)

lemma flush_scs_one:
  assumes "unat i < 11"
  shows "flush_scs [i] k = Ret (set_fifo (SCQ (unat i)) (flushFIFO (sc_timestamps (event k) (unat i))) k)"
  using assms by (simp add: flush_scs_def TRIG_EVENTS_MAX_def)

lemma trig_guards:
  assumes "22 \<le> p" "p \<le> 30"
  shows "(2 :: u32) ^ p \<noteq> 0" "2 ^ p AND not_TRIG_ALL_MASK = 0"
proof -
  show "(2 :: u32) ^ p \<noteq> 0" using assms by (intro two_pow_nonzero) simp
  have "\<not> bit not_TRIG_ALL_MASK p"
  proof -
    have eq: "not_TRIG_ALL_MASK = 2 ^ 31" by (simp add: not_TRIG_ALL_MASK_value)
    show ?thesis unfolding eq bit_two_pow using assms by simp
  qed
  then show "2 ^ p AND not_TRIG_ALL_MASK = 0" by (simp add: two_pow_and)
qed

text \<open>C0. Enabling one SC trigger: the stamps left in its own FIFO are discarded, the other
  FIFOs keep theirs, the descriptor and the device own the trigger, and the mask register is
  written with the SELF_INC bit set.\<close>

theorem enable_one_sc_trigger:
  assumes "22 \<le> p" "p \<le> 30" "2 ^ p AND sc_trigVec (event k) = 0" "loc_ok loc"
  shows "\<exists>k' loc'. cmd_enable_sc_trig (2 ^ p) loc k = Ret (k', loc', Inr 0)
    \<and> fifo_list (sc_timestamps (event k') (p - 22)) = []
    \<and> (\<forall>i. i \<noteq> p - 22 \<longrightarrow> sc_timestamps (event k') i = sc_timestamps (event k) i)
    \<and> loc_sc_trigVec loc' = loc_sc_trigVec loc OR 2 ^ p
    \<and> sc_trigVec (event k') = sc_trigVec (event k) OR (loc_sc_trigVec loc OR 2 ^ p)
    \<and> trace k' = trace k @ [(T_SC_TRIGGER_MASK, sc_trigVec (event k') OR 0x80000000)]"
proof -
  have i: "unat (of_nat (p - 22) :: u16) = p - 22"
    using assms by (intro unat16) simp
  have hb: "(loc_sc_trigVec loc OR 2 ^ p) AND not_TRIG_ALL_MASK = 0"
    using assms(4) trig_guards(2) [OF assms(1,2)] by (intro or_high_bit) (simp_all add: loc_ok_def)
  have "p - 22 < 11" using assms by simp
  then have f: "flush_scs (trig_flush 0 (2 ^ p)) k =
      Ret (set_fifo (SCQ (p - 22)) (flushFIFO (sc_timestamps (event k) (p - 22))) k)"
    using flush_scs_one [of "of_nat (p - 22)" k] by (simp add: trig_flush_one [OF assms(1,2)] i)
  show ?thesis
    using assms(3) trig_guards [OF assms(1,2)] hb stamp_fifo.flush_ok
    by (simp add: cmd_enable_sc_trig_def f libera_sctrig_enable_def Let_def)
qed

lemma enable_one_sc_trigger_witness:
  "\<exists>k' loc'. cmd_enable_sc_trig (2 ^ 27) \<lparr>loc_sc_trigVec = 0, loc_mc_trigVec = 0\<rparr> boot_kernel
     = Ret (k', loc', Inr 0) \<and> loc_sc_trigVec loc' = 2 ^ 27"
  using enable_one_sc_trigger [of 27 boot_kernel "\<lparr>loc_sc_trigVec = 0, loc_mc_trigVec = 0\<rparr>"]
  by (auto simp: init_event_def loc_ok_def)

text \<open>C0. Enabling two SC triggers in one call goes wrong: the index of the second FIFO starts
  from that of the first, so a FIFO of another trigger is flushed, and when the sum of the
  two numbers reaches the number of FIFOs the write is outside the array.\<close>

theorem enable_two_sc_triggers_fault:
  assumes "22 \<le> p" "p < q" "q \<le> 30" "(2 ^ p OR 2 ^ q) AND sc_trigVec (event k) = 0"
    and "11 \<le> (p - 22) + (q - 22)"
  shows "cmd_enable_sc_trig (2 ^ p OR 2 ^ q) loc k = Fault"
proof -
  have g: "(2 ^ p OR 2 ^ q) AND not_TRIG_ALL_MASK = 0" "2 ^ p OR 2 ^ q \<noteq> (0 :: u32)"
    using trig_guards [of p] trig_guards [of q] assms by (simp_all add: or_high_bit or_eq_0_iff)
  have "unat (of_nat (p - 22) + of_nat (q - 22) :: u16) = (p - 22) + (q - 22)"
    using assms by (simp only: of_nat_add [symmetric]) (intro unat16, simp)
  then have "flush_scs (trig_flush 0 (2 ^ p OR 2 ^ q)) k = Fault"
    using assms by (simp add: trig_flush_two flush_scs_def TRIG_EVENTS_MAX_def)
  then show ?thesis using assms(4) g by (simp add: cmd_enable_sc_trig_def)
qed

lemma enable_two_sc_triggers_fault_witness:
  "cmd_enable_sc_trig (2 ^ 27 OR 2 ^ 28) \<lparr>loc_sc_trigVec = 0, loc_mc_trigVec = 0\<rparr> boot_kernel = Fault"
  by (rule enable_two_sc_triggers_fault) (simp_all add: init_event_def)

text \<open>When a read of a trigger stamp times out while another process holds the mutex of
  the event device, the call unlocks the mutex that the other process holds.\<close>

theorem timeout_releases_foreign_mutex:
  assumes "\<not> sem (event k)" "emptyFIFO (fifo_of s k)" "wk_left w = 0" "wk_stamps w = []"
  shows "\<exists>k'. getBlockedFromFIFOuser s False (w # ws) u k = Ret (k', Inl EAGAIN)
    \<and> \<not> sem (event k')
    \<and> (\<exists>k1. fifo_wait_timeout s False (w # ws) (set_event_sem True k) = Ret (k1, Some EAGAIN)
         \<and> sem (event k1) = wk_held w)"
proof -
  have e: "\<not> not_emptyFIFO (fifo_of s (set_event_sem True k))"
    using assms(2)
    by (cases s) (simp_all add: set_event_sem_def emptyFIFO_def not_emptyFIFO_def ring_empty_def ring_not_empty_def)
  have w: "fifo_wait_timeout s False (w # ws) (set_event_sem True k) =
      Ret (set_event_sem (wk_held w) (set_event_sem True k), Some EAGAIN)"
    using e assms(3,4) by simp
  show ?thesis
    using assms(1) w
    by (simp add: getBlockedFromFIFOuser_def del: fifo_wait_timeout.simps) (simp add: set_event_sem_def)
qed

definition wake_held :: wake where
  "wake_held = \<lparr>wk_stamps = [], wk_signal = False, wk_left = 0, wk_held = True\<rparr>"

lemma timeout_releases_foreign_mutex_witness:
  "\<exists>k' k1. getBlockedFromFIFOuser (SCQ 6) False [wake_held] 0 boot_kernel = Ret (k', Inl EAGAIN)
     \<and> \<not> sem (event k')
     \<and> fifo_wait_timeout (SCQ 6) False [wake_held] (set_event_sem True boot_kernel) = Ret (k1, Some EAGAIN)
     \<and> sem (event k1)"
  using timeout_releases_foreign_mutex [of boot_kernel "SCQ 6" wake_held "[]" 0]
  by (simp add: init_event_def wake_held_def emptyFIFO_def ring_empty_def empty_ring_def
      del: fifo_wait_timeout.simps)

text \<open>A refused open for writing leaks the descriptor data: the device is as before but one
  more allocation is live, and \<open>release\<close> is never called for a failed open.\<close>

theorem event_open_busy_leaks:
  assumes "\<not> sem (event k)" "fmode_write f" "master_filp (event k) \<noteq> None"
  shows "\<exists>k'. libera_event_open f True k =
      Ret (k', Some \<lparr>loc_sc_trigVec = 0, loc_mc_trigVec = 0\<rparr>, Inl EBUSY)
    \<and> event k' = event k \<and> live_allocs k' = live_allocs k + 1"
  using assms by (simp add: libera_event_open_def)

definition writer0 :: filp where
  "writer0 = \<lparr>file_id = 2, fmode_read = True, fmode_write = True, o_nonblock = False\<rparr>"

definition kernel_busy :: kernel where
  "kernel_busy = boot_kernel\<lparr>event := init_event\<lparr>master_filp := Some 1\<rparr>\<rparr>"

lemma event_open_busy_leaks_witness:
  "\<exists>k'. libera_event_open writer0 True kernel_busy =
      Ret (k', Some \<lparr>loc_sc_trigVec = 0, loc_mc_trigVec = 0\<rparr>, Inl EBUSY) \<and> live_allocs k' = 1"
proof -
  have "\<not> sem (event kernel_busy)" "fmode_write writer0" "master_filp (event kernel_busy) \<noteq> None"
    "live_allocs kernel_busy = 0"
    by (simp_all add: kernel_busy_def writer0_def init_event_def)
  then show ?thesis using event_open_busy_leaks [of kernel_busy writer0] by auto
qed

section \<open>Reading the current time\<close>

lemma getFromFIFO_cons:
  assumes "fifo_ok q" "fifo_list q = x # xs"
  obtains q' where "getFromFIFO q = (q', Some x)" "fifo_ok q'" "fifo_list q' = xs"
  using stamp_fifo.get_cons [OF assms] by blast

lemma not_empty_stamp_iff: "fifo_ok q \<Longrightarrow> not_emptyFIFO q \<longleftrightarrow> fifo_list q \<noteq> []"
  by (simp add: not_emptyFIFO_def ring_not_empty_def fifo_ok_def fifo_list_def ring_empty_iff
      TRIG_LOG_BITS_def)

text \<open>C0. A blocking read of a stamp FIFO that holds stamps returns the oldest one and removes
  it, whatever signal is pending, and gives the mutex back.\<close>

theorem getBlocked_oldest:
  assumes "\<not> sem (event k)" "fifo_ok (fifo_of s k)" "fifo_list (fifo_of s k) = t # ts"
  shows "\<exists>k'. getBlockedFromFIFO s sig ws k = Ret (k', Inr t)
    \<and> fifo_list (fifo_of s k') = ts \<and> \<not> sem (event k')"
proof -
  have eq: "fifo_of s (set_event_sem b k) = fifo_of s k" for b
    by (cases s) (simp_all add: set_event_sem_def)
  obtain q where q: "getFromFIFO (fifo_of s k) = (q, Some t)" "fifo_list q = ts"
    by (rule getFromFIFO_cons [OF assms(2,3)])
  have w: "fifo_wait s sig ws (set_event_sem True k) = Ret (set_event_sem True k, None)"
    using not_empty_stamp_iff [OF assms(2)] assms(3) by (cases ws) (simp_all add: eq)
  have "fifo_of s (set_event_sem False (set_fifo s q (set_event_sem True k))) = q"
    by (cases s) (simp_all add: set_event_sem_def)
  moreover have "\<not> sem (event (set_event_sem False k'))" for k'
    by (simp add: set_event_sem_def)
  ultimately show ?thesis
    using assms(1) w q by (simp add: getBlockedFromFIFO_def eq)
qed

definition kernel_stamp :: kernel where
  "kernel_stamp = irq_stamp (MCQ 4, 1000) (irq_stamp (SCQ 4, 2000) boot_kernel)"

lemma stamp0_ok: "fifo_ok (empty_ring z)" "fifo_list (empty_ring z) = []"
  by (simp_all add: fifo_ok_def fifo_list_def TRIG_LOG_BITS_def empty_ring_inv)

lemma put_stamp0: "\<exists>q. putToFIFO (empty_ring 0) t = (q, 0) \<and> fifo_ok q \<and> fifo_list q = [t]"
  using stamp_fifo.put_room [of "empty_ring 0" t] by (simp add: stamp0_ok)

lemma kernel_stamp:
  "fifo_ok (mc_timestamps (event kernel_stamp) 4)" "fifo_list (mc_timestamps (event kernel_stamp) 4) = [1000]"
  "fifo_ok (sc_timestamps (event kernel_stamp) 4)" "fifo_list (sc_timestamps (event kernel_stamp) 4) = [2000]"
  "\<not> sem (event kernel_stamp)" "\<not> CTIME_sem (event kernel_stamp)"
  using put_stamp0 [of 1000] put_stamp0 [of 2000]
  by (auto simp: kernel_stamp_def irq_stamp_def init_event_def)

lemma getBlocked_oldest_witness:
  "\<exists>k'. getBlockedFromFIFO (MCQ 4) True [] kernel_stamp = Ret (k', Inr 1000)"
  using getBlocked_oldest [of kernel_stamp "MCQ 4" 1000 "[]" True "[]"] by (auto simp: kernel_stamp)

text \<open>C0. A stale time: stamps that an interrupted \<open>libera_get_CTIME\<close> left in the two FIFOs are
  what the next call returns as the current time, although it has just fired a new trigger.\<close>

theorem get_CTIME_stale:
  assumes "\<not> sem (event k)" "\<not> CTIME_sem (event k)"
    and "fifo_ok (mc_timestamps (event k) 4)" "fifo_list (mc_timestamps (event k) 4) = m # ms"
    and "fifo_ok (sc_timestamps (event k) 4)" "fifo_list (sc_timestamps (event k) 4) = t # ts"
  shows "\<exists>k'. libera_get_CTIME sig ws k = Ret (k', Inr \<lparr>lst = t, lmt = m\<rparr>)
    \<and> fifo_list (mc_timestamps (event k') 4) = ms \<and> fifo_list (sc_timestamps (event k') 4) = ts"
proof -
  define k0 where "k0 = reg_write (TRIGGER_BIT 4) T_SC_EVENTGEN
    (k\<lparr>event := (event k)\<lparr>CTIME_sem := True\<rparr>\<rparr>)"
  have e0: "event k0 = (event k)\<lparr>CTIME_sem := True\<rparr>" by (simp add: k0_def)
  obtain q where q: "getFromFIFO (mc_timestamps (event k) 4) = (q, Some m)" "fifo_list q = ms"
    by (rule getFromFIFO_cons [OF assms(3,4)])
  obtain p where p: "getFromFIFO (sc_timestamps (event k) 4) = (p, Some t)" "fifo_list p = ts"
    by (rule getFromFIFO_cons [OF assms(5,6)])
  have w: "fifo_wait (MCQ 4) sig ws (set_event_sem True k0) = Ret (set_event_sem True k0, None)"
    using not_empty_stamp_iff [OF assms(3)] assms(4)
    by (cases ws) (simp_all add: set_event_sem_def e0)
  have g: "getBlockedFromFIFO (MCQ 4) sig ws k0 =
      Ret (set_event_sem False (set_fifo (MCQ 4) q (set_event_sem True k0)), Inr m)"
    using assms(1) w q by (simp add: getBlockedFromFIFO_def e0) (simp add: set_event_sem_def e0)
  show ?thesis
    using assms(2) g p q
    by (simp add: libera_get_CTIME_def k0_def [symmetric] T_TRIG_CTIME_def)
       (simp add: set_event_sem_def e0)
qed

lemma get_CTIME_stale_witness:
  "\<exists>k'. libera_get_CTIME False [] kernel_stamp = Ret (k', Inr \<lparr>lst = 2000, lmt = 1000\<rparr>)"
  using get_CTIME_stale [of kernel_stamp 1000 "[]" 2000 "[]" False "[]"] by (auto simp: kernel_stamp)

end
