(* ===== verification/Libera_Sa.thy ===== *)
theory Libera_Sa
  imports Libera_Event
begin

text \<open>
  The slow-acquisition device (\<open>libera_sa.c\<close>, \<open>libera_sa.h\<close>, and the SA handlers of
  \<open>ebpp.c\<close>). The interrupt handler fills a ring of 32 atoms from the FPGA; the tasklet copies
  each atom to the pipe of every reader; a reader blocks on its own pipe.
\<close>

section \<open>Registered pipes\<close>

definition LIBERA_SA_MAX_READERS :: nat where "LIBERA_SA_MAX_READERS = 16"

text \<open>The index the search loop stops at, if any.\<close>

definition first_pipe :: "(nat option \<Rightarrow> bool) \<Rightarrow> libera_registered_pipes \<Rightarrow> nat option" where
  "first_pipe P rp = List.find (\<lambda>i. P (sa_pipe rp i)) [0..<LIBERA_SA_MAX_READERS]"

definition libera_register_pipe ::
  "libera_registered_pipes \<Rightarrow> nat \<Rightarrow> libera_registered_pipes \<times> int" where
  "libera_register_pipe rp addr =
     (let occupied = (1 :: int);
          rp = rp\<lparr>sa_pipe := (sa_pipe rp)(next_pipe rp := Some addr), registered := registered rp + 1\<rparr>;
          (rp, occupied) = (case first_pipe (\<lambda>x. x = None) rp of
             Some i \<Rightarrow> (rp\<lparr>next_pipe := i\<rparr>, 1)
           | None \<Rightarrow> (rp, occupied))
      in (rp, if occupied \<noteq> 0 then - 1 else 0))"

definition libera_unregister_pipe ::
  "libera_registered_pipes \<Rightarrow> nat option \<Rightarrow> libera_registered_pipes \<times> int" where
  "libera_unregister_pipe rp addr =
     (case first_pipe (\<lambda>x. x = addr) rp of
        Some i \<Rightarrow> (rp\<lparr>registered := registered rp - 1, sa_pipe := (sa_pipe rp)(i := None), next_pipe := i\<rparr>, 0)
      | None \<Rightarrow> (rp, - 1))"

section \<open>Open and release\<close>

text \<open>
  \<open>addr\<close> is the address \<open>kmalloc\<close> returns, or \<open>None\<close>. The second component of the result is
  what \<open>file->f_version\<close> holds afterwards.
\<close>

definition libera_sa_open ::
  "filp \<Rightarrow> nat option \<Rightarrow> kernel \<Rightarrow> (kernel \<times> nat option \<times> (errno + int)) call" where
  "libera_sa_open f addr k =
     (let dev = sa k in
      if sem dev then Hang
      else if fmode_write f then Ret (k, None, Inl EACCES)
      else if registered (pipe dev) <s of_nat LIBERA_SA_MAX_READERS then
        (case addr of
           None \<Rightarrow> Ret (k, None, Inl ENOMEM)
         | Some a \<Rightarrow>
             let dev = dev\<lparr>sa_heap := (sa_heap dev)(a \<mapsto> \<lparr>sa_sem = False, sa_fifo = empty_ring (replicate 16 0)\<rparr>),
                   pipe := fst (libera_register_pipe (pipe dev) a)\<rparr>;
                 dev = (if fmode_read f \<and> master_filp dev = None
                        then dev\<lparr>master_filp := Some (file_id f)\<rparr> else dev);
                 dev = dev\<lparr>readers := readers dev + 1, open_count := open_count dev + 1\<rparr>
             in Ret (k\<lparr>sa := dev, live_allocs := live_allocs k + 1\<rparr>, Some a, Inr 0))
      else Ret (k, None, Inl EBUSY))"

definition libera_sa_release :: "filp \<Rightarrow> nat option \<Rightarrow> kernel \<Rightarrow> kernel call" where
  "libera_sa_release f addr k =
     (let dev = sa k in
      if sem dev then Hang
      else
        let (rp, r) = libera_unregister_pipe (pipe dev) addr;
            k = (if r < 0 then k
                 else k\<lparr>sa := dev\<lparr>pipe := rp, sa_heap := (sa_heap dev)(the addr := None)\<rparr>,
                        live_allocs := live_allocs k - 1\<rparr>);
            dev = (sa k)\<lparr>open_count := open_count (sa k) - 1, readers := readers (sa k) - 1\<rparr>;
            dev = (if readers dev = 0 then dev\<lparr>master_filp := None\<rparr> else dev)
        in Ret (k\<lparr>sa := dev\<rparr>))"

section \<open>Writing a pipe\<close>

text \<open>
  \<open>atoms\<close> are the atoms of the buffer, \<open>count\<close> its size in bytes; the result is the number of
  bytes written or an error. \<open>free_saFIFO\<close> is compared as an unsigned number.
\<close>

fun pipe_put ::
  "libera_sa_fifo \<Rightarrow> libera_atom_sa_t list \<Rightarrow> u32 \<Rightarrow> libera_sa_fifo \<times> u32" where
  "pipe_put q [] n = (q, n)"
| "pipe_put q (a # as) n =
     (case putTo_saFIFO q a of (q, r) \<Rightarrow>
        if r \<noteq> 0 then (q, n) else pipe_put q as (n + 64))"

definition libera_pipe_write ::
  "libera_sa_fifo \<Rightarrow> libera_atom_sa_t list \<Rightarrow> u32 \<Rightarrow> libera_sa_fifo \<times> (errno + u32)" where
  "libera_pipe_write q atoms count =
     (if count = 0 then (q, Inr 0)
      else if count mod 64 \<noteq> 0 then (q, Inl EINVAL)
      else
        let sa_count = count div 64 in
        if free_saFIFO q < sa_count then (q, Inl EFAULT)
        else let (q, n) = pipe_put q (take (unat sa_count) atoms) 0 in (q, Inr n))"

section \<open>Reading a pipe\<close>

text \<open>A sleep of the reader: the atoms the tasklet wrote in it, and a pending signal.\<close>

fun sa_wait ::
  "bool \<Rightarrow> (libera_atom_sa_t list \<times> bool) list \<Rightarrow> libera_sa_fifo \<Rightarrow> (libera_sa_fifo \<times> errno option) call" where
  "sa_wait sig [] q =
     (if not_empty_saFIFO q then Ret (q, None)
      else if sig then Ret (q, Some ERESTARTSYS) else Hang)"
| "sa_wait sig (w # ws) q =
     (if not_empty_saFIFO q then Ret (q, None)
      else if sig then Ret (q, Some ERESTARTSYS)
      else sa_wait (snd w) ws (fold (\<lambda>a q. fst (libera_pipe_write q [a] 64)) (fst w) q))"

fun sa_copy ::
  "(nat \<Rightarrow> bool) \<Rightarrow> nat \<Rightarrow> nat \<Rightarrow> libera_sa_fifo \<Rightarrow> libera_atom_sa_t list \<Rightarrow> u32
     \<Rightarrow> libera_sa_fifo \<times> libera_atom_sa_t list \<times> (errno + u32)" where
  "sa_copy fails i 0 q out ret = (q, out, Inr ret)"
| "sa_copy fails i (Suc n) q out ret =
     (case getFrom_saFIFO q of
        (q, None) \<Rightarrow> (q, out, Inl EFAULT)
      | (q, Some data) \<Rightarrow>
          if fails i then (q, out, Inl EFAULT)
          else sa_copy fails (i + 1) n q (out @ [data]) (ret + 64))"

text \<open>\<open>seek\<close> is the comparison of the two file positions.\<close>

definition libera_sa_read ::
  "filp \<Rightarrow> bool \<Rightarrow> bool \<Rightarrow> (libera_atom_sa_t list \<times> bool) list \<Rightarrow> (nat \<Rightarrow> bool) \<Rightarrow> u32 \<Rightarrow> sa_local
     \<Rightarrow> (sa_local \<times> libera_atom_sa_t list \<times> (errno + u32)) call" where
  "libera_sa_read f seek sig ws fails count p =
     (if seek then Ret (p, [], Inl ESPIPE)
      else if count = 0 then Ret (p, [], Inr 0)
      else case mutex_lock_interruptible sig (sa_sem p) of
        Interrupted \<Rightarrow> Ret (p, [], Inl ERESTARTSYS)
      | Sleeps \<Rightarrow> Hang
      | Acquired \<Rightarrow>
          if count mod 64 \<noteq> 0 then Ret (p, [], Inl EINVAL)
          else if empty_saFIFO (sa_fifo p) \<and> o_nonblock f then Ret (p, [], Inl EAGAIN)
          else call_bind (sa_wait sig ws (sa_fifo p)) (\<lambda>(q, e).
            case e of
              Some err \<Rightarrow> Ret (p\<lparr>sa_fifo := q\<rparr>, [], Inl err)
            | None \<Rightarrow>
                let sa_count = min (count div 64) (len_saFIFO q);
                    (q, out, r) = sa_copy fails 0 (unat sa_count) q [] 0
                in Ret (p\<lparr>sa_fifo := q\<rparr>, out, r)))"

section \<open>Interrupt handler and tasklet\<close>

definition SA_FIFO_DEPTH :: nat where "SA_FIFO_DEPTH = 32"

definition libera_sa_incr_atom :: "nat \<Rightarrow> nat" where
  "libera_sa_incr_atom p = (if p = SA_FIFO_DEPTH - 1 then 0 else p + 1)"

text \<open>
  One pass of the handler's loop: the eight words of the SA FIFO and the eight words of the
  corrector, and the status read after it (overrun bit, size).
\<close>

record sa_pass =
  sap_atom :: libera_atom_sa_t
  sap_inovr :: bool
  sap_size :: nat

fun sa_handler_loop :: "sa_pass list \<Rightarrow> libera_sa_device \<Rightarrow> libera_sa_device call" where
  "sa_handler_loop [] dev = Hang"
| "sa_handler_loop (s # ss) dev =
     (let dev = dev\<lparr>sa_buf := (sa_buf dev)(buf_head dev := sap_atom s),
                    buf_head := libera_sa_incr_atom (buf_head dev)\<rparr>;
          dev = (if sap_inovr s then dev\<lparr>inputovr := True\<rparr> else dev)
      in if sap_size s \<noteq> 0 then sa_handler_loop ss dev else Ret dev)"

definition libera_sa_handler_specific :: "bool \<Rightarrow> sa_pass list \<Rightarrow> kernel \<Rightarrow> kernel call" where
  "libera_sa_handler_specific inovr ss k =
     (let dev = (if inovr then (sa k)\<lparr>inputovr := True\<rparr> else sa k)
      in call_bind (sa_handler_loop ss dev) (\<lambda>dev. Ret (k\<lparr>sa := dev\<rparr>)))"

text \<open>
  The tasklet: dispatching one atom to the pipes of the given indices. A pointer to a freed
  pipe is a fault.
\<close>

fun tasklet_pipes :: "libera_atom_sa_t \<Rightarrow> nat list \<Rightarrow> kernel \<Rightarrow> kernel call" where
  "tasklet_pipes atom [] k = Ret k"
| "tasklet_pipes atom (n # ns) k =
     (case sa_pipe (pipe (sa k)) n of
        None \<Rightarrow> tasklet_pipes atom ns k
      | Some a \<Rightarrow>
          (case sa_heap (sa k) a of
             None \<Rightarrow> Fault
           | Some p \<Rightarrow>
               let (q, r) = libera_pipe_write (sa_fifo p) [atom] 64;
                   k = k\<lparr>sa := (sa k)\<lparr>sa_heap := (sa_heap (sa k))(a \<mapsto> p\<lparr>sa_fifo := q\<rparr>)\<rparr>\<rparr>;
                   k = (if r = Inl EFAULT
                        then fst (libera_send_event LIBERA_EVENT_OVERFLOW LIBERA_OVERFLOW_SA_DRV k)
                        else k)
               in tasklet_pipes atom ns k))"

definition tasklet_atom :: "kernel \<Rightarrow> kernel call" where
  "tasklet_atom k =
     call_bind (tasklet_pipes (sa_buf (sa k) (buf_tail (sa k))) [0..<LIBERA_SA_MAX_READERS] k) (\<lambda>k.
       let k = k\<lparr>sa := (sa k)\<lparr>buf_tail := libera_sa_incr_atom (buf_tail (sa k))\<rparr>\<rparr>
       in Ret (fst (libera_send_event LIBERA_EVENT_SA 1 k)))"

text \<open>
  The loop runs until the tail meets the head; with both inside the ring it needs at most
  \<open>SA_FIFO_DEPTH\<close> passes, which is the fuel.
\<close>

fun tasklet_loop :: "nat \<Rightarrow> kernel \<Rightarrow> kernel call" where
  "tasklet_loop 0 k = Hang"
| "tasklet_loop (Suc n) k =
     call_bind (tasklet_atom k) (\<lambda>k.
       if buf_tail (sa k) \<noteq> buf_head (sa k) then tasklet_loop n k else Ret k)"

definition libera_sa_do_tasklet_specific :: "kernel \<Rightarrow> kernel call" where
  "libera_sa_do_tasklet_specific k =
     (let k = (if inputovr (sa k)
               then fst (libera_send_event LIBERA_EVENT_OVERFLOW LIBERA_OVERFLOW_SA_FPGA
                      (k\<lparr>sa := (sa k)\<lparr>inputovr := False\<rparr>\<rparr>))
               else k)
      in tasklet_loop SA_FIFO_DEPTH k)"

end
