(* ===== verification/Libera_Sa_Props.thy ===== *)
theory Libera_Sa_Props
  imports Libera_Sa
begin

text \<open>
  Correctness of the SA device: every reader has a pipe of its own, the tasklet ends and
  delivers the atoms between tail and head to every pipe in order, a full pipe loses atoms
  without a report.
\<close>

section \<open>Writing one atom\<close>

lemma len_saFIFO_unat: "unat (len_saFIFO q) = length (sa_fifo_list q)"
  by (simp add: len_saFIFO_def sa_fifo_list_def)

lemma free_saFIFO_unat:
  assumes "sa_fifo_ok q"
  shows "unat (free_saFIFO q) = 64 - length (sa_fifo_list q)"
proof -
  have "length (sa_fifo_list q) \<le> 63" by (rule sa_fifo.bound [OF assms])
  then show ?thesis
    by (simp add: free_saFIFO_def SA_LOG_def unat_sub word_le_nat_alt len_saFIFO_unat)
qed

lemma pipe_write_one:
  assumes ok: "sa_fifo_ok q"
  shows "sa_fifo_ok (fst (libera_pipe_write q [a] 64))"
    "sa_fifo_list (fst (libera_pipe_write q [a] 64)) =
       sa_fifo_list q @ take (63 - length (sa_fifo_list q)) [a]"
    "snd (libera_pipe_write q [a] 64) = Inr (if length (sa_fifo_list q) < 63 then 64 else 0)"
proof -
  have le: "length (sa_fifo_list q) \<le> 63" by (rule sa_fifo.bound [OF ok])
  have nf: "\<not> free_saFIFO q < 1"
    using le by (simp add: word_less_nat_alt free_saFIFO_unat [OF ok])
  have w: "libera_pipe_write q [a] 64 = (let (q, n) = pipe_put q [a] 0 in (q, Inr n))"
    using nf by (simp add: libera_pipe_write_def)
  consider q' where "putTo_saFIFO q a = (q', 0)" "sa_fifo_ok q'" "sa_fifo_list q' = sa_fifo_list q @ [a]"
      "length (sa_fifo_list q) < 63"
    | "putTo_saFIFO q a = (q, - 1)" "length (sa_fifo_list q) = 63"
    by (rule sa_fifo.put_cases [OF ok])
  then have "sa_fifo_ok (fst (libera_pipe_write q [a] 64)) \<and>
    sa_fifo_list (fst (libera_pipe_write q [a] 64)) =
       sa_fifo_list q @ take (63 - length (sa_fifo_list q)) [a] \<and>
    snd (libera_pipe_write q [a] 64) = Inr (if length (sa_fifo_list q) < 63 then 64 else 0)"
    by cases (simp_all add: w ok)
  then show "sa_fifo_ok (fst (libera_pipe_write q [a] 64))"
    "sa_fifo_list (fst (libera_pipe_write q [a] 64)) =
       sa_fifo_list q @ take (63 - length (sa_fifo_list q)) [a]"
    "snd (libera_pipe_write q [a] 64) = Inr (if length (sa_fifo_list q) < 63 then 64 else 0)"
    by simp_all
qed

text \<open>Several atoms: those that fit, although the space was checked before.\<close>

lemma pipe_put_fill: "pipe_put q as n = (let (q', m) = fifo_fill putTo_saFIFO as q in (q', n + 64 * of_nat m))"
proof (induction "as" arbitrary: q n)
  case (Cons a as)
  obtain q1 r where p: "putTo_saFIFO q a = (q1, r)" by fastforce
  obtain q2 m where f: "fifo_fill putTo_saFIFO as q1 = (q2, m)" by fastforce
  show ?case using Cons.IH [of q1 "n + 64"] by (simp add: p f algebra_simps)
qed simp

section \<open>The table of pipes\<close>

text \<open>
  The registered pipes are live, distinct and well formed; while a slot is free, \<open>next_pipe\<close>
  names one.
\<close>

definition pipe_slots :: "libera_registered_pipes \<Rightarrow> nat set" where
  "pipe_slots rp = {i. i < 16 \<and> sa_pipe rp i \<noteq> None}"

definition sa_inv :: "libera_sa_device \<Rightarrow> bool" where
  "sa_inv dev \<longleftrightarrow>
     registered (pipe dev) = of_nat (card (pipe_slots (pipe dev)))
     \<and> (card (pipe_slots (pipe dev)) < 16 \<longrightarrow>
          next_pipe (pipe dev) < 16 \<and> sa_pipe (pipe dev) (next_pipe (pipe dev)) = None)
     \<and> (\<forall>i\<ge>16. sa_pipe (pipe dev) i = None)
     \<and> (\<forall>i j a. sa_pipe (pipe dev) i = Some a \<longrightarrow> sa_pipe (pipe dev) j = Some a \<longrightarrow> i = j)
     \<and> (\<forall>i a. sa_pipe (pipe dev) i = Some a \<longrightarrow>
          (\<exists>p. sa_heap dev a = Some p \<and> sa_fifo_ok (sa_fifo p)))
     \<and> buf_head dev < 32 \<and> buf_tail dev < 32"

lemma first_pipe_Some:
  assumes "first_pipe P rp = Some i"
  shows "i < 16" "P (sa_pipe rp i)"
  using assms by (auto simp: first_pipe_def LIBERA_SA_MAX_READERS_def find_Some_iff)

lemma first_pipe_None:
  assumes "first_pipe P rp = None" "i < 16"
  shows "\<not> P (sa_pipe rp i)"
  using assms by (auto simp: first_pipe_def LIBERA_SA_MAX_READERS_def find_None_iff)

lemma finite_slots [simp]: "finite (pipe_slots rp)"
  by (simp add: pipe_slots_def)

lemma slots_all: "\<forall>i<16. sa_pipe rp i \<noteq> None \<Longrightarrow> card (pipe_slots rp) = 16"
proof -
  assume "\<forall>i<16. sa_pipe rp i \<noteq> None"
  then have "pipe_slots rp = {..<16}" by (auto simp: pipe_slots_def)
  then show ?thesis by simp
qed

lemma card_slots: "card (pipe_slots rp) \<le> 16"
proof -
  have "card (pipe_slots rp) \<le> card {..<16 :: nat}"
    by (rule card_mono) (auto simp: pipe_slots_def)
  then show ?thesis by simp
qed

lemma registered_less:
  "sa_inv dev \<Longrightarrow> registered (pipe dev) <s of_nat LIBERA_SA_MAX_READERS \<longleftrightarrow> card (pipe_slots (pipe dev)) < 16"
proof -
  assume "sa_inv dev"
  then have r: "registered (pipe dev) = of_nat (card (pipe_slots (pipe dev)))" by (simp add: sa_inv_def)
  have le: "card (pipe_slots (pipe dev)) \<le> 16" by (rule card_slots)
  have u: "unat (of_nat n :: s32) = n" if "n \<le> 16" for n
    using that by (simp add: unat_of_nat)
  have s: "sint (of_nat n :: s32) = int n" if "n \<le> 16" for n
    using that sint_small [of "of_nat n :: s32"] u [OF that] by simp
  show ?thesis
    using le s [of 16] s [OF le] by (simp add: word_sless_alt r LIBERA_SA_MAX_READERS_def)
qed

lemma register_slots:
  fixes a :: nat
  assumes "next_pipe rp < 16" "sa_pipe rp (next_pipe rp) = None"
  defines "rp' \<equiv> fst (libera_register_pipe rp a)"
  shows "sa_pipe rp' = (sa_pipe rp)(next_pipe rp := Some a)"
    "registered rp' = registered rp + 1"
    "card (pipe_slots rp') = card (pipe_slots rp) + 1"
    "card (pipe_slots rp') < 16 \<Longrightarrow> next_pipe rp' < 16 \<and> sa_pipe rp' (next_pipe rp') = None"
proof -
  let ?rp = "rp\<lparr>sa_pipe := (sa_pipe rp)(next_pipe rp := Some a), registered := registered rp + 1\<rparr>"
  have f: "rp' = (case first_pipe (\<lambda>x. x = None) ?rp of Some i \<Rightarrow> ?rp\<lparr>next_pipe := i\<rparr> | None \<Rightarrow> ?rp)"
    by (simp add: rp'_def libera_register_pipe_def Let_def split: option.splits)
  then show s: "sa_pipe rp' = (sa_pipe rp)(next_pipe rp := Some a)"
    and "registered rp' = registered rp + 1"
    by (simp_all split: option.splits)
  have "pipe_slots rp' = insert (next_pipe rp) (pipe_slots rp)" "next_pipe rp \<notin> pipe_slots rp"
    using assms(1,2) by (auto simp: pipe_slots_def s)
  then show "card (pipe_slots rp') = card (pipe_slots rp) + 1" by simp
  show "card (pipe_slots rp') < 16 \<Longrightarrow> next_pipe rp' < 16 \<and> sa_pipe rp' (next_pipe rp') = None"
  proof (cases "first_pipe (\<lambda>x. x = None) ?rp")
    case None
    then have "\<forall>i<16. sa_pipe rp' i \<noteq> None"
      using first_pipe_None [OF None] by (auto simp: s)
    then show "card (pipe_slots rp') < 16 \<Longrightarrow> next_pipe rp' < 16 \<and> sa_pipe rp' (next_pipe rp') = None"
      using slots_all by fastforce
  next
    case (Some i)
    then show ?thesis using first_pipe_Some [OF Some] f by simp
  qed
qed

lemma sa_open_inv:
  assumes inv: "sa_inv (sa k)" and fresh: "\<And>a. addr = Some a \<Longrightarrow> sa_heap (sa k) a = None"
    and op: "libera_sa_open f addr k = Ret (k', ver, r)"
  shows "sa_inv (sa k')"
proof (cases "r = Inr 0")
  case False
  then show ?thesis
    using op inv by (auto simp: libera_sa_open_def Let_def split: if_splits option.splits)
next
  case True
  then obtain a where a: "addr = Some a" and room: "card (pipe_slots (pipe (sa k))) < 16"
    and h: "sa_heap (sa k') = (sa_heap (sa k))(a \<mapsto> \<lparr>sa_sem = False, sa_fifo = empty_ring (replicate 16 0)\<rparr>)"
    and p: "pipe (sa k') = fst (libera_register_pipe (pipe (sa k)) a)"
    and b: "buf_head (sa k') = buf_head (sa k)" "buf_tail (sa k') = buf_tail (sa k)"
    using op by (auto simp: libera_sa_open_def Let_def registered_less [OF inv] split: if_splits option.splits)
  have nx: "next_pipe (pipe (sa k)) < 16" "sa_pipe (pipe (sa k)) (next_pipe (pipe (sa k))) = None"
    using inv room by (auto simp: sa_inv_def)
  note reg = register_slots [OF nx, of a, folded p]
  have dead: "sa_pipe (pipe (sa k)) i \<noteq> Some a" for i
    using inv fresh [OF a] unfolding sa_inv_def by fastforce
  have ok: "sa_fifo_ok (empty_ring z)" for z
    by (simp add: sa_fifo_ok_def SA_LOG_BITS_def empty_ring_inv)
  show ?thesis
    unfolding sa_inv_def
  proof (intro conjI)
    show "registered (pipe (sa k')) = of_nat (card (pipe_slots (pipe (sa k'))))"
      using inv reg by (simp add: sa_inv_def)
    show "card (pipe_slots (pipe (sa k'))) < 16 \<longrightarrow>
       next_pipe (pipe (sa k')) < 16 \<and> sa_pipe (pipe (sa k')) (next_pipe (pipe (sa k'))) = None"
      using reg(4) by blast
    show "\<forall>i\<ge>16. sa_pipe (pipe (sa k')) i = None"
      using inv nx by (simp add: sa_inv_def reg(1))
    show "\<forall>i j b. sa_pipe (pipe (sa k')) i = Some b \<longrightarrow> sa_pipe (pipe (sa k')) j = Some b \<longrightarrow> i = j"
      using inv dead by (auto simp: sa_inv_def reg(1))
    show "\<forall>i b. sa_pipe (pipe (sa k')) i = Some b \<longrightarrow>
        (\<exists>p. sa_heap (sa k') b = Some p \<and> sa_fifo_ok (sa_fifo p))"
      using inv dead ok by (auto simp: sa_inv_def reg(1) h)
  qed (use inv b in \<open>simp_all add: sa_inv_def\<close>)
qed

lemma sa_release_inv:
  assumes inv: "sa_inv (sa k)" and reg: "sa_pipe (pipe (sa k)) i = Some a"
    and rel: "libera_sa_release f (Some a) k = Ret k'"
  shows "sa_inv (sa k')" "sa_pipe (pipe (sa k')) = (sa_pipe (pipe (sa k)))(i := None)"
    "live_allocs k' = live_allocs k - 1"
proof -
  have i16: "i < 16" using inv reg by (metis linorder_not_le option.distinct(1) sa_inv_def)
  have uniq: "j = i" if "sa_pipe (pipe (sa k)) j = Some a" for j
    using inv reg that unfolding sa_inv_def by blast
  have ff: "first_pipe (\<lambda>x. x = Some a) (pipe (sa k)) = Some i"
  proof (cases "first_pipe (\<lambda>x. x = Some a) (pipe (sa k))")
    case None
    then show ?thesis using first_pipe_None [OF None i16] reg by simp
  next
    case (Some j)
    then show ?thesis using first_pipe_Some [OF Some] uniq by simp
  qed
  let ?rp = "(pipe (sa k))\<lparr>registered := registered (pipe (sa k)) - 1,
      sa_pipe := (sa_pipe (pipe (sa k)))(i := None), next_pipe := i\<rparr>"
  have k': "pipe (sa k') = ?rp" "sa_heap (sa k') = (sa_heap (sa k))(a := None)"
    "buf_head (sa k') = buf_head (sa k)" "buf_tail (sa k') = buf_tail (sa k)"
    and la: "live_allocs k' = live_allocs k - 1"
    using rel by (auto simp: libera_sa_release_def libera_unregister_pipe_def ff Let_def split: if_splits)
  show "sa_pipe (pipe (sa k')) = (sa_pipe (pipe (sa k)))(i := None)" "live_allocs k' = live_allocs k - 1"
    using k' la by simp_all
  have sl: "pipe_slots ?rp = pipe_slots (pipe (sa k)) - {i}" "i \<in> pipe_slots (pipe (sa k))"
    using i16 reg by (auto simp: pipe_slots_def)
  then have c: "card (pipe_slots (pipe (sa k))) = Suc (card (pipe_slots ?rp))"
    by (metis card.remove finite_slots)
  have rg: "registered (pipe (sa k)) = of_nat (card (pipe_slots (pipe (sa k))))"
    using inv by (simp add: sa_inv_def)
  show "sa_inv (sa k')"
    unfolding sa_inv_def k'
  proof (intro conjI)
    have "registered ?rp = of_nat (card (pipe_slots (pipe (sa k)))) - 1" by (simp add: rg)
    then show "registered ?rp = of_nat (card (pipe_slots ?rp))" by (simp only: c of_nat_Suc) simp
    show "\<forall>j b. sa_pipe ?rp j = Some b \<longrightarrow>
        (\<exists>p. ((sa_heap (sa k))(a := None)) b = Some p \<and> sa_fifo_ok (sa_fifo p))"
      using inv uniq by (auto simp: sa_inv_def)
  qed (use inv i16 in \<open>auto simp: sa_inv_def split: if_splits\<close>)
qed

section \<open>The tasklet\<close>

lemma sa_invD:
  assumes "sa_inv dev"
  shows "sa_pipe (pipe dev) i = Some a \<Longrightarrow> i < 16"
    "sa_pipe (pipe dev) i = Some a \<Longrightarrow> sa_pipe (pipe dev) j = Some a \<Longrightarrow> i = j"
    "sa_pipe (pipe dev) i = Some a \<Longrightarrow> \<exists>p. sa_heap dev a = Some p \<and> sa_fifo_ok (sa_fifo p)"
    "buf_head dev < 32" "buf_tail dev < 32"
proof -
  show "sa_pipe (pipe dev) i = Some a \<Longrightarrow> i < 16"
    using assms by (metis linorder_not_le option.distinct(1) sa_inv_def)
qed (use assms in \<open>unfold sa_inv_def, blast+\<close>)

definition pipe_upd :: "libera_atom_sa_t \<Rightarrow> sa_local \<Rightarrow> sa_local" where
  "pipe_upd atom p = p\<lparr>sa_fifo := fst (libera_pipe_write (sa_fifo p) [atom] 64)\<rparr>"

definition pipe_live :: "libera_sa_device \<Rightarrow> nat \<Rightarrow> bool" where
  "pipe_live dev a \<longleftrightarrow> (\<exists>i. sa_pipe (pipe dev) i = Some a)"

lemma tasklet_pipes_spec:
  assumes "distinct ns"
    "\<forall>i j a. sa_pipe (pipe (sa k)) i = Some a \<longrightarrow> sa_pipe (pipe (sa k)) j = Some a \<longrightarrow> i = j"
    "\<forall>i a. sa_pipe (pipe (sa k)) i = Some a \<longrightarrow> sa_heap (sa k) a \<noteq> None"
  shows "\<exists>k'. tasklet_pipes atom ns k = Ret k' \<and>
    sa k' = (sa k)\<lparr>sa_heap := (\<lambda>a. if \<exists>i\<in>set ns. sa_pipe (pipe (sa k)) i = Some a
                               then map_option (pipe_upd atom) (sa_heap (sa k) a)
                               else sa_heap (sa k) a)\<rparr>"
  using assms
proof (induction ns arbitrary: k)
  case Nil
  then show ?case by simp
next
  case (Cons n ns)
  show ?case
  proof (cases "sa_pipe (pipe (sa k)) n")
    case None
    then show ?thesis using Cons.IH [of k] Cons.prems by simp
  next
    case (Some a)
    obtain p where p: "sa_heap (sa k) a = Some p" using Cons.prems(3) Some by blast
    obtain q r where w: "libera_pipe_write (sa_fifo p) [atom] 64 = (q, r)" by fastforce
    define k1 where "k1 = k\<lparr>sa := (sa k)\<lparr>sa_heap := (sa_heap (sa k))(a \<mapsto> p\<lparr>sa_fifo := q\<rparr>)\<rparr>\<rparr>"
    define k2 where "k2 = (if r = Inl EFAULT
        then fst (libera_send_event LIBERA_EVENT_OVERFLOW LIBERA_OVERFLOW_SA_DRV k1) else k1)"
    have sa2: "sa k2 = (sa k)\<lparr>sa_heap := (sa_heap (sa k))(a \<mapsto> pipe_upd atom p)\<rparr>"
      by (simp add: k2_def k1_def pipe_upd_def w)
    have d2: "\<forall>i j a. sa_pipe (pipe (sa k2)) i = Some a \<longrightarrow> sa_pipe (pipe (sa k2)) j = Some a \<longrightarrow> i = j"
      using Cons.prems(2) by (simp add: sa2)
    have h2: "\<forall>i b. sa_pipe (pipe (sa k2)) i = Some b \<longrightarrow> sa_heap (sa k2) b \<noteq> None"
      using Cons.prems(3) by (simp add: sa2)
    obtain k' where k': "tasklet_pipes atom ns k2 = Ret k'"
      "sa k' = (sa k2)\<lparr>sa_heap := (\<lambda>b. if \<exists>i\<in>set ns. sa_pipe (pipe (sa k2)) i = Some b
                               then map_option (pipe_upd atom) (sa_heap (sa k2) b)
                               else sa_heap (sa k2) b)\<rparr>"
      using Cons.IH [OF _ d2 h2] Cons.prems(1) by auto
    have "tasklet_pipes atom (n # ns) k = tasklet_pipes atom ns k2"
      by (simp add: Some p w Let_def k1_def k2_def)
    then have "tasklet_pipes atom (n # ns) k = Ret k'" using k'(1) by simp
    moreover have "\<not> (\<exists>i\<in>set ns. sa_pipe (pipe (sa k)) i = Some a)"
      using Cons.prems(1,2) Some by (metis distinct.simps(2))
    moreover have "sa k' = (sa k)\<lparr>sa_heap := (\<lambda>b. if \<exists>i\<in>set (n # ns). sa_pipe (pipe (sa k)) i = Some b
                               then map_option (pipe_upd atom) (sa_heap (sa k) b)
                               else sa_heap (sa k) b)\<rparr>"
      using calculation(2) Some p Cons.prems(2) by (auto simp: k'(2) sa2 fun_eq_iff)
    ultimately show ?thesis by blast
  qed
qed

lemma tasklet_atom_spec:
  assumes inv: "sa_inv (sa k)"
  shows "\<exists>k'. tasklet_atom k = Ret k' \<and>
    sa k' = (sa k)\<lparr>sa_heap := (\<lambda>a. if pipe_live (sa k) a
                  then map_option (pipe_upd (sa_buf (sa k) (buf_tail (sa k)))) (sa_heap (sa k) a)
                  else sa_heap (sa k) a),
                buf_tail := libera_sa_incr_atom (buf_tail (sa k))\<rparr>"
proof -
  have live: "(\<exists>i\<in>set [0..<LIBERA_SA_MAX_READERS]. sa_pipe (pipe (sa k)) i = Some a) = pipe_live (sa k) a" for a
    using sa_invD(1) [OF inv] by (auto simp: pipe_live_def LIBERA_SA_MAX_READERS_def)
  have h: "\<forall>i j a. sa_pipe (pipe (sa k)) i = Some a \<longrightarrow> sa_pipe (pipe (sa k)) j = Some a \<longrightarrow> i = j"
    "\<forall>i a. sa_pipe (pipe (sa k)) i = Some a \<longrightarrow> sa_heap (sa k) a \<noteq> None"
  proof (intro allI impI)
    fix i j a
    assume "sa_pipe (pipe (sa k)) i = Some a" "sa_pipe (pipe (sa k)) j = Some a"
    then show "i = j" by (rule sa_invD(2) [OF inv])
  next
    show "\<forall>i a. sa_pipe (pipe (sa k)) i = Some a \<longrightarrow> sa_heap (sa k) a \<noteq> None"
      using sa_invD(3) [OF inv] by (metis option.distinct(1))
  qed
  obtain k1 where k1: "tasklet_pipes (sa_buf (sa k) (buf_tail (sa k))) [0..<LIBERA_SA_MAX_READERS] k = Ret k1"
    "sa k1 = (sa k)\<lparr>sa_heap := (\<lambda>a. if pipe_live (sa k) a
                  then map_option (pipe_upd (sa_buf (sa k) (buf_tail (sa k)))) (sa_heap (sa k) a)
                  else sa_heap (sa k) a)\<rparr>"
    using tasklet_pipes_spec [of "[0..<LIBERA_SA_MAX_READERS]" k, OF distinct_upt h] unfolding live by blast
  show ?thesis
    by (simp add: tasklet_atom_def k1)
qed

lemma sa_incr_mod: "p < 32 \<Longrightarrow> libera_sa_incr_atom p = (p + 1) mod 32"
  by (auto simp: libera_sa_incr_atom_def SA_FIFO_DEPTH_def mod_Suc)

lemma pipe_upd_list:
  "sa_fifo_ok (sa_fifo p) \<Longrightarrow> sa_fifo_ok (sa_fifo (pipe_upd a p)) \<and>
     sa_fifo_list (sa_fifo (pipe_upd a p)) =
       sa_fifo_list (sa_fifo p) @ take (63 - length (sa_fifo_list (sa_fifo p))) [a]"
  by (simp add: pipe_upd_def pipe_write_one)

lemma tasklet_atom_inv:
  assumes inv: "sa_inv (sa k)" and k': "tasklet_atom k = Ret k'"
  shows "sa_inv (sa k')"
proof -
  have s: "sa k' = (sa k)\<lparr>sa_heap := (\<lambda>a. if pipe_live (sa k) a
                  then map_option (pipe_upd (sa_buf (sa k) (buf_tail (sa k)))) (sa_heap (sa k) a)
                  else sa_heap (sa k) a),
                buf_tail := libera_sa_incr_atom (buf_tail (sa k))\<rparr>"
    using tasklet_atom_spec [OF inv] k' by auto
  have "\<forall>i a. sa_pipe (pipe (sa k)) i = Some a \<longrightarrow>
      (\<exists>p. sa_heap (sa k') a = Some p \<and> sa_fifo_ok (sa_fifo p))"
  proof (intro allI impI)
    fix i a
    assume i: "sa_pipe (pipe (sa k)) i = Some a"
    then obtain p where "sa_heap (sa k) a = Some p" "sa_fifo_ok (sa_fifo p)"
      using sa_invD(3) [OF inv] by blast
    moreover have "pipe_live (sa k) a" using i by (auto simp: pipe_live_def)
    ultimately show "\<exists>p. sa_heap (sa k') a = Some p \<and> sa_fifo_ok (sa_fifo p)"
      using pipe_upd_list by (simp add: s)
  qed
  then show ?thesis using inv by (simp add: s sa_inv_def sa_incr_mod)
qed

text \<open>The atoms between tail and head; a tail equal to the head stands for a full ring.\<close>

definition sa_pending :: "libera_sa_device \<Rightarrow> nat" where
  "sa_pending dev = (if buf_tail dev < buf_head dev then buf_head dev - buf_tail dev
                     else 32 + buf_head dev - buf_tail dev)"

definition sa_atoms :: "libera_sa_device \<Rightarrow> libera_atom_sa_t list" where
  "sa_atoms dev = map (\<lambda>i. sa_buf dev ((buf_tail dev + i) mod 32)) [0..<sa_pending dev]"

lemma append_take_append:
  "(l @ take (n - length l) [a]) @ take (n - length (l @ take (n - length l) [a])) as =
   l @ take (n - length l) (a # as)"
proof (cases "n - length l")
  case (Suc m)
  then have "n - Suc (length l) = m" by arith
  then show ?thesis using Suc by simp
qed simp

lemma sa_atoms_Cons:
  assumes "buf_head dev < 32" "buf_tail dev < 32" "(buf_tail dev + 1) mod 32 \<noteq> buf_head dev"
  shows "sa_atoms dev = sa_buf dev (buf_tail dev) # sa_atoms (dev\<lparr>buf_tail := (buf_tail dev + 1) mod 32\<rparr>)"
    "sa_pending dev = Suc (sa_pending (dev\<lparr>buf_tail := (buf_tail dev + 1) mod 32\<rparr>))"
proof -
  let ?t = "buf_tail dev"
  show p: "sa_pending dev = Suc (sa_pending (dev\<lparr>buf_tail := (?t + 1) mod 32\<rparr>))"
    using assms by (cases "?t = 31") (auto simp: sa_pending_def mod_Suc)
  have m: "(Suc ?t mod 32 + i) mod 32 = Suc (?t + i) mod 32" for i
    using mod_add_left_eq [of "Suc ?t" 32 i] by simp
  show "sa_atoms dev = sa_buf dev ?t # sa_atoms (dev\<lparr>buf_tail := (?t + 1) mod 32\<rparr>)"
    using assms(2) unfolding sa_atoms_def p
    by (simp add: upt_conv_Cons map_Suc_upt [symmetric] comp_def m del: upt_Suc)
qed

lemma sa_atoms_last:
  assumes "buf_head dev < 32" "buf_tail dev < 32" "(buf_tail dev + 1) mod 32 = buf_head dev"
  shows "sa_atoms dev = [sa_buf dev (buf_tail dev)]" "sa_pending dev = 1"
proof -
  show p: "sa_pending dev = 1"
    using assms by (cases "buf_tail dev = 31") (auto simp: sa_pending_def mod_Suc)
  show "sa_atoms dev = [sa_buf dev (buf_tail dev)]"
    using assms(2) unfolding sa_atoms_def p by simp
qed

text \<open>What a run of the tasklet leaves: every pipe has the pending atoms that fit.\<close>

definition pipe_got :: "libera_sa_device \<Rightarrow> libera_sa_device \<Rightarrow> libera_atom_sa_t list \<Rightarrow> nat \<Rightarrow> bool" where
  "pipe_got dev dev' atoms a \<longleftrightarrow> (\<exists>p p'. sa_heap dev a = Some p \<and> sa_heap dev' a = Some p' \<and>
     sa_fifo_list (sa_fifo p') =
       sa_fifo_list (sa_fifo p) @ take (63 - length (sa_fifo_list (sa_fifo p))) atoms)"

definition sa_delivered :: "libera_sa_device \<Rightarrow> libera_sa_device \<Rightarrow> bool" where
  "sa_delivered dev dev' \<longleftrightarrow> sa_inv dev' \<and> buf_tail dev' = buf_head dev' \<and> pipe dev' = pipe dev
     \<and> buf_head dev' = buf_head dev \<and> (\<forall>a. pipe_live dev a \<longrightarrow> pipe_got dev dev' (sa_atoms dev) a)"

lemma tasklet_loop_spec:
  assumes "sa_inv (sa k)" "sa_pending (sa k) \<le> n"
  shows "\<exists>k'. tasklet_loop n k = Ret k' \<and> sa_delivered (sa k) (sa k')"
  using assms
proof (induction n arbitrary: k)
  case 0
  then show ?case by (auto simp: sa_pending_def sa_inv_def split: if_splits)
next
  case (Suc n)
  let ?d = "sa k"
  let ?a = "sa_buf ?d (buf_tail ?d)"
  have b: "buf_head ?d < 32" "buf_tail ?d < 32" using Suc.prems by (simp_all add: sa_inv_def)
  obtain k1 where k1: "tasklet_atom k = Ret k1"
    and s1: "sa k1 = ?d\<lparr>sa_heap := (\<lambda>a. if pipe_live ?d a
                  then map_option (pipe_upd ?a) (sa_heap ?d a) else sa_heap ?d a),
                buf_tail := (buf_tail ?d + 1) mod 32\<rparr>"
    using tasklet_atom_spec [OF Suc.prems(1)] by (auto simp: sa_incr_mod [OF b(2)])
  have inv1: "sa_inv (sa k1)" by (rule tasklet_atom_inv [OF Suc.prems(1) k1])
  have got1: "\<exists>p. sa_heap ?d a = Some p \<and> sa_fifo_ok (sa_fifo p) \<and> sa_heap (sa k1) a = Some (pipe_upd ?a p)"
    if l: "pipe_live ?d a" for a
  proof -
    obtain i where "sa_pipe (pipe ?d) i = Some a" using l by (auto simp: pipe_live_def)
    then obtain p where "sa_heap ?d a = Some p" "sa_fifo_ok (sa_fifo p)"
      using sa_invD(3) [OF Suc.prems(1)] by blast
    then show ?thesis using l by (simp add: s1)
  qed
  have live1: "pipe_live (sa k1) a \<longleftrightarrow> pipe_live ?d a" for a by (simp add: s1 pipe_live_def)
  show ?case
  proof (cases "(buf_tail ?d + 1) mod 32 = buf_head ?d")
    case True
    have "tasklet_loop (Suc n) k = Ret k1" using k1 True by (simp add: s1)
    moreover have "pipe_got ?d (sa k1) (sa_atoms ?d) a" if "pipe_live ?d a" for a
      using got1 [OF that] pipe_upd_list unfolding pipe_got_def sa_atoms_last(1) [OF b True] by blast
    ultimately show ?thesis
      using inv1 True by (auto simp: s1 sa_delivered_def)
  next
    case False
    note c = sa_atoms_Cons [OF b False]
    have at: "sa_atoms (sa k1) = sa_atoms (?d\<lparr>buf_tail := (buf_tail ?d + 1) mod 32\<rparr>)"
      "sa_pending (sa k1) = sa_pending (?d\<lparr>buf_tail := (buf_tail ?d + 1) mod 32\<rparr>)"
      by (simp_all add: s1 sa_atoms_def sa_pending_def)
    have "sa_pending (sa k1) \<le> n" using Suc.prems(2) c(2) at(2) by simp
    then obtain k' where k': "tasklet_loop n k1 = Ret k'" and del: "sa_delivered (sa k1) (sa k')"
      using Suc.IH [OF inv1] by blast
    have run: "tasklet_loop (Suc n) k = Ret k'" using k1 k'(1) False by (simp add: s1)
    have "pipe_got ?d (sa k') (sa_atoms ?d) a" if l: "pipe_live ?d a" for a
    proof -
      obtain p where p: "sa_heap ?d a = Some p" "sa_fifo_ok (sa_fifo p)"
        "sa_heap (sa k1) a = Some (pipe_upd ?a p)" using got1 [OF l] by blast
      let ?L = "sa_fifo_list (sa_fifo p)"
      have "pipe_got (sa k1) (sa k') (sa_atoms (sa k1)) a"
        using del l live1 by (simp add: sa_delivered_def)
      then obtain p' where p': "sa_heap (sa k') a = Some p'"
        "sa_fifo_list (sa_fifo p') = (?L @ take (63 - length ?L) [?a]) @
          take (63 - length (?L @ take (63 - length ?L) [?a])) (sa_atoms (sa k1))"
        using p(3) pipe_upd_list [OF p(2), of ?a] unfolding pipe_got_def by auto
      have "sa_fifo_list (sa_fifo p') = ?L @ take (63 - length ?L) (sa_atoms ?d)"
        unfolding p'(2) append_take_append at(1) c(1) ..
      then show ?thesis using p(1) p'(1) by (auto simp: pipe_got_def)
    qed
    then show ?thesis using run del by (auto simp: sa_delivered_def s1)
  qed
qed

lemma sa_pending_le: "sa_inv dev \<Longrightarrow> sa_pending dev \<le> 32"
  by (auto simp: sa_pending_def sa_inv_def)

section \<open>Reading a pipe\<close>

lemma sa_copy_all:
  assumes "sa_fifo_ok q" "n \<le> length (sa_fifo_list q)"
    "sa_copy (\<lambda>_. False) i n q out ret = (q', out', r)"
  shows "sa_fifo_ok q' \<and> sa_fifo_list q' = drop n (sa_fifo_list q) \<and>
    out' = out @ take n (sa_fifo_list q) \<and> r = Inr (ret + 64 * of_nat n)"
  using assms
proof (induction n arbitrary: i q out ret)
  case 0
  then show ?case by simp
next
  case (Suc n)
  then obtain x xs where c: "sa_fifo_list q = x # xs" by (cases "sa_fifo_list q") auto
  then obtain q1 where g: "getFrom_saFIFO q = (q1, Some x)" "sa_fifo_ok q1" "sa_fifo_list q1 = xs"
    using sa_fifo.get_cons [OF Suc.prems(1)] by blast
  have "sa_copy (\<lambda>_. False) (i + 1) n q1 (out @ [x]) (ret + 64) = (q', out', r)"
    using Suc.prems(3) g(1) by simp
  then show ?case
    using Suc.IH [of q1 "i + 1" "out @ [x]" "ret + 64"] Suc.prems(2) g c by (simp add: algebra_simps)
qed

lemma not_empty_sa_iff: "sa_fifo_ok q \<Longrightarrow> not_empty_saFIFO q \<longleftrightarrow> sa_fifo_list q \<noteq> []"
  by (simp add: not_empty_saFIFO_def ring_not_empty_def sa_fifo_ok_def sa_fifo_list_def
      ring_empty_iff SA_LOG_BITS_def)

lemma empty_sa_iff: "empty_saFIFO q \<longleftrightarrow> \<not> not_empty_saFIFO q"
  by (simp add: empty_saFIFO_def not_empty_saFIFO_def ring_empty_def ring_not_empty_def)

lemma sa0_ok: "sa_fifo_ok (empty_ring z)" "sa_fifo_list (empty_ring z) = []"
  by (simp_all add: sa_fifo_ok_def sa_fifo_list_def SA_LOG_BITS_def empty_ring_inv)

section \<open>Properties\<close>

text \<open>C36. The tasklet ends and delivers: from any well-formed state it returns, the ring of
  atoms is empty afterwards, and every registered pipe got the atoms between tail and head, in
  order, as far as its 63 places allow.\<close>

theorem sa_tasklet_delivers:
  assumes "sa_inv (sa k)"
  shows "\<exists>k'. libera_sa_do_tasklet_specific k = Ret k' \<and> sa_inv (sa k')
    \<and> buf_tail (sa k') = buf_head (sa k)
    \<and> (\<forall>i a. sa_pipe (pipe (sa k)) i = Some a \<longrightarrow>
        (\<exists>p p'. sa_heap (sa k) a = Some p \<and> sa_heap (sa k') a = Some p' \<and>
          sa_fifo_list (sa_fifo p') = sa_fifo_list (sa_fifo p)
            @ take (63 - length (sa_fifo_list (sa_fifo p))) (sa_atoms (sa k))))"
proof -
  define k1 where "k1 = (if inputovr (sa k)
    then fst (libera_send_event LIBERA_EVENT_OVERFLOW LIBERA_OVERFLOW_SA_FPGA
           (k\<lparr>sa := (sa k)\<lparr>inputovr := False\<rparr>\<rparr>)) else k)"
  have s1: "sa k1 = (sa k)\<lparr>inputovr := False\<rparr>" by (simp add: k1_def)
  have inv1: "sa_inv (sa k1)" using assms by (simp add: s1 sa_inv_def)
  obtain k' where "tasklet_loop 32 k1 = Ret k'" "sa_delivered (sa k1) (sa k')"
    using tasklet_loop_spec [OF inv1 sa_pending_le [OF inv1]] by blast
  moreover have "sa_atoms (sa k1) = sa_atoms (sa k)" by (simp add: s1 sa_atoms_def sa_pending_def)
  moreover have "libera_sa_do_tasklet_specific k = tasklet_loop 32 k1"
    by (simp add: libera_sa_do_tasklet_specific_def k1_def SA_FIFO_DEPTH_def Let_def)
  ultimately show ?thesis
    by (auto simp: sa_delivered_def pipe_got_def pipe_live_def s1 intro!: exI [of _ k'])
qed

lemma init_sa_inv: "sa_inv init_sa"
  by (simp add: sa_inv_def init_sa_def pipe_slots_def)

lemma sa_tasklet_delivers_witness:
  "\<exists>k'. libera_sa_do_tasklet_specific boot_kernel = Ret k' \<and> buf_tail (sa k') = 0"
  using sa_tasklet_delivers [of boot_kernel] init_sa_inv by (auto simp: init_sa_def)

text \<open>C37. Every reader of the SA device has a pipe of its own: a successful open puts the new
  pipe into a slot that was free, leaves the pipes of the other readers alone, and keeps the
  table well formed.\<close>

theorem sa_open_private:
  assumes "sa_inv (sa k)" "sa_heap (sa k) a = None"
    and "libera_sa_open f (Some a) k = Ret (k', ver, Inr 0)"
  shows "sa_inv (sa k') \<and> ver = Some a
    \<and> (\<exists>i<16. sa_pipe (pipe (sa k)) i = None
        \<and> sa_pipe (pipe (sa k')) = (sa_pipe (pipe (sa k)))(i := Some a))
    \<and> (\<forall>b. b \<noteq> a \<longrightarrow> sa_heap (sa k') b = sa_heap (sa k) b)"
proof -
  have inv': "sa_inv (sa k')" by (rule sa_open_inv [OF assms(1) _ assms(3)]) (simp add: assms(2))
  have room: "card (pipe_slots (pipe (sa k))) < 16"
    and v: "ver = Some a" and p: "pipe (sa k') = fst (libera_register_pipe (pipe (sa k)) a)"
    and h: "\<And>b. b \<noteq> a \<Longrightarrow> sa_heap (sa k') b = sa_heap (sa k) b"
    using assms(3) by (auto simp: libera_sa_open_def Let_def registered_less [OF assms(1)] split: if_splits)
  have nx: "next_pipe (pipe (sa k)) < 16" "sa_pipe (pipe (sa k)) (next_pipe (pipe (sa k))) = None"
    using assms(1) room by (auto simp: sa_inv_def)
  show ?thesis
    using inv' v h nx register_slots(1) [OF nx, of a] by (auto simp: p)
qed

definition sa_reader :: filp where
  "sa_reader = \<lparr>file_id = 1, fmode_read = True, fmode_write = False, o_nonblock = False\<rparr>"

lemma sa_open_private_witness:
  "\<exists>k'. libera_sa_open sa_reader (Some 5) boot_kernel = Ret (k', Some 5, Inr 0) \<and> sa_inv (sa k')"
proof -
  obtain k' where k': "libera_sa_open sa_reader (Some 5) boot_kernel = Ret (k', Some 5, Inr 0)"
    using registered_less [OF init_sa_inv]
    by (simp add: libera_sa_open_def sa_reader_def Let_def init_sa_def pipe_slots_def)
  then show ?thesis
    using sa_open_private [of boot_kernel 5 sa_reader k'] init_sa_inv by (auto simp: init_sa_def)
qed

text \<open>A full pipe loses the atom silently: \<open>free_saFIFO\<close> counts one place more than the
  pipe can hold, so writing one atom is never refused with \<open>-EFAULT\<close> and the overflow
  event of the driver is never sent; the call reports zero bytes.\<close>

theorem sa_overflow_unreported:
  assumes "sa_fifo_ok q"
  shows "snd (libera_pipe_write q [a] 64) \<noteq> Inl EFAULT
    \<and> (length (sa_fifo_list q) = 63 \<longrightarrow>
        snd (libera_pipe_write q [a] 64) = Inr 0 \<and> sa_fifo_list (fst (libera_pipe_write q [a] 64)) = sa_fifo_list q)"
  using pipe_write_one [OF assms, of a] by simp

lemma sa_overflow_unreported_witness:
  "snd (libera_pipe_write (empty_ring (replicate 16 0)) [replicate 16 1] 64) \<noteq> Inl EFAULT"
  using sa_overflow_unreported [OF sa0_ok(1)] by blast

text \<open>C0. A read of the SA device returns the oldest atoms of its pipe, as many as asked for and
  there, in order, and leaves the rest.\<close>

theorem sa_read_oldest:
  assumes "sa_fifo_ok (sa_fifo p)" "\<not> sa_sem p" "sa_fifo_list (sa_fifo p) \<noteq> []"
    and "count \<noteq> 0" "count mod 64 = 0"
    and "n = min (unat count div 64) (length (sa_fifo_list (sa_fifo p)))"
  shows "\<exists>p'. libera_sa_read f False sig ws (\<lambda>_. False) count p =
       Ret (p', take n (sa_fifo_list (sa_fifo p)), Inr (64 * of_nat n))
     \<and> sa_fifo_list (sa_fifo p') = drop n (sa_fifo_list (sa_fifo p))"
proof -
  let ?q = "sa_fifo p"
  have ne: "not_empty_saFIFO ?q" "\<not> empty_saFIFO ?q"
    using not_empty_sa_iff [OF assms(1)] assms(3) empty_sa_iff by blast+
  have w: "sa_wait sig ws ?q = Ret (?q, None)" using ne by (cases ws) simp_all
  have n: "unat (min (count div 64) (len_saFIFO ?q)) = n"
    by (simp add: assms(6) min_def word_le_nat_alt unat_div len_saFIFO_unat)
  obtain q' out' r where cp: "sa_copy (\<lambda>_. False) 0 n ?q [] 0 = (q', out', r)"
    by (metis prod_cases3)
  have "n \<le> length (sa_fifo_list ?q)" by (simp add: assms(6))
  note facts = sa_copy_all [OF assms(1) this cp]
  have "libera_sa_read f False sig ws (\<lambda>_. False) count p = Ret (p\<lparr>sa_fifo := q'\<rparr>, out', r)"
    using assms(2,4,5) ne w cp by (simp add: libera_sa_read_def n)
  then show ?thesis using facts by simp
qed

lemma sa_read_oldest_witness:
  "\<exists>q p'. putTo_saFIFO (empty_ring []) [3] = (q, 0) \<and>
    libera_sa_read sa_reader False False [] (\<lambda>_. False) 640 \<lparr>sa_sem = False, sa_fifo = q\<rparr> =
      Ret (p', [[3]], Inr 64)"
proof -
  obtain q where q: "putTo_saFIFO (empty_ring []) [3] = (q, 0)" "sa_fifo_ok q" "sa_fifo_list q = [[3]]"
    using sa_fifo.put_room [of "empty_ring []" "[3]"] by (auto simp: sa0_ok)
  show ?thesis
    using sa_read_oldest [of "\<lparr>sa_sem = False, sa_fifo = q\<rparr>" 640 1 sa_reader False "[]"] q by auto
qed

end
