(* ===== verification/Libera_Ebpp_Map.thy ===== *)
theory Libera_Ebpp_Map
  imports Libera_Kernel
begin

text \<open>
  The EBPP part of the register map (\<open>libera_kernel.h\<close>, the build without \<open>BBFP\<close> and
  \<open>HBPP\<close>) and the indices of the EBPP configuration parameters (\<open>ebpp.h\<close>). Addresses are
  offsets from \<open>iobase\<close>.
\<close>

section \<open>Data on demand\<close>

definition DD_CB_FIFO_L :: u32 where "DD_CB_FIFO_L = 0x0 + HB_OFFSET"
definition DD_CB_FIFO_H :: u32 where "DD_CB_FIFO_H = 0x4 + HB_OFFSET"
definition DD_CB_FIFO_RESET :: u32 where "DD_CB_FIFO_RESET = 0x20 + HB_OFFSET"
definition DD_OB_STATUS :: u32 where "DD_OB_STATUS = 0x8 + HB_OFFSET"
definition DD_OB_FIFOBASE :: u32 where "DD_OB_FIFOBASE = 0x1000 + HB_OFFSET"

section \<open>Interlock and post mortem\<close>

definition ILK_CONTROL :: u32 where "ILK_CONTROL = 0x0 + ILK_OFFSET"
definition ILK_XLOW :: u32 where "ILK_XLOW = 0x8 + ILK_OFFSET"
definition ILK_XHIGH :: u32 where "ILK_XHIGH = 0xc + ILK_OFFSET"
definition ILK_YLOW :: u32 where "ILK_YLOW = 0x10 + ILK_OFFSET"
definition ILK_YHIGH :: u32 where "ILK_YHIGH = 0x14 + ILK_OFFSET"
definition ILK_STATUS :: u32 where "ILK_STATUS = 0x18 + ILK_OFFSET"
definition PM_XLOW :: u32 where "PM_XLOW = 0x20 + ILK_OFFSET"
definition PM_XHIGH :: u32 where "PM_XHIGH = 0x24 + ILK_OFFSET"
definition PM_YLOW :: u32 where "PM_YLOW = 0x28 + ILK_OFFSET"
definition PM_YHIGH :: u32 where "PM_YHIGH = 0x2c + ILK_OFFSET"
definition DSC_ILK_GAIN_LIMIT :: u32 where "DSC_ILK_GAIN_LIMIT = 0x18 + DSC_OFFSET"
definition DSC_ILK_OVERFLOW_LIMIT :: u32 where "DSC_ILK_OVERFLOW_LIMIT = 0x1c + DSC_OFFSET"
definition DSC_ILK_OVERFLOW_DUR :: u32 where "DSC_ILK_OVERFLOW_DUR = 0x20 + DSC_OFFSET"
definition DSC_SW_SOURCE :: u32 where "DSC_SW_SOURCE = 0x38 + DSC_OFFSET"
definition DSC_SW_DELAY :: u32 where "DSC_SW_DELAY = 0x3c + DSC_OFFSET"
definition DSC_PM_OVERFLOW_LIMIT :: u32 where "DSC_PM_OVERFLOW_LIMIT = 0x40 + DSC_OFFSET"
definition DSC_PM_OVERFLOW_DUR :: u32 where "DSC_PM_OVERFLOW_DUR = 0x44 + DSC_OFFSET"
definition DSC_SW_EXTERNAL :: u32 where "DSC_SW_EXTERNAL = push_bit 31 1"

section \<open>Fast acquisition\<close>

definition FA_POLYPHASE_FIR :: u32 where "FA_POLYPHASE_FIR = 0x14 + FA_OFFSET"
definition FA_NOTCH1 :: u32 where "FA_NOTCH1 = 0x18 + FA_OFFSET"
definition FA_NOTCH2 :: u32 where "FA_NOTCH2 = 0x1c + FA_OFFSET"
definition FA_FIFO_RESET :: u32 where "FA_FIFO_RESET = 0x20 + FA_OFFSET"
definition FA_NSUMS :: u32 where "FA_NSUMS = 0x24 + FA_OFFSET"
definition FA_SUMSUMS_LSW :: u32 where "FA_SUMSUMS_LSW = 0x28 + FA_OFFSET"
definition FA_SUMSUMS_MSW :: u32 where "FA_SUMSUMS_MSW = 0x2c + FA_OFFSET"
definition FA_ENABLE :: u32 where "FA_ENABLE = 0x30 + FA_OFFSET"
definition FA_AVE_STOP :: u32 where "FA_AVE_STOP = 0x34 + FA_OFFSET"
definition FA_AVE_WIN :: u32 where "FA_AVE_WIN = 0x38 + FA_OFFSET"
definition FA_START :: u32 where "FA_START = 0x3c + FA_OFFSET"
definition FA_WINDOW :: u32 where "FA_WINDOW = 0x40 + FA_OFFSET"

section \<open>Slow acquisition, ADC, board\<close>

definition SA_CONTROL :: u32 where "SA_CONTROL = 0 + SA_OFFSET"
definition SA_STOP :: u32 where "SA_STOP = 0x1"
definition ADC_MAX :: u32 where "ADC_MAX = 0x4 + ADC_OFFSET"
definition SBC_IRQ2 :: u32 where "SBC_IRQ2 = 0x28 + CLK_OFFSET"
definition FPGA_FEATURE_CUSTOMER :: u32 where "FPGA_FEATURE_CUSTOMER = 0x18 + SBC_OFFSET"
definition FPGA_FEATURE_ITECH :: u32 where "FPGA_FEATURE_ITECH = 0x1c + SBC_OFFSET"

section \<open>Configuration parameters\<close>

definition LIBERA_CFG_XOFFSET :: nat where "LIBERA_CFG_XOFFSET = 128"
definition LIBERA_CFG_YOFFSET :: nat where "LIBERA_CFG_YOFFSET = 129"
definition LIBERA_CFG_QOFFSET :: nat where "LIBERA_CFG_QOFFSET = 130"
definition LIBERA_CFG_KX :: nat where "LIBERA_CFG_KX = 131"
definition LIBERA_CFG_KY :: nat where "LIBERA_CFG_KY = 132"
definition LIBERA_CFG_ILK_XLOW :: nat where "LIBERA_CFG_ILK_XLOW = 133"
definition LIBERA_CFG_ILK_XHIGH :: nat where "LIBERA_CFG_ILK_XHIGH = 134"
definition LIBERA_CFG_ILK_YLOW :: nat where "LIBERA_CFG_ILK_YLOW = 135"
definition LIBERA_CFG_ILK_YHIGH :: nat where "LIBERA_CFG_ILK_YHIGH = 136"
definition LIBERA_CFG_ILK_MODE :: nat where "LIBERA_CFG_ILK_MODE = 137"
definition LIBERA_CFG_ILK_OVERFLOW_LIMIT :: nat where "LIBERA_CFG_ILK_OVERFLOW_LIMIT = 138"
definition LIBERA_CFG_ILK_OVERFLOW_DUR :: nat where "LIBERA_CFG_ILK_OVERFLOW_DUR = 139"
definition LIBERA_CFG_ILK_GAIN_LIMIT :: nat where "LIBERA_CFG_ILK_GAIN_LIMIT = 140"
definition LIBERA_CFG_PM_MODE :: nat where "LIBERA_CFG_PM_MODE = 141"
definition LIBERA_CFG_PM_XLOW :: nat where "LIBERA_CFG_PM_XLOW = 142"
definition LIBERA_CFG_PM_XHIGH :: nat where "LIBERA_CFG_PM_XHIGH = 143"
definition LIBERA_CFG_PM_YLOW :: nat where "LIBERA_CFG_PM_YLOW = 144"
definition LIBERA_CFG_PM_YHIGH :: nat where "LIBERA_CFG_PM_YHIGH = 145"
definition LIBERA_CFG_PM_OVERFLOW_LIMIT :: nat where "LIBERA_CFG_PM_OVERFLOW_LIMIT = 146"
definition LIBERA_CFG_PM_OVERFLOW_DUR :: nat where "LIBERA_CFG_PM_OVERFLOW_DUR = 147"
definition LIBERA_CFG_SR_ENABLE :: nat where "LIBERA_CFG_SR_ENABLE = 148"
definition LIBERA_CFG_SR_CSPI_ENABLE :: nat where "LIBERA_CFG_SR_CSPI_ENABLE = 149"
definition LIBERA_CFG_SR_AVERAGING_STOP :: nat where "LIBERA_CFG_SR_AVERAGING_STOP = 150"
definition LIBERA_CFG_SR_AVERAGE_WINDOW :: nat where "LIBERA_CFG_SR_AVERAGE_WINDOW = 151"
definition LIBERA_CFG_SR_START :: nat where "LIBERA_CFG_SR_START = 152"
definition LIBERA_CFG_SR_WINDOW :: nat where "LIBERA_CFG_SR_WINDOW = 153"
definition LIBERA_CFG_SP_THRESHOLD :: nat where "LIBERA_CFG_SP_THRESHOLD = 154"
definition LIBERA_CFG_SP_N_BEFORE :: nat where "LIBERA_CFG_SP_N_BEFORE = 155"
definition LIBERA_CFG_SP_N_AFTER :: nat where "LIBERA_CFG_SP_N_AFTER = 156"
definition LIBERA_CFG_CUSTOM_LAST :: nat where "LIBERA_CFG_CUSTOM_LAST = 157"
definition LIBERA_CFG_SW :: nat where "LIBERA_CFG_SW = 158"
definition LIBERA_CFG_LEVEL :: nat where "LIBERA_CFG_LEVEL = 159"
definition LIBERA_CFG_AGC :: nat where "LIBERA_CFG_AGC = 160"
definition LIBERA_CFG_DSC :: nat where "LIBERA_CFG_DSC = 161"
definition LIBERA_CFG_ILKSTATUS :: nat where "LIBERA_CFG_ILKSTATUS = 162"
definition LIBERA_CFG_PMOFFSET :: nat where "LIBERA_CFG_PMOFFSET = 163"
definition LIBERA_CFG_PMDEC :: nat where "LIBERA_CFG_PMDEC = 164"
definition LIBERA_CFG_EXTSWITCH :: nat where "LIBERA_CFG_EXTSWITCH = 165"
definition LIBERA_CFG_SWDELAY :: nat where "LIBERA_CFG_SWDELAY = 166"
definition LIBERA_CFG_DFA :: nat where "LIBERA_CFG_DFA = 167"
definition LIBERA_CFG_DEC_DDC :: nat where "LIBERA_CFG_DEC_DDC = 168"
definition LIBERA_CFG_DDC_MAFLENGTH :: nat where "LIBERA_CFG_DDC_MAFLENGTH = 169"
definition LIBERA_CFG_DDC_MAFDELAY :: nat where "LIBERA_CFG_DDC_MAFDELAY = 170"
definition LIBERA_CFG_TRIGDELAY :: nat where "LIBERA_CFG_TRIGDELAY = 171"
definition LIBERA_CFG_BCD_XOFFSET :: nat where "LIBERA_CFG_BCD_XOFFSET = 172"
definition LIBERA_CFG_BCD_YOFFSET :: nat where "LIBERA_CFG_BCD_YOFFSET = 173"
definition LIBERA_CFG_MAX_ADC :: nat where "LIBERA_CFG_MAX_ADC = 174"
definition LIBERA_CFG_AVERAGE_SUM :: nat where "LIBERA_CFG_AVERAGE_SUM = 175"
definition LIBERA_CFG_COEFF :: nat where "LIBERA_CFG_COEFF = 256"
definition LIBERA_CFG_NOTCH_MAX :: nat where "LIBERA_CFG_NOTCH_MAX = 5"
definition LIBERA_CFG_NOTCH1 :: nat where "LIBERA_CFG_NOTCH1 = 256"
definition LIBERA_CFG_NOTCH2 :: nat where "LIBERA_CFG_NOTCH2 = 261"
definition LIBERA_CFG_POLYPHASE_FIR :: nat where "LIBERA_CFG_POLYPHASE_FIR = 266"
definition LIBERA_CFG_FIR_MAX :: nat where "LIBERA_CFG_FIR_MAX = 192"

lemmas cfg_index =
  LIBERA_CFG_TRIGMODE_def LIBERA_CFG_MCPLL_def LIBERA_CFG_SCPLL_def LIBERA_CFG_CUSTOM_FIRST_def
  LIBERA_CFG_XOFFSET_def LIBERA_CFG_YOFFSET_def LIBERA_CFG_QOFFSET_def LIBERA_CFG_KX_def
  LIBERA_CFG_KY_def LIBERA_CFG_ILK_XLOW_def LIBERA_CFG_ILK_XHIGH_def LIBERA_CFG_ILK_YLOW_def
  LIBERA_CFG_ILK_YHIGH_def LIBERA_CFG_ILK_MODE_def LIBERA_CFG_ILK_OVERFLOW_LIMIT_def
  LIBERA_CFG_ILK_OVERFLOW_DUR_def LIBERA_CFG_ILK_GAIN_LIMIT_def LIBERA_CFG_PM_MODE_def
  LIBERA_CFG_PM_XLOW_def LIBERA_CFG_PM_XHIGH_def LIBERA_CFG_PM_YLOW_def LIBERA_CFG_PM_YHIGH_def
  LIBERA_CFG_PM_OVERFLOW_LIMIT_def LIBERA_CFG_PM_OVERFLOW_DUR_def LIBERA_CFG_SR_ENABLE_def
  LIBERA_CFG_SR_CSPI_ENABLE_def LIBERA_CFG_SR_AVERAGING_STOP_def LIBERA_CFG_SR_AVERAGE_WINDOW_def
  LIBERA_CFG_SR_START_def LIBERA_CFG_SR_WINDOW_def LIBERA_CFG_SP_THRESHOLD_def
  LIBERA_CFG_SP_N_BEFORE_def LIBERA_CFG_SP_N_AFTER_def LIBERA_CFG_CUSTOM_LAST_def
  LIBERA_CFG_SW_def LIBERA_CFG_LEVEL_def LIBERA_CFG_AGC_def LIBERA_CFG_DSC_def
  LIBERA_CFG_ILKSTATUS_def LIBERA_CFG_PMOFFSET_def LIBERA_CFG_PMDEC_def LIBERA_CFG_EXTSWITCH_def
  LIBERA_CFG_SWDELAY_def LIBERA_CFG_DFA_def LIBERA_CFG_DEC_DDC_def LIBERA_CFG_DDC_MAFLENGTH_def
  LIBERA_CFG_DDC_MAFDELAY_def LIBERA_CFG_TRIGDELAY_def LIBERA_CFG_BCD_XOFFSET_def
  LIBERA_CFG_BCD_YOFFSET_def LIBERA_CFG_MAX_ADC_def LIBERA_CFG_AVERAGE_SUM_def
  LIBERA_CFG_COEFF_def LIBERA_CFG_NOTCH_MAX_def LIBERA_CFG_NOTCH1_def LIBERA_CFG_NOTCH2_def
  LIBERA_CFG_POLYPHASE_FIR_def LIBERA_CFG_FIR_MAX_def

end
