(* ===== verification/Libera_Timing.thy ===== *)
theory Libera_Timing
  imports Libera_Sa Libera_Ebpp_Map
begin

text \<open>
  The interrupt handler (\<open>libera_main.c\<close>) and its EBPP parts (\<open>ebpp.c\<close>): the system-clock
  and machine-clock handlers that empty the timestamp FIFOs of the FPGA, setting the time,
  scheduling an event of the machine clock, the DD and interlock handlers.

  What the FPGA presents is an argument: the SC and MC FIFOs are lists of pairs of the low and
  the high status word, read until the size field of the low word is zero.
\<close>

section \<open>Trigger bits of a status word\<close>

definition T_FIFO_SIZE :: "u32 \<Rightarrow> u32" where
  "T_FIFO_SIZE x = x AND 0x1FF"

text \<open>
  The loops of both handlers: \<open>i\<close> and the one bit of \<open>m\<close> (its position \<open>n\<close>) advance together.
  Past bit 31 the C loop would never end; it does not get there.
\<close>

function scan_bit :: "nat \<Rightarrow> nat \<Rightarrow> u32 \<Rightarrow> nat \<times> nat" where
  "scan_bit i n sl = (if bit sl n \<or> 32 \<le> n then (i, n) else scan_bit (i + 1) (n + 1) sl)"
  by pat_completeness auto
termination by (relation "measure (\<lambda>(i, n, sl). 32 - n)") auto

declare scan_bit.simps [simp del]

lemma scan_bit_found: "scan_bit i n sl = (i', n') \<Longrightarrow> n' < 32 \<Longrightarrow> bit sl n' \<and> n \<le> n' \<and> i' + n = i + n'"
proof (induction i n sl rule: scan_bit.induct)
  case (1 i n sl)
  show ?case
  proof (cases "bit sl n \<or> 32 \<le> n")
    case True
    then show ?thesis using 1(2,3) by (subst (asm) scan_bit.simps) auto
  next
    case False
    then have "scan_bit (i + 1) (n + 1) sl = (i', n')" using 1(2) by (subst (asm) scan_bit.simps) simp
    then show ?thesis using 1(1) [OF False _ 1(3)] by auto
  qed
qed

function irq_triggers :: "nat \<Rightarrow> nat \<Rightarrow> u32 \<Rightarrow> nat list" where
  "irq_triggers i n sl =
     (if sl AND TRIG_ALL_MASK = 0 then []
      else case scan_bit i n sl of (i', n') \<Rightarrow>
        if 32 \<le> n' then [] else i' # irq_triggers i' n' (sl AND NOT (push_bit n' 1)))"
  by pat_completeness auto
termination
  by (relation "measure (\<lambda>(i, n, sl). unat sl)")
     (auto simp del: push_bit_of_1 intro!: clear_bit_less dest!: scan_bit_found [OF sym])

declare irq_triggers.simps [simp del]

section \<open>Stamps\<close>

text \<open>The 26 bits of the FPGA below the 38 bits kept by the driver.\<close>

definition full_stamp :: "u32 \<Rightarrow> u64 \<Rightarrow> u64" where
  "full_stamp sh base = ucast (sh AND 0x03FFFFFF) OR (base AND 0xFFFFFFFFFC000000)"

definition upd_paired :: "nat \<Rightarrow> libera_circbuf \<Rightarrow> kernel \<Rightarrow> kernel" where
  "upd_paired i q k =
     k\<lparr>event := (event k)\<lparr>paired_timestamps := (paired_timestamps (event k))(i := q)\<rparr>\<rparr>"

section \<open>System clock\<close>

definition libera_SCtrig_specific :: "u64 \<Rightarrow> u64 \<Rightarrow> nat \<Rightarrow> kernel \<Rightarrow> kernel" where
  "libera_SCtrig_specific stamp stamp_raw i k =
     (if i = T_TRIG_MC_PRESCALER \<or> i = T_TRIG_SC_PRESCALER then
        set_fifo (SCQ i) (fst (putToFIFO (sc_timestamps (event k) i) stamp_raw)) k
      else if i = T_TRIG_POST_MORTEM then
        (if pm_freezed (cfg k) = 0
         then upd_paired i (putLSTtoCircBuf (paired_timestamps (event k) i) stamp) k else k)
      else set_fifo (SCQ i) (fst (putToFIFO (sc_timestamps (event k) i) stamp)) k)"

definition sc_trigger :: "u64 \<Rightarrow> u64 \<Rightarrow> nat \<Rightarrow> kernel \<Rightarrow> kernel" where
  "sc_trigger stamp stamp_raw i k =
     (if i = T_TRIG_TRIGGER then
        (if cfg_param (cfg k) LIBERA_CFG_TRIGMODE = LIBERA_TRIGMODE_SET
         then upd_paired i (putLSTtoCircBuf (paired_timestamps (event k) i) stamp_raw) k
         else upd_paired i (putLSTtoCircBuf (paired_timestamps (event k) i) stamp) k)
      else libera_SCtrig_specific stamp stamp_raw i k)"

definition sc_entry :: "u32 \<times> u32 \<Rightarrow> kernel \<Rightarrow> kernel" where
  "sc_entry e k =
     (let (sl, sh) = e;
          k = (if sl AND SELF_INC_TRIGGER \<noteq> 0
               then k\<lparr>event := (event k)\<lparr>sc_time := sc_time (event k) + 0x4000000\<rparr>\<rparr> else k);
          stamp_raw = full_stamp sh (sc_time (event k));
          stamp = stamp_raw + st_lst_off (settime (event k))
      in fold (sc_trigger stamp stamp_raw) (irq_triggers 0 22 sl) k)"

fun libera_sc_handler :: "(u32 \<times> u32) list \<Rightarrow> kernel \<Rightarrow> kernel" where
  "libera_sc_handler [] k = k"
| "libera_sc_handler (e # es) k =
     (if T_FIFO_SIZE (fst e) = 0 then k else libera_sc_handler es (sc_entry e k))"

section \<open>Setting the time\<close>

definition libera_set_LST :: "kernel \<Rightarrow> kernel" where
  "libera_set_LST k =
     (let trig = getFromCircBuf (paired_timestamps (event k) T_TRIG_TRIGGER);
          s = settime (event k)
      in k\<lparr>event := (event k)\<lparr>settime :=
            s\<lparr>st_lst_off := st_lst_ref s - st_lst_scphi s - lst trig\<rparr>\<rparr>\<rparr>)"

text \<open>The product of the two decimations is taken in 32 bits; zero is a division by zero.\<close>

definition libera_set_LMT :: "kernel \<Rightarrow> kernel call" where
  "libera_set_LMT k =
     (let trig = getFromCircBuf (paired_timestamps (event k) T_TRIG_TRIGGER);
          s = settime (event k);
          off_pll_old = st_lmt_off_pll s;
          off_all = st_lmt_ref s - st_lmt_mcphi s - lmt trig + off_pll_old
      in call_bind
           (if lgbl_dfa k \<noteq> 0 then
              (case div_u64_rem off_all (lgbl_d k * lgbl_dfa k) of
                 None \<Rightarrow> Fault | Some (_, rem) \<Rightarrow> Ret (ucast rem))
            else Ret 0)
           (\<lambda>off_pll.
              let k = reg_write SA_STOP SA_CONTROL
                    (k\<lparr>event := (event k)\<lparr>settime :=
                       s\<lparr>st_lmt_off_all := off_all, st_lmt_off_pll := off_pll, st_lmt_off := off_all - off_pll\<rparr>\<rparr>\<rparr>)
              in Ret (k\<lparr>event := (event k)\<lparr>evgen :=
                   \<lparr>eg_time = lmt trig + ucast (20 * 1024 * lgbl_dfa k * lgbl_d k) - (off_pll - off_pll_old),
                    eg_event = push_bit T_EG_SA 1\<rparr>\<rparr>\<rparr>)))"

definition libera_set_time :: "kernel \<Rightarrow> kernel call" where
  "libera_set_time k =
     (let upd = st_update (settime (event k));
          k = (if upd AND LIBERA_SETTIME_ST \<noteq> 0 then libera_set_LST k else k)
      in call_bind (if upd AND LIBERA_SETTIME_MT \<noteq> 0 then libera_set_LMT k else Ret k) (\<lambda>k.
           Ret (k\<lparr>event := (event k)\<lparr>settime := (settime (event k))\<lparr>st_update := 0\<rparr>\<rparr>\<rparr>)))"

section \<open>Scheduling an event of the machine clock\<close>

definition evgen_write :: "u64 \<Rightarrow> kernel \<Rightarrow> kernel" where
  "evgen_write offset26 k =
     reg_write (ucast (offset26 AND 0xFFFFFFFF)) T_MC_EVENTGENH
       (reg_write (eg_event (evgen (event k))) T_MC_EVENTGENL k)"

definition libera_mc_selfinc_specific :: "kernel \<Rightarrow> kernel" where
  "libera_mc_selfinc_specific k =
     (let t = eg_time (evgen (event k)); mt = mc_time (event k) in
      if mt \<le> t \<and> t < mt + 0x4000000 then
        let offset26 = t - mt in
        if 0x2000000 \<le> offset26 then evgen_write offset26 k else k
      else k)"

definition libera_mchelp_handler_specific :: "kernel \<Rightarrow> kernel" where
  "libera_mchelp_handler_specific k =
     (let t = eg_time (evgen (event k)); mt = mc_time (event k) in
      if mt + 0x4000000 \<le> t \<and> t < mt + 0x8000000 then
        let offset26 = t - (mt + 0x4000000) in
        if offset26 < 0x2000000 then evgen_write offset26 k else k
      else k)"

definition libera_sc_selfinc_specific :: "kernel \<Rightarrow> kernel" where
  "libera_sc_selfinc_specific k = k"

definition libera_schelp_handler_specific :: "kernel \<Rightarrow> kernel" where
  "libera_schelp_handler_specific k = k"

definition libera_schelp_handler :: "kernel \<Rightarrow> kernel" where
  "libera_schelp_handler k = libera_schelp_handler_specific k"

definition libera_mchelp_handler :: "kernel \<Rightarrow> kernel" where
  "libera_mchelp_handler k = libera_mchelp_handler_specific k"

text \<open>The argument is what \<open>SBC_IRQ2\<close> reads.\<close>

definition libera_scmchelp_handler :: "u32 \<Rightarrow> kernel \<Rightarrow> kernel" where
  "libera_scmchelp_handler int_status k =
     (let k = (if int_status AND push_bit 0 1 \<noteq> 0 then libera_schelp_handler k else k)
      in if int_status AND push_bit 8 1 \<noteq> 0 then libera_mchelp_handler k else k)"

section \<open>Machine clock\<close>

definition libera_valid_trigger :: "nat \<Rightarrow> bool" where
  "libera_valid_trigger trigno = True"

definition libera_MCtrig_specific :: "u64 \<Rightarrow> u64 \<Rightarrow> nat \<Rightarrow> kernel \<Rightarrow> kernel" where
  "libera_MCtrig_specific stamp stamp_raw i k =
     (if i = T_TRIG_POST_MORTEM then
        (if pm_freezed (cfg k) = 0 then
           let k = upd_paired i (putLMTtoCircBuf (paired_timestamps (event k) i) stamp) k;
               k = fst (libera_send_event LIBERA_EVENT_PM (pmsize k) k)
           in if cfg_param (cfg k) LIBERA_CFG_PM_MODE \<noteq> 0
              then k\<lparr>cfg := (cfg k)\<lparr>pm_freezed := 1\<rparr>\<rparr> else k
         else k)
      else if i = T_TRIG_MC_PRESCALER then
        set_fifo (MCQ i) (fst (putToFIFO (mc_timestamps (event k) i)
          (stamp_raw - st_lmt_off_pll (settime (event k))))) k
      else set_fifo (MCQ i) (fst (putToFIFO (mc_timestamps (event k) i) stamp)) k)"

definition mc_trigger :: "u64 \<Rightarrow> u64 \<Rightarrow> nat \<Rightarrow> kernel \<Rightarrow> kernel call" where
  "mc_trigger stamp stamp_raw i k =
     (if i = T_TRIG_TRIGGER then
        let trigmode = cfg_param (cfg k) LIBERA_CFG_TRIGMODE in
        if trigmode = LIBERA_TRIGMODE_SET then
          call_bind
            (libera_set_time (upd_paired i (putLMTtoCircBuf (paired_timestamps (event k) i) stamp_raw) k))
            (\<lambda>k. Ret (fst (libera_send_event LIBERA_EVENT_TRIGSET 0
                        (set_cfg_param LIBERA_CFG_TRIGMODE LIBERA_TRIGMODE_GET k))))
        else if \<not> libera_valid_trigger i then Ret k
        else
          let k = upd_paired i (putLMTtoCircBuf (paired_timestamps (event k) i) stamp) k in
          if trigmode = LIBERA_TRIGMODE_GET
          then Ret (fst (libera_send_event LIBERA_EVENT_TRIGGET 0 k)) else Ret k
      else Ret (libera_MCtrig_specific stamp stamp_raw i k))"

fun mc_triggers :: "u64 \<Rightarrow> u64 \<Rightarrow> nat list \<Rightarrow> kernel \<Rightarrow> kernel call" where
  "mc_triggers stamp stamp_raw [] k = Ret k"
| "mc_triggers stamp stamp_raw (i # is) k =
     call_bind (mc_trigger stamp stamp_raw i k) (mc_triggers stamp stamp_raw is)"

definition mc_entry :: "u32 \<times> u32 \<Rightarrow> kernel \<Rightarrow> kernel call" where
  "mc_entry e k =
     (let (sl, sh) = e;
          k = (if sl AND SELF_INC_TRIGGER \<noteq> 0
               then libera_mc_selfinc_specific
                      (k\<lparr>event := (event k)\<lparr>mc_time := mc_time (event k) + 0x4000000\<rparr>\<rparr>) else k);
          stamp_raw = full_stamp sh (mc_time (event k));
          stamp = stamp_raw + st_lmt_off (settime (event k))
      in mc_triggers stamp stamp_raw (irq_triggers 0 22 sl) k)"

fun libera_mc_handler :: "(u32 \<times> u32) list \<Rightarrow> kernel \<Rightarrow> kernel call" where
  "libera_mc_handler [] k = Ret k"
| "libera_mc_handler (e # es) k =
     (if T_FIFO_SIZE (fst e) = 0 then Ret k
      else call_bind (mc_entry e k) (libera_mc_handler es))"

section \<open>The other sources of the interrupt\<close>

definition LIBERA_INTERRUPT_ADC_MASK :: u32 where "LIBERA_INTERRUPT_ADC_MASK = push_bit 0 1"
definition LIBERA_INTERRUPT_SC_MASK :: u32 where "LIBERA_INTERRUPT_SC_MASK = push_bit 1 1"
definition LIBERA_INTERRUPT_HELPSC_MASK :: u32 where "LIBERA_INTERRUPT_HELPSC_MASK = push_bit 2 1"
definition LIBERA_INTERRUPT_MC_MASK :: u32 where "LIBERA_INTERRUPT_MC_MASK = push_bit 3 1"
definition LIBERA_INTERRUPT_HELPMC_MASK :: u32 where "LIBERA_INTERRUPT_HELPMC_MASK = push_bit 4 1"
definition LIBERA_INTERRUPT_DD_MASK :: u32 where "LIBERA_INTERRUPT_DD_MASK = push_bit 5 1"
definition LIBERA_INTERRUPT_SA_MASK :: u32 where "LIBERA_INTERRUPT_SA_MASK = push_bit 6 1"
definition LIBERA_INTERRUPT_ILK_MASK :: u32 where "LIBERA_INTERRUPT_ILK_MASK = push_bit 8 1"

definition libera_dd_handler :: "kernel \<Rightarrow> kernel" where
  "libera_dd_handler k =
     (let k = set_irqMask (irqMask k AND NOT LIBERA_INTERRUPT_DD_MASK) k
      in set_fifo DDQ (fst (putToFIFO (dd_irqevents (dd k)) 0)) k)"

definition libera_ilk_handler_specific :: "u32 \<Rightarrow> kernel \<Rightarrow> kernel" where
  "libera_ilk_handler_specific status k =
     set_cfg_param LIBERA_CFG_ILKSTATUS (cfg_param (cfg k) LIBERA_CFG_ILKSTATUS OR status) k"

text \<open>The argument \<open>status\<close> is what \<open>ILK_STATUS\<close> reads.\<close>

definition libera_ilk_handler :: "u32 \<Rightarrow> kernel \<Rightarrow> kernel" where
  "libera_ilk_handler status k =
     fst (libera_send_event LIBERA_EVENT_INTERLOCK status (libera_ilk_handler_specific status k))"

definition libera_sa_handler :: "bool \<Rightarrow> sa_pass list \<Rightarrow> kernel \<Rightarrow> kernel call" where
  "libera_sa_handler inovr ss k =
     call_bind (libera_sa_handler_specific inovr ss k) (\<lambda>k. Ret (k\<lparr>sa_tasklet := True\<rparr>))"

section \<open>The interrupt\<close>

text \<open>
  What one pass of the loop of \<open>libera_interrupt\<close> finds: the interrupt vector, and for each
  source the registers its handler reads.
\<close>

record irq_pass =
  ip_vec :: u32
  ip_ilk :: u32
  ip_sc :: "(u32 \<times> u32) list"
  ip_mc :: "(u32 \<times> u32) list"
  ip_help :: u32
  ip_sa_inovr :: bool
  ip_sa :: "sa_pass list"

text \<open>The machine-clock handler runs after the system-clock handler.\<close>

definition irq_pass_step :: "u32 \<Rightarrow> irq_pass \<Rightarrow> kernel \<Rightarrow> kernel call" where
  "irq_pass_step int_vec p k =
     (let k = (if int_vec AND LIBERA_INTERRUPT_ILK_MASK \<noteq> 0 then libera_ilk_handler (ip_ilk p) k else k);
          k = (if int_vec AND LIBERA_INTERRUPT_SC_MASK \<noteq> 0 then libera_sc_handler (ip_sc p) k else k)
      in call_bind (if int_vec AND LIBERA_INTERRUPT_MC_MASK \<noteq> 0 then libera_mc_handler (ip_mc p) k else Ret k)
        (\<lambda>k.
          let k = (if int_vec AND (LIBERA_INTERRUPT_HELPSC_MASK OR LIBERA_INTERRUPT_HELPMC_MASK) \<noteq> 0
                   then libera_scmchelp_handler (ip_help p) k else k);
              k = (if int_vec AND LIBERA_INTERRUPT_DD_MASK \<noteq> 0 then libera_dd_handler k else k)
          in if int_vec AND LIBERA_INTERRUPT_SA_MASK \<noteq> 0
             then libera_sa_handler (ip_sa_inovr p) (ip_sa p) k else Ret k))"

text \<open>The list of the passes ends when the vector reads zero.\<close>

fun interrupt_loop :: "irq_pass list \<Rightarrow> kernel \<Rightarrow> kernel call" where
  "interrupt_loop [] k = Ret k"
| "interrupt_loop (p # ps) k =
     (let int_vec = ip_vec p AND irqMask k in
      if int_vec = 0 then Ret k
      else call_bind (irq_pass_step int_vec p k) (interrupt_loop ps))"

datatype irqreturn_t = IRQ_NONE | IRQ_HANDLED

text \<open>\<open>lgbl_irq\<close> is the number the module registered.\<close>

definition libera_interrupt ::
  "nat \<Rightarrow> nat \<Rightarrow> irq_pass list \<Rightarrow> kernel \<Rightarrow> (kernel \<times> irqreturn_t) call" where
  "libera_interrupt lgbl_irq irq ps k =
     (if irq \<noteq> lgbl_irq then Ret (k, IRQ_NONE)
      else call_bind (interrupt_loop ps k) (\<lambda>k. Ret (k, IRQ_HANDLED)))"

end
