(* ===== verification/Libera_Timing_Props.thy ===== *)
theory Libera_Timing_Props
  imports Libera_Timing
begin

text \<open>
  Properties of the interrupt handler: the triggers of a status word are handled once each in
  ascending order, a trigger seen by both clocks is stored as one pair, setting the time keeps
  the phase of the accelerator clock, an event of the machine clock is scheduled exactly once.
\<close>

section \<open>Trigger bits\<close>

lemma scan_bit_least:
  "scan_bit i n sl = (i', n') \<Longrightarrow> n \<le> j \<Longrightarrow> j < n' \<Longrightarrow> \<not> bit sl j"
proof (induction i n sl rule: scan_bit.induct)
  case (1 i n sl)
  show ?case
  proof (cases "bit sl n \<or> 32 \<le> n")
    case True
    then show ?thesis using 1(2-4) by (subst (asm) scan_bit.simps) auto
  next
    case False
    then have "scan_bit (i + 1) (n + 1) sl = (i', n')" using 1(2) by (subst (asm) scan_bit.simps) simp
    moreover have "j = n \<or> n + 1 \<le> j" using 1(3) by auto
    ultimately show ?thesis using 1(1) [OF False] 1(4) False by auto
  qed
qed

lemma scan_bit_exists:
  "bit sl j \<Longrightarrow> n \<le> j \<Longrightarrow> j < 32 \<Longrightarrow> snd (scan_bit i n sl) \<le> j"
proof (induction i n sl rule: scan_bit.induct)
  case (1 i n sl)
  show ?case
  proof (cases "bit sl n \<or> 32 \<le> n")
    case True
    then show ?thesis using 1(3) by (subst scan_bit.simps) auto
  next
    case False
    then have "n + 1 \<le> j" using 1(2,3) by (cases "n = j") auto
    then show ?thesis using 1(1) [OF False 1(2) _ 1(4)] False by (subst scan_bit.simps) simp
  qed
qed

lemma TRIG_ALL_zero: "sl AND TRIG_ALL_MASK = 0 \<longleftrightarrow> (\<forall>j. 22 \<le> j \<and> j \<le> 30 \<longrightarrow> \<not> bit sl j)"
proof
  assume "sl AND TRIG_ALL_MASK = 0"
  then show "\<forall>j. 22 \<le> j \<and> j \<le> 30 \<longrightarrow> \<not> bit sl j"
    by (metis TRIG_ALL_MASK_bit bit_0_eq bit_and_iff bot_apply bot_bool_def)
next
  assume "\<forall>j. 22 \<le> j \<and> j \<le> 30 \<longrightarrow> \<not> bit sl j"
  then show "sl AND TRIG_ALL_MASK = 0"
    by (intro bit_word_eqI) (auto simp: bit_and_iff TRIG_ALL_MASK_bit)
qed

lemma bit_clear: "bit (a AND NOT (push_bit p 1) :: u32) n \<longleftrightarrow> bit a n \<and> n \<noteq> p"
  by (auto simp: bit_simps dest: bit_imp_le_length)

text \<open>The triggers from \<open>i\<close> on, in ascending order, when none below \<open>i\<close> is left.\<close>

lemma irq_triggers_from:
  assumes "n = 22 + i" "i \<le> 9" "\<And>j. 22 \<le> j \<Longrightarrow> j < n \<Longrightarrow> \<not> bit sl j"
  shows "irq_triggers i n sl = filter (\<lambda>j. bit sl (22 + j)) [i..<9]"
  using assms
proof (induction i n sl rule: irq_triggers.induct)
  case (1 i n sl)
  show ?case
  proof (cases "sl AND TRIG_ALL_MASK = 0")
    case True
    then have "\<forall>j \<in> set [i..<9]. \<not> bit sl (22 + j)" by (auto simp: TRIG_ALL_zero)
    then show ?thesis using True by (simp add: irq_triggers.simps filter_empty_conv)
  next
    case False
    then obtain p where p: "22 \<le> p" "p \<le> 30" "bit sl p" by (auto simp: TRIG_ALL_zero)
    have np: "n \<le> p" using 1(4) [of p] p by (meson not_le)
    obtain i' n' where s: "scan_bit i n sl = (i', n')" by fastforce
    have n': "n' \<le> p" using scan_bit_exists [OF p(3) np, of i] p(2) s by simp
    then have f: "bit sl n'" "n \<le> n'" "i' + n = i + n'"
      using scan_bit_found [OF s] p(2) by auto
    have i': "n' = 22 + i'" "i \<le> i'" "i' \<le> 8" using f 1(2) n' p(2) by auto
    have gap: "\<not> bit sl j" if "22 \<le> j" "j < n'" for j
      using scan_bit_least [OF s, of j] 1(4) [of j] that by (cases "n \<le> j") auto
    define sl' where "sl' = sl AND NOT (push_bit n' 1)"
    have bits: "bit sl' j \<longleftrightarrow> bit sl j \<and> j \<noteq> n'" for j by (simp only: sl'_def bit_clear)
    have rec: "irq_triggers i' n' sl' = filter (\<lambda>j. bit sl' (22 + j)) [i'..<9]"
      unfolding sl'_def
      by (rule 1(1) [OF False s [symmetric]])
         (use i' gap in \<open>auto simp: bit_clear simp del: push_bit_of_1\<close>)
    have split2: "[i'..<9] = i' # [Suc i'..<9]" using i' by (simp add: upt_rec [of i' 9])
    have split: "[i..<9] = [i..<i'] @ i' # [Suc i'..<9]"
      using upt_add_eq_append [of i i' "9 - i'"] i' split2 by simp
    have none: "filter (\<lambda>j. bit sl (22 + j)) [i..<i'] = []"
      using gap i' by (auto simp: filter_empty_conv)
    have same: "filter (\<lambda>j. bit sl' (22 + j)) [Suc i'..<9] = filter (\<lambda>j. bit sl (22 + j)) [Suc i'..<9]"
      using i' by (intro filter_cong) (auto simp: bits)
    have "irq_triggers i n sl = i' # irq_triggers i' n' sl'"
      using False s n' p(2) by (subst irq_triggers.simps) (simp add: sl'_def)
    also have "\<dots> = i' # filter (\<lambda>j. bit sl (22 + j)) [Suc i'..<9]"
      unfolding rec split2 using same bits i'(1) by simp
    also have "\<dots> = filter (\<lambda>j. bit sl (22 + j)) [i..<9]"
      using f(1) i' by (simp add: split none)
    finally show ?thesis .
  qed
qed

lemma irq_triggers_spec: "irq_triggers 0 22 sl = filter (\<lambda>j. bit sl (22 + j)) [0..<9]"
  by (rule irq_triggers_from) auto

section \<open>Stamps\<close>

lemma full_stamp_bit: "bit (full_stamp sh base) n \<longleftrightarrow> (if n < 26 then bit sh n else bit base n)"
proof -
  have l: "(0x03FFFFFF :: u32) = mask 26" by (simp add: mask_eq_exp_minus_1)
  have h: "(0xFFFFFFFFFC000000 :: u64) = NOT (mask 26)" by (simp add: mask_eq_exp_minus_1)
  show ?thesis
    by (auto simp: full_stamp_def l h bit_simps dest: bit_imp_le_length)
qed

lemma full_stamp_unat: "unat (full_stamp sh base) = unat base div 2 ^ 26 * 2 ^ 26 + unat sh mod 2 ^ 26"
proof -
  have e: "full_stamp sh base = push_bit 26 (drop_bit 26 base) OR take_bit 26 (ucast sh)"
    by (rule bit_word_eqI) (auto simp: full_stamp_bit bit_simps)
  have d: "push_bit 26 (drop_bit 26 base) AND take_bit 26 (ucast sh) = (0 :: u64)"
    by (rule bit_word_eqI) (auto simp: bit_simps)
  have a: "unat (push_bit 26 (drop_bit 26 base)) = unat base div 2 ^ 26 * 2 ^ 26"
  proof -
    have l: "unat base < 2 ^ 64" by (rule order_less_le_trans [OF unsigned_less]) simp
    then have "unat base div 2 ^ 26 * 2 ^ 26 < 2 ^ 64"
      by (rule order_le_less_trans [OF div_times_less_eq_dividend])
    then show ?thesis
      by (simp add: push_bit_eq_mult drop_bit_eq_div unat_mult_exact unat_div)
  qed
  have t: "unat (take_bit 26 (ucast sh :: u64)) = unat sh mod 2 ^ 26"
    by (simp add: take_bit_eq_mask unat_and_mask)
  have "full_stamp sh base = push_bit 26 (drop_bit 26 base) + take_bit 26 (ucast sh)"
    using e d by (simp add: disjunctive_add_eq_or)
  moreover have "unat base div 2 ^ 26 * 2 ^ 26 + unat sh mod 2 ^ 26 < 2 ^ 64"
  proof -
    have "unat base div 2 ^ 26 < 2 ^ 38"
      by (rule less_mult_imp_div_less) (rule order_less_le_trans [OF unsigned_less], simp)
    moreover have "unat sh mod 2 ^ 26 < 2 ^ 26" by simp
    ultimately show ?thesis by simp
  qed
  ultimately show ?thesis using a t by (simp add: unat_add_exact)
qed

section \<open>The pair of a trigger\<close>

abbreviation trig_pairs :: "kernel \<Rightarrow> libera_circbuf" where
  "trig_pairs k \<equiv> paired_timestamps (event k) T_TRIG_TRIGGER"

abbreviation trigmode :: "kernel \<Rightarrow> u32" where
  "trigmode k \<equiv> cfg_param (cfg k) LIBERA_CFG_TRIGMODE"

lemmas trig_numbers =
  T_TRIG_TRIGGER_def T_TRIG_POST_MORTEM_def T_TRIG_MC_PRESCALER_def T_TRIG_SC_PRESCALER_def

lemma putLST_putLST [simp]: "putLSTtoCircBuf (putLSTtoCircBuf q a) b = putLSTtoCircBuf q b"
  by (simp add: putLSTtoCircBuf_def)

lemma circbuf_burst:
  assumes "circbuf_ok q"
  shows "cstamp (putLMTtoCircBuf (putToCircBuf q d) t) (unat (cput q)) = d"
    and "getFromCircBuf (putLMTtoCircBuf (putToCircBuf q d) t) =
      \<lparr>lst = lst (cstamp q (unat ((cput q + 1) AND mask TRIG_LOG_BITS))), lmt = t\<rparr>"
proof -
  have ne: "unat ((cput q + 1) AND mask TRIG_LOG_BITS) \<noteq> unat (cput q)"
    using assms mod_Suc [of "unat (cput q)" 4096]
    by (auto simp: circbuf_ok_def TRIG_LOG_BITS_def unat_and_mask unat_word_ariths)
  have p: "(((cput q + 1) AND mask 12) + 1 AND mask 12) - 1 AND mask 12 = (cput q + 1) AND mask 12"
    by (rule circbuf_prev) (simp add: unat_and_mask)
  show "cstamp (putLMTtoCircBuf (putToCircBuf q d) t) (unat (cput q)) = d"
    using ne by (simp add: putLMTtoCircBuf_def putToCircBuf_def)
  show "getFromCircBuf (putLMTtoCircBuf (putToCircBuf q d) t) =
      \<lparr>lst = lst (cstamp q (unat ((cput q + 1) AND mask TRIG_LOG_BITS))), lmt = t\<rparr>"
    using ne p by (simp add: getFromCircBuf_def putLMTtoCircBuf_def putToCircBuf_def TRIG_LOG_BITS_def)
qed

lemma upd_paired_simps [simp]:
  "paired_timestamps (event (upd_paired i q k)) = (paired_timestamps (event k))(i := q)"
  "settime (event (upd_paired i q k)) = settime (event k)"
  "sc_time (event (upd_paired i q k)) = sc_time (event k)"
  "mc_time (event (upd_paired i q k)) = mc_time (event k)"
  "evgen (event (upd_paired i q k)) = evgen (event k)"
  "cfg (upd_paired i q k) = cfg k" "irqMask (upd_paired i q k) = irqMask k"
  "lgbl_d (upd_paired i q k) = lgbl_d k" "lgbl_dfa (upd_paired i q k) = lgbl_dfa k"
  "trace (upd_paired i q k) = trace k"
  by (simp_all add: upd_paired_def)

lemma set_fifo_simps [simp]:
  "paired_timestamps (event (set_fifo s q k)) = paired_timestamps (event k)"
  "settime (event (set_fifo s q k)) = settime (event k)"
  "sc_time (event (set_fifo s q k)) = sc_time (event k)"
  "mc_time (event (set_fifo s q k)) = mc_time (event k)"
  "evgen (event (set_fifo s q k)) = evgen (event k)"
  "cfg (set_fifo s q k) = cfg k" "irqMask (set_fifo s q k) = irqMask k"
  "lgbl_d (set_fifo s q k) = lgbl_d k" "lgbl_dfa (set_fifo s q k) = lgbl_dfa k"
  "trace (set_fifo s q k) = trace k"
  by (cases s; simp)+

lemma sc_triggers_frame:
  "cfg (fold (sc_trigger st raw) xs k) = cfg k \<and>
   settime (event (fold (sc_trigger st raw) xs k)) = settime (event k) \<and>
   sc_time (event (fold (sc_trigger st raw) xs k)) = sc_time (event k) \<and>
   mc_time (event (fold (sc_trigger st raw) xs k)) = mc_time (event k) \<and>
   evgen (event (fold (sc_trigger st raw) xs k)) = evgen (event k) \<and>
   irqMask (fold (sc_trigger st raw) xs k) = irqMask k \<and>
   lgbl_d (fold (sc_trigger st raw) xs k) = lgbl_d k \<and>
   lgbl_dfa (fold (sc_trigger st raw) xs k) = lgbl_dfa k"
  by (induction xs arbitrary: k) (simp_all add: sc_trigger_def libera_SCtrig_specific_def Let_def)

lemma sc_triggers_pairs:
  "trig_pairs (fold (sc_trigger st raw) xs k) =
     (if T_TRIG_TRIGGER \<in> set xs
      then putLSTtoCircBuf (trig_pairs k) (if trigmode k = LIBERA_TRIGMODE_SET then raw else st)
      else trig_pairs k)"
proof (induction xs arbitrary: k)
  case (Cons x xs)
  have c: "cfg (sc_trigger st raw x k) = cfg k"
    using sc_triggers_frame [of st raw "[x]" k] by simp
  have t: "trig_pairs (sc_trigger st raw x k) =
      (if x = T_TRIG_TRIGGER
       then putLSTtoCircBuf (trig_pairs k) (if trigmode k = LIBERA_TRIGMODE_SET then raw else st)
       else trig_pairs k)"
    by (simp add: sc_trigger_def libera_SCtrig_specific_def trig_numbers)
  show ?case by (cases "x = T_TRIG_TRIGGER") (use c t in \<open>auto simp: Cons\<close>)
qed simp

text \<open>The time the FPGA gave a trigger, and the same in the time the driver was told.\<close>

definition sc_now :: "u32 \<Rightarrow> kernel \<Rightarrow> u64" where
  "sc_now sl k = sc_time (event k) + (if sl AND SELF_INC_TRIGGER \<noteq> 0 then 0x4000000 else 0)"

definition mc_now :: "u32 \<Rightarrow> kernel \<Rightarrow> u64" where
  "mc_now sl k = mc_time (event k) + (if sl AND SELF_INC_TRIGGER \<noteq> 0 then 0x4000000 else 0)"

lemma TRIGGER_in: "T_TRIG_TRIGGER \<in> set (irq_triggers 0 22 sl) \<longleftrightarrow> bit sl 30"
  by (simp add: irq_triggers_spec T_TRIG_TRIGGER_def)

lemma sc_entry_facts:
  "trig_pairs (sc_entry (sl, sh) k) =
     (if bit sl 30
      then putLSTtoCircBuf (trig_pairs k)
             (full_stamp sh (sc_now sl k)
              + (if trigmode k = LIBERA_TRIGMODE_SET then 0 else st_lst_off (settime (event k))))
      else trig_pairs k)"
  "cfg (sc_entry (sl, sh) k) = cfg k"
  "settime (event (sc_entry (sl, sh) k)) = settime (event k)"
  "sc_time (event (sc_entry (sl, sh) k)) = sc_now sl k"
  "mc_time (event (sc_entry (sl, sh) k)) = mc_time (event k)"
  "irqMask (sc_entry (sl, sh) k) = irqMask k"
  "lgbl_d (sc_entry (sl, sh) k) = lgbl_d k"
  "lgbl_dfa (sc_entry (sl, sh) k) = lgbl_dfa k"
  by (simp_all add: sc_entry_def sc_triggers_frame sc_triggers_pairs TRIGGER_in sc_now_def Let_def)

lemma send_event_event [simp]:
  "paired_timestamps (event (fst (libera_send_event eid p k))) = paired_timestamps (event k)"
  "settime (event (fst (libera_send_event eid p k))) = settime (event k)"
  "mc_time (event (fst (libera_send_event eid p k))) = mc_time (event k)"
  "sc_time (event (fst (libera_send_event eid p k))) = sc_time (event k)"
  "evgen (event (fst (libera_send_event eid p k))) = evgen (event k)"
  by (simp_all add: libera_send_event_def split: prod.splits)

lemma mc_specific_frame:
  assumes "i \<noteq> T_TRIG_TRIGGER"
  shows "trig_pairs (libera_MCtrig_specific st raw i k) = trig_pairs k"
    "trigmode (libera_MCtrig_specific st raw i k) = trigmode k"
    "settime (event (libera_MCtrig_specific st raw i k)) = settime (event k)"
    "mc_time (event (libera_MCtrig_specific st raw i k)) = mc_time (event k)"
    "evgen (event (libera_MCtrig_specific st raw i k)) = evgen (event k)"
    "lgbl_d (libera_MCtrig_specific st raw i k) = lgbl_d k"
    "lgbl_dfa (libera_MCtrig_specific st raw i k) = lgbl_dfa k"
  using assms
  by (simp_all add: libera_MCtrig_specific_def trig_numbers Let_def)

text \<open>The triggers before \<open>TRIGGER\<close>, which comes last, leave its pair and the mode alone.\<close>

lemma mc_triggers_others:
  assumes "T_TRIG_TRIGGER \<notin> set xs"
  shows "\<exists>k'. mc_triggers st raw xs k = Ret k' \<and> trig_pairs k' = trig_pairs k \<and> trigmode k' = trigmode k
    \<and> settime (event k') = settime (event k) \<and> mc_time (event k') = mc_time (event k)
    \<and> evgen (event k') = evgen (event k) \<and> lgbl_d k' = lgbl_d k \<and> lgbl_dfa k' = lgbl_dfa k"
  using assms
proof (induction xs arbitrary: k)
  case (Cons x xs)
  then have x: "x \<noteq> T_TRIG_TRIGGER" "T_TRIG_TRIGGER \<notin> set xs" by auto
  show ?case
    using Cons.IH [OF x(2), of "libera_MCtrig_specific st raw x k"] x(1)
    by (simp add: mc_trigger_def mc_specific_frame)
qed simp

lemma mc_triggers_append:
  "mc_triggers st raw (xs @ ys) k = call_bind (mc_triggers st raw xs k) (mc_triggers st raw ys)"
proof (induction xs arbitrary: k)
  case (Cons x xs)
  show ?case by (cases "mc_trigger st raw x k") (simp_all add: Cons)
qed simp

lemma irq_triggers_last:
  obtains xs where "T_TRIG_TRIGGER \<notin> set xs"
    "irq_triggers 0 22 sl = xs @ (if bit sl 30 then [T_TRIG_TRIGGER] else [])"
proof
  show "T_TRIG_TRIGGER \<notin> set (filter (\<lambda>j. bit sl (22 + j)) [0..<8])"
    by (simp add: T_TRIG_TRIGGER_def)
  have "[0..<9] = [0..<8] @ [8]" by (simp add: upt_rec)
  then show "irq_triggers 0 22 sl = filter (\<lambda>j. bit sl (22 + j)) [0..<8]
      @ (if bit sl 30 then [T_TRIG_TRIGGER] else [])"
    by (simp only: irq_triggers_spec filter_append) (simp add: T_TRIG_TRIGGER_def)
qed

definition mc_after_inc :: "u32 \<Rightarrow> kernel \<Rightarrow> kernel" where
  "mc_after_inc sl k =
     (if sl AND SELF_INC_TRIGGER \<noteq> 0
      then libera_mc_selfinc_specific (k\<lparr>event := (event k)\<lparr>mc_time := mc_time (event k) + 0x4000000\<rparr>\<rparr>)
      else k)"

lemma evgen_write_simps [simp]:
  "event (evgen_write o26 k) = event k" "cfg (evgen_write o26 k) = cfg k"
  "lgbl_d (evgen_write o26 k) = lgbl_d k" "lgbl_dfa (evgen_write o26 k) = lgbl_dfa k"
  "irqMask (evgen_write o26 k) = irqMask k"
  by (simp_all add: evgen_write_def)

lemma selfinc_simps [simp]:
  "event (libera_mc_selfinc_specific k) = event k" "cfg (libera_mc_selfinc_specific k) = cfg k"
  "lgbl_d (libera_mc_selfinc_specific k) = lgbl_d k"
  "lgbl_dfa (libera_mc_selfinc_specific k) = lgbl_dfa k"
  by (simp_all add: libera_mc_selfinc_specific_def Let_def)

lemma mc_after_inc_simps:
  "paired_timestamps (event (mc_after_inc sl k)) = paired_timestamps (event k)"
  "settime (event (mc_after_inc sl k)) = settime (event k)"
  "evgen (event (mc_after_inc sl k)) = evgen (event k)"
  "mc_time (event (mc_after_inc sl k)) = mc_now sl k" "cfg (mc_after_inc sl k) = cfg k"
  "lgbl_d (mc_after_inc sl k) = lgbl_d k" "lgbl_dfa (mc_after_inc sl k) = lgbl_dfa k"
  by (simp_all add: mc_after_inc_def mc_now_def)

text \<open>
  An entry of the MC FIFO: the other triggers give some state \<open>k1\<close>, then \<open>TRIGGER\<close> is handled.
\<close>

lemma mc_entry_cases:
  obtains k1 where
    "mc_entry (sl, sh) k =
       (if bit sl 30
        then mc_trigger (full_stamp sh (mc_now sl k) + st_lmt_off (settime (event k)))
               (full_stamp sh (mc_now sl k)) T_TRIG_TRIGGER k1
        else Ret k1)"
    "trig_pairs k1 = trig_pairs k" "trigmode k1 = trigmode k"
    "settime (event k1) = settime (event k)" "evgen (event k1) = evgen (event k)"
    "mc_time (event k1) = mc_now sl k" "lgbl_d k1 = lgbl_d k" "lgbl_dfa k1 = lgbl_dfa k"
proof -
  let ?raw = "full_stamp sh (mc_now sl k)"
  let ?st = "?raw + st_lmt_off (settime (event k))"
  obtain xs where xs: "T_TRIG_TRIGGER \<notin> set xs"
    "irq_triggers 0 22 sl = xs @ (if bit sl 30 then [T_TRIG_TRIGGER] else [])"
    by (rule irq_triggers_last)
  have e: "mc_entry (sl, sh) k = mc_triggers ?st ?raw (irq_triggers 0 22 sl) (mc_after_inc sl k)"
    using mc_after_inc_simps [of sl k]
    by (simp add: mc_entry_def mc_after_inc_def [symmetric] Let_def)
  obtain k1 where k1: "mc_triggers ?st ?raw xs (mc_after_inc sl k) = Ret k1"
    "trig_pairs k1 = trig_pairs k" "trigmode k1 = trigmode k"
    "settime (event k1) = settime (event k)" "evgen (event k1) = evgen (event k)"
    "mc_time (event k1) = mc_now sl k" "lgbl_d k1 = lgbl_d k" "lgbl_dfa k1 = lgbl_dfa k"
    using mc_triggers_others [OF xs(1), of ?st ?raw "mc_after_inc sl k"]
    by (auto simp: mc_after_inc_simps)
  show thesis
    by (rule that [OF _ k1(2-8)])
       (cases "mc_trigger ?st ?raw T_TRIG_TRIGGER k1"; simp add: e xs(2) mc_triggers_append k1(1))
qed

text \<open>In the \<open>GET\<close> mode an entry always returns.\<close>

lemma mc_entry_get:
  assumes "trigmode k = LIBERA_TRIGMODE_GET"
  obtains k' where "mc_entry (sl, sh) k = Ret k'"
    "trig_pairs k' = (if bit sl 30
       then putLMTtoCircBuf (trig_pairs k)
              (full_stamp sh (mc_now sl k) + st_lmt_off (settime (event k)))
       else trig_pairs k)"
    "trigmode k' = LIBERA_TRIGMODE_GET" "settime (event k') = settime (event k)"
    "mc_time (event k') = mc_now sl k"
proof -
  obtain k1 where k1:
    "mc_entry (sl, sh) k =
       (if bit sl 30
        then mc_trigger (full_stamp sh (mc_now sl k) + st_lmt_off (settime (event k)))
               (full_stamp sh (mc_now sl k)) T_TRIG_TRIGGER k1
        else Ret k1)"
    "trig_pairs k1 = trig_pairs k" "trigmode k1 = trigmode k"
    "settime (event k1) = settime (event k)" "mc_time (event k1) = mc_now sl k"
    by (rule mc_entry_cases [of sl sh k])
  have m: "trigmode k1 = LIBERA_TRIGMODE_GET" using assms k1 by simp
  show thesis
  proof (rule that)
    let ?st = "full_stamp sh (mc_now sl k) + st_lmt_off (settime (event k))"
    let ?k = "if bit sl 30
        then fst (libera_send_event LIBERA_EVENT_TRIGGET 0
               (upd_paired T_TRIG_TRIGGER (putLMTtoCircBuf (trig_pairs k1) ?st) k1))
        else k1"
    show "mc_entry (sl, sh) k = Ret ?k"
      using m by (simp add: k1(1) mc_trigger_def libera_valid_trigger_def
          LIBERA_TRIGMODE_GET_def LIBERA_TRIGMODE_SET_def Let_def)
    show "trig_pairs ?k = (if bit sl 30 then putLMTtoCircBuf (trig_pairs k) ?st else trig_pairs k)"
      "trigmode ?k = LIBERA_TRIGMODE_GET" "settime (event ?k) = settime (event k)"
      "mc_time (event ?k) = mc_now sl k"
      using k1 m by simp_all
  qed
qed

text \<open>One pass with SC and MC pending and nothing else.\<close>

lemma interrupt_sc_mc:
  assumes "ip_vec p AND irqMask k = LIBERA_INTERRUPT_SC_MASK OR LIBERA_INTERRUPT_MC_MASK"
  shows "libera_interrupt n n [p] k =
    call_bind (libera_mc_handler (ip_mc p) (libera_sc_handler (ip_sc p) k)) (\<lambda>k. Ret (k, IRQ_HANDLED))"
  using assms
  by (cases "libera_mc_handler (ip_mc p) (libera_sc_handler (ip_sc p) k)")
     (simp_all add: libera_interrupt_def irq_pass_step_def Let_def LIBERA_INTERRUPT_SC_MASK_def
       LIBERA_INTERRUPT_MC_MASK_def LIBERA_INTERRUPT_ILK_MASK_def LIBERA_INTERRUPT_HELPSC_MASK_def
       LIBERA_INTERRUPT_HELPMC_MASK_def LIBERA_INTERRUPT_DD_MASK_def LIBERA_INTERRUPT_SA_MASK_def)

abbreviation sc_mc_pass :: "(u32 \<times> u32) list \<Rightarrow> (u32 \<times> u32) list \<Rightarrow> irq_pass" where
  "sc_mc_pass scs mcs \<equiv> \<lparr>ip_vec = LIBERA_INTERRUPT_SC_MASK OR LIBERA_INTERRUPT_MC_MASK, ip_ilk = 0,
     ip_sc = scs, ip_mc = mcs, ip_help = 0, ip_sa_inovr = False, ip_sa = []\<rparr>"

lemma trigger_word:
  "T_FIFO_SIZE 0x40000001 \<noteq> 0" "bit (0x40000001 :: u32) 30" "0x40000001 AND SELF_INC_TRIGGER = 0"
  by code_simp+

text \<open>A kernel with the interrupts of the clocks enabled, for the witnesses.\<close>

abbreviation clock_kernel :: kernel where
  "clock_kernel \<equiv> boot_kernel\<lparr>irqMask := LIBERA_INTERRUPT_SC_MASK OR LIBERA_INTERRUPT_MC_MASK\<rparr>"

lemma clock_kernel_simps:
  "trigmode clock_kernel = LIBERA_TRIGMODE_GET" "circbuf_ok (trig_pairs clock_kernel)"
  "ip_vec (sc_mc_pass scs mcs) AND irqMask clock_kernel
     = LIBERA_INTERRUPT_SC_MASK OR LIBERA_INTERRUPT_MC_MASK"
  by (simp_all add: init_cfg_def init_event_def circbuf_ok_def)

text \<open>C33.
  When both clocks report an external trigger in one run of the interrupt handler and the time is
  not being set, the newest entry of the table of trigger times is the pair of the two stamps of
  that trigger, each the counter of its clock (the 38 bits of the driver above the 26 of the FPGA)
  plus the offset of that clock, whatever other triggers the two status words report.
\<close>

theorem trigger_pair:
  assumes "ip_vec p AND irqMask k = LIBERA_INTERRUPT_SC_MASK OR LIBERA_INTERRUPT_MC_MASK"
    and "ip_sc p = [(sl, sh)]" "T_FIFO_SIZE sl \<noteq> 0" "bit sl 30"
    and "ip_mc p = [(ml, mh)]" "T_FIFO_SIZE ml \<noteq> 0" "bit ml 30"
    and "trigmode k = LIBERA_TRIGMODE_GET" "circbuf_ok (trig_pairs k)"
  shows "\<exists>k'. libera_interrupt n n [p] k = Ret (k', IRQ_HANDLED) \<and> circbuf_ok (trig_pairs k') \<and>
    getFromCircBuf (trig_pairs k') =
      \<lparr>lst = full_stamp sh (sc_now sl k) + st_lst_off (settime (event k)),
       lmt = full_stamp mh (mc_now ml k) + st_lmt_off (settime (event k))\<rparr>"
proof -
  let ?k = "sc_entry (sl, sh) k"
  have g: "trigmode ?k = LIBERA_TRIGMODE_GET" using assms by (simp add: sc_entry_facts)
  have now: "mc_now ml ?k = mc_now ml k" by (simp add: mc_now_def sc_entry_facts)
  obtain k' where k': "mc_entry (ml, mh) ?k = Ret k'"
    "trig_pairs k' = (if bit ml 30
       then putLMTtoCircBuf (trig_pairs ?k)
              (full_stamp mh (mc_now ml ?k) + st_lmt_off (settime (event ?k)))
       else trig_pairs ?k)"
    by (rule mc_entry_get [OF g])
  have "libera_interrupt n n [p] k = Ret (k', IRQ_HANDLED)"
    unfolding interrupt_sc_mc [OF assms(1)] using assms by (simp add: k'(1))
  moreover have "trig_pairs k' = putToCircBuf (trig_pairs k)
      \<lparr>lst = full_stamp sh (sc_now sl k) + st_lst_off (settime (event k)),
       lmt = full_stamp mh (mc_now ml k) + st_lmt_off (settime (event k))\<rparr>"
    using assms now
    by (simp add: k'(2) sc_entry_facts putLMT_putLST LIBERA_TRIGMODE_GET_def LIBERA_TRIGMODE_SET_def)
  ultimately show ?thesis
    using assms by (simp add: getFromCircBuf_putTo circbuf_ok_putTo)
qed

theorem trigger_pair_witness:
  "\<exists>k'. libera_interrupt 0 0 [sc_mc_pass [(0x40000001, 5)] [(0x40000001, 7)]] clock_kernel = Ret (k', IRQ_HANDLED) \<and>
     circbuf_ok (trig_pairs k') \<and>
     getFromCircBuf (trig_pairs k') =
       \<lparr>lst = full_stamp 5 (sc_now 0x40000001 clock_kernel) + st_lst_off (settime (event clock_kernel)),
        lmt = full_stamp 7 (mc_now 0x40000001 clock_kernel) + st_lmt_off (settime (event clock_kernel))\<rparr>"
  by (rule trigger_pair [OF clock_kernel_simps(3)])
     (simp_all only: trigger_word clock_kernel_simps irq_pass.simps simp_thms)

text \<open>C34.
  The handlers pair one trigger a run only. When two triggers wait in both timestamp FIFOs, the
  run of the SC handler stores both system times in the same slot, so the older pair gets the
  system time of the newer trigger, and the newest pair, which readers are given, holds whatever
  system time the slot held before, beside the machine time of the newer trigger.
\<close>

theorem trigger_burst_mispaired:
  assumes "ip_vec p AND irqMask k = LIBERA_INTERRUPT_SC_MASK OR LIBERA_INTERRUPT_MC_MASK"
    and "ip_sc p = [(sl, sh), (sl, sh')]" "T_FIFO_SIZE sl \<noteq> 0" "bit sl 30" "sl AND SELF_INC_TRIGGER = 0"
    and "ip_mc p = [(ml, mh), (ml, mh')]" "T_FIFO_SIZE ml \<noteq> 0" "bit ml 30" "ml AND SELF_INC_TRIGGER = 0"
    and "trigmode k = LIBERA_TRIGMODE_GET" "circbuf_ok (trig_pairs k)"
  shows "\<exists>k'. libera_interrupt n n [p] k = Ret (k', IRQ_HANDLED) \<and>
    cstamp (trig_pairs k') (unat (cput (trig_pairs k))) =
      \<lparr>lst = full_stamp sh' (sc_time (event k)) + st_lst_off (settime (event k)),
       lmt = full_stamp mh (mc_time (event k)) + st_lmt_off (settime (event k))\<rparr> \<and>
    getFromCircBuf (trig_pairs k') =
      \<lparr>lst = lst (cstamp (trig_pairs k) (unat ((cput (trig_pairs k) + 1) AND mask TRIG_LOG_BITS))),
       lmt = full_stamp mh' (mc_time (event k)) + st_lmt_off (settime (event k))\<rparr>"
proof -
  let ?k = "sc_entry (sl, sh') (sc_entry (sl, sh) k)" and ?set = "settime (event k)"
  let ?t = "full_stamp sh' (sc_time (event k)) + st_lst_off ?set"
  let ?m = "\<lambda>h. full_stamp h (mc_time (event k)) + st_lmt_off ?set"
  have q: "trig_pairs ?k = putLSTtoCircBuf (trig_pairs k) ?t"
    using assms
    by (simp add: sc_entry_facts sc_now_def LIBERA_TRIGMODE_GET_def LIBERA_TRIGMODE_SET_def)
  have g: "trigmode ?k = LIBERA_TRIGMODE_GET" using assms by (simp add: sc_entry_facts)
  obtain k1 where k1: "mc_entry (ml, mh) ?k = Ret k1"
    "trig_pairs k1 = (if bit ml 30
       then putLMTtoCircBuf (trig_pairs ?k)
              (full_stamp mh (mc_now ml ?k) + st_lmt_off (settime (event ?k)))
       else trig_pairs ?k)"
    "trigmode k1 = LIBERA_TRIGMODE_GET" "settime (event k1) = settime (event ?k)"
    "mc_time (event k1) = mc_now ml ?k"
    by (rule mc_entry_get [OF g])
  obtain k2 where k2: "mc_entry (ml, mh') k1 = Ret k2"
    "trig_pairs k2 = (if bit ml 30
       then putLMTtoCircBuf (trig_pairs k1)
              (full_stamp mh' (mc_now ml k1) + st_lmt_off (settime (event k1)))
       else trig_pairs k1)"
    by (rule mc_entry_get [OF k1(3)])
  have "libera_interrupt n n [p] k = Ret (k2, IRQ_HANDLED)"
    unfolding interrupt_sc_mc [OF assms(1)] using assms by (simp add: k1(1) k2(1))
  moreover have "trig_pairs k2 =
      putLMTtoCircBuf (putToCircBuf (trig_pairs k) \<lparr>lst = ?t, lmt = ?m mh\<rparr>) (?m mh')"
    unfolding k2(2) k1(2,4,5) q using assms
    by (simp add: k1(4,5) mc_now_def sc_entry_facts(3,5) putLMT_putLST [symmetric])
  ultimately show ?thesis
    using circbuf_burst [OF assms(11), of "\<lparr>lst = ?t, lmt = ?m mh\<rparr>" "?m mh'"] by simp
qed

theorem trigger_burst_mispaired_witness:
  "\<exists>k'. libera_interrupt 0 0 [sc_mc_pass [(0x40000001, 5), (0x40000001, 6)]
                            [(0x40000001, 7), (0x40000001, 8)]] clock_kernel = Ret (k', IRQ_HANDLED) \<and>
    cstamp (trig_pairs k') (unat (cput (trig_pairs clock_kernel))) =
      \<lparr>lst = full_stamp 6 (sc_time (event clock_kernel)) + st_lst_off (settime (event clock_kernel)),
       lmt = full_stamp 7 (mc_time (event clock_kernel)) + st_lmt_off (settime (event clock_kernel))\<rparr> \<and>
    getFromCircBuf (trig_pairs k') =
      \<lparr>lst = lst (cstamp (trig_pairs clock_kernel)
               (unat ((cput (trig_pairs clock_kernel) + 1) AND mask TRIG_LOG_BITS))),
       lmt = full_stamp 8 (mc_time (event clock_kernel)) + st_lmt_off (settime (event clock_kernel))\<rparr>"
  by (rule trigger_burst_mispaired [where sl = "0x40000001" and ml = "0x40000001", OF clock_kernel_simps(3)])
     (simp_all only: trigger_word clock_kernel_simps irq_pass.simps simp_thms)

section \<open>Setting the time\<close>

definition mt_period :: "kernel \<Rightarrow> u32" where
  "mt_period k = lgbl_d k * lgbl_dfa k"

lemma mod_u32: "a mod ucast (p :: u32) = (ucast (ucast (a mod ucast p) :: u32) :: u64)" if "p \<noteq> 0"
proof -
  have "0 < unat p" using that by (simp add: unat_gt_0)
  then have "unat (a mod ucast p) < unat p" by (simp add: unat_mod)
  then have "unat (a mod ucast p) < 2 ^ 32"
    by (rule order_less_trans) (rule order_less_le_trans [OF unsigned_less], simp)
  then show ?thesis
    by (simp only: word_unat_eq_iff unat_ucast_u32) (simp add: unsigned_ucast_eq take_bit_nat_eq_self)
qed

lemma sub_mod_multiple:
  "unat (a - a mod ucast (p :: u32) :: u64) mod unat p = 0"
proof -
  have "unat (a - a mod ucast p) = unat a - unat a mod unat p"
    by (simp only: unat_sub word_le_nat_alt unat_mod unat_ucast_u32 mod_less_eq_dividend)
  then show ?thesis by (simp only: minus_mod_eq_mult_div mod_mult_self1_is_0)
qed

lemma set_LST_facts:
  "st_lst_off (settime (event (libera_set_LST k))) + lst (getFromCircBuf (trig_pairs k))
     = st_lst_ref (settime (event k)) - st_lst_scphi (settime (event k))"
  "trig_pairs (libera_set_LST k) = trig_pairs k"
  "st_update (settime (event (libera_set_LST k))) = st_update (settime (event k))"
  "st_lmt_ref (settime (event (libera_set_LST k))) = st_lmt_ref (settime (event k))"
  "st_lmt_mcphi (settime (event (libera_set_LST k))) = st_lmt_mcphi (settime (event k))"
  "st_lmt_off_pll (settime (event (libera_set_LST k))) = st_lmt_off_pll (settime (event k))"
  "lgbl_d (libera_set_LST k) = lgbl_d k" "lgbl_dfa (libera_set_LST k) = lgbl_dfa k"
  "cfg (libera_set_LST k) = cfg k"
  by (simp_all add: libera_set_LST_def Let_def)

lemma set_LMT_facts:
  assumes "lgbl_dfa k \<noteq> 0 \<longrightarrow> mt_period k \<noteq> 0"
  obtains k' where "libera_set_LMT k = Ret k'"
    "st_lmt_off (settime (event k')) + st_lmt_off_pll (settime (event k'))
       + lmt (getFromCircBuf (trig_pairs k))
     = st_lmt_ref (settime (event k)) - st_lmt_mcphi (settime (event k))
       + st_lmt_off_pll (settime (event k))"
    "lgbl_dfa k \<noteq> 0 \<longrightarrow> unat (st_lmt_off (settime (event k'))) mod unat (mt_period k) = 0"
    "trig_pairs k' = trig_pairs k" "cfg k' = cfg k"
    "st_lst_off (settime (event k')) = st_lst_off (settime (event k))"
proof -
  let ?s = "settime (event k)" and ?t = "lmt (getFromCircBuf (trig_pairs k))"
  define all where "all = st_lmt_ref ?s - st_lmt_mcphi ?s - ?t + st_lmt_off_pll ?s"
  define rem where "rem = (if lgbl_dfa k \<noteq> 0 then all mod ucast (mt_period k) else 0)"
  have pll: "(if lgbl_dfa k \<noteq> 0 then
      (case div_u64_rem all (lgbl_d k * lgbl_dfa k) of None \<Rightarrow> Fault | Some (_, rem) \<Rightarrow> Ret (ucast rem))
      else Ret (0 :: u64)) = Ret rem"
  proof (cases "lgbl_dfa k = 0")
    case False
    then have p: "lgbl_d k * lgbl_dfa k \<noteq> 0" using assms by (simp add: mt_period_def)
    show ?thesis using False p mod_u32 [OF p, of all]
      by (simp only: mt_period_def rem_def div_u64_rem_def if_False option.case prod.case if_True not_False_eq_True)
  qed (simp add: rem_def)
  obtain k' where k': "libera_set_LMT k = Ret k'"
    "settime (event k') = ?s\<lparr>st_lmt_off_all := all, st_lmt_off_pll := rem, st_lmt_off := all - rem\<rparr>"
    "trig_pairs k' = trig_pairs k" "cfg k' = cfg k"
    unfolding libera_set_LMT_def Let_def all_def [symmetric] pll call_bind_simps
    by (auto simp: reg_write_def)
  show thesis
    using assms sub_mod_multiple [of all "mt_period k"]
    by (intro that [OF k'(1) _ _ k'(3,4)]) (auto simp: k'(2) all_def rem_def)
qed

text \<open>C34.
  Setting the time: in the \<open>SET\<close> mode a trigger reported by both clocks fixes the offsets. The
  offset of the system clock takes the raw stamp of that trigger to the reference time less its
  phase; the two offsets of the machine clock together take the raw machine stamp to the
  reference (less its phase, plus the part the PLL already had), and the driver's share is a
  multiple of the period of the machine-time counter, so the phase of the clock is kept. The
  request is then clear and the mode is \<open>GET\<close> again.
\<close>

theorem set_time_on_trigger:
  assumes "ip_vec p AND irqMask k = LIBERA_INTERRUPT_SC_MASK OR LIBERA_INTERRUPT_MC_MASK"
    and "ip_sc p = [(sl, sh)]" "T_FIFO_SIZE sl \<noteq> 0" "bit sl 30"
    and "ip_mc p = [(ml, mh)]" "T_FIFO_SIZE ml \<noteq> 0" "bit ml 30"
    and "trigmode k = LIBERA_TRIGMODE_SET" "circbuf_ok (trig_pairs k)"
    and "st_update (settime (event k)) = LIBERA_SETTIME_ST OR LIBERA_SETTIME_MT"
    and "lgbl_dfa k = 0 \<or> mt_period k \<noteq> 0"
  shows "\<exists>k'. libera_interrupt n n [p] k = Ret (k', IRQ_HANDLED) \<and> trigmode k' = LIBERA_TRIGMODE_GET \<and>
    st_update (settime (event k')) = 0 \<and>
    full_stamp sh (sc_now sl k) + st_lst_off (settime (event k'))
      = st_lst_ref (settime (event k)) - st_lst_scphi (settime (event k)) \<and>
    full_stamp mh (mc_now ml k) + st_lmt_off (settime (event k')) + st_lmt_off_pll (settime (event k'))
      = st_lmt_ref (settime (event k)) - st_lmt_mcphi (settime (event k))
        + st_lmt_off_pll (settime (event k)) \<and>
    (lgbl_dfa k = 0 \<or> unat (st_lmt_off (settime (event k'))) mod unat (mt_period k) = 0)"
proof -
  let ?k = "sc_entry (sl, sh) k" and ?S = "full_stamp sh (sc_now sl k)" and ?M = "full_stamp mh (mc_now ml k)"
  have now: "mc_now ml ?k = mc_now ml k" by (simp add: mc_now_def sc_entry_facts)
  obtain k1 where k1: "mc_entry (ml, mh) ?k =
      (if bit ml 30
       then mc_trigger (full_stamp mh (mc_now ml ?k) + st_lmt_off (settime (event ?k)))
              (full_stamp mh (mc_now ml ?k)) T_TRIG_TRIGGER k1
       else Ret k1)"
    "trig_pairs k1 = trig_pairs ?k" "trigmode k1 = trigmode ?k"
    "settime (event k1) = settime (event ?k)" "lgbl_d k1 = lgbl_d ?k" "lgbl_dfa k1 = lgbl_dfa ?k"
    by (rule mc_entry_cases [of ml mh ?k])
  let ?k2 = "upd_paired T_TRIG_TRIGGER (putLMTtoCircBuf (trig_pairs k1) ?M) k1"
  have pair: "getFromCircBuf (trig_pairs ?k2) = \<lparr>lst = ?S, lmt = ?M\<rparr>"
    using assms(4,8,9) by (simp add: k1(2) sc_entry_facts putLMT_putLST getFromCircBuf_putTo)
  let ?k3 = "libera_set_LST ?k2"
  have f: "settime (event ?k2) = settime (event k)" "mt_period ?k3 = mt_period k" "lgbl_dfa ?k3 = lgbl_dfa k"
    by (simp_all add: k1 mt_period_def set_LST_facts sc_entry_facts)
  have "lgbl_dfa ?k3 \<noteq> 0 \<longrightarrow> mt_period ?k3 \<noteq> 0" using assms(11) f by auto
  then obtain k4 where k4: "libera_set_LMT ?k3 = Ret k4"
    "st_lmt_off (settime (event k4)) + st_lmt_off_pll (settime (event k4))
       + lmt (getFromCircBuf (trig_pairs ?k3))
     = st_lmt_ref (settime (event ?k3)) - st_lmt_mcphi (settime (event ?k3))
       + st_lmt_off_pll (settime (event ?k3))"
    "lgbl_dfa ?k3 \<noteq> 0 \<longrightarrow> unat (st_lmt_off (settime (event k4))) mod unat (mt_period ?k3) = 0"
    "st_lst_off (settime (event k4)) = st_lst_off (settime (event ?k3))"
    by (rule set_LMT_facts)
  let ?k5 = "k4\<lparr>event := (event k4)\<lparr>settime := (settime (event k4))\<lparr>st_update := 0\<rparr>\<rparr>\<rparr>"
  have upd: "(LIBERA_SETTIME_ST OR LIBERA_SETTIME_MT) AND LIBERA_SETTIME_ST \<noteq> 0"
    "(LIBERA_SETTIME_ST OR LIBERA_SETTIME_MT) AND LIBERA_SETTIME_MT \<noteq> 0"
    by (simp_all add: LIBERA_SETTIME_ST_def LIBERA_SETTIME_MT_def)
  have st: "libera_set_time ?k2 = Ret ?k5"
    using assms(10) upd by (simp add: libera_set_time_def f(1) k4(1) Let_def del: upd_paired_simps)
  let ?k' = "fst (libera_send_event LIBERA_EVENT_TRIGSET 0
               (set_cfg_param LIBERA_CFG_TRIGMODE LIBERA_TRIGMODE_GET ?k5))"
  have e: "mc_entry (ml, mh) ?k = Ret ?k'"
    unfolding k1(1) now mc_trigger_def using assms(7,8) st k1(3) by (simp add: Let_def sc_entry_facts)
  have "libera_interrupt n n [p] k = Ret (?k', IRQ_HANDLED)"
    unfolding interrupt_sc_mc [OF assms(1)] using assms e by simp
  moreover have "st_lst_off (settime (event k4)) + ?S
      = st_lst_ref (settime (event k)) - st_lst_scphi (settime (event k))"
    using set_LST_facts(1) [of ?k2] pair by (simp only: k4(4) f(1) libera_Ltimestamp_t.simps)
  moreover have "st_lmt_off (settime (event k4)) + st_lmt_off_pll (settime (event k4)) + ?M
      = st_lmt_ref (settime (event k)) - st_lmt_mcphi (settime (event k))
        + st_lmt_off_pll (settime (event k))"
    using k4(2) pair f(1) by (simp only: set_LST_facts libera_Ltimestamp_t.simps)
  ultimately show ?thesis
    using k4(3) f(2,3) by (intro exI [of _ ?k']) (auto simp: set_cfg_param_def algebra_simps)
qed

theorem set_time_on_trigger_witness:
  "let k = clock_kernel\<lparr>cfg := (cfg clock_kernel)\<lparr>cfg_param := (\<lambda>_. LIBERA_TRIGMODE_SET)\<rparr>,
         event := (event clock_kernel)\<lparr>settime := init_settime\<lparr>st_update := LIBERA_SETTIME_ST OR LIBERA_SETTIME_MT\<rparr>\<rparr>\<rparr>
   in \<exists>k'. libera_interrupt 0 0 [sc_mc_pass [(0x40000001, 5)] [(0x40000001, 7)]] k = Ret (k', IRQ_HANDLED) \<and>
     trigmode k' = LIBERA_TRIGMODE_GET"
proof -
  let ?k = "clock_kernel\<lparr>cfg := (cfg clock_kernel)\<lparr>cfg_param := (\<lambda>_. LIBERA_TRIGMODE_SET)\<rparr>,
         event := (event clock_kernel)\<lparr>settime := init_settime\<lparr>st_update := LIBERA_SETTIME_ST OR LIBERA_SETTIME_MT\<rparr>\<rparr>\<rparr>"
  have "ip_vec (sc_mc_pass [(0x40000001, 5)] [(0x40000001, 7)]) AND irqMask ?k
      = LIBERA_INTERRUPT_SC_MASK OR LIBERA_INTERRUPT_MC_MASK" by simp
  moreover have "trigmode ?k = LIBERA_TRIGMODE_SET" "circbuf_ok (trig_pairs ?k)"
    "st_update (settime (event ?k)) = LIBERA_SETTIME_ST OR LIBERA_SETTIME_MT"
    "lgbl_dfa ?k = 0 \<or> mt_period ?k \<noteq> 0"
    by (simp_all add: init_event_def circbuf_ok_def)
  ultimately show ?thesis
    using set_time_on_trigger [of "sc_mc_pass [(0x40000001, 5)] [(0x40000001, 7)]" ?k
        "0x40000001" 5 "0x40000001" 7] trigger_word
    by (simp only: irq_pass.simps Let_def simp_thms) blast
qed

section \<open>Scheduling an event of the machine clock\<close>

text \<open>
  A period of the machine counter: the carry of its 26 bits arrives in the MC FIFO, the helper
  interrupt comes in the middle of the period.
\<close>

definition mc_period :: "kernel \<Rightarrow> kernel call" where
  "mc_period k = call_bind (libera_mc_handler [(SELF_INC_TRIGGER OR 1, 0)] k)
     (\<lambda>k. Ret (libera_scmchelp_handler (push_bit 8 1) k))"

fun mc_periods :: "nat \<Rightarrow> kernel \<Rightarrow> kernel call" where
  "mc_periods 0 k = Ret k"
| "mc_periods (Suc n) k = call_bind (mc_periods n k) mc_period"

definition evgen_writes :: "u32 \<Rightarrow> nat \<Rightarrow> reg_trace" where
  "evgen_writes ev off = [(T_MC_EVENTGENL, ev), (T_MC_EVENTGENH, of_nat off)]"

lemma evgen_write_trace:
  assumes "unat off < 2 ^ 26"
  shows "evgen_write off k = k\<lparr>trace := trace k @ evgen_writes (eg_event (evgen (event k))) (unat off)\<rparr>"
proof -
  have m: "(0xFFFFFFFF :: u64) = mask 32" by (simp add: mask_eq_exp_minus_1)
  have "off < 2 ^ 32" using assms by (simp add: word_less_nat_alt)
  then have "off AND 0xFFFFFFFF = off" unfolding m by (rule and_mask_id) simp
  moreover have "(ucast off :: u32) = of_nat (unat off)" by simp
  ultimately show ?thesis
    by (simp add: evgen_write_def evgen_writes_def reg_write_def writel_def)
qed

lemma selfinc_schedules:
  assumes "unat (mc_time (event k)) + 2 ^ 26 < 2 ^ 64"
  shows "libera_mc_selfinc_specific k =
    (let t = unat (eg_time (evgen (event k))); m = unat (mc_time (event k)) in
     if m + 2 ^ 25 \<le> t \<and> t < m + 2 ^ 26
     then k\<lparr>trace := trace k @ evgen_writes (eg_event (evgen (event k))) (t - m)\<rparr> else k)"
proof -
  let ?t = "eg_time (evgen (event k))" and ?m = "mc_time (event k)"
  have c: "?m \<le> ?t \<longleftrightarrow> unat ?m \<le> unat ?t" "?t < ?m + 0x4000000 \<longleftrightarrow> unat ?t < unat ?m + 2 ^ 26"
    using assms by (simp_all add: word_le_nat_alt word_less_nat_alt unat_add_exact)
  have d: "unat (?t - ?m) = unat ?t - unat ?m" if "unat ?m \<le> unat ?t"
    using that by (simp add: unat_sub word_le_nat_alt)
  show ?thesis
    by (auto simp: libera_mc_selfinc_specific_def Let_def c word_le_nat_alt d evgen_write_trace)
qed

lemma help_schedules:
  assumes "unat (mc_time (event k)) + 2 ^ 27 < 2 ^ 64"
  shows "libera_scmchelp_handler (push_bit 8 1) k =
    (let t = unat (eg_time (evgen (event k))); m = unat (mc_time (event k)) in
     if m + 2 ^ 26 \<le> t \<and> t < m + 2 ^ 26 + 2 ^ 25
     then k\<lparr>trace := trace k @ evgen_writes (eg_event (evgen (event k))) (t - m - 2 ^ 26)\<rparr> else k)"
proof -
  let ?t = "eg_time (evgen (event k))" and ?m = "mc_time (event k)"
  have a: "unat (?m + 0x4000000) = unat ?m + 2 ^ 26" "unat (?m + 0x8000000) = unat ?m + 2 ^ 27"
    using assms by (simp_all add: unat_add_exact)
  have c: "?m + 0x4000000 \<le> ?t \<longleftrightarrow> unat ?m + 2 ^ 26 \<le> unat ?t" "?t < ?m + 0x8000000 \<longleftrightarrow> unat ?t < unat ?m + 2 ^ 27"
    by (simp_all only: word_le_nat_alt word_less_nat_alt a)
  have d: "unat (?t - (?m + 0x4000000)) = unat ?t - unat ?m - 2 ^ 26" if "unat ?m + 2 ^ 26 \<le> unat ?t"
    using that by (simp only: unat_sub word_le_nat_alt a)
  have h: "libera_scmchelp_handler (push_bit 8 1) k = libera_mchelp_handler_specific k"
    by (simp add: libera_scmchelp_handler_def libera_mchelp_handler_def)
  show ?thesis
    unfolding h
    by (auto simp: libera_mchelp_handler_specific_def Let_def c word_less_nat_alt a d evgen_write_trace)
qed

lemma mc_period_step:
  assumes "unat (mc_time (event k)) + 3 * 2 ^ 26 < 2 ^ 64"
  shows "mc_period k =
    (let t = unat (eg_time (evgen (event k))); m = unat (mc_time (event k)) + 2 ^ 26;
         k' = k\<lparr>event := (event k)\<lparr>mc_time := mc_time (event k) + 0x4000000\<rparr>\<rparr> in
     Ret (if m + 2 ^ 25 \<le> t \<and> t < m + 2 ^ 26 + 2 ^ 25
          then k'\<lparr>trace := trace k @ evgen_writes (eg_event (evgen (event k)))
                 (if t < m + 2 ^ 26 then t - m else t - m - 2 ^ 26)\<rparr>
          else k'))"
proof -
  let ?k = "k\<lparr>event := (event k)\<lparr>mc_time := mc_time (event k) + 0x4000000\<rparr>\<rparr>"
  have m: "unat (mc_time (event k) + 0x4000000) = unat (mc_time (event k)) + 2 ^ 26"
    using assms by (simp add: unat_add_exact)
  have w: "T_FIFO_SIZE (SELF_INC_TRIGGER OR 1) \<noteq> 0" "(SELF_INC_TRIGGER OR 1) AND SELF_INC_TRIGGER \<noteq> 0"
    "(SELF_INC_TRIGGER OR 1) AND TRIG_ALL_MASK = 0"
    by code_simp+
  have e: "libera_mc_handler [(SELF_INC_TRIGGER OR 1, 0)] k = Ret (libera_mc_selfinc_specific ?k)"
    using w by (simp add: mc_entry_def irq_triggers.simps Let_def)
  define t where "t = unat (eg_time (evgen (event k)))"
  define n where "n = unat (mc_time (event k)) + 2 ^ 26"
  define ev where "ev = eg_event (evgen (event k))"
  let ?k1 = "libera_mc_selfinc_specific ?k"
  have s: "?k1 = (if n + 2 ^ 25 \<le> t \<and> t < n + 2 ^ 26 then ?k\<lparr>trace := trace k @ evgen_writes ev (t - n)\<rparr> else ?k)"
    using assms by (subst selfinc_schedules) (simp_all add: m Let_def t_def n_def ev_def)
  have h: "libera_scmchelp_handler (push_bit 8 1) ?k1 =
      (if n + 2 ^ 26 \<le> t \<and> t < n + 2 ^ 26 + 2 ^ 25
       then ?k1\<lparr>trace := trace ?k1 @ evgen_writes ev (t - n - 2 ^ 26)\<rparr> else ?k1)"
    using assms by (subst help_schedules) (simp_all add: m Let_def t_def n_def ev_def)
  have "mc_period k = Ret (if n + 2 ^ 26 \<le> t \<and> t < n + 2 ^ 26 + 2 ^ 25
       then ?k1\<lparr>trace := trace ?k1 @ evgen_writes ev (t - n - 2 ^ 26)\<rparr> else ?k1)"
    unfolding mc_period_def e call_bind_simps h ..
  also have "\<dots> = Ret (if n + 2 ^ 25 \<le> t \<and> t < n + 2 ^ 26 + 2 ^ 25
       then ?k\<lparr>trace := trace k @ evgen_writes ev (if t < n + 2 ^ 26 then t - n else t - n - 2 ^ 26)\<rparr> else ?k)"
    unfolding s
    by (cases "n + 2 ^ 25 \<le> t"; cases "t < n + 2 ^ 26"; cases "t < n + 2 ^ 26 + 2 ^ 25"; simp)
  finally show ?thesis by (simp only: Let_def t_def n_def ev_def)
qed

lemma period_offset:
  fixes m n t :: nat
  assumes "m + (n + 1) * 2 ^ 26 + 2 ^ 25 \<le> t" "t < m + (n + 2) * 2 ^ 26 + 2 ^ 25"
  shows "(if t < m + (n + 2) * 2 ^ 26 then t - (m + (n + 1) * 2 ^ 26)
      else t - (m + (n + 1) * 2 ^ 26) - 2 ^ 26) = (t - m) mod 2 ^ 26"
proof (cases "t < m + (n + 2) * 2 ^ 26")
  case True
  then have "t - m = (t - (m + (n + 1) * 2 ^ 26)) + (n + 1) * 2 ^ 26" "t - (m + (n + 1) * 2 ^ 26) < 2 ^ 26"
    using assms by simp_all
  then show ?thesis using True by (metis mod_mult_self1 mod_less)
next
  case False
  then have "t - m = (t - (m + (n + 2) * 2 ^ 26)) + (n + 2) * 2 ^ 26" "t - (m + (n + 2) * 2 ^ 26) < 2 ^ 26"
    using assms by simp_all
  then have "(t - m) mod 2 ^ 26 = t - (m + (n + 2) * 2 ^ 26)" by (metis mod_mult_self1 mod_less)
  then show ?thesis using False by simp
qed

text \<open>C35.
  An event of the machine clock is scheduled exactly once. Over any number of periods of the
  counter the driver writes the event generator for the event time if the time is at least a
  period and a half ahead and not beyond the periods seen, with the event bits and the offset of
  the time in its period, and it writes nothing otherwise: the carry handler takes the second half
  of each period and the helper the first half of the next.
\<close>

theorem event_scheduled_once:
  assumes "unat (mc_time (event k)) + (n + 2) * 2 ^ 26 < 2 ^ 64"
  shows "\<exists>k'. mc_periods n k = Ret k' \<and>
    mc_time (event k') = mc_time (event k) + of_nat (n * 2 ^ 26) \<and> evgen (event k') = evgen (event k) \<and>
    trace k' = trace k @
      (let t = unat (eg_time (evgen (event k))); m = unat (mc_time (event k)) in
       if m + 2 ^ 26 + 2 ^ 25 \<le> t \<and> t < m + (n + 1) * 2 ^ 26 + 2 ^ 25
       then evgen_writes (eg_event (evgen (event k))) ((t - m) mod 2 ^ 26) else [])"
  using assms
proof (induction n)
  case (Suc n)
  let ?t = "unat (eg_time (evgen (event k)))" and ?m = "unat (mc_time (event k))"
  obtain k1 where k1: "mc_periods n k = Ret k1"
    "mc_time (event k1) = mc_time (event k) + of_nat (n * 2 ^ 26)" "evgen (event k1) = evgen (event k)"
    "trace k1 = trace k @ (if ?m + 2 ^ 26 + 2 ^ 25 \<le> ?t \<and> ?t < ?m + (n + 1) * 2 ^ 26 + 2 ^ 25
       then evgen_writes (eg_event (evgen (event k))) ((?t - ?m) mod 2 ^ 26) else [])"
    using Suc by (auto simp: Let_def)
  have u: "unat (of_nat (n * 2 ^ 26) :: u64) = n * 2 ^ 26"
    using Suc.prems by (simp add: unsigned_of_nat take_bit_nat_eq_self del: of_nat_mult)
  have m1: "unat (mc_time (event k1)) = ?m + n * 2 ^ 26"
    using Suc.prems u by (simp add: k1(2) unat_add_exact del: of_nat_mult)
  let ?b = "?m + (n + 1) * 2 ^ 26 + 2 ^ 25 \<le> ?t \<and> ?t < ?m + (n + 2) * 2 ^ 26 + 2 ^ 25"
  define off where "off = (if ?t < ?m + (n + 2) * 2 ^ 26 then ?t - (?m + (n + 1) * 2 ^ 26)
      else ?t - (?m + (n + 1) * 2 ^ 26) - 2 ^ 26)"
  have "unat (mc_time (event k1)) + 3 * 2 ^ 26 < 2 ^ 64" using Suc.prems m1 by simp
  note step = mc_period_step [OF this]
  obtain k2 where k2: "mc_period k1 = Ret k2" "mc_time (event k2) = mc_time (event k1) + 0x4000000"
    "evgen (event k2) = evgen (event k1)"
    "trace k2 = trace k1 @ (if ?b then evgen_writes (eg_event (evgen (event k))) off else [])"
    unfolding step off_def by (simp add: Let_def m1 k1(3) algebra_simps)
  have offeq: "?b \<Longrightarrow> off = (?t - ?m) mod 2 ^ 26"
    unfolding off_def by (rule period_offset) blast+
  have "trace k2 = trace k1 @ (if ?b then evgen_writes (eg_event (evgen (event k))) ((?t - ?m) mod 2 ^ 26) else [])"
    by (cases ?b) (use k2(4) offeq in \<open>simp_all only: if_True if_False\<close>)
  then have tr: "trace k2 = trace k @ (if ?m + 2 ^ 26 + 2 ^ 25 \<le> ?t \<and> ?t < ?m + (n + 2) * 2 ^ 26 + 2 ^ 25
       then evgen_writes (eg_event (evgen (event k))) ((?t - ?m) mod 2 ^ 26) else [])"
    unfolding k1(4) by (cases ?b; cases "?m + 2 ^ 26 + 2 ^ 25 \<le> ?t \<and> ?t < ?m + (n + 1) * 2 ^ 26 + 2 ^ 25") auto
  have n2: "Suc n + 1 = n + 2" by simp
  have "mc_time (event k2) = mc_time (event k) + of_nat (Suc n * 2 ^ 26)"
    by (simp add: k2(2) k1(2) algebra_simps)
  moreover have "mc_periods (Suc n) k = Ret k2" by (simp add: k1(1) k2(1))
  ultimately show ?case
    unfolding Let_def n2 using tr k2(3) k1(3) by metis
qed (auto simp: Let_def)

theorem event_scheduled_once_witness:
  "\<exists>k'. mc_periods 3 boot_kernel = Ret k' \<and> trace k' = evgen_writes (eg_event (evgen init_event)) 0"
  using event_scheduled_once [of boot_kernel 3] by (simp add: init_event_def Let_def) blast

end
