(* ===== verification/Libera_Dma.thy ===== *)
theory Libera_Dma
  imports Libera_Timing
begin

text \<open>
  The DMA transfer of the data-on-demand device: the DMA FIFO (\<open>libera_event.h\<close>), the size of
  the next block, the DMA interrupt (\<open>libera_main.c\<close>), and the reader's loop of
  \<open>libera_dd_transfer_OBfifo_DMA\<close> (\<open>ebpp.c\<close>) as a machine whose steps interleave freely with the
  interrupts. The DMA controller is the command in flight and the atoms it delivers.

  The spinlocks have no state: the board has one processor and none of them disables interrupts.
\<close>

section \<open>Status word of the output buffer\<close>

definition DD_OB_SIZE :: "u32 \<Rightarrow> u32" where
  "DD_OB_SIZE status = drop_bit 0 status AND (push_bit 8 1 - 1)"

definition DD_OB_OVERRUN :: "u32 \<Rightarrow> u32" where
  "DD_OB_OVERRUN status = drop_bit 30 status AND (push_bit 1 1 - 1)"

definition LIBERA_DMA_BLOCK_ATOMS :: s32 where "LIBERA_DMA_BLOCK_ATOMS = 128"
definition LIBERA_DMA_FIFO_ATOMS :: s32 where "LIBERA_DMA_FIFO_ATOMS = 4096"
definition LIBERA_DMA_FIFO_MASK :: s32 where "LIBERA_DMA_FIFO_MASK = LIBERA_DMA_FIFO_ATOMS - 1"
definition DD_ATOM_BYTES :: u32 where "DD_ATOM_BYTES = 32"

section \<open>The DMA FIFO\<close>

text \<open>Unlike the other rings, \<open>get\<close> is the slot to read next and \<open>put\<close> the slot to write next.\<close>

definition flushDMA_FIFO :: "libera_dma_t \<Rightarrow> libera_dma_t" where
  "flushDMA_FIFO q = q\<lparr>dma_put := 0, dma_get := 0\<rparr>"

definition lenDMA_FIFO :: "libera_dma_t \<Rightarrow> s32" where
  "lenDMA_FIFO q = (dma_put q + LIBERA_DMA_FIFO_ATOMS - dma_get q) AND LIBERA_DMA_FIFO_MASK"

definition tailDMA_FIFO :: "libera_dma_t \<Rightarrow> s32" where
  "tailDMA_FIFO q = LIBERA_DMA_FIFO_ATOMS - dma_put q"

definition not_emptyDMA_FIFO :: "libera_dma_t \<Rightarrow> bool" where
  "not_emptyDMA_FIFO q = (dma_put q \<noteq> dma_get q)"

definition emptyDMA_FIFO :: "libera_dma_t \<Rightarrow> bool" where
  "emptyDMA_FIFO q = (dma_put q = dma_get q)"

definition putToDMA_FIFO :: "libera_dma_t \<Rightarrow> u32 \<Rightarrow> libera_dma_t \<times> int" where
  "putToDMA_FIFO q size_atoms =
     (let index = (dma_put q + size_atoms) AND LIBERA_DMA_FIFO_MASK in
      if index = dma_get q then (q, - 1) else (q\<lparr>dma_put := index\<rparr>, 0))"

section \<open>Size of the next block\<close>

text \<open>
  \<open>MIN\<close> compares as C does: \<open>DD_OB_SIZE\<close> is unsigned, so the two comparisons it reaches are.
\<close>

definition libera_dma_get_DMAC_csize :: "libera_dma_t \<Rightarrow> libera_dma_t" where
  "libera_dma_get_DMAC_csize q =
     (let a = (if remaining q <s LIBERA_DMA_BLOCK_ATOMS then remaining q else LIBERA_DMA_BLOCK_ATOMS);
          ob = DD_OB_SIZE (obFIFOstatus q);
          b = (if tailDMA_FIFO q < ob then tailDMA_FIFO q else ob);
          csize_temp = (if a < b then a else b);
          left = LIBERA_DMA_FIFO_ATOMS - 1 - lenDMA_FIFO q
      in q\<lparr>csize := (if left <s csize_temp then left else csize_temp)\<rparr>)"

section \<open>The machine\<close>

text \<open>Where the reader is in its loop; the waits for the output buffer count their sleeps.\<close>

datatype xfer_pc =
    X_start | X_sync nat | X_command | X_wait | X_copy nat nat | X_yield | X_restart | X_resync nat
  | X_recommand | X_cond | X_end | X_done "errno + u32"

text \<open>
  \<open>x_cmd\<close> is the command the DMA controller works on: the slot of the buffer it writes to and
  the number of bytes. \<open>x_hw\<close> logs the atoms the controller delivered, \<open>x_out\<close> those the
  reader copied out; \<open>x_OBAtoms\<close> is the variable of the loop.
\<close>

record xfer =
  x_dma :: libera_dma_t
  x_cmd :: "(nat \<times> u32) option"
  x_pc :: xfer_pc
  x_OBAtoms :: u32
  x_out :: "libera_atom_dd_t list"
  x_hw :: "libera_atom_dd_t list"

definition libera_dma_command :: "xfer \<Rightarrow> xfer" where
  "libera_dma_command x =
     x\<lparr>x_dma := (x_dma x)\<lparr>DMAC_transfer := True\<rparr>,
       x_cmd := Some (unat (dma_put (x_dma x)), csize (x_dma x) * DD_ATOM_BYTES)\<rparr>"

subsection \<open>Interrupt\<close>

text \<open>
  The controller has written its atoms from the slot of the command on; then its end interrupt
  comes, and the handler reads the status.
\<close>

fun dmac_write :: "nat \<Rightarrow> libera_atom_dd_t list \<Rightarrow> (nat \<Rightarrow> libera_atom_dd_t) \<Rightarrow> (nat \<Rightarrow> libera_atom_dd_t)" where
  "dmac_write i [] buf = buf"
| "dmac_write i (a # as) buf = dmac_write (i + 1) as (buf(i := a))"

definition dmac_done :: "libera_atom_dd_t list \<Rightarrow> xfer \<Rightarrow> xfer" where
  "dmac_done atoms x =
     (case x_cmd x of
        None \<Rightarrow> x
      | Some (slot, bytes) \<Rightarrow>
          x\<lparr>x_dma := (x_dma x)\<lparr>dma_buf := dmac_write slot atoms (dma_buf (x_dma x))\<rparr>,
            x_cmd := None, x_hw := x_hw x @ atoms\<rparr>)"

definition libera_dma_interrupt :: "bool \<Rightarrow> u32 \<Rightarrow> xfer \<Rightarrow> xfer" where
  "libera_dma_interrupt endintr status x =
     (if endintr then
        let q = (x_dma x)\<lparr>obFIFOstatus := status\<rparr>;
            q = (if DD_OB_OVERRUN status \<noteq> 0 then q\<lparr>Overrun := True\<rparr> else q);
            q = q\<lparr>remaining := remaining q - csize q\<rparr>;
            q = fst (putToDMA_FIFO q (csize q));
            q = libera_dma_get_DMAC_csize q
        in if 0 <s csize q then libera_dma_command (x\<lparr>x_dma := q\<rparr>)
           else x\<lparr>x_dma := q\<lparr>DMAC_transfer := False\<rparr>\<rparr>
      else x)"

subsection \<open>Reader\<close>

text \<open>
  What a step of the reader sees: the status register, a pending signal, \<open>dd->pm_entry\<close>, a
  failing \<open>copy_to_user\<close>, and whether it is time to yield.
\<close>

record xfer_in =
  xi_status :: u32
  xi_signal :: bool
  xi_pm_entry :: bool
  xi_copy_fails :: bool
  xi_yield :: bool

definition dma_no_data :: "libera_dma_t \<Rightarrow> bool" where
  "dma_no_data q = (remaining q \<noteq> 0 \<and> DD_OB_SIZE (obFIFOstatus q) = 0 \<and> \<not> Overrun q)"

definition dma_needs_start :: "libera_dma_t \<Rightarrow> bool" where
  "dma_needs_start q = (\<not> DMAC_transfer q \<and> remaining q \<noteq> 0)"

text \<open>
  One round of \<open>libera_OB_fifo_sync\<close>: \<open>hz\<close> is the kernel's \<open>HZ\<close>, \<open>again\<close> and \<open>ready\<close> are where the
  reader goes when it sleeps once more and when there is data.
\<close>

definition libera_OB_fifo_sync :: "nat \<Rightarrow> (nat \<Rightarrow> xfer_pc) \<Rightarrow> xfer_pc \<Rightarrow> nat \<Rightarrow> xfer_in \<Rightarrow> xfer \<Rightarrow> xfer" where
  "libera_OB_fifo_sync hz again ready wait_count i x =
     (if dma_no_data (x_dma x) then
        let q = (x_dma x)\<lparr>obFIFOstatus := xi_status i\<rparr>;
            q = (if DD_OB_OVERRUN (xi_status i) \<noteq> 0 then q\<lparr>Overrun := True\<rparr> else q)
        in x\<lparr>x_dma := q, x_pc := (if hz < wait_count then X_done (Inl EIO) else again (wait_count + 1))\<rparr>
      else x\<lparr>x_pc := ready\<rparr>)"

definition xfer_start :: "u32 \<Rightarrow> xfer_in \<Rightarrow> xfer \<Rightarrow> xfer" where
  "xfer_start atom_count i x =
     (let q = (x_dma x)\<lparr>obFIFOstatus := xi_status i, Overrun := False, DMAC_transfer := False,
             remaining := atom_count, aborting := False, written := 0\<rparr>
      in x\<lparr>x_dma := libera_dma_get_DMAC_csize (flushDMA_FIFO q), x_pc := X_sync 0, x_OBAtoms := 0\<rparr>)"

definition xfer_wait :: "xfer_in \<Rightarrow> xfer \<Rightarrow> xfer" where
  "xfer_wait i x =
     (if not_emptyDMA_FIFO (x_dma x) then
        let fifo_atoms = unat (lenDMA_FIFO (x_dma x)) in
        if fifo_atoms = 0 then x\<lparr>x_pc := X_done (Inl EFAULT)\<rparr> else x\<lparr>x_pc := X_copy 0 fifo_atoms\<rparr>
      else if \<not> xi_signal i \<and> \<not> xi_pm_entry i then x
      else x\<lparr>x_dma := (x_dma x)\<lparr>aborting := True\<rparr>, x_pc := X_done (Inl ERESTARTSYS)\<rparr>)"

text \<open>\<open>user\<close> tells a transfer to user space from one to a kernel buffer.\<close>

definition xfer_copy :: "bool \<Rightarrow> u32 \<Rightarrow> nat \<Rightarrow> nat \<Rightarrow> xfer_in \<Rightarrow> xfer \<Rightarrow> xfer" where
  "xfer_copy user atom_count n fifo_atoms i x =
     (if fifo_atoms \<le> n then x\<lparr>x_pc := X_yield\<rparr>
      else
        let q = x_dma x;
            take_it = (x_OBAtoms x < atom_count \<and> \<not> Overrun q);
            x = x\<lparr>x_OBAtoms := x_OBAtoms x + 1\<rparr>
        in if take_it \<and> user \<and> xi_copy_fails i then x\<lparr>x_pc := X_done (Inl EFAULT)\<rparr>
           else
             let x = (if take_it
                      then x\<lparr>x_out := x_out x @ [dma_buf q (unat (dma_get q))],
                             x_dma := q\<lparr>written := written q + 1\<rparr>\<rparr>
                      else x);
                 q = x_dma x
             in x\<lparr>x_dma := q\<lparr>dma_get := (dma_get q + 1) AND LIBERA_DMA_FIFO_MASK\<rparr>,
                  x_pc := X_copy (n + 1) fifo_atoms\<rparr>)"

definition xfer_yield :: "xfer_in \<Rightarrow> xfer \<Rightarrow> xfer" where
  "xfer_yield i x =
     (if xi_yield i \<and> (xi_signal i \<or> xi_pm_entry i)
      then x\<lparr>x_dma := (x_dma x)\<lparr>aborting := True\<rparr>, x_pc := X_done (Inl ERESTARTSYS)\<rparr>
      else x\<lparr>x_pc := X_restart\<rparr>)"

definition xfer_restart :: "xfer_in \<Rightarrow> xfer \<Rightarrow> xfer" where
  "xfer_restart i x =
     (if dma_needs_start (x_dma x) then
        let q = (x_dma x)\<lparr>obFIFOstatus := xi_status i\<rparr>;
            q = (if DD_OB_OVERRUN (xi_status i) \<noteq> 0 then q\<lparr>Overrun := True\<rparr> else q)
        in x\<lparr>x_dma := q, x_pc := X_resync 0\<rparr>
      else x\<lparr>x_pc := X_cond\<rparr>)"

definition xfer_recommand :: "xfer \<Rightarrow> xfer" where
  "xfer_recommand x =
     (let x = x\<lparr>x_dma := libera_dma_get_DMAC_csize (x_dma x)\<rparr>; q = x_dma x in
      if \<not> 0 <s csize q \<and> LIBERA_DMA_FIFO_ATOMS - 1 - lenDMA_FIFO q = 0 then x\<lparr>x_pc := X_cond\<rparr>
      else if \<not> Overrun q then (libera_dma_command x)\<lparr>x_pc := X_cond\<rparr>
      else x\<lparr>x_pc := X_end\<rparr>)"

definition xfer_end :: "u32 \<Rightarrow> xfer_in \<Rightarrow> xfer \<Rightarrow> xfer" where
  "xfer_end atom_count i x =
     (let q = (x_dma x)\<lparr>obFIFOstatus := xi_status i\<rparr>; x = x\<lparr>x_dma := q\<rparr> in
      if \<not> Overrun q \<and> DD_OB_SIZE (obFIFOstatus q) \<noteq> 0 then x\<lparr>x_pc := X_done (Inl EIO)\<rparr>
      else if \<not> Overrun q \<and> x_OBAtoms x \<noteq> atom_count then x\<lparr>x_pc := X_done (Inl EFAULT)\<rparr>
      else x\<lparr>x_pc := X_done (Inr (written q))\<rparr>)"

definition xfer_step :: "nat \<Rightarrow> bool \<Rightarrow> u32 \<Rightarrow> xfer_in \<Rightarrow> xfer \<Rightarrow> xfer" where
  "xfer_step hz user atom_count i x =
     (case x_pc x of
        X_start \<Rightarrow> xfer_start atom_count i x
      | X_sync n \<Rightarrow> libera_OB_fifo_sync hz X_sync X_command n i x
      | X_command \<Rightarrow>
          (libera_dma_command (x\<lparr>x_dma := libera_dma_get_DMAC_csize (x_dma x)\<rparr>))\<lparr>x_pc := X_wait\<rparr>
      | X_wait \<Rightarrow> xfer_wait i x
      | X_copy n m \<Rightarrow> xfer_copy user atom_count n m i x
      | X_yield \<Rightarrow> xfer_yield i x
      | X_restart \<Rightarrow> xfer_restart i x
      | X_resync n \<Rightarrow> libera_OB_fifo_sync hz X_resync X_recommand n i x
      | X_recommand \<Rightarrow> xfer_recommand x
      | X_cond \<Rightarrow>
          x\<lparr>x_pc := (if remaining (x_dma x) \<noteq> 0 \<or> not_emptyDMA_FIFO (x_dma x) then X_wait else X_end)\<rparr>
      | X_end \<Rightarrow> xfer_end atom_count i x
      | X_done r \<Rightarrow> x)"

subsection \<open>Runs\<close>

text \<open>
  An action is a step of the reader or the end of the command in flight; the controller raises
  its interrupt for a command only.
\<close>

datatype xfer_action = Reader xfer_in | Dmac "libera_atom_dd_t list" u32

definition xfer_act :: "nat \<Rightarrow> bool \<Rightarrow> u32 \<Rightarrow> xfer_action \<Rightarrow> xfer \<Rightarrow> xfer" where
  "xfer_act hz user atom_count a x =
     (case a of
        Reader i \<Rightarrow> xfer_step hz user atom_count i x
      | Dmac atoms status \<Rightarrow>
          if x_cmd x = None then x else libera_dma_interrupt True status (dmac_done atoms x))"

definition xfer_run :: "nat \<Rightarrow> bool \<Rightarrow> u32 \<Rightarrow> xfer_action list \<Rightarrow> xfer \<Rightarrow> xfer" where
  "xfer_run hz user atom_count as x = fold (xfer_act hz user atom_count) as x"

definition xfer_init :: "libera_dma_t \<Rightarrow> xfer" where
  "xfer_init q = \<lparr>x_dma = q, x_cmd = None, x_pc = X_start, x_OBAtoms = 0, x_out = [], x_hw = []\<rparr>"

text \<open>The whole call: the final state when the reader has returned.\<close>

definition libera_dd_transfer_OBfifo_DMA ::
  "nat \<Rightarrow> bool \<Rightarrow> u32 \<Rightarrow> xfer_action list \<Rightarrow> libera_dma_t \<Rightarrow> (xfer \<times> (errno + u32)) call" where
  "libera_dd_transfer_OBfifo_DMA hz user atom_count as q =
     (let x = xfer_run hz user atom_count as (xfer_init q) in
      case x_pc x of X_done r \<Rightarrow> Ret (x, r) | _ \<Rightarrow> Hang)"

end
