(* ===== verification/Libera_Dma_Props.thy ===== *)
theory Libera_Dma_Props
  imports Libera_Dma "HOL-Library.Sublist"
begin

text \<open>
  Properties of the DMA transfer, over every interleaving of the reader and the DMA interrupts:
  the size of a block never lets the controller write outside the buffer or over unread atoms,
  and what the reader delivers is what the controller delivered, in order and complete when the
  call succeeds.
\<close>

section \<open>The DMA FIFO as a list\<close>

definition dput :: "libera_dma_t \<Rightarrow> nat" where "dput q = unat (dma_put q)"
definition dget :: "libera_dma_t \<Rightarrow> nat" where "dget q = unat (dma_get q)"

definition dlen :: "libera_dma_t \<Rightarrow> nat" where
  "dlen q = (dput q + 4096 - dget q) mod 4096"

definition dma_list :: "libera_dma_t \<Rightarrow> libera_atom_dd_t list" where
  "dma_list q = map (\<lambda>i. dma_buf q ((dget q + i) mod 4096)) [0..<dlen q]"

definition dma_ok :: "libera_dma_t \<Rightarrow> bool" where
  "dma_ok q \<longleftrightarrow> dput q < 4096 \<and> dget q < 4096"

lemma DMA_MASK: "LIBERA_DMA_FIFO_MASK = mask 12"
  by (simp add: LIBERA_DMA_FIFO_MASK_def LIBERA_DMA_FIFO_ATOMS_def mask_eq_exp_minus_1)

lemma length_dma_list [simp]: "length (dma_list q) = dlen q"
  by (simp add: dma_list_def)

lemma dlen_less: "dlen q < 4096"
  by (simp add: dlen_def)

lemma lenDMA_unat: "dma_ok q \<Longrightarrow> unat (lenDMA_FIFO q) = dlen q"
proof -
  assume ok: "dma_ok q"
  have "unat (dma_put q + LIBERA_DMA_FIFO_ATOMS) = dput q + 4096"
    using ok by (simp add: LIBERA_DMA_FIFO_ATOMS_def unat_word_ariths dma_ok_def dput_def)
  then have "unat (dma_put q + LIBERA_DMA_FIFO_ATOMS - dma_get q) = dput q + 4096 - dget q"
    using ok by (subst unat_sub_if') (simp_all add: dma_ok_def dget_def)
  then show ?thesis by (simp add: lenDMA_FIFO_def DMA_MASK unat_and_mask dlen_def)
qed

lemma dput_eq: "dma_ok q \<Longrightarrow> dput q = (dget q + dlen q) mod 4096"
  by (simp add: dlen_def dma_ok_def mod_add_right_eq)

lemma dma_empty: "dma_ok q \<Longrightarrow> not_emptyDMA_FIFO q \<longleftrightarrow> dlen q \<noteq> 0"
proof -
  assume ok: "dma_ok q"
  have "dput q = dget q \<longleftrightarrow> dlen q = 0"
    using dput_eq [OF ok] ok by (auto simp: dma_ok_def dlen_def)
  then show ?thesis by (auto simp: not_emptyDMA_FIFO_def dput_def dget_def word_unat_eq_iff)
qed

section \<open>Size of a block\<close>

lemma OB_SIZE_less: "unat (DD_OB_SIZE s) < 256"
proof -
  have m: "push_bit 8 1 - 1 = (mask 8 :: u32)" by (simp add: mask_eq_exp_minus_1)
  show ?thesis by (simp only: DD_OB_SIZE_def m unat_and_mask) simp
qed

lemma csize_value:
  assumes ok: "dma_ok q" and r: "unat (remaining q) < 2 ^ 31"
  shows "unat (csize (libera_dma_get_DMAC_csize q)) =
    min (4095 - dlen q) (min (min (unat (remaining q)) 128) (min (4096 - dput q) (unat (DD_OB_SIZE (obFIFOstatus q)))))"
proof -
  have sl: "a <s b \<longleftrightarrow> unat a < unat b" if "unat a < 2 ^ 31" "unat b < 2 ^ 31" for a b :: s32
  proof -
    have "sint a = int (unat a)" "sint b = int (unat b)"
      using that by (auto intro!: sint_small simp del: of_nat_unat)
    then show ?thesis by (simp only: word_sless_alt of_nat_less_iff)
  qed
  let ?ob = "DD_OB_SIZE (obFIFOstatus q)"
  have t: "unat (tailDMA_FIFO q) = 4096 - dput q"
    using ok by (simp add: tailDMA_FIFO_def LIBERA_DMA_FIFO_ATOMS_def unat_sub_if' dma_ok_def dput_def)
  have l: "unat (LIBERA_DMA_FIFO_ATOMS - 1 - lenDMA_FIFO q) = 4095 - dlen q"
    using lenDMA_unat [OF ok] dlen_less [of q]
    by (simp add: LIBERA_DMA_FIFO_ATOMS_def unat_sub_if')
  have a: "unat (if remaining q <s LIBERA_DMA_BLOCK_ATOMS then remaining q else LIBERA_DMA_BLOCK_ATOMS)
      = min (unat (remaining q)) 128"
    using r by (simp add: sl LIBERA_DMA_BLOCK_ATOMS_def)
  have b: "unat (if tailDMA_FIFO q < ?ob then tailDMA_FIFO q else ?ob) = min (4096 - dput q) (unat ?ob)"
    by (simp add: word_less_nat_alt t)
  define A where "A = (if remaining q <s LIBERA_DMA_BLOCK_ATOMS then remaining q else LIBERA_DMA_BLOCK_ATOMS)"
  define B where "B = (if tailDMA_FIFO q < ?ob then tailDMA_FIFO q else ?ob)"
  define C where "C = (if A < B then A else B)"
  have c: "unat C = min (min (unat (remaining q)) 128) (min (4096 - dput q) (unat ?ob))"
    using a [folded A_def] b [folded B_def] by (auto simp: C_def word_less_nat_alt min_def)
  then have "unat C < 2 ^ 31" by simp
  then have "LIBERA_DMA_FIFO_ATOMS - 1 - lenDMA_FIFO q <s C \<longleftrightarrow> 4095 - dlen q < unat C"
    using l by (subst sl) simp_all
  moreover have "csize (libera_dma_get_DMAC_csize q) =
      (if (LIBERA_DMA_FIFO_ATOMS - 1 - lenDMA_FIFO q) <s C then LIBERA_DMA_FIFO_ATOMS - 1 - lenDMA_FIFO q else C)"
    by (simp add: libera_dma_get_DMAC_csize_def Let_def C_def A_def B_def)
  ultimately show ?thesis using c l by (auto simp: min_def)
qed

lemma get_csize_frame [simp]:
  "dput (libera_dma_get_DMAC_csize q) = dput q" "dget (libera_dma_get_DMAC_csize q) = dget q"
  "dlen (libera_dma_get_DMAC_csize q) = dlen q" "dma_ok (libera_dma_get_DMAC_csize q) = dma_ok q"
  "dma_list (libera_dma_get_DMAC_csize q) = dma_list q"
  "remaining (libera_dma_get_DMAC_csize q) = remaining q"
  "obFIFOstatus (libera_dma_get_DMAC_csize q) = obFIFOstatus q"
  "Overrun (libera_dma_get_DMAC_csize q) = Overrun q"
  "written (libera_dma_get_DMAC_csize q) = written q"
  "DMAC_transfer (libera_dma_get_DMAC_csize q) = DMAC_transfer q"
  by (simp_all add: libera_dma_get_DMAC_csize_def Let_def dput_def dget_def dlen_def dma_ok_def dma_list_def)

text \<open>What the size of a block guarantees of the buffer and of the rest of the transfer.\<close>

definition block_ok :: "libera_dma_t \<Rightarrow> bool" where
  "block_ok q \<longleftrightarrow> unat (csize q) \<le> unat (remaining q) \<and> unat (csize q) \<le> 128
     \<and> dput q + unat (csize q) \<le> 4096 \<and> dlen q + unat (csize q) \<le> 4095"

lemma block_ok_new: "dma_ok q \<Longrightarrow> unat (remaining q) < 2 ^ 31 \<Longrightarrow> block_ok (libera_dma_get_DMAC_csize q)"
  using dlen_less [of q] by (auto simp: block_ok_def csize_value dma_ok_def)

section \<open>A block arrives\<close>

lemma dmac_write_at:
  "dmac_write i as buf j = (if i \<le> j \<and> j < i + length as then as ! (j - i) else buf j)"
proof (induction as arbitrary: i buf)
  case (Cons a as)
  show ?case
    by (simp only: dmac_write.simps Cons)
       (auto simp: nth_Cons' le_Suc_eq less_Suc_eq)
qed auto

lemma dma_list_take_block:
  assumes ok: "dma_ok q" and n: "length as = unat (csize q)" and b: "block_ok q"
  defines "q' \<equiv> q\<lparr>dma_buf := dmac_write (dput q) as (dma_buf q),
      dma_put := (dma_put q + csize q) AND LIBERA_DMA_FIFO_MASK\<rparr>"
  shows "dma_ok q'" "dlen q' = dlen q + length as" "dma_list q' = dma_list q @ as"
proof -
  have p: "dput q' = (dput q + length as) mod 4096"
    using ok b n by (simp add: q'_def dput_def DMA_MASK unat_and_mask unat_word_ariths block_ok_def dma_ok_def)
  have g: "dget q' = dget q" by (simp add: q'_def dget_def)
  have buf: "dma_buf q' = dmac_write (dput q) as (dma_buf q)" by (simp add: q'_def)
  show ok': "dma_ok q'" using ok p g by (simp add: dma_ok_def)
  have small: "dlen q + length as < 4096" using b n by (simp add: block_ok_def)
  show l: "dlen q' = dlen q + length as"
  proof (rule ring_offset_unique [where a = "dget q" and N = 4096])
    show "(dget q + dlen q') mod 4096 = (dget q + (dlen q + length as)) mod 4096"
      using dput_eq [OF ok'] g p dput_eq [OF ok] by (metis add.assoc mod_add_left_eq)
  qed (use small dlen_less [of q'] in simp_all)
  have put: "(dget q + dlen q) mod 4096 = dput q" using dput_eq [OF ok] by simp
  have nowrap: "dput q + length as \<le> 4096" using b n by (simp add: block_ok_def)
  have old: "dma_buf q' ((dget q + i) mod 4096) = dma_buf q ((dget q + i) mod 4096)" if "i < dlen q" for i
  proof -
    have "\<not> (dput q \<le> (dget q + i) mod 4096 \<and> (dget q + i) mod 4096 < dput q + length as)"
    proof
      assume a: "dput q \<le> (dget q + i) mod 4096 \<and> (dget q + i) mod 4096 < dput q + length as"
      define j where "j = (dget q + i) mod 4096 - dput q"
      have j: "j < length as" "(dget q + i) mod 4096 = dput q + j" using a by (auto simp: j_def)
      then have "dput q + j < 4096" using nowrap by simp
      then have "(dget q + i) mod 4096 = (dget q + (dlen q + j)) mod 4096"
        using j(2) put by (metis add.assoc mod_add_left_eq mod_less)
      then have "i = dlen q + j"
        by (rule ring_offset_unique) (use that small j in simp_all)
      then show False using that by simp
    qed
    then show ?thesis by (simp only: buf dmac_write_at if_False)
  qed
  have new: "dma_buf q' ((dget q + (dlen q + j)) mod 4096) = as ! j" if "j < length as" for j
  proof -
    have "(dget q + (dlen q + j)) mod 4096 = (dput q + j) mod 4096"
      using put by (metis add.assoc mod_add_left_eq)
    then have "(dget q + (dlen q + j)) mod 4096 = dput q + j" using nowrap that by simp
    then show ?thesis using that by (simp add: q'_def dmac_write_at)
  qed
  show "dma_list q' = dma_list q @ as"
  proof (rule nth_equalityI)
    fix i
    assume "i < length (dma_list q')"
    then have i: "i < dlen q + length as" by (simp add: l)
    show "dma_list q' ! i = (dma_list q @ as) ! i"
      using old [of i] new [of "i - dlen q"] i
      by (cases "i < dlen q") (simp_all add: l dma_list_def g nth_append)
  qed (simp add: l)
qed

lemma put_block:
  assumes "dma_ok q" "block_ok q" "csize q \<noteq> 0"
  shows "putToDMA_FIFO q (csize q) = (q\<lparr>dma_put := (dma_put q + csize q) AND LIBERA_DMA_FIFO_MASK\<rparr>, 0)"
proof -
  let ?q = "q\<lparr>dma_buf := dmac_write (dput q) (replicate (unat (csize q)) []) (dma_buf q),
      dma_put := (dma_put q + csize q) AND LIBERA_DMA_FIFO_MASK\<rparr>"
  have "dlen ?q = dlen q + unat (csize q)" "dma_ok ?q"
    using dma_list_take_block [OF assms(1) _ assms(2), of "replicate (unat (csize q)) []"] by simp_all
  then have "not_emptyDMA_FIFO ?q" using assms(3) by (simp add: dma_empty unat_eq_0)
  then show ?thesis by (simp add: putToDMA_FIFO_def not_emptyDMA_FIFO_def Let_def)
qed

lemma dma_list_get:
  assumes ok: "dma_ok q" and ne: "dlen q \<noteq> 0"
  defines "q' \<equiv> q\<lparr>dma_get := (dma_get q + 1) AND LIBERA_DMA_FIFO_MASK\<rparr>"
  shows "dma_ok q'" "Suc (dlen q') = dlen q" "dma_list q = dma_buf q (dget q) # dma_list q'"
proof -
  have g: "dget q' = (dget q + 1) mod 4096"
    using ok by (simp add: q'_def dget_def DMA_MASK ring_step [of 12] dma_ok_def)
  have p: "dput q' = dput q" by (simp add: q'_def dput_def)
  have buf: "dma_buf q' = dma_buf q" by (simp add: q'_def)
  show ok': "dma_ok q'" using ok g p by (simp add: dma_ok_def)
  show l: "Suc (dlen q') = dlen q"
  proof -
    have "dlen q' = dlen q - 1"
    proof (rule ring_offset_unique [where a = "Suc (dget q)" and N = 4096])
      have "(dget q + dlen q) mod 4096 = (Suc (dget q) mod 4096 + dlen q') mod 4096"
        using dput_eq [OF ok'] g p dput_eq [OF ok] by simp
      also have "\<dots> = (Suc (dget q) + dlen q') mod 4096" by (rule mod_add_left_eq)
      finally show "(Suc (dget q) + dlen q') mod 4096 = (Suc (dget q) + (dlen q - 1)) mod 4096"
        using ne by simp
    qed (use dlen_less [of q'] dlen_less [of q] in simp_all)
    then show ?thesis using ne by simp
  qed
  have "dma_list q = map (\<lambda>i. dma_buf q ((dget q + i) mod 4096)) (0 # map Suc [0..<dlen q'])"
    by (simp add: dma_list_def l [symmetric] upt_conv_Cons map_Suc_upt del: upt_Suc)
  then show "dma_list q = dma_buf q (dget q) # dma_list q'"
    using ok by (simp add: dma_list_def g buf dma_ok_def comp_def mod_simps del: upt_Suc)
qed

section \<open>The invariant of the transfer\<close>

lemma dma_view:
  assumes "dma_put q' = dma_put q" "dma_get q' = dma_get q" "dma_buf q' = dma_buf q"
  shows "dput q' = dput q" "dget q' = dget q" "dlen q' = dlen q" "dma_ok q' = dma_ok q"
    "dma_list q' = dma_list q" "not_emptyDMA_FIFO q' = not_emptyDMA_FIFO q"
    "lenDMA_FIFO q' = lenDMA_FIFO q"
  using assms
  by (simp_all add: dput_def dget_def dlen_def dma_ok_def dma_list_def not_emptyDMA_FIFO_def lenDMA_FIFO_def)

lemma dma_flag_simps [simp]:
  "dput (q\<lparr>DMAC_transfer := b\<rparr>) = dput q" "dget (q\<lparr>DMAC_transfer := b\<rparr>) = dget q"
  "dlen (q\<lparr>DMAC_transfer := b\<rparr>) = dlen q" "dma_ok (q\<lparr>DMAC_transfer := b\<rparr>) = dma_ok q"
  "dma_list (q\<lparr>DMAC_transfer := b\<rparr>) = dma_list q" "block_ok (q\<lparr>DMAC_transfer := b\<rparr>) = block_ok q"
  by (simp_all add: block_ok_def dput_def dget_def dlen_def dma_ok_def dma_list_def)

text \<open>The atoms the reader has taken off the FIFO.\<close>

definition taken :: "xfer \<Rightarrow> nat" where
  "taken x = length (x_hw x) - dlen (x_dma x)"

definition xfer_data :: "u32 \<Rightarrow> xfer \<Rightarrow> bool" where
  "xfer_data N x \<longleftrightarrow>
     (let q = x_dma x in
      dma_ok q \<and> length (x_hw x) + unat (remaining q) = unat N \<and> dlen q \<le> length (x_hw x)
      \<and> dma_list q = drop (taken x) (x_hw x)
      \<and> prefix (x_out x) (take (taken x) (x_hw x))
      \<and> (Overrun q \<or> x_out x = take (taken x) (x_hw x))
      \<and> unat (written q) = length (x_out x))"

definition xfer_cmd_ok :: "xfer \<Rightarrow> bool" where
  "xfer_cmd_ok x \<longleftrightarrow>
     (case x_cmd x of
        None \<Rightarrow> \<not> DMAC_transfer (x_dma x)
      | Some (slot, bytes) \<Rightarrow> DMAC_transfer (x_dma x) \<and> slot = dput (x_dma x)
          \<and> bytes = csize (x_dma x) * DD_ATOM_BYTES \<and> block_ok (x_dma x))"

definition all_read :: "xfer \<Rightarrow> bool" where
  "all_read x \<longleftrightarrow> Overrun (x_dma x) \<or> remaining (x_dma x) = 0 \<and> dlen (x_dma x) = 0"

fun xfer_pc_ok :: "bool \<Rightarrow> xfer_pc \<Rightarrow> xfer \<Rightarrow> bool" where
  "xfer_pc_ok user X_start x = False"
| "xfer_pc_ok user (X_sync n) x = (x_cmd x = None)"
| "xfer_pc_ok user X_command x = (x_cmd x = None)"
| "xfer_pc_ok user (X_copy n m) x = (m \<le> n + dlen (x_dma x))"
| "xfer_pc_ok user (X_resync n) x = (x_cmd x = None)"
| "xfer_pc_ok user X_recommand x = (x_cmd x = None)"
| "xfer_pc_ok user X_end x = all_read x"
| "xfer_pc_ok user (X_done r) x =
     (case r of
        Inr n \<Rightarrow> n = written (x_dma x) \<and> all_read x
      | Inl e \<Rightarrow> e = EIO \<or> e = ERESTARTSYS \<or> e = EFAULT \<and> user)"
| "xfer_pc_ok user _ x = True"

fun is_done :: "xfer_pc \<Rightarrow> bool" where
  "is_done (X_done r) = True"
| "is_done _ = False"

definition xfer_inv :: "bool \<Rightarrow> u32 \<Rightarrow> xfer \<Rightarrow> bool" where
  "xfer_inv user N x \<longleftrightarrow>
     xfer_data N x \<and> xfer_cmd_ok x \<and> xfer_pc_ok user (x_pc x) x
     \<and> (is_done (x_pc x) \<or> unat (x_OBAtoms x) = taken x)"

section \<open>An interrupt keeps it\<close>

lemma put_zero:
  assumes "dma_ok q"
  shows "dma_put (fst (putToDMA_FIFO q 0)) = dma_put q" "dma_get (fst (putToDMA_FIFO q 0)) = dma_get q"
    "dma_buf (fst (putToDMA_FIFO q 0)) = dma_buf q"
proof -
  have "dma_put q AND LIBERA_DMA_FIFO_MASK = dma_put q"
    using assms by (simp add: DMA_MASK and_mask_id dma_ok_def dput_def word_less_nat_alt)
  then show "dma_put (fst (putToDMA_FIFO q 0)) = dma_put q" "dma_get (fst (putToDMA_FIFO q 0)) = dma_get q"
    "dma_buf (fst (putToDMA_FIFO q 0)) = dma_buf q"
    by (simp_all add: putToDMA_FIFO_def Let_def)
qed

lemma putToDMA_frame [simp]:
  "remaining (fst (putToDMA_FIFO q n)) = remaining q" "Overrun (fst (putToDMA_FIFO q n)) = Overrun q"
  "written (fst (putToDMA_FIFO q n)) = written q" "csize (fst (putToDMA_FIFO q n)) = csize q"
  "DMAC_transfer (fst (putToDMA_FIFO q n)) = DMAC_transfer q"
  by (simp_all add: putToDMA_FIFO_def Let_def)

text \<open>The state the handler leaves, whatever status it read.\<close>

definition irq_dma :: "libera_atom_dd_t list \<Rightarrow> u32 \<Rightarrow> libera_dma_t \<Rightarrow> libera_dma_t" where
  "irq_dma atoms status q =
     fst (putToDMA_FIFO (q\<lparr>dma_buf := dmac_write (dput q) atoms (dma_buf q), obFIFOstatus := status,
       Overrun := (Overrun q \<or> DD_OB_OVERRUN status \<noteq> 0), remaining := remaining q - csize q\<rparr>) (csize q))"

lemma irq_dma_facts:
  assumes ok: "dma_ok q" and n: "length as = unat (csize q)" and b: "block_ok q"
  shows "dma_ok (irq_dma as st q)" "dlen (irq_dma as st q) = dlen q + length as"
    "dma_list (irq_dma as st q) = dma_list q @ as"
    "unat (remaining (irq_dma as st q)) = unat (remaining q) - length as"
    "Overrun (irq_dma as st q) = (Overrun q \<or> DD_OB_OVERRUN st \<noteq> 0)"
    "written (irq_dma as st q) = written q"
proof -
  let ?q = "q\<lparr>dma_buf := dmac_write (dput q) as (dma_buf q), obFIFOstatus := st,
       Overrun := (Overrun q \<or> DD_OB_OVERRUN st \<noteq> 0), remaining := remaining q - csize q\<rparr>"
  let ?r = "q\<lparr>dma_buf := dmac_write (dput q) as (dma_buf q),
      dma_put := (dma_put q + csize q) AND LIBERA_DMA_FIFO_MASK\<rparr>"
  have v: "dma_put (irq_dma as st q) = dma_put ?r \<and> dma_get (irq_dma as st q) = dma_get ?r
      \<and> dma_buf (irq_dma as st q) = dma_buf ?r"
  proof (cases "csize q = 0")
    case True
    have okq: "dma_ok ?q" using ok by (simp add: dma_ok_def dput_def dget_def)
    have "dma_put q AND LIBERA_DMA_FIFO_MASK = dma_put q"
      using ok by (simp add: DMA_MASK and_mask_id dma_ok_def dput_def word_less_nat_alt)
    then show ?thesis using put_zero [OF okq] True by (simp add: irq_dma_def)
  next
    case False
    have "putToDMA_FIFO ?q (csize q) = (?q\<lparr>dma_put := (dma_put q + csize q) AND LIBERA_DMA_FIFO_MASK\<rparr>, 0)"
      using put_block [OF ok b False] by (simp add: putToDMA_FIFO_def Let_def split: if_splits)
    then show ?thesis by (simp add: irq_dma_def)
  qed
  note r = dma_list_take_block [OF ok n b]
  show "dma_ok (irq_dma as st q)" "dlen (irq_dma as st q) = dlen q + length as"
    "dma_list (irq_dma as st q) = dma_list q @ as"
    using v r dma_view [of "irq_dma as st q" ?r] by simp_all
  have "csize q \<le> remaining q" using b by (simp add: block_ok_def word_le_nat_alt)
  then show "unat (remaining (irq_dma as st q)) = unat (remaining q) - length as"
    using n by (simp add: irq_dma_def unat_sub)
qed (simp_all add: irq_dma_def)

lemma dma_interrupt_eq:
  assumes "x_cmd x = Some (dput (x_dma x), b)"
  shows "libera_dma_interrupt True st (dmac_done as x) =
    (let q = libera_dma_get_DMAC_csize (irq_dma as st (x_dma x)); x' = x\<lparr>x_cmd := None, x_hw := x_hw x @ as\<rparr> in
     if 0 <s csize q then libera_dma_command (x'\<lparr>x_dma := q\<rparr>)
     else x'\<lparr>x_dma := q\<lparr>DMAC_transfer := False\<rparr>\<rparr>)"
proof -
  have "(if DD_OB_OVERRUN st \<noteq> 0 then q\<lparr>Overrun := True\<rparr> else q) = q\<lparr>Overrun := (Overrun q \<or> DD_OB_OVERRUN st \<noteq> 0)\<rparr>"
    for q :: libera_dma_t by simp
  then show ?thesis
    using assms by (simp add: libera_dma_interrupt_def dmac_done_def irq_dma_def Let_def)
qed

lemma data_remaining: "xfer_data N x \<Longrightarrow> unat N < 2 ^ 31 \<Longrightarrow> unat (remaining (x_dma x)) < 2 ^ 31"
  by (simp add: xfer_data_def Let_def)

lemma command_bytes: "block_ok q \<Longrightarrow> unat (csize q * DD_ATOM_BYTES) = 32 * unat (csize q)"
  by (simp add: block_ok_def DD_ATOM_BYTES_def unat_word_ariths)

text \<open>A change of the state that leaves the FIFO, the counts and the logs alone.\<close>

lemma xfer_data_cong:
  assumes "dma_ok (x_dma x')" "dlen (x_dma x') = dlen (x_dma x)" "dma_list (x_dma x') = dma_list (x_dma x)"
    "remaining (x_dma x') = remaining (x_dma x)" "written (x_dma x') = written (x_dma x)"
    "Overrun (x_dma x) \<longrightarrow> Overrun (x_dma x')" "x_hw x' = x_hw x" "x_out x' = x_out x"
    "xfer_data N x"
  shows "xfer_data N x'" "taken x' = taken x"
  using assms by (auto simp: xfer_data_def taken_def Let_def)

lemma xfer_data_interrupt:
  assumes d: "xfer_data N x" and b: "block_ok (x_dma x)" and n: "length as = unat (csize (x_dma x))"
    and x': "x_dma x' = irq_dma as st (x_dma x)" "x_hw x' = x_hw x @ as" "x_out x' = x_out x"
  shows "xfer_data N x'" "taken x' = taken x"
proof -
  have ok: "dma_ok (x_dma x)" using d by (simp add: xfer_data_def Let_def)
  note f = irq_dma_facts [OF ok n b, of st]
  show t: "taken x' = taken x" by (simp add: taken_def x' f)
  have "taken x \<le> length (x_hw x)" by (simp add: taken_def)
  moreover have "length as \<le> unat (remaining (x_dma x))" using b n by (simp add: block_ok_def)
  ultimately show "xfer_data N x'"
    using d by (auto simp: xfer_data_def x' f t Let_def)
qed

lemma xfer_inv_interrupt:
  assumes inv: "xfer_inv user N x" and c: "x_cmd x = Some (s, b)" and n: "32 * length as = unat b"
    and N: "unat N < 2 ^ 31"
  shows "xfer_inv user N (libera_dma_interrupt True st (dmac_done as x))"
proof -
  let ?q = "x_dma x"
  have d: "xfer_data N x" and bl: "block_ok ?q" and s: "s = dput ?q" and bq: "b = csize ?q * DD_ATOM_BYTES"
    using inv c by (auto simp: xfer_inv_def xfer_cmd_ok_def)
  have len: "length as = unat (csize ?q)" using n command_bytes [OF bl] bq by simp
  have ok: "dma_ok ?q" using d by (simp add: xfer_data_def Let_def)
  let ?q1 = "irq_dma as st ?q" and ?x1 = "x\<lparr>x_dma := irq_dma as st (x_dma x), x_cmd := None, x_hw := x_hw x @ as\<rparr>"
  note f = irq_dma_facts [OF ok len bl, of st]
  have d1: "xfer_data N ?x1" "taken ?x1 = taken x"
    by (rule xfer_data_interrupt [OF d bl len, where st = st]; simp)+
  have r1: "unat (remaining ?q1) < 2 ^ 31" using data_remaining [OF d1(1) N] by simp
  let ?q2 = "libera_dma_get_DMAC_csize ?q1"
  let ?x2 = "libera_dma_interrupt True st (dmac_done as x)"
  have x2: "?x2 = (if 0 <s csize ?q2
      then libera_dma_command (x\<lparr>x_cmd := None, x_hw := x_hw x @ as, x_dma := ?q2\<rparr>)
      else x\<lparr>x_cmd := None, x_hw := x_hw x @ as, x_dma := ?q2\<lparr>DMAC_transfer := False\<rparr>\<rparr>)"
    using dma_interrupt_eq [of x b st as] c s by (simp add: Let_def)
  have q3: "x_dma ?x2 = ?q2\<lparr>DMAC_transfer := (0 <s csize ?q2)\<rparr>" "x_hw ?x2 = x_hw x @ as"
    "x_out ?x2 = x_out x" "x_pc ?x2 = x_pc x" "x_OBAtoms ?x2 = x_OBAtoms x"
    "x_cmd ?x2 = (if 0 <s csize ?q2 then Some (dput ?q2, csize ?q2 * DD_ATOM_BYTES) else None)"
    by (simp_all only: x2) (simp_all add: libera_dma_command_def dput_def)
  have v: "dma_ok (x_dma ?x2) = dma_ok ?q1" "dlen (x_dma ?x2) = dlen ?q1" "dma_list (x_dma ?x2) = dma_list ?q1"
    "dput (x_dma ?x2) = dput ?q2" "remaining (x_dma ?x2) = remaining ?q1" "written (x_dma ?x2) = written ?q1"
    "Overrun (x_dma ?x2) = Overrun ?q1" "csize (x_dma ?x2) = csize ?q2"
    using dma_view [of "x_dma ?x2" ?q2] by (simp_all add: q3(1))
  have d2: "xfer_data N ?x2" "taken ?x2 = taken ?x1"
    using xfer_data_cong [of ?x2 ?x1 N] d1(1) f(1) v q3 by simp_all
  have bl2: "block_ok (x_dma ?x2)"
    using block_ok_new [OF f(1) r1] v by (simp add: block_ok_def)
  have cmd: "xfer_cmd_ok ?x2"
    using bl2 v by (simp add: xfer_cmd_ok_def q3(1,6))
  have ar: "all_read x \<Longrightarrow> all_read ?x2"
  proof -
    assume a: "all_read x"
    show "all_read ?x2"
    proof (cases "Overrun ?q")
      case True
      then show ?thesis by (simp add: all_read_def v f)
    next
      case False
      then have z: "remaining ?q = 0" "dlen ?q = 0" using a by (auto simp: all_read_def)
      then have "length as = 0" using bl len by (simp add: block_ok_def)
      then show ?thesis using z f(2,4) v by (simp add: all_read_def unat_eq_0)
    qed
  qed
  have "xfer_pc_ok user (x_pc x) x" using inv by (simp add: xfer_inv_def)
  then have "xfer_pc_ok user (x_pc ?x2) ?x2"
    using ar c v f by (cases "x_pc x") (auto simp: q3(4) split: sum.splits)
  then show ?thesis
    using inv d2 cmd d1(2) by (simp add: xfer_inv_def q3(4,5))
qed

section \<open>A step of the reader keeps it\<close>

lemma sync_inv:
  assumes inv: "xfer_data N x" "xfer_cmd_ok x" "unat (x_OBAtoms x) = taken x" "x_cmd x = None"
    and again: "\<And>n y. x_cmd y = None \<Longrightarrow> xfer_pc_ok user (again n) y"
    and ready: "\<And>y. x_cmd y = None \<Longrightarrow> xfer_pc_ok user ready y"
  shows "xfer_inv user N (libera_OB_fifo_sync hz again ready n i x)"
proof -
  let ?x = "libera_OB_fifo_sync hz again ready n i x"
  have v: "x_cmd ?x = x_cmd x" "x_hw ?x = x_hw x" "x_out ?x = x_out x" "x_OBAtoms ?x = x_OBAtoms x"
    "dma_put (x_dma ?x) = dma_put (x_dma x)" "dma_get (x_dma ?x) = dma_get (x_dma x)"
    "dma_buf (x_dma ?x) = dma_buf (x_dma x)" "remaining (x_dma ?x) = remaining (x_dma x)"
    "written (x_dma ?x) = written (x_dma x)" "Overrun (x_dma x) \<longrightarrow> Overrun (x_dma ?x)"
    "DMAC_transfer (x_dma ?x) = DMAC_transfer (x_dma x)"
    "x_pc ?x = X_done (Inl EIO) \<or> x_pc ?x = again (n + 1) \<or> x_pc ?x = ready"
    by (simp_all add: libera_OB_fifo_sync_def Let_def)
  note w = dma_view [OF v(5,6,7)]
  have "xfer_data N ?x" "taken ?x = taken x"
    using xfer_data_cong [of ?x x N] inv(1) v w by (auto simp: xfer_data_def Let_def)
  moreover have "xfer_cmd_ok ?x" using inv(2,4) v by (simp add: xfer_cmd_ok_def)
  moreover have "xfer_pc_ok user (x_pc ?x) ?x"
    using v(12) again ready v(1) inv(4) by auto
  ultimately show ?thesis using inv(3) v(4) by (simp add: xfer_inv_def)
qed

lemma sizing:
  assumes d: "xfer_data N x" and N: "unat N < 2 ^ 31"
  defines "y \<equiv> x\<lparr>x_dma := libera_dma_get_DMAC_csize (x_dma x)\<rparr>"
  shows "xfer_data N y" "taken y = taken x" "block_ok (x_dma y)"
proof -
  have ok: "dma_ok (x_dma x)" using d by (simp add: xfer_data_def Let_def)
  show "xfer_data N y" "taken y = taken x"
    using xfer_data_cong [of y x N] d ok by (simp_all add: y_def)
  show "block_ok (x_dma y)"
    using block_ok_new [OF ok data_remaining [OF d N]] by (simp add: y_def)
qed

lemma command:
  fixes p :: xfer_pc
  assumes "xfer_data N y" "block_ok (x_dma y)"
  defines "z \<equiv> (libera_dma_command y)\<lparr>x_pc := p\<rparr>"
  shows "xfer_data N z" "taken z = taken y" "xfer_cmd_ok z"
proof -
  have ok: "dma_ok (x_dma y)" using assms(1) by (simp add: xfer_data_def Let_def)
  show "xfer_data N z" "taken z = taken y"
    using xfer_data_cong [of z y N] assms(1) ok by (simp_all add: z_def libera_dma_command_def)
  show "xfer_cmd_ok z"
    using assms(2) by (simp add: z_def xfer_cmd_ok_def libera_dma_command_def) (simp add: dput_def)
qed

lemma xfer_inv_pc:
  "xfer_inv user N x \<Longrightarrow> \<not> is_done (x_pc x) \<Longrightarrow> xfer_pc_ok user p x \<Longrightarrow> xfer_inv user N (x\<lparr>x_pc := p\<rparr>)"
proof -
  have "xfer_data N (x\<lparr>x_pc := p\<rparr>) = xfer_data N x" "taken (x\<lparr>x_pc := p\<rparr>) = taken x"
    "xfer_cmd_ok (x\<lparr>x_pc := p\<rparr>) = xfer_cmd_ok x"
    by (simp_all add: xfer_data_def taken_def xfer_cmd_ok_def split: option.splits)
  moreover have "xfer_pc_ok user p (x\<lparr>x_pc := p\<rparr>) = xfer_pc_ok user p x"
    by (cases p) (simp_all add: all_read_def split: sum.splits)
  ultimately show "xfer_inv user N x \<Longrightarrow> \<not> is_done (x_pc x) \<Longrightarrow> xfer_pc_ok user p x \<Longrightarrow> xfer_inv user N (x\<lparr>x_pc := p\<rparr>)"
    by (simp add: xfer_inv_def)
qed

text \<open>Setting the flag \<open>aborting\<close>, the status or the overrun flag.\<close>

lemma xfer_inv_dma:
  assumes "xfer_inv user N x" "\<not> is_done (x_pc x)" "xfer_pc_ok user p (x\<lparr>x_dma := q\<rparr>)"
    and "dma_put q = dma_put (x_dma x)" "dma_get q = dma_get (x_dma x)" "dma_buf q = dma_buf (x_dma x)"
    and "remaining q = remaining (x_dma x)" "written q = written (x_dma x)" "csize q = csize (x_dma x)"
    and "DMAC_transfer q = DMAC_transfer (x_dma x)" "Overrun (x_dma x) \<longrightarrow> Overrun q"
  shows "xfer_inv user N (x\<lparr>x_dma := q, x_pc := p\<rparr>)"
proof -
  let ?y = "x\<lparr>x_dma := q, x_pc := p\<rparr>"
  note v = dma_view [OF assms(4,5,6)]
  have d: "xfer_data N x" using assms(1) by (simp add: xfer_inv_def)
  then have ok: "dma_ok (x_dma x)" by (simp add: xfer_data_def Let_def)
  have "xfer_data N ?y" "taken ?y = taken x"
    using xfer_data_cong [of ?y x N] d ok v assms(7,8,11) by simp_all
  moreover have "xfer_cmd_ok ?y = xfer_cmd_ok x"
    using v assms(7,9,10) by (simp add: xfer_cmd_ok_def block_ok_def split: option.splits)
  moreover have "xfer_pc_ok user p ?y = xfer_pc_ok user p (x\<lparr>x_dma := q\<rparr>)"
    by (cases p) (simp_all add: all_read_def split: sum.splits)
  ultimately show ?thesis using assms(1-3) by (simp add: xfer_inv_def)
qed

lemma wait_inv:
  assumes "xfer_inv user N x" "x_pc x = X_wait"
  shows "xfer_inv user N (xfer_wait i x)"
proof (cases "not_emptyDMA_FIFO (x_dma x)")
  case True
  have ok: "dma_ok (x_dma x)" using assms(1) by (simp add: xfer_inv_def xfer_data_def Let_def)
  have "unat (lenDMA_FIFO (x_dma x)) = dlen (x_dma x)" "dlen (x_dma x) \<noteq> 0"
    using True lenDMA_unat [OF ok] dma_empty [OF ok] by simp_all
  then have "xfer_wait i x = x\<lparr>x_pc := X_copy 0 (dlen (x_dma x))\<rparr>"
    using True by (simp add: xfer_wait_def Let_def)
  then show ?thesis using assms by (simp add: xfer_inv_pc)
next
  case False
  show ?thesis
  proof (cases "\<not> xi_signal i \<and> \<not> xi_pm_entry i")
    case True
    then show ?thesis using False assms by (simp add: xfer_wait_def)
  next
    case sig: False
    then have "xfer_wait i x = x\<lparr>x_dma := (x_dma x)\<lparr>aborting := True\<rparr>, x_pc := X_done (Inl ERESTARTSYS)\<rparr>"
      using False by (auto simp: xfer_wait_def)
    then show ?thesis using assms by (simp add: xfer_inv_dma)
  qed
qed

lemma yield_inv:
  assumes "xfer_inv user N x" "x_pc x = X_yield"
  shows "xfer_inv user N (xfer_yield i x)"
  using assms by (simp add: xfer_yield_def xfer_inv_dma xfer_inv_pc)

lemma restart_inv:
  assumes "xfer_inv user N x" "x_pc x = X_restart"
  shows "xfer_inv user N (xfer_restart i x)"
proof (cases "dma_needs_start (x_dma x)")
  case True
  then have "x_cmd x = None"
    using assms(1) by (auto simp: dma_needs_start_def xfer_inv_def xfer_cmd_ok_def split: option.splits)
  then show ?thesis using True assms by (simp add: xfer_restart_def Let_def xfer_inv_dma)
next
  case False
  then show ?thesis using assms by (simp add: xfer_restart_def xfer_inv_pc)
qed

lemma end_inv:
  assumes "xfer_inv user N x" "x_pc x = X_end"
  shows "xfer_inv user N (xfer_end N i x)"
proof -
  have ar: "all_read x" and d: "xfer_data N x" and o: "unat (x_OBAtoms x) = taken x"
    using assms by (simp_all add: xfer_inv_def)
  let ?q = "(x_dma x)\<lparr>obFIFOstatus := xi_status i\<rparr>"
  have "\<not> Overrun ?q \<Longrightarrow> x_OBAtoms x = N"
  proof -
    assume "\<not> Overrun ?q"
    then have "remaining (x_dma x) = 0" "dlen (x_dma x) = 0" using ar by (simp_all add: all_read_def)
    then show "x_OBAtoms x = N" using d o by (simp add: xfer_data_def taken_def Let_def word_unat_eq_iff)
  qed
  then have "xfer_end N i x = (if \<not> Overrun ?q \<and> DD_OB_SIZE (xi_status i) \<noteq> 0
      then x\<lparr>x_dma := ?q, x_pc := X_done (Inl EIO)\<rparr>
      else x\<lparr>x_dma := ?q, x_pc := X_done (Inr (written ?q))\<rparr>)"
    by (auto simp: xfer_end_def Let_def)
  then consider "xfer_end N i x = x\<lparr>x_dma := ?q, x_pc := X_done (Inl EIO)\<rparr>"
    | "xfer_end N i x = x\<lparr>x_dma := ?q, x_pc := X_done (Inr (written ?q))\<rparr>"
    by (cases "\<not> Overrun ?q \<and> DD_OB_SIZE (xi_status i) \<noteq> 0") (simp_all only: if_True if_False simp_thms)
  then show ?thesis
  proof cases
    case 1
    then show ?thesis using assms by (simp add: xfer_inv_dma)
  next
    case 2
    have "dlen ?q = dlen (x_dma x)" by (rule dma_view) simp_all
    then have "all_read (x\<lparr>x_dma := ?q\<rparr>)" using ar by (simp add: all_read_def)
    then show ?thesis using 2 assms by (simp add: xfer_inv_dma)
  qed
qed

lemma recommand_inv:
  assumes inv: "xfer_inv user N x" and pc: "x_pc x = X_recommand" and N: "unat N < 2 ^ 31"
  shows "xfer_inv user N (xfer_recommand x)"
proof -
  have d: "xfer_data N x" and c: "x_cmd x = None" and o: "unat (x_OBAtoms x) = taken x"
    and cm: "xfer_cmd_ok x"
    using inv pc by (simp_all add: xfer_inv_def)
  let ?y = "x\<lparr>x_dma := libera_dma_get_DMAC_csize (x_dma x)\<rparr>"
  note sz = sizing [OF d N]
  have cy: "xfer_cmd_ok ?y" using c cm by (simp add: xfer_cmd_ok_def)
  consider "xfer_recommand x = ?y\<lparr>x_pc := X_cond\<rparr>"
    | "xfer_recommand x = (libera_dma_command ?y)\<lparr>x_pc := X_cond\<rparr>"
    | "xfer_recommand x = ?y\<lparr>x_pc := X_end\<rparr>" "Overrun (x_dma ?y)"
  proof -
    define full where "full = (\<not> 0 <s csize (x_dma ?y) \<and> LIBERA_DMA_FIFO_ATOMS - 1 - lenDMA_FIFO (x_dma ?y) = 0)"
    have "xfer_recommand x = (if full then ?y\<lparr>x_pc := X_cond\<rparr>
        else if \<not> Overrun (x_dma ?y) then (libera_dma_command ?y)\<lparr>x_pc := X_cond\<rparr> else ?y\<lparr>x_pc := X_end\<rparr>)"
      by (simp only: xfer_recommand_def Let_def full_def)
    then show thesis
      using that by (cases full; cases "Overrun (x_dma ?y)") (simp_all only: if_True if_False simp_thms)
  qed
  then show ?thesis
  proof cases
    case 2
    then show ?thesis
      using command [OF sz(1,3), of X_cond] o sz(2)
      by (simp add: xfer_inv_def libera_dma_command_def)
  qed (use sz o cy c in \<open>auto simp: xfer_inv_def xfer_data_def taken_def xfer_cmd_ok_def all_read_def Let_def\<close>)
qed

lemma copy_inv:
  assumes inv: "xfer_inv user N x" and pc: "x_pc x = X_copy n m" and N: "unat N < 2 ^ 31"
  shows "xfer_inv user N (xfer_copy user N n m i x)"
proof (cases "m \<le> n")
  case True
  then show ?thesis using inv pc by (simp add: xfer_copy_def xfer_inv_pc)
next
  case False
  let ?q = "x_dma x"
  have d: "xfer_data N x" and o: "unat (x_OBAtoms x) = taken x" and cm: "xfer_cmd_ok x"
    and m: "m \<le> n + dlen ?q"
    using inv pc by (simp_all add: xfer_inv_def)
  have ok: "dma_ok ?q" and l: "length (x_hw x) + unat (remaining ?q) = unat N" "dlen ?q \<le> length (x_hw x)"
    and lst: "dma_list ?q = drop (taken x) (x_hw x)" and pre: "prefix (x_out x) (take (taken x) (x_hw x))"
    and eq: "Overrun ?q \<or> x_out x = take (taken x) (x_hw x)" and w: "unat (written ?q) = length (x_out x)"
    using d by (simp_all add: xfer_data_def Let_def)
  have ne: "dlen ?q \<noteq> 0" using False m by simp
  have t: "taken x < length (x_hw x)" "taken x < unat N" using l ne by (auto simp: taken_def)
  have lt: "x_OBAtoms x < N" using o t by (simp add: word_less_nat_alt)
  let ?g = "?q\<lparr>dma_get := (dma_get ?q + 1) AND LIBERA_DMA_FIFO_MASK\<rparr>"
  note g = dma_list_get [OF ok ne]
  have hd: "dma_buf ?q (dget ?q) = x_hw x ! taken x" "dma_list ?g = drop (Suc (taken x)) (x_hw x)"
    using g(3) lst Cons_nth_drop_Suc [OF t(1)] by simp_all
  have ob: "unat (x_OBAtoms x + 1) = Suc (taken x)"
    using o t N by (simp add: unat_word_ariths)
  define x' where "x' = x\<lparr>x_OBAtoms := x_OBAtoms x + 1,
      x_out := (if Overrun ?q then x_out x else x_out x @ [x_hw x ! taken x]),
      x_dma := ?g\<lparr>written := (if Overrun ?q then written ?q else written ?q + 1)\<rparr>,
      x_pc := X_copy (n + 1) m\<rparr>"
  have v: "dma_ok (x_dma x')" "Suc (dlen (x_dma x')) = dlen ?q" "dma_list (x_dma x') = drop (Suc (taken x)) (x_hw x)"
    using g hd(2) dma_view [of "x_dma x'" ?g] by (simp_all add: x'_def)
  have t': "taken x' = Suc (taken x)" using v(2) l(2) by (simp add: taken_def) (simp add: x'_def)
  have out: "prefix (x_out x') (take (taken x') (x_hw x))" "Overrun ?q \<or> x_out x' = take (taken x') (x_hw x)"
  proof -
    have tk: "take (taken x') (x_hw x) = take (taken x) (x_hw x) @ [x_hw x ! taken x]"
      unfolding t' using t(1) by (rule take_Suc_conv_app_nth)
    have xo: "x_out x' = (if Overrun ?q then x_out x else x_out x @ [x_hw x ! taken x])"
      by (simp add: x'_def)
    show "prefix (x_out x') (take (taken x') (x_hw x))" "Overrun ?q \<or> x_out x' = take (taken x') (x_hw x)"
      unfolding tk xo using pre eq by (auto intro: prefix_prefix)
  qed
  have wl: "unat (written (x_dma x')) = length (x_out x')"
  proof (cases "Overrun ?q")
    case False
    then have "length (x_out x) = taken x" using eq t by simp
    then show ?thesis using w t(2) N False by (simp add: x'_def unat_word_ariths)
  qed (simp add: x'_def w)
  have same: "x_hw x' = x_hw x" "remaining (x_dma x') = remaining ?q" "Overrun (x_dma x') = Overrun ?q"
    by (simp_all add: x'_def)
  have "dlen (x_dma x') \<le> length (x_hw x)" using v(2) l(2) by simp
  then have "xfer_data N x'"
    unfolding xfer_data_def Let_def same using v(1,3) l(1) out wl t' by simp
  moreover have "xfer_cmd_ok x'"
    using cm v(2) dma_view [of ?g "?g\<lparr>written := w\<rparr>" for w]
    by (auto simp: xfer_cmd_ok_def x'_def block_ok_def dput_def split: option.splits)
  ultimately have inv': "xfer_inv user N x'"
    using m v(2) ob t' False by (simp add: xfer_inv_def) (simp add: x'_def)
  have "xfer_copy user N n m i x = (if \<not> Overrun ?q \<and> user \<and> xi_copy_fails i
      then x\<lparr>x_OBAtoms := x_OBAtoms x + 1, x_pc := X_done (Inl EFAULT)\<rparr> else x')"
    using False lt hd(1)
    by (cases "Overrun ?q") (simp_all add: xfer_copy_def Let_def x'_def dget_def)
  then consider "xfer_copy user N n m i x = x\<lparr>x_OBAtoms := x_OBAtoms x + 1, x_pc := X_done (Inl EFAULT)\<rparr>" "user"
    | "xfer_copy user N n m i x = x'"
    by (cases "\<not> Overrun ?q \<and> user \<and> xi_copy_fails i") (simp_all only: if_True if_False simp_thms)
  then show ?thesis
  proof cases
    case 1
    then show ?thesis
      using d cm by (cases "x_cmd x") (auto simp: xfer_inv_def xfer_data_def xfer_cmd_ok_def taken_def)
  qed (simp add: inv')
qed

lemma step_inv:
  assumes inv: "xfer_inv user N x" and N: "unat N < 2 ^ 31"
  shows "xfer_inv user N (xfer_step hz user N i x)"
proof -
  have d: "xfer_data N x" "xfer_cmd_ok x" "xfer_pc_ok user (x_pc x) x"
    "is_done (x_pc x) \<or> unat (x_OBAtoms x) = taken x"
    using inv by (simp_all add: xfer_inv_def)
  show ?thesis
  proof (cases "x_pc x")
    case X_start
    then show ?thesis using d(3) by simp
  next
    case (X_sync n)
    then show ?thesis using d by (simp add: xfer_step_def sync_inv)
  next
    case X_command
    then show ?thesis
      using command [OF sizing(1,3) [OF d(1) N], of X_wait] sizing(2) [OF d(1) N] d(4)
      by (simp add: xfer_step_def xfer_inv_def) (simp add: libera_dma_command_def)
  next
    case X_wait
    then show ?thesis using wait_inv [OF inv] by (simp add: xfer_step_def)
  next
    case (X_copy n m)
    then show ?thesis using copy_inv [OF inv _ N] by (simp add: xfer_step_def)
  next
    case X_yield
    then show ?thesis using yield_inv [OF inv] by (simp add: xfer_step_def)
  next
    case X_restart
    then show ?thesis using restart_inv [OF inv] by (simp add: xfer_step_def)
  next
    case (X_resync n)
    then show ?thesis using d by (simp add: xfer_step_def sync_inv)
  next
    case X_recommand
    then show ?thesis using recommand_inv [OF inv _ N] by (simp add: xfer_step_def)
  next
    case X_cond
    have ok: "dma_ok (x_dma x)" using d(1) by (simp add: xfer_data_def Let_def)
    show ?thesis
      using X_cond inv dma_empty [OF ok] by (simp add: xfer_step_def xfer_inv_pc all_read_def)
  next
    case X_end
    then show ?thesis using end_inv [OF inv] by (simp add: xfer_step_def)
  next
    case (X_done r)
    then show ?thesis using inv by (simp add: xfer_step_def)
  qed
qed

lemma start_inv: "xfer_inv user N (xfer_start N i (xfer_init q))"
proof -
  let ?x = "xfer_start N i (xfer_init q)"
  have "dput (x_dma ?x) = 0" "dget (x_dma ?x) = 0"
    by (simp_all add: xfer_start_def Let_def flushDMA_FIFO_def dput_def dget_def libera_dma_get_DMAC_csize_def)
  moreover from this have "dlen (x_dma ?x) = 0" by (simp add: dlen_def)
  ultimately show ?thesis
    by (simp add: xfer_inv_def xfer_data_def dma_ok_def dma_list_def taken_def xfer_cmd_ok_def)
       (simp add: xfer_start_def xfer_init_def Let_def flushDMA_FIFO_def libera_dma_get_DMAC_csize_def)
qed

section \<open>Runs\<close>

text \<open>
  What is relied on of the DMA controller: a command of \<open>b\<close> bytes delivers \<open>b\<close> bytes, in atoms of 32.
\<close>

fun dmac_exact :: "nat \<Rightarrow> bool \<Rightarrow> u32 \<Rightarrow> xfer_action list \<Rightarrow> xfer \<Rightarrow> bool" where
  "dmac_exact hz user N [] x = True"
| "dmac_exact hz user N (a # as) x =
     ((case a of
         Reader i \<Rightarrow> True
       | Dmac atoms st \<Rightarrow> (case x_cmd x of None \<Rightarrow> True | Some (s, b) \<Rightarrow> 32 * length atoms = unat b))
      \<and> dmac_exact hz user N as (xfer_act hz user N a x))"

lemma xfer_run_simps [simp]:
  "xfer_run hz user N [] x = x"
  "xfer_run hz user N (a # as) x = xfer_run hz user N as (xfer_act hz user N a x)"
  by (simp_all add: xfer_run_def)

lemma run_inv:
  "xfer_inv user N x \<Longrightarrow> unat N < 2 ^ 31 \<Longrightarrow> dmac_exact hz user N as x \<Longrightarrow>
     xfer_inv user N (xfer_run hz user N as x)"
proof (induction as arbitrary: x)
  case (Cons a as)
  have "xfer_inv user N (xfer_act hz user N a x)"
  proof (cases a)
    case (Reader i)
    then show ?thesis using step_inv Cons.prems(1,2) by (simp add: xfer_act_def)
  next
    case (Dmac atoms st)
    show ?thesis
    proof (cases "x_cmd x")
      case None
      then show ?thesis using Dmac Cons.prems(1) by (simp add: xfer_act_def)
    next
      case (Some c)
      obtain s b where "c = (s, b)" by fastforce
      then show ?thesis
        using xfer_inv_interrupt [of user N x s b atoms st] Dmac Some Cons.prems
        by (simp add: xfer_act_def)
    qed
  qed
  then show ?case using Cons by simp
qed simp

text \<open>Before its first step the reader has no command in flight, so only that step has an effect.\<close>

lemma init_run:
  assumes N: "unat N < 2 ^ 31" and ex: "dmac_exact hz user N as (xfer_init q)"
  defines "x \<equiv> xfer_run hz user N as (xfer_init q)"
  shows "x = xfer_init q \<or> xfer_inv user N x"
  using ex unfolding x_def
proof (induction as)
  case (Cons a as)
  show ?case
  proof (cases a)
    case (Reader i)
    have "xfer_act hz user N a (xfer_init q) = xfer_start N i (xfer_init q)"
      by (simp add: Reader xfer_act_def xfer_step_def) (simp add: xfer_init_def)
    then show ?thesis
      using run_inv [OF start_inv N, of hz user as i q] Cons.prems by simp
  next
    case (Dmac atoms st)
    have "xfer_act hz user N a (xfer_init q) = xfer_init q"
      by (simp add: Dmac xfer_act_def xfer_init_def)
    then show ?thesis using Cons by simp
  qed
qed simp

text \<open>C19.
  A DMA transfer that succeeds delivers the right data, however the interrupts of the DMA
  controller interleave with the reader: the atoms copied out are a prefix of those the controller
  delivered and as many as the call reports, and without an overrun of the circular buffer they are
  all of them and exactly as many as requested. If it fails, the error is an I/O error, an
  interrupted wait, or a failed copy to user space: the branches for an empty or an overflowing DMA
  FIFO and for a wrong number of atoms are never taken.
\<close>

theorem dma_transfer_delivers:
  assumes "libera_dd_transfer_OBfifo_DMA hz user N as q = Ret (x, r)"
    and "unat N < 2 ^ 31" "dmac_exact hz user N as (xfer_init q)"
  shows "case r of
      Inr n \<Rightarrow> unat n = length (x_out x) \<and> prefix (x_out x) (x_hw x)
        \<and> (Overrun (x_dma x) \<or> x_out x = x_hw x \<and> n = N)
    | Inl e \<Rightarrow> e = EIO \<or> e = ERESTARTSYS \<or> e = EFAULT \<and> user"
proof -
  have x: "x = xfer_run hz user N as (xfer_init q)" and pc: "x_pc x = X_done r"
    using assms(1) by (auto simp: libera_dd_transfer_OBfifo_DMA_def Let_def split: xfer_pc.splits)
  have "x \<noteq> xfer_init q" using pc by (auto simp: xfer_init_def)
  then have inv: "xfer_inv user N x" using init_run [OF assms(2,3)] x by simp
  show ?thesis
  proof (cases r)
    case (Inl e)
    then show ?thesis using inv pc by (simp add: xfer_inv_def)
  next
    case (Inr n)
    have n: "n = written (x_dma x)" and ar: "all_read x" and d: "xfer_data N x"
      using inv pc Inr by (simp_all add: xfer_inv_def)
    have p: "prefix (x_out x) (x_hw x)"
      using d by (auto simp: xfer_data_def Let_def intro: prefix_order.trans [OF _ take_is_prefix])
    have "Overrun (x_dma x) \<or> x_out x = x_hw x \<and> n = N"
      using d ar n by (auto simp: all_read_def xfer_data_def taken_def Let_def word_unat_eq_iff)
    then show ?thesis using Inr d n p by (simp add: xfer_data_def Let_def)
  qed
qed

text \<open>C39.
  A block of the DMA controller never leaves the DMA buffer and never reaches an atom that has not
  been read: at every moment of a transfer the command in flight starts at the slot the reader will
  reach last, ends inside the buffer, and fits in the free slots with one to spare.
\<close>

theorem dma_block_in_bounds:
  assumes "unat N < 2 ^ 31" "dmac_exact hz user N as (xfer_init q)"
    and "x_cmd (xfer_run hz user N as (xfer_init q)) = Some (slot, bytes)"
  shows "let d = x_dma (xfer_run hz user N as (xfer_init q)) in
    slot = unat (dma_put d) \<and> 32 * slot + unat bytes \<le> 32 * 4096
    \<and> unat (lenDMA_FIFO d) + unat bytes div 32 < 4096"
proof -
  let ?x = "xfer_run hz user N as (xfer_init q)" and ?d = "x_dma (xfer_run hz user N as (xfer_init q))"
  have "?x \<noteq> xfer_init q" using assms(3) by (auto simp: xfer_init_def)
  then have inv: "xfer_inv user N ?x" using init_run [OF assms(1,2)] by simp
  have b: "block_ok ?d" "slot = dput ?d" "bytes = csize ?d * DD_ATOM_BYTES" "dma_ok ?d"
    using inv assms(3) by (auto simp: xfer_inv_def xfer_cmd_ok_def xfer_data_def Let_def)
  have "32 * slot + unat bytes \<le> 32 * 4096"
    using b command_bytes [OF b(1)] by (simp add: block_ok_def)
  moreover have "unat (lenDMA_FIFO ?d) + unat bytes div 32 < 4096"
    using b command_bytes [OF b(1)] lenDMA_unat [OF b(4)] by (simp add: block_ok_def)
  ultimately show ?thesis using b(2) by (simp add: Let_def dput_def)
qed

text \<open>A transfer of two atoms in one block, for the witnesses.\<close>

definition rd :: xfer_action where
  "rd = Reader \<lparr>xi_status = 2, xi_signal = False, xi_pm_entry = False, xi_copy_fails = False, xi_yield = False\<rparr>"

definition rd0 :: xfer_action where
  "rd0 = Reader \<lparr>xi_status = 0, xi_signal = False, xi_pm_entry = False, xi_copy_fails = False, xi_yield = False\<rparr>"

definition two_atoms :: "xfer_action list" where
  "two_atoms = [rd, rd, rd, Dmac [[1], [2]] 0] @ replicate 8 rd0"

lemma two_atoms_run:
  "x_pc (xfer_run 100 True 2 two_atoms (xfer_init init_dma)) = X_done (Inr 2)"
  "dmac_exact 100 True 2 two_atoms (xfer_init init_dma)"
  "x_hw (xfer_run 100 True 2 two_atoms (xfer_init init_dma)) = [[1], [2]]"
  "Overrun (x_dma (xfer_run 100 True 2 two_atoms (xfer_init init_dma))) = False"
  by code_simp+

lemma first_block:
  "x_cmd (xfer_run 100 True 2 [rd, rd, rd] (xfer_init init_dma)) = Some (0, 64)"
  "dmac_exact 100 True 2 [rd, rd, rd] (xfer_init init_dma)"
  by code_simp+

theorem dma_transfer_delivers_witness:
  "\<exists>x. libera_dd_transfer_OBfifo_DMA 100 True 2 two_atoms init_dma = Ret (x, Inr 2) \<and> x_out x = [[1], [2]]"
proof -
  let ?x = "xfer_run 100 True 2 two_atoms (xfer_init init_dma)"
  have c: "libera_dd_transfer_OBfifo_DMA 100 True 2 two_atoms init_dma = Ret (?x, Inr 2)"
    by (simp add: libera_dd_transfer_OBfifo_DMA_def two_atoms_run(1))
  show ?thesis
    using dma_transfer_delivers [OF c _ two_atoms_run(2)] c two_atoms_run(3,4) by simp
qed

theorem dma_block_in_bounds_witness:
  "let d = x_dma (xfer_run 100 True 2 [rd, rd, rd] (xfer_init init_dma)) in
    0 = unat (dma_put d) \<and> 32 * 0 + unat (64 :: u32) \<le> 32 * 4096
    \<and> unat (lenDMA_FIFO d) + unat (64 :: u32) div 32 < 4096"
  by (rule dma_block_in_bounds [OF _ first_block(2,1)]) simp

end
