(* ===== verification/Libera_Dd.thy ===== *)
theory Libera_Dd
  imports Libera_Dma
begin

text \<open>
  The data-on-demand device (\<open>libera_dd.c\<close> and its part of \<open>ebpp.c\<close>) and the post-mortem device
  (\<open>libera_pm.c\<close>): the command to the circular buffer, waiting for the requested time, seeking
  and reading by system time, machine time or trigger, acquiring and reading the post-mortem
  buffer.

  Each call is atomic, so the device mutex is held by nobody else in it; it is written in the
  state only where a call returns without releasing it.
\<close>

section \<open>Command to the circular buffer\<close>

definition DD_MAX_NOATOMS :: u32 where "DD_MAX_NOATOMS = 0x400000"
definition DD_CBH_DEC_64 :: u32 where "DD_CBH_DEC_64 = 1"
definition DD_CBH_DEC_1 :: u32 where "DD_CBH_DEC_1 = 0"

definition libera_dd_write_CBfifo :: "u32 \<Rightarrow> u32 \<Rightarrow> u32 \<Rightarrow> kernel \<Rightarrow> kernel \<times> (errno + int)" where
  "libera_dd_write_CBfifo cb_StartAddr cb_NoAtoms dcm k =
     (let cb_FiltDec = (if 1 < dcm then DD_CBH_DEC_64 else DD_CBH_DEC_1);
          cb_NoAtoms = cb_NoAtoms * dcm
      in if DD_MAX_NOATOMS < cb_NoAtoms then (k, Inl EINVAL)
         else
           let cbFIFO_H = push_bit 30 (cb_FiltDec AND (push_bit 2 1 - 1))
                 OR (cb_StartAddr AND (push_bit 21 1 - 1));
               cbFIFO_L = push_bit 0 (cb_NoAtoms AND (push_bit 22 1 - 1))
           in (reg_write cbFIFO_L DD_CB_FIFO_L (reg_write cbFIFO_H DD_CB_FIFO_H k), Inr 0))"

section \<open>Descriptors\<close>

datatype dd_time_t = LIBERA_DD_TIME_IMPLICIT | LIBERA_DD_TIME_EXPLICIT_ST | LIBERA_DD_TIME_EXPLICIT_MT

record libera_Qtimestamp_t =
  qU :: libera_timestamp_t
  qL :: libera_Ltimestamp_t
  request :: dd_time_t
  trigoffset :: s64

record libera_dd_local_t =
  dec :: u32
  Qts :: libera_Qtimestamp_t
  dd_tstamp :: libera_timestamp_t

text \<open>\<open>memset\<close> to zero, then the decimation.\<close>

definition fresh_dd_local :: libera_dd_local_t where
  "fresh_dd_local = \<lparr>dec = 1,
     Qts = \<lparr>qU = zero_timestamp, qL = \<lparr>lst = 0, lmt = 0\<rparr>, request = LIBERA_DD_TIME_IMPLICIT, trigoffset = 0\<rparr>,
     dd_tstamp = zero_timestamp\<rparr>"

text \<open>\<open>readers\<close> is counted before the allocation, and stays so when it fails.\<close>

definition libera_dd_open ::
  "filp \<Rightarrow> bool \<Rightarrow> kernel \<Rightarrow> (kernel \<times> libera_dd_local_t option \<times> (errno + int)) call" where
  "libera_dd_open f kmalloc_ok k =
     (if sem (dd k) then Hang
      else if fmode_write f then Ret (k, None, Inl EACCES)
      else
        let k = k\<lparr>dd := (dd k)\<lparr>readers := readers (dd k) + 1\<rparr>\<rparr> in
        if \<not> kmalloc_ok then Ret (k, None, Inl ENOMEM)
        else Ret (k\<lparr>dd := (dd k)\<lparr>open_count := open_count (dd k) + 1\<rparr>, live_allocs := live_allocs k + 1\<rparr>,
               Some fresh_dd_local, Inr 0))"

definition libera_dd_release :: "kernel \<Rightarrow> kernel" where
  "libera_dd_release k =
     k\<lparr>dd := (dd k)\<lparr>open_count := open_count (dd k) - 1, readers := readers (dd k) - 1\<rparr>,
       live_allocs := live_allocs k - 1\<rparr>"

section \<open>Seeking\<close>

text \<open>
  The offset of \<open>lseek\<close> carries a \<open>timespec\<close> (seconds in the low word) or a machine time; zero
  asks for the current time.
\<close>

definition timespec_of :: "s64 \<Rightarrow> timespec" where
  "timespec_of time = \<lparr>tv_sec = ucast time, tv_nsec = ucast (drop_bit 32 time)\<rparr>"

definition set_qts :: "libera_Qtimestamp_t \<Rightarrow> libera_dd_local_t \<Rightarrow> libera_dd_local_t" where
  "set_qts q loc = loc\<lparr>Qts := q\<rparr>"

definition libera_dd_llseek_specific ::
  "bool \<Rightarrow> wake list \<Rightarrow> s64 \<Rightarrow> nat \<Rightarrow> libera_dd_local_t \<Rightarrow> kernel
     \<Rightarrow> (kernel \<times> libera_dd_local_t \<times> (errno + int)) call" where
  "libera_dd_llseek_specific sig ws time whence loc k =
     (if whence = 0 then
        let q = (Qts loc)\<lparr>request := LIBERA_DD_TIME_EXPLICIT_ST\<rparr> in
        if time = 0 then
          call_bind (libera_get_CTIME sig ws k) (\<lambda>(k, r).
            case r of
              Inl e \<Rightarrow> Ret (k, set_qts q loc, Inl e)
            | Inr ctime \<Rightarrow>
                Ret (k, set_qts (q\<lparr>qL := (qL q)\<lparr>lst := lst ctime\<rparr>,
                  qU := (qU q)\<lparr>ts_st := lst2st (lst ctime)\<rparr>\<rparr>) loc, Inr 0))
        else
          Ret (k, set_qts (q\<lparr>qU := (qU q)\<lparr>ts_st := timespec_of time\<rparr>,
            qL := (qL q)\<lparr>lst := st2lst (timespec_of time)\<rparr>\<rparr>) loc, Inr 0)
      else if whence = 1 then
        let q = (Qts loc)\<lparr>request := LIBERA_DD_TIME_EXPLICIT_MT\<rparr> in
        if time = 0 then
          call_bind (libera_get_CTIME sig ws k) (\<lambda>(k, r).
            case r of
              Inl e \<Rightarrow> Ret (k, set_qts q loc, Inl e)
            | Inr ctime \<Rightarrow>
                (case lmt2mt (lgbl_d k) (lmt ctime) of
                   None \<Rightarrow> Fault
                 | Some mt \<Rightarrow>
                     Ret (k, set_qts (q\<lparr>qL := (qL q)\<lparr>lmt := lmt ctime\<rparr>,
                       qU := (qU q)\<lparr>ts_mt := mt\<rparr>\<rparr>) loc, Inr 0)))
        else
          Ret (k, set_qts (q\<lparr>qU := (qU q)\<lparr>ts_mt := time\<rparr>,
            qL := (qL q)\<lparr>lmt := mt2lmt (lgbl_d k) time\<rparr>\<rparr>) loc, Inr 0)
      else if whence = 2 then
        Ret (k, set_qts ((Qts loc)\<lparr>request := LIBERA_DD_TIME_IMPLICIT, trigoffset := time\<rparr>) loc, Inr 0)
      else Ret (k, loc, Inl EINVAL))"

definition libera_dd_llseek ::
  "bool \<Rightarrow> wake list \<Rightarrow> s64 \<Rightarrow> nat \<Rightarrow> libera_dd_local_t \<Rightarrow> kernel
     \<Rightarrow> (kernel \<times> libera_dd_local_t \<times> (errno + int)) call" where
  "libera_dd_llseek = libera_dd_llseek_specific"

section \<open>Waiting for the requested time\<close>

definition LIBERA_DD_CIRCBUF_ATOMS :: u32 where "LIBERA_DD_CIRCBUF_ATOMS = 2097152"
definition LIBERA_DD_MAX_INADVANCE :: u32 where "LIBERA_DD_MAX_INADVANCE = 5 * LIBERA_DD_CIRCBUF_ATOMS"
definition LIBERA_DD_READSYNC_MARGIN :: u32 where "LIBERA_DD_READSYNC_MARGIN = 64"

definition LIBERA_DD_CIRCBUF_SAFE :: "u32 \<Rightarrow> u32" where
  "LIBERA_DD_CIRCBUF_SAFE d = (LIBERA_DD_CIRCBUF_ATOMS * d) div 10"

text \<open>The sleep, in jiffies; \<open>hz\<close> is the kernel's \<open>HZ\<close>. \<open>None\<close> is a division by zero.\<close>

definition lmt_timeout :: "u64 \<Rightarrow> kernel \<Rightarrow> u64 \<Rightarrow> s32 option" where
  "lmt_timeout hz k delay = map_option (\<lambda>j. ucast (j + 1)) (div_u64 (delay * ucast FLMC_DECI_HZ * hz) (flmcdHz k))"

definition lst_timeout :: "u64 \<Rightarrow> kernel \<Rightarrow> u64 \<Rightarrow> s32 option" where
  "lst_timeout hz k delay = map_option (\<lambda>j. ucast (j + 1)) (div_u64 (delay * hz) LSC_FREQ)"

text \<open>
  The sleeps of the waiting loop: after each the current time is read again, with its own signal
  and wake-ups. The two functions of the source differ in the clock and in the length of the sleep.
\<close>

fun wait_loop ::
  "(libera_Ltimestamp_t \<Rightarrow> u64) \<Rightarrow> (kernel \<Rightarrow> u64 \<Rightarrow> s32 option) \<Rightarrow> u64 \<Rightarrow> (bool \<times> wake list) list
     \<Rightarrow> s64 \<Rightarrow> libera_Ltimestamp_t \<Rightarrow> kernel \<Rightarrow> (kernel \<times> libera_Ltimestamp_t \<times> errno option) call" where
  "wait_loop clk timeout start [] delta ctime k =
     (if timeout k (- delta) = None then Fault else Hang)"
| "wait_loop clk timeout start (e # es) delta ctime k =
     (if timeout k (- delta) = None then Fault
      else call_bind (libera_get_CTIME (fst e) (snd e) k) (\<lambda>(k, r).
        case r of
          Inl err \<Rightarrow> Ret (k, ctime, Some err)
        | Inr ctime \<Rightarrow>
            let delta = clk ctime - start - ucast (LIBERA_DD_READSYNC_MARGIN * lgbl_d k) in
            if delta <s 0 then wait_loop clk timeout start es delta ctime k
            else Ret (k, ctime, None)))"

text \<open>The limits are products of 32 bits; they are compared with the differences as 64-bit signed numbers.\<close>

definition wait_clock ::
  "(libera_Ltimestamp_t \<Rightarrow> u64) \<Rightarrow> (kernel \<Rightarrow> u64 \<Rightarrow> s32 option) \<Rightarrow> (bool \<times> wake list) list
     \<Rightarrow> libera_Ltimestamp_t \<Rightarrow> u64 \<Rightarrow> kernel \<Rightarrow> (kernel \<times> libera_Ltimestamp_t \<times> errno option) call" where
  "wait_clock clk timeout es ctime start k =
     (let d = lgbl_d k; delta_start = clk ctime - start in
      if ucast (LIBERA_DD_CIRCBUF_ATOMS * d - LIBERA_DD_CIRCBUF_SAFE d) <s delta_start
      then Ret (k, ctime, Some ENODATA)
      else
        let delta_end = delta_start - ucast (LIBERA_DD_READSYNC_MARGIN * d) in
        if delta_end <s 0 then
          if ucast (LIBERA_DD_MAX_INADVANCE * d) <s - delta_end then Ret (k, ctime, Some EAGAIN)
          else wait_loop clk timeout start es delta_end ctime k
        else Ret (k, ctime, None))"

definition wait_lmt ::
  "u64 \<Rightarrow> (bool \<times> wake list) list \<Rightarrow> libera_Ltimestamp_t \<Rightarrow> u64 \<Rightarrow> kernel
     \<Rightarrow> (kernel \<times> libera_Ltimestamp_t \<times> errno option) call" where
  "wait_lmt hz = wait_clock lmt (lmt_timeout hz)"

definition wait_lst ::
  "u64 \<Rightarrow> (bool \<times> wake list) list \<Rightarrow> libera_Ltimestamp_t \<Rightarrow> u64 \<Rightarrow> kernel
     \<Rightarrow> (kernel \<times> libera_Ltimestamp_t \<times> errno option) call" where
  "wait_lst hz = wait_clock lst (lst_timeout hz)"

section \<open>Commands\<close>

datatype dd_cmd = GET_DEC | SET_DEC "u32 from_user" | GET_DD_TSTAMP | OTHER_DD_CMD | FOREIGN_DD_CMD

datatype dd_out = DdNone | DdDec u32 | DdTstamp libera_timestamp_t

text \<open>A command the device does not know returns with the mutex taken.\<close>

definition libera_dd_ioctl ::
  "dd_cmd \<Rightarrow> ioenv \<Rightarrow> libera_dd_local_t \<Rightarrow> kernel
     \<Rightarrow> (kernel \<times> libera_dd_local_t \<times> (errno + int) \<times> dd_out) call" where
  "libera_dd_ioctl cmd env loc k =
     (if cmd = FOREIGN_DD_CMD then Ret (k, loc, Inl ENOTTY, DdNone)
      else if \<not> io_access env then Ret (k, loc, Inl EFAULT, DdNone)
      else case mutex_lock_interruptible (io_signal env) (sem (dd k)) of
        Interrupted \<Rightarrow> Ret (k, loc, Inl ERESTARTSYS, DdNone)
      | Sleeps \<Rightarrow> Hang
      | Acquired \<Rightarrow>
          (case cmd of
             GET_DEC \<Rightarrow> Ret (k, loc, copy_ret (io_uncopied env), DdDec (dec loc))
           | SET_DEC u \<Rightarrow>
               (if snd u \<noteq> 0 then Ret (k, loc\<lparr>dec := snd u\<rparr>, copy_ret (fst u), DdNone)
                else Ret (k, loc, Inl EINVAL, DdNone))
           | GET_DD_TSTAMP \<Rightarrow> Ret (k, loc, copy_ret (io_uncopied env), DdTstamp (dd_tstamp loc))
           | _ \<Rightarrow> Ret (k\<lparr>dd := (dd k)\<lparr>sem := True\<rparr>\<rparr>, loc, Inl ENOTTY, DdNone)))"

section \<open>Reading\<close>

text \<open>
  What a read meets on its way: the sleep for the current time, the sleeps of the waiting loop, the
  sleep for the DD interrupt, and the steps of the transfer with the DMA controller's; \<open>HZ\<close>.
\<close>

record dd_env =
  de_ctime :: "bool \<times> wake list"
  de_waits :: "(bool \<times> wake list) list"
  de_irq :: "bool \<times> wake list"
  de_actions :: "xfer_action list"
  de_hz :: nat

definition LIBERA_DD_MAX_INTERVAL :: u32 where "LIBERA_DD_MAX_INTERVAL = DD_MAX_NOATOMS"

text \<open>
  The requested time: waiting for it and completing the system and machine time of the request.
  The result is the error of the step that failed; what was already stored in the request stays.
\<close>

type_synonym dd_located = "(kernel \<times> libera_Qtimestamp_t \<times> errno option) call"

definition dd_locate_st :: "dd_env \<Rightarrow> libera_Ltimestamp_t \<Rightarrow> libera_Qtimestamp_t \<Rightarrow> kernel \<Rightarrow> dd_located" where
  "dd_locate_st env ctime q k =
     call_bind (wait_lst (of_nat (de_hz env)) (de_waits env) ctime (lst (qL q)) k) (\<lambda>(k, ctime, e).
       case e of
         Some err \<Rightarrow> Ret (k, q, Some err)
       | None \<Rightarrow>
           (case lst2lmt (flmcdHz k) (lst (qL q)) ctime of
              None \<Rightarrow> Fault
            | Some (Inl err) \<Rightarrow> Ret (k, q, Some err)
            | Some (Inr m) \<Rightarrow>
                (case lmt2mt (lgbl_d k) m of
                   None \<Rightarrow> Fault
                 | Some mt \<Rightarrow>
                     Ret (k, q\<lparr>qL := (qL q)\<lparr>lmt := m\<rparr>, qU := (qU q)\<lparr>ts_mt := mt\<rparr>\<rparr>, None))))"

definition dd_locate_mt :: "dd_env \<Rightarrow> libera_Ltimestamp_t \<Rightarrow> libera_Qtimestamp_t \<Rightarrow> kernel \<Rightarrow> dd_located" where
  "dd_locate_mt env ctime q k =
     call_bind (wait_lmt (of_nat (de_hz env)) (de_waits env) ctime (lmt (qL q)) k) (\<lambda>(k, ctime, e).
       case e of
         Some err \<Rightarrow> Ret (k, q, Some err)
       | None \<Rightarrow>
           (case lmt2lst (flmcdHz k) (lmt (qL q)) ctime of
              None \<Rightarrow> Fault
            | Some (Inl err) \<Rightarrow> Ret (k, q, Some err)
            | Some (Inr t) \<Rightarrow>
                Ret (k, q\<lparr>qL := (qL q)\<lparr>lst := t\<rparr>, qU := (qU q)\<lparr>ts_st := lst2st t\<rparr>\<rparr>, None)))"

definition dd_locate_trigger ::
  "dd_env \<Rightarrow> libera_Ltimestamp_t \<Rightarrow> libera_Qtimestamp_t \<Rightarrow> kernel \<Rightarrow> dd_located" where
  "dd_locate_trigger env ctime q k =
     (let last_trigger = getFromCircBuf (paired_timestamps (event k) T_TRIG_TRIGGER);
          m = lmt last_trigger + trigoffset q * ucast (lgbl_d k);
          q = q\<lparr>qL := \<lparr>lst = lst last_trigger, lmt = m\<rparr>\<rparr>
      in case lmt2lst (flmcdHz k) m last_trigger of
           None \<Rightarrow> Fault
         | Some (Inl err) \<Rightarrow> Ret (k, q, Some err)
         | Some (Inr t) \<Rightarrow>
             (case lmt2mt (lgbl_d k) m of
                None \<Rightarrow> Fault
              | Some mt \<Rightarrow>
                  let q = q\<lparr>qL := (qL q)\<lparr>lst := t\<rparr>, qU := \<lparr>ts_st = lst2st t, ts_mt = mt\<rparr>\<rparr> in
                  call_bind (wait_lmt (of_nat (de_hz env)) (de_waits env) ctime m k) (\<lambda>(k, ctime, e).
                    Ret (k, q, e))))"

definition dd_locate :: "dd_env \<Rightarrow> libera_Ltimestamp_t \<Rightarrow> libera_Qtimestamp_t \<Rightarrow> kernel \<Rightarrow> dd_located" where
  "dd_locate env ctime q k =
     (case request q of
        LIBERA_DD_TIME_EXPLICIT_ST \<Rightarrow> dd_locate_st env ctime q k
      | LIBERA_DD_TIME_EXPLICIT_MT \<Rightarrow> dd_locate_mt env ctime q k
      | LIBERA_DD_TIME_IMPLICIT \<Rightarrow> dd_locate_trigger env ctime q k)"

type_synonym dd_read_result =
  "(kernel \<times> libera_dd_local_t \<times> (errno + int) \<times> libera_atom_dd_t list) call"

text \<open>The exit of a read enables the DD interrupt again.\<close>

definition dd_irq_enable :: "kernel \<Rightarrow> kernel" where
  "dd_irq_enable k = set_irqMask (irqMask k OR LIBERA_INTERRUPT_DD_MASK) k"

definition dd_read_out ::
  "kernel \<Rightarrow> libera_dd_local_t \<Rightarrow> (errno + int) \<Rightarrow> libera_atom_dd_t list \<Rightarrow> dd_read_result" where
  "dd_read_out k loc r atoms = Ret (dd_irq_enable k, loc, r, atoms)"

text \<open>
  After a read the request is the machine time of the next atom; the advance is a product of 32
  bits.
\<close>

definition dd_next_request :: "u32 \<Rightarrow> u32 \<Rightarrow> libera_dd_local_t \<Rightarrow> libera_dd_local_t" where
  "dd_next_request d OB_ret loc =
     (let q = (Qts loc)\<lparr>request := LIBERA_DD_TIME_EXPLICIT_MT\<rparr>;
          mt = ts_mt (qU q) + ucast (OB_ret * dec loc)
      in loc\<lparr>Qts := q\<lparr>qU := (qU q)\<lparr>ts_mt := mt\<rparr>, qL := (qL q)\<lparr>lmt := mt2lmt d mt\<rparr>\<rparr>\<rparr>)"

text \<open>From the located request on: the command, the interrupt, the transfer.\<close>

definition dd_read_data :: "dd_env \<Rightarrow> u32 \<Rightarrow> libera_dd_local_t \<Rightarrow> kernel \<Rightarrow> dd_read_result" where
  "dd_read_data env span_atoms loc k =
     (let loc = loc\<lparr>dd_tstamp := qU (Qts loc)\<rparr> in
      case get_circ_offset_lmt (lgbl_d k) (st_lmt_off (settime (event k))) (HB_start_lmt (event k))
             (lmt (qL (Qts loc))) of
        None \<Rightarrow> Fault
      | Some start \<Rightarrow>
          (case libera_dd_write_CBfifo start span_atoms (dec loc) k of
             (k, Inl e) \<Rightarrow> dd_read_out k loc (Inl e) []
           | (k, Inr _) \<Rightarrow>
               call_bind (getBlockedFromFIFO DDQ (fst (de_irq env)) (snd (de_irq env)) k) (\<lambda>(k, r).
                 case r of
                   Inl e \<Rightarrow> dd_read_out k loc (Inr 0) []
                 | Inr _ \<Rightarrow>
                     call_bind (libera_dd_transfer_OBfifo_DMA (de_hz env) True span_atoms
                       (de_actions env) (dma k)) (\<lambda>(x, r).
                       let k = k\<lparr>dma := x_dma x\<rparr> in
                       case r of
                         Inl e \<Rightarrow>
                           dd_read_out (reg_write 0 DD_CB_FIFO_RESET k) loc
                             (Inr (sint (written (dma k) * DD_ATOM_BYTES))) (x_out x)
                       | Inr OB_ret \<Rightarrow>
                           dd_read_out k (dd_next_request (lgbl_d k) OB_ret loc)
                             (Inr (sint (OB_ret * DD_ATOM_BYTES))) (x_out x)))))"

definition libera_dd_read_specific ::
  "bool \<Rightarrow> dd_env \<Rightarrow> u32 \<Rightarrow> libera_dd_local_t \<Rightarrow> kernel \<Rightarrow> dd_read_result" where
  "libera_dd_read_specific sig env count loc k =
     (case mutex_lock_interruptible sig (sem (dd k)) of
        Interrupted \<Rightarrow> Ret (k, loc, Inl ERESTARTSYS, [])
      | Sleeps \<Rightarrow> Hang
      | Acquired \<Rightarrow>
          if LIBERA_DD_MAX_INTERVAL * DD_ATOM_BYTES < count then dd_read_out k loc (Inl EINVAL) []
          else if count mod DD_ATOM_BYTES \<noteq> 0 then dd_read_out k loc (Inl EINVAL) []
          else
            let span_atoms = count div DD_ATOM_BYTES in
            if span_atoms = 0 then dd_read_out k (dd_next_request (lgbl_d k) 0 loc) (Inr 0) []
            else
              call_bind (libera_get_CTIME (fst (de_ctime env)) (snd (de_ctime env)) k) (\<lambda>(k, r).
                case r of
                  Inl e \<Rightarrow> dd_read_out k loc (Inl e) []
                | Inr ctime \<Rightarrow>
                    call_bind (dd_locate env ctime (Qts loc) k) (\<lambda>(k, q, err).
                      let loc = set_qts q loc in
                      case err of
                        Some e \<Rightarrow> dd_read_out k loc (Inl e) []
                      | None \<Rightarrow> dd_read_data env span_atoms loc k)))"

section \<open>Post-mortem acquisition\<close>

text \<open>
  The mutex of the DD device is tried 31 times; \<open>held i\<close> tells whether another process has it
  at try \<open>i\<close>. A mutex left taken in the state is never free.
\<close>

definition acq_pm_locks :: "(nat \<Rightarrow> bool) \<Rightarrow> kernel \<Rightarrow> bool" where
  "acq_pm_locks held k = (\<not> sem (dd k) \<and> (\<exists>i \<in> set [0..<31]. \<not> held i))"

definition pm_start :: "u64 \<Rightarrow> kernel \<Rightarrow> u64" where
  "pm_start t k = t + scast ((cfg_param (cfg k) LIBERA_CFG_PMOFFSET - pmsize k) * lgbl_d k)"

text \<open>
  An error before the transfer leaves the DD interrupt as it is. The transfer writes to the kernel
  buffer what it has read, also when it fails.
\<close>

definition acq_pm_data :: "dd_env \<Rightarrow> u64 \<Rightarrow> kernel \<Rightarrow> (kernel \<times> (errno + int)) call" where
  "acq_pm_data env LMTstart k =
     (case get_circ_offset_lmt (lgbl_d k) (st_lmt_off (settime (event k))) (HB_start_lmt (event k)) LMTstart of
        None \<Rightarrow> Fault
      | Some start \<Rightarrow>
          (case libera_dd_write_CBfifo start (pmsize k) (cfg_param (cfg k) LIBERA_CFG_PMDEC) k of
             (k, Inl e) \<Rightarrow> Ret (k, Inl e)
           | (k, Inr _) \<Rightarrow>
               call_bind (getBlockedFromFIFO DDQ (fst (de_irq env)) (snd (de_irq env)) k) (\<lambda>(k, r).
                 case r of
                   Inl e \<Rightarrow> Ret (k, Inl e)
                 | Inr _ \<Rightarrow>
                     call_bind (libera_dd_transfer_OBfifo_DMA (de_hz env) False (pmsize k)
                       (de_actions env) (dma k)) (\<lambda>(x, r).
                       let k = k\<lparr>dma := x_dma x, pm := (pm k)\<lparr>pm_buf := dmac_write 0 (x_out x) (pm_buf (pm k))\<rparr>\<rparr>;
                           k = dd_irq_enable k
                       in case r of
                            Inl e \<Rightarrow> Ret (k, Inl e)
                          | Inr n \<Rightarrow> if n < pmsize k then Ret (k, Inl EIO) else Ret (k, Inr 0)))))"

definition acq_pm_wait :: "dd_env \<Rightarrow> u64 \<Rightarrow> kernel \<Rightarrow> (kernel \<times> (errno + int)) call" where
  "acq_pm_wait env LMTstart k =
     call_bind (libera_get_CTIME (fst (de_ctime env)) (snd (de_ctime env)) k) (\<lambda>(k, r).
       case r of
         Inl e \<Rightarrow> Ret (k, Inl e)
       | Inr ctime \<Rightarrow>
           call_bind (wait_lmt (of_nat (de_hz env)) (de_waits env) ctime LMTstart k) (\<lambda>(k, ctime, err).
             case err of
               Some e \<Rightarrow> Ret (k, Inl e)
             | None \<Rightarrow> acq_pm_data env LMTstart k))"

definition set_pm_entry :: "s32 \<Rightarrow> kernel \<Rightarrow> kernel" where
  "set_pm_entry b k = k\<lparr>dd := (dd k)\<lparr>pm_entry := b\<rparr>\<rparr>"

definition libera_acq_pm ::
  "(nat \<Rightarrow> bool) \<Rightarrow> dd_env \<Rightarrow> kernel \<Rightarrow> (kernel \<times> (errno + int)) call" where
  "libera_acq_pm held env k =
     (let k = set_pm_entry 0 (set_pm_entry 1 k) in
      if \<not> acq_pm_locks held k then Ret (k, Inl EBUSY)
      else
        let ev = getFromCircBuf (paired_timestamps (event k) T_TRIG_POST_MORTEM);
            k = k\<lparr>pm := (pm k)\<lparr>PMevent := ev\<rparr>\<rparr>
        in case lmt2mt (lgbl_d k) (lmt ev) of
             None \<Rightarrow> Fault
           | Some mt \<Rightarrow>
               let k = k\<lparr>pm := (pm k)\<lparr>pm_tstamp := \<lparr>ts_st = lst2st (lst ev), ts_mt = mt\<rparr>\<rparr>\<rparr>;
                   LMTstart = pm_start (lmt ev) k
               in acq_pm_wait env LMTstart k)"

section \<open>Post-mortem device\<close>

definition libera_pm_open :: "filp \<Rightarrow> kernel \<Rightarrow> (kernel \<times> (errno + int)) call" where
  "libera_pm_open f k =
     (if sem (pm k) then Hang
      else if fmode_write f then Ret (k, Inl EACCES)
      else
        let dev = pm k;
            dev = (if master_filp dev = None then dev\<lparr>master_filp := Some (file_id f)\<rparr> else dev);
            dev = dev\<lparr>readers := readers dev + 1, open_count := open_count dev + 1\<rparr>
        in Ret (k\<lparr>pm := dev\<rparr>, Inr 0))"

definition libera_pm_release :: "kernel \<Rightarrow> kernel" where
  "libera_pm_release k =
     (let dev = (pm k)\<lparr>open_count := open_count (pm k) - 1, readers := readers (pm k) - 1\<rparr>;
          dev = (if readers dev = 0 then dev\<lparr>master_filp := None\<rparr> else dev)
      in k\<lparr>pm := dev\<rparr>)"

definition libera_pm_read ::
  "bool \<Rightarrow> u32 \<Rightarrow> bool \<Rightarrow> kernel \<Rightarrow> ((errno + int) \<times> libera_atom_dd_t list) call" where
  "libera_pm_read sig count copy_fails k =
     (case mutex_lock_interruptible sig (sem (pm k)) of
        Interrupted \<Rightarrow> Ret (Inl ERESTARTSYS, [])
      | Sleeps \<Rightarrow> Hang
      | Acquired \<Rightarrow>
          if pmsize k * DD_ATOM_BYTES < count then Ret (Inl EINVAL, [])
          else if count mod DD_ATOM_BYTES \<noteq> 0 then Ret (Inl EINVAL, [])
          else
            let span_atoms = count div DD_ATOM_BYTES;
                first = pmsize k - span_atoms
            in if copy_fails then Ret (Inl EFAULT, [])
               else Ret (Inr (sint (span_atoms * DD_ATOM_BYTES)),
                 map (pm_buf (pm k)) [unat first..<unat first + unat span_atoms]))"

datatype pm_cmd = GET_PM_TSTAMP | OTHER_PM_SET | OTHER_PM_CMD | FOREIGN_PM_CMD

definition libera_pm_ioctl ::
  "filp \<Rightarrow> pm_cmd \<Rightarrow> ioenv \<Rightarrow> kernel \<Rightarrow> (kernel \<times> (errno + int) \<times> dd_out) call" where
  "libera_pm_ioctl f cmd env k =
     (if cmd = FOREIGN_PM_CMD then Ret (k, Inl ENOTTY, DdNone)
      else if \<not> io_access env then Ret (k, Inl EFAULT, DdNone)
      else if cmd = OTHER_PM_SET \<and> master_filp (pm k) \<noteq> Some (file_id f) then Ret (k, Inl EPERM, DdNone)
      else case mutex_lock_interruptible (io_signal env) (sem (pm k)) of
        Interrupted \<Rightarrow> Ret (k, Inl ERESTARTSYS, DdNone)
      | Sleeps \<Rightarrow> Hang
      | Acquired \<Rightarrow>
          if cmd = GET_PM_TSTAMP
          then Ret (k, copy_ret (io_uncopied env), DdTstamp (pm_tstamp (pm k)))
          else Ret (k\<lparr>pm := (pm k)\<lparr>sem := True\<rparr>\<rparr>, Inl ENOTTY, DdNone))"

end
