(* ===== verification/Libera_Dd_Props.thy ===== *)
theory Libera_Dd_Props
  imports Libera_Dd Libera_Dma_Props
begin

text \<open>
  Properties of the data-on-demand and post-mortem devices: the command to the circular buffer,
  the wait for the requested time, consecutive reads, the errors a read reports and those it hides,
  the mutex an unknown command keeps, and the post-mortem buffer.
\<close>

section \<open>The command\<close>

text \<open>The command words as the FPGA reads them.\<close>

definition cb_start :: "u32 \<Rightarrow> u32" where "cb_start h = take_bit 21 h"
definition cb_filter :: "u32 \<Rightarrow> u32" where "cb_filter h = drop_bit 30 h"

lemma width_masks [masked_word]:
  "push_bit 2 1 - 1 = (mask 2 :: u32)" "push_bit 21 1 - 1 = (mask 21 :: u32)"
  "push_bit 22 1 - 1 = (mask 22 :: u32)"
  by (simp_all add: mask_eq_exp_minus_1)

definition cb_high :: "u32 \<Rightarrow> u32 \<Rightarrow> u32" where
  "cb_high f s = push_bit 30 (f AND mask 2) OR (s AND mask 21)"

lemma cb_high_decode:
  assumes "f = 0 \<or> f = 1"
  shows "cb_start (cb_high f s) = take_bit 21 s" and "cb_filter (cb_high f s) = f"
proof -
  have s: "drop_bit 30 (s AND mask 21) = 0" "take_bit 21 (s AND mask 21) = take_bit 21 s" for s :: u32
    by (rule bit_eqI; auto simp: bit_simps)+
  have p: "push_bit 30 (f AND mask 2) = (if f = 0 then 0 else 0x40000000)"
    using assms by (auto simp: mask_eq_exp_minus_1)
  show "cb_start (cb_high f s) = take_bit 21 s"
    unfolding cb_high_def cb_start_def p take_bit_or s by simp
  show "cb_filter (cb_high f s) = f"
    unfolding cb_high_def cb_filter_def p drop_bit_or s using assms by auto
qed

lemma write_CBfifo_cases:
  "libera_dd_write_CBfifo s n c k =
     (if 0x400000 < n * c then (k, Inl EINVAL)
      else (reg_write ((n * c) AND mask 22) DD_CB_FIFO_L
             (reg_write (cb_high (if 1 < c then 1 else 0) s) DD_CB_FIFO_H k),
           Inr 0))"
  by (simp add: libera_dd_write_CBfifo_def DD_MAX_NOATOMS_def DD_CBH_DEC_64_def DD_CBH_DEC_1_def
      cb_high_def mask_eq_exp_minus_1)

text \<open>
  The command a read sends to the circular buffer says what the read wants: when the atoms, before
  decimation, are fewer than the limit, two registers are written, high word first, and the FPGA
  reads from them the start position modulo the size of the buffer, the decimation filter exactly
  when the decimation is above one, and the number of atoms times the decimation.
\<close>

theorem dd_command_decodes:
  assumes "unat n * unat c < 0x400000"
  shows "\<exists>h l. libera_dd_write_CBfifo s n c k
      = (reg_write l DD_CB_FIFO_L (reg_write h DD_CB_FIFO_H k), Inr 0)
    \<and> unat (cb_start h) = unat s mod 2097152
    \<and> cb_filter h = (if 1 < c then DD_CBH_DEC_64 else DD_CBH_DEC_1)
    \<and> unat l = unat n * unat c"
proof -
  have u: "unat (n * c) = unat n * unat c"
    using assms by (simp add: unat_word_ariths)
  have "\<not> 0x400000 < n * c" using assms by (simp add: word_less_nat_alt u)
  moreover have "unat ((n * c) AND mask 22) = unat n * unat c"
    using assms by (simp add: masked_word u del: width_masks)
  moreover have "unat (take_bit 21 s) = unat s mod 2097152"
    by (simp only: unsigned_take_bit_eq) (simp add: take_bit_eq_mod)
  ultimately show ?thesis
    by (intro exI [of _ "cb_high (if 1 < c then 1 else 0) s"] exI [of _ "(n * c) AND mask 22"])
       (simp add: write_CBfifo_cases cb_high_decode DD_CBH_DEC_64_def DD_CBH_DEC_1_def)
qed

theorem dd_command_decodes_witness:
  "\<exists>h l. libera_dd_write_CBfifo 0x1fffff 1000 64 boot_kernel
      = (reg_write l DD_CB_FIFO_L (reg_write h DD_CB_FIFO_H boot_kernel), Inr 0)
    \<and> unat (cb_start h) = 2097151 \<and> cb_filter h = DD_CBH_DEC_64 \<and> unat l = 64000"
  using dd_command_decodes [of 1000 64 "0x1fffff" boot_kernel] by simp

text \<open>At the limit and beyond the command is wrong without an error: \<open>0x400000\<close> atoms, which the check
  accepts, are encoded as zero because the field has 22 bits, and a product of atoms and decimation
  that wraps at 32 bits passes the check: \<open>0x10000\<close> atoms at decimation \<open>0x10000\<close> ask for none.
\<close>

theorem dd_command_limit_lost:
  "\<exists>h h'. libera_dd_write_CBfifo s 0x400000 1 k
       = (reg_write 0 DD_CB_FIFO_L (reg_write h DD_CB_FIFO_H k), Inr 0)
     \<and> libera_dd_write_CBfifo s 0x10000 0x10000 k
       = (reg_write 0 DD_CB_FIFO_L (reg_write h' DD_CB_FIFO_H k), Inr 0)"
  by (auto simp: write_CBfifo_cases mask_eq_exp_minus_1)

section \<open>What a sleep leaves alone\<close>

text \<open>
  The sleeps of the event and DD devices change the stamps, the mutexes of the event device and the
  trace only.
\<close>

definition sleep_frame :: "kernel \<Rightarrow> kernel \<Rightarrow> bool" where
  "sleep_frame k k' \<longleftrightarrow> lgbl_d k' = lgbl_d k \<and> flmcdHz k' = flmcdHz k \<and> pmsize k' = pmsize k
     \<and> irqMask k' = irqMask k \<and> cfg k' = cfg k \<and> pm k' = pm k \<and> dma k' = dma k
     \<and> sem (dd k') = sem (dd k) \<and> settime (event k') = settime (event k)
     \<and> HB_start_lmt (event k') = HB_start_lmt (event k)
     \<and> paired_timestamps (event k') = paired_timestamps (event k)"

lemma sleep_frame_refl [simp]: "sleep_frame k k"
  by (simp add: sleep_frame_def)

lemma sleep_frame_trans [trans]: "sleep_frame k k1 \<Longrightarrow> sleep_frame k1 k2 \<Longrightarrow> sleep_frame k k2"
  by (simp add: sleep_frame_def)

lemma sleep_frame_set_fifo [simp]: "sleep_frame k (set_fifo s q k1) = sleep_frame k k1"
  by (cases s) (simp_all add: sleep_frame_def)

lemma sleep_frame_sems [simp]:
  "sleep_frame k (set_event_sem b k1) = sleep_frame k k1"
  "sleep_frame k (k1\<lparr>event := (event k1)\<lparr>CTIME_sem := b\<rparr>\<rparr>) = sleep_frame k k1"
  by (simp_all add: sleep_frame_def set_event_sem_def)

lemma sleep_frame_reg [simp]: "sleep_frame k (reg_write v a k1) = sleep_frame k k1"
  by (simp add: sleep_frame_def reg_write_def)

lemma sleep_frame_stamps: "sleep_frame k k1 \<Longrightarrow> sleep_frame k (fold irq_stamp st k1)"
  by (induction st arbitrary: k1) (simp_all add: irq_stamp_def)

lemma sleep_frame_fifo_wait: "fifo_wait s sig ws k = Ret (k', e) \<Longrightarrow> sleep_frame k k'"
proof (induction ws arbitrary: k sig)
  case (Cons w ws)
  then show ?case
    by (auto split: if_splits intro: sleep_frame_trans [OF sleep_frame_stamps [OF sleep_frame_refl]])
qed (auto split: if_splits)

lemma sleep_frame_getBlocked:
  assumes "getBlockedFromFIFO s sig ws k = Ret (k', r)"
  shows "sleep_frame k k'"
proof -
  have "sleep_frame k k1" if "fifo_wait s sig ws (set_event_sem True k) = Ret (k1, e)" for k1 e
    using sleep_frame_trans [OF _ sleep_frame_fifo_wait [OF that], of k] by simp
  then show ?thesis
    using assms
    by (fastforce simp: getBlockedFromFIFO_def call_bind_Ret_iff simp del: set_fifo.simps
        split: lock_result.splits option.splits prod.splits)
qed

lemma sleep_frame_CTIME:
  assumes "libera_get_CTIME sig ws k = Ret (k', r)"
  shows "sleep_frame k k'"
proof (cases "mutex_lock_interruptible sig (CTIME_sem (event k))")
  case Acquired
  let ?k = "reg_write (TRIGGER_BIT T_TRIG_CTIME) T_SC_EVENTGEN
    (k\<lparr>event := (event k)\<lparr>CTIME_sem := True\<rparr>\<rparr>)"
  obtain k1 r1 where g: "getBlockedFromFIFO (MCQ T_TRIG_CTIME) sig ws ?k = Ret (k1, r1)"
    using assms Acquired by (auto simp: libera_get_CTIME_def call_bind_Ret_iff Let_def)
  have b: "sleep_frame k k1"
    using sleep_frame_trans [OF _ sleep_frame_getBlocked [OF g], of k] by simp
  obtain q t where q: "getFromFIFO (sc_timestamps (event k1) T_TRIG_CTIME) = (q, t)" by fastforce
  show ?thesis
    using assms Acquired g q b
    by (cases r1; cases t) (auto simp: libera_get_CTIME_def Let_def simp del: set_fifo.simps)
qed (use assms in \<open>simp_all add: libera_get_CTIME_def\<close>)

section \<open>Waiting for the requested time\<close>

text \<open>
  The requested data are in the buffer when the clock is past the start by the margin between the
  writing and the reading position.
\<close>

definition in_buffer :: "u32 \<Rightarrow> u64 \<Rightarrow> bool" where
  "in_buffer d delta \<longleftrightarrow> \<not> delta - ucast (LIBERA_DD_READSYNC_MARGIN * d) <s 0"

lemma wait_loop_in_buffer:
  "wait_loop clk timeout start es delta ctime k = Ret (k', ctime', e) \<Longrightarrow>
     sleep_frame k k' \<and> (e = None \<longrightarrow> in_buffer (lgbl_d k) (clk ctime' - start))"
proof (induction es arbitrary: delta ctime k)
  case (Cons w es)
  have t: "timeout k (- delta) \<noteq> None" using Cons.prems by (auto split: if_splits)
  then obtain k1 r where g: "libera_get_CTIME (fst w) (snd w) k = Ret (k1, r)"
    using Cons.prems by (auto simp: call_bind_Ret_iff)
  note f = sleep_frame_CTIME [OF g]
  have d: "lgbl_d k1 = lgbl_d k" using f by (simp add: sleep_frame_def)
  show ?case
  proof (cases r)
    case (Inl err)
    then show ?thesis using Cons.prems t g f by auto
  next
    case (Inr c)
    let ?d = "clk c - start - ucast (LIBERA_DD_READSYNC_MARGIN * lgbl_d k1)"
    show ?thesis
    proof (cases "?d <s 0")
      case True
      then have "wait_loop clk timeout start es ?d c k1 = Ret (k', ctime', e)"
        using Cons.prems t g Inr by simp
      then show ?thesis using Cons.IH sleep_frame_trans [OF f] d by metis
    next
      case False
      then show ?thesis using Cons.prems t g Inr f d by (auto simp: in_buffer_def)
    qed
  qed
qed (auto split: if_splits)

lemma get_CTIME_errors:
  assumes "libera_get_CTIME sig ws k = Ret (k', Inl e)"
  shows "e = ERESTARTSYS \<or> e = EFAULT"
proof -
  have w: "x = ERESTARTSYS" if "fifo_wait s g vs k1 = Ret (k2, Some x)" for s g vs k1 k2 x
    using that by (induction s g vs k1 rule: fifo_wait.induct) (auto split: if_splits)
  have "x = ERESTARTSYS \<or> x = EFAULT" if "getBlockedFromFIFO s g vs k1 = Ret (k2, Inl x)" for s g vs k1 k2 x
    using that w
    by (fastforce simp: getBlockedFromFIFO_def call_bind_Ret_iff simp del: set_fifo.simps
        split: lock_result.splits option.splits prod.splits)
  note b = this
  show ?thesis
  proof (cases "mutex_lock_interruptible sig (CTIME_sem (event k))")
    case Acquired
    let ?k = "reg_write (TRIGGER_BIT T_TRIG_CTIME) T_SC_EVENTGEN
      (k\<lparr>event := (event k)\<lparr>CTIME_sem := True\<rparr>\<rparr>)"
    obtain k1 r1 where g: "getBlockedFromFIFO (MCQ T_TRIG_CTIME) sig ws ?k = Ret (k1, r1)"
      using assms Acquired by (auto simp: libera_get_CTIME_def call_bind_Ret_iff Let_def)
    obtain q t where q: "getFromFIFO (sc_timestamps (event k1) T_TRIG_CTIME) = (q, t)" by fastforce
    show ?thesis
      using assms Acquired g q b [of "MCQ T_TRIG_CTIME"]
      by (cases r1; cases t) (auto simp: libera_get_CTIME_def Let_def simp del: set_fifo.simps)
  qed (use assms in \<open>simp_all add: libera_get_CTIME_def\<close>)
qed

lemma wait_loop_errors:
  "wait_loop clk timeout start es delta ctime k = Ret (k', ctime', Some e) \<Longrightarrow>
     e = ERESTARTSYS \<or> e = EFAULT"
proof (induction es arbitrary: delta ctime k)
  case (Cons w es)
  have t: "timeout k (- delta) \<noteq> None" using Cons.prems by (auto split: if_splits)
  then obtain k1 r where g: "libera_get_CTIME (fst w) (snd w) k = Ret (k1, r)"
    using Cons.prems by (auto simp: call_bind_Ret_iff)
  show ?case
    using Cons.prems t g get_CTIME_errors Cons.IH by (cases r) (auto simp: Let_def split: if_splits)
qed (auto split: if_splits)

text \<open>Differences of clocks as signed numbers.\<close>

lemma clock_diff:
  assumes "uint (a :: u64) < 4611686018427387904" "uint b < 4611686018427387904"
  shows "sint (a - b) = uint a - uint b"
    and "sint (a - b - ucast (m :: u32)) = uint a - uint b - uint m"
    and "sint (- (a - b - ucast (m :: u32))) = uint b + uint m - uint a"
proof -
  have m: "uint m < 4294967296" using uint_lt2p [of m] by simp
  have nn: "0 \<le> uint a" "0 \<le> uint b" "0 \<le> uint m" by simp_all
  have e1: "a - b = of_int (uint a - uint b)"
    and e2: "a - b - ucast m = of_int (uint a - uint b - uint m)"
    and e3: "- (a - b - ucast m) = of_int (uint b + uint m - uint a)"
    unfolding u32_of_int by simp_all
  show "sint (a - b) = uint a - uint b"
    by (rule sint_of_small_int [OF e1]) (use assms m nn in linarith)+
  show "sint (a - b - ucast m) = uint a - uint b - uint m"
    by (rule sint_of_small_int [OF e2]) (use assms m nn in linarith)+
  show "sint (- (a - b - ucast m)) = uint b + uint m - uint a"
    by (rule sint_of_small_int [OF e3]) (use assms m nn in linarith)+
qed

text \<open>
  The limits of the wait, as numbers, for every decimation at which the products do not wrap.
\<close>

lemma wait_limits:
  assumes "0 < d" "unat d < 410"
  shows "uint (LIBERA_DD_CIRCBUF_ATOMS * d - LIBERA_DD_CIRCBUF_SAFE d) = 2097152 * uint d - 2097152 * uint d div 10"
    and "uint (LIBERA_DD_MAX_INADVANCE * d) = 10485760 * uint d"
    and "uint (LIBERA_DD_READSYNC_MARGIN * d) = 64 * uint d"
proof -
  have d: "uint d < 410" using assms(2) by (metis of_nat_less_iff of_nat_numeral uint_nat)
  have nn: "0 \<le> uint d" by simp
  have m: "uint (2097152 * d) = 2097152 * uint d" "uint (10485760 * d) = 10485760 * uint d"
    "uint (64 * d) = 64 * uint d"
    using d by (simp_all add: uint_word_ariths)
  show "uint (LIBERA_DD_MAX_INADVANCE * d) = 10485760 * uint d"
    "uint (LIBERA_DD_READSYNC_MARGIN * d) = 64 * uint d"
    using m by (simp_all add: LIBERA_DD_MAX_INADVANCE_def LIBERA_DD_CIRCBUF_ATOMS_def LIBERA_DD_READSYNC_MARGIN_def)
  have v: "uint ((2097152 * d) div 10) = 2097152 * uint d div 10"
    using m(1) by (simp add: uint_div)
  have "10 * (2097152 * uint d div 10) \<le> 2097152 * uint d" "0 \<le> 2097152 * uint d div 10"
    using nn by (simp_all add: times_div_less_eq_dividend pos_imp_zdiv_nonneg_iff)
  then have "2097152 * uint d div 10 \<le> 2097152 * uint d" by linarith
  then show "uint (LIBERA_DD_CIRCBUF_ATOMS * d - LIBERA_DD_CIRCBUF_SAFE d)
      = 2097152 * uint d - 2097152 * uint d div 10"
    using v m(1) by (simp add: LIBERA_DD_CIRCBUF_ATOMS_def LIBERA_DD_CIRCBUF_SAFE_def uint_sub_if_size)
qed

text \<open>C40.
  The wait for a requested time: with the clocks in range and a decimation at which the limits do
  not wrap, a request is refused as too late exactly when its start has left the safe nine tenths of
  the circular buffer, refused as too early exactly when it is more than five buffers ahead, and
  otherwise the wait ends without an error only when the clock has passed the start by the margin of
  64 atoms; the only other errors are those of reading the current time. This holds for both clocks.
\<close>

theorem dd_wait_verdict:
  assumes "wait_clock clk timeout es ctime start k = Ret (k', ctime', e)"
    and "0 < lgbl_d k" "unat (lgbl_d k) < 410"
    and "uint (clk ctime) < 4611686018427387904" "uint start < 4611686018427387904"
  shows "let d = uint (lgbl_d k); now = uint (clk ctime); s = uint start;
        late = s + (2097152 * d - 2097152 * d div 10) < now;
        early = now + 10485760 * d < s + 64 * d in
      (e = Some ENODATA \<longleftrightarrow> late) \<and> (e = Some EAGAIN \<longleftrightarrow> \<not> late \<and> early)
    \<and> (e = None \<longrightarrow> uint (clk ctime') < 4611686018427387904 \<longrightarrow> s + 64 * d \<le> uint (clk ctime'))
    \<and> (e \<in> {None, Some ENODATA, Some EAGAIN, Some ERESTARTSYS, Some EFAULT})"
proof -
  let ?d = "lgbl_d k" and ?delta = "clk ctime - start"
  let ?last = "?delta - ucast (LIBERA_DD_READSYNC_MARGIN * ?d)"
  define late where "late \<longleftrightarrow> uint start + (2097152 * uint ?d - 2097152 * uint ?d div 10) < uint (clk ctime)"
  define early where "early \<longleftrightarrow> uint (clk ctime) + 10485760 * uint ?d < uint start + 64 * uint ?d"
  note lim = wait_limits [OF assms(2,3)]
  have l: "(ucast (LIBERA_DD_CIRCBUF_ATOMS * ?d - LIBERA_DD_CIRCBUF_SAFE ?d) <s ?delta) = late"
    unfolding word_sless_alt sint_ucast_u32 lim clock_diff(1) [OF assms(4,5)] late_def by linarith
  have a: "(ucast (LIBERA_DD_MAX_INADVANCE * ?d) <s - ?last) = early"
    unfolding word_sless_alt sint_ucast_u32 lim clock_diff(3) [OF assms(4,5)] early_def by linarith
  have n: "(?last <s 0) = (uint (clk ctime) < uint start + 64 * uint ?d)"
    unfolding word_sless_alt clock_diff(2) [OF assms(4,5)] lim by simp linarith
  have ib: "uint start + 64 * uint ?d \<le> uint c" if "in_buffer ?d (c - start)" "uint c < 4611686018427387904" for c
    using that unfolding in_buffer_def word_sless_alt clock_diff(2) [OF that(2) assms(5)] lim by simp
  have eq: "wait_clock clk timeout es ctime start k =
     (if late then Ret (k, ctime, Some ENODATA)
      else if ?last <s 0 then
        (if early then Ret (k, ctime, Some EAGAIN) else wait_loop clk timeout start es ?last ctime k)
      else Ret (k, ctime, None))"
    unfolding wait_clock_def Let_def l a ..
  have "early \<Longrightarrow> ?last <s 0" unfolding n early_def using assms(2) by (simp add: word_less_def)
  then have "(e = Some ENODATA \<longleftrightarrow> late) \<and> (e = Some EAGAIN \<longleftrightarrow> \<not> late \<and> early)
    \<and> (e = None \<longrightarrow> uint (clk ctime') < 4611686018427387904 \<longrightarrow> uint start + 64 * uint ?d \<le> uint (clk ctime'))
    \<and> (e \<in> {None, Some ENODATA, Some EAGAIN, Some ERESTARTSYS, Some EFAULT})"
    using assms(1) wait_loop_in_buffer [of clk timeout start es ?last ctime k k' ctime' e]
      wait_loop_errors [of clk timeout start es ?last ctime k k' ctime'] ib [of "clk ctime'"] n
    unfolding eq by (cases e) (auto split: if_splits)
  then show ?thesis unfolding Let_def late_def early_def .
qed

theorem dd_wait_verdict_witness:
  "wait_clock lmt (lmt_timeout 100) [] \<lparr>lst = 0, lmt = 2000000\<rparr> 100000 (boot_kernel\<lparr>lgbl_d := 1\<rparr>)
     = Ret (boot_kernel\<lparr>lgbl_d := 1\<rparr>, \<lparr>lst = 0, lmt = 2000000\<rparr>, Some ENODATA)
   \<and> 100000 + (2097152 * 1 - 2097152 * 1 div 10) < (2000000 :: int)"
proof -
  let ?k = "boot_kernel\<lparr>lgbl_d := 1\<rparr>" and ?t = "\<lparr>lst = 0, lmt = 2000000\<rparr>"
  have w: "wait_clock lmt (lmt_timeout 100) [] ?t 100000 ?k = Ret (?k, ?t, Some ENODATA)"
    by (simp add: wait_clock_def LIBERA_DD_CIRCBUF_ATOMS_def LIBERA_DD_CIRCBUF_SAFE_def word_sless_alt)
  show ?thesis using dd_wait_verdict [OF w] w by (simp add: Let_def)
qed

section \<open>Reads\<close>

lemma transfer_facts:
  assumes "libera_dd_transfer_OBfifo_DMA hz user N as q = Ret (x, r)"
    and "unat N < 2 ^ 31" "dmac_exact hz user N as (xfer_init q)"
  shows "unat (written (x_dma x)) = length (x_out x)" "length (x_out x) \<le> unat N"
    "r = Inr n \<Longrightarrow> n = written (x_dma x)"
    "r = Inr n \<Longrightarrow> Overrun (x_dma x) \<or> x_out x = x_hw x \<and> n = N"
proof -
  have x: "x = xfer_run hz user N as (xfer_init q)" and pc: "x_pc x = X_done r"
    using assms(1) by (auto simp: libera_dd_transfer_OBfifo_DMA_def Let_def split: xfer_pc.splits)
  have "x \<noteq> xfer_init q" using pc by (auto simp: xfer_init_def)
  then have inv: "xfer_inv user N x" using init_run [OF assms(2,3)] x by simp
  then have d: "xfer_data N x" by (simp add: xfer_inv_def)
  show w: "unat (written (x_dma x)) = length (x_out x)"
    using d by (simp add: xfer_data_def Let_def)
  have "length (x_out x) \<le> length (x_hw x)" "length (x_hw x) \<le> unat N"
    using d by (auto simp: xfer_data_def Let_def dest!: prefix_length_le)
  then show "length (x_out x) \<le> unat N" by simp
  assume r: "r = Inr n"
  show n: "n = written (x_dma x)" using inv pc r by (simp add: xfer_inv_def)
  have "all_read x" using inv pc r by (simp add: xfer_inv_def)
  then show "Overrun (x_dma x) \<or> x_out x = x_hw x \<and> n = N"
    using d n w by (auto simp: all_read_def xfer_data_def taken_def Let_def word_unat_eq_iff)
qed

lemma atom_bytes:
  "length xs \<le> 0x400000 \<Longrightarrow> unat n = length xs \<Longrightarrow> sint (n * DD_ATOM_BYTES) = 32 * int (length xs)"
  by (subst sint_small) (simp_all add: DD_ATOM_BYTES_def unat_word_ariths)

lemma getBlocked_frame_dd:
  assumes "getBlockedFromFIFO s sig ws k = Ret (k', r)"
  shows "lgbl_d k' = lgbl_d k" "dma k' = dma k" "irqMask k' = irqMask k" "pm k' = pm k" "pmsize k' = pmsize k"
  using sleep_frame_getBlocked [OF assms] by (simp_all add: sleep_frame_def)

lemma write_CBfifo_frame:
  "sleep_frame k (fst (libera_dd_write_CBfifo s n c k))"
  by (simp add: libera_dd_write_CBfifo_def Let_def)

lemma wait_clock_frame:
  "wait_clock clk timeout es ctime start k = Ret (k', ctime', e) \<Longrightarrow> sleep_frame k k'"
  using wait_loop_in_buffer by (auto simp: wait_clock_def Let_def split: if_splits)

lemma dd_locate_frame:
  assumes "dd_locate env ctime q k = Ret (k', q', e)"
  shows "sleep_frame k k' \<and> request q' = request q"
proof (cases "request q")
  case LIBERA_DD_TIME_EXPLICIT_ST
  then have a: "dd_locate_st env ctime q k = Ret (k', q', e)" using assms by (simp add: dd_locate_def)
  obtain k1 c1 e1 where w: "wait_clock lst (lst_timeout (of_nat (de_hz env))) (de_waits env) ctime (lst (qL q)) k
      = Ret (k1, c1, e1)"
    using a by (auto simp: dd_locate_st_def wait_lst_def call_bind_Ret_iff)
  then show ?thesis
    using a wait_clock_frame [OF w]
    by (cases e1) (auto simp: dd_locate_st_def wait_lst_def split: option.splits sum.splits)
next
  case LIBERA_DD_TIME_EXPLICIT_MT
  then have a: "dd_locate_mt env ctime q k = Ret (k', q', e)" using assms by (simp add: dd_locate_def)
  obtain k1 c1 e1 where w: "wait_clock lmt (lmt_timeout (of_nat (de_hz env))) (de_waits env) ctime (lmt (qL q)) k
      = Ret (k1, c1, e1)"
    using a by (auto simp: dd_locate_mt_def wait_lmt_def call_bind_Ret_iff)
  then show ?thesis
    using a wait_clock_frame [OF w]
    by (cases e1) (auto simp: dd_locate_mt_def wait_lmt_def split: option.splits sum.splits)
next
  case LIBERA_DD_TIME_IMPLICIT
  define t where "t = getFromCircBuf (paired_timestamps (event k) T_TRIG_TRIGGER)"
  define m where "m = lmt t + trigoffset q * ucast (lgbl_d k)"
  have a: "dd_locate env ctime q k =
     (case lmt2lst (flmcdHz k) m t of
        None \<Rightarrow> Fault
      | Some (Inl err) \<Rightarrow> Ret (k, q\<lparr>qL := \<lparr>lst = lst t, lmt = m\<rparr>\<rparr>, Some err)
      | Some (Inr s) \<Rightarrow>
          (case lmt2mt (lgbl_d k) m of
             None \<Rightarrow> Fault
           | Some mt \<Rightarrow>
               call_bind (wait_clock lmt (lmt_timeout (of_nat (de_hz env))) (de_waits env) ctime m k)
                 (\<lambda>(k, ctime, e). Ret (k, q\<lparr>qL := \<lparr>lst = s, lmt = m\<rparr>,
                    qU := \<lparr>ts_st = lst2st s, ts_mt = mt\<rparr>\<rparr>, e))))"
    using LIBERA_DD_TIME_IMPLICIT
    by (simp add: dd_locate_def dd_locate_trigger_def wait_lmt_def Let_def t_def m_def
        cong: option.case_cong sum.case_cong)
  show ?thesis
  proof (cases "lmt2lst (flmcdHz k) m t")
    case None
    then show ?thesis using assms a by simp
  next
    case (Some r)
    note r = this
    show ?thesis
    proof (cases r)
      case (Inl err)
      then show ?thesis using assms a r by auto
    next
      case (Inr s)
      obtain mt where mt: "lmt2mt (lgbl_d k) m = Some mt"
        using assms a r Inr by (cases "lmt2mt (lgbl_d k) m") auto
      obtain k1 c1 e1 where w: "wait_clock lmt (lmt_timeout (of_nat (de_hz env))) (de_waits env) ctime m k
          = Ret (k1, c1, e1)"
        using assms a r Inr mt by (auto simp: call_bind_Ret_iff)
      then show ?thesis
        using assms a r Inr mt wait_clock_frame [OF w] by auto
    qed
  qed
qed

text \<open>What a read does from its command on.\<close>

definition moved_on :: "u32 \<Rightarrow> libera_dd_local_t \<Rightarrow> nat \<Rightarrow> bool" where
  "moved_on d loc n \<longleftrightarrow> request (Qts loc) = LIBERA_DD_TIME_EXPLICIT_MT
     \<and> ts_mt (qU (Qts loc)) = ts_mt (dd_tstamp loc) + ucast (of_nat n * dec loc)
     \<and> lmt (qL (Qts loc)) = mt2lmt d (ts_mt (qU (Qts loc)))"

lemma dd_read_data_position:
  assumes "dd_read_data env N loc k = Ret (k', loc', Inr r, atoms)" "r \<noteq> 0"
    and "unat N \<le> 0x400000" "dmac_exact (de_hz env) True N (de_actions env) (xfer_init (dma k))"
  shows "\<exists>x t. libera_dd_transfer_OBfifo_DMA (de_hz env) True N (de_actions env) (dma k) = Ret (x, t)
     \<and> atoms = x_out x \<and> r = 32 * int (length atoms) \<and> length atoms \<le> unat N
     \<and> irqMask k' = irqMask k OR LIBERA_INTERRUPT_DD_MASK
     \<and> (case t of
          Inr n \<Rightarrow> unat n = length atoms \<and> moved_on (lgbl_d k) loc' (length atoms)
        | Inl e \<Rightarrow> Qts loc' = Qts loc \<and> dd_tstamp loc' = qU (Qts loc) \<and> (DD_CB_FIFO_RESET, 0) \<in> set (trace k'))"
proof -
  let ?loc = "loc\<lparr>dd_tstamp := qU (Qts loc)\<rparr>"
  obtain start where c: "get_circ_offset_lmt (lgbl_d k) (st_lmt_off (settime (event k)))
      (HB_start_lmt (event k)) (lmt (qL (Qts loc))) = Some start"
    using assms(1) by (auto simp: dd_read_data_def Let_def split: option.splits)
  define w where "w = libera_dd_write_CBfifo start N (dec loc) k"
  have f1: "sleep_frame k (fst w)" using write_CBfifo_frame by (simp add: w_def)
  have ok: "\<not> isl (snd w)"
    using assms(1) c
    by (cases w; cases "snd w") (auto simp: dd_read_data_def Let_def w_def dd_read_out_def split: option.splits)
  obtain k2 s where g: "getBlockedFromFIFO DDQ (fst (de_irq env)) (snd (de_irq env)) (fst w) = Ret (k2, s)"
    using assms(1) c ok
    by (cases w; cases "snd w") (auto simp: dd_read_data_def Let_def w_def call_bind_Ret_iff)
  have f2: "sleep_frame k k2" using sleep_frame_trans [OF f1 sleep_frame_getBlocked [OF g]] .
  then have d: "dma k2 = dma k" "lgbl_d k2 = lgbl_d k" "irqMask k2 = irqMask k"
    by (simp_all add: sleep_frame_def)
  have s: "\<not> isl s"
    using assms(1,2) c ok g
    by (cases w; cases "snd w"; cases s) (auto simp: dd_read_data_def Let_def w_def dd_read_out_def)
  obtain x t where x: "libera_dd_transfer_OBfifo_DMA (de_hz env) True N (de_actions env) (dma k) = Ret (x, t)"
    using assms(1) c ok g s d(1)
    by (cases w; cases "snd w"; cases s) (auto simp: dd_read_data_def Let_def w_def call_bind_Ret_iff)
  have N: "unat N < 2 ^ 31" using assms(3) by simp
  note tf = transfer_facts [OF x N assms(4)]
  have len: "length (x_out x) \<le> 0x400000" using tf(2) assms(3) by simp
  note b = atom_bytes [OF len tf(1)]
  have eq: "dd_read_data env N loc k =
      (case t of
         Inl e \<Rightarrow> dd_read_out (reg_write 0 DD_CB_FIFO_RESET (k2\<lparr>dma := x_dma x\<rparr>)) ?loc
             (Inr (sint (written (x_dma x) * DD_ATOM_BYTES))) (x_out x)
       | Inr n \<Rightarrow> dd_read_out (k2\<lparr>dma := x_dma x\<rparr>) (dd_next_request (lgbl_d k) n ?loc)
             (Inr (sint (n * DD_ATOM_BYTES))) (x_out x))"
    using c ok g s x d
    by (cases w; cases "snd w"; cases s) (auto simp: dd_read_data_def Let_def w_def split: sum.splits)
  show ?thesis
  proof (cases t)
    case (Inl e)
    then show ?thesis
      using assms(1) eq x b tf(2) d
      by (auto simp: dd_read_out_def dd_irq_enable_def set_irqMask_def reg_write_def writel_def)
  next
    case (Inr n)
    have n: "n = of_nat (length (x_out x))"
      using tf(3) [OF Inr] by (simp flip: tf(1))
    have "moved_on (lgbl_d k) (dd_next_request (lgbl_d k) n ?loc) (length (x_out x))"
      by (simp add: moved_on_def dd_next_request_def Let_def n)
    moreover have "unat n = length (x_out x)" using tf(1) tf(3) [OF Inr] by simp
    ultimately show ?thesis
      using assms(1) eq x b tf(2) tf(3) [OF Inr] d Inr
      by (auto simp: dd_read_out_def dd_irq_enable_def set_irqMask_def reg_write_def)
  qed
qed

text \<open>C21.
  Where a read leaves the position: a read that returns bytes has handed out the atoms of one
  transfer, 32 bytes each and no more than asked for, and has enabled the DD interrupt again. If the
  transfer succeeded, the descriptor now asks for the machine time of the atom after the last one
  (the time stamp of this read plus the atoms times the decimation), so consecutive reads are
  contiguous. If it failed on the way, the read still returns what had been copied, but the request
  stays where it was and the SDRAM controller is reset: the next read repeats those atoms.
\<close>

theorem dd_read_position:
  assumes "libera_dd_read_specific sig env count loc k = Ret (k', loc', Inr r, atoms)" "r \<noteq> 0"
    and "dmac_exact (de_hz env) True (count div 32) (de_actions env) (xfer_init (dma k))"
  shows "\<exists>x t. libera_dd_transfer_OBfifo_DMA (de_hz env) True (count div 32) (de_actions env) (dma k) = Ret (x, t)
     \<and> atoms = x_out x \<and> r = 32 * int (length atoms) \<and> 32 * length atoms \<le> unat count
     \<and> irqMask k' = irqMask k OR LIBERA_INTERRUPT_DD_MASK
     \<and> (case t of
          Inr n \<Rightarrow> unat n = length atoms \<and> moved_on (lgbl_d k) loc' (length atoms)
        | Inl e \<Rightarrow> request (Qts loc') = request (Qts loc) \<and> ts_mt (qU (Qts loc')) = ts_mt (dd_tstamp loc')
            \<and> (DD_CB_FIFO_RESET, 0) \<in> set (trace k'))"
proof -
  let ?N = "count div DD_ATOM_BYTES"
  have B: "DD_ATOM_BYTES = 32" by (simp add: DD_ATOM_BYTES_def)
  have free: "\<not> sem (dd k)"
    using assms(1) by (auto simp: libera_dd_read_specific_def mutex_lock_interruptible_def split: if_splits)
  have ok: "\<not> LIBERA_DD_MAX_INTERVAL * DD_ATOM_BYTES < count" "count mod DD_ATOM_BYTES = 0" "?N \<noteq> 0"
    using assms(1,2) free
    by (auto simp: libera_dd_read_specific_def dd_read_out_def Let_def split: if_splits)
  have N: "unat ?N \<le> 0x400000"
    using ok(1) by (simp add: B LIBERA_DD_MAX_INTERVAL_def DD_MAX_NOATOMS_def word_less_nat_alt unat_div not_less)
  have a: "call_bind (libera_get_CTIME (fst (de_ctime env)) (snd (de_ctime env)) k) (\<lambda>(k, r).
        case r of
          Inl e \<Rightarrow> dd_read_out k loc (Inl e) []
        | Inr ctime \<Rightarrow>
            call_bind (dd_locate env ctime (Qts loc) k) (\<lambda>(k, q, err).
              let loc = set_qts q loc in
              case err of
                Some e \<Rightarrow> dd_read_out k loc (Inl e) []
              | None \<Rightarrow> dd_read_data env ?N loc k))
      = Ret (k', loc', Inr r, atoms)"
    using assms(1)
    by (simp only: libera_dd_read_specific_def free mutex_lock_interruptible_free lock_result.case ok
        Let_def if_False simp_thms)
  obtain k1 c where g: "libera_get_CTIME (fst (de_ctime env)) (snd (de_ctime env)) k = Ret (k1, c)"
    using a by (auto simp: call_bind_Ret_iff)
  obtain t0 where c: "c = Inr t0" using a g by (cases c) (auto simp: dd_read_out_def)
  obtain k2 q e where l: "dd_locate env t0 (Qts loc) k1 = Ret (k2, q, e)"
    using a g c by (auto simp: call_bind_Ret_iff)
  have e: "e = None" using a g c l by (cases e) (auto simp: dd_read_out_def Let_def)
  have f: "sleep_frame k k2" "request q = request (Qts loc)"
    using sleep_frame_trans [OF sleep_frame_CTIME [OF g]] dd_locate_frame [OF l] by auto
  then have d: "dma k2 = dma k" "lgbl_d k2 = lgbl_d k" "irqMask k2 = irqMask k"
    by (simp_all add: sleep_frame_def)
  have r: "dd_read_data env ?N (set_qts q loc) k2 = Ret (k', loc', Inr r, atoms)"
    using a g c l e by (simp add: Let_def)
  have sq: "Qts (set_qts q loc) = q" by (simp add: set_qts_def)
  have m: "dmac_exact (de_hz env) True ?N (de_actions env) (xfer_init (dma k2))"
    using assms(3) by (simp add: B d(1))
  obtain x t where x: "libera_dd_transfer_OBfifo_DMA (de_hz env) True ?N (de_actions env) (dma k) = Ret (x, t)"
    "atoms = x_out x" "r = 32 * int (length atoms)" "length atoms \<le> unat ?N"
    "irqMask k' = irqMask k OR LIBERA_INTERRUPT_DD_MASK"
    and t: "case t of
        Inr n \<Rightarrow> unat n = length atoms \<and> moved_on (lgbl_d k) loc' (length atoms)
      | Inl e \<Rightarrow> Qts loc' = q \<and> dd_tstamp loc' = qU q \<and> (DD_CB_FIFO_RESET, 0) \<in> set (trace k')"
    using dd_read_data_position [OF r assms(2) N m] unfolding d sq by blast
  have "32 * length atoms \<le> unat count" using x(4) by (simp add: B unat_div)
  moreover have "case t of
      Inr n \<Rightarrow> unat n = length atoms \<and> moved_on (lgbl_d k) loc' (length atoms)
    | Inl e \<Rightarrow> request (Qts loc') = request (Qts loc) \<and> ts_mt (qU (Qts loc')) = ts_mt (dd_tstamp loc')
        \<and> (DD_CB_FIFO_RESET, 0) \<in> set (trace k')"
    using t f(2) by (cases t) auto
  ultimately show ?thesis using x by (simp add: B)
qed

text \<open>A read of two atoms from machine time 1000, at decimation one; the stamps are waiting.\<close>

definition one_stamp :: "u64 \<Rightarrow> libera_fifo" where
  "one_stamp t = \<lparr>rdata = (\<lambda>_. t), rput = 1, rget = 0\<rparr>"

definition dd_env2 :: dd_env where
  "dd_env2 = \<lparr>de_ctime = (False, []), de_waits = [], de_irq = (False, []), de_actions = two_atoms, de_hz = 100\<rparr>"

lemma dd_env2_simps [simp]:
  "de_ctime dd_env2 = (False, [])" "de_irq dd_env2 = (False, [])" "de_actions dd_env2 = two_atoms"
  "de_hz dd_env2 = 100"
  by (simp_all add: dd_env2_def)

definition kernel_d1 :: kernel where
  "kernel_d1 = boot_kernel\<lparr>lgbl_d := 1,
     event := init_event\<lparr>sc_timestamps := (\<lambda>_. one_stamp 500), mc_timestamps := (\<lambda>_. one_stamp 2000)\<rparr>,
     dd := init_dd\<lparr>dd_irqevents := one_stamp 1\<rparr>\<rparr>"

definition dd_mt_request :: libera_dd_local_t where
  "dd_mt_request = fresh_dd_local\<lparr>Qts := \<lparr>qU = \<lparr>ts_st = \<lparr>tv_sec = 0, tv_nsec = 0\<rparr>, ts_mt = 1000\<rparr>,
     qL = \<lparr>lst = 0, lmt = 1000\<rparr>, request = LIBERA_DD_TIME_EXPLICIT_MT, trigoffset = 0\<rparr>\<rparr>"

lemma one_stamp_simps [simp]:
  "not_emptyFIFO (one_stamp t)" "snd (getFromFIFO (one_stamp t)) = Some t"
  by (simp_all add: one_stamp_def not_emptyFIFO_def ring_not_empty_def getFromFIFO_def ring_get_def)

lemma getBlocked_one_stamp:
  assumes "fifo_of s k = one_stamp t" "\<not> sem (event k)"
  shows "getBlockedFromFIFO s sig [] k =
    Ret (set_event_sem False (set_fifo s (fst (getFromFIFO (one_stamp t))) (set_event_sem True k)), Inr t)"
proof -
  have "fifo_of s (set_event_sem True k) = one_stamp t"
    using assms(1) by (cases s) (simp_all add: set_event_sem_def)
  then show ?thesis
    using assms one_stamp_simps [of t]
    by (cases "getFromFIFO (one_stamp t)") (simp add: getBlockedFromFIFO_def)
qed

lemma two_atoms_transfer:
  "\<exists>x. libera_dd_transfer_OBfifo_DMA 100 user 2 two_atoms init_dma = Ret (x, Inr 2) \<and> x_out x = [[1], [2]]"
  if "user = True"
proof -
  let ?x = "xfer_run 100 True 2 two_atoms (xfer_init init_dma)"
  have c: "libera_dd_transfer_OBfifo_DMA 100 True 2 two_atoms init_dma = Ret (?x, Inr 2)"
    by (simp add: libera_dd_transfer_OBfifo_DMA_def two_atoms_run(1))
  show ?thesis
    using transfer_facts(4) [OF c _ two_atoms_run(2)] c two_atoms_run(3,4) that by simp
qed

lemma CTIME_one_stamp:
  assumes "sc_timestamps (event k) = (\<lambda>_. one_stamp t)" "mc_timestamps (event k) = (\<lambda>_. one_stamp m)"
    "\<not> sem (event k)" "\<not> CTIME_sem (event k)"
  shows "\<exists>k1. libera_get_CTIME sig [] k = Ret (k1, Inr \<lparr>lst = t, lmt = m\<rparr>)
    \<and> dd k1 = dd k \<and> \<not> sem (event k1)"
proof -
  let ?k = "reg_write (TRIGGER_BIT T_TRIG_CTIME) T_SC_EVENTGEN (k\<lparr>event := (event k)\<lparr>CTIME_sem := True\<rparr>\<rparr>)"
  have g: "getBlockedFromFIFO (MCQ T_TRIG_CTIME) sig [] ?k =
    Ret (set_event_sem False (set_fifo (MCQ T_TRIG_CTIME) (fst (getFromFIFO (one_stamp m))) (set_event_sem True ?k)), Inr m)"
    by (rule getBlocked_one_stamp) (simp_all add: assms)
  show ?thesis
    using one_stamp_simps(2) [of t]
    by (cases "getFromFIFO (one_stamp t)") (simp add: libera_get_CTIME_def g assms set_event_sem_def)
qed

lemma dd_read_run:
  "\<exists>k' loc'. libera_dd_read_specific False dd_env2 64 dd_mt_request kernel_d1 = Ret (k', loc', Inr 64, [[1], [2]])"
proof -
  obtain x where x: "libera_dd_transfer_OBfifo_DMA 100 True 2 two_atoms init_dma = Ret (x, Inr 2)"
    "x_out x = [[1], [2]]"
    using two_atoms_transfer by blast
  obtain k1 where c: "libera_get_CTIME False [] kernel_d1 = Ret (k1, Inr \<lparr>lst = 500, lmt = 2000\<rparr>)"
    "dd k1 = dd kernel_d1" "\<not> sem (event k1)"
    using CTIME_one_stamp [of kernel_d1 500 2000 False] by (auto simp: kernel_d1_def init_event_def)
  have "sleep_frame kernel_d1 k1" by (rule sleep_frame_CTIME [OF c(1)])
  then have f: "lgbl_d k1 = 1" "flmcdHz k1 = 1080000000" "dma k1 = init_dma"
    "st_lmt_off (settime (event k1)) = 0" "HB_start_lmt (event k1) = 0x8000000"
    by (simp_all add: sleep_frame_def kernel_d1_def init_event_def init_settime_def LIBERA_FLMC_INITIAL_def)
  have l: "\<exists>q. dd_locate dd_env2 \<lparr>lst = 500, lmt = 2000\<rparr> (Qts dd_mt_request) k1 = Ret (k1, q, None)"
    by (simp add: dd_locate_def dd_locate_mt_def dd_mt_request_def wait_lmt_def wait_clock_def f
        LIBERA_DD_CIRCBUF_ATOMS_def LIBERA_DD_CIRCBUF_SAFE_def LIBERA_DD_READSYNC_MARGIN_def
        word_sless_alt lmt2lst_def DELTA_LMT_OVERFLOW_def div_u64_def)
  then obtain q where l: "dd_locate dd_env2 \<lparr>lst = 500, lmt = 2000\<rparr> (Qts dd_mt_request) k1 = Ret (k1, q, None)"
    by blast
  obtain start where st: "get_circ_offset_lmt 1 0 0x8000000 (lmt (qL q)) = Some start"
    by (auto simp: get_circ_offset_lmt_def div_u64_def div_u64_rem_def LIBERA_CIRCBUF_ATOMS_def)
  define w where "w = reg_write (2 AND mask 22) DD_CB_FIFO_L (reg_write (cb_high 0 start) DD_CB_FIFO_H k1)"
  have w: "libera_dd_write_CBfifo start 2 1 k1 = (w, Inr 0)"
    by (simp add: write_CBfifo_cases w_def)
  have "fifo_of DDQ w = one_stamp 1" "\<not> sem (event w)"
    using c(2,3) by (simp_all add: w_def kernel_d1_def)
  note g = getBlocked_one_stamp [OF this, of False]
  define k2 where "k2 = set_event_sem False (set_fifo DDQ (fst (getFromFIFO (one_stamp 1))) (set_event_sem True w))"
  have d: "dma k2 = init_dma" using f(3) by (simp add: k2_def w_def set_event_sem_def)
  have "dec dd_mt_request = 1" by (simp add: dd_mt_request_def fresh_dd_local_def)
  then have "\<exists>k' loc'. dd_read_data dd_env2 2 (set_qts q dd_mt_request) k1 = Ret (k', loc', Inr 64, [[1], [2]])"
    using st w g [folded k2_def] x d
    by (simp add: dd_read_data_def f set_qts_def dd_read_out_def DD_ATOM_BYTES_def)
  then obtain k' loc' where r: "dd_read_data dd_env2 2 (set_qts q dd_mt_request) k1 = Ret (k', loc', Inr 64, [[1], [2]])"
    by blast
  have free: "sem (dd kernel_d1) = False" by (simp add: kernel_d1_def init_dd_def)
  have n: "(LIBERA_DD_MAX_INTERVAL * DD_ATOM_BYTES < 64) = False" "64 mod DD_ATOM_BYTES = 0"
    "64 div DD_ATOM_BYTES = 2" "((2 :: u32) = 0) = False"
    by (simp_all add: LIBERA_DD_MAX_INTERVAL_def DD_MAX_NOATOMS_def DD_ATOM_BYTES_def)
  have "libera_dd_read_specific False dd_env2 64 dd_mt_request kernel_d1 = Ret (k', loc', Inr 64, [[1], [2]])"
    by (simp only: libera_dd_read_specific_def free mutex_lock_interruptible_free lock_result.case n
        Let_def if_False simp_thms dd_env2_simps fst_conv snd_conv c(1) call_bind_simps prod.case
        sum.case l option.case r)
  then show ?thesis by blast
qed

theorem dd_read_position_witness:
  "\<exists>k' loc'. libera_dd_read_specific False dd_env2 64 dd_mt_request kernel_d1 = Ret (k', loc', Inr 64, [[1], [2]])
    \<and> moved_on 1 loc' 2 \<and> irqMask k' = LIBERA_INTERRUPT_DD_MASK"
proof -
  obtain k' loc' where r: "libera_dd_read_specific False dd_env2 64 dd_mt_request kernel_d1
      = Ret (k', loc', Inr 64, [[1], [2]])"
    using dd_read_run by blast
  have k: "dma kernel_d1 = init_dma" "lgbl_d kernel_d1 = 1" "irqMask kernel_d1 = 0"
    by (simp_all add: kernel_d1_def)
  have div: "(64 :: u32) div 32 = 2" and nz: "(64 :: int) \<noteq> 0" by simp_all
  have e: "dmac_exact (de_hz dd_env2) True (64 div 32) (de_actions dd_env2) (xfer_init (dma kernel_d1))"
    unfolding dd_env2_simps k div using two_atoms_run(2) .
  obtain x where x: "libera_dd_transfer_OBfifo_DMA 100 True 2 two_atoms init_dma = Ret (x, Inr 2)"
    using two_atoms_transfer by blast
  obtain x' t where t: "libera_dd_transfer_OBfifo_DMA 100 True 2 two_atoms init_dma = Ret (x', t)"
    "irqMask k' = 0 OR LIBERA_INTERRUPT_DD_MASK"
    "case t of
        Inr n \<Rightarrow> unat n = length [[1], [2 :: u32]] \<and> moved_on 1 loc' (length [[1], [2 :: u32]])
      | Inl e \<Rightarrow> request (Qts loc') = request (Qts dd_mt_request) \<and> ts_mt (qU (Qts loc')) = ts_mt (dd_tstamp loc')
          \<and> (DD_CB_FIFO_RESET, 0) \<in> set (trace k')"
    using dd_read_position [OF r nz e] unfolding dd_env2_simps k div by blast
  have "t = Inr 2" using t(1) x by simp
  then show ?thesis using r t(2,3) by (simp add: numeral_2_eq_2)
qed

section \<open>A leaked mutex and a hidden error\<close>

text \<open>
  A command the DD device does not know takes the device away: the call returns \<open>ENOTTY\<close> and keeps
  the mutex, so every later open, every later read without a signal and every later command waits
  for ever, and the post-mortem acquisition always finds the device busy.
\<close>

theorem dd_unknown_command_locks:
  assumes "\<not> sem (dd k)" "io_access env" "io_access env'" "\<not> io_signal env'"
  shows "\<exists>k'. libera_dd_ioctl OTHER_DD_CMD env loc k = Ret (k', loc, Inl ENOTTY, DdNone)
    \<and> libera_dd_open f ok k' = Hang
    \<and> libera_dd_read_specific False denv count loc' k' = Hang
    \<and> libera_dd_ioctl GET_DEC env' loc' k' = Hang
    \<and> (\<exists>k2. libera_acq_pm held denv k' = Ret (k2, Inl EBUSY))"
  using assms
  by (simp add: libera_dd_ioctl_def libera_dd_open_def libera_dd_read_specific_def libera_acq_pm_def
      acq_pm_locks_def mutex_lock_interruptible_def set_pm_entry_def)

definition quiet_env :: ioenv where
  "quiet_env = \<lparr>io_signal = False, io_wakes = [], io_uncopied = 0, io_access = True, io_reg = (\<lambda>_. 0),
     io_stack = \<lparr>lst = 0, lmt = 0\<rparr>\<rparr>"

theorem dd_unknown_command_locks_witness:
  "\<exists>k'. libera_dd_ioctl OTHER_DD_CMD quiet_env fresh_dd_local kernel_d1 = Ret (k', fresh_dd_local, Inl ENOTTY, DdNone)
    \<and> libera_dd_open \<lparr>file_id = 1, fmode_read = True, fmode_write = False, o_nonblock = False\<rparr> True k' = Hang"
  using dd_unknown_command_locks [of kernel_d1 quiet_env quiet_env fresh_dd_local
      "\<lparr>file_id = 1, fmode_read = True, fmode_write = False, o_nonblock = False\<rparr>" True dd_env2 64
      fresh_dd_local "\<lambda>_. False"]
  by (auto simp: quiet_env_def kernel_d1_def init_dd_def)

text \<open>C20.
  A signal in the sleep for the DD interrupt is hidden: when the command has been sent, no interrupt
  has come and a signal arrives, the read returns 0, which means end of file, instead of an error,
  and the request stays where it was.
\<close>

theorem dd_read_hides_signal:
  assumes "lgbl_d k \<noteq> 0" "unat N * unat (dec loc) \<le> 0x400000" "\<not> sem (event k)"
    and "emptyFIFO (dd_irqevents (dd k))"
  shows "\<exists>k'. dd_read_data (env\<lparr>de_irq := (True, [])\<rparr>) N loc k
      = Ret (k', loc\<lparr>dd_tstamp := qU (Qts loc)\<rparr>, Inr 0, [])"
proof -
  obtain start where st: "get_circ_offset_lmt (lgbl_d k) (st_lmt_off (settime (event k)))
      (HB_start_lmt (event k)) (lmt (qL (Qts loc))) = Some start"
    using assms(1) by (auto simp: get_circ_offset_lmt_def div_u64_def div_u64_rem_def LIBERA_CIRCBUF_ATOMS_def)
  have "unat (N * dec loc) = unat N * unat (dec loc)"
    using assms(2) by (simp add: unat_word_ariths)
  then have "\<not> 0x400000 < N * dec loc" using assms(2) by (simp add: word_less_nat_alt)
  then obtain h l where w: "libera_dd_write_CBfifo start N (dec loc) k
      = (reg_write l DD_CB_FIFO_L (reg_write h DD_CB_FIFO_H k), Inr 0)"
    by (auto simp: write_CBfifo_cases)
  have "\<not> not_emptyFIFO (dd_irqevents (dd k))"
    using assms(4) by (simp add: emptyFIFO_def not_emptyFIFO_def ring_empty_def ring_not_empty_def)
  then have "getBlockedFromFIFO DDQ True [] (reg_write l DD_CB_FIFO_L (reg_write h DD_CB_FIFO_H k))
      = Ret (set_event_sem False (set_event_sem True (reg_write l DD_CB_FIFO_L (reg_write h DD_CB_FIFO_H k))),
          Inl ERESTARTSYS)"
    using assms(3) by (simp add: getBlockedFromFIFO_def set_event_sem_def)
  then show ?thesis
    using st w by (simp add: dd_read_data_def dd_read_out_def)
qed

theorem dd_read_hides_signal_witness:
  "\<exists>k'. dd_read_data (dd_env2\<lparr>de_irq := (True, [])\<rparr>) 2 fresh_dd_local (boot_kernel\<lparr>lgbl_d := 1\<rparr>)
      = Ret (k', fresh_dd_local\<lparr>dd_tstamp := qU (Qts fresh_dd_local)\<rparr>, Inr 0, [])"
  by (rule dd_read_hides_signal)
     (simp_all add: fresh_dd_local_def init_event_def init_dd_def empty_ring_def emptyFIFO_def ring_empty_def)

section \<open>Post mortem\<close>

lemma acq_pm_data_buffer:
  assumes "acq_pm_data env start k = Ret (k', Inr v)"
    and "unat (pmsize k) \<le> 0x400000" "dmac_exact (de_hz env) False (pmsize k) (de_actions env) (xfer_init (dma k))"
  shows "\<exists>x. libera_dd_transfer_OBfifo_DMA (de_hz env) False (pmsize k) (de_actions env) (dma k)
        = Ret (x, Inr (pmsize k))
     \<and> length (x_out x) = unat (pmsize k)
     \<and> pm k' = (pm k)\<lparr>pm_buf := dmac_write 0 (x_out x) (pm_buf (pm k))\<rparr> \<and> pmsize k' = pmsize k
     \<and> irqMask k' = irqMask k OR LIBERA_INTERRUPT_DD_MASK"
proof -
  obtain pos where c: "get_circ_offset_lmt (lgbl_d k) (st_lmt_off (settime (event k)))
      (HB_start_lmt (event k)) start = Some pos"
    using assms(1) by (auto simp: acq_pm_data_def split: option.splits)
  obtain k1 s1 where w: "libera_dd_write_CBfifo pos (pmsize k) (cfg_param (cfg k) LIBERA_CFG_PMDEC) k = (k1, s1)"
    by fastforce
  have f1: "sleep_frame k k1" using write_CBfifo_frame [of k pos "pmsize k"] w by (metis fst_conv)
  obtain v1 where s1: "s1 = Inr v1" using assms(1) c w by (cases s1) (auto simp: acq_pm_data_def)
  obtain k2 s2 where g: "getBlockedFromFIFO DDQ (fst (de_irq env)) (snd (de_irq env)) k1 = Ret (k2, s2)"
    using assms(1) c w s1 by (auto simp: acq_pm_data_def call_bind_Ret_iff)
  have "sleep_frame k k2" using sleep_frame_trans [OF f1 sleep_frame_getBlocked [OF g]] .
  then have d: "dma k2 = dma k" "pmsize k2 = pmsize k" "pm k2 = pm k" "irqMask k2 = irqMask k"
    by (simp_all add: sleep_frame_def)
  obtain v2 where s2: "s2 = Inr v2" using assms(1) c w s1 g by (cases s2) (auto simp: acq_pm_data_def)
  obtain x r where x: "libera_dd_transfer_OBfifo_DMA (de_hz env) False (pmsize k) (de_actions env) (dma k) = Ret (x, r)"
    using assms(1) c w s1 g s2 d by (auto simp: acq_pm_data_def call_bind_Ret_iff Let_def)
  have N: "unat (pmsize k) < 2 ^ 31" using assms(2) by simp
  note tf = transfer_facts [OF x N assms(3)]
  let ?k = "dd_irq_enable (k2\<lparr>dma := x_dma x, pm := (pm k2)\<lparr>pm_buf := dmac_write 0 (x_out x) (pm_buf (pm k2))\<rparr>\<rparr>)"
  have ps: "pmsize ?k = pmsize k" "irqMask ?k = irqMask k OR LIBERA_INTERRUPT_DD_MASK"
    "pm ?k = (pm k)\<lparr>pm_buf := dmac_write 0 (x_out x) (pm_buf (pm k))\<rparr>"
    using d by (simp_all add: dd_irq_enable_def set_irqMask_def)
  obtain n where r: "r = Inr n"
    using assms(1) c w s1 g s2 x d by (cases r) (auto simp: acq_pm_data_def Let_def)
  have a: "(if n < pmsize k then Ret (?k, Inl EIO) else Ret (?k, Inr 0)) = Ret (k', Inr v)"
    using assms(1) c w s1 g s2 x d(1,2) r ps(1) by (simp add: acq_pm_data_def Let_def)
  have "\<not> n < pmsize k" and k': "k' = ?k" using a by (auto split: if_splits)
  moreover have "unat n = length (x_out x)" using tf(1) tf(3) [OF r] by simp
  ultimately have "n = pmsize k" using tf(2) by (simp add: word_less_nat_alt word_unat_eq_iff)
  then show ?thesis
    using x r k' ps \<open>unat n = length (x_out x)\<close> by (intro exI [of _ x]) simp
qed

lemma map_block:
  "n \<le> length xs \<Longrightarrow>
     map (dmac_write 0 xs buf) [length xs - n..<length xs - n + n] = drop (length xs - n) xs"
  by (rule nth_equalityI) (auto simp: dmac_write_at)

text \<open>C20.
  The post-mortem data come back: when the acquisition reports success, the transfer has delivered
  the whole buffer, the time stamp is that of the newest post-mortem trigger, the DD interrupt is
  enabled, and reading \<open>n\<close> atoms from the PM device returns the last \<open>n\<close> atoms acquired, which end at
  the trigger's interval end.
\<close>

theorem pm_acquire_then_read:
  assumes "libera_acq_pm held env k = Ret (k', Inr v)" "\<not> sem (pm k)" "n \<le> unat (pmsize k)"
    and "unat (pmsize k) \<le> 0x400000" "dmac_exact (de_hz env) False (pmsize k) (de_actions env) (xfer_init (dma k))"
  shows "\<exists>x. libera_dd_transfer_OBfifo_DMA (de_hz env) False (pmsize k) (de_actions env) (dma k)
        = Ret (x, Inr (pmsize k))
     \<and> libera_pm_read sig (of_nat (32 * n)) False k'
        = Ret (Inr (32 * int n), drop (unat (pmsize k) - n) (x_out x))
     \<and> PMevent (pm k') = getFromCircBuf (paired_timestamps (event k) T_TRIG_POST_MORTEM)
     \<and> ts_st (pm_tstamp (pm k')) = lst2st (lst (PMevent (pm k')))
     \<and> irqMask k' AND LIBERA_INTERRUPT_DD_MASK = LIBERA_INTERRUPT_DD_MASK"
proof -
  define k0 where "k0 = set_pm_entry 0 (set_pm_entry 1 k)"
  let ?ev = "getFromCircBuf (paired_timestamps (event k0) T_TRIG_POST_MORTEM)"
  have lk: "acq_pm_locks held k0"
    using assms(1) by (auto simp: libera_acq_pm_def k0_def [symmetric] split: if_splits)
  have k0: "event k0 = event k" "pm k0 = pm k" "pmsize k0 = pmsize k" "dma k0 = dma k" "irqMask k0 = irqMask k"
    by (simp_all add: k0_def set_pm_entry_def)
  obtain mt where mt: "lmt2mt (lgbl_d k0) (lmt ?ev) = Some mt"
    using assms(1) lk by (cases "lmt2mt (lgbl_d k0) (lmt ?ev)") (auto simp: libera_acq_pm_def k0_def [symmetric])
  define ke where "ke = k0\<lparr>pm := (pm k0)\<lparr>PMevent := ?ev\<rparr>\<rparr>"
  define k1 where "k1 = ke\<lparr>pm := (pm ke)\<lparr>pm_tstamp := \<lparr>ts_st = lst2st (lst ?ev), ts_mt = mt\<rparr>\<rparr>\<rparr>"
  let ?start = "pm_start (lmt ?ev) k1"
  have a: "acq_pm_wait env ?start k1 = Ret (k', Inr v)"
    using assms(1) lk mt by (simp add: libera_acq_pm_def k0_def [symmetric] ke_def k1_def Let_def)
  obtain k2 c where g: "libera_get_CTIME (fst (de_ctime env)) (snd (de_ctime env)) k1 = Ret (k2, c)"
    using a by (auto simp: acq_pm_wait_def call_bind_Ret_iff)
  obtain t0 where c: "c = Inr t0" using a g by (cases c) (auto simp: acq_pm_wait_def)
  obtain k3 c3 e where w: "wait_lmt (of_nat (de_hz env)) (de_waits env) t0 ?start k2 = Ret (k3, c3, e)"
    using a g c by (auto simp: acq_pm_wait_def call_bind_Ret_iff)
  have e: "e = None" using a g c w by (cases e) (auto simp: acq_pm_wait_def)
  have d: "acq_pm_data env ?start k3 = Ret (k', Inr v)" using a g c w e by (simp add: acq_pm_wait_def)
  have "sleep_frame k2 k3" using w wait_clock_frame unfolding wait_lmt_def by blast
  then have "sleep_frame k1 k3" using sleep_frame_trans [OF sleep_frame_CTIME [OF g]] by blast
  then have k3: "pm k3 = pm k1" "dma k3 = dma k" "pmsize k3 = pmsize k" "irqMask k3 = irqMask k"
    by (simp_all add: sleep_frame_def k1_def ke_def k0)
  obtain x where x: "libera_dd_transfer_OBfifo_DMA (de_hz env) False (pmsize k) (de_actions env) (dma k)
        = Ret (x, Inr (pmsize k))" "length (x_out x) = unat (pmsize k)"
    "pm k' = (pm k1)\<lparr>pm_buf := dmac_write 0 (x_out x) (pm_buf (pm k1))\<rparr>" "pmsize k' = pmsize k"
    "irqMask k' = irqMask k OR LIBERA_INTERRUPT_DD_MASK"
    using acq_pm_data_buffer [OF d] assms(4,5) unfolding k3 by blast
  have free: "\<not> sem (pm k')" using assms(2) x(3) by (simp add: k1_def ke_def k0)
  have n32: "unat (of_nat (32 * n) :: u32) = 32 * n"
    using assms(3,4) by (simp add: unat_of_nat del: of_nat_mult)
  have q: "unat ((of_nat (32 * n) :: u32) div DD_ATOM_BYTES) = n" "(of_nat (32 * n) :: u32) mod DD_ATOM_BYTES = 0"
    by (simp_all only: unat_div unat_mod n32 DD_ATOM_BYTES_def word_unat_eq_iff) simp_all
  have big: "\<not> pmsize k * DD_ATOM_BYTES < of_nat (32 * n)"
    using assms(3,4) by (simp add: word_less_nat_alt DD_ATOM_BYTES_def unat_word_ariths n32 del: of_nat_mult)
  have first: "unat (pmsize k - (of_nat (32 * n) div DD_ATOM_BYTES)) = unat (pmsize k) - n"
    using assms(3) by (simp add: unat_sub word_le_nat_alt q(1) del: of_nat_mult)
  have "sint ((of_nat (32 * n) :: u32) div DD_ATOM_BYTES * DD_ATOM_BYTES) = 32 * int n"
    using atom_bytes [of "replicate n ()" "(of_nat (32 * n) :: u32) div DD_ATOM_BYTES"] q(1) assms(3,4)
    by (simp del: of_nat_mult)
  then have "libera_pm_read sig (of_nat (32 * n)) False k'
      = Ret (Inr (32 * int n), drop (unat (pmsize k) - n) (x_out x))"
    using map_block [of n "x_out x" "pm_buf (pm k1)"] x(2,3) assms(3) free big q first
    by (simp add: libera_pm_read_def x(4) Let_def del: of_nat_mult)
  moreover have "irqMask k' AND LIBERA_INTERRUPT_DD_MASK = LIBERA_INTERRUPT_DD_MASK"
    unfolding x(5) by (rule bit_eqI) (auto simp: bit_simps)
  ultimately show ?thesis using x(1,3) by (intro exI [of _ x]) (simp add: k1_def ke_def k0)
qed

text \<open>An acquisition of two atoms.\<close>

lemma two_atoms_kernel_run:
  "(let x = xfer_run 100 False 2 two_atoms (xfer_init init_dma) in (x_pc x, x_hw x, Overrun (x_dma x)))
     = (X_done (Inr 2), [[1], [2]], False)"
  "dmac_exact 100 False 2 two_atoms (xfer_init init_dma)"
  by code_simp+

lemma two_atoms_kernel:
  "\<exists>x. libera_dd_transfer_OBfifo_DMA 100 False 2 two_atoms init_dma = Ret (x, Inr 2) \<and> x_out x = [[1], [2]]"
proof -
  let ?x = "xfer_run 100 False 2 two_atoms (xfer_init init_dma)"
  have r: "x_pc ?x = X_done (Inr 2)" "x_hw ?x = [[1], [2]]" "Overrun (x_dma ?x) = False"
    using two_atoms_kernel_run(1) by (simp_all only: Let_def prod.inject)
  have c: "libera_dd_transfer_OBfifo_DMA 100 False 2 two_atoms init_dma = Ret (?x, Inr 2)"
    by (simp add: libera_dd_transfer_OBfifo_DMA_def r(1))
  show ?thesis
    using transfer_facts(4) [OF c _ two_atoms_kernel_run(2)] c r(2,3) by simp
qed

definition kernel_pm2 :: kernel where
  "kernel_pm2 = kernel_d1\<lparr>pmsize := 2, cfg := init_cfg\<lparr>cfg_param := (\<lambda>_. 0)(LIBERA_CFG_PMDEC := 1)\<rparr>\<rparr>"

lemma acq_pm_run: "\<exists>k'. libera_acq_pm (\<lambda>_. False) dd_env2 kernel_pm2 = Ret (k', Inr 0)"
proof -
  obtain x where x: "libera_dd_transfer_OBfifo_DMA 100 False 2 two_atoms init_dma = Ret (x, Inr 2)"
    using two_atoms_kernel by blast
  let ?ts = "\<lparr>ts_st = lst2st 0, ts_mt = 0\<rparr>"
  define k1 where "k1 = set_pm_entry 0 (set_pm_entry 1 kernel_pm2)
    \<lparr>pm := (init_pm\<lparr>PMevent := \<lparr>lst = 0, lmt = 0\<rparr>, pm_tstamp := ?ts\<rparr>)\<rparr>"
  have k1: "dma k1 = init_dma" "lgbl_d k1 = 1" "flmcdHz k1 = 1080000000" "pmsize k1 = 2"
    "st_lmt_off (settime (event k1)) = 0" "HB_start_lmt (event k1) = 0x8000000"
    "fifo_of DDQ k1 = one_stamp 1" "cfg_param (cfg k1) LIBERA_CFG_PMDEC = 1" "\<not> sem (event k1)"
    "cfg_param (cfg k1) LIBERA_CFG_PMOFFSET = 0"
    by (simp_all add: k1_def kernel_pm2_def kernel_d1_def set_pm_entry_def init_event_def init_settime_def
        LIBERA_FLMC_INITIAL_def LIBERA_CFG_PMDEC_def LIBERA_CFG_PMOFFSET_def)
  have ps: "pm_start 0 k1 = - 2" by (simp add: pm_start_def k1)
  have ev: "getFromCircBuf (paired_timestamps (event kernel_pm2) T_TRIG_POST_MORTEM) = \<lparr>lst = 0, lmt = 0\<rparr>"
    by (simp add: kernel_pm2_def kernel_d1_def init_event_def getFromCircBuf_def)
  have ex: "(\<forall>i :: nat. \<not> i < 31) = False" "(\<exists>i :: nat. i < 31) = True" by (auto intro: exI [of _ 0])
  have l: "libera_acq_pm (\<lambda>_. False) dd_env2 kernel_pm2 = acq_pm_wait dd_env2 (- 2) k1"
    using ev ps
    by (simp add: ex libera_acq_pm_def acq_pm_locks_def set_pm_entry_def k1_def kernel_pm2_def kernel_d1_def
        init_dd_def lmt2mt_def div_u64_def Let_def)
  obtain k2 where c: "libera_get_CTIME False [] k1 = Ret (k2, Inr \<lparr>lst = 500, lmt = 2000\<rparr>)"
    "dd k2 = dd k1" "\<not> sem (event k2)"
    using CTIME_one_stamp [of k1 500 2000 False]
    by (auto simp: k1_def kernel_pm2_def kernel_d1_def init_event_def set_pm_entry_def)
  have f: "sleep_frame k1 k2" by (rule sleep_frame_CTIME [OF c(1)])
  then have k2: "dma k2 = init_dma" "lgbl_d k2 = 1" "pmsize k2 = 2" "st_lmt_off (settime (event k2)) = 0"
    "HB_start_lmt (event k2) = 0x8000000" "cfg_param (cfg k2) LIBERA_CFG_PMDEC = 1"
    using k1 by (simp_all add: sleep_frame_def)
  have w: "wait_lmt (of_nat (de_hz dd_env2)) (de_waits dd_env2) \<lparr>lst = 500, lmt = 2000\<rparr> (- 2) k2
      = Ret (k2, \<lparr>lst = 500, lmt = 2000\<rparr>, None)"
    by (simp add: wait_lmt_def wait_clock_def k2 LIBERA_DD_CIRCBUF_ATOMS_def LIBERA_DD_CIRCBUF_SAFE_def
        LIBERA_DD_READSYNC_MARGIN_def word_sless_alt)
  obtain start where st: "get_circ_offset_lmt 1 0 0x8000000 (- 2) = Some start"
    by (auto simp: get_circ_offset_lmt_def div_u64_def div_u64_rem_def LIBERA_CIRCBUF_ATOMS_def)
  let ?w = "reg_write (2 AND mask 22) DD_CB_FIFO_L (reg_write (cb_high 0 start) DD_CB_FIFO_H k2)"
  have wr: "libera_dd_write_CBfifo start 2 1 k2 = (?w, Inr 0)"
    by (simp add: write_CBfifo_cases)
  have "fifo_of DDQ ?w = one_stamp 1" "\<not> sem (event ?w)"
    using c(2,3) k1(7) by simp_all
  note g = getBlocked_one_stamp [OF this, of False]
  have "\<exists>k'. acq_pm_data dd_env2 (- 2) k2 = Ret (k', Inr 0)"
    using st wr g x k2
    by (simp add: acq_pm_data_def set_event_sem_def dd_irq_enable_def set_irqMask_def)
  then obtain k' where d: "acq_pm_data dd_env2 (- 2) k2 = Ret (k', Inr 0)" by blast
  have "acq_pm_wait dd_env2 (- 2) k1 = Ret (k', Inr 0)"
    by (simp only: acq_pm_wait_def dd_env2_simps(1) fst_conv snd_conv c(1) call_bind_simps prod.case
        sum.case w option.case d)
  then show ?thesis using l by auto
qed

theorem pm_acquire_then_read_witness:
  "\<exists>k'. libera_acq_pm (\<lambda>_. False) dd_env2 kernel_pm2 = Ret (k', Inr 0)
    \<and> libera_pm_read False (of_nat (32 * 1)) False k' = Ret (Inr 32, [[2]])"
proof -
  obtain k' where r: "libera_acq_pm (\<lambda>_. False) dd_env2 kernel_pm2 = Ret (k', Inr 0)"
    using acq_pm_run by blast
  have k: "pmsize kernel_pm2 = 2" "dma kernel_pm2 = init_dma" "sem (pm kernel_pm2) = False"
    by (simp_all add: kernel_pm2_def kernel_d1_def init_pm_def)
  have e: "dmac_exact (de_hz dd_env2) False (pmsize kernel_pm2) (de_actions dd_env2) (xfer_init (dma kernel_pm2))"
    unfolding dd_env2_simps k using two_atoms_kernel_run(2) .
  have p: "\<not> sem (pm kernel_pm2)" "1 \<le> unat (pmsize kernel_pm2)" "unat (pmsize kernel_pm2) \<le> 0x400000"
    by (simp_all add: k)
  obtain x where x: "libera_dd_transfer_OBfifo_DMA 100 False 2 two_atoms init_dma = Ret (x, Inr 2)"
    "libera_pm_read False (of_nat (32 * 1)) False k' = Ret (Inr (32 * int 1), drop (unat (2 :: u32) - 1) (x_out x))"
    using pm_acquire_then_read [OF r p e] unfolding dd_env2_simps k by blast
  have "x_out x = [[1], [2]]" using two_atoms_kernel x(1) by auto
  then show ?thesis using r x(2) by simp
qed

section \<open>The wait for the output buffer ends\<close>

definition reader_steps :: "xfer_action list \<Rightarrow> nat" where
  "reader_steps as = length (filter (\<lambda>a. case a of Reader _ \<Rightarrow> True | Dmac _ _ \<Rightarrow> False) as)"

lemma reader_steps_simps [simp]:
  "reader_steps [] = 0" "reader_steps (Reader i # as) = Suc (reader_steps as)"
  "reader_steps (Dmac b st # as) = reader_steps as"
  by (simp_all add: reader_steps_def)

lemma sync_ends:
  "x_pc x = X_sync c \<Longrightarrow> x_cmd x = None \<Longrightarrow> c \<le> hz + 1 \<Longrightarrow> hz + 2 \<le> reader_steps as + c \<Longrightarrow>
     \<exists>m \<le> length as. x_pc (xfer_run hz user N (take m as) x) \<in> {X_command, X_done (Inl EIO)}"
proof (induction as arbitrary: x c)
  case (Cons a as)
  show ?case
  proof (cases a)
    case (Dmac b st)
    then have "xfer_act hz user N a x = x" using Cons.prems(2) by (simp add: xfer_act_def)
    moreover obtain m where "m \<le> length as" "x_pc (xfer_run hz user N (take m as) x) \<in> {X_command, X_done (Inl EIO)}"
      using Cons.IH [OF Cons.prems(1-3)] Cons.prems(4) Dmac by auto
    ultimately show ?thesis by (intro exI [of _ "Suc m"]) simp
  next
    case (Reader i)
    let ?x = "xfer_act hz user N a x"
    have x: "?x = libera_OB_fifo_sync hz X_sync X_command c i x"
      using Cons.prems(1) Reader by (simp add: xfer_act_def xfer_step_def)
    show ?thesis
    proof (cases "dma_no_data (x_dma x) \<and> \<not> hz < c")
      case True
      then have "x_pc ?x = X_sync (c + 1)" "x_cmd ?x = None"
        using Cons.prems(2) by (simp_all add: x libera_OB_fifo_sync_def Let_def)
      moreover have "c + 1 \<le> hz + 1" "hz + 2 \<le> reader_steps as + (c + 1)"
        using True Cons.prems(4) Reader by simp_all
      ultimately obtain m where "m \<le> length as"
        "x_pc (xfer_run hz user N (take m as) ?x) \<in> {X_command, X_done (Inl EIO)}"
        using Cons.IH by blast
      then show ?thesis by (intro exI [of _ "Suc m"]) simp
    next
      case False
      then have "x_pc ?x \<in> {X_command, X_done (Inl EIO)}"
        by (auto simp: x libera_OB_fifo_sync_def Let_def)
      then show ?thesis by (intro exI [of _ 1]) simp
    qed
  qed
qed simp

text \<open>C0.
  The wait for the first data in the output buffer ends: within \<open>HZ + 3\<close> steps of the reader, one to
  set the transfer up and one per poll of the status register, whatever the register shows and
  whatever else happens in between, the reader either starts the DMA controller or gives up with an
  I/O error.
\<close>

theorem ob_sync_terminates:
  assumes "hz + 3 \<le> reader_steps as"
  shows "\<exists>m \<le> length as. x_pc (xfer_run hz user N (take m as) (xfer_init q)) \<in> {X_command, X_done (Inl EIO)}"
  using assms
proof (induction as)
  case (Cons a as)
  show ?case
  proof (cases a)
    case (Dmac b st)
    then have "xfer_act hz user N a (xfer_init q) = xfer_init q" by (simp add: xfer_act_def xfer_init_def)
    moreover obtain m where "m \<le> length as"
      "x_pc (xfer_run hz user N (take m as) (xfer_init q)) \<in> {X_command, X_done (Inl EIO)}"
      using Cons Dmac by auto
    ultimately show ?thesis by (intro exI [of _ "Suc m"]) simp
  next
    case (Reader i)
    let ?x = "xfer_act hz user N a (xfer_init q)"
    have "x_pc ?x = X_sync 0" "x_cmd ?x = None"
      using Reader by (simp_all add: xfer_act_def xfer_step_def xfer_init_def xfer_start_def Let_def)
    moreover have "hz + 2 \<le> reader_steps as + 0" using Cons.prems Reader by simp
    ultimately obtain m where "m \<le> length as"
      "x_pc (xfer_run hz user N (take m as) ?x) \<in> {X_command, X_done (Inl EIO)}"
      using sync_ends by blast
    then show ?thesis by (intro exI [of _ "Suc m"]) simp
  qed
qed simp

theorem ob_sync_terminates_witness:
  "\<exists>m \<le> length (replicate 5 rd0).
     x_pc (xfer_run 2 True 7 (take m (replicate 5 rd0)) (xfer_init init_dma)) \<in> {X_command, X_done (Inl EIO)}"
  by (rule ob_sync_terminates) (simp add: numeral_eq_Suc rd0_def)

end
