(* ===== verification/Libera_Cfg.thy ===== *)
theory Libera_Cfg
  imports Libera_Dd
begin

text \<open>
  The configuration device (\<open>libera_cfg.c\<close>) with the EBPP parameters (\<open>ebpp.c\<close>): reading and
  setting a parameter, what a setting writes to the FPGA, and the initial values of
  \<open>libera_init_specific\<close>.
\<close>

section \<open>Instrument type\<close>

definition LIBERA_INSTRUMENT :: "u32 \<Rightarrow> u32" where
  "LIBERA_INSTRUMENT f = drop_bit 28 (f AND push_bit 28 0xF)"

definition LIBERA_INS_TYPE :: "u32 \<Rightarrow> u32" where
  "LIBERA_INS_TYPE f = drop_bit 24 (f AND push_bit 24 0xF)"

definition LIBERA_INSTRUMENT_BPM :: u32 where "LIBERA_INSTRUMENT_BPM = 0"
definition LIBERA_TYPE_BRILLIANCE :: u32 where "LIBERA_TYPE_BRILLIANCE = 1"

definition LIBERA_IS_BPM :: "u32 \<Rightarrow> bool" where
  "LIBERA_IS_BPM f = (LIBERA_INSTRUMENT f = LIBERA_INSTRUMENT_BPM)"

definition LIBERA_IS_BRILLIANCE :: "u32 \<Rightarrow> bool" where
  "LIBERA_IS_BRILLIANCE f = (LIBERA_IS_BPM f \<and> LIBERA_INS_TYPE f = LIBERA_TYPE_BRILLIANCE)"

section \<open>Open and release\<close>

text \<open>The FA and DSC devices open and close the same way: one writer, any number of readers.\<close>

definition single_writer_open :: "filp \<Rightarrow> 'a common_dev_scheme \<Rightarrow> ('a common_dev_scheme \<times> (errno + int)) call" where
  "single_writer_open f dev =
     (if sem dev then Hang
      else if fmode_write f \<and> master_filp dev \<noteq> None then Ret (dev, Inl EBUSY)
      else
        let dev = (if fmode_write f then dev\<lparr>master_filp := Some (file_id f), writers := writers dev + 1\<rparr> else dev);
            dev = (if fmode_read f then dev\<lparr>readers := readers dev + 1\<rparr> else dev)
        in Ret (dev\<lparr>open_count := open_count dev + 1\<rparr>, Inr 0))"

definition single_writer_release :: "filp \<Rightarrow> 'a common_dev_scheme \<Rightarrow> 'a common_dev_scheme" where
  "single_writer_release f dev =
     (let dev = dev\<lparr>open_count := open_count dev - 1\<rparr>;
          dev = (if fmode_read f then dev\<lparr>readers := readers dev - 1\<rparr> else dev)
      in if fmode_write f then
           let dev = dev\<lparr>writers := writers dev - 1\<rparr> in
           if writers dev = 0 then dev\<lparr>master_filp := None\<rparr> else dev
         else dev)"

definition libera_cfg_open :: "filp \<Rightarrow> kernel \<Rightarrow> (kernel \<times> (errno + int)) call" where
  "libera_cfg_open f k =
     call_bind (single_writer_open f (cfg k)) (\<lambda>(dev, r). Ret (k\<lparr>cfg := dev\<rparr>, r))"

definition libera_cfg_release :: "filp \<Rightarrow> kernel \<Rightarrow> kernel" where
  "libera_cfg_release f k = k\<lparr>cfg := single_writer_release f (cfg k)\<rparr>"

section \<open>Reading a parameter\<close>

abbreviation param :: "kernel \<Rightarrow> nat \<Rightarrow> u32" where "param k \<equiv> cfg_param (cfg k)"

definition cfg_mirrored :: "nat list" where
  "cfg_mirrored =
     [LIBERA_CFG_XOFFSET, LIBERA_CFG_YOFFSET, LIBERA_CFG_QOFFSET, LIBERA_CFG_KX, LIBERA_CFG_KY,
      LIBERA_CFG_ILK_XLOW, LIBERA_CFG_ILK_XHIGH, LIBERA_CFG_ILK_YLOW, LIBERA_CFG_ILK_YHIGH,
      LIBERA_CFG_ILK_MODE, LIBERA_CFG_ILK_OVERFLOW_LIMIT, LIBERA_CFG_ILK_OVERFLOW_DUR,
      LIBERA_CFG_ILK_GAIN_LIMIT, LIBERA_CFG_ILKSTATUS, LIBERA_CFG_PMOFFSET, LIBERA_CFG_PMDEC,
      LIBERA_CFG_EXTSWITCH, LIBERA_CFG_SWDELAY, LIBERA_CFG_TRIGDELAY, LIBERA_CFG_BCD_XOFFSET,
      LIBERA_CFG_BCD_YOFFSET, LIBERA_CFG_PM_XLOW, LIBERA_CFG_PM_XHIGH, LIBERA_CFG_PM_YLOW,
      LIBERA_CFG_PM_YHIGH, LIBERA_CFG_PM_MODE, LIBERA_CFG_PM_OVERFLOW_LIMIT, LIBERA_CFG_PM_OVERFLOW_DUR,
      LIBERA_CFG_SR_ENABLE, LIBERA_CFG_SR_CSPI_ENABLE, LIBERA_CFG_SR_AVERAGING_STOP,
      LIBERA_CFG_SR_AVERAGE_WINDOW, LIBERA_CFG_SR_START, LIBERA_CFG_SR_WINDOW, LIBERA_CFG_SP_THRESHOLD,
      LIBERA_CFG_SP_N_BEFORE, LIBERA_CFG_SP_N_AFTER]"

definition libera_cfg_get_specific :: "reg_read \<Rightarrow> nat \<Rightarrow> kernel \<Rightarrow> errno + u32" where
  "libera_cfg_get_specific readl idx k =
     (if idx \<in> set cfg_mirrored then Inr (param k idx)
      else if idx = LIBERA_CFG_DEC_DDC then Inr (lgbl_d k)
      else if idx = LIBERA_CFG_DFA then Inr (lgbl_dfa k)
      else if idx = LIBERA_CFG_DDC_MAFLENGTH then Inr (readl DDC_MAF_LENGTH)
      else if idx = LIBERA_CFG_DDC_MAFDELAY then Inr (readl DDC_MAF_DELAY)
      else if idx = LIBERA_CFG_MAX_ADC then Inr (readl ADC_MAX AND 0xFFFF)
      else if idx = LIBERA_CFG_AVERAGE_SUM then
        (let denominator = readl FA_NSUMS in
         if 0 < denominator then
           let dividend1 = ucast (readl FA_SUMSUMS_LSW) :: u64; dividend2 = ucast (readl FA_SUMSUMS_MSW)
           in Inr (ucast ((dividend1 + push_bit 32 dividend2) div ucast denominator))
         else Inr 0)
      else Inl EINVAL)"

section \<open>Setting a parameter\<close>

definition MAXDUR :: u32 where "MAXDUR = 4095"

definition scale_kadc :: "u32 \<Rightarrow> u32 \<Rightarrow> u32" where
  "scale_kadc factor limit =
     ucast ((ucast (limit AND 0x0000ffff) * ucast (factor * factor)) div (1000000 :: u64))"

text \<open>The limit of the ADC as the FPGA compares it: the square of the count over 256.\<close>

definition overflow_code :: "bool \<Rightarrow> u32 \<Rightarrow> u32" where
  "overflow_code brilliance val =
     (let adc_count = drop_bit (if brilliance then 4 else 0) val;
          adc_count = adc_count * adc_count
      in push_bit 16 val OR (drop_bit 8 adc_count AND 0x0000ffff))"

definition writes :: "(u32 \<times> u32) list \<Rightarrow> kernel \<Rightarrow> kernel" where
  "writes ws k = fold (\<lambda>(v, a). reg_write v a) ws k"

text \<open>The interlock limits go to the FPGA together, with the gain limit.\<close>

definition ilk_atom :: "kernel \<Rightarrow> kernel" where
  "ilk_atom k =
     (let overflow_limit = scale_kadc (kadc k) (param k LIBERA_CFG_ILK_OVERFLOW_LIMIT);
          attn_sum = param k LIBERA_CFG_ILK_GAIN_LIMIT AND 0x0000ffff
      in writes
        [(param k LIBERA_CFG_ILK_XLOW, ILK_XLOW), (param k LIBERA_CFG_ILK_XHIGH, ILK_XHIGH),
         (param k LIBERA_CFG_ILK_YLOW, ILK_YLOW), (param k LIBERA_CFG_ILK_YHIGH, ILK_YHIGH),
         (attn_sum, DSC_ILK_GAIN_LIMIT), (overflow_limit, DSC_ILK_OVERFLOW_LIMIT),
         (param k LIBERA_CFG_ILK_OVERFLOW_DUR, DSC_ILK_OVERFLOW_DUR),
         (param k LIBERA_CFG_ILK_MODE, ILK_CONTROL)] k)"

text \<open>The post-mortem limits go with the overflow duration.\<close>

definition pm_atom :: "reg_read \<Rightarrow> kernel \<Rightarrow> kernel" where
  "pm_atom readl k =
     (let overflow_limit = scale_kadc (kadc k) (param k LIBERA_CFG_PM_OVERFLOW_LIMIT);
          val = (readl T_TRIG_DELAY AND 0xFFFF3FFF) OR push_bit 14 (param k LIBERA_CFG_PM_MODE AND 3);
          k = writes
            [(val, T_TRIG_DELAY), (param k LIBERA_CFG_PM_XLOW, PM_XLOW), (param k LIBERA_CFG_PM_XHIGH, PM_XHIGH),
             (param k LIBERA_CFG_PM_YLOW, PM_YLOW), (param k LIBERA_CFG_PM_YHIGH, PM_YHIGH),
             (overflow_limit, DSC_PM_OVERFLOW_LIMIT), (param k LIBERA_CFG_PM_OVERFLOW_DUR, DSC_PM_OVERFLOW_DUR)] k
      in k\<lparr>cfg := (cfg k)\<lparr>pm_freezed := 0\<rparr>\<rparr>)"

text \<open>Filter coefficients are sent when the last one of a filter is set.\<close>

definition send_coefficients :: "u32 \<Rightarrow> nat \<Rightarrow> nat \<Rightarrow> kernel \<Rightarrow> kernel" where
  "send_coefficients reg first n k =
     writes ((1, FA_FIFO_RESET) # map (\<lambda>i. (param k (first + i), reg)) [0..<n]) k"

definition cfg_set_coefficient :: "nat \<Rightarrow> u32 \<Rightarrow> kernel \<Rightarrow> kernel" where
  "cfg_set_coefficient idx val k =
     (let k = set_cfg_param idx val k in
      if idx = LIBERA_CFG_NOTCH1 + LIBERA_CFG_NOTCH_MAX - 1
      then send_coefficients FA_NOTCH1 LIBERA_CFG_NOTCH1 LIBERA_CFG_NOTCH_MAX k
      else if idx = LIBERA_CFG_NOTCH2 + LIBERA_CFG_NOTCH_MAX - 1
      then send_coefficients FA_NOTCH2 LIBERA_CFG_NOTCH2 LIBERA_CFG_NOTCH_MAX k
      else if of_nat idx = (of_nat LIBERA_CFG_POLYPHASE_FIR + num_dfir k - 1 :: u32)
      then send_coefficients FA_POLYPHASE_FIR LIBERA_CFG_POLYPHASE_FIR (unat (num_dfir k)) k
      else k)"

text \<open>Parameters that are kept and not written by themselves.\<close>

definition cfg_kept :: "nat list" where
  "cfg_kept =
     [LIBERA_CFG_ILK_XLOW, LIBERA_CFG_ILK_XHIGH, LIBERA_CFG_ILK_YLOW, LIBERA_CFG_ILK_YHIGH, LIBERA_CFG_ILK_MODE,
      LIBERA_CFG_PM_MODE, LIBERA_CFG_PM_XLOW, LIBERA_CFG_PM_XHIGH, LIBERA_CFG_PM_YLOW, LIBERA_CFG_PM_YHIGH,
      LIBERA_CFG_PMOFFSET, LIBERA_CFG_PMDEC, LIBERA_CFG_SR_CSPI_ENABLE, LIBERA_CFG_SP_THRESHOLD,
      LIBERA_CFG_SP_N_BEFORE, LIBERA_CFG_SP_N_AFTER]"

definition fa_param_reg :: "nat \<Rightarrow> u32" where
  "fa_param_reg idx = FA_OFFSET + of_nat (idx - LIBERA_CFG_CUSTOM_FIRST) * 4"

definition cfg_set_window :: "u32 \<Rightarrow> kernel \<Rightarrow> kernel" where
  "cfg_set_window val k =
     (let k = set_cfg_param LIBERA_CFG_SR_AVERAGE_WINDOW val k;
          on = param k LIBERA_CFG_SR_ENABLE \<noteq> 0;
          k = (if on then reg_write 0 FA_ENABLE k else k);
          k = reg_write (val AND 0x1F) FA_AVE_WIN k
      in if on then reg_write 1 FA_ENABLE k else k)"

definition libera_cfg_set_specific ::
  "reg_read \<Rightarrow> nat \<Rightarrow> u32 \<Rightarrow> kernel \<Rightarrow> kernel \<times> (errno + int)" where
  "libera_cfg_set_specific readl idx val k =
     (if idx = LIBERA_CFG_XOFFSET then
        (reg_write (val + param k LIBERA_CFG_BCD_XOFFSET) FA_OFFSET (set_cfg_param idx val k), Inr 0)
      else if idx = LIBERA_CFG_YOFFSET then
        (reg_write (val + param k LIBERA_CFG_BCD_YOFFSET) (FA_OFFSET + 4) (set_cfg_param idx val k), Inr 0)
      else if idx \<in> {LIBERA_CFG_QOFFSET, LIBERA_CFG_KX, LIBERA_CFG_KY} then
        (reg_write val (fa_param_reg idx) (set_cfg_param idx val k), Inr 0)
      else if idx \<in> set cfg_kept then (set_cfg_param idx val k, Inr 0)
      else if idx \<in> {LIBERA_CFG_PM_OVERFLOW_LIMIT, LIBERA_CFG_ILK_OVERFLOW_LIMIT} then
        (let brilliance = LIBERA_IS_BRILLIANCE (feature k) in
         if val \<le> (if brilliance then 32767 else 2047)
         then (set_cfg_param idx (overflow_code brilliance val) k, Inr 0)
         else (k, Inl EINVAL))
      else if idx = LIBERA_CFG_ILK_OVERFLOW_DUR then
        (if val \<le> ilkdur k \<and> val \<le> MAXDUR then (set_cfg_param idx val k, Inr 0) else (k, Inl EINVAL))
      else if idx = LIBERA_CFG_ILK_GAIN_LIMIT then (ilk_atom (set_cfg_param idx val k), Inr 0)
      else if idx = LIBERA_CFG_ILKSTATUS then (set_cfg_param idx 0 k, Inr 0)
      else if idx = LIBERA_CFG_EXTSWITCH then
        (let source = (if val \<noteq> 0 then readl DSC_SW_SOURCE OR DSC_SW_EXTERNAL
                       else readl DSC_SW_SOURCE AND NOT DSC_SW_EXTERNAL)
         in (set_cfg_param idx val (reg_write source DSC_SW_SOURCE k), Inr 0))
      else if idx = LIBERA_CFG_SWDELAY then (reg_write val DSC_SW_DELAY (set_cfg_param idx val k), Inr 0)
      else if idx = LIBERA_CFG_DDC_MAFLENGTH then (reg_write val DDC_MAF_LENGTH k, Inr 0)
      else if idx = LIBERA_CFG_DDC_MAFDELAY then (reg_write val DDC_MAF_DELAY k, Inr 0)
      else if idx = LIBERA_CFG_TRIGDELAY then
        (reg_write ((readl T_TRIG_DELAY AND 0xc000ffff) OR push_bit 16 (val AND 0x3fff)) T_TRIG_DELAY
           (set_cfg_param idx val k), Inr 0)
      else if idx = LIBERA_CFG_PM_OVERFLOW_DUR then
        (if val \<le> pmdur k \<and> val \<le> MAXDUR then (pm_atom readl (set_cfg_param idx val k), Inr 0)
         else (k, Inl EINVAL))
      else if idx = LIBERA_CFG_SR_ENABLE then (reg_write val FA_ENABLE (set_cfg_param idx val k), Inr 0)
      else if idx = LIBERA_CFG_SR_AVERAGING_STOP then
        (reg_write (val AND 0x1F) FA_AVE_STOP (set_cfg_param idx val k), Inr 0)
      else if idx = LIBERA_CFG_SR_AVERAGE_WINDOW then (cfg_set_window val k, Inr 0)
      else if idx = LIBERA_CFG_SR_START then
        (reg_write (val AND 0x1F) FA_START (set_cfg_param idx val k), Inr 0)
      else if idx = LIBERA_CFG_SR_WINDOW then
        (reg_write (val AND 0x7F) FA_WINDOW (set_cfg_param idx val k), Inr 0)
      else if LIBERA_CFG_COEFF \<le> idx \<and> idx < LIBERA_CFG_POLYPHASE_FIR + LIBERA_CFG_FIR_MAX
      then (cfg_set_coefficient idx val k, Inr 0)
      else (k, Inl EINVAL))"

section \<open>Commands\<close>

text \<open>A request is the pair of index and value; the results are what is copied to user space.\<close>

datatype cfg_cmd =
    GET_CFG "(u32 \<times> u32) from_user" | SET_CFG "(u32 \<times> u32) from_user"
  | GET_MAGIC | GET_DESC | OTHER_CFG_SET | OTHER_CFG_CMD | FOREIGN_CFG_CMD

datatype cfg_out = CfgNone | CfgReq "u32 \<times> u32" | CfgMagic | CfgDesc

definition cfg_get :: "ioenv \<Rightarrow> (u32 \<times> u32) from_user \<Rightarrow> kernel \<Rightarrow> (errno + int) \<times> cfg_out" where
  "cfg_get env u k =
     (let idx = unat (fst (snd u)) in
      if fst u \<noteq> 0 then (Inr (uint (fst u)), CfgNone)
      else if LIBERA_CFG_PARAMS_MAX \<le> idx then (Inl EINVAL, CfgNone)
      else
        let r = (if idx \<in> {LIBERA_CFG_TRIGMODE, LIBERA_CFG_MCPLL, LIBERA_CFG_SCPLL} then Inr (param k idx)
                 else if idx = LIBERA_CFG_FEATURE_CUSTOMER then Inr (io_reg env FPGA_FEATURE_CUSTOMER)
                 else if idx = LIBERA_CFG_FEATURE_ITECH then Inr (feature k)
                 else libera_cfg_get_specific (io_reg env) idx k)
        in case r of
             Inl e \<Rightarrow> (Inl e, CfgNone)
           | Inr v \<Rightarrow> (copy_ret (io_uncopied env), CfgReq (fst (snd u), v)))"

definition cfg_set :: "ioenv \<Rightarrow> (u32 \<times> u32) from_user \<Rightarrow> kernel \<Rightarrow> kernel \<times> (errno + int)" where
  "cfg_set env u k =
     (let idx = unat (fst (snd u)); val = snd (snd u) in
      if fst u \<noteq> 0 then (k, Inr (uint (fst u)))
      else if LIBERA_CFG_PARAMS_MAX \<le> idx then (k, Inl EINVAL)
      else if idx \<in> {LIBERA_CFG_MCPLL, LIBERA_CFG_SCPLL} then (k, Inl EINVAL)
      else
        let (k', r) = (if idx = LIBERA_CFG_TRIGMODE then (set_cfg_param idx val k, Inr 0)
                       else libera_cfg_set_specific (io_reg env) idx val k)
        in case r of
             Inl e \<Rightarrow> (k', Inl e)
           | Inr _ \<Rightarrow> (fst (libera_send_event LIBERA_EVENT_CFG (fst (snd u)) k'), Inr 0))"

definition libera_cfg_cmd ::
  "cfg_cmd \<Rightarrow> ioenv \<Rightarrow> kernel \<Rightarrow> kernel \<times> (errno + int) \<times> cfg_out" where
  "libera_cfg_cmd cmd env k =
     (case cmd of
        GET_CFG u \<Rightarrow> (k, cfg_get env u k)
      | SET_CFG u \<Rightarrow> (let (k, r) = cfg_set env u k in (k, r, CfgNone))
      | GET_MAGIC \<Rightarrow> (k, copy_ret (io_uncopied env), CfgMagic)
      | GET_DESC \<Rightarrow> (k, copy_ret (io_uncopied env), CfgDesc)
      | _ \<Rightarrow> (k, Inl ENOTTY, CfgNone))"

definition is_cfg_set :: "cfg_cmd \<Rightarrow> bool" where
  "is_cfg_set cmd = (case cmd of SET_CFG _ \<Rightarrow> True | OTHER_CFG_SET \<Rightarrow> True | _ \<Rightarrow> False)"

text \<open>The ioctl takes no mutex; only the writer may set.\<close>

definition libera_cfg_ioctl ::
  "filp \<Rightarrow> cfg_cmd \<Rightarrow> ioenv \<Rightarrow> kernel \<Rightarrow> kernel \<times> (errno + int) \<times> cfg_out" where
  "libera_cfg_ioctl f cmd env k =
     (if cmd = FOREIGN_CFG_CMD then (k, Inl ENOTTY, CfgNone)
      else if \<not> io_access env then (k, Inl EFAULT, CfgNone)
      else if is_cfg_set cmd \<and> master_filp (cfg k) \<noteq> Some (file_id f) then (k, Inl EPERM, CfgNone)
      else libera_cfg_cmd cmd env k)"

end
