(* ===== verification/Libera_Blk.thy ===== *)
theory Libera_Blk
  imports Libera_Cfg
begin

text \<open>
  The devices that copy blocks of registers: the ADC buffer (\<open>libera_adc.c\<close>, with the transformation
  of \<open>ebpp.c\<close>), the fast-acquisition block (\<open>libera_fa.c\<close>) and the digital-signal-conditioning block
  (\<open>libera_dsc.c\<close>). The two block devices are the same code over different blocks; their descriptor
  is the position in the block.
\<close>

section \<open>Register blocks\<close>

text \<open>The CPU is little endian: a word is four bytes, low byte first.\<close>

definition word_bytes :: "u32 \<Rightarrow> u8 list" where
  "word_bytes w = [ucast w, ucast (drop_bit 8 w), ucast (drop_bit 16 w), ucast (drop_bit 24 w)]"

fun bytes_words :: "u8 list \<Rightarrow> u32 list" where
  "bytes_words (a # b # c # d # bs) =
     (ucast a OR push_bit 8 (ucast b) OR push_bit 16 (ucast c) OR push_bit 24 (ucast d)) # bytes_words bs"
| "bytes_words _ = []"

definition libera_readlBlock :: "reg_read \<Rightarrow> u32 \<Rightarrow> nat \<Rightarrow> u32 list" where
  "libera_readlBlock readl address n = map (\<lambda>i. readl (address + 4 * of_nat i)) [0..<n]"

definition libera_writelBlock :: "u32 \<Rightarrow> u32 list \<Rightarrow> kernel \<Rightarrow> kernel" where
  "libera_writelBlock address ws k =
     fold (\<lambda>i. reg_write (ws ! i) (address + 4 * of_nat i)) [0..<length ws] k"

section \<open>Block devices\<close>

definition FAI_BLOCK :: u32 where "FAI_BLOCK = 0x0 + FAI_OFFSET"
definition DSC_BLOCK :: u32 where "DSC_BLOCK = 0x0 + ADC_OFFSET"

text \<open>Seeking. \<open>bsize\<close> is the size of the block, \<open>pos\<close> the position of the descriptor.\<close>

definition blk_llseek :: "nat \<Rightarrow> s64 \<Rightarrow> nat \<Rightarrow> s64 \<Rightarrow> s64 \<times> (errno + s64)" where
  "blk_llseek bsize off whence pos =
     (if 2 < whence then (pos, Inl EINVAL)
      else
        let newpos = (if whence = 0 then off else if whence = 1 then pos + off else of_nat bsize + off) in
        if newpos <s 0 \<or> of_nat bsize <s newpos then (pos, Inl EINVAL)
        else if newpos mod 4 \<noteq> 0 then (pos, Inl EINVAL)
        else (newpos, Inr newpos))"

text \<open>The number of bytes a call moves, cut at the end of the block.\<close>

definition blk_count :: "nat \<Rightarrow> s64 \<Rightarrow> u32 \<Rightarrow> u32" where
  "blk_count bsize pos count = (if of_nat bsize - pos <s ucast count then ucast (of_nat bsize - pos) else count)"

text \<open>Reading; the buffer of the device keeps what was read. \<open>copy_fails\<close> is \<open>copy_to_user\<close> failing.\<close>

definition blk_read ::
  "nat \<Rightarrow> u32 \<Rightarrow> bool \<Rightarrow> reg_read \<Rightarrow> bool \<Rightarrow> u32 \<Rightarrow> s64 \<Rightarrow> libera_blk_device
     \<Rightarrow> (libera_blk_device \<times> s64 \<times> (errno + int) \<times> u8 list) call" where
  "blk_read bsize block sig readl copy_fails count pos dev =
     (case mutex_lock_interruptible sig (sem dev) of
        Interrupted \<Rightarrow> Ret (dev, pos, Inl ERESTARTSYS, [])
      | Sleeps \<Rightarrow> Hang
      | Acquired \<Rightarrow>
          if of_nat bsize \<le>s pos then Ret (dev, pos, Inr 0, [])
          else
            let count = blk_count bsize pos count in
            if count mod 4 \<noteq> 0 then Ret (dev, pos, Inl EINVAL, [])
            else
              let bytes = concat (map word_bytes (libera_readlBlock readl (block + ucast pos) (unat (count div 4))));
                  dev = dev\<lparr>blk_buf := bytes @ drop (length bytes) (blk_buf dev)\<rparr>
              in if copy_fails then Ret (dev, pos, Inl EFAULT, [])
                 else Ret (dev, pos + ucast count, Inr (sint count), bytes))"

text \<open>Writing; the data is what the device buffer holds after \<open>copy_from_user\<close>.\<close>

definition blk_write ::
  "nat \<Rightarrow> u32 \<Rightarrow> bool \<Rightarrow> (bool \<times> u8 list) \<Rightarrow> u32 \<Rightarrow> s64 \<Rightarrow> (kernel \<Rightarrow> libera_blk_device)
     \<Rightarrow> (libera_blk_device \<Rightarrow> kernel \<Rightarrow> kernel) \<Rightarrow> kernel \<Rightarrow> (kernel \<times> s64 \<times> (errno + int)) call" where
  "blk_write bsize block sig u count pos get put k =
     (case mutex_lock_interruptible sig (sem (get k)) of
        Interrupted \<Rightarrow> Ret (k, pos, Inl ERESTARTSYS)
      | Sleeps \<Rightarrow> Hang
      | Acquired \<Rightarrow>
          if of_nat bsize \<le>s pos then Ret (k, pos, Inr 0)
          else
            let count = blk_count bsize pos count in
            if count mod 4 \<noteq> 0 then Ret (k, pos, Inl EINVAL)
            else
              let bytes = take (unat count) (snd u);
                  k = put ((get k)\<lparr>blk_buf := bytes @ drop (length bytes) (blk_buf (get k))\<rparr>) k
              in if fst u then Ret (k, pos, Inl EFAULT)
                 else Ret (libera_writelBlock (block + ucast pos) (bytes_words bytes) k, pos + ucast count,
                   Inr (sint count)))"

subsection \<open>Fast acquisition\<close>

definition set_fa :: "libera_blk_device \<Rightarrow> kernel \<Rightarrow> kernel" where "set_fa dev k = k\<lparr>fa := dev\<rparr>"

definition libera_fa_open :: "filp \<Rightarrow> kernel \<Rightarrow> (kernel \<times> (errno + int)) call" where
  "libera_fa_open f k = call_bind (single_writer_open f (fa k)) (\<lambda>(dev, r). Ret (k\<lparr>fa := dev\<rparr>, r))"

definition libera_fa_release :: "filp \<Rightarrow> kernel \<Rightarrow> kernel" where
  "libera_fa_release f k = k\<lparr>fa := single_writer_release f (fa k)\<rparr>"

definition libera_fa_llseek :: "s64 \<Rightarrow> nat \<Rightarrow> s64 \<Rightarrow> s64 \<times> (errno + s64)" where
  "libera_fa_llseek = blk_llseek FAI_BLOCKSIZE"

definition libera_fa_read ::
  "bool \<Rightarrow> reg_read \<Rightarrow> bool \<Rightarrow> u32 \<Rightarrow> s64 \<Rightarrow> kernel \<Rightarrow> (kernel \<times> s64 \<times> (errno + int) \<times> u8 list) call" where
  "libera_fa_read sig readl copy_fails count pos k =
     call_bind (blk_read FAI_BLOCKSIZE FAI_BLOCK sig readl copy_fails count pos (fa k))
       (\<lambda>(dev, rest). Ret (k\<lparr>fa := dev\<rparr>, rest))"

definition libera_fa_write ::
  "bool \<Rightarrow> (bool \<times> u8 list) \<Rightarrow> u32 \<Rightarrow> s64 \<Rightarrow> kernel \<Rightarrow> (kernel \<times> s64 \<times> (errno + int)) call" where
  "libera_fa_write sig u count pos k = blk_write FAI_BLOCKSIZE FAI_BLOCK sig u count pos fa set_fa k"

datatype fa_cmd = FA_SET | FA_OTHER | FOREIGN_FA_CMD

text \<open>The FA device has no commands.\<close>

definition libera_fa_ioctl :: "filp \<Rightarrow> fa_cmd \<Rightarrow> bool \<Rightarrow> kernel \<Rightarrow> errno + int" where
  "libera_fa_ioctl f cmd access k =
     (if cmd = FOREIGN_FA_CMD then Inl ENOTTY
      else if \<not> access then Inl EFAULT
      else if cmd = FA_SET \<and> master_filp (fa k) \<noteq> Some (file_id f) then Inl EPERM
      else Inl ENOTTY)"

subsection \<open>Digital signal conditioning\<close>

definition set_dsc :: "libera_blk_device \<Rightarrow> kernel \<Rightarrow> kernel" where "set_dsc dev k = k\<lparr>dsc := dev\<rparr>"

definition libera_dsc_open :: "filp \<Rightarrow> kernel \<Rightarrow> (kernel \<times> (errno + int)) call" where
  "libera_dsc_open f k = call_bind (single_writer_open f (dsc k)) (\<lambda>(dev, r). Ret (k\<lparr>dsc := dev\<rparr>, r))"

definition libera_dsc_release :: "filp \<Rightarrow> kernel \<Rightarrow> kernel" where
  "libera_dsc_release f k = k\<lparr>dsc := single_writer_release f (dsc k)\<rparr>"

definition libera_dsc_llseek :: "s64 \<Rightarrow> nat \<Rightarrow> s64 \<Rightarrow> s64 \<times> (errno + s64)" where
  "libera_dsc_llseek = blk_llseek DSC_BLOCKSIZE"

definition libera_dsc_read ::
  "bool \<Rightarrow> reg_read \<Rightarrow> bool \<Rightarrow> u32 \<Rightarrow> s64 \<Rightarrow> kernel \<Rightarrow> (kernel \<times> s64 \<times> (errno + int) \<times> u8 list) call" where
  "libera_dsc_read sig readl copy_fails count pos k =
     call_bind (blk_read DSC_BLOCKSIZE DSC_BLOCK sig readl copy_fails count pos (dsc k))
       (\<lambda>(dev, rest). Ret (k\<lparr>dsc := dev\<rparr>, rest))"

definition libera_dsc_write ::
  "bool \<Rightarrow> (bool \<times> u8 list) \<Rightarrow> u32 \<Rightarrow> s64 \<Rightarrow> kernel \<Rightarrow> (kernel \<times> s64 \<times> (errno + int)) call" where
  "libera_dsc_write sig u count pos k = blk_write DSC_BLOCKSIZE DSC_BLOCK sig u count pos dsc set_dsc k"

text \<open>
  The offsets of the beam-current dependence are added to the fixed offsets of the configuration
  device; the sum goes to the FPGA.
\<close>

definition check_and_update :: "u32 \<Rightarrow> nat \<Rightarrow> nat \<Rightarrow> kernel \<Rightarrow> kernel \<times> int" where
  "check_and_update bcd_val bcd_idx fix_idx k =
     (if bcd_val \<noteq> param k bcd_idx then
        let k = set_cfg_param bcd_idx bcd_val k in
        (reg_write (bcd_val + param k fix_idx) (fa_param_reg fix_idx) k, 1)
      else (k, 0))"

text \<open>\<open>SET_DSC\<close> sends its event also when the argument could not be copied.\<close>

datatype dsc_cmd =
    SET_DSC "u32 from_user" | BCD_OFFSETS "(u32 \<times> u32) from_user" | OTHER_DSC_SET | OTHER_DSC_CMD | FOREIGN_DSC_CMD

definition is_dsc_set :: "dsc_cmd \<Rightarrow> bool" where
  "is_dsc_set cmd = (case cmd of OTHER_DSC_CMD \<Rightarrow> False | FOREIGN_DSC_CMD \<Rightarrow> False | _ \<Rightarrow> True)"

definition libera_dsc_ioctl :: "filp \<Rightarrow> dsc_cmd \<Rightarrow> bool \<Rightarrow> kernel \<Rightarrow> kernel \<times> (errno + int)" where
  "libera_dsc_ioctl f cmd access k =
     (if cmd = FOREIGN_DSC_CMD then (k, Inl ENOTTY)
      else if \<not> access then (k, Inl EFAULT)
      else if is_dsc_set cmd \<and> master_filp (dsc k) \<noteq> Some (file_id f) then (k, Inl EPERM)
      else case cmd of
        SET_DSC u \<Rightarrow> (fst (libera_send_event LIBERA_EVENT_CFG (snd u) k), copy_ret (fst u))
      | BCD_OFFSETS u \<Rightarrow>
          let k = fst (check_and_update (fst (snd u)) LIBERA_CFG_BCD_XOFFSET LIBERA_CFG_XOFFSET k);
              k = fst (check_and_update (snd (snd u)) LIBERA_CFG_BCD_YOFFSET LIBERA_CFG_YOFFSET k)
          in (k, copy_ret (fst u))
      | _ \<Rightarrow> (k, Inl ENOTTY))"

section \<open>ADC buffer\<close>

definition ADC_CHAN_AB :: u32 where "ADC_CHAN_AB = 0x2000 + ADC_OFFSET"
definition ADC_CHAN_CD :: u32 where "ADC_CHAN_CD = 0x3000 + ADC_OFFSET"
definition LIBERA_ADC_BUFFER_ATOMS :: nat where "LIBERA_ADC_BUFFER_ATOMS = 1024"
definition ADC_ATOM_BYTES :: u32 where "ADC_ATOM_BYTES = 8"

text \<open>An atom lists \<open>ChD\<close>, \<open>ChC\<close>, \<open>ChB\<close>, \<open>ChA\<close> in the order of the structure.\<close>

definition adc_sample :: "s16 \<Rightarrow> s16" where
  "adc_sample v = (if 2048 <s v then v - 4096 else v)"

definition ebpp_transform_adc :: "libera_atom_adc_t \<Rightarrow> libera_atom_adc_t" where
  "ebpp_transform_adc atom = map adc_sample atom"

definition get_adc_transform :: "u32 \<Rightarrow> (libera_atom_adc_t \<Rightarrow> libera_atom_adc_t) option" where
  "get_adc_transform f = (if LIBERA_IS_BRILLIANCE f then None else Some ebpp_transform_adc)"

definition libera_adc_open :: "filp \<Rightarrow> kernel \<Rightarrow> (kernel \<times> (errno + int)) call" where
  "libera_adc_open f k =
     (if sem (adc k) then Hang
      else if fmode_write f then Ret (k, Inl EACCES)
      else
        let dev = adc k;
            dev = (if master_filp dev = None then dev\<lparr>master_filp := Some (file_id f)\<rparr> else dev)
        in Ret (k\<lparr>adc := dev\<lparr>readers := readers dev + 1, open_count := open_count dev + 1\<rparr>\<rparr>, Inr 0))"

definition libera_adc_release :: "kernel \<Rightarrow> kernel" where
  "libera_adc_release k =
     (let dev = (adc k)\<lparr>open_count := open_count (adc k) - 1, readers := readers (adc k) - 1\<rparr>;
          dev = (if readers dev = 0 then dev\<lparr>master_filp := None\<rparr> else dev)
      in k\<lparr>adc := dev\<rparr>)"

definition libera_adc_llseek :: "nat \<Rightarrow> errno + int" where
  "libera_adc_llseek whence = (if whence \<le> 2 then Inr 0 else Inl EINVAL)"

text \<open>The two registers of an atom: the low half of a word is the first member in memory.\<close>

definition adc_raw_atom :: "reg_read \<Rightarrow> nat \<Rightarrow> libera_atom_adc_t" where
  "adc_raw_atom readl i =
     (let cd = readl (ADC_CHAN_CD + of_nat i * 4); ab = readl (ADC_CHAN_AB + of_nat i * 4)
      in [ucast cd, ucast (drop_bit 16 cd), ucast ab, ucast (drop_bit 16 ab)])"

definition adc_atom :: "reg_read \<Rightarrow> libera_adc_device \<Rightarrow> nat \<Rightarrow> libera_atom_adc_t" where
  "adc_atom readl dev i =
     (case adc_op dev of None \<Rightarrow> adc_raw_atom readl i | Some f \<Rightarrow> f (adc_raw_atom readl i))"

text \<open>
  \<open>fails_at\<close> is the atom at which \<open>copy_to_user\<close> fails; there the read returns without releasing
  the mutex. The test for an empty request comes before the mutex.
\<close>

definition libera_adc_read ::
  "bool \<Rightarrow> reg_read \<Rightarrow> nat option \<Rightarrow> u32 \<Rightarrow> kernel
     \<Rightarrow> (kernel \<times> (errno + int) \<times> libera_atom_adc_t list) call" where
  "libera_adc_read sig readl fails_at count k =
     (if count = 0 then Ret (k, Inr 0, [])
      else case mutex_lock_interruptible sig (sem (adc k)) of
        Interrupted \<Rightarrow> Ret (k, Inl ERESTARTSYS, [])
      | Sleeps \<Rightarrow> Hang
      | Acquired \<Rightarrow>
          if of_nat LIBERA_ADC_BUFFER_ATOMS * ADC_ATOM_BYTES < count then Ret (k, Inl EINVAL, [])
          else if count mod ADC_ATOM_BYTES \<noteq> 0 then Ret (k, Inl EINVAL, [])
          else
            let span_atoms = unat (count div ADC_ATOM_BYTES);
                buf = map (adc_atom readl (adc k)) [0..<LIBERA_ADC_BUFFER_ATOMS];
                k = k\<lparr>adc := (adc k)\<lparr>adc_buf := buf\<rparr>\<rparr>
            in case fails_at of
                 None \<Rightarrow> Ret (k, Inr (8 * int span_atoms), take span_atoms buf)
               | Some n \<Rightarrow>
                   if n < span_atoms
                   then Ret (k\<lparr>adc := (adc k)\<lparr>sem := True\<rparr>\<rparr>, Inl EFAULT, take n buf)
                   else Ret (k, Inr (8 * int span_atoms), take span_atoms buf))"

end
