(* ===== verification/Libera_Init.thy ===== *)
theory Libera_Init
  imports Libera_Blk
begin

text \<open>
  Loading and unloading the module (\<open>libera_main.c\<close>) and the EBPP part of the initialisation
  (\<open>ebpp.c\<close>). What the module holds of the kernel's resources is a list, newest first.
\<close>

section \<open>EBPP initialisation\<close>

definition LIBERA_ILK_ADC_12 :: u32 where "LIBERA_ILK_ADC_12 = 1900"
definition LIBERA_ILK_ADC_16 :: u32 where "LIBERA_ILK_ADC_16 = 30000"

text \<open>The initial values, in the order of the assignments.\<close>

definition init_params :: "reg_read \<Rightarrow> kernel \<Rightarrow> (nat \<times> u32) list" where
  "init_params readl k =
     (let brilliance = LIBERA_IS_BRILLIANCE (feature k);
          ilk_adc = (if brilliance then LIBERA_ILK_ADC_16 else LIBERA_ILK_ADC_12)
      in [(LIBERA_CFG_XOFFSET, 0), (LIBERA_CFG_YOFFSET, 0), (LIBERA_CFG_QOFFSET, 0),
          (LIBERA_CFG_KX, 10000000), (LIBERA_CFG_KY, 10000000),
          (LIBERA_CFG_ILK_XLOW, - 1000000), (LIBERA_CFG_ILK_XHIGH, 1000000),
          (LIBERA_CFG_ILK_YLOW, - 1000000), (LIBERA_CFG_ILK_YHIGH, 1000000),
          (LIBERA_CFG_ILK_MODE, 3), (LIBERA_CFG_ILK_OVERFLOW_LIMIT, ilk_adc), (LIBERA_CFG_ILK_OVERFLOW_DUR, 5),
          (LIBERA_CFG_ILK_GAIN_LIMIT, push_bit 16 (- 40) OR (if brilliance then 0 + 0 else 16 + 16)),
          (LIBERA_CFG_PMDEC, 1),
          (LIBERA_CFG_PM_XLOW, - 1000000), (LIBERA_CFG_PM_XHIGH, 1000000),
          (LIBERA_CFG_PM_YLOW, - 1000000), (LIBERA_CFG_PM_YHIGH, 1000000),
          (LIBERA_CFG_PM_OVERFLOW_LIMIT, ilk_adc), (LIBERA_CFG_PM_OVERFLOW_DUR, 5),
          (LIBERA_CFG_SR_ENABLE, readl FA_ENABLE), (LIBERA_CFG_SR_CSPI_ENABLE, 1),
          (LIBERA_CFG_SR_AVERAGING_STOP, readl FA_AVE_STOP), (LIBERA_CFG_SR_AVERAGE_WINDOW, readl FA_AVE_WIN),
          (LIBERA_CFG_SR_START, readl FA_START), (LIBERA_CFG_SR_WINDOW, readl FA_WINDOW),
          (LIBERA_CFG_SP_THRESHOLD, if brilliance then 400 else 100),
          (LIBERA_CFG_SP_N_BEFORE, 1), (LIBERA_CFG_SP_N_AFTER, lgbl_d k div 3)])"

text \<open>Every generic parameter is then set to its own value, which writes it to the FPGA.\<close>

definition set_all_params :: "reg_read \<Rightarrow> kernel \<Rightarrow> kernel" where
  "set_all_params readl k =
     fold (\<lambda>i k. fst (libera_cfg_set_specific readl i (param k i) k))
       [LIBERA_CFG_CUSTOM_FIRST..<LIBERA_CFG_CUSTOM_LAST] k"

definition libera_init_specific :: "reg_read \<Rightarrow> kernel \<Rightarrow> kernel \<times> int" where
  "libera_init_specific readl k =
     (let k = k\<lparr>adc := (adc k)\<lparr>adc_op := get_adc_transform (feature k)\<rparr>\<rparr>;
          k = fold (\<lambda>(i, v). set_cfg_param i v) (init_params readl k) k;
          k = set_all_params readl k
      in libera_sctrig_enable (TRIGGER_BIT T_TRIG_POST_MORTEM) k)"

section \<open>Loading\<close>

datatype resource = R_ioremap | R_mem | R_chrdev | R_dmabuf | R_dmachan | R_pmbuf | R_irq

definition free_res :: "resource \<Rightarrow> resource list \<Rightarrow> resource list" where
  "free_res r held = filter (\<lambda>x. x \<noteq> r) held"

text \<open>The exit labels of \<open>libera_init\<close>; each falls through to the next.\<close>

definition err_IOmem :: "resource list \<Rightarrow> resource list" where "err_IOmem held = held"
definition err_ChrDev :: "resource list \<Rightarrow> resource list" where "err_ChrDev held = err_IOmem (free_res R_mem held)"
definition err_DMABUF :: "resource list \<Rightarrow> resource list" where "err_DMABUF held = err_ChrDev (free_res R_chrdev held)"
definition err_DMACH :: "resource list \<Rightarrow> resource list" where "err_DMACH held = err_DMABUF (free_res R_dmabuf held)"
definition err_PMBUF :: "resource list \<Rightarrow> resource list" where "err_PMBUF held = err_DMACH (free_res R_dmachan held)"
definition err_IRQ :: "resource list \<Rightarrow> resource list" where "err_IRQ held = err_PMBUF (free_res R_pmbuf held)"

text \<open>What the kernel answers to the requests of the module, and the registers.\<close>

record init_env =
  ie_check :: "errno option"
  ie_request :: bool
  ie_chrdev :: "errno option"
  ie_dmabuf :: bool
  ie_dmachan :: bool
  ie_pmbuf :: bool
  ie_irq :: "errno option"
  ie_reg :: reg_read

definition FPGA_INFO_DEC_DDC :: u32 where "FPGA_INFO_DEC_DDC = 0x10 + SBC_OFFSET"
definition FPGA_INFO_DEC_CIC_FIR :: u32 where "FPGA_INFO_DEC_CIC_FIR = 0x14 + SBC_OFFSET"
definition LIBERA_PMSIZE_MAX :: u32 where "LIBERA_PMSIZE_MAX = 262144"

text \<open>The decimations, from the features of the FPGA.\<close>

definition init_decimation :: "reg_read \<Rightarrow> kernel \<Rightarrow> kernel" where
  "init_decimation readl k =
     (let k = k\<lparr>feature := readl FPGA_FEATURE_ITECH\<rparr>;
          k = (if LIBERA_IS_BPM (feature k)
               then k\<lparr>lgbl_dfa := readl FPGA_INFO_DEC_CIC_FIR, lgbl_d := readl FPGA_INFO_DEC_DDC\<rparr>
               else k\<lparr>lgbl_dfa := 0, lgbl_d := 0\<rparr>);
          k = k\<lparr>lgbl_dcic := drop_bit 16 (lgbl_dfa k), num_dfir := lgbl_dfa k mod 0x10000\<rparr>;
          k = k\<lparr>lgbl_dfa := lgbl_dcic k * num_dfir k\<rparr>
      in k\<lparr>num_dfir := num_dfir k * 3\<rparr>)"

definition init_irqs :: u32 where
  "init_irqs = LIBERA_INTERRUPT_SC_MASK OR LIBERA_INTERRUPT_MC_MASK OR LIBERA_INTERRUPT_HELPSC_MASK
     OR LIBERA_INTERRUPT_HELPMC_MASK OR LIBERA_INTERRUPT_DD_MASK OR LIBERA_INTERRUPT_SA_MASK
     OR LIBERA_INTERRUPT_ILK_MASK"

definition init_triggers :: u32 where
  "init_triggers = TRIGGER_BIT T_TRIG_CTIME OR TRIGGER_BIT T_TRIG_TRIGGER OR TRIGGER_BIT T_TRIG_POST_MORTEM"

text \<open>With the interrupt handler installed: the masks and the EBPP part.\<close>

definition init_running :: "reg_read \<Rightarrow> kernel \<Rightarrow> kernel" where
  "init_running readl k =
     (let k = set_irqMask init_irqs k;
          k = fst (libera_sctrig_enable init_triggers k);
          k = fst (libera_mctrig_enable init_triggers k)
      in fst (libera_init_specific readl k))"

text \<open>From the PM buffer on.\<close>

definition init_tail :: "init_env \<Rightarrow> resource list \<Rightarrow> kernel \<Rightarrow> kernel \<times> resource list \<times> errno option" where
  "init_tail env held k =
     (if LIBERA_PMSIZE_MAX < pmsize k then (k, err_PMBUF held, Some EINVAL)
      else if \<not> ie_pmbuf env then (k, err_PMBUF held, Some ENOMEM)
      else
        let held = R_pmbuf # held;
            k = k\<lparr>pm := (pm k)\<lparr>pm_buf := (\<lambda>_. replicate 8 0)\<rparr>\<rparr>;
            k = set_irqMask 0 k
        in case ie_irq env of
             Some e \<Rightarrow> (k, err_IRQ held, Some e)
           | None \<Rightarrow> (init_running (ie_reg env) k, R_irq # held, None))"

definition libera_init :: "init_env \<Rightarrow> kernel \<Rightarrow> kernel \<times> resource list \<times> errno option" where
  "libera_init env k =
     (if flmcdHz k = 0 then (k, [], Some EINVAL)
      else
        let k = libera_init_devs k; held = [R_ioremap] in
        case ie_check env of
          Some e \<Rightarrow> (k, err_IOmem held, Some e)
        | None \<Rightarrow>
            if \<not> ie_request env then (k, err_IOmem held, Some ENODEV)
            else
              let held = R_mem # held in
              case ie_chrdev env of
                Some e \<Rightarrow> (k, err_ChrDev held, Some e)
              | None \<Rightarrow>
                  let held = R_chrdev # held; k = init_decimation (ie_reg env) k in
                  if \<not> ie_dmabuf env then (k, err_DMABUF held, Some ENOMEM)
                  else
                    let held = R_dmabuf # held in
                    if \<not> ie_dmachan env then (k, err_DMACH held, Some ECHRNG)
                    else init_tail env (R_dmachan # held) (k\<lparr>dma := (dma k)\<lparr>aborting := False\<rparr>\<rparr>))"

section \<open>Unloading\<close>

definition libera_exit :: "resource list \<Rightarrow> kernel \<Rightarrow> kernel \<times> resource list" where
  "libera_exit held k =
     (let (k, held) =
        (if R_irq \<in> set held
         then (reg_write 0 T_MC_TRIGGER_MASK (reg_write 0 T_SC_TRIGGER_MASK (set_irqMask 0 k)), free_res R_irq held)
         else (k, held));
        held = free_res R_pmbuf held;
        held = free_res R_dmabuf (free_res R_dmachan held);
        held = free_res R_chrdev held;
        held = free_res R_ioremap (free_res R_mem held)
      in (k, held))"

end
