(* ===== verification/Libera_Cfg_Props.thy ===== *)
theory Libera_Cfg_Props
  imports Libera_Init
begin

text \<open>
  Properties of the configuration, FA, DSC and ADC devices and of loading the module: which calls may
  change a parameter, reading back what was set, the FPGA registers that mirror the parameters, the
  register blocks, the range of the ADC samples, and the resources the module holds.
\<close>

section \<open>Register file\<close>

text \<open>The last value written to a register.\<close>

definition last_write :: "reg_trace \<Rightarrow> u32 \<Rightarrow> u32 option" where
  "last_write tr = map_of (rev tr)"

lemma last_write_append [simp]:
  "last_write (tr @ [(b, v)]) a = (if a = b then Some v else last_write tr a)"
  by (simp add: last_write_def)

lemma trace_set_cfg_param [simp]: "trace (set_cfg_param i v k) = trace k"
  by (simp add: set_cfg_param_def)

lemma param_set_cfg_param [simp]: "param (set_cfg_param i v k) = (param k)(i := v)"
  by (simp add: set_cfg_param_def)

lemma cfg_reg_write_more [simp]:
  "kadc (reg_write v a k) = kadc k" "feature (reg_write v a k) = feature k"
  "num_dfir (reg_write v a k) = num_dfir k" "ilkdur (reg_write v a k) = ilkdur k"
  "pmdur (reg_write v a k) = pmdur k"
  by (simp_all add: reg_write_def)

lemma set_cfg_param_more [simp]:
  "kadc (set_cfg_param i v k) = kadc k" "feature (set_cfg_param i v k) = feature k"
  "num_dfir (set_cfg_param i v k) = num_dfir k" "master_filp (cfg (set_cfg_param i v k)) = master_filp (cfg k)"
  by (simp_all add: set_cfg_param_def)

lemma writes_simps [simp]:
  "writes [] k = k" "writes ((v, a) # ws) k = writes ws (reg_write v a k)"
  by (simp_all add: writes_def)

lemma writes_frame [simp]: "cfg (writes ws k) = cfg k"
  by (induction ws arbitrary: k) (auto simp: writes_def)

lemma trace_writes: "trace (writes ws k) = trace k @ map (\<lambda>(v, a). (a, v)) ws"
  by (induction ws arbitrary: k) auto

lemma last_write_many:
  "last_write (tr @ ws) a = (case last_write ws a of None \<Rightarrow> last_write tr a | Some v \<Rightarrow> Some v)"
  by (simp add: last_write_def map_add_def split: option.split)

lemma last_write_skip: "a \<notin> fst ` set ws \<Longrightarrow> last_write (tr @ ws) a = last_write tr a"
proof -
  assume "a \<notin> fst ` set ws"
  then have "last_write ws a = None" by (simp add: last_write_def map_of_eq_None_iff)
  then show ?thesis by (simp add: last_write_many)
qed

section \<open>Who may change a parameter\<close>

lemma set_specific_error: "libera_cfg_set_specific readl i v k = (k', Inl e) \<Longrightarrow> k' = k \<and> e = EINVAL"
  by (auto simp: libera_cfg_set_specific_def Let_def split: if_splits)

lemma set_specific_zero: "libera_cfg_set_specific readl i v k = (k', Inr r) \<Longrightarrow> r = 0"
  by (auto simp: libera_cfg_set_specific_def Let_def split: if_splits)

lemma cfg_set_changes:
  assumes "cfg_set env u k = (k', r)" "k' \<noteq> k"
  shows "r = Inr 0"
  using assms set_specific_error
  by (fastforce simp: cfg_set_def Let_def split: if_splits prod.splits sum.splits)



section \<open>The FPGA's copy of the position parameters\<close>

text \<open>
  The five registers of the position calculation and what they should hold: the offsets with the
  beam-current dependent offsets added, and the three other parameters.
\<close>

definition fa_regs :: "u32 set" where
  "fa_regs = {FA_OFFSET, FA_OFFSET + 4, FA_OFFSET + 8, FA_OFFSET + 12, FA_OFFSET + 16}"

definition fa_mirror :: "kernel \<Rightarrow> bool" where
  "fa_mirror k \<longleftrightarrow>
     last_write (trace k) FA_OFFSET = Some (param k LIBERA_CFG_XOFFSET + param k LIBERA_CFG_BCD_XOFFSET)
   \<and> last_write (trace k) (FA_OFFSET + 4) = Some (param k LIBERA_CFG_YOFFSET + param k LIBERA_CFG_BCD_YOFFSET)
   \<and> last_write (trace k) (FA_OFFSET + 8) = Some (param k LIBERA_CFG_QOFFSET)
   \<and> last_write (trace k) (FA_OFFSET + 12) = Some (param k LIBERA_CFG_KX)
   \<and> last_write (trace k) (FA_OFFSET + 16) = Some (param k LIBERA_CFG_KY)"

definition fa_params :: "nat set" where
  "fa_params = {LIBERA_CFG_XOFFSET, LIBERA_CFG_YOFFSET, LIBERA_CFG_QOFFSET, LIBERA_CFG_KX, LIBERA_CFG_KY,
     LIBERA_CFG_BCD_XOFFSET, LIBERA_CFG_BCD_YOFFSET}"

text \<open>Steps that leave both sides alone.\<close>

definition fa_same :: "kernel \<Rightarrow> kernel \<Rightarrow> bool" where
  "fa_same k k' \<longleftrightarrow> (\<forall>a \<in> fa_regs. last_write (trace k') a = last_write (trace k) a)
     \<and> (\<forall>i \<in> fa_params. param k' i = param k i)"

lemma fa_same_mirror: "fa_same k k' \<Longrightarrow> fa_mirror k \<Longrightarrow> fa_mirror k'"
  by (simp add: fa_same_def fa_mirror_def fa_regs_def fa_params_def)

lemma fa_same_refl [simp]: "fa_same k k"
  by (simp add: fa_same_def)

lemma fa_same_reg: "fa_same k k1 \<Longrightarrow> a \<notin> fa_regs \<Longrightarrow> fa_same k (reg_write v a k1)"
  by (auto simp: fa_same_def)

lemma fa_same_param: "fa_same k k1 \<Longrightarrow> i \<notin> fa_params \<Longrightarrow> fa_same k (set_cfg_param i v k1)"
  by (auto simp: fa_same_def)

lemma fa_same_writes:
  "fa_same k k1 \<Longrightarrow> snd ` set ws \<inter> fa_regs = {} \<Longrightarrow> fa_same k (writes ws k1)"
proof (induction ws arbitrary: k1)
  case (Cons w ws)
  obtain v a where w: "w = (v, a)" by fastforce
  then show ?case using Cons fa_same_reg [of k k1 a v] by auto
qed simp

lemmas addresses =
  FA_OFFSET_def DSC_OFFSET_def DDC_OFFSET_def ILK_OFFSET_def CLK_OFFSET_def ADC_OFFSET_def FAI_OFFSET_def
  FA_POLYPHASE_FIR_def FA_NOTCH1_def FA_NOTCH2_def FA_FIFO_RESET_def FA_ENABLE_def FA_AVE_STOP_def
  FA_AVE_WIN_def FA_START_def FA_WINDOW_def ILK_CONTROL_def ILK_XLOW_def ILK_XHIGH_def ILK_YLOW_def
  ILK_YHIGH_def PM_XLOW_def PM_XHIGH_def PM_YLOW_def PM_YHIGH_def DSC_ILK_GAIN_LIMIT_def
  DSC_ILK_OVERFLOW_LIMIT_def DSC_ILK_OVERFLOW_DUR_def DSC_SW_SOURCE_def DSC_SW_DELAY_def
  DSC_PM_OVERFLOW_LIMIT_def DSC_PM_OVERFLOW_DUR_def DDC_MAF_LENGTH_def DDC_MAF_DELAY_def T_TRIG_DELAY_def

lemma other_regs:
  "{FA_POLYPHASE_FIR, FA_NOTCH1, FA_NOTCH2, FA_FIFO_RESET, FA_ENABLE, FA_AVE_STOP, FA_AVE_WIN, FA_START,
    FA_WINDOW, ILK_CONTROL, ILK_XLOW, ILK_XHIGH, ILK_YLOW, ILK_YHIGH, PM_XLOW, PM_XHIGH, PM_YLOW, PM_YHIGH,
    DSC_ILK_GAIN_LIMIT, DSC_ILK_OVERFLOW_LIMIT, DSC_ILK_OVERFLOW_DUR, DSC_SW_SOURCE, DSC_SW_DELAY,
    DSC_PM_OVERFLOW_LIMIT, DSC_PM_OVERFLOW_DUR, DDC_MAF_LENGTH, DDC_MAF_DELAY, T_TRIG_DELAY} \<inter> fa_regs = {}"
  by (simp add: fa_regs_def addresses)

lemma other_regs_each:
  "FA_POLYPHASE_FIR \<notin> fa_regs" "FA_NOTCH1 \<notin> fa_regs" "FA_NOTCH2 \<notin> fa_regs" "FA_FIFO_RESET \<notin> fa_regs"
  "FA_ENABLE \<notin> fa_regs" "FA_AVE_STOP \<notin> fa_regs" "FA_AVE_WIN \<notin> fa_regs" "FA_START \<notin> fa_regs"
  "FA_WINDOW \<notin> fa_regs" "DSC_SW_SOURCE \<notin> fa_regs" "DSC_SW_DELAY \<notin> fa_regs" "DDC_MAF_LENGTH \<notin> fa_regs"
  "DDC_MAF_DELAY \<notin> fa_regs" "T_TRIG_DELAY \<notin> fa_regs"
  using other_regs by blast+

lemma ilk_atom_same: "fa_same k k1 \<Longrightarrow> fa_same k (ilk_atom k1)"
  unfolding ilk_atom_def Let_def using other_regs by (intro fa_same_writes) auto

lemma fa_same_pm_freezed: "fa_same k k1 \<Longrightarrow> fa_same k (k1\<lparr>cfg := (cfg k1)\<lparr>pm_freezed := x\<rparr>\<rparr>)"
  by (simp add: fa_same_def)

lemma pm_atom_same: "fa_same k k1 \<Longrightarrow> fa_same k (pm_atom readl k1)"
  unfolding pm_atom_def Let_def using other_regs
  by (intro fa_same_pm_freezed fa_same_writes) auto

lemma coefficients_same:
  assumes "fa_same k k1" "reg \<in> {FA_NOTCH1, FA_NOTCH2, FA_POLYPHASE_FIR}"
  shows "fa_same k (send_coefficients reg n m k1)"
  unfolding send_coefficients_def using assms other_regs by (intro fa_same_writes) auto

lemma set_coefficient_same:
  assumes "LIBERA_CFG_COEFF \<le> i"
  shows "fa_same k (cfg_set_coefficient i v k)"
proof -
  have "i \<notin> fa_params" using assms by (auto simp: fa_params_def cfg_index)
  then have "fa_same k (set_cfg_param i v k)" by (intro fa_same_param) simp_all
  then show ?thesis by (auto simp: cfg_set_coefficient_def Let_def intro!: coefficients_same)
qed

lemma set_window_same: "fa_same k (cfg_set_window v k)"
proof -
  have "fa_same k (set_cfg_param LIBERA_CFG_SR_AVERAGE_WINDOW v k)"
    by (rule fa_same_param) (simp_all add: fa_params_def cfg_index)
  then show ?thesis
    by (auto simp: cfg_set_window_def Let_def intro!: fa_same_reg other_regs_each)
qed

lemma kept_not_fa: "i \<in> set cfg_kept \<Longrightarrow> i \<notin> fa_params"
  by (auto simp: cfg_kept_def fa_params_def cfg_index)

text \<open>Setting one of the five parameters restores its register; setting another leaves all five alone.\<close>

lemma fa_same_if:
  "(c \<Longrightarrow> fa_same k (fst x)) \<Longrightarrow> (\<not> c \<Longrightarrow> fa_same k (fst y)) \<Longrightarrow> fa_same k (fst (if c then x else y))"
  by simp

lemma fa_same_step:
  "fa_same k k1 \<Longrightarrow> fa_same k (fst (k1, r))"
  by simp

lemma set_specific_same:
  assumes "i \<notin> {LIBERA_CFG_XOFFSET, LIBERA_CFG_YOFFSET, LIBERA_CFG_QOFFSET, LIBERA_CFG_KX, LIBERA_CFG_KY}"
  shows "fa_same k (fst (libera_cfg_set_specific readl i v k))"
proof (cases "i \<in> fa_params")
  case True
  then have "i = LIBERA_CFG_BCD_XOFFSET \<or> i = LIBERA_CFG_BCD_YOFFSET" using assms by (auto simp: fa_params_def)
  then show ?thesis
    by (elim disjE) (simp_all add: libera_cfg_set_specific_def cfg_kept_def cfg_index)
next
  case False
  then have p: "fa_same k (set_cfg_param i w k1)" if "fa_same k k1" for w k1
    using that by (rule fa_same_param [rotated])
  show ?thesis
    unfolding libera_cfg_set_specific_def Let_def
    apply (intro fa_same_if fa_same_step p ilk_atom_same pm_atom_same set_coefficient_same set_window_same
        fa_same_reg other_regs_each fa_same_refl)
    using assms by auto
qed

lemma set_specific_mirror:
  assumes "fa_mirror k"
  shows "fa_mirror (fst (libera_cfg_set_specific readl i v k))"
proof -
  consider "i = LIBERA_CFG_XOFFSET" | "i = LIBERA_CFG_YOFFSET" | "i = LIBERA_CFG_QOFFSET"
    | "i = LIBERA_CFG_KX" | "i = LIBERA_CFG_KY"
    | "i \<notin> {LIBERA_CFG_XOFFSET, LIBERA_CFG_YOFFSET, LIBERA_CFG_QOFFSET, LIBERA_CFG_KX, LIBERA_CFG_KY}"
    by blast
  then show ?thesis
  proof cases
    case 6
    then show ?thesis using set_specific_same assms fa_same_mirror by blast
  qed (use assms in \<open>simp_all add: fa_mirror_def libera_cfg_set_specific_def fa_param_reg_def cfg_index
      FA_OFFSET_def\<close>)
qed

section \<open>Register blocks\<close>

lemma bytes_words_length: "length (bytes_words bs) = length bs div 4"
  by (induction bs rule: bytes_words.induct) auto

lemma word_of_bytes:
  fixes a b c d :: u8
  shows "word_bytes (ucast a OR push_bit 8 (ucast b) OR push_bit 16 (ucast c) OR push_bit 24 (ucast d)) = [a, b, c, d]"
proof -
  have "\<not> bit (x :: u8) (m + n)" if "8 \<le> m" for x m n
    using that by (auto dest: bit_imp_le_length)
  then show ?thesis unfolding word_bytes_def by (auto intro!: bit_word_eqI simp: bit_simps)
qed

lemma bytes_words_inverse: "4 dvd length bs \<Longrightarrow> concat (map word_bytes (bytes_words bs)) = bs"
proof (induction bs rule: bytes_words.induct)
  case (1 a b c d bs)
  then have "4 dvd length bs" by simp presburger
  then show ?case using 1 by (simp add: word_of_bytes)
qed (simp_all, presburger+)

lemma writelBlock_eq:
  "libera_writelBlock a ws k = writes (map (\<lambda>i. (ws ! i, a + 4 * of_nat i)) [0..<length ws]) k"
  by (simp add: libera_writelBlock_def writes_def fold_map comp_def)

lemma trace_writelBlock:
  "trace (libera_writelBlock a ws k) = trace k @ map (\<lambda>i. (a + 4 * of_nat i, ws ! i)) [0..<length ws]"
  by (simp add: writelBlock_eq trace_writes comp_def)

text \<open>Registers that keep what is written to them.\<close>

definition memory :: "reg_read \<Rightarrow> reg_trace \<Rightarrow> reg_read" where
  "memory readl tr a = (case last_write tr a of Some v \<Rightarrow> v | None \<Rightarrow> readl a)"

lemma block_index_inj: "4 * n < 2 ^ 32 \<Longrightarrow> inj_on (\<lambda>i. a + 4 * of_nat i :: u32) {0..<n}"
proof (rule inj_onI)
  fix x y assume n: "4 * n < 2 ^ 32" "x \<in> {0..<n}" "y \<in> {0..<n}" "a + 4 * of_nat x = a + 4 * (of_nat y :: u32)"
  have "unat (4 * of_nat i :: u32) = 4 * i" if "i < n" for i
  proof -
    have "(4 * of_nat i :: u32) = of_nat (4 * i)" by simp
    then show ?thesis using that n(1) by (simp only: unat_of_nat) simp
  qed
  then show "x = y" using n by (metis add_left_cancel atLeastLessThan_iff mult_cancel1 zero_neq_numeral)
qed

lemma last_write_block:
  assumes "4 * length ws < 2 ^ 32" "j < length ws"
  shows "last_write (trace (libera_writelBlock a ws k)) (a + 4 * of_nat j) = Some (ws ! j)"
proof -
  let ?xs = "map (\<lambda>i. (a + 4 * of_nat i, ws ! i)) [0..<length ws]"
  have d: "distinct (map fst (rev ?xs))"
    using block_index_inj [OF assms(1), of a] by (simp add: distinct_map comp_def rev_map)
  have "(a + 4 * of_nat j, ws ! j) \<in> set (rev ?xs)" using assms(2) by auto
  then have "last_write ?xs (a + 4 * of_nat j) = Some (ws ! j)"
    unfolding last_write_def using d by (intro map_of_is_SomeI)
  then show ?thesis by (simp add: trace_writelBlock last_write_many)
qed

lemma read_written_block:
  assumes "4 * length ws < 2 ^ 32"
  shows "libera_readlBlock (memory readl (trace (libera_writelBlock a ws k))) a (length ws) = ws"
  by (rule nth_equalityI)
     (simp_all add: libera_readlBlock_def memory_def last_write_block [OF assms])

lemma nonneg_sint:
  fixes w :: s64
  shows "0 \<le> sint w \<Longrightarrow> uint w = sint w"
  using sint_lt [of w] by (simp add: uint_sint [of w] take_bit_int_eq_self)

lemma blk_count_bounds:
  assumes "0 \<le> sint pos" "sint pos < int bsize" "bsize < 2 ^ 30"
  shows "uint (blk_count bsize pos count) = min (uint count) (int bsize - sint pos)"
proof -
  have b: "sint (of_nat bsize :: s64) = int bsize"
    using assms(3) by (simp add: sint_small unat_of_nat)
  have d: "sint (of_nat bsize - pos) = int bsize - sint pos"
    by (rule sint_of_small_int) (use assms in simp_all)
  have less: "of_nat bsize - pos <s ucast count \<longleftrightarrow> int bsize - sint pos < uint count"
    using d by (simp add: word_sless_alt sint_ucast_u32)
  show ?thesis
  proof (cases "int bsize - sint pos < uint count")
    case True
    have "uint (of_nat bsize - pos) = int bsize - sint pos"
      using d assms nonneg_sint [of "of_nat bsize - pos"] by simp
    then have "uint (ucast (of_nat bsize - pos) :: u32) = int bsize - sint pos"
      using assms True uint_lt2p [of count] by (simp add: unsigned_ucast_eq take_bit_int_eq_self)
    then show ?thesis using True less by (simp add: blk_count_def)
  next
    case False
    then show ?thesis using less by (simp add: blk_count_def)
  qed
qed

lemma blk_read_some:
  assumes "\<not> sem dev" "0 \<le> sint pos" "sint pos < int bsize" "bsize < 2 ^ 30"
    "n = min (uint count) (int bsize - sint pos)" "n mod 4 = 0"
    "bytes = concat (map word_bytes (libera_readlBlock readl (block + ucast pos) (nat n div 4)))"
  shows "blk_read bsize block False readl False count pos dev =
    Ret (dev\<lparr>blk_buf := bytes @ drop (length bytes) (blk_buf dev)\<rparr>, pos + of_int n, Inr n, bytes)"
proof -
  have c: "uint (blk_count bsize pos count) = n" using blk_count_bounds assms by blast
  have n: "0 \<le> n" "n \<le> int bsize" using assms by auto
  have u: "unat (blk_count bsize pos count) = nat n" using c by (metis unat_eq_nat_uint)
  have m: "blk_count bsize pos count mod 4 = 0"
  proof -
    have "uint (blk_count bsize pos count mod 4) = 0" using c assms(6) by (simp add: uint_mod)
    then show ?thesis by (simp add: uint_0_iff)
  qed
  have q: "unat (blk_count bsize pos count div 4) = nat n div 4" using u by (simp add: unat_div)
  have s: "sint (blk_count bsize pos count) = n"
    using n assms(4) u sint_small [of "blk_count bsize pos count"] by simp
  have t: "(ucast (blk_count bsize pos count) :: s64) = of_int n" using c by (simp add: ucast_eq)
  have b: "sint (of_nat bsize :: s64) = int bsize"
    using assms(4) by (simp add: sint_small unat_of_nat)
  show ?thesis
    using assms(1,3) b by (simp add: blk_read_def Let_def word_sle_eq m q s t assms(7))
qed

text \<open>A write either moves nothing to the FPGA or writes the words of the bytes from the position on.\<close>

lemma blk_write_cases:
  assumes "blk_write bsize block sig u count pos get put k = Ret (k', pos', r)"
    and "0 \<le> sint pos" "bsize < 2 ^ 30"
  obtains (refused) "pos' = pos" "k' = k" "r = Inl ERESTARTSYS \<or> r = Inl EINVAL \<or> r = Inr 0"
  | (copy) bytes where "pos' = pos" "r = Inl EFAULT" "k' = put ((get k)\<lparr>blk_buf := bytes\<rparr>) k"
  | (written) n bytes where "r = Inr n" "n = min (uint count) (int bsize - sint pos)" "n mod 4 = 0"
      "sint pos < int bsize" "pos' = pos + of_int n" "\<not> sem (get k)"
      "k' = libera_writelBlock (block + ucast pos) (bytes_words (take (nat n) (snd u)))
              (put ((get k)\<lparr>blk_buf := bytes\<rparr>) k)"
proof -
  have b: "sint (of_nat bsize :: s64) = int bsize"
    using assms(3) by (simp add: sint_small unat_of_nat)
  consider "sem (get k)" "sig" | "\<not> sem (get k)" "int bsize \<le> sint pos"
    | "\<not> sem (get k)" "sint pos < int bsize"
    using assms(1) by (fastforce simp: blk_write_def mutex_lock_interruptible_def split: if_splits)
  then show thesis
  proof cases
    case 1
    then show thesis using assms(1) refused
      by (simp add: blk_write_def mutex_lock_interruptible_def)
  next
    case 2
    then show thesis using assms(1) refused b
      by (simp add: blk_write_def word_sle_eq)
  next
    case 3
    define c where "c = blk_count bsize pos count"
    define n where "n = min (uint count) (int bsize - sint pos)"
    have c: "uint c = n" unfolding c_def n_def using blk_count_bounds assms 3 by blast
    have n: "0 \<le> n" "n \<le> int bsize" using assms 3 by (auto simp: n_def)
    have u: "unat c = nat n" using c by (metis unat_eq_nat_uint)
    have s: "sint c = n" using n assms(3) u sint_small [of c] by simp
    have t: "(ucast c :: s64) = of_int n" using c by (simp add: ucast_eq)
    have m: "c mod 4 = 0 \<longleftrightarrow> n mod 4 = 0" using c by (simp add: uint_mod flip: uint_0_iff)
    let ?bytes = "take (nat n) (snd u) @ drop (length (take (nat n) (snd u))) (blk_buf (get k))"
    have "blk_write bsize block sig u count pos get put k =
        Ret (if n mod 4 \<noteq> 0 then (k, pos, Inl EINVAL)
        else if fst u then (put ((get k)\<lparr>blk_buf := ?bytes\<rparr>) k, pos, Inl EFAULT)
        else (libera_writelBlock (block + ucast pos) (bytes_words (take (nat n) (snd u)))
                (put ((get k)\<lparr>blk_buf := ?bytes\<rparr>) k), pos + of_int n, Inr n))"
      using 3 b m by (simp add: blk_write_def word_sle_eq Let_def u s t c_def [symmetric])
    with assms(1) have e: "(k', pos', r) = (if n mod 4 \<noteq> 0 then (k, pos, Inl EINVAL)
        else if fst u then (put ((get k)\<lparr>blk_buf := ?bytes\<rparr>) k, pos, Inl EFAULT)
        else (libera_writelBlock (block + ucast pos) (bytes_words (take (nat n) (snd u)))
                (put ((get k)\<lparr>blk_buf := ?bytes\<rparr>) k), pos + of_int n, Inr n))"
      by simp
    consider "n mod 4 \<noteq> 0" | "n mod 4 = 0" "fst u" | "n mod 4 = 0" "\<not> fst u" by metis
    then show thesis
    proof cases
      case 1
      with e show thesis by (intro refused) simp_all
    next
      case 2
      with e show thesis by (intro copy) simp_all
    next
      case 3
      with e have "k' = libera_writelBlock (block + ucast pos) (bytes_words (take (nat n) (snd u)))
          (put ((get k)\<lparr>blk_buf := ?bytes\<rparr>) k)" "pos' = pos + of_int n" "r = Inr n"
        by simp_all
      from written [OF this(3) n_def 3(1) \<open>sint pos < int bsize\<close> this(2) \<open>\<not> sem (get k)\<close> this(1)]
      show thesis .
    qed
  qed
qed

subsection \<open>Reading back a block\<close>

lemma set_fa_simps [simp]:
  "trace (set_fa d k) = trace k" "cfg (set_fa d k) = cfg k" "fa (set_fa d k) = d"
  "trace (set_dsc d k) = trace k" "cfg (set_dsc d k) = cfg k" "dsc (set_dsc d k) = d"
  by (simp_all add: set_fa_def set_dsc_def)

lemma writelBlock_frame [simp]:
  "cfg (libera_writelBlock a ws k) = cfg k"
  by (simp add: writelBlock_eq)

lemma fa_writes [simp]: "fa (writes ws k) = fa k"
  by (induction ws arbitrary: k) auto

text \<open>C28.
  What is written to the fast-acquisition block can be read back: a write of a descriptor at a
  position inside the block that reports n bytes has moved as many as were given, or as fit up to the end of
  the block, has advanced the position by n, and a read of the same length from the old position, on
  registers that keep what is written to them, returns exactly those n bytes and ends at the same
  position.
\<close>

theorem fa_write_read:
  assumes "libera_fa_write sig (False, bytes) count pos k = Ret (k1, pos1, Inr n)" "0 < n" "0 \<le> sint pos"
    and "length bytes = unat count"
  shows "n = min (uint count) (int FAI_BLOCKSIZE - sint pos) \<and> pos1 = pos + of_int n \<and>
    (\<exists>k2. libera_fa_read False (memory readl (trace k1)) False count pos k1 =
            Ret (k2, pos1, Inr n, take (nat n) bytes))"
proof -
  have z: "FAI_BLOCKSIZE < 2 ^ 30" by (simp add: FAI_BLOCKSIZE_def)
  have bw: "blk_write FAI_BLOCKSIZE FAI_BLOCK sig (False, bytes) count pos fa set_fa k = Ret (k1, pos1, Inr n)"
    using assms(1) by (simp add: libera_fa_write_def)
  from bw assms(3) z show ?thesis
  proof (cases rule: blk_write_cases)
    case refused
    then show ?thesis using assms(2) by auto
  next
    case (written m bs)
    let ?ws = "bytes_words (take (nat n) bytes)" and ?a = "FAI_BLOCK + ucast pos"
    have n: "n = m" "n mod 4 = 0" "n \<le> int FAI_BLOCKSIZE" "n \<le> uint count" using written assms(3) by auto
    have l: "length (take (nat n) bytes) = nat n"
      using assms(4) n(4) by (simp add: nat_le_iff min_absorb2)
    have "int 4 dvd int (nat n)" using n(2) assms(2) by (simp add: mod_eq_0_iff_dvd)
    then have d: "4 dvd nat n" by (simp only: of_nat_dvd_iff)
    have w: "length ?ws = nat n div 4" by (simp add: bytes_words_length l del: length_take)
    have r: "libera_readlBlock (memory readl (trace k1)) ?a (nat n div 4) = ?ws"
    proof -
      have b: "4 * length ?ws < 2 ^ 32" using w z n(3) by simp
      have k1: "k1 = libera_writelBlock ?a ?ws (set_fa ((fa k)\<lparr>blk_buf := bs\<rparr>) k)"
        unfolding n(1) using written(7) by (simp only: snd_conv)
      show ?thesis using read_written_block [OF b, of readl ?a] unfolding k1 w .
    qed
    have f: "\<not> sem (fa k1)" using written by (simp add: writelBlock_eq)
    have n4: "n = min (uint count) (int FAI_BLOCKSIZE - sint pos)" and lt: "sint pos < int FAI_BLOCKSIZE"
      and p: "pos1 = pos + of_int n"
      using n(1) written by simp_all
    have e: "take (nat n) bytes =
        concat (map word_bytes (libera_readlBlock (memory readl (trace k1)) ?a (nat n div 4)))"
      unfolding r using bytes_words_inverse [of "take (nat n) bytes"] l d by simp
    show ?thesis
      unfolding libera_fa_read_def blk_read_some [OF f assms(3) lt z n4 n(2) e] p
      using n4 by simp
  qed simp_all
qed

theorem fa_write_read_witness:
  "\<exists>k1 k2. libera_fa_write False (False, [1, 2, 3, 4]) 4 8 (boot_kernel\<lparr>fa := init_blk 0\<rparr>) = Ret (k1, 12, Inr 4)
     \<and> libera_fa_read False (memory (\<lambda>_. 0) (trace k1)) False 4 8 k1 = Ret (k2, 12, Inr 4, [1, 2, 3, 4])"
proof -
  obtain k1 where w: "libera_fa_write False (False, [1, 2, 3, 4]) 4 8 (boot_kernel\<lparr>fa := init_blk 0\<rparr>)
      = Ret (k1, 12, Inr 4)"
    by (simp add: libera_fa_write_def blk_write_def blk_count_def init_blk_def FAI_BLOCKSIZE_def Let_def)
  have "length [1, 2, 3, 4 :: u8] = unat (4 :: u32)" by simp
  from fa_write_read [OF w _ _ this, of "\<lambda>_. 0"] w show ?thesis by auto
qed

section \<open>The mirror of the position parameters is invariant\<close>

lemma check_and_update_mirror:
  assumes "fa_mirror k"
  shows "fa_mirror (fst (check_and_update v LIBERA_CFG_BCD_XOFFSET LIBERA_CFG_XOFFSET k))"
    "fa_mirror (fst (check_and_update v LIBERA_CFG_BCD_YOFFSET LIBERA_CFG_YOFFSET k))"
  using assms by (simp_all add: fa_mirror_def check_and_update_def Let_def fa_param_reg_def cfg_index FA_OFFSET_def)

lemma mirror_same_dev: "fa_mirror k \<Longrightarrow> trace k' = trace k \<Longrightarrow> cfg k' = cfg k \<Longrightarrow> fa_mirror k'"
  by (simp add: fa_mirror_def)

lemma cfg_set_mirror: "fa_mirror k \<Longrightarrow> cfg_set env u k = (k', r) \<Longrightarrow> fa_mirror k'"
proof -
  assume m: "fa_mirror k" and s: "cfg_set env u k = (k', r)"
  have t: "fa_mirror (set_cfg_param LIBERA_CFG_TRIGMODE v k)" for v
    using m by (simp add: fa_mirror_def cfg_index)
  have e: "fa_mirror (fst (libera_send_event a b k1))" if "fa_mirror k1" for a b k1
    by (rule mirror_same_dev [OF that]) simp_all
  show ?thesis
    using s m set_specific_mirror [OF m, of "io_reg env" "unat (fst (snd u))" "snd (snd u)"] t e
    by (auto simp: cfg_set_def Let_def split: if_splits prod.splits sum.splits)
qed

lemma cfg_ioctl_mirror: "fa_mirror k \<Longrightarrow> fa_mirror (fst (libera_cfg_ioctl f cmd env k))"
  using cfg_set_mirror
  by (auto simp: libera_cfg_ioctl_def libera_cfg_cmd_def split: cfg_cmd.splits prod.splits)

lemma dsc_ioctl_mirror: "fa_mirror k \<Longrightarrow> fa_mirror (fst (libera_dsc_ioctl f cmd access k))"
  by (auto simp: libera_dsc_ioctl_def Let_def check_and_update_mirror split: dsc_cmd.splits
      intro: mirror_same_dev)

text \<open>The words of a block lie inside the block.\<close>

lemma block_address:
  assumes "i < length (bytes_words (take (nat n) bytes))" "n = min c (int bsize - sint pos)"
    "0 \<le> sint (pos :: s64)" "sint pos < int bsize" "unat block + bsize < 2 ^ 30"
  shows "block \<le> block + ucast pos + 4 * of_nat i \<and> unat (block + ucast pos + 4 * of_nat i :: u32) < unat block + bsize"
proof -
  have i: "4 * i < nat n" using assms(1) by (auto simp: bytes_words_length)
  let ?x = "unat block + nat (sint pos) + 4 * i"
  have x: "?x < unat block + bsize" using i assms by auto
  have "ucast pos = (of_nat (nat (sint pos)) :: u32)"
    using assms(3) nonneg_sint [of pos] by (simp add: ucast_eq)
  then have e: "block + ucast pos + 4 * of_nat i = of_nat ?x" by simp
  have "unat (of_nat ?x :: u32) = ?x" using x assms(5) by (simp only: unat_of_nat) simp
  then show ?thesis unfolding e using x by (simp add: word_le_nat_alt)
qed

lemma blk_write_mirror:
  assumes "fa_mirror k" "blk_write bsize block sig u count pos get put k = Ret (k', pos', r)"
    and "0 \<le> sint pos" "unat block + bsize < 2 ^ 30"
    and "\<And>d. trace (put d k) = trace k \<and> cfg (put d k) = cfg k"
    and "\<And>a. a \<in> fa_regs \<Longrightarrow> a < block \<or> unat block + bsize \<le> unat a"
  shows "fa_mirror k'"
proof -
  have z: "bsize < 2 ^ 30" using assms(4) by simp
  from assms(2,3) z show ?thesis
  proof (cases rule: blk_write_cases)
    case (written n bytes)
    let ?k1 = "put ((get k)\<lparr>blk_buf := bytes\<rparr>) k"
    have "fa_mirror ?k1" using assms(1) by (rule mirror_same_dev) (simp_all add: assms(5))
    moreover have "fa_same ?k1 k'"
      unfolding written(7) writelBlock_eq
    proof (rule fa_same_writes)
      show "snd ` set (map (\<lambda>i. (bytes_words (take (nat n) (snd u)) ! i, block + ucast pos + 4 * of_nat i))
          [0..<length (bytes_words (take (nat n) (snd u)))]) \<inter> fa_regs = {}"
        using block_address [OF _ written(2) assms(3) written(4) assms(4)] assms(6)
        by fastforce
    qed simp
    ultimately show ?thesis using fa_same_mirror by blast
  qed (use assms(1,5) in \<open>auto intro: mirror_same_dev\<close>)
qed

text \<open>
  A call of user space to the configuration or a block device. The kernel passes on only positions that
  are not negative.
\<close>

inductive cfg_step :: "kernel \<Rightarrow> kernel \<Rightarrow> bool" where
  cfg_open: "libera_cfg_open f k = Ret (k', r) \<Longrightarrow> cfg_step k k'"
| cfg_release: "cfg_step k (libera_cfg_release f k)"
| cfg_ioctl: "cfg_step k (fst (libera_cfg_ioctl f cmd env k))"
| fa_open: "libera_fa_open f k = Ret (k', r) \<Longrightarrow> cfg_step k k'"
| fa_release: "cfg_step k (libera_fa_release f k)"
| fa_read: "libera_fa_read sig readl cf count pos k = Ret (k', r) \<Longrightarrow> cfg_step k k'"
| fa_write: "libera_fa_write sig u count pos k = Ret (k', r) \<Longrightarrow> 0 \<le> sint pos \<Longrightarrow> cfg_step k k'"
| dsc_open: "libera_dsc_open f k = Ret (k', r) \<Longrightarrow> cfg_step k k'"
| dsc_release: "cfg_step k (libera_dsc_release f k)"
| dsc_read: "libera_dsc_read sig readl cf count pos k = Ret (k', r) \<Longrightarrow> cfg_step k k'"
| dsc_write: "libera_dsc_write sig u count pos k = Ret (k', r) \<Longrightarrow> 0 \<le> sint pos \<Longrightarrow> cfg_step k k'"
| dsc_ioctl: "cfg_step k (fst (libera_dsc_ioctl f cmd access k))"

lemma single_writer_param:
  "single_writer_open f dev = Ret (dev', r) \<Longrightarrow> cfg_param dev' = cfg_param dev"
  "cfg_param (single_writer_release f dev) = cfg_param dev"
  by (auto simp: single_writer_open_def single_writer_release_def Let_def split: if_splits)

lemma mirror_params: "fa_mirror k \<Longrightarrow> trace k' = trace k \<Longrightarrow> param k' = param k \<Longrightarrow> fa_mirror k'"
  by (simp add: fa_mirror_def)

lemma fa_write_mirror:
  assumes "fa_mirror k" "libera_fa_write sig u count pos k = Ret (k', pos', r)" "0 \<le> sint pos"
  shows "fa_mirror k'"
proof (rule blk_write_mirror [OF assms(1)])
  show "blk_write FAI_BLOCKSIZE FAI_BLOCK sig u count pos fa set_fa k = Ret (k', pos', r)"
    using assms(2) by (simp add: libera_fa_write_def)
  show "a < FAI_BLOCK \<or> unat FAI_BLOCK + FAI_BLOCKSIZE \<le> unat a" if "a \<in> fa_regs" for a
    using that by (auto simp: fa_regs_def FAI_BLOCK_def FAI_OFFSET_def FA_OFFSET_def)
qed (use assms(3) in \<open>simp_all add: FAI_BLOCK_def FAI_OFFSET_def FAI_BLOCKSIZE_def\<close>)

lemma dsc_write_mirror:
  assumes "fa_mirror k" "libera_dsc_write sig u count pos k = Ret (k', pos', r)" "0 \<le> sint pos"
  shows "fa_mirror k'"
proof (rule blk_write_mirror [OF assms(1)])
  show "blk_write DSC_BLOCKSIZE DSC_BLOCK sig u count pos dsc set_dsc k = Ret (k', pos', r)"
    using assms(2) by (simp add: libera_dsc_write_def)
  show "a < DSC_BLOCK \<or> unat DSC_BLOCK + DSC_BLOCKSIZE \<le> unat a" if "a \<in> fa_regs" for a
    using that by (auto simp: fa_regs_def DSC_BLOCK_def ADC_OFFSET_def DSC_BLOCKSIZE_def FA_OFFSET_def)
qed (use assms(3) in \<open>simp_all add: DSC_BLOCK_def ADC_OFFSET_def DSC_BLOCKSIZE_def\<close>)

lemma call_bind_Ret: "call_bind c f = Ret y \<longleftrightarrow> (\<exists>x. c = Ret x \<and> f x = Ret y)"
  by (cases c) simp_all

lemma cfg_step_mirror:
  assumes "cfg_step k k'" "fa_mirror k"
  shows "fa_mirror k'"
  using assms
proof cases
  case (cfg_open f r)
  then show ?thesis using assms(2)
    by (auto simp: libera_cfg_open_def call_bind_Ret single_writer_param intro: mirror_params)
next
  case (fa_write sig u count pos r)
  then show ?thesis using fa_write_mirror assms(2) by (cases r) auto
next
  case (dsc_write sig u count pos r)
  then show ?thesis using dsc_write_mirror assms(2) by (cases r) auto
qed (auto simp: libera_cfg_release_def single_writer_param libera_fa_open_def libera_fa_release_def
      libera_fa_read_def libera_dsc_open_def libera_dsc_release_def libera_dsc_read_def call_bind_Ret
      cfg_ioctl_mirror dsc_ioctl_mirror intro: mirror_params)

lemma set_all_mirror: "fa_mirror (set_all_params readl k)"
proof -
  define f where "f i k = fst (libera_cfg_set_specific readl i (param k i) k)" for i k
  have keep: "fa_mirror k \<Longrightarrow> fa_mirror (fold f xs k)" for xs k
    by (induction xs arbitrary: k) (simp_all add: f_def set_specific_mirror)
  have "[LIBERA_CFG_CUSTOM_FIRST..<LIBERA_CFG_CUSTOM_LAST] =
      [128, 129, 130, 131, 132] @ [133..<LIBERA_CFG_CUSTOM_LAST]"
    by (simp add: cfg_index upt_conv_Cons)
  then have e: "set_all_params readl k = fold f [133..<LIBERA_CFG_CUSTOM_LAST] (fold f [128, 129, 130, 131, 132] k)"
    by (simp add: set_all_params_def f_def [abs_def])
  have "fa_mirror (fold f [128, 129, 130, 131, 132] k)"
    by (simp add: f_def fa_mirror_def libera_cfg_set_specific_def fa_param_reg_def cfg_index FA_OFFSET_def
        last_write_def)
  then show ?thesis unfolding e by (rule keep)
qed

lemma other_regs_sctrig: "T_SC_TRIGGER_MASK \<notin> fa_regs"
  by (simp add: fa_regs_def T_SC_TRIGGER_MASK_def CLK_OFFSET_def FA_OFFSET_def)

text \<open>C28.
  The FPGA calculates positions with the parameters the driver reports: from the initialisation of
  the module on, over any sequence of opens, reads, writes, requests and releases of the configuration,
  FA and DSC devices, the last values written to the five position registers are the current
  parameters, the two offsets with the beam-current dependent offset of their plane added. In
  particular no write to the FA or DSC block reaches these registers.
\<close>

theorem fa_mirror_invariant:
  assumes "cfg_step\<^sup>*\<^sup>* (fst (libera_init_specific readl k0)) k"
  shows "last_write (trace k) FA_OFFSET = Some (param k LIBERA_CFG_XOFFSET + param k LIBERA_CFG_BCD_XOFFSET)
   \<and> last_write (trace k) (FA_OFFSET + 4) = Some (param k LIBERA_CFG_YOFFSET + param k LIBERA_CFG_BCD_YOFFSET)
   \<and> last_write (trace k) (FA_OFFSET + 8) = Some (param k LIBERA_CFG_QOFFSET)
   \<and> last_write (trace k) (FA_OFFSET + 12) = Some (param k LIBERA_CFG_KX)
   \<and> last_write (trace k) (FA_OFFSET + 16) = Some (param k LIBERA_CFG_KY)"
proof -
  have "fa_same k (fst (libera_sctrig_enable m k))" for m k
    by (auto simp: libera_sctrig_enable_def Let_def fa_same_def other_regs_sctrig)
  then have init: "fa_mirror (fst (libera_init_specific readl k0))"
    unfolding libera_init_specific_def Let_def by (rule fa_same_mirror [OF _ set_all_mirror])
  have "fa_mirror k" using assms init
    by (induction rule: rtranclp_induct) (auto intro: cfg_step_mirror)
  then show ?thesis by (simp add: fa_mirror_def)
qed

theorem fa_mirror_invariant_witness:
  "\<exists>k. k = fst (libera_dsc_ioctl \<lparr>file_id = 7, fmode_read = True, fmode_write = True, o_nonblock = False\<rparr>
            (BCD_OFFSETS (0, 300, - 20)) True (fst (libera_init_specific (\<lambda>_. 0) boot_kernel)))
     \<and> last_write (trace k) FA_OFFSET = Some (param k LIBERA_CFG_XOFFSET + param k LIBERA_CFG_BCD_XOFFSET)"
  using fa_mirror_invariant [OF r_into_rtranclp, OF dsc_ioctl] by simp

section \<open>Reading back a parameter\<close>

text \<open>What a parameter holds after it was set.\<close>

definition cfg_stored :: "u32 \<Rightarrow> nat \<Rightarrow> u32 \<Rightarrow> u32" where
  "cfg_stored f i v =
     (if i \<in> {LIBERA_CFG_PM_OVERFLOW_LIMIT, LIBERA_CFG_ILK_OVERFLOW_LIMIT}
      then overflow_code (LIBERA_IS_BRILLIANCE f) v
      else if i = LIBERA_CFG_ILKSTATUS then 0 else v)"

definition set_result :: "kernel \<Rightarrow> nat \<Rightarrow> u32 \<Rightarrow> kernel \<times> (errno + int) \<Rightarrow> bool" where
  "set_result k i w p \<longleftrightarrow> (\<forall>x. snd p = Inr x \<longrightarrow> param (fst p) = (param k)(i := w))"

lemma set_result_if:
  "(c \<Longrightarrow> set_result k i w x) \<Longrightarrow> (\<not> c \<Longrightarrow> set_result k i w y) \<Longrightarrow> set_result k i w (if c then x else y)"
  by simp

lemma set_result_pair:
  "set_result k i w (k1, Inl e)"
  "param k1 = (param k)(i := w) \<Longrightarrow> set_result k i w (k1, Inr r)"
  by (simp_all add: set_result_def)

lemma param_steps [simp]:
  "param (reg_write v a k) = param k" "param (writes ws k) = param k" "param (ilk_atom k) = param k"
  "param (pm_atom readl k) = param k" "param (cfg_set_window v k) = (param k)(LIBERA_CFG_SR_AVERAGE_WINDOW := v)"
  by (simp_all add: ilk_atom_def pm_atom_def cfg_set_window_def Let_def)

lemma mirrored_below: "i \<in> set cfg_mirrored \<Longrightarrow> \<not> LIBERA_CFG_COEFF \<le> i \<and> i \<noteq> LIBERA_CFG_DDC_MAFLENGTH
    \<and> i \<noteq> LIBERA_CFG_DDC_MAFDELAY"
  by (auto simp: cfg_mirrored_def cfg_index)

lemma kept_stored: "i \<in> set cfg_kept \<Longrightarrow> cfg_stored f i v = v"
  by (auto simp: cfg_kept_def cfg_stored_def cfg_index)

lemma set_specific_result:
  assumes "i \<in> set cfg_mirrored"
  shows "set_result k i (cfg_stored (feature k) i v) (libera_cfg_set_specific readl i v k)"
  unfolding libera_cfg_set_specific_def Let_def
  apply (intro set_result_if set_result_pair)
  using mirrored_below [OF assms] apply (simp_all add: kept_stored)
  by (auto simp: cfg_stored_def cfg_index)

lemma mirrored_trigmode: "i \<in> set cfg_mirrored \<Longrightarrow> i \<noteq> LIBERA_CFG_TRIGMODE \<and> i \<noteq> LIBERA_CFG_FEATURE_CUSTOMER
    \<and> i \<noteq> LIBERA_CFG_FEATURE_ITECH \<and> i < LIBERA_CFG_PARAMS_MAX"
  by (auto simp: cfg_mirrored_def cfg_index LIBERA_CFG_PARAMS_MAX_def LIBERA_CFG_FEATURE_CUSTOMER_def
      LIBERA_CFG_FEATURE_ITECH_def)

lemma cfg_set_param:
  assumes "cfg_set env (0, i, v) k = (k', Inr 0)" "unat i \<in> set cfg_mirrored \<union> {LIBERA_CFG_TRIGMODE}"
  shows "param k' = (param k)(unat i := cfg_stored (feature k) (unat i) v)"
proof (cases "unat i = LIBERA_CFG_TRIGMODE")
  case True
  then show ?thesis using assms(1)
    by (auto simp: cfg_set_def cfg_stored_def cfg_index split: if_splits)
next
  case False
  then have m: "unat i \<in> set cfg_mirrored" using assms(2) by simp
  obtain k1 r where s: "libera_cfg_set_specific (io_reg env) (unat i) v k = (k1, r)" by fastforce
  show ?thesis
    using assms(1) False s set_specific_result [OF m, where k = k and readl = "io_reg env" and v = v]
    by (auto simp: cfg_set_def set_result_def Let_def split: if_splits sum.splits)
qed

text \<open>
  Every parameter that is reported from the driver's copy reads back as it was set: after a SET that
  returns 0, a GET of the same index returns the value (for the two overflow limits the value in the
  upper half and the code of the FPGA in the lower half, for the interlock status zero), whatever the
  registers hold, and no other parameter has changed.
\<close>

theorem cfg_set_then_get:
  assumes "cfg_set env (0, i, v) k = (k', Inr 0)" "unat i \<in> set cfg_mirrored \<union> {LIBERA_CFG_TRIGMODE}"
  shows "cfg_get env' (0, i, w) k' =
           (copy_ret (io_uncopied env'),
            CfgReq (i, if unat i \<in> {LIBERA_CFG_PM_OVERFLOW_LIMIT, LIBERA_CFG_ILK_OVERFLOW_LIMIT}
                       then overflow_code (LIBERA_IS_BRILLIANCE (feature k)) v
                       else if unat i = LIBERA_CFG_ILKSTATUS then 0 else v))
     \<and> (\<forall>j. j \<noteq> unat i \<longrightarrow> param k' j = param k j)"
proof -
  have p: "param k' = (param k)(unat i := cfg_stored (feature k) (unat i) v)"
    by (rule cfg_set_param [OF assms])
  have "cfg_get env' (0, i, w) k' = (copy_ret (io_uncopied env'), CfgReq (i, param k' (unat i)))"
  proof (cases "unat i \<in> {LIBERA_CFG_TRIGMODE, LIBERA_CFG_MCPLL, LIBERA_CFG_SCPLL}")
    case True
    then have "unat i < LIBERA_CFG_PARAMS_MAX" by (auto simp: LIBERA_CFG_PARAMS_MAX_def cfg_index)
    with True show ?thesis by (simp add: cfg_get_def Let_def)
  next
    case False
    then have m: "unat i \<in> set cfg_mirrored" using assms(2) by simp
    with False mirrored_trigmode [OF m] show ?thesis
      by (simp add: cfg_get_def libera_cfg_get_specific_def Let_def)
  qed
  then show ?thesis using p by (simp add: cfg_stored_def)
qed

theorem cfg_set_then_get_witness:
  "\<exists>k'. cfg_set \<lparr>io_signal = False, io_wakes = [], io_uncopied = 0, io_access = True, io_reg = \<lambda>_. 0,
            io_stack = \<lparr>lst = 0, lmt = 0\<rparr>\<rparr> (0, 138, 1900) boot_kernel = (k', Inr 0)
     \<and> cfg_get \<lparr>io_signal = False, io_wakes = [], io_uncopied = 0, io_access = True, io_reg = \<lambda>_. 1,
            io_stack = \<lparr>lst = 0, lmt = 0\<rparr>\<rparr> (0, 138, 0) k' = (Inr 0, CfgReq (138, 124532501))"
proof -
  let ?env = "\<lparr>io_signal = False, io_wakes = [], io_uncopied = 0, io_access = True, io_reg = \<lambda>_. 0,
            io_stack = \<lparr>lst = 0, lmt = 0\<rparr>\<rparr>"
  have f: "feature boot_kernel = 0" by (simp add: boot_kernel_def libera_init_devs_def)
  have nb: "\<not> LIBERA_IS_BRILLIANCE 0"
    by (simp add: LIBERA_IS_BRILLIANCE_def LIBERA_INS_TYPE_def LIBERA_TYPE_BRILLIANCE_def)
  have s: "cfg_set ?env (0, 138, 1900) boot_kernel
      = (fst (libera_send_event LIBERA_EVENT_CFG 138 (set_cfg_param 138 (overflow_code False 1900) boot_kernel)), Inr 0)"
    by (simp add: cfg_set_def libera_cfg_set_specific_def cfg_kept_def cfg_index LIBERA_CFG_PARAMS_MAX_def f nb)
  have "overflow_code False 1900 = 124532501" by (simp add: overflow_code_def)
  then show ?thesis using s cfg_set_then_get [OF s] nb f
    by (simp add: cfg_mirrored_def cfg_index copy_ret_def)
qed

section \<open>The interlock limit of the ADC\<close>

lemma low_half_code: "(push_bit 16 v OR (x AND 0x0000ffff)) AND 0x0000ffff = (x AND 0x0000ffff :: u32)"
proof -
  have m: "(0x0000ffff :: u32) = mask 16" by (simp add: mask_eq_exp_minus_1)
  show ?thesis unfolding m by (rule bit_word_eqI) (auto simp: bit_simps)
qed

lemma low_half_small: "uint (x :: u32) < 65536 \<Longrightarrow> uint (x AND 0x0000ffff) = uint x"
proof -
  assume x: "uint x < 65536"
  have m: "(0x0000ffff :: u32) = mask 16" by (simp add: mask_eq_exp_minus_1)
  show ?thesis unfolding m using x
    by (simp add: uint_and_mask)
qed

lemma overflow_code_value:
  assumes "uint v \<le> (if b then 32767 else 2047)"
  shows "uint (overflow_code b v AND 0x0000ffff) = (uint v div (if b then 16 else 1))\<^sup>2 div 256"
proof -
  define c where "c = drop_bit (if b then 4 else 0) v"
  have u: "uint c = uint v div (if b then 16 else 1)"
    by (simp add: c_def unsigned_drop_bit_eq drop_bit_eq_div uint_div)
  have c: "uint c \<le> 2047" using assms u by (simp split: if_splits)
  have "uint c * uint c \<le> 2047 * 2047" using c by (intro mult_mono) simp_all
  then have q: "uint (c * c) = (uint c)\<^sup>2" by (simp add: power2_eq_square flip: uint_mult_lem)
  have "uint (drop_bit 8 (c * c)) = (uint c)\<^sup>2 div 256"
    using q by (simp add: unsigned_drop_bit_eq drop_bit_eq_div uint_div)
  moreover have "(uint c)\<^sup>2 div 256 < 65536"
    using \<open>uint c * uint c \<le> 2047 * 2047\<close> by (simp add: power2_eq_square)
  ultimately show ?thesis
    using low_half_small [of "drop_bit 8 (c * c)"] u
    by (simp add: overflow_code_def Let_def c_def [symmetric] low_half_code)
qed

lemma scale_kadc_value:
  assumes "uint f < 65536" "uint (limit AND 0x0000ffff) \<le> 16383"
  shows "uint (scale_kadc f limit) = uint (limit AND 0x0000ffff) * (uint f)\<^sup>2 div 1000000"
proof -
  let ?l = "uint (limit AND 0x0000ffff)"
  have f: "uint f * uint f \<le> 65535 * 65535" using assms by (intro mult_mono) auto
  then have q: "uint (f * f) = (uint f)\<^sup>2" by (simp add: power2_eq_square flip: uint_mult_lem)
  have b: "?l * (uint f)\<^sup>2 \<le> 16383 * (65535 * 65535)"
    using f assms by (intro mult_mono) (auto simp: power2_eq_square)
  have p: "uint (ucast (limit AND 0x0000ffff) * ucast (f * f) :: u64) = ?l * (uint f)\<^sup>2"
  proof -
    have u: "uint (ucast x :: u64) = uint x" for x :: u32
      using uint_lt2p [of x] by (simp add: unsigned_ucast_eq take_bit_int_eq_self)
    have "uint (ucast (limit AND 0x0000ffff) :: u64) * uint (ucast (f * f) :: u64) < 2 ^ LENGTH(64)"
      unfolding u q using b by simp
    from iffD1 [OF uint_mult_lem this] show ?thesis unfolding u q .
  qed
  have d: "?l * (uint f)\<^sup>2 div 1000000 < 4294967296"
    using zdiv_mono1 [OF b, of 1000000] by simp
  show ?thesis
    using p d by (simp add: scale_kadc_def unsigned_ucast_eq uint_div take_bit_int_eq_self
        pos_imp_zdiv_nonneg_iff)
qed

text \<open>
  The ADC limit of the interlock arrives at the FPGA: after setting the overflow limit to a (in ADC counts;
  refused above 2047, or above 32767 on Brilliance) and then the gain limit, the limit register holds
  the square of the count (of its upper twelve bits on Brilliance) over 256, scaled by the square of
  the module parameter kadc over one million, without overflow for every kadc below 65536.
\<close>

theorem ilk_limit_reaches_fpga:
  assumes "libera_cfg_set_specific readl LIBERA_CFG_ILK_OVERFLOW_LIMIT a k = (k1, Inr 0)" "uint (kadc k) < 65536"
  shows "\<exists>w. last_write (trace (fst (libera_cfg_set_specific readl LIBERA_CFG_ILK_GAIN_LIMIT g k1)))
               DSC_ILK_OVERFLOW_LIMIT = Some w
     \<and> uint w = (uint a div (if LIBERA_IS_BRILLIANCE (feature k) then 16 else 1))\<^sup>2 div 256
                  * (uint (kadc k))\<^sup>2 div 1000000"
proof -
  let ?b = "LIBERA_IS_BRILLIANCE (feature k)"
  let ?code = "overflow_code ?b a"
  have a: "uint a \<le> (if ?b then 32767 else 2047)"
    and k1: "k1 = set_cfg_param LIBERA_CFG_ILK_OVERFLOW_LIMIT ?code k"
    using assms(1)
    by (auto simp: libera_cfg_set_specific_def cfg_kept_def cfg_index Let_def word_le_def split: if_splits)
  let ?v = "(uint a div (if ?b then 16 else 1))\<^sup>2 div 256"
  have v: "uint (?code AND 0x0000ffff) = ?v" by (rule overflow_code_value [OF a])
  have "uint a div (if ?b then 16 else 1) \<le> 2047" using a by (auto split: if_splits)
  then have "(uint a div (if ?b then 16 else 1)) * (uint a div (if ?b then 16 else 1)) \<le> 2047 * 2047"
    by (intro mult_mono) (auto simp: pos_imp_zdiv_nonneg_iff)
  then have "uint (?code AND 0x0000ffff) \<le> 16383" unfolding v by (simp add: power2_eq_square)
  from scale_kadc_value [OF assms(2) this]
  have w: "uint (scale_kadc (kadc k) ?code) = ?v * (uint (kadc k))\<^sup>2 div 1000000" unfolding v .
  have "last_write (trace (fst (libera_cfg_set_specific readl LIBERA_CFG_ILK_GAIN_LIMIT g k1)))
      DSC_ILK_OVERFLOW_LIMIT = Some (scale_kadc (kadc k) ?code)"
    by (simp add: libera_cfg_set_specific_def cfg_kept_def cfg_index ilk_atom_def Let_def k1 addresses
        last_write_many last_write_def)
  then show ?thesis using w by blast
qed

theorem ilk_limit_reaches_fpga_witness:
  "\<exists>k1 w. libera_cfg_set_specific (\<lambda>_. 0) LIBERA_CFG_ILK_OVERFLOW_LIMIT 1900 boot_kernel = (k1, Inr 0)
     \<and> last_write (trace (fst (libera_cfg_set_specific (\<lambda>_. 0) LIBERA_CFG_ILK_GAIN_LIMIT 0 k1)))
         DSC_ILK_OVERFLOW_LIMIT = Some w
     \<and> uint w = 14101"
proof -
  have k: "feature boot_kernel = 0" "kadc boot_kernel = 1000"
    by (simp_all add: boot_kernel_def libera_init_devs_def LIBERA_KADC_INITIAL_def)
  have nb: "\<not> LIBERA_IS_BRILLIANCE 0"
    by (simp add: LIBERA_IS_BRILLIANCE_def LIBERA_INS_TYPE_def LIBERA_TYPE_BRILLIANCE_def)
  obtain k1 where s: "libera_cfg_set_specific (\<lambda>_. 0) LIBERA_CFG_ILK_OVERFLOW_LIMIT 1900 boot_kernel = (k1, Inr 0)"
    by (simp add: libera_cfg_set_specific_def cfg_kept_def cfg_index k nb)
  have "uint (kadc boot_kernel) < 65536" by (simp add: k)
  note F = ilk_limit_reaches_fpga [OF s this, of 0]
  have e: "(uint (1900 :: u32) div (if LIBERA_IS_BRILLIANCE (feature boot_kernel) then 16 else 1))\<^sup>2 div 256
      * (uint (kadc boot_kernel))\<^sup>2 div 1000000 = 14101"
    by (simp add: k nb)
  show ?thesis using F s unfolding e by blast
qed

section \<open>The samples of the ADC\<close>

lemma sint16_of_small_int:
  assumes "x = (of_int i :: s16)" "- 32768 \<le> i" "i < 32768"
  shows "sint x = i"
  using assms by (simp add: signed_of_int signed_take_bit_int_eq_self)

lemma sint_sample:
  assumes "uint (v :: s16) \<le> 4095"
  shows "sint (adc_sample v) = (if 2048 < uint v then uint v - 4096 else uint v)"
proof -
  have b: "0 \<le> uint v" by simp
  have s: "sint v = uint v"
    by (rule sint16_of_small_int) (use assms b in \<open>simp, linarith+\<close>)
  have d: "sint (v - 4096) = uint v - 4096"
    by (rule sint16_of_small_int) (use assms b in \<open>simp, linarith+\<close>)
  have "2048 <s v \<longleftrightarrow> 2048 < uint v" by (simp add: word_sless_alt s)
  then show ?thesis using s d by (simp add: adc_sample_def)
qed

text \<open>The two samples of a register.\<close>

definition halves :: "u32 \<Rightarrow> int list" where
  "halves w = [uint (w AND 0xffff), uint (drop_bit 16 w)]"

lemma uint_ucast_halves:
  "uint (ucast w :: s16) = uint (w AND 0xffff :: u32)"
  "uint (ucast (drop_bit 16 w :: u32) :: s16) = uint (drop_bit 16 w)"
proof -
  have m: "(0xffff :: u32) = mask 16" by (simp add: mask_eq_exp_minus_1)
  show "uint (ucast w :: s16) = uint (w AND 0xffff)"
    unfolding m by (simp add: unsigned_ucast_eq uint_and_mask take_bit_eq_mod)
  have "uint (drop_bit 16 w) < 65536"
    using uint_lt2p [of w] unfolding unsigned_drop_bit_eq drop_bit_eq_div uint_div by simp
  then show "uint (ucast (drop_bit 16 w) :: s16) = uint (drop_bit 16 w)"
    by (simp add: unsigned_ucast_eq take_bit_int_eq_self)
qed

lemma sample_of_half:
  assumes "x \<le> 4095" "uint (v :: s16) = x"
  shows "sint (adc_sample v) = (if 2048 < x then x - 4096 else x)"
  using sint_sample [of v] assms by simp

text \<open>C31.
  The ADC samples: when the converter delivers 12-bit counts, a read of the ADC device that succeeds
  returns the bytes asked for as whole atoms, atom i from the i-th pair of registers in the order D,
  C, B, A, every count above 2048 moved down by 4096, so that all samples lie between -2047 and 2048 (the
  count 2048 itself stays positive). Brilliance units, whose converter has 16 bits, get no
  transformation and are not covered.
\<close>

theorem adc_read_samples:
  assumes "libera_adc_read sig readl None count k = Ret (k', Inr n, atoms)"
    and "adc_op (adc k) = get_adc_transform (feature k)" "\<not> LIBERA_IS_BRILLIANCE (feature k)"
    and "\<forall>a. \<forall>x \<in> set (halves (readl a)). x \<le> 4095"
  shows "n = uint count \<and> length atoms = unat count div 8
    \<and> (\<forall>i < length atoms. map sint (atoms ! i) =
          map (\<lambda>x. if 2048 < x then x - 4096 else x)
            (halves (readl (ADC_CHAN_CD + of_nat i * 4)) @ halves (readl (ADC_CHAN_AB + of_nat i * 4)))
        \<and> (\<forall>x \<in> set (map sint (atoms ! i)). - 2047 \<le> x \<and> x \<le> 2048))"
proof (cases "count = 0")
  case True
  then show ?thesis using assms(1) by (simp add: libera_adc_read_def)
next
  case False
  let ?n = "unat (count div 8)"
  have r: "count \<le> 8192" "count mod 8 = 0" "n = 8 * int ?n"
    "atoms = take ?n (map (adc_atom readl (adc k)) [0..<1024])"
    using assms(1) False
    by (auto simp: libera_adc_read_def ADC_ATOM_BYTES_def LIBERA_ADC_BUFFER_ATOMS_def Let_def linorder_not_less
        split: lock_result.splits if_splits)
  have "unat count \<le> 8192" using r(1) by (simp add: word_le_nat_alt)
  then have "unat count div 8 \<le> 1024" using div_le_mono [of "unat count" 8192 8] by simp
  then have l: "length atoms = unat count div 8" using r(4) by (simp add: unat_div)
  have "uint count mod 8 = 0" using arg_cong [OF r(2), of uint] by (simp add: uint_mod)
  moreover have "n = 8 * (uint count div 8)" using r(3) by (simp add: unat_div zdiv_int)
  ultimately have n: "n = uint count" by (metis add.right_neutral mult_div_mod_eq)
  have atom: "atoms ! i = map adc_sample (adc_raw_atom readl i)" if "i < length atoms" for i
    using that l \<open>unat count \<le> 8192\<close> assms(2,3)
    by (simp add: r(4) adc_atom_def get_adc_transform_def ebpp_transform_adc_def)
  have h: "uint (w AND 0xffff) \<le> 4095" "uint (drop_bit 16 w) \<le> 4095" if "w = readl a" for w a
    using assms(4) that by (auto simp: halves_def)
  have s: "map sint (map adc_sample (adc_raw_atom readl i)) =
      map (\<lambda>x. if 2048 < x then x - 4096 else x)
        (halves (readl (ADC_CHAN_CD + of_nat i * 4)) @ halves (readl (ADC_CHAN_AB + of_nat i * 4)))" for i
    by (simp add: adc_raw_atom_def Let_def halves_def sample_of_half [OF h(1) uint_ucast_halves(1)]
        sample_of_half [OF h(2) uint_ucast_halves(2)])
  have b: "\<forall>x \<in> set (halves (readl a)). 0 \<le> x \<and> x \<le> 4095" for a
    using assms(4) by (auto simp: halves_def)
  have "- 2047 \<le> x \<and> x \<le> 2048" if "x \<in> set (map (\<lambda>x. if 2048 < x then x - 4096 else x)
      (halves (readl p) @ halves (readl q)))" for x p q
    using that b [of p] b [of q] by fastforce
  with n l atom s show ?thesis by (metis (no_types, lifting))
qed

theorem adc_read_samples_witness:
  "\<exists>k' n a. libera_adc_read False (\<lambda>_. 0x08010fff) None 8
       (boot_kernel\<lparr>adc := init_adc\<lparr>adc_op := get_adc_transform 0\<rparr>\<rparr>) = Ret (k', Inr n, a)
     \<and> n = 8 \<and> length a = 1 \<and> map sint (a ! 0) = [- 1, - 2047, - 1, - 2047]"
proof -
  let ?k = "boot_kernel\<lparr>adc := init_adc\<lparr>adc_op := get_adc_transform 0\<rparr>\<rparr>"
  let ?r = "\<lambda>_ :: u32. 0x08010fff :: u32"
  have s: "of_nat LIBERA_ADC_BUFFER_ATOMS * ADC_ATOM_BYTES = 8192" "(8 :: u32) mod ADC_ATOM_BYTES = 0"
    by (simp_all add: LIBERA_ADC_BUFFER_ATOMS_def ADC_ATOM_BYTES_def)
  have nb: "\<not> LIBERA_IS_BRILLIANCE 0"
    by (simp add: LIBERA_IS_BRILLIANCE_def LIBERA_INS_TYPE_def LIBERA_TYPE_BRILLIANCE_def)
  have f: "feature ?k = 0" by (simp add: boot_kernel_def libera_init_devs_def)
  obtain k' n a where r: "libera_adc_read False ?r None 8 ?k = Ret (k', Inr n, a)"
    by (simp add: libera_adc_read_def s Let_def init_adc_def)
  have h: "\<forall>b. \<forall>x \<in> set (halves (?r b)). x \<le> 4095" by (simp add: halves_def)
  have "n = uint (8 :: u32) \<and> length a = unat (8 :: u32) div 8 \<and> (\<forall>i < length a. map sint (a ! i) =
      map (\<lambda>x. if 2048 < x then x - 4096 else x) (halves (?r 0) @ halves (?r 0)))"
    using adc_read_samples [OF r _ _ h] f nb by simp
  then show ?thesis using r by (auto simp: halves_def)
qed

section \<open>Loading and unloading the module\<close>

definition same_irq :: "u32 \<Rightarrow> kernel \<Rightarrow> bool" where "same_irq m k \<longleftrightarrow> irqMask k = m"

lemma same_irq_steps [simp]:
  "same_irq m (reg_write v a k) = same_irq m k" "same_irq m (set_cfg_param i v k) = same_irq m k"
  "same_irq m (k\<lparr>adc := d\<rparr>) = same_irq m k" "same_irq m (k\<lparr>cfg := c\<rparr>) = same_irq m k"
  by (simp_all add: same_irq_def set_cfg_param_def)

lemma same_irq_writes [simp]: "same_irq m (writes ws k) = same_irq m k"
proof (induction ws arbitrary: k)
  case (Cons w ws)
  then show ?case by (cases w) (simp only: writes_simps same_irq_steps)
qed (simp only: writes_simps)

lemma same_irq_specific [simp]:
  "same_irq m (ilk_atom k) = same_irq m k" "same_irq m (pm_atom readl k) = same_irq m k"
  "same_irq m (cfg_set_window v k) = same_irq m k" "same_irq m (cfg_set_coefficient i v k) = same_irq m k"
  subgoal by (simp only: ilk_atom_def Let_def same_irq_writes)
  subgoal by (simp only: pm_atom_def Let_def same_irq_writes same_irq_steps)
  subgoal by (simp add: cfg_set_window_def Let_def)
  subgoal by (simp only: cfg_set_coefficient_def send_coefficients_def Let_def same_irq_writes same_irq_steps
      simp_thms split: if_split)
  done

lemma same_irq_if:
  "(c \<Longrightarrow> same_irq m (fst x)) \<Longrightarrow> (\<not> c \<Longrightarrow> same_irq m (fst y)) \<Longrightarrow> same_irq m (fst (if c then x else y))"
  by simp

lemma set_specific_irq:
  assumes "same_irq m k"
  shows "same_irq m (fst (libera_cfg_set_specific readl i v k))"
proof -
  have pair: "same_irq m k1 \<Longrightarrow> same_irq m (fst (k1, r))" for k1 and r :: "errno + int" by simp
  show ?thesis
    unfolding libera_cfg_set_specific_def Let_def
    by (intro same_irq_if pair; simp only: same_irq_steps same_irq_specific assms)
qed

lemma fold_irq: "(\<And>i k. same_irq m k \<Longrightarrow> same_irq m (f i k)) \<Longrightarrow> same_irq m k \<Longrightarrow> same_irq m (fold f xs k)"
  by (induction xs arbitrary: k) simp_all

lemma trig_enable_irq [simp]:
  "same_irq m (fst (libera_sctrig_enable b k)) = same_irq m k"
  "same_irq m (fst (libera_mctrig_enable b k)) = same_irq m k"
  by (simp_all add: libera_sctrig_enable_def libera_mctrig_enable_def Let_def same_irq_def)

lemma init_running_irq: "irqMask (init_running readl k) = init_irqs"
proof -
  have "same_irq init_irqs (fst (libera_mctrig_enable init_triggers
      (fst (libera_sctrig_enable init_triggers (set_irqMask init_irqs k)))))"
    by (simp add: set_irqMask_def) (simp add: same_irq_def)
  then have "same_irq init_irqs (init_running readl k)"
    unfolding init_running_def libera_init_specific_def Let_def set_all_params_def
    by (simp split: prod.splits) (intro fold_irq set_specific_irq; simp split: prod.splits)
  then show ?thesis by (simp add: same_irq_def)
qed

text \<open>C30.
  Loading the module: on success it holds all seven of its resources, the interrupts it serves are
  enabled, and unloading then returns every resource and leaves the interrupts and the triggers of both
  clocks masked in the FPGA. When a step fails, every resource obtained before is returned except the
  mapping of the registers, which stays (nothing is held when the clock parameter is zero).
\<close>

theorem init_exit_resources:
  assumes "libera_init env k = (k', held, res)"
  shows "if res = None
     then held = [R_irq, R_pmbuf, R_dmachan, R_dmabuf, R_chrdev, R_mem, R_ioremap] \<and> irqMask k' = init_irqs
        \<and> snd (libera_exit held k') = []
        \<and> (\<forall>a \<in> {SBC_IRQ_MASK, T_SC_TRIGGER_MASK, T_MC_TRIGGER_MASK}.
             last_write (trace (fst (libera_exit held k'))) a = Some 0)
     else held = (if flmcdHz k = 0 then [] else [R_ioremap])"
proof -
  have "res \<noteq> None \<and> held = (if flmcdHz k = 0 then [] else [R_ioremap])
      \<or> res = None \<and> held = [R_irq, R_pmbuf, R_dmachan, R_dmabuf, R_chrdev, R_mem, R_ioremap]
         \<and> irqMask k' = init_irqs"
    using assms
    by (cases res) (auto simp: libera_init_def init_tail_def Let_def err_IRQ_def err_PMBUF_def err_DMACH_def err_DMABUF_def
        err_ChrDev_def err_IOmem_def free_res_def init_running_irq split: if_splits option.splits)
  moreover have "snd (libera_exit [R_irq, R_pmbuf, R_dmachan, R_dmabuf, R_chrdev, R_mem, R_ioremap] k') = []"
    by (simp add: libera_exit_def free_res_def)
  moreover have "\<forall>a \<in> {SBC_IRQ_MASK, T_SC_TRIGGER_MASK, T_MC_TRIGGER_MASK}. last_write
      (trace (fst (libera_exit [R_irq, R_pmbuf, R_dmachan, R_dmabuf, R_chrdev, R_mem, R_ioremap] k'))) a = Some 0"
    by (simp add: libera_exit_def set_irqMask_def last_write_def)
  ultimately show ?thesis by auto
qed

theorem init_exit_resources_witness:
  "\<exists>k'. libera_init \<lparr>ie_check = None, ie_request = True, ie_chrdev = None, ie_dmabuf = True, ie_dmachan = True,
            ie_pmbuf = True, ie_irq = Some EBUSY, ie_reg = \<lambda>_. 0\<rparr> boot_kernel = (k', [R_ioremap], Some EBUSY)"
proof -
  let ?env = "\<lparr>ie_check = None, ie_request = True, ie_chrdev = None, ie_dmabuf = True, ie_dmachan = True,
            ie_pmbuf = True, ie_irq = Some EBUSY, ie_reg = \<lambda>_. 0\<rparr>"
  obtain k' held res where i: "libera_init ?env boot_kernel = (k', held, res)" by (metis prod_cases3)
  have p: "pmsize (init_decimation r (libera_init_devs boot_kernel)) = LIBERA_PMSIZE_INITIAL" for r
    by (simp add: init_decimation_def libera_init_devs_def boot_kernel_def Let_def)
  have "res = Some EBUSY"
    using i by (simp add: libera_init_def init_tail_def p Let_def LIBERA_FLMC_INITIAL_def
        LIBERA_PMSIZE_INITIAL_def LIBERA_PMSIZE_MAX_def)
  then show ?thesis using init_exit_resources [OF i] i by (simp add: LIBERA_FLMC_INITIAL_def)
qed

end
