(* ===== verification/Cspi_List.thy ===== *)
theory Cspi_List
  imports Libera_Prelude
begin

text \<open>
  The doubly linked lists of the CSPI library and its event daemon. Both \<open>cspi.c\<close> (connections of an
  environment) and \<open>eventd.c\<close> (listeners) link their nodes with the same two members and the same
  code; memory is a map from addresses to nodes, an access through a pointer that is null or freed is
  \<open>Fault\<close>. The representation \<open>dl_list\<close> says which list of addresses the pointers form.
\<close>

section \<open>Nodes and memory\<close>

record dnode =
  d_prev :: "nat option"
  d_next :: "nat option"

type_synonym 'n heap = "nat \<Rightarrow> 'n option"

definition heap_get :: "nat \<Rightarrow> 'n heap \<Rightarrow> 'n call" where
  "heap_get a h = (case h a of None \<Rightarrow> Fault | Some n \<Rightarrow> Ret n)"

definition heap_upd :: "('n \<Rightarrow> 'n) \<Rightarrow> nat \<Rightarrow> 'n heap \<Rightarrow> 'n heap call" where
  "heap_upd f a h = (case h a of None \<Rightarrow> Fault | Some n \<Rightarrow> Ret (h(a \<mapsto> f n)))"

section \<open>Operations\<close>

text \<open>A node goes to the front; it is not linked before.\<close>

definition dl_insert :: "nat \<Rightarrow> nat option \<times> 'n dnode_scheme heap \<Rightarrow> (nat option \<times> 'n dnode_scheme heap) call" where
  "dl_insert p s =
     (case s of (head, h) \<Rightarrow>
        (case head of
           None \<Rightarrow> Ret (Some p, h)
         | Some q \<Rightarrow>
             call_bind (heap_upd (d_next_update (\<lambda>_. Some q)) p h) (\<lambda>h.
             call_bind (heap_upd (d_prev_update (\<lambda>_. Some p)) q h) (\<lambda>h. Ret (Some p, h)))))"

text \<open>A pointer that may be null: the update behind \<open>if ( p )\<close>.\<close>

definition upd_opt :: "('n \<Rightarrow> 'n) \<Rightarrow> nat option \<Rightarrow> 'n heap \<Rightarrow> 'n heap call" where
  "upd_opt f p h = (case p of None \<Rightarrow> Ret h | Some a \<Rightarrow> heap_upd f a h)"

definition dl_remove :: "nat \<Rightarrow> nat option \<times> 'n dnode_scheme heap \<Rightarrow> (nat option \<times> 'n dnode_scheme heap) call" where
  "dl_remove p s =
     (case s of (head, h) \<Rightarrow>
        call_bind (heap_get p h) (\<lambda>n.
        call_bind (upd_opt (d_next_update (\<lambda>_. d_next n)) (d_prev n) h) (\<lambda>h.
        call_bind (heap_get p h) (\<lambda>n.
        call_bind (upd_opt (d_prev_update (\<lambda>_. d_prev n)) (d_next n) h) (\<lambda>h.
        call_bind (heap_get p h) (\<lambda>n.
          let head = (if head = Some p then d_next n else head) in
          call_bind (heap_upd (\<lambda>n. n\<lparr>d_prev := None, d_next := None\<rparr>) p h) (\<lambda>h. Ret (head, h))))))))"

text \<open>
  Searching: the first node that satisfies \<open>P\<close>. The loop follows \<open>d_next\<close>; on a cycle it does not
  end, which is the value \<open>None\<close>.
\<close>

partial_function (option) dl_find ::
  "('n dnode_scheme \<Rightarrow> bool) \<Rightarrow> 'n dnode_scheme heap \<Rightarrow> nat option \<Rightarrow> nat option call option" where
  "dl_find P h p =
     (case p of
        None \<Rightarrow> Some (Ret None)
      | Some a \<Rightarrow> (case h a of
            None \<Rightarrow> Some Fault
          | Some n \<Rightarrow> if P n then Some (Ret (Some a)) else dl_find P h (d_next n)))"

section \<open>Representation\<close>

text \<open>The nodes of \<open>as\<close> are linked from \<open>p\<close> on; \<open>pr\<close> is the node before the first, \<open>nx\<close> the one after the last.\<close>

fun dl_seg :: "'n dnode_scheme heap \<Rightarrow> nat option \<Rightarrow> nat option \<Rightarrow> nat list \<Rightarrow> nat option \<Rightarrow> bool" where
  "dl_seg h pr p [] nx \<longleftrightarrow> p = nx"
| "dl_seg h pr p (a # as) nx \<longleftrightarrow>
     p = Some a \<and> (\<exists>n. h a = Some n \<and> d_prev n = pr \<and> dl_seg h (Some a) (d_next n) as nx)"

definition dl_list :: "nat option \<times> 'n dnode_scheme heap \<Rightarrow> nat list \<Rightarrow> bool" where
  "dl_list s as \<longleftrightarrow> distinct as \<and> dl_seg (snd s) None (fst s) as None"

text \<open>What the operations leave alone: the members other than the links.\<close>

definition same_payload :: "'n dnode_scheme heap \<Rightarrow> 'n dnode_scheme heap \<Rightarrow> bool" where
  "same_payload h h' \<longleftrightarrow> (\<forall>a. map_option dnode.more (h' a) = map_option dnode.more (h a))"

lemma same_payload_refl [simp]: "same_payload h h"
  by (simp add: same_payload_def)

lemma same_payload_trans: "same_payload h h1 \<Longrightarrow> same_payload h1 h2 \<Longrightarrow> same_payload h h2"
  by (simp add: same_payload_def)

lemma same_payload_upd:
  "same_payload h h1 \<Longrightarrow> h1 a = Some n \<Longrightarrow> dnode.more n' = dnode.more n \<Longrightarrow> same_payload h (h1(a \<mapsto> n'))"
  unfolding same_payload_def by (metis fun_upd_apply option.map(2))

lemma dl_seg_append:
  "dl_seg h pr p (xs @ ys) nx \<longleftrightarrow>
     (\<exists>m. dl_seg h pr p xs m \<and> dl_seg h (if xs = [] then pr else Some (last xs)) m ys nx)"
  by (induction xs arbitrary: pr p) auto

lemma dl_seg_frame: "a \<notin> set xs \<Longrightarrow> dl_seg (h(a := v)) pr p xs nx = dl_seg h pr p xs nx"
  by (induction xs arbitrary: pr p) auto

lemma dl_seg_mem: "dl_seg h pr p xs nx \<Longrightarrow> a \<in> set xs \<Longrightarrow> \<exists>n. h a = Some n"
  by (induction xs arbitrary: pr p) auto

text \<open>Redirecting the pointer out of a segment, and the pointer back.\<close>

lemma dl_seg_set_next:
  assumes "dl_seg h pr p (xs @ [b]) nx" "distinct (xs @ [b])" "h b = Some n"
  shows "dl_seg (h(b \<mapsto> n\<lparr>d_next := m\<rparr>)) pr p (xs @ [b]) m"
  using assms by (auto simp: dl_seg_append dl_seg_frame)

lemma dl_seg_set_prev:
  assumes "dl_seg h pr (Some a) (a # xs) nx" "distinct (a # xs)" "h a = Some n"
  shows "dl_seg (h(a \<mapsto> n\<lparr>d_prev := q\<rparr>)) q (Some a) (a # xs) nx"
  using assms by (auto simp: dl_seg_frame)

lemma dl_insert_list:
  assumes "dl_list (head, h) as" "h p = Some n" "d_prev n = None" "d_next n = None" "p \<notin> set as"
  shows "\<exists>h'. dl_insert p (head, h) = Ret (Some p, h') \<and> dl_list (Some p, h') (p # as) \<and> same_payload h h'"
proof (cases as)
  case Nil
  then show ?thesis using assms by (auto simp: dl_list_def dl_insert_def)
next
  case (Cons q qs)
  then obtain m where q: "head = Some q" "h q = Some m" "d_prev m = None"
    and s: "dl_seg h (Some q) (d_next m) qs None"
    using assms(1) by (auto simp: dl_list_def)
  let ?h1 = "h(p \<mapsto> n\<lparr>d_next := Some q\<rparr>)"
  let ?h2 = "?h1(q \<mapsto> m\<lparr>d_prev := Some p\<rparr>)"
  have ne: "p \<noteq> q" using assms(5) Cons by auto
  have "dl_insert p (head, h) = Ret (Some p, ?h2)"
    using q ne assms(2) by (simp add: dl_insert_def heap_upd_def)
  moreover have "dl_list (Some p, ?h2) (p # as)"
    using assms(1,3,5) Cons s ne by (simp add: dl_list_def dl_seg_frame)
  moreover have "same_payload h ?h2"
    using assms(2) q ne by (auto simp: same_payload_def)
  ultimately show ?thesis by blast
qed

text \<open>The two halves of unlinking: the node before \<open>p\<close> now points past \<open>p\<close>, the node after it back over \<open>p\<close>.\<close>

lemma unlink_before:
  assumes "dl_seg h None head xs (Some p)" "distinct xs" "p \<notin> set xs"
  shows "\<exists>h1. upd_opt (d_next_update (\<lambda>_. nx)) (if xs = [] then None else Some (last xs)) h = Ret h1
     \<and> dl_seg h1 None (if xs = [] then nx else head) xs nx \<and> same_payload h h1
     \<and> (\<forall>a. xs = [] \<or> a \<noteq> last xs \<longrightarrow> h1 a = h a)"
proof (cases xs rule: rev_exhaust)
  case (snoc xs' b)
  then obtain n where n: "h b = Some n" using dl_seg_mem [OF assms(1)] by auto
  then have "dl_seg (h(b \<mapsto> n\<lparr>d_next := nx\<rparr>)) None head xs nx"
    using assms(1,2) unfolding snoc by (rule dl_seg_set_next [rotated 2])
  then show ?thesis using n snoc by (auto simp: upd_opt_def heap_upd_def same_payload_def)
qed (use assms in \<open>auto simp: upd_opt_def\<close>)

lemma unlink_after:
  assumes "dl_seg h (Some p) nx ys None" "distinct ys"
  shows "\<exists>h1. upd_opt (d_prev_update (\<lambda>_. pr)) nx h = Ret h1 \<and> dl_seg h1 pr nx ys None \<and> same_payload h h1
     \<and> (\<forall>a. a \<notin> set ys \<longrightarrow> h1 a = h a)"
proof (cases ys)
  case (Cons c ys')
  then obtain n where n: "h c = Some n" "nx = Some c" using assms(1) by auto
  then have "dl_seg (h(c \<mapsto> n\<lparr>d_prev := pr\<rparr>)) pr nx ys None"
    using assms unfolding Cons n(2) by (intro dl_seg_set_prev) auto
  then show ?thesis using n Cons by (auto simp: upd_opt_def heap_upd_def same_payload_def)
qed (use assms in \<open>auto simp: upd_opt_def\<close>)

lemma dl_seg_cong: "(\<And>a. a \<in> set xs \<Longrightarrow> h' a = h a) \<Longrightarrow> dl_seg h' pr p xs nx = dl_seg h pr p xs nx"
  by (induction xs arbitrary: pr p) auto

lemma dl_remove_list:
  assumes "dl_list (head, h) (xs @ p # ys)"
  shows "\<exists>head' h'. dl_remove p (head, h) = Ret (head', h') \<and> dl_list (head', h') (xs @ ys) \<and> same_payload h h'"
proof -
  have d: "distinct xs" "distinct ys" "p \<notin> set xs" "p \<notin> set ys" "set xs \<inter> set ys = {}"
    using assms by (auto simp: dl_list_def)
  have sg: "dl_seg h None head xs (Some p)" and "\<exists>n. h p = Some n \<and> d_prev n = (if xs = [] then None else Some (last xs))
      \<and> dl_seg h (Some p) (d_next n) ys None"
    using assms by (auto simp: dl_list_def dl_seg_append)
  then obtain n where n: "h p = Some n" "d_prev n = (if xs = [] then None else Some (last xs))"
    and ys: "dl_seg h (Some p) (d_next n) ys None" by blast
  obtain h1 where h1: "upd_opt (d_next_update (\<lambda>_. d_next n)) (d_prev n) h = Ret h1"
    "dl_seg h1 None (if xs = [] then d_next n else head) xs (d_next n)" "same_payload h h1"
    "\<And>a. xs = [] \<or> a \<noteq> last xs \<Longrightarrow> h1 a = h a"
    using unlink_before [OF sg d(1,3), of "d_next n"] n(2) by auto
  have p1: "h1 p = Some n" using h1(4) [of p] n(1) d(3) last_in_set [of xs] by (cases "xs = []") fastforce+
  have out: "h1 a = h a" if "a \<in> set ys" for a
    using h1(4) [of a] that d(5) last_in_set [of xs] by (cases "xs = []") blast+
  have "dl_seg h1 (Some p) (d_next n) ys None" using ys dl_seg_cong [of ys h1 h] out by simp
  then obtain h2 where h2: "upd_opt (d_prev_update (\<lambda>_. d_prev n)) (d_next n) h1 = Ret h2"
    "dl_seg h2 (d_prev n) (d_next n) ys None" "same_payload h1 h2" "\<And>a. a \<notin> set ys \<Longrightarrow> h2 a = h1 a"
    using unlink_after [of h1 p "d_next n" ys "d_prev n"] d(2) by blast
  have p2: "h2 p = Some n" using h2(4) d(4) p1 by simp
  let ?h3 = "h2(p \<mapsto> n\<lparr>d_prev := None, d_next := None\<rparr>)"
  let ?head = "if head = Some p then d_next n else head"
  have hd: "?head = (if xs = [] then d_next n else head)"
    using sg d(3) by (cases xs) auto
  have r: "dl_remove p (head, h) = Ret (?head, ?h3)"
    using n(1) h1(1) p1 h2(1) p2 by (simp add: dl_remove_def heap_get_def heap_upd_def Let_def)
  have "dl_seg h2 None ?head xs (d_next n)"
    using h1(2) h2(4) d(5) dl_seg_cong [of xs h2 h1] unfolding hd by blast
  then have "dl_seg ?h3 None ?head (xs @ ys) None"
    using h2(2) n(2) d(3,4) by (auto simp: dl_seg_append dl_seg_frame)
  moreover have "same_payload h ?h3"
    using h1(3) h2(3) p2 by (intro same_payload_upd [of h h2 p n] same_payload_trans [of h h1 h2]) simp_all
  ultimately show ?thesis using r d by (auto simp: dl_list_def)
qed

lemma dl_find_seg:
  assumes "dl_seg h pr p xs None"
  shows "dl_find P h p = Some (Ret (find (\<lambda>a. P (the (h a))) xs))"
  using assms
proof (induction xs arbitrary: pr p)
  case Nil
  then show ?case by (simp add: dl_find.simps)
next
  case (Cons a xs)
  then obtain n where "p = Some a" "h a = Some n" "dl_seg h (Some a) (d_next n) xs None" by auto
  then show ?case using Cons.IH by (simp add: dl_find.simps)
qed

lemma dl_list_mem: "dl_list s as \<Longrightarrow> a \<in> set as \<Longrightarrow> \<exists>n. snd s a = Some n"
  by (auto simp: dl_list_def dest: dl_seg_mem)

text \<open>The pointer to the first of a list.\<close>

definition ptr :: "nat list \<Rightarrow> nat option" where
  "ptr as = (case as of [] \<Rightarrow> None | a # _ \<Rightarrow> Some a)"

lemma ptr_simps [simp]: "ptr [] = None" "ptr (a # as) = Some a"
  by (simp_all add: ptr_def)

lemma dl_seg_ptr: "dl_seg h pr p as None \<Longrightarrow> p = ptr as"
  by (cases as) auto

lemma dl_list_node:
  assumes "dl_list (head, h) (xs @ a # ys)"
  obtains n where "h a = Some n" "d_next n = ptr ys"
  using assms by (auto simp: dl_list_def dl_seg_append dest!: dl_seg_ptr)

lemma dl_list_frame: "a \<notin> set as \<Longrightarrow> dl_list (head, h(a := v)) as = dl_list (head, h) as"
  by (simp add: dl_list_def dl_seg_frame)

end
