(* ===== verification/Eventd.thy ===== *)
theory Eventd
  imports Cspi_List Libera_Blk
begin

text \<open>
  The event daemon (\<open>eventd.c\<close>): processes join and leave its list of listeners through a request
  FIFO; it reads the driver's events and writes each to the named pipe of every process that listens
  for it. The state holds the listener list in memory, the named pipes by process and the driver.
\<close>

section \<open>State\<close>

record Listener = dnode +
  l_pid :: s32
  l_uid :: s32
  l_mask :: u32

text \<open>The named pipe of a process: whether it is open for reading, how many more events fit, what was written.\<close>

record npipe =
  np_reader :: bool
  np_room :: nat
  np_content :: "libera_event_t list"

type_synonym fifos = "s32 \<Rightarrow> npipe option"

record eventd =
  listener_head :: "nat option"
  lheap :: "Listener heap"
  listener_count :: u32
  fifo_files :: fifos
  drv :: kernel
  drv_local :: libera_event_local

text \<open>\<open>Request\<close>: process, connection, mask.\<close>

record Request =
  r_pid :: s32
  r_uid :: s32
  r_mask :: u32

definition INIT_MASK :: u32 where "INIT_MASK = LIBERA_EVENT_PM OR LIBERA_EVENT_INTERLOCK"

section \<open>The listener list\<close>

definition set_list :: "nat option \<times> Listener heap \<Rightarrow> eventd \<Rightarrow> eventd" where
  "set_list s d = d\<lparr>listener_head := fst s, lheap := snd s\<rparr>"

text \<open>\<open>new\<close> is what \<open>malloc\<close> returns.\<close>

definition insert_listener ::
  "nat option \<Rightarrow> s32 \<Rightarrow> s32 \<Rightarrow> u32 \<Rightarrow> eventd \<Rightarrow> (eventd \<times> nat option) call" where
  "insert_listener new pid uid msk d =
     (case new of
        None \<Rightarrow> Ret (d, None)
      | Some p \<Rightarrow>
          let h = (lheap d)(p \<mapsto> \<lparr>d_prev = None, d_next = None, l_pid = pid, l_uid = uid, l_mask = msk\<rparr>)
          in call_bind (dl_insert p (listener_head d, h)) (\<lambda>s.
               Ret ((set_list s d)\<lparr>listener_count := listener_count d + 1\<rparr>, Some p)))"

text \<open>Removing unlinks the named pipe of the process and frees the node.\<close>

definition remove_listener :: "nat \<Rightarrow> eventd \<Rightarrow> eventd call" where
  "remove_listener p d =
     call_bind (dl_remove p (listener_head d, lheap d)) (\<lambda>s.
       let d = (set_list s d)\<lparr>listener_count := listener_count d - 1\<rparr> in
       call_bind (heap_get p (lheap d)) (\<lambda>n.
         Ret (d\<lparr>fifo_files := (fifo_files d)(l_pid n := None), lheap := (lheap d)(p := None)\<rparr>)))"

definition returned :: "'a call option \<Rightarrow> 'a call" where
  "returned c = (case c of None \<Rightarrow> Hang | Some c \<Rightarrow> c)"

definition find_listener :: "s32 \<Rightarrow> s32 \<Rightarrow> eventd \<Rightarrow> nat option call" where
  "find_listener pid uid d =
     returned (dl_find (\<lambda>n. l_pid n = pid \<and> l_uid n = uid) (lheap d) (listener_head d))"

section \<open>Requests\<close>

partial_function (option) or_masks :: "u32 \<Rightarrow> Listener heap \<Rightarrow> nat option \<Rightarrow> u32 call option" where
  "or_masks msk h p =
     (case p of
        None \<Rightarrow> Some (Ret msk)
      | Some a \<Rightarrow> (case h a of
            None \<Rightarrow> Some Fault
          | Some n \<Rightarrow> or_masks (msk OR l_mask n) h (d_next n)))"

text \<open>The daemon's system calls on the event device; \<open>f\<close> is its descriptor.\<close>

record evd_env =
  ed_filp :: filp
  ed_io :: ioenv
  ed_acq :: "kernel \<Rightarrow> (kernel \<times> (errno + int)) call"

definition evd_ioctl :: "evd_env \<Rightarrow> event_cmd \<Rightarrow> eventd \<Rightarrow> (eventd \<times> int) call" where
  "evd_ioctl env cmd d =
     call_bind (libera_event_ioctl (ed_acq env) (ed_filp env) cmd (ed_io env) (drv_local d) (drv d))
       (\<lambda>(k, loc, r, out). Ret (d\<lparr>drv := k, drv_local := loc\<rparr>, (case r of Inl e \<Rightarrow> - 1 | Inr n \<Rightarrow> n)))"

text \<open>\<open>Inl\<close> is \<open>EXIT\<close>: the daemon logs what failed and ends.\<close>

definition join_or_leave :: "nat option \<Rightarrow> Request \<Rightarrow> nat option \<Rightarrow> eventd \<Rightarrow> (eventd \<times> string option) call" where
  "join_or_leave new req q d =
     (if r_mask req \<noteq> 0 then
        (case q of
           Some a \<Rightarrow> call_bind (heap_upd (l_mask_update (\<lambda>_. r_mask req)) a (lheap d)) (\<lambda>h. Ret (d\<lparr>lheap := h\<rparr>, None))
         | None \<Rightarrow> call_bind (insert_listener new (r_pid req) (r_uid req) (r_mask req) d) (\<lambda>(d, p).
             Ret (d, if p = None then Some ''insert_listener'' else None)))
      else
        (case q of
           Some a \<Rightarrow> call_bind (remove_listener a d) (\<lambda>d. Ret (d, None))
         | None \<Rightarrow> Ret (d, None)))"

definition handle_request ::
  "evd_env \<Rightarrow> (s32 \<Rightarrow> bool) \<Rightarrow> nat option \<Rightarrow> Request \<Rightarrow> eventd \<Rightarrow> (eventd \<times> (string + int)) call" where
  "handle_request env alive new req d =
     (if \<not> alive (r_pid req) then Ret (d, Inr (- 1))
      else
        call_bind (find_listener (r_pid req) (r_uid req) d) (\<lambda>q.
        call_bind (join_or_leave new req q d) (\<lambda>(d, exit).
          case exit of
            Some what \<Rightarrow> Ret (d, Inl what)
          | None \<Rightarrow>
              call_bind (returned (or_masks INIT_MASK (lheap d) (listener_head d))) (\<lambda>msk.
              call_bind (evd_ioctl env (SET_MASK (0, msk)) d) (\<lambda>(d, r). Ret (d, Inr r))))))"

section \<open>Events\<close>

text \<open>
  Opening the named pipe for writing without blocking and writing one event: the new pipes and
  whether the process is gone (\<open>ENOENT\<close>: no pipe, \<open>ENXIO\<close>: no reader). A full pipe loses the event.
\<close>

definition fifo_send :: "libera_event_t \<Rightarrow> s32 \<Rightarrow> fifos \<Rightarrow> fifos \<times> bool" where
  "fifo_send ev pid fs =
     (case fs pid of
        None \<Rightarrow> (fs, True)
      | Some f \<Rightarrow>
          if \<not> np_reader f then (fs, True)
          else if np_room f = 0 then (fs, False)
          else (fs(pid \<mapsto> f\<lparr>np_room := np_room f - 1, np_content := np_content f @ [ev]\<rparr>), False))"

definition wants :: "libera_event_t \<Rightarrow> u32 \<Rightarrow> bool" where
  "wants ev msk = (ev_id ev AND msk \<noteq> 0)"

partial_function (option) dispatch_loop :: "libera_event_t \<Rightarrow> nat option \<Rightarrow> eventd \<Rightarrow> eventd call option" where
  "dispatch_loop ev q d =
     (case q of
        None \<Rightarrow> Some (Ret d)
      | Some a \<Rightarrow> (case lheap d a of
            None \<Rightarrow> Some Fault
          | Some n \<Rightarrow>
              let (fs, ghost) = (if wants ev (l_mask n) then fifo_send ev (l_pid n) (fifo_files d) else (fifo_files d, False));
                  d = d\<lparr>fifo_files := fs\<rparr>
              in if ghost then
                   (case remove_listener a d of
                      Ret d \<Rightarrow> dispatch_loop ev (d_next n) d
                    | Hang \<Rightarrow> Some Hang
                    | Fault \<Rightarrow> Some Fault)
                 else dispatch_loop ev (d_next n) d))"

text \<open>A post-mortem event first has the driver fill the buffer; its failure is only logged.\<close>

definition handle_event :: "evd_env \<Rightarrow> libera_event_t \<Rightarrow> eventd \<Rightarrow> eventd call" where
  "handle_event env ev d =
     call_bind (if ev_id ev = LIBERA_EVENT_PM then call_bind (evd_ioctl env ACQ_PM d) (\<lambda>(d, r). Ret d) else Ret d)
       (\<lambda>d. returned (dispatch_loop ev (listener_head d) d))"

section \<open>Start and end of the daemon\<close>

definition eventd_start :: "evd_env \<Rightarrow> eventd \<Rightarrow> (eventd \<times> string option) call" where
  "eventd_start env d =
     call_bind (evd_ioctl env (SET_MASK (0, INIT_MASK)) d) (\<lambda>(d, r).
       Ret (d, if r \<noteq> 0 then Some ''ioctl'' else None))"

partial_function (option) release_loop :: "eventd \<Rightarrow> eventd call option" where
  "release_loop d =
     (case listener_head d of
        None \<Rightarrow> Some (Ret d)
      | Some a \<Rightarrow> (case remove_listener a d of
            Ret d \<Rightarrow> release_loop d
          | Hang \<Rightarrow> Some Hang
          | Fault \<Rightarrow> Some Fault))"

definition cleanup :: "evd_env \<Rightarrow> eventd \<Rightarrow> eventd call" where
  "cleanup env d =
     call_bind (evd_ioctl env (SET_MASK (0, 0)) d) (\<lambda>(d, r). returned (release_loop d))"

section \<open>Main loop\<close>

text \<open>
  The result of a \<open>read\<close>: an error, interrupted or not, or bytes. \<open>readsome\<close> fills the buffer of
  \<open>ntotal\<close> bytes from where \<open>nleft\<close> says; a finished count starts again from the total.
\<close>

datatype read_result = ReadError bool | ReadBytes "u8 list"

definition readsome :: "read_result \<Rightarrow> nat \<Rightarrow> u8 list \<Rightarrow> nat \<Rightarrow> u8 list \<times> nat" where
  "readsome rd ntotal buf nleft =
     (let nleft = (if nleft = 0 then ntotal else nleft); got = ntotal - nleft in
      case rd of
        ReadError _ \<Rightarrow> (buf, nleft)
      | ReadBytes bs \<Rightarrow>
          (let bs = take nleft bs in (take got buf @ bs @ drop (got + length bs) buf, nleft - length bs)))"

text \<open>The structures as the driver and the processes write them, in the byte order of the CPU.\<close>

definition event_of_bytes :: "u8 list \<Rightarrow> libera_event_t" where
  "event_of_bytes bs = (let ws = bytes_words bs in \<lparr>ev_id = ws ! 0, ev_param = ws ! 1\<rparr>)"

definition request_of_bytes :: "u8 list \<Rightarrow> Request" where
  "request_of_bytes bs = (let ws = bytes_words bs in \<lparr>r_pid = ws ! 0, r_uid = ws ! 1, r_mask = ws ! 2\<rparr>)"

text \<open>
  One turn of the loop for each descriptor. The buffers are variables of the loop body: what they hold
  when a turn begins is the argument \<open>junk\<close>. \<open>Inl\<close> is \<open>EXIT\<close>. The request FIFO is opened again when its
  writers have closed it.
\<close>

definition run_event ::
  "evd_env \<Rightarrow> read_result \<Rightarrow> u8 list \<Rightarrow> nat \<Rightarrow> eventd \<Rightarrow> (eventd \<times> (string + nat)) call" where
  "run_event env rd junk nleft d =
     (if rd = ReadError False then Ret (d, Inl ''readsome'')
      else
        let (buf, nleft) = readsome rd 8 junk nleft in
        if nleft = 0 then call_bind (handle_event env (event_of_bytes buf) d) (\<lambda>d. Ret (d, Inr nleft))
        else Ret (d, Inr nleft))"

definition run_request ::
  "evd_env \<Rightarrow> (s32 \<Rightarrow> bool) \<Rightarrow> nat option \<Rightarrow> read_result \<Rightarrow> u8 list \<Rightarrow> nat \<Rightarrow> eventd
     \<Rightarrow> (eventd \<times> (string + nat)) call" where
  "run_request env alive new rd junk nleft d =
     (if rd = ReadError False then Ret (d, Inl ''readsome'')
      else
        let (buf, nleft) = readsome rd 12 junk nleft in
        call_bind (if nleft = 0 then handle_request env alive new (request_of_bytes buf) d else Ret (d, Inr 0))
          (\<lambda>(d, r). case r of
             Inl what \<Rightarrow> Ret (d, Inl what)
           | Inr _ \<Rightarrow> Ret (d, Inr (if rd = ReadBytes [] then 0 else nleft))))"

end
