(* ===== verification/Eventd_Props.thy ===== *)
theory Eventd_Props
  imports Eventd
begin

text \<open>
  Properties of the event daemon: the list in memory implements an abstract list of listeners, an event
  reaches every process that listens for it, and the driver's event mask follows the listeners.
\<close>

section \<open>Abstract listeners\<close>

text \<open>A listener as its process, connection and mask; the list in the order of the pointers.\<close>

definition listener_of :: "Listener heap \<Rightarrow> nat \<Rightarrow> s32 \<times> s32 \<times> u32" where
  "listener_of h a = (l_pid (the (h a)), l_uid (the (h a)), l_mask (the (h a)))"

definition listeners :: "eventd \<Rightarrow> nat list \<Rightarrow> (s32 \<times> s32 \<times> u32) list" where
  "listeners d as = map (listener_of (lheap d)) as"

definition evd_ok :: "eventd \<Rightarrow> nat list \<Rightarrow> bool" where
  "evd_ok d as \<longleftrightarrow> dl_list (listener_head d, lheap d) as \<and> listener_count d = of_nat (length as)"

lemma payload_listener:
  assumes "same_payload h h'" "h a = Some n"
  shows "listener_of h' a = listener_of h a"
proof -
  have "map_option dnode.more (h' a) = Some (dnode.more n)" using assms by (simp add: same_payload_def)
  then obtain n' where n': "h' a = Some n'" "dnode.more n' = dnode.more n" by auto
  then show ?thesis using assms(2) by (cases n; cases n') (simp add: listener_of_def)
qed

lemma evd_mem: "evd_ok d as \<Longrightarrow> a \<in> set as \<Longrightarrow> \<exists>n. lheap d a = Some n"
  unfolding evd_ok_def by (metis dl_list_mem snd_conv)

section \<open>The operations of the list\<close>

lemma insert_listener_ok:
  assumes "evd_ok d as" "lheap d p = None"
  shows "\<exists>d'. insert_listener (Some p) pid uid m d = Ret (d', Some p) \<and> evd_ok d' (p # as)
     \<and> listeners d' (p # as) = (pid, uid, m) # listeners d as
     \<and> fifo_files d' = fifo_files d \<and> drv d' = drv d \<and> drv_local d' = drv_local d"
proof -
  let ?n = "\<lparr>d_prev = None, d_next = None, l_pid = pid, l_uid = uid, l_mask = m\<rparr> :: Listener"
  let ?h = "(lheap d)(p \<mapsto> ?n)"
  have p: "p \<notin> set as" using evd_mem [OF assms(1), of p] assms(2) by auto
  have "dl_list (listener_head d, ?h) as" using assms(1) p by (simp add: evd_ok_def dl_list_frame)
  then obtain h' where h': "dl_insert p (listener_head d, ?h) = Ret (Some p, h')" "dl_list (Some p, h') (p # as)"
    "same_payload ?h h'"
    using dl_insert_list [of "listener_head d" ?h as p ?n] p by auto
  have "listener_of h' p = (pid, uid, m)"
    using payload_listener [OF h'(3), of p ?n] by (simp add: listener_of_def)
  moreover have "listener_of h' a = listener_of (lheap d) a" if a: "a \<in> set as" for a
  proof -
    have "a \<noteq> p" using a p by auto
    obtain n where n: "lheap d a = Some n" using evd_mem [OF assms(1) a] by blast
    then show ?thesis using payload_listener [OF h'(3), of a n] \<open>a \<noteq> p\<close> by (simp add: listener_of_def)
  qed
  ultimately show ?thesis
    using h' assms(1) by (auto simp: insert_listener_def set_list_def evd_ok_def listeners_def Let_def)
qed

lemma remove_listener_ok:
  assumes "evd_ok d (xs @ p # ys)"
  shows "\<exists>d'. remove_listener p d = Ret d' \<and> evd_ok d' (xs @ ys)
     \<and> listeners d' xs = listeners d xs \<and> listeners d' ys = listeners d ys
     \<and> fifo_files d' = (fifo_files d)(fst (listener_of (lheap d) p) := None)
     \<and> drv d' = drv d \<and> drv_local d' = drv_local d"
proof -
  have l: "dl_list (listener_head d, lheap d) (xs @ p # ys)" using assms by (simp add: evd_ok_def)
  then obtain head' h' where r: "dl_remove p (listener_head d, lheap d) = Ret (head', h')"
    "dl_list (head', h') (xs @ ys)" "same_payload (lheap d) h'"
    using dl_remove_list by blast
  obtain n where n: "lheap d p = Some n" using dl_list_node [OF l] by blast
  then have "map_option dnode.more (h' p) = Some (dnode.more n)" using r(3) by (simp add: same_payload_def)
  then obtain n' where n': "h' p = Some n'" by auto
  have pid: "l_pid n' = fst (listener_of (lheap d) p)"
    using payload_listener [OF r(3) n] n' by (simp add: listener_of_def)
  have p: "p \<notin> set xs" "p \<notin> set ys" using l by (auto simp: dl_list_def)
  let ?d = "d\<lparr>listener_head := head', lheap := h'(p := None), listener_count := listener_count d - 1,
    fifo_files := (fifo_files d)(l_pid n' := None)\<rparr>"
  have "remove_listener p d = Ret ?d"
    using r(1) n' by (simp add: remove_listener_def set_list_def heap_get_def Let_def)
  moreover have "evd_ok ?d (xs @ ys)"
    using assms r(2) p by (simp add: evd_ok_def dl_list_frame)
  moreover have "listeners ?d as = listeners d as" if "set as \<subseteq> set xs \<union> set ys" for as
  proof -
    have "listener_of (h'(p := None)) a = listener_of (lheap d) a" if a: "a \<in> set xs \<union> set ys" for a
    proof -
      obtain m where "lheap d a = Some m" using dl_list_mem [OF l, of a] a by auto
      then show ?thesis using payload_listener [OF r(3)] a p by (auto simp: listener_of_def)
    qed
    then show ?thesis using that by (auto simp: listeners_def)
  qed
  ultimately show ?thesis using pid by auto
qed

section \<open>Dispatching an event\<close>

text \<open>The specification: the listeners in order, a process that is gone is dropped and its pipe unlinked.\<close>

fun dispatch :: "libera_event_t \<Rightarrow> (s32 \<times> s32 \<times> u32) list \<Rightarrow> fifos \<Rightarrow> (s32 \<times> s32 \<times> u32) list \<times> fifos" where
  "dispatch ev [] fs = ([], fs)"
| "dispatch ev ((pid, uid, m) # ls) fs =
     (let (fs1, ghost) = (if wants ev m then fifo_send ev pid fs else (fs, False)) in
      if ghost then dispatch ev ls (fs1(pid := None))
      else let (ls', fs2) = dispatch ev ls fs1 in ((pid, uid, m) # ls', fs2))"

lemma evd_ok_cong: "listener_head d' = listener_head d \<Longrightarrow> lheap d' = lheap d \<Longrightarrow> listener_count d' = listener_count d
    \<Longrightarrow> evd_ok d' as = evd_ok d as"
  by (simp add: evd_ok_def)

lemma dispatch_loop_ok:
  assumes "evd_ok d (xs @ ys)"
  shows "\<exists>d' zs. dispatch_loop ev (ptr ys) d = Some (Ret d') \<and> evd_ok d' (xs @ zs)
     \<and> listeners d' xs = listeners d xs
     \<and> (listeners d' zs, fifo_files d') = dispatch ev (listeners d ys) (fifo_files d)
     \<and> drv d' = drv d \<and> drv_local d' = drv_local d"
  using assms
proof (induction ys arbitrary: xs d)
  case Nil
  then show ?case by (intro exI [of _ d] exI [of _ "[]"]) (simp add: dispatch_loop.simps listeners_def)
next
  case (Cons a ys)
  then have l: "dl_list (listener_head d, lheap d) (xs @ a # ys)" by (simp add: evd_ok_def)
  obtain n where n: "lheap d a = Some n" "d_next n = ptr ys" using dl_list_node [OF l] by blast
  have la: "listener_of (lheap d) a = (l_pid n, l_uid n, l_mask n)" using n by (simp add: listener_of_def)
  obtain fs ghost where g: "(if wants ev (l_mask n) then fifo_send ev (l_pid n) (fifo_files d) else (fifo_files d, False)) = (fs, ghost)"
    by fastforce
  let ?d = "d\<lparr>fifo_files := fs\<rparr>"
  have ok: "evd_ok ?d (xs @ a # ys)" using Cons.prems by (simp add: evd_ok_def)
  show ?case
  proof (cases ghost)
    case True
    obtain d1 where d1: "remove_listener a ?d = Ret d1" "evd_ok d1 (xs @ ys)"
      "listeners d1 xs = listeners ?d xs" "listeners d1 ys = listeners ?d ys"
      "fifo_files d1 = fs(l_pid n := None)" "drv d1 = drv d" "drv_local d1 = drv_local d"
      using remove_listener_ok [OF ok] la by auto
    then have loop: "dispatch_loop ev (ptr (a # ys)) d = dispatch_loop ev (ptr ys) d1"
      using n g True by (subst dispatch_loop.simps) simp
    have e: "listeners ?d as = listeners d as" for as by (simp add: listeners_def)
    have dis: "dispatch ev (listeners d (a # ys)) (fifo_files d)
        = dispatch ev (listeners d1 ys) (fifo_files d1)"
      using la g True unfolding d1(4,5) e by (simp add: listeners_def)
    show ?thesis unfolding loop dis using Cons.IH [OF d1(2)] unfolding d1(3,6,7) e .
  next
    case False
    then have loop: "dispatch_loop ev (ptr (a # ys)) d = dispatch_loop ev (ptr ys) ?d"
      using n g by (subst dispatch_loop.simps) simp
    have "evd_ok ?d ((xs @ [a]) @ ys)" using ok by simp
    from Cons.IH [OF this] obtain d' zs where d': "dispatch_loop ev (ptr ys) ?d = Some (Ret d')"
      "evd_ok d' ((xs @ [a]) @ zs)" "listeners d' (xs @ [a]) = listeners ?d (xs @ [a])"
      "(listeners d' zs, fifo_files d') = dispatch ev (listeners ?d ys) fs"
      "drv d' = drv d" "drv_local d' = drv_local d" by auto
    then show ?thesis unfolding loop using la g False
      by (intro exI [of _ d'] exI [of _ "a # zs"]) (auto simp: listeners_def split: prod.splits)
  qed
qed

text \<open>What the specification says, process by process.\<close>

definition gone :: "fifos \<Rightarrow> s32 \<Rightarrow> bool" where
  "gone fs pid = (case fs pid of None \<Rightarrow> True | Some f \<Rightarrow> \<not> np_reader f)"

definition listens :: "libera_event_t \<Rightarrow> s32 \<Rightarrow> s32 \<times> s32 \<times> u32 \<Rightarrow> bool" where
  "listens ev pid l = (fst l = pid \<and> wants ev (snd (snd l)))"

lemma fifo_send_gone: "snd (fifo_send ev pid fs) = gone fs pid"
  by (simp add: fifo_send_def gone_def split: option.split)

lemma fifo_send_frame: "gone (fst (fifo_send ev pid fs)) q = gone fs q"
  by (simp add: fifo_send_def gone_def split: option.split)

lemma dispatch_listeners:
  "fst (dispatch ev ls fs) = filter (\<lambda>(pid, uid, m). \<not> (wants ev m \<and> gone fs pid)) ls"
proof (induction ev ls fs rule: dispatch.induct)
  case (2 ev pid uid m ls fs)
  obtain fs1 g where s: "fifo_send ev pid fs = (fs1, g)" by fastforce
  then have g: "g = gone fs pid" and f: "gone fs1 q = gone fs q" for q
    using fifo_send_gone [of ev pid fs] fifo_send_frame [of ev pid fs q] by simp_all
  show ?case
  proof (cases "wants ev m")
    case True
    show ?thesis
    proof (cases g)
      case True
      let ?fs = "fs1(pid := None)"
      have e: "gone ?fs = gone fs"
      proof
        show "gone ?fs q = gone fs q" for q using f [of q] g True by (simp add: gone_def)
      qed
      have "dispatch ev ((pid, uid, m) # ls) fs = dispatch ev ls ?fs"
        using s \<open>wants ev m\<close> True by simp
      moreover have "fst (dispatch ev ls ?fs) = filter (\<lambda>(pid, uid, m). \<not> (wants ev m \<and> gone ?fs pid)) ls"
        by (rule 2(1) [of "(fs1, g)" fs1 g]) (use s \<open>wants ev m\<close> True in simp_all)
      ultimately show ?thesis using \<open>wants ev m\<close> True g unfolding e by simp
    next
      case False
      then show ?thesis using 2 s \<open>wants ev m\<close> g f by (auto simp: Let_def split: prod.splits)
    qed
  next
    case False
    then show ?thesis using 2 by (auto simp: Let_def split: prod.splits)
  qed
qed simp

lemma listens_simp [simp]: "listens ev pid (q, u, m) = (q = pid \<and> wants ev m)"
  by (simp add: listens_def)

lemma dispatch_content:
  assumes "fs pid = Some f" "np_reader f" "length (filter (listens ev pid) ls) \<le> np_room f"
  shows "\<exists>f'. snd (dispatch ev ls fs) pid = Some f' \<and> np_reader f'
     \<and> np_content f' = np_content f @ replicate (length (filter (listens ev pid) ls)) ev"
  using assms
proof (induction ev ls fs arbitrary: f rule: dispatch.induct)
  case (2 ev q uid m ls fs)
  show ?case
  proof (cases "wants ev m")
    case False
    then show ?thesis using 2 by (auto simp: listens_simp split: prod.splits)
  next
    case w: True
    show ?thesis
    proof (cases "q = pid")
      case True
      let ?f = "f\<lparr>np_room := np_room f - 1, np_content := np_content f @ [ev]\<rparr>"
      have s: "fifo_send ev q fs = (fs(pid \<mapsto> ?f), False)"
        using 2(3-5) w True by (auto simp: fifo_send_def listens_simp)
      have "\<exists>f'. snd (dispatch ev ls (fs(pid \<mapsto> ?f))) pid = Some f' \<and> np_reader f'
         \<and> np_content f' = np_content ?f @ replicate (length (filter (listens ev pid) ls)) ev"
        by (rule 2(2) [of "(fs(pid \<mapsto> ?f), False)" "fs(pid \<mapsto> ?f)" False])
          (use w s True 2(3-5) in \<open>simp_all add: listens_simp\<close>)
      then show ?thesis using s w True
        by (auto simp: listens_simp replicate_append_same split: prod.splits)
    next
      case False
      obtain fs1 g where s: "fifo_send ev q fs = (fs1, g)" by fastforce
      have f1: "fs1 pid = Some f"
        using s False 2(3) by (auto simp: fifo_send_def split: option.splits if_splits)
      let ?fs = "if g then fs1(q := None) else fs1"
      have "dispatch ev ((q, uid, m) # ls) fs =
          (if g then dispatch ev ls ?fs else (let (ls', fs2) = dispatch ev ls ?fs in ((q, uid, m) # ls', fs2)))"
        using w s by simp
      then have e: "snd (dispatch ev ((q, uid, m) # ls) fs) = snd (dispatch ev ls ?fs)"
        by (simp split: prod.split)
      have l: "length (filter (listens ev pid) ls) \<le> np_room f" using 2(5) False by simp
      have "\<exists>f'. snd (dispatch ev ls ?fs) pid = Some f' \<and> np_reader f'
         \<and> np_content f' = np_content f @ replicate (length (filter (listens ev pid) ls)) ev"
      proof (cases g)
        case True
        then show ?thesis unfolding if_P [OF True]
          by (intro 2(1) [of "(fs1, g)" fs1 g]) (use w s f1 False 2(4) l in simp_all)
      next
        case g: False
        then show ?thesis unfolding if_not_P [OF g]
          by (intro 2(2) [of "(fs1, g)" fs1 g]) (use w s f1 2(4) l in simp_all)
      qed
      then show ?thesis unfolding e using False by simp
    qed
  qed
qed simp

section \<open>Events arrive\<close>

lemma evd_ioctl_frame:
  assumes "evd_ioctl env cmd d = Ret (d', r)"
  shows "listener_head d' = listener_head d" "lheap d' = lheap d" "listener_count d' = listener_count d"
    "fifo_files d' = fifo_files d"
  using assms by (auto simp: evd_ioctl_def call_bind_Ret_iff)

text \<open>C7.
  Handling an event always returns (for a post-mortem event if the driver's acquisition returns) and
  keeps the list well formed. Every process with an open pipe that has room gets the event, once for
  each of its listeners that asked for it, after everything it got before; the listeners that asked for
  it but whose process is gone are dropped, all others stay, in their order.
\<close>

theorem event_reaches_listeners:
  assumes "evd_ok d as" "ev_id ev = LIBERA_EVENT_PM \<longrightarrow> (\<exists>d1 r. evd_ioctl env ACQ_PM d = Ret (d1, r))"
  shows "\<exists>d' as'. handle_event env ev d = Ret d' \<and> evd_ok d' as'
     \<and> listeners d' as' = filter (\<lambda>(pid, uid, m). \<not> (wants ev m \<and> gone (fifo_files d) pid)) (listeners d as)
     \<and> (\<forall>pid f. fifo_files d pid = Some f \<longrightarrow> np_reader f \<longrightarrow>
           length (filter (listens ev pid) (listeners d as)) \<le> np_room f \<longrightarrow>
           (\<exists>f'. fifo_files d' pid = Some f' \<and> np_content f' =
              np_content f @ replicate (length (filter (listens ev pid) (listeners d as))) ev))"
proof -
  obtain d1 where d1: "(if ev_id ev = LIBERA_EVENT_PM then call_bind (evd_ioctl env ACQ_PM d) (\<lambda>(d, r). Ret d) else Ret d)
      = Ret d1" "listener_head d1 = listener_head d" "lheap d1 = lheap d" "listener_count d1 = listener_count d"
      "fifo_files d1 = fifo_files d"
    using assms(2) evd_ioctl_frame by (cases "ev_id ev = LIBERA_EVENT_PM") fastforce+
  have ok: "evd_ok d1 ([] @ as)" using assms(1) d1 by (simp add: evd_ok_def)
  have hd: "listener_head d1 = ptr as" using ok by (auto simp: evd_ok_def dl_list_def dest: dl_seg_ptr)
  have l: "listeners d1 as = listeners d as" using d1 by (simp add: listeners_def)
  from dispatch_loop_ok [OF ok, of ev] obtain d' zs where d': "dispatch_loop ev (ptr as) d1 = Some (Ret d')" "evd_ok d' zs"
    "(listeners d' zs, fifo_files d') = dispatch ev (listeners d as) (fifo_files d)"
    unfolding l d1(5) by auto
  have "handle_event env ev d = Ret d'" using d1(1) d'(1) by (simp add: handle_event_def hd returned_def)
  moreover have "listeners d' zs = fst (dispatch ev (listeners d as) (fifo_files d))"
    "fifo_files d' = snd (dispatch ev (listeners d as) (fifo_files d))"
    using d'(3) by (simp_all flip: d'(3))
  ultimately show ?thesis using d'(2) dispatch_content dispatch_listeners by metis
qed

text \<open>A daemon with one listener, process 5, whose pipe is open.\<close>

definition evd1 :: eventd where
  "evd1 = \<lparr>listener_head = Some 10,
     lheap = (\<lambda>_. None)(10 \<mapsto> \<lparr>d_prev = None, d_next = None, l_pid = 5, l_uid = 1, l_mask = 12\<rparr>),
     listener_count = 1, fifo_files = (\<lambda>_. None)(5 \<mapsto> \<lparr>np_reader = True, np_room = 4, np_content = []\<rparr>),
     drv = boot_kernel\<lparr>event := init_event\<lparr>master_filp := Some 3\<rparr>\<rparr>, drv_local = \<lparr>loc_sc_trigVec = 0, loc_mc_trigVec = 0\<rparr>\<rparr>"

definition env3 :: evd_env where
  "env3 = \<lparr>ed_filp = \<lparr>file_id = 3, fmode_read = True, fmode_write = True, o_nonblock = False\<rparr>,
         ed_io = \<lparr>io_signal = False, io_wakes = [], io_uncopied = 0, io_access = True, io_reg = \<lambda>_. 0,
            io_stack = \<lparr>lst = 0, lmt = 0\<rparr>\<rparr>, ed_acq = \<lambda>k. Ret (k, Inr 0)\<rparr>"

lemma evd1_ok: "evd_ok evd1 [10]" "listeners evd1 [10] = [(5, 1, 12)]"
  by (simp_all add: evd1_def evd_ok_def dl_list_def listeners_def listener_of_def)

theorem event_reaches_listeners_witness:
  "\<exists>d' as' f'. handle_event env3 \<lparr>ev_id = 8, ev_param = 2\<rparr> evd1 = Ret d' \<and> listeners d' as' = [(5, 1, 12)]
     \<and> fifo_files d' 5 = Some f' \<and> np_content f' = [\<lparr>ev_id = 8, ev_param = 2\<rparr>]"
proof -
  let ?ev = "\<lparr>ev_id = 8, ev_param = 2\<rparr>"
  have "ev_id ?ev = LIBERA_EVENT_PM \<longrightarrow> (\<exists>d1 r. evd_ioctl env3 ACQ_PM evd1 = Ret (d1, r))"
    by (simp add: LIBERA_EVENT_PM_def)
  from event_reaches_listeners [OF evd1_ok(1) this] obtain d' as' where d': "handle_event env3 ?ev evd1 = Ret d'"
    "listeners d' as' = filter (\<lambda>(pid, uid, m). \<not> (wants ?ev m \<and> gone (fifo_files evd1) pid)) [(5, 1, 12)]"
    "\<forall>pid f. fifo_files evd1 pid = Some f \<longrightarrow> np_reader f \<longrightarrow>
        length (filter (listens ?ev pid) [(5, 1, 12)]) \<le> np_room f \<longrightarrow>
        (\<exists>f'. fifo_files d' pid = Some f' \<and> np_content f' =
           np_content f @ replicate (length (filter (listens ?ev pid) [(5, 1, 12)])) ?ev)"
    unfolding evd1_ok(2) by blast
  have f: "fifo_files evd1 5 = Some \<lparr>np_reader = True, np_room = 4, np_content = []\<rparr>" by (simp add: evd1_def)
  have w: "wants ?ev 12" by (simp add: wants_def)
  have "listeners d' as' = [(5, 1, 12)]" using d'(2) f by (simp add: gone_def)
  moreover have "\<exists>f'. fifo_files d' 5 = Some f' \<and> np_content f' = [?ev]"
    using d'(3) [rule_format, OF f] w by simp
  ultimately show ?thesis using d'(1) by blast
qed

section \<open>The driver's mask follows the listeners\<close>

definition mask_of :: "(s32 \<times> s32 \<times> u32) list \<Rightarrow> u32" where
  "mask_of ls = fold (\<lambda>l acc. acc OR snd (snd l)) ls INIT_MASK"

lemma or_masks_seg:
  "dl_seg h pr p as None \<Longrightarrow> or_masks m h p = Some (Ret (fold (\<lambda>l acc. acc OR snd (snd l)) (map (listener_of h) as) m))"
proof (induction as arbitrary: pr p m)
  case Nil
  then show ?case by (simp add: or_masks.simps)
next
  case (Cons a as)
  then obtain n where "p = Some a" "h a = Some n" "dl_seg h (Some a) (d_next n) as None" by auto
  then show ?case using Cons.IH by (simp add: or_masks.simps listener_of_def)
qed

lemma or_fold_ge: "acc AND fold (\<lambda>l acc. acc OR snd (snd l)) ls acc = (acc :: u32)"
proof (induction ls arbitrary: acc)
  case (Cons l ls)
  let ?F = "fold (\<lambda>l acc. acc OR snd (snd l)) ls (acc OR snd (snd l))"
  have "(acc OR snd (snd l)) AND ?F = acc OR snd (snd l)" by (rule Cons.IH)
  then have "acc AND ((acc OR snd (snd l)) AND ?F) = acc AND (acc OR snd (snd l))" by simp
  then show ?case by (simp add: bit_eq_iff bit_simps) blast
qed simp

lemma mask_of_member: "l \<in> set ls \<Longrightarrow> snd (snd l) AND fold (\<lambda>l acc. acc OR snd (snd l)) ls acc = (snd (snd l) :: u32)"
proof (induction ls arbitrary: acc)
  case (Cons x ls)
  show ?case
  proof (cases "l = x")
    case True
    let ?F = "fold (\<lambda>l acc. acc OR snd (snd l)) ls (acc OR snd (snd x))"
    have "(acc OR snd (snd x)) AND ?F = acc OR snd (snd x)" by (rule or_fold_ge)
    then show ?thesis using True by (simp add: bit_eq_iff bit_simps) blast
  next
    case False
    then show ?thesis using Cons by simp
  qed
qed simp

text \<open>The specification of a request: a known connection changes its mask or leaves, a new one joins in front.\<close>

fun change :: "s32 \<Rightarrow> s32 \<Rightarrow> u32 \<Rightarrow> (s32 \<times> s32 \<times> u32) list \<Rightarrow> (s32 \<times> s32 \<times> u32) list" where
  "change p u m [] = []"
| "change p u m (l # ls) = (if fst l = p \<and> fst (snd l) = u then (p, u, m) # ls else l # change p u m ls)"

fun leave :: "s32 \<Rightarrow> s32 \<Rightarrow> (s32 \<times> s32 \<times> u32) list \<Rightarrow> (s32 \<times> s32 \<times> u32) list" where
  "leave p u [] = []"
| "leave p u (l # ls) = (if fst l = p \<and> fst (snd l) = u then ls else l # leave p u ls)"

definition request_spec :: "Request \<Rightarrow> (s32 \<times> s32 \<times> u32) list \<Rightarrow> (s32 \<times> s32 \<times> u32) list" where
  "request_spec req ls =
     (let p = r_pid req; u = r_uid req; m = r_mask req in
      if m = 0 then leave p u ls
      else if \<exists>l \<in> set ls. fst l = p \<and> fst (snd l) = u then change p u m ls
      else (p, u, m) # ls)"

lemma change_split:
  "\<forall>l \<in> set xs. \<not> (fst l = p \<and> fst (snd l) = u) \<Longrightarrow> change p u m (xs @ (p, u, m0) # ys) = xs @ (p, u, m) # ys"
  by (induction xs) auto

lemma leave_split:
  "\<forall>l \<in> set xs. \<not> (fst l = p \<and> fst (snd l) = u) \<Longrightarrow> leave p u (xs @ (p, u, m0) # ys) = xs @ ys"
  by (induction xs) auto

lemma leave_absent: "\<forall>l \<in> set xs. \<not> (fst l = p \<and> fst (snd l) = u) \<Longrightarrow> leave p u xs = xs"
  by (induction xs) auto

lemma find_listener_ok:
  assumes "evd_ok d as"
  shows "find_listener p u d = Ret (find (\<lambda>a. fst (listener_of (lheap d) a) = p \<and> fst (snd (listener_of (lheap d) a)) = u) as)"
proof -
  have "dl_seg (lheap d) None (listener_head d) as None" using assms by (simp add: evd_ok_def dl_list_def)
  from dl_find_seg [OF this] show ?thesis by (simp add: find_listener_def returned_def listener_of_def)
qed

lemma find_split:
  assumes "find P as = Some a"
  obtains xs ys where "as = xs @ a # ys" "P a" "\<forall>x \<in> set xs. \<not> P x"
  using assms by (induction as arbitrary: thesis) (auto split: if_splits, metis append_Nil empty_iff empty_set, metis append_Cons set_ConsD)

lemma set_mask_ok:
  assumes "evd_ok d (xs @ a # ys)"
  shows "\<exists>h. heap_upd (l_mask_update (\<lambda>_. m)) a (lheap d) = Ret h \<and> evd_ok (d\<lparr>lheap := h\<rparr>) (xs @ a # ys)
    \<and> listeners (d\<lparr>lheap := h\<rparr>) (xs @ a # ys) = listeners d xs @ (fst (listener_of (lheap d) a), fst (snd (listener_of (lheap d) a)), m) # listeners d ys"
proof -
  have l: "dl_list (listener_head d, lheap d) (xs @ a # ys)" using assms by (simp add: evd_ok_def)
  obtain n where n: "lheap d a = Some n" using dl_list_node [OF l] by blast
  let ?h = "(lheap d)(a \<mapsto> n\<lparr>l_mask := m\<rparr>)"
  have a: "a \<notin> set xs" "a \<notin> set ys" using l by (auto simp: dl_list_def)
  have "dl_list (listener_head d, ?h) (xs @ a # ys)"
    using l n a by (auto simp: dl_list_def dl_seg_append dl_seg_frame)
  then show ?thesis using n a assms
    by (auto simp: heap_upd_def evd_ok_def listeners_def listener_of_def intro!: exI [of _ ?h])
qed

lemma join_or_leave_ok:
  assumes "evd_ok d as" "lheap d p = None"
    and "q = find (\<lambda>a. fst (listener_of (lheap d) a) = r_pid req \<and> fst (snd (listener_of (lheap d) a)) = r_uid req) as"
  shows "\<exists>d' as'. join_or_leave (Some p) req q d = Ret (d', None) \<and> evd_ok d' as'
     \<and> listeners d' as' = request_spec req (listeners d as) \<and> drv d' = drv d \<and> drv_local d' = drv_local d"
proof (cases q)
  case None
  then have n: "\<forall>l \<in> set (listeners d as). \<not> (fst l = r_pid req \<and> fst (snd l) = r_uid req)"
    using assms(3) by (auto simp: find_None_iff listeners_def)
  show ?thesis
  proof (cases "r_mask req = 0")
    case True
    then show ?thesis using None assms(1) leave_absent [OF n]
      by (auto simp: join_or_leave_def request_spec_def Let_def)
  next
    case False
    then show ?thesis using None n insert_listener_ok [OF assms(1,2), of "r_pid req" "r_uid req" "r_mask req"]
      by (fastforce simp: join_or_leave_def request_spec_def Let_def)
  qed
next
  case (Some a)
  then have "find (\<lambda>a. fst (listener_of (lheap d) a) = r_pid req \<and> fst (snd (listener_of (lheap d) a)) = r_uid req) as = Some a"
    using assms(3) by simp
  then obtain xs ys where as: "as = xs @ a # ys" and a: "fst (listener_of (lheap d) a) = r_pid req"
    "fst (snd (listener_of (lheap d) a)) = r_uid req"
    and x: "\<forall>x \<in> set xs. \<not> (fst (listener_of (lheap d) x) = r_pid req \<and> fst (snd (listener_of (lheap d) x)) = r_uid req)"
    by (rule find_split) blast
  have xl: "\<forall>l \<in> set (listeners d xs). \<not> (fst l = r_pid req \<and> fst (snd l) = r_uid req)"
    using x by (auto simp: listeners_def)
  obtain m0 where m0: "listener_of (lheap d) a = (r_pid req, r_uid req, m0)" using a by (metis prod.collapse)
  have ls: "listeners d as = listeners d xs @ (r_pid req, r_uid req, m0) # listeners d ys"
    using m0 as by (simp add: listeners_def)
  have ok: "evd_ok d (xs @ a # ys)" using assms(1) as by simp
  show ?thesis
  proof (cases "r_mask req = 0")
    case True
    obtain d' where "remove_listener a d = Ret d'" "evd_ok d' (xs @ ys)" "listeners d' xs = listeners d xs"
      "listeners d' ys = listeners d ys" "drv d' = drv d" "drv_local d' = drv_local d"
      using remove_listener_ok [OF ok] by blast
    then show ?thesis using Some True leave_split [OF xl] ls
      by (auto simp: join_or_leave_def request_spec_def Let_def listeners_def intro!: exI [of _ "xs @ ys"])
  next
    case False
    obtain h where h: "heap_upd (l_mask_update (\<lambda>_. r_mask req)) a (lheap d) = Ret h"
      "evd_ok (d\<lparr>lheap := h\<rparr>) as"
      "listeners (d\<lparr>lheap := h\<rparr>) as = listeners d xs @ (r_pid req, r_uid req, r_mask req) # listeners d ys"
      using set_mask_ok [OF ok, of "r_mask req"] m0 as by auto
    have "request_spec req (listeners d as) = listeners d xs @ (r_pid req, r_uid req, r_mask req) # listeners d ys"
      using change_split [OF xl] ls False by (auto simp: request_spec_def Let_def)
    then show ?thesis using Some False h by (auto simp: join_or_leave_def)
  qed
qed

text \<open>C8.
  A request of a live process always returns 0 (the daemon holds the event device and memory is
  available): the list becomes what the specification says, and the mask of the driver becomes the
  initial mask together with the masks of all listeners. So the driver passes every event some listener
  asked for, and the two events the daemon itself needs.
\<close>

theorem request_updates_mask:
  assumes "evd_ok d as" "alive (r_pid req)" "lheap d p = None"
    and "io_access (ed_io env)" "master_filp (event (drv d)) = Some (file_id (ed_filp env))"
  shows "\<exists>d' as'. handle_request env alive (Some p) req d = Ret (d', Inr 0) \<and> evd_ok d' as'
     \<and> listeners d' as' = request_spec req (listeners d as)
     \<and> event_mask (drv d') = mask_of (listeners d' as')
     \<and> (\<forall>(pid, uid, m) \<in> set (listeners d' as'). m AND event_mask (drv d') = m)
     \<and> INIT_MASK AND event_mask (drv d') = INIT_MASK"
proof -
  let ?q = "find (\<lambda>a. fst (listener_of (lheap d) a) = r_pid req \<and> fst (snd (listener_of (lheap d) a)) = r_uid req) as"
  obtain d1 as' where j: "join_or_leave (Some p) req ?q d = Ret (d1, None)" "evd_ok d1 as'"
    "listeners d1 as' = request_spec req (listeners d as)" "drv d1 = drv d" "drv_local d1 = drv_local d"
    using join_or_leave_ok [OF assms(1,3) refl] by blast
  have m: "or_masks INIT_MASK (lheap d1) (listener_head d1) = Some (Ret (mask_of (listeners d1 as')))"
  proof -
    have "dl_seg (lheap d1) None (listener_head d1) as' None" using j(2) by (simp add: evd_ok_def dl_list_def)
    from or_masks_seg [OF this] show ?thesis by (simp add: mask_of_def listeners_def)
  qed
  let ?d = "d1\<lparr>drv := (drv d)\<lparr>event_mask := mask_of (listeners d1 as')\<rparr>\<rparr>"
  have "handle_request env alive (Some p) req d = Ret (?d, Inr 0)"
    using assms(2,4,5) j m
    by (simp add: handle_request_def find_listener_ok [OF assms(1)] returned_def evd_ioctl_def
        libera_event_ioctl_def copy_ret_def)
  moreover have "evd_ok ?d as'" "listeners ?d as' = listeners d1 as'"
    using j(2) by (simp_all add: evd_ok_def listeners_def)
  ultimately show ?thesis using j(3) mask_of_member or_fold_ge [of INIT_MASK]
    by (intro exI [of _ ?d] exI [of _ as']) (fastforce simp: mask_of_def)
qed

theorem request_updates_mask_witness:
  "\<exists>d' as'. handle_request env3 (\<lambda>_. True) (Some 11) \<lparr>r_pid = 6, r_uid = 2, r_mask = 64\<rparr> evd1 = Ret (d', Inr 0)
     \<and> listeners d' as' = [(6, 2, 64), (5, 1, 12)] \<and> event_mask (drv d') = 92"
proof -
  have r: "request_spec \<lparr>r_pid = 6, r_uid = 2, r_mask = 64\<rparr> [(5, 1, 12)] = [(6, 2, 64), (5, 1, 12)]"
    by (simp add: request_spec_def)
  have m: "mask_of [(6, 2, 64), (5, 1, 12)] = 92"
    by (simp add: mask_of_def INIT_MASK_def LIBERA_EVENT_PM_def LIBERA_EVENT_INTERLOCK_def)
  have h: "lheap evd1 11 = None" and f: "master_filp (event (drv evd1)) = Some (file_id (ed_filp env3))"
    and a: "io_access (ed_io env3)"
    by (simp_all add: evd1_def env3_def)
  from request_updates_mask [OF evd1_ok(1) _ h a f, of "\<lambda>_. True" "\<lparr>r_pid = 6, r_uid = 2, r_mask = 64\<rparr>"]
  show ?thesis unfolding evd1_ok(2) r by (auto simp: m)
qed

section \<open>The end of the daemon\<close>

text \<open>Releasing the list ends, frees every node and unlinks the pipe of every process.\<close>

lemma release_loop_ok:
  assumes "evd_ok d as"
  shows "\<exists>d'. release_loop d = Some (Ret d') \<and> evd_ok d' [] \<and> drv d' = drv d
    \<and> (\<forall>pid. fifo_files d' pid = (if pid \<in> fst ` set (listeners d as) then None else fifo_files d pid))"
  using assms
proof (induction as arbitrary: d)
  case Nil
  then have "listener_head d = None" by (simp add: evd_ok_def dl_list_def)
  then show ?case using Nil by (simp add: release_loop.simps listeners_def)
next
  case (Cons a as)
  have ok: "evd_ok d ([] @ a # as)" using Cons.prems by simp
  then have h: "listener_head d = Some a" by (simp add: evd_ok_def dl_list_def)
  obtain d1 where d1: "remove_listener a d = Ret d1" "evd_ok d1 as" "listeners d1 as = listeners d as" "drv d1 = drv d"
    "fifo_files d1 = (fifo_files d)(fst (listener_of (lheap d) a) := None)"
    using remove_listener_ok [OF ok] by auto
  have "release_loop d = release_loop d1" using h d1(1) by (subst release_loop.simps) simp
  then show ?case using Cons.IH [OF d1(2)] d1(3-5) by (auto simp: listeners_def)
qed



end
