(* ===== verification/Cspi_Cordic.thy ===== *)
theory Cspi_Cordic
  imports Complex_Main Libera_Prelude
begin

text \<open>
  The amplitude of a raw sample (\<open>cordic.c\<close>): twelve rotations with shifts and additions on 32-bit
  integers and a correction of the gain on 64 bits; and how far the result is from the true amplitude.
\<close>

section \<open>The algorithm\<close>

definition CORDIC_MAXLEVEL :: nat where "CORDIC_MAXLEVEL = 11"
definition CORDIC_GAIN64 :: s64 where "CORDIC_GAIN64 = 2608131600"

definition cordic_correct :: "s32 \<Rightarrow> s32" where
  "cordic_correct iVx = ucast (signed_drop_bit 32 (CORDIC_GAIN64 * scast iVx))"

text \<open>The first rotation, by 90 degrees, brings the vector into the right half plane.\<close>

definition cordic_quadrant :: "s32 \<times> s32 \<Rightarrow> s32 \<times> s32" where
  "cordic_quadrant v =
     (case v of (I, Q) \<Rightarrow>
        if I <s 0 then (if 0 <s Q then (Q, - I) else (- Q, I)) else (I, Q))"

definition cordic_step :: "nat \<Rightarrow> s32 \<times> s32 \<Rightarrow> s32 \<times> s32" where
  "cordic_step L v =
     (case v of (I, Q) \<Rightarrow>
        if 0 \<le>s Q then (I + signed_drop_bit L Q, Q - signed_drop_bit L I)
        else (I - signed_drop_bit L Q, Q + signed_drop_bit L I))"

definition cordic_amp :: "s32 \<Rightarrow> s32 \<Rightarrow> s32" where
  "cordic_amp I Q = cordic_correct (fst (fold cordic_step [0..<CORDIC_MAXLEVEL + 1] (cordic_quadrant (I, Q))))"

section \<open>The rotations on integers\<close>

text \<open>The same without a width; a shift rounds down.\<close>

definition icordic_step :: "nat \<Rightarrow> int \<times> int \<Rightarrow> int \<times> int" where
  "icordic_step L v =
     (case v of (I, Q) \<Rightarrow>
        if 0 \<le> Q then (I + Q div 2 ^ L, Q - I div 2 ^ L) else (I - Q div 2 ^ L, Q + I div 2 ^ L))"

definition amplitude :: "int \<times> int \<Rightarrow> real" where
  "amplitude v = sqrt ((real_of_int (fst v))\<^sup>2 + (real_of_int (snd v))\<^sup>2)"

lemma amplitude_ge: "\<bar>real_of_int (fst v)\<bar> \<le> amplitude v" "\<bar>real_of_int (snd v)\<bar> \<le> amplitude v"
  by (simp_all add: amplitude_def real_le_rsqrt)

text \<open>The rounding error of a shift.\<close>

lemma shift_error: "\<exists>e. 0 \<le> e \<and> e < 1 \<and> real_of_int (x div 2 ^ L) = real_of_int x / 2 ^ L - e"
proof -
  let ?e = "real_of_int (x mod 2 ^ L) / 2 ^ L"
  have d: "real_of_int x = real_of_int (x div 2 ^ L) * 2 ^ L + real_of_int (x mod 2 ^ L)"
    using arg_cong [where f = real_of_int, OF div_mult_mod_eq [of x "2 ^ L", symmetric]]
    by (simp only: of_int_add of_int_mult of_int_power of_int_numeral)
  have "x mod 2 ^ L < 2 ^ L" by simp
  then have "real_of_int (x mod 2 ^ L) < 2 ^ L" by (metis of_int_less_iff of_int_numeral of_int_power)
  then have "0 \<le> ?e" "?e < 1" by simp_all
  moreover have "real_of_int (x div 2 ^ L) = real_of_int x / 2 ^ L - ?e"
    unfolding d by (simp add: field_simps)
  ultimately show ?thesis by blast
qed

lemma sqrt_two_le: "sqrt 2 \<le> 3 / 2"
  by (rule real_le_lsqrt) (simp_all add: power2_eq_square)

text \<open>One step multiplies the amplitude by \<open>sqrt (1 + 4^-L)\<close>, up to the rounding of two shifts.\<close>

lemma step_amplitude:
  "\<bar>amplitude (icordic_step L v) - sqrt (1 + 1 / 4 ^ L) * amplitude v\<bar> \<le> 3 / 2"
proof -
  obtain I Q where v: "v = (I, Q)" by fastforce
  obtain e where e: "0 \<le> e" "e < 1" "real_of_int (Q div 2 ^ L) = real_of_int Q / 2 ^ L - e" using shift_error by blast
  obtain f where f: "0 \<le> f" "f < 1" "real_of_int (I div 2 ^ L) = real_of_int I / 2 ^ L - f" using shift_error by blast
  define s where "s = (if 0 \<le> Q then 1 else - 1 :: real)"
  let ?i = "real_of_int I" and ?q = "real_of_int Q"
  have r: "real_of_int (fst (icordic_step L v)) = (?i + s * ?q / 2 ^ L) + (- s * e)"
    "real_of_int (snd (icordic_step L v)) = (?q - s * ?i / 2 ^ L) + s * f"
    by (simp_all add: v icordic_step_def s_def e(3) f(3) field_simps)
  have sq: "s\<^sup>2 = 1" by (simp add: s_def)
  have p4: "((2 :: real) ^ L)\<^sup>2 = 4 ^ L" by (simp add: power2_eq_square flip: power_mult_distrib)
  have exact: "sqrt ((?i + s * ?q / 2 ^ L)\<^sup>2 + (?q - s * ?i / 2 ^ L)\<^sup>2) = sqrt (1 + 1 / 4 ^ L) * amplitude v"
  proof -
    have "(?i + s * ?q / 2 ^ L)\<^sup>2 + (?q - s * ?i / 2 ^ L)\<^sup>2 = (?i\<^sup>2 + ?q\<^sup>2) * (1 + s\<^sup>2 / (2 ^ L)\<^sup>2)"
      by (simp add: power2_eq_square field_simps)
    then show ?thesis unfolding sq p4 by (simp add: amplitude_def v real_sqrt_mult mult.commute)
  qed
  have "(- s * e)\<^sup>2 \<le> 1" "(s * f)\<^sup>2 \<le> 1"
    using e f sq by (simp_all add: power_mult_distrib power_le_one)
  then have "(- s * e)\<^sup>2 + (s * f)\<^sup>2 \<le> 2" by linarith
  then have err: "sqrt ((- s * e)\<^sup>2 + (s * f)\<^sup>2) \<le> 3 / 2"
    using sqrt_two_le by (meson order_trans real_sqrt_le_mono)
  let ?a = "?i + s * ?q / 2 ^ L" and ?b = "?q - s * ?i / 2 ^ L" and ?c = "- s * e" and ?d = "s * f"
  have "sqrt ((?a + ?c)\<^sup>2 + (?b + ?d)\<^sup>2) \<le> sqrt (?a\<^sup>2 + ?b\<^sup>2) + sqrt (?c\<^sup>2 + ?d\<^sup>2)"
    by (rule real_sqrt_sum_squares_triangle_ineq)
  moreover have "sqrt (?a\<^sup>2 + ?b\<^sup>2) \<le> sqrt ((?a + ?c)\<^sup>2 + (?b + ?d)\<^sup>2) + sqrt (?c\<^sup>2 + ?d\<^sup>2)"
    using real_sqrt_sum_squares_triangle_ineq [of "?a + ?c" "- ?c" "?b + ?d" "- ?d"] by simp
  ultimately show ?thesis using err exact unfolding amplitude_def r by linarith
qed

section \<open>Error of the whole rotation\<close>

definition gain :: "nat \<Rightarrow> real" where
  "gain n = sqrt (\<Prod>j<n. 1 + 1 / 4 ^ j)"

lemma gain_0 [simp]: "gain 0 = 1"
  by (simp add: gain_def)

lemma gain_Suc: "gain (Suc n) = sqrt (1 + 1 / 4 ^ n) * gain n"
  by (simp add: gain_def real_sqrt_mult mult.commute)

lemma gain_ge_1: "1 \<le> gain n"
proof (induction n)
  case (Suc n)
  have "1 \<le> sqrt (1 + 1 / 4 ^ n)" by simp
  then have "1 * 1 \<le> sqrt (1 + 1 / 4 ^ n) * gain n" using Suc.IH by (intro mult_mono) simp_all
  then show ?case by (simp add: gain_Suc)
qed simp

definition rotated :: "nat \<Rightarrow> int \<times> int \<Rightarrow> int \<times> int" where
  "rotated n v = fold icordic_step [0..<n] v"

lemma rotated_0 [simp]: "rotated 0 v = v"
  and rotated_Suc: "rotated (Suc n) v = icordic_step n (rotated n v)"
  by (simp_all add: rotated_def)

text \<open>The error added by a step is never more than \<open>3/2\<close> of the gain already reached.\<close>

lemma rotated_amplitude:
  "\<bar>amplitude (rotated n v) - gain n * amplitude v\<bar> \<le> gain n * (3 / 2 * n)"
proof (induction n)
  case (Suc n)
  let ?g = "sqrt (1 + 1 / 4 ^ n)" and ?a = "amplitude (rotated n v)"
  have "\<bar>?g * ?a - ?g * (gain n * amplitude v)\<bar> \<le> ?g * (gain n * (3 / 2 * n))"
    using mult_left_mono [OF Suc.IH, of ?g] by (simp add: abs_mult flip: right_diff_distrib)
  moreover have "\<bar>amplitude (rotated (Suc n) v) - ?g * ?a\<bar> \<le> 3 / 2"
    unfolding rotated_Suc by (rule step_amplitude)
  moreover have "3 / 2 \<le> gain (Suc n) * (3 / 2)"
    using gain_ge_1 [of "Suc n"] by simp
  ultimately have "\<bar>amplitude (rotated (Suc n) v) - ?g * (gain n * amplitude v)\<bar>
      \<le> ?g * (gain n * (3 / 2 * n)) + gain (Suc n) * (3 / 2)" by linarith
  then show ?case unfolding gain_Suc by (simp add: algebra_simps)
qed simp

text \<open>The phase: after step \<open>L\<close> the vector is within \<open>2^-L\<close> of the real axis, up to rounding.\<close>

lemma icordic_step_pos: "0 \<le> fst v \<Longrightarrow> fst v \<le> fst (icordic_step L v)"
proof -
  assume "0 \<le> fst v"
  have "Q div 2 ^ L < 0" if "Q < 0" for Q :: int using that by (rule div_neg_pos_less0) simp
  then show ?thesis by (cases v) (auto simp: icordic_step_def pos_imp_zdiv_nonneg_iff less_imp_le)
qed

lemma rotated_pos: "0 \<le> fst v \<Longrightarrow> 0 \<le> fst (rotated n v)"
  by (induction n) (auto simp: rotated_Suc intro: order_trans [OF _ icordic_step_pos])

lemma icordic_step_phase:
  assumes "0 \<le> fst v" "\<bar>real_of_int (snd v)\<bar> \<le> real_of_int (fst v) / 2 ^ L + c" "0 \<le> c"
  shows "\<bar>real_of_int (snd (icordic_step (Suc L) v))\<bar> \<le> real_of_int (fst (icordic_step (Suc L) v)) / 2 ^ Suc L + (c + 1)"
proof -
  obtain I Q where v: "v = (I, Q)" by fastforce
  obtain f where f: "0 \<le> f" "f < 1" "real_of_int (I div 2 ^ Suc L) = real_of_int I / 2 ^ Suc L - f"
    using shift_error by blast
  have h: "real_of_int I / 2 ^ L = 2 * (real_of_int I / 2 ^ Suc L)" by simp
  have "real_of_int I \<le> real_of_int (fst (icordic_step (Suc L) v))"
    using icordic_step_pos [of v "Suc L"] assms(1) by (simp add: v)
  then have m: "real_of_int I / 2 ^ Suc L \<le> real_of_int (fst (icordic_step (Suc L) v)) / 2 ^ Suc L"
    by (rule divide_right_mono) simp
  have p: "0 \<le> real_of_int I / 2 ^ Suc L" using assms(1) by (simp add: v)
  have q: "\<bar>real_of_int Q\<bar> \<le> 2 * (real_of_int I / 2 ^ Suc L) + c" using assms(2) unfolding v fst_conv snd_conv h .
  have s: "real_of_int (snd (icordic_step (Suc L) v))
      = (if 0 \<le> Q then real_of_int Q - (real_of_int I / 2 ^ Suc L - f) else real_of_int Q + (real_of_int I / 2 ^ Suc L - f))"
    unfolding f(3) [symmetric] of_int_diff [symmetric] of_int_add [symmetric] v icordic_step_def prod.case
    by (cases "0 \<le> Q") (simp_all only: if_True if_False snd_conv)
  have "\<bar>real_of_int (snd (icordic_step (Suc L) v))\<bar> \<le> real_of_int I / 2 ^ Suc L + (c + 1)"
  proof (cases "0 \<le> Q")
    case True
    then have "0 \<le> real_of_int Q" by simp
    then show ?thesis unfolding s if_P [OF True] using q f(1,2) p assms(3) by linarith
  next
    case False
    then have "real_of_int Q < 0" by simp
    then show ?thesis unfolding s if_not_P [OF False] using q f(1,2) p assms(3) by linarith
  qed
  then show ?thesis using m by linarith
qed

lemma rotated_phase:
  assumes "0 \<le> fst v"
  shows "\<bar>real_of_int (snd (rotated (Suc n) v))\<bar> \<le> real_of_int (fst (rotated (Suc n) v)) / 2 ^ n + n"
proof (induction n)
  case 0
  show ?case using assms by (cases v) (auto simp: rotated_Suc icordic_step_def abs_if)
next
  case (Suc n)
  have "0 \<le> fst (rotated (Suc n) v)" using assms by (rule rotated_pos)
  from icordic_step_phase [OF this Suc.IH] show ?case unfolding rotated_Suc [of "Suc n"] by simp
qed

section \<open>The rotations on 32 bits\<close>

definition ival :: "s32 \<times> s32 \<Rightarrow> int \<times> int" where
  "ival v = (sint (fst v), sint (snd v))"

lemma sint_of_int_s32:
  assumes "- 2147483648 \<le> i" "i < 2147483648"
  shows "sint (of_int i :: s32) = i"
  using assms by (simp add: signed_of_int signed_take_bit_int_eq_self)

lemma sint_plus_s32:
  "- 2147483648 \<le> sint x + sint y \<Longrightarrow> sint x + sint y < 2147483648 \<Longrightarrow> sint (x + y) = sint x + sint (y :: s32)"
  using sint_of_int_s32 [of "sint x + sint y"] by simp

lemma sint_minus_s32:
  "- 2147483648 \<le> sint x - sint y \<Longrightarrow> sint x - sint y < 2147483648 \<Longrightarrow> sint (x - y) = sint x - sint (y :: s32)"
  using sint_of_int_s32 [of "sint x - sint y"] by simp

lemma sint_uminus_s32: "- 2147483648 < sint x \<Longrightarrow> sint (- x) = - sint (x :: s32)"
  using sint_of_int_s32 [of "- sint x"] sint_lt [of x] by simp

lemma sint_shift: "sint (signed_drop_bit n x) = sint (x :: s32) div 2 ^ n"
  by (simp add: sint_signed_drop_bit_eq drop_bit_eq_div)

lemma amplitude_range:
  assumes "amplitude v < 2147483648"
  shows "- 2147483648 < fst v" "fst v < 2147483648" "- 2147483648 < snd v" "snd v < 2147483648"
proof -
  have "\<bar>real_of_int (fst v)\<bar> < 2147483648" "\<bar>real_of_int (snd v)\<bar> < 2147483648"
    using assms amplitude_ge [of v] by linarith+
  then have "real_of_int \<bar>fst v\<bar> < real_of_int 2147483648" "real_of_int \<bar>snd v\<bar> < real_of_int 2147483648" by simp_all
  then have "\<bar>fst v\<bar> < 2147483648" "\<bar>snd v\<bar> < 2147483648" unfolding of_int_less_iff .
  then show "- 2147483648 < fst v" "fst v < 2147483648" "- 2147483648 < snd v" "snd v < 2147483648" by linarith+
qed

lemma cordic_step_ival:
  assumes "amplitude (icordic_step L (ival v)) < 2147483648"
  shows "ival (cordic_step L v) = icordic_step L (ival v)"
proof -
  obtain I Q where v: "v = (I, Q)" by fastforce
  show ?thesis
    using amplitude_range [OF assms]
    by (cases "0 \<le> sint Q")
       (auto simp: v ival_def icordic_step_def cordic_step_def word_sle_eq sint_plus_s32 sint_minus_s32 sint_shift)
qed

lemma cordic_quadrant_ival:
  assumes "amplitude (ival v) < 2147483648"
  shows "amplitude (ival (cordic_quadrant v)) = amplitude (ival v)" "0 \<le> fst (ival (cordic_quadrant v))"
proof -
  obtain I Q where v: "v = (I, Q)" by fastforce
  show "amplitude (ival (cordic_quadrant v)) = amplitude (ival v)" "0 \<le> fst (ival (cordic_quadrant v))"
    using amplitude_range [OF assms]
    by (auto simp: v ival_def cordic_quadrant_def amplitude_def word_sless_alt sint_uminus_s32 add.commute simp del: of_int_sint)
qed

section \<open>The gain and its correction\<close>

lemma gain_mono: "m \<le> n \<Longrightarrow> gain m \<le> gain n"
proof (induction rule: dec_induct)
  case (step k)
  have "1 * gain k \<le> sqrt (1 + 1 / 4 ^ k) * gain k"
    using gain_ge_1 [of k] by (intro mult_right_mono) simp_all
  with step.IH show ?case by (simp add: gain_Suc)
qed simp

lemma gain_12_sq: "(gain 12)\<^sup>2 = (\<Prod>j<12. 1 + 1 / 4 ^ j)"
  unfolding gain_def by (rule real_sqrt_pow2) (rule prod_nonneg, simp)

lemma prod_12: "(\<Prod>j<12. f j) = f 0 * f 1 * f 2 * f 3 * f 4 * f 5 * f 6 * f 7 * f 8 * f 9 * f 10 * f (11 :: nat)"
  for f :: "nat \<Rightarrow> real"
  by (simp add: eval_nat_numeral lessThan_Suc mult_ac)

lemma gain_12_bounds:
  "(1 - 1 / 2 ^ 31) * (4294967296 / 2608131600) \<le> gain 12"
  "gain 12 \<le> (1 + 1 / 2 ^ 31) * (4294967296 / 2608131600)"
proof -
  have "((1 - 1 / 2 ^ 31) * (4294967296 / 2608131600))\<^sup>2 \<le> (gain 12)\<^sup>2"
    unfolding gain_12_sq prod_12 by (simp add: power2_eq_square)
  moreover have "(gain 12)\<^sup>2 \<le> ((1 + 1 / 2 ^ 31) * (4294967296 / 2608131600))\<^sup>2"
    unfolding gain_12_sq prod_12 by (simp add: power2_eq_square)
  moreover have "0 \<le> gain 12" using gain_ge_1 [of 12] by simp
  ultimately show "(1 - 1 / 2 ^ 31) * (4294967296 / 2608131600) \<le> gain 12"
    "gain 12 \<le> (1 + 1 / 2 ^ 31) * (4294967296 / 2608131600)"
    by (auto elim!: power2_le_imp_le)
qed

section \<open>Accuracy\<close>

text \<open>Within the input range no rotation overflows, so the words follow the integers.\<close>

lemma rotated_no_overflow:
  assumes "amplitude v \<le> 2 ^ 30" "n \<le> 12"
  shows "amplitude (rotated n v) < 2147483648"
proof -
  have a: "amplitude (rotated n v) \<le> gain n * amplitude v + gain n * (3 / 2 * n)"
    using rotated_amplitude [of n v] by linarith
  have b: "gain n * amplitude v + gain n * (3 / 2 * n) \<le> gain 12 * (2 ^ 30 + 18)"
    using gain_mono [OF assms(2)] gain_ge_1 [of n] assms
    by (simp only: distrib_left [symmetric], intro mult_mono) (simp_all add: amplitude_def)
  have "gain 12 * (2 ^ 30 + 18) < 2147483648"
    using gain_12_bounds(2) by (simp add: field_simps)
  with a b show ?thesis by linarith
qed

lemma fold_cordic_ival:
  assumes "amplitude (ival v) \<le> 2 ^ 30" "n \<le> 12"
  shows "ival (fold cordic_step [0..<n] v) = rotated n (ival v)"
  using assms(2)
proof (induction n)
  case (Suc n)
  then have i: "ival (fold cordic_step [0..<n] v) = rotated n (ival v)" by simp
  have "amplitude (icordic_step n (rotated n (ival v))) < 2147483648"
    using rotated_no_overflow [OF assms(1) Suc.prems] by (simp add: rotated_Suc)
  then show ?case using cordic_step_ival [of n "fold cordic_step [0..<n] v"] by (simp add: i rotated_Suc)
qed simp

lemma ucast_s32: "(ucast y :: s32) = of_int (sint (y :: s64))"
  by (rule bit_word_eqI) (auto simp: bit_simps)

lemma cordic_correct_value:
  assumes "0 \<le> sint x"
  shows "sint (cordic_correct x) = 2608131600 * sint x div 4294967296"
proof -
  have l: "sint x < 2147483648" using sint_lt [of x] by simp
  have w: "CORDIC_GAIN64 * scast x = (of_int (2608131600 * sint x) :: s64)"
    by (simp add: CORDIC_GAIN64_def)
  have p: "sint (CORDIC_GAIN64 * scast x) = 2608131600 * sint x"
    by (rule sint_of_small_int [OF w]) (use assms l in linarith)+
  have d: "sint (signed_drop_bit 32 (CORDIC_GAIN64 * scast x)) = 2608131600 * sint x div 4294967296"
    unfolding sint_signed_drop_bit_eq drop_bit_eq_div p by simp
  show ?thesis unfolding cordic_correct_def ucast_s32 d
    by (rule sint_of_int_s32) (use assms l in simp_all)
qed

text \<open>What is left of the other component bounds how far the first one is from the amplitude.\<close>

lemma amplitude_near_axis:
  assumes "0 \<le> fst v" "\<bar>real_of_int (snd v)\<bar> \<le> real_of_int (fst v) / 2 ^ 11 + 11"
  shows "amplitude v \<le> real_of_int (fst v) * (1 + 1 / 2 ^ 23) + 11"
proof -
  let ?i = "real_of_int (fst v)"
  have i: "0 \<le> ?i" using assms(1) by simp
  have "amplitude v \<le> sqrt (?i\<^sup>2 + (?i / 2 ^ 11 + 11)\<^sup>2)"
    unfolding amplitude_def using power_mono [OF assms(2), of 2] by simp
  also have "\<dots> \<le> sqrt (?i\<^sup>2 + (?i / 2 ^ 11)\<^sup>2) + sqrt (0\<^sup>2 + 11\<^sup>2)"
    using real_sqrt_sum_squares_triangle_ineq [of ?i 0 "?i / 2 ^ 11" 11] by simp
  also have "sqrt (?i\<^sup>2 + (?i / 2 ^ 11)\<^sup>2) \<le> ?i * (1 + 1 / 2 ^ 23)"
    using i by (intro real_le_lsqrt) (simp_all add: power2_eq_square field_simps)
  finally show ?thesis by simp
qed

text \<open>What the function returns, in terms of the integer rotations.\<close>

lemma amplitude_le_2_30:
  assumes "(sint I)\<^sup>2 + (sint Q)\<^sup>2 \<le> 2 ^ 60"
  shows "amplitude (ival (I, Q)) \<le> 2 ^ 30"
proof -
  have "real_of_int ((sint I)\<^sup>2 + (sint Q)\<^sup>2) \<le> real_of_int (2 ^ 60)"
    using assms unfolding of_int_le_iff .
  then show ?thesis
    unfolding ival_def amplitude_def by (intro real_le_lsqrt) (simp_all del: of_int_sint)
qed

lemma cordic_amp_value:
  assumes "(sint I)\<^sup>2 + (sint Q)\<^sup>2 \<le> 2 ^ 60"
  defines "v \<equiv> ival (cordic_quadrant (I, Q))"
  shows "amplitude v = amplitude (ival (I, Q))" "0 \<le> fst v" "0 \<le> fst (rotated 12 v)"
    "sint (cordic_amp I Q) = 2608131600 * fst (rotated 12 v) div 4294967296"
proof -
  note M30 = amplitude_le_2_30 [OF assms(1)]
  show v: "amplitude v = amplitude (ival (I, Q))" "0 \<le> fst v"
    using cordic_quadrant_ival [of "(I, Q)"] M30 unfolding v_def by simp_all
  show r: "0 \<le> fst (rotated 12 v)" using rotated_pos [OF v(2), of 12] .
  define x where "x = fst (fold cordic_step [0..<12] (cordic_quadrant (I, Q)))"
  have "ival (fold cordic_step [0..<12] (cordic_quadrant (I, Q))) = rotated 12 v"
    using fold_cordic_ival [of "cordic_quadrant (I, Q)" 12] v(1) M30 by (simp add: v_def)
  then have xv: "sint x = fst (rotated 12 v)" by (metis fst_conv ival_def x_def)
  show "sint (cordic_amp I Q) = 2608131600 * fst (rotated 12 v) div 4294967296"
    using cordic_correct_value [of x] r xv by (simp add: x_def cordic_amp_def CORDIC_MAXLEVEL_def)
qed

lemma cordic_amp_nonneg:
  assumes "(sint I)\<^sup>2 + (sint Q)\<^sup>2 \<le> 2 ^ 60"
  shows "0 \<le> sint (cordic_amp I Q)"
  using cordic_amp_value(3,4) [OF assms] by simp

text \<open>C1. The amplitude of a sample whose components satisfy I^2 + Q^2 <= 2^60 is computed without
  overflow on 32 bits (64 for the correction of the gain) and is off by at most 19 above and by 27 plus
  one part in 2^22 below: twelve rotations leave a phase of 2^-11, and each rounds two shifts.\<close>

theorem cordic_accuracy:
  assumes "(sint I)\<^sup>2 + (sint Q)\<^sup>2 \<le> 2 ^ 60"
  shows "amplitude (sint I, sint Q) * (1 - 1 / 2 ^ 22) - 27 \<le> real_of_int (sint (cordic_amp I Q))
    \<and> real_of_int (sint (cordic_amp I Q)) \<le> amplitude (sint I, sint Q) + 19"
proof -
  define M where "M = amplitude (sint I, sint Q)"
  define v where "v = ival (cordic_quadrant (I, Q))"
  have ivM: "M = amplitude (ival (I, Q))" by (simp add: M_def ival_def)
  have M30: "M \<le> 2 ^ 30" using amplitude_le_2_30 [OF assms] unfolding ivM .
  have M0: "0 \<le> M" by (simp add: M_def amplitude_def)
  note val = cordic_amp_value [OF assms, folded v_def ivM]
  note v = val(1,2)
  have ph: "\<bar>real_of_int (snd (rotated 12 v))\<bar> \<le> real_of_int (fst (rotated 12 v)) / 2 ^ 11 + 11"
    using rotated_phase [OF v(2), of 11] by (simp add: numeral_eq_Suc)
  define x where "x = fst (rotated 12 v)"
  define X where "X = real_of_int x"
  define A where "A = amplitude (rotated 12 v)"
  have A: "gain 12 * M - gain 12 * 18 \<le> A" "A \<le> gain 12 * M + gain 12 * 18"
    using rotated_amplitude [of 12 v] unfolding A_def v(1) by (simp_all add: abs_le_iff)
  have AX: "X \<le> A" "A \<le> X * (1 + 1 / 2 ^ 23) + 11"
    using amplitude_ge(1) [of "rotated 12 v"] amplitude_near_axis [OF _ ph] rotated_pos [OF v(2), of 12]
    unfolding X_def A_def x_def by simp_all
  define r where "r = sint (cordic_amp I Q)"
  have "r = 2608131600 * x div 4294967296" using val(4) by (simp add: r_def x_def)
  then have "r * 4294967296 \<le> 2608131600 * x" "2608131600 * x < r * 4294967296 + 4294967296"
    by linarith+
  then have r: "real_of_int r * 4294967296 \<le> 2608131600 * X" "2608131600 * X < real_of_int r * 4294967296 + 4294967296"
    unfolding X_def by linarith+
  have up: "gain 12 * (M + 18) \<le> (1 + 1 / 2 ^ 31) * (4294967296 / 2608131600) * (M + 18)"
    using gain_12_bounds(2) M0 by (intro mult_right_mono) simp_all
  have "X \<le> (1 + 1 / 2 ^ 31) * (4294967296 / 2608131600) * (M + 18)"
    using AX(1) A(2) up by (simp add: distrib_left)
  then have hi: "real_of_int r \<le> M + 19" using r(1) M30 by (simp add: field_simps)
  have lo: "M * (1 - 1 / 2 ^ 22) - 27 \<le> real_of_int r"
  proof (cases "M \<le> 18")
    case True
    have "0 \<le> X" using val(3) unfolding X_def x_def by simp
    then have "- 1 < real_of_int r" using r(2) by linarith
    then show ?thesis using True M0 by (simp add: field_simps)
  next
    case False
    have "(1 - 1 / 2 ^ 31) * (4294967296 / 2608131600) * (M - 18) \<le> gain 12 * (M - 18)"
      using gain_12_bounds(1) False by (intro mult_right_mono) simp_all
    then have "(1 - 1 / 2 ^ 31) * (4294967296 / 2608131600) * (M - 18) \<le> X * (1 + 1 / 2 ^ 23) + 11"
      using A(1) AX(2) by (simp add: right_diff_distrib)
    then show ?thesis using r(2) M30 False by (simp add: field_simps)
  qed
  show ?thesis using hi lo unfolding M_def r_def by simp
qed

lemma cordic_accuracy_witness:
  "4999971 \<le> real_of_int (sint (cordic_amp 3000000 (- 4000000)))
    \<and> real_of_int (sint (cordic_amp 3000000 (- 4000000))) \<le> 5000019"
proof -
  have q: "sint (- 4000000 :: s32) = - 4000000" "sint (3000000 :: s32) = 3000000" by simp_all
  have a: "amplitude (3000000, - 4000000) = 5000000"
    unfolding amplitude_def by (rule real_sqrt_unique) simp_all
  show ?thesis using cordic_accuracy [of 3000000 "- 4000000"] unfolding q a by simp
qed

end
