(* ===== verification/Cspi_Dd.thy ===== *)
theory Cspi_Dd
  imports Cspi_Cordic Cspi_List
begin

text \<open>
  From raw samples to positions (\<open>cspi/ebpp.c\<close>): the amplitudes of the four buttons, the position by
  difference over sum, and the removal of the switching spikes. Samples are eight 32-bit words in
  memory; the callers give the same buffer as input and as output, so the functions work on one memory
  and two addresses. A word outside the memory is \<open>Fault\<close>.
\<close>

section \<open>The cached parameters\<close>

record Cache =
  c_Kx :: s32
  c_Ky :: s32
  c_Xoffset :: s32
  c_Yoffset :: s32
  c_Qoffset :: s32
  sp_threshold :: s32
  sp_n_before :: s32
  sp_n_after :: s32
  sr_dsc :: s32
  sr_enable :: s32
  sr_cspi_enable :: s32
  sr_averaging_stop :: s32
  sr_average_window :: s32
  sr_start :: s32
  sr_window :: s32

type_synonym memory = "s32 list"

section \<open>One sample\<close>

text \<open>Button \<open>n\<close> of the sample at \<open>p\<close>: the words are cosine and sine, alternating.\<close>

definition button :: "memory \<Rightarrow> nat \<Rightarrow> nat \<Rightarrow> s32" where
  "button mem p n = cordic_amp (signed_drop_bit 1 (mem ! (p + 2 * n + 1))) (signed_drop_bit 1 (mem ! (p + 2 * n)))"

definition sdiv64 :: "s64 \<Rightarrow> s64 \<Rightarrow> s64" where
  "sdiv64 a b = of_int (cdiv (sint a) (sint b))"

text \<open>\<open>(int)(D * K / S) - offset\<close>\<close>

definition axis :: "s64 \<Rightarrow> s32 \<Rightarrow> s64 \<Rightarrow> s32 \<Rightarrow> s32" where
  "axis D K S off = ucast (sdiv64 (D * scast K) S) - off"

definition ebpp_transform_dd_single :: "Cache \<Rightarrow> nat \<Rightarrow> nat \<Rightarrow> memory \<Rightarrow> memory call" where
  "ebpp_transform_dd_single c p q mem =
     (if length mem < p + 8 \<or> length mem < q + 8 then Fault
      else
        let Va = button mem p 0; mem = mem[q := Va];
            Vb = button mem p 1; mem = mem[q + 1 := Vb];
            Vc = button mem p 2; mem = mem[q + 2 := Vc];
            Vd = button mem p 3; mem = mem[q + 3 := Vd];
            S = (scast Va + scast Vb + scast Vc + scast Vd :: s64)
        in if S = 0 then Fault
           else
             let mem = mem[q + 4 := axis (scast Va + scast Vd - scast Vb - scast Vc) (c_Kx c) S (c_Xoffset c)];
                 mem = mem[q + 5 := axis (scast Va + scast Vb - scast Vc - scast Vd) (c_Ky c) S (c_Yoffset c)];
                 mem = mem[q + 6 := axis (scast Va + scast Vc - scast Vb - scast Vd) (c_Kx c) S (c_Qoffset c)]
             in Ret (mem[q + 7 := ucast (signed_drop_bit 2 S)]))"

fun transform_loop :: "Cache \<Rightarrow> nat \<Rightarrow> nat \<Rightarrow> nat \<Rightarrow> memory \<Rightarrow> memory call" where
  "transform_loop c p q 0 mem = Ret mem"
| "transform_loop c p q (Suc n) mem =
     call_bind (ebpp_transform_dd_single c p q mem) (transform_loop c (p + 8) (q + 8) n)"

definition ebpp_transform_dd :: "Cache \<Rightarrow> nat \<Rightarrow> nat \<Rightarrow> nat \<Rightarrow> memory \<Rightarrow> (memory \<times> int) call" where
  "ebpp_transform_dd c p q count mem = call_bind (transform_loop c p q count mem) (\<lambda>mem. Ret (mem, 0))"

section \<open>Spike removal\<close>

text \<open>The lowest bit of a sample's first word is the trigger bit of its sample.\<close>

definition trigger_bit :: "nat \<Rightarrow> nat \<Rightarrow> memory \<Rightarrow> s32 call" where
  "trigger_bit p i mem = (if p + 8 * i < length mem then Ret (mem ! (p + 8 * i) AND 1) else Fault)"

text \<open>Transform while the trigger bit stays.\<close>

function scan_while :: "Cache \<Rightarrow> nat \<Rightarrow> nat \<Rightarrow> s32 \<Rightarrow> nat \<Rightarrow> nat \<Rightarrow> memory \<Rightarrow> (nat \<times> memory) call" where
  "scan_while c p q tb count i mem =
     (if i < count then
        call_bind (trigger_bit p i mem) (\<lambda>b.
          if b = tb then
            call_bind (ebpp_transform_dd_single c (p + 8 * i) (q + 8 * i) mem) (scan_while c p q tb count (i + 1))
          else Ret (i, mem))
      else Ret (i, mem))"
  by pat_completeness auto
termination by (relation "measure (\<lambda>(c, p, q, tb, count, i, mem). count - i)") auto

text \<open>The number of zero bits below the lowest set bit, and what is left of the number.\<close>

function shift_count :: "u32 \<Rightarrow> nat \<Rightarrow> u32 \<times> nat" where
  "shift_count i shifts =
     (if i AND 1 = 0 \<and> shifts < 64 then shift_count (drop_bit 1 i) (shifts + 1) else (i, shifts))"
  by pat_completeness auto
termination by (relation "measure (\<lambda>(i, shifts). 64 - shifts)") auto

text \<open>\<open>for( ; eb < first; eb += period )\<close> on \<open>size_t\<close>: it need not end.\<close>

partial_function (option) first_edge :: "u32 \<Rightarrow> u32 \<Rightarrow> u32 \<Rightarrow> u32 option" where
  "first_edge period start eb = (if eb < start then first_edge period start (eb + period) else Some eb)"

text \<open>The loop that accumulates the amplitudes; its pointer \<open>a\<close> does not move.\<close>

partial_function (option) average_loop ::
  "memory \<Rightarrow> nat \<Rightarrow> u32 \<Rightarrow> u32 \<Rightarrow> s64 \<times> s64 \<times> s64 \<times> s64 \<Rightarrow> (s64 \<times> s64 \<times> s64 \<times> s64) call option" where
  "average_loop mem a i avestop acc =
     (if avestop < i then Some (Ret acc)
      else if length mem < a + 4 then Some Fault
      else (case acc of (sa, sb, sc, sd) \<Rightarrow>
        average_loop mem a (i + 1) avestop
          (sa + scast (mem ! a), sb + scast (mem ! (a + 1)), sc + scast (mem ! (a + 2)), sd + scast (mem ! (a + 3)))))"

text \<open>The sample that replaces the spike.\<close>

definition spike_atom :: "Cache \<Rightarrow> nat \<Rightarrow> s64 \<times> s64 \<times> s64 \<times> s64 \<Rightarrow> memory call" where
  "spike_atom c shifts acc =
     (case acc of (sa, sb, sc, sd) \<Rightarrow>
        if 64 \<le> shifts then Fault
        else
          let a = signed_drop_bit shifts sa; b = signed_drop_bit shifts sb;
              cc = signed_drop_bit shifts sc; d = signed_drop_bit shifts sd;
              S = a + b + cc + d
          in if S = 0 then Fault
             else Ret [ucast a, ucast b, ucast cc, ucast d,
                ucast (sdiv64 ((a + d - b - cc) * scast (c_Kx c)) S - scast (c_Xoffset c)),
                ucast (sdiv64 ((a + b - cc - d) * scast (c_Ky c)) S - scast (c_Yoffset c)),
                ucast (sdiv64 ((a + cc - b - d) * scast (c_Kx c)) S - scast (c_Qoffset c)),
                ucast (signed_drop_bit 2 S)])"

text \<open>Samples \<open>k\<close> to \<open>l\<close> of the buffer at \<open>q\<close> become copies of one sample.\<close>

definition put_atom :: "nat \<Rightarrow> memory \<Rightarrow> nat \<Rightarrow> memory \<Rightarrow> memory" where
  "put_atom q atm k mem = take (q + 8 * k) mem @ atm @ drop (q + 8 * k + 8) mem"

fun hold_atoms :: "nat \<Rightarrow> memory \<Rightarrow> nat list \<Rightarrow> memory \<Rightarrow> memory call" where
  "hold_atoms q atm [] mem = Ret mem"
| "hold_atoms q atm (k # ks) mem =
     (if length mem < q + 8 * k + 8 then Fault else hold_atoms q atm ks (put_atom q atm k mem))"

definition hold_last :: "nat \<Rightarrow> u32 \<Rightarrow> nat" where
  "hold_last count holdstop = (if unat holdstop < count then unat holdstop else count - 1)"

partial_function (option) hold_loop ::
  "Cache \<Rightarrow> nat \<Rightarrow> nat \<Rightarrow> nat \<Rightarrow> u32 \<Rightarrow> u32 \<times> u32 \<times> u32 \<times> u32 \<Rightarrow> memory \<Rightarrow> (memory \<times> int) call option" where
  "hold_loop c q count shifts period win mem =
     (case win of (avestart, avestop, holdstart, holdstop) \<Rightarrow>
        if \<not> unat holdstart < count then Some (Ret (mem, 0))
        else Option.bind (average_loop mem (q + 8 * unat avestart) avestart avestop (0, 0, 0, 0)) (\<lambda>r.
          case call_bind r (\<lambda>acc. call_bind (spike_atom c shifts acc) (\<lambda>atm.
                 hold_atoms q atm (unat holdstart # [unat holdstart + 1 ..< hold_last count holdstop + 1]) mem)) of
            Ret mem \<Rightarrow> hold_loop c q count shifts period
              (avestart + period, avestop + period, holdstart + period, holdstop + period) mem
          | Hang \<Rightarrow> Some Hang
          | Fault \<Rightarrow> Some Fault))"

definition loops :: "'a call option \<Rightarrow> 'a call" where
  "loops x = (case x of None \<Rightarrow> Hang | Some r \<Rightarrow> r)"

definition remove_spikes :: "Cache \<Rightarrow> nat \<Rightarrow> nat \<Rightarrow> nat \<Rightarrow> nat \<Rightarrow> memory \<Rightarrow> (memory \<times> int) call" where
  "remove_spikes c q count eb ee mem =
     (let (rest, shifts) = shift_count (sr_average_window c) 0 in
      if drop_bit 1 rest \<noteq> 0 then Ret (mem, - 3)
      else
        let period = of_nat ee - of_nat eb :: u32;
            start = - (sr_start c + sr_averaging_stop c - sr_average_window c + 1)
        in loops (Option.bind (first_edge period start (of_nat eb)) (\<lambda>eb.
             let avestop = eb + sr_start c + sr_averaging_stop c;
                 avestart = avestop - sr_average_window c + 1;
                 holdstart = eb + sr_start c;
                 holdstop = holdstart + sr_window c - 1
             in hold_loop c q count shifts period (avestart, avestop, holdstart, holdstop) mem)))"

definition ebpp_transform_dd_remove_spikes ::
  "Cache \<Rightarrow> nat \<Rightarrow> nat \<Rightarrow> nat \<Rightarrow> memory \<Rightarrow> (memory \<times> int) call" where
  "ebpp_transform_dd_remove_spikes c p q count mem =
     call_bind (trigger_bit p 0 mem) (\<lambda>tb.
     call_bind (ebpp_transform_dd_single c p q mem) (\<lambda>mem.
     call_bind (scan_while c p q tb count 1 mem) (\<lambda>(eb, mem).
       if eb = count then Ret (mem, - 1)
       else
         call_bind (trigger_bit p eb mem) (\<lambda>tb.
         call_bind (scan_while c p q tb count eb mem) (\<lambda>(ee, mem).
           if ee = count then Ret (mem, - 2)
           else
             call_bind (transform_loop c (p + 8 * ee) (q + 8 * ee) (count - ee) mem)
               (remove_spikes c q count eb ee))))))"

end
