(* ===== verification/Cspi_Dd_Props.thy ===== *)
theory Cspi_Dd_Props
  imports Cspi_Dd
begin

text \<open>
  What the transformation of samples computes: a pure function of each sample, whether the result goes
  to another buffer or over the input; positions without overflow and within the calibration
  coefficients; what the removal of spikes puts in their place, and when it does not return.
\<close>

section \<open>The transformation as a function of the sample\<close>

definition atom_at :: "nat \<Rightarrow> nat \<Rightarrow> memory \<Rightarrow> memory" where
  "atom_at p k mem = take 8 (drop (p + 8 * k) mem)"

definition dd_sum :: "memory \<Rightarrow> s64" where
  "dd_sum raw = scast (button raw 0 0) + scast (button raw 0 1) + scast (button raw 0 2) + scast (button raw 0 3)"

definition dd_atom :: "Cache \<Rightarrow> memory \<Rightarrow> memory" where
  "dd_atom c raw =
     (let Va = button raw 0 0; Vb = button raw 0 1; Vc = button raw 0 2; Vd = button raw 0 3; S = dd_sum raw in
      [Va, Vb, Vc, Vd,
       axis (scast Va + scast Vd - scast Vb - scast Vc) (c_Kx c) S (c_Xoffset c),
       axis (scast Va + scast Vb - scast Vc - scast Vd) (c_Ky c) S (c_Yoffset c),
       axis (scast Va + scast Vc - scast Vb - scast Vd) (c_Kx c) S (c_Qoffset c),
       ucast (signed_drop_bit 2 S)])"

lemma length_dd_atom [simp]: "length (dd_atom c raw) = 8"
  by (simp add: dd_atom_def Let_def)

lemma button_update: "k \<noteq> p + 2 * n \<Longrightarrow> k \<noteq> p + 2 * n + 1 \<Longrightarrow> button (mem[k := v]) p n = button mem p n"
  by (simp add: button_def)

lemma button_atom_at: "p + 8 * k + 8 \<le> length mem \<Longrightarrow> n < 4 \<Longrightarrow> button (atom_at p k mem) 0 n = button mem (p + 8 * k) n"
  by (simp add: button_def atom_at_def)

lemma put_eight:
  assumes "q + 8 \<le> length mem"
  shows "mem[q := a, q + 1 := b, q + 2 := cc, q + 3 := d, q + 4 := e, q + 5 := f, q + 6 := g, q + 7 := h]
    = put_atom q [a, b, cc, d, e, f, g, h] 0 mem"
proof (rule nth_equalityI)
  fix i assume i: "i < length (mem[q := a, q + 1 := b, q + 2 := cc, q + 3 := d, q + 4 := e, q + 5 := f, q + 6 := g, q + 7 := h])"
  have "i < q \<or> i = q \<or> i = q + 1 \<or> i = q + 2 \<or> i = q + 3 \<or> i = q + 4 \<or> i = q + 5 \<or> i = q + 6 \<or> i = q + 7 \<or> q + 8 \<le> i"
    by arith
  then show "mem[q := a, q + 1 := b, q + 2 := cc, q + 3 := d, q + 4 := e, q + 5 := f, q + 6 := g, q + 7 := h] ! i
      = put_atom q [a, b, cc, d, e, f, g, h] 0 mem ! i"
    using assms i by (elim disjE) (simp_all add: put_atom_def nth_append nth_Cons')
qed (use assms in \<open>simp add: put_atom_def\<close>)

text \<open>The writes of one sample never change a word that is still to be read, in place or to another buffer.\<close>

definition separate :: "nat \<Rightarrow> nat \<Rightarrow> nat \<Rightarrow> bool" where
  "separate p q n \<longleftrightarrow> p = q \<or> q + 8 * n \<le> p \<or> p + 8 * n \<le> q"

lemma single_ok:
  assumes "p + 8 \<le> length mem" "q + 8 \<le> length mem" "separate p q 1"
  shows "ebpp_transform_dd_single c p q mem =
    (if dd_sum (atom_at p 0 mem) = 0 then Fault else Ret (put_atom q (dd_atom c (atom_at p 0 mem)) 0 mem))"
proof -
  have b: "button (atom_at p 0 mem) 0 0 = button mem p 0" "button (atom_at p 0 mem) 0 1 = button mem p 1"
    "button (atom_at p 0 mem) 0 2 = button mem p 2" "button (atom_at p 0 mem) 0 3 = button mem p 3"
    using assms(1) button_atom_at [of p 0 mem] by simp_all
  have u: "button (mem[q := v]) p 1 = button mem p 1" "button (mem[q := v, q + 1 := w]) p 2 = button mem p 2"
    "button (mem[q := v, q + 1 := w, q + 2 := x]) p 3 = button mem p 3" for v w x
    using assms(3) by (auto simp: separate_def button_update)
  show ?thesis
    using assms(1,2) unfolding ebpp_transform_dd_single_def Let_def u
    by (simp add: dd_sum_def dd_atom_def Let_def b put_eight [symmetric] del: One_nat_def)
qed

lemma length_put_atom [simp]:
  "q + 8 * k + 8 \<le> length mem \<Longrightarrow> length atm = 8 \<Longrightarrow> length (put_atom q atm k mem) = length mem"
  by (simp add: put_atom_def)

lemma put_atom_base: "put_atom (q + 8) atm k mem = put_atom q atm (Suc k) mem"
  by (simp add: put_atom_def algebra_simps)

lemma atom_at_base: "atom_at (p + 8) k mem = atom_at p (Suc k) mem"
  by (simp add: atom_at_def algebra_simps)

lemma nth_put_atom:
  assumes "q + 8 * k + 8 \<le> length mem" "length atm = 8" "i < length mem"
  shows "put_atom q atm k mem ! i = (if q + 8 * k \<le> i \<and> i < q + 8 * k + 8 then atm ! (i - (q + 8 * k)) else mem ! i)"
  using assms by (auto simp: put_atom_def nth_append min_def algebra_simps)

lemma atom_at_put:
  assumes "q + 8 * k + 8 \<le> length mem" "length atm = 8" "p + 8 * j + 8 \<le> length mem"
    "p + 8 * j + 8 \<le> q + 8 * k \<or> q + 8 * k + 8 \<le> p + 8 * j"
  shows "atom_at p j (put_atom q atm k mem) = atom_at p j mem"
  using assms by (intro nth_equalityI) (auto simp: atom_at_def nth_put_atom)

text \<open>The results of samples \<open>0\<close> to \<open>n - 1\<close> put into the output buffer, from the memory before the call.\<close>

definition put_atoms :: "nat \<Rightarrow> memory list \<Rightarrow> memory \<Rightarrow> memory" where
  "put_atoms q ats mem = take q mem @ concat ats @ drop (q + 8 * length ats) mem"

lemma put_atoms_Cons:
  assumes "length a = 8" "q + 8 + 8 * length ats \<le> length mem"
  shows "put_atoms (q + 8) ats (put_atom q a 0 mem) = put_atoms q (a # ats) mem"
  using assms by (simp add: put_atoms_def put_atom_def algebra_simps)

lemma transform_loop_ok:
  assumes "p + 8 * n \<le> length mem" "q + 8 * n \<le> length mem" "separate p q n"
  shows "transform_loop c p q n mem =
    (if \<exists>k<n. dd_sum (atom_at p k mem) = 0 then Fault
     else Ret (put_atoms q (map (\<lambda>k. dd_atom c (atom_at p k mem)) [0..<n]) mem))"
  using assms
proof (induction n arbitrary: p q mem)
  case 0
  show ?case by (simp add: put_atoms_def)
next
  case (Suc n)
  have one: "ebpp_transform_dd_single c p q mem =
    (if dd_sum (atom_at p 0 mem) = 0 then Fault else Ret (put_atom q (dd_atom c (atom_at p 0 mem)) 0 mem))"
    using Suc.prems by (intro single_ok) (auto simp: separate_def)
  let ?m = "put_atom q (dd_atom c (atom_at p 0 mem)) 0 mem"
  have rest: "atom_at (p + 8) k ?m = atom_at p (Suc k) mem" if "k < n" for k
  proof -
    have "p + 8 * Suc k + 8 \<le> length mem" using that Suc.prems(1) by simp
    then have "atom_at p (Suc k) ?m = atom_at p (Suc k) mem"
      using Suc.prems that by (intro atom_at_put) (auto simp: separate_def)
    then show ?thesis by (simp add: atom_at_base)
  qed
  have IH: "transform_loop c (p + 8) (q + 8) n ?m =
    (if \<exists>k<n. dd_sum (atom_at (p + 8) k ?m) = 0 then Fault
     else Ret (put_atoms (q + 8) (map (\<lambda>k. dd_atom c (atom_at (p + 8) k ?m)) [0..<n]) ?m))"
    using Suc.prems by (intro Suc.IH) (auto simp: separate_def)
  have m: "map (\<lambda>k. dd_atom c (atom_at (p + 8) k ?m)) [0..<n] = map (\<lambda>k. dd_atom c (atom_at p (Suc k) mem)) [0..<n]"
    using rest by (intro map_cong) simp_all
  have ex: "(\<exists>k<n. dd_sum (atom_at (p + 8) k ?m) = 0) = (\<exists>k<n. dd_sum (atom_at p (Suc k) mem) = 0)"
    using rest by auto
  have u: "[0..<Suc n] = 0 # map Suc [0..<n]" by (simp add: map_Suc_upt upt_conv_Cons)
  have pa: "put_atoms (q + 8) (map (\<lambda>k. dd_atom c (atom_at p (Suc k) mem)) [0..<n]) ?m
      = put_atoms q (map (\<lambda>k. dd_atom c (atom_at p k mem)) [0..<Suc n]) mem"
    unfolding u using Suc.prems by (simp add: put_atoms_Cons comp_def)
  have all: "(\<exists>k<Suc n. dd_sum (atom_at p k mem) = 0) =
      (dd_sum (atom_at p 0 mem) = 0 \<or> (\<exists>k<n. dd_sum (atom_at p (Suc k) mem) = 0))"
    by (auto simp: less_Suc_eq_0_disj)
  show ?case unfolding transform_loop.simps one IH [unfolded m ex pa] all
    by (simp add: IH [unfolded m ex pa])
qed

text \<open>C4. A buffer of samples is transformed as the map of one pure function of a sample, whether the
  result overwrites the input or goes to a separate buffer: no word is read after it was overwritten.
  A sample whose four amplitudes add up to 0 makes the call divide by zero.\<close>

theorem dd_transform_is_map:
  assumes "p + 8 * count \<le> length mem" "q + 8 * count \<le> length mem" "p = q \<or> q + 8 * count \<le> p \<or> p + 8 * count \<le> q"
  shows "ebpp_transform_dd c p q count mem =
    (if \<exists>k<count. dd_sum (atom_at p k mem) = 0 then Fault
     else Ret (put_atoms q (map (\<lambda>k. dd_atom c (atom_at p k mem)) [0..<count]) mem, 0))"
  using assms by (simp add: ebpp_transform_dd_def transform_loop_ok separate_def)

definition cache0 :: Cache where
  "cache0 = \<lparr>c_Kx = 10000000, c_Ky = 10000000, c_Xoffset = 0, c_Yoffset = 0, c_Qoffset = 0,
     sp_threshold = 0, sp_n_before = 0, sp_n_after = 0, sr_dsc = 2, sr_enable = 1, sr_cspi_enable = 1,
     sr_averaging_stop = - 1, sr_average_window = 4, sr_start = 5, sr_window = 19\<rparr>"

definition raw1 :: memory where
  "raw1 = [20000, 0, 20000, 0, 10000, 0, 10000, 0]"

theorem dd_transform_is_map_witness:
  "ebpp_transform_dd cache0 0 0 1 raw1 = Ret ([10000, 10000, 5000, 5000, 0, 3333333, 0, 7500], 0)"
proof -
  have s: "dd_sum (atom_at 0 0 raw1) \<noteq> 0" by code_simp
  have d: "dd_atom cache0 (atom_at 0 0 raw1) = [10000, 10000, 5000, 5000, 0, 3333333, 0, 7500]" by code_simp
  have l: "length raw1 = 8" by (simp add: raw1_def)
  show ?thesis using dd_transform_is_map [of 0 1 raw1 0 cache0] s by (simp add: d l put_atoms_def)
qed

section \<open>Positions\<close>

lemma cdiv_ratio: "\<bar>d\<bar> \<le> s \<Longrightarrow> 0 < s \<Longrightarrow> \<bar>cdiv (d * k) s\<bar> \<le> \<bar>k\<bar>"
proof -
  assume a: "\<bar>d\<bar> \<le> s" "0 < s"
  have "\<bar>d * k\<bar> \<le> s * \<bar>k\<bar>" unfolding abs_mult using a by (intro mult_right_mono) simp_all
  then have "\<bar>d * k\<bar> div s \<le> s * \<bar>k\<bar> div s" using a(2) by (intro zdiv_mono1) simp_all
  then have "\<bar>d * k\<bar> div s \<le> \<bar>k\<bar>" using a(2) by simp
  moreover have "0 \<le> \<bar>d * k\<bar> div s" using a(2) by (simp add: pos_imp_zdiv_nonneg_iff)
  ultimately show ?thesis using a(2) by (auto simp: cdiv_def)
qed

lemma axis_exact:
  assumes "sint D = d" "sint S = s" "\<bar>d\<bar> \<le> s" "0 < s" "s \<le> 8589934592" "\<bar>sint k\<bar> \<le> 536870912" "\<bar>sint off\<bar> \<le> 536870912"
  shows "sint (axis D k S off) = cdiv (d * sint k) s - sint off" "\<bar>cdiv (d * sint k) s\<bar> \<le> \<bar>sint k\<bar>"
proof -
  let ?q = "cdiv (d * sint k) s"
  show q: "\<bar>?q\<bar> \<le> \<bar>sint k\<bar>" using assms(3,4) by (rule cdiv_ratio)
  have "\<bar>d * sint k\<bar> \<le> 8589934592 * 536870912" unfolding abs_mult using assms by (intro mult_mono) simp_all
  then have p: "sint (D * scast k) = d * sint k"
    by (intro sint_of_small_int) (simp_all add: assms(1) [symmetric] abs_le_iff)
  have qs: "sint (sdiv64 (D * scast k) S) = ?q"
    unfolding sdiv64_def p assms(2) by (rule sint_of_small_int [OF refl]) (use q assms(6) in linarith)+
  have "axis D k S off = of_int (?q - sint off)"
    unfolding axis_def ucast_s32 qs by simp
  moreover have "- 2147483648 \<le> ?q - sint off" "?q - sint off < 2147483648" using q assms(6,7) by linarith+
  ultimately show "sint (axis D k S off) = ?q - sint off" by (simp only: sint_of_int_s32)
qed

definition half_scale :: "memory \<Rightarrow> nat \<Rightarrow> bool" where
  "half_scale mem p \<longleftrightarrow> (\<forall>n<4. (sint (signed_drop_bit 1 (mem ! (p + 2 * n + 1))))\<^sup>2 + (sint (signed_drop_bit 1 (mem ! (p + 2 * n))))\<^sup>2 \<le> 2 ^ 60)"

lemma button_range: "half_scale mem p \<Longrightarrow> n < 4 \<Longrightarrow> 0 \<le> sint (button mem p n) \<and> sint (button mem p n) < 2147483648"
  using sint_lt [of "button mem p n"] unfolding half_scale_def button_def by (simp add: cordic_amp_nonneg)

lemma sint_sum4:
  assumes "\<bar>sint a\<bar> \<le> 2147483648" "\<bar>sint b\<bar> \<le> 2147483648" "\<bar>sint cc\<bar> \<le> 2147483648" "\<bar>sint d\<bar> \<le> 2147483648"
  shows "sint (scast a + scast b + scast cc + scast d :: s64) = sint a + sint b + sint cc + sint (d :: s32)"
    "sint (scast a + scast b - scast cc - scast d :: s64) = sint a + sint b - sint cc - sint (d :: s32)"
  by (rule sint_of_small_int; use assms in \<open>simp add: abs_le_iff\<close>)+

text \<open>C9. A sample whose four raw vectors stay within half scale and whose amplitudes do not all vanish
  is transformed without overflow: each position is the truncated quotient of the difference over the
  sum, scaled by the coefficient, less the offset; before the offset it never exceeds the coefficient;
  the sum of the amplitudes is reported in units of four. Coefficients and offsets are those the
  library accepts.\<close>

theorem dd_position_exact:
  assumes "p + 8 \<le> length mem" "q + 8 \<le> length mem" "p = q \<or> q + 8 \<le> p \<or> p + 8 \<le> q"
    and "half_scale mem p" "dd_sum (atom_at p 0 mem) \<noteq> 0"
    and "\<bar>sint (c_Kx c)\<bar> \<le> 536870912" "\<bar>sint (c_Ky c)\<bar> \<le> 536870912"
    and "\<bar>sint (c_Xoffset c)\<bar> \<le> 536870912" "\<bar>sint (c_Yoffset c)\<bar> \<le> 536870912"
  shows "\<exists>m Va Vb Vc Vd. ebpp_transform_dd_single c p q mem = Ret m
    \<and> sint (m ! q) = Va \<and> sint (m ! (q + 1)) = Vb \<and> sint (m ! (q + 2)) = Vc \<and> sint (m ! (q + 3)) = Vd
    \<and> 0 \<le> Va \<and> 0 \<le> Vb \<and> 0 \<le> Vc \<and> 0 \<le> Vd
    \<and> sint (m ! (q + 4)) = cdiv ((Va + Vd - Vb - Vc) * sint (c_Kx c)) (Va + Vb + Vc + Vd) - sint (c_Xoffset c)
    \<and> \<bar>sint (m ! (q + 4)) + sint (c_Xoffset c)\<bar> \<le> \<bar>sint (c_Kx c)\<bar>
    \<and> sint (m ! (q + 5)) = cdiv ((Va + Vb - Vc - Vd) * sint (c_Ky c)) (Va + Vb + Vc + Vd) - sint (c_Yoffset c)
    \<and> \<bar>sint (m ! (q + 5)) + sint (c_Yoffset c)\<bar> \<le> \<bar>sint (c_Ky c)\<bar>
    \<and> sint (m ! (q + 7)) = (Va + Vb + Vc + Vd) div 4"
proof -
  let ?raw = "atom_at p 0 mem" and ?m = "put_atom q (dd_atom c (atom_at p 0 mem)) 0 mem"
  let ?a = "button mem p 0" and ?b = "button mem p 1" and ?c = "button mem p 2" and ?d = "button mem p 3"
  have b: "button ?raw 0 0 = ?a" "button ?raw 0 1 = ?b" "button ?raw 0 2 = ?c" "button ?raw 0 3 = ?d"
    using assms(1) button_atom_at [of p 0 mem] by simp_all
  have r: "ebpp_transform_dd_single c p q mem = Ret ?m"
    using assms(1-3,5) by (subst single_ok) (auto simp: separate_def)
  have n: "?m ! (q + i) = dd_atom c ?raw ! i" if "i < 8" for i
    using that assms(2) by (simp add: nth_put_atom)
  have m: "?m ! q = ?a" "?m ! (q + 1) = ?b" "?m ! (q + 2) = ?c" "?m ! (q + 3) = ?d"
    "?m ! (q + 4) = axis (scast ?a + scast ?d - scast ?b - scast ?c) (c_Kx c) (dd_sum ?raw) (c_Xoffset c)"
    "?m ! (q + 5) = axis (scast ?a + scast ?b - scast ?c - scast ?d) (c_Ky c) (dd_sum ?raw) (c_Yoffset c)"
    "?m ! (q + 7) = ucast (signed_drop_bit 2 (dd_sum ?raw))"
    using n [of 0] n [of 1] n [of 2] n [of 3] n [of 4] n [of 5] n [of 7]
    by (simp_all add: dd_atom_def Let_def b del: One_nat_def)
  have v: "0 \<le> sint ?a" "sint ?a < 2147483648" "0 \<le> sint ?b" "sint ?b < 2147483648"
    "0 \<le> sint ?c" "sint ?c < 2147483648" "0 \<le> sint ?d" "sint ?d < 2147483648"
    using button_range [OF assms(4)] by simp_all
  have S: "sint (dd_sum ?raw) = sint ?a + sint ?b + sint ?c + sint ?d"
    unfolding dd_sum_def b using v by (intro sint_sum4) simp_all
  have S0: "0 < sint ?a + sint ?b + sint ?c + sint ?d" using assms(5) v S by (metis add_nonneg_nonneg order_le_less signed_eq_0_iff)
  have X: "sint (scast ?a + scast ?d - scast ?b - scast ?c :: s64) = sint ?a + sint ?d - sint ?b - sint ?c"
    and Y: "sint (scast ?a + scast ?b - scast ?c - scast ?d :: s64) = sint ?a + sint ?b - sint ?c - sint ?d"
    using v by (simp_all add: sint_sum4)
  have s4: "sint (?m ! (q + 7)) = (sint ?a + sint ?b + sint ?c + sint ?d) div 4"
    unfolding m ucast_s32 sint_signed_drop_bit_eq drop_bit_eq_div S by (subst sint_of_int_s32) (use v in simp_all)
  have e: "sint (?m ! q) = sint ?a" "sint (?m ! (q + 1)) = sint ?b" "sint (?m ! (q + 2)) = sint ?c" "sint (?m ! (q + 3)) = sint ?d"
    by (simp_all only: m)
  have bd: "\<bar>sint ?a + sint ?d - sint ?b - sint ?c\<bar> \<le> sint ?a + sint ?b + sint ?c + sint ?d"
    "\<bar>sint ?a + sint ?b - sint ?c - sint ?d\<bar> \<le> sint ?a + sint ?b + sint ?c + sint ?d"
    "sint ?a + sint ?b + sint ?c + sint ?d \<le> 8589934592" using v by linarith+
  note x = axis_exact [OF X S bd(1) S0 bd(3) assms(6,8)] and y = axis_exact [OF Y S bd(2) S0 bd(3) assms(7,9)]
  have px: "\<bar>sint (?m ! (q + 4)) + sint (c_Xoffset c)\<bar> \<le> \<bar>sint (c_Kx c)\<bar>"
    and py: "\<bar>sint (?m ! (q + 5)) + sint (c_Yoffset c)\<bar> \<le> \<bar>sint (c_Ky c)\<bar>"
    unfolding m x(1) y(1) using x(2) y(2) by linarith+
  show ?thesis
    by (intro exI conjI, rule r, (rule e)+, (rule v(1,3,5,7))+, unfold m(5,6), rule x(1), fold m(5), rule px, rule y(1), fold m(6), rule py, rule s4)
qed

theorem dd_position_exact_witness:
  "\<exists>m. ebpp_transform_dd_single cache0 0 0 raw1 = Ret m \<and> \<bar>sint (m ! 5)\<bar> \<le> 10000000"
proof -
  have h: "half_scale raw1 0" by code_simp
  have s: "dd_sum (atom_at 0 0 raw1) \<noteq> 0" by code_simp
  have l: "0 + 8 \<le> length raw1" by (simp add: raw1_def)
  have k: "sint (c_Kx cache0) = 10000000" "sint (c_Ky cache0) = 10000000" "sint (c_Xoffset cache0) = 0" "sint (c_Yoffset cache0) = 0"
    by (simp_all add: cache0_def)
  from dd_position_exact [OF l l _ h s, of cache0] show ?thesis unfolding k by auto
qed

section \<open>Removal of spikes\<close>

lemma first_edge_odd_target:
  "first_edge period start eb = Some r \<Longrightarrow> \<not> (even period \<and> even eb \<and> start = - 1)"
proof (rule first_edge.raw_induct [of "\<lambda>period start eb r. \<not> (even period \<and> even eb \<and> start = - 1)"])
  fix f :: "u32 \<Rightarrow> u32 \<Rightarrow> u32 \<Rightarrow> u32 option" and period start eb r
  assume IH: "\<And>period start eb y. f period start eb = Some y \<Longrightarrow> \<not> (even period \<and> even eb \<and> start = - 1)"
    and step: "(if eb < start then f period start (eb + period) else Some eb) = Some r"
  show "\<not> (even period \<and> even eb \<and> start = - 1)"
  proof
    assume a: "even period \<and> even eb \<and> start = - 1"
    then have "eb \<noteq> - 1" by auto
    then have "eb < start" using a word_order.not_eq_extremum [of eb] by simp
    with step have "f period start (eb + period) = Some r" by simp
    from IH [OF this] a show False by simp
  qed
qed

lemma shift_count_pow2:
  assumes "s < 5"
  shows "shift_count (2 ^ s) 0 = (1, s)"
proof -
  have "s = 0 \<or> s = 1 \<or> s = 2 \<or> s = 3 \<or> s = 4" using assms by auto
  then show ?thesis by (elim disjE) (simp_all add: shift_count.simps)
qed

text \<open>C17. The search for the first spike to treat can run forever: with a start and an averaging stop
  that add up to the averaging window (the library accepts such values) the loop compares an unsigned
  edge with 2^32 - 1; when the edges and the period are even it never gets there.\<close>

theorem spike_search_hangs:
  assumes "sr_average_window c = 2 ^ s" "s < 5" "sr_start c + sr_averaging_stop c = sr_average_window c"
    and "even eb" "even ee"
  shows "remove_spikes c q count eb ee mem = Hang"
proof -
  have w: "shift_count (sr_average_window c) 0 = (1, s)" using shift_count_pow2 [OF assms(2)] assms(1) by simp
  have st: "- (sr_start c + sr_averaging_stop c - sr_average_window c + 1) = - 1" using assms(3) by simp
  have "even (of_nat eb :: u32)" "even (of_nat ee - of_nat eb :: u32)" using assms(4,5) by (auto elim!: evenE)
  then have "first_edge (of_nat ee - of_nat eb) (- 1) (of_nat eb) = None"
    using first_edge_odd_target by fastforce
  then show ?thesis unfolding remove_spikes_def w st by (simp add: loops_def)
qed

theorem spike_search_hangs_witness:
  "remove_spikes cache0 0 100 20 40 (replicate 800 1) = Hang"
  by (rule spike_search_hangs [of _ 2]) (simp_all add: cache0_def)

lemma average_loop_copies:
  assumes "a + 4 \<le> length mem" "unat i + n = unat avestop + 1" "unat avestop < 4294967295"
  shows "average_loop mem a i avestop (sa, sb, sc, sd) = Some (Ret
    (sa + of_nat n * scast (mem ! a), sb + of_nat n * scast (mem ! (a + 1)),
     sc + of_nat n * scast (mem ! (a + 2)), sd + of_nat n * scast (mem ! (a + 3))))"
  using assms(2)
proof (induction n arbitrary: i sa sb sc sd)
  case 0
  then have "avestop < i" by (simp add: word_less_nat_alt)
  then show ?case by (simp add: average_loop.simps)
next
  case (Suc n)
  then have i: "\<not> avestop < i" by (simp add: word_less_nat_alt)
  have "unat i < 4294967295" using Suc.prems assms(3) by linarith
  then have "unat (i + 1) = unat i + 1" by (simp add: unat_word_ariths)
  then have "unat (i + 1) + n = unat avestop + 1" using Suc.prems by linarith
  from Suc.IH [OF this] show ?case
    using i assms(1) by (subst average_loop.simps) (simp add: algebra_simps)
qed

lemma average_of_copies:
  assumes "s < 5"
  shows "signed_drop_bit s (of_nat (2 ^ s) * scast (v :: s32) :: s64) = scast v"
proof -
  have p: "(2 :: int) ^ s \<le> 16" using power_increasing [of s 4 "2 :: int"] assms by simp
  have r: "- 2147483648 \<le> sint v" "sint v < 2147483648" using sint_ge [of v] sint_lt [of v] by simp_all
  have "\<bar>2 ^ s * sint v\<bar> \<le> 16 * 2147483648" unfolding abs_mult using p r by (intro mult_mono) simp_all
  then have "sint (of_nat (2 ^ s) * scast v :: s64) = 2 ^ s * sint v"
    by (intro sint_of_small_int) (simp_all add: abs_le_iff)
  then have "sint (signed_drop_bit s (of_nat (2 ^ s) * scast v :: s64)) = sint v"
    by (simp add: sint_signed_drop_bit_eq drop_bit_eq_div)
  moreover have "sint (scast v :: s64) = sint v"
    by (rule sint_of_small_int) (use r in simp_all)
  ultimately show ?thesis by (intro signed_word_eqI [where 'a = int]) (simp only:)
qed

lemma spike_atom_copies:
  assumes "s < 5" "scast va + scast vb + scast vc + scast vd \<noteq> (0 :: s64)"
  shows "\<exists>atm. spike_atom c s (of_nat (2 ^ s) * scast va, of_nat (2 ^ s) * scast vb, of_nat (2 ^ s) * scast vc, of_nat (2 ^ s) * scast vd)
      = Ret atm \<and> length atm = 8 \<and> take 4 atm = [va, vb, vc, (vd :: s32)]"
proof -
  have u: "(ucast (scast v :: s64) :: s32) = v" for v :: s32
    by (rule bit_word_eqI) (auto simp: bit_simps)
  have "\<not> 64 \<le> s" using assms(1) by simp
  then show ?thesis
    using assms(2) unfolding spike_atom_def prod.case average_of_copies [OF assms(1)] Let_def
    by (simp add: u)
qed

lemma hold_atoms_fold:
  assumes "\<forall>k \<in> set ks. k < count" "q + 8 * count \<le> length mem" "length atm = 8"
  shows "hold_atoms q atm ks mem = Ret (fold (put_atom q atm) ks mem)"
  using assms
proof (induction ks arbitrary: mem)
  case (Cons k ks)
  then have "q + 8 * k + 8 \<le> length mem" by auto
  with Cons show ?case by simp
qed simp

text \<open>C18. A spike is replaced by copies of one sample: the pointer of the averaging loop never moves, so
  what the code divides by the length of the window is the first sample of the window added as many times
  as the window is long. The samples after it in the window do not matter.\<close>

theorem spike_average_is_one_sample:
  assumes "s < 5" "unat avestop = unat avestart + 2 ^ s - 1" "unat avestop < 4294967295"
    and "unat avestart < count" "unat holdstart < count" "q + 8 * count \<le> length mem"
    and "scast (mem ! (q + 8 * unat avestart)) + scast (mem ! (q + 8 * unat avestart + 1))
      + scast (mem ! (q + 8 * unat avestart + 2)) + scast (mem ! (q + 8 * unat avestart + 3)) \<noteq> (0 :: s64)"
  shows "\<exists>atm. length atm = 8 \<and> take 4 atm = take 4 (atom_at q (unat avestart) mem)
    \<and> hold_loop c q count s period (avestart, avestop, holdstart, holdstop) mem =
      hold_loop c q count s period (avestart + period, avestop + period, holdstart + period, holdstop + period)
        (fold (put_atom q atm) (unat holdstart # [unat holdstart + 1 ..< hold_last count holdstop + 1]) mem)"
proof -
  let ?a = "q + 8 * unat avestart"
  have a: "?a + 4 \<le> length mem" using assms(4,6) by linarith
  have n: "unat avestart + 2 ^ s = unat avestop + 1" using assms(2) by simp
  obtain atm where at: "spike_atom c s (of_nat (2 ^ s) * scast (mem ! ?a), of_nat (2 ^ s) * scast (mem ! (?a + 1)),
      of_nat (2 ^ s) * scast (mem ! (?a + 2)), of_nat (2 ^ s) * scast (mem ! (?a + 3))) = Ret atm"
    "length atm = 8" "take 4 atm = [mem ! ?a, mem ! (?a + 1), mem ! (?a + 2), mem ! (?a + 3)]"
    using spike_atom_copies [OF assms(1,7)] by blast
  have av: "average_loop mem ?a avestart avestop (0, 0, 0, 0) = Some (Ret
    (of_nat (2 ^ s) * scast (mem ! ?a), of_nat (2 ^ s) * scast (mem ! (?a + 1)),
     of_nat (2 ^ s) * scast (mem ! (?a + 2)), of_nat (2 ^ s) * scast (mem ! (?a + 3))))"
    using average_loop_copies [OF a n assms(3), of 0 0 0 0] by simp
  have "\<forall>k \<in> set (unat holdstart # [unat holdstart + 1 ..< hold_last count holdstop + 1]). k < count"
    using assms(5) by (auto simp: hold_last_def)
  note ho = hold_atoms_fold [OF this assms(6) at(2)]
  have "take 4 (atom_at q (unat avestart) mem) = take 4 atm"
    using a assms(4,6) unfolding at(3) atom_at_def by (simp add: take_Cons' numeral_eq_Suc Cons_nth_drop_Suc [symmetric])
  moreover have "hold_loop c q count s period (avestart, avestop, holdstart, holdstop) mem =
      hold_loop c q count s period (avestart + period, avestop + period, holdstart + period, holdstop + period)
        (fold (put_atom q atm) (unat holdstart # [unat holdstart + 1 ..< hold_last count holdstop + 1]) mem)"
    using assms(5) by (subst hold_loop.simps) (simp only: prod.case if_False not_not av Option.bind.bind_lunit call_bind_simps at(1) ho call.case simp_thms)
  ultimately show ?thesis using at(2) by metis
qed

theorem spike_average_is_one_sample_witness:
  "\<exists>atm. take 4 atm = [10000, 10000, 5000, 5000]
    \<and> hold_loop cache0 0 2 1 10 (0, 1, 1, 19) ([10000, 10000, 5000, 5000, 0, 3333333, 0, 7500] @ replicate 8 7)
      = hold_loop cache0 0 2 1 10 (10, 11, 11, 29) ([10000, 10000, 5000, 5000, 0, 3333333, 0, 7500] @ atm)"
  using spike_average_is_one_sample [of 1 1 0 2 1 0 "[10000, 10000, 5000, 5000, 0, 3333333, 0, 7500] @ replicate 8 7" cache0 10 19]
  by (auto simp: atom_at_def put_atom_def hold_last_def)

end
