(* ===== verification/Cspi_Env.thy ===== *)
theory Cspi_Env
  imports Libera_Cfg Cspi_Dd
begin

text \<open>
  Environment parameters of the CSPI library (\<open>cspi.c\<close>, \<open>cspi/ebpp.c\<close>): the tables that map a member
  of \<open>CSPI_ENVPARAMS\<close> to a parameter of the driver, the validation of values, setting and reading through
  the configuration device, the parameters kept by the DSC server and by the PLL daemon, and the cache of
  the parameters that positions need.
\<close>

section \<open>Return codes and flags\<close>

definition CSPI_OK :: int where "CSPI_OK = 0"
definition CSPI_W_INCOMPLETE :: int where "CSPI_W_INCOMPLETE = 1"
definition CSPI_E_UNKNOWN :: int where "CSPI_E_UNKNOWN = - 1"
definition CSPI_E_INVALID_HANDLE :: int where "CSPI_E_INVALID_HANDLE = - 2"
definition CSPI_E_SEQUENCE :: int where "CSPI_E_SEQUENCE = - 3"
definition CSPI_E_INVALID_PARAM :: int where "CSPI_E_INVALID_PARAM = - 4"
definition CSPI_E_SYSTEM :: int where "CSPI_E_SYSTEM = - 5"
definition CSPI_E_INVALID_MODE :: int where "CSPI_E_INVALID_MODE = - 6"
definition CSPI_E_ILLEGAL_CALL :: int where "CSPI_E_ILLEGAL_CALL = - 7"
definition CSPI_E_MALLOC :: int where "CSPI_E_MALLOC = - 8"
definition CSPI_E_VERSION :: int where "CSPI_E_VERSION = - 9"
definition CSPI_E_DSCPROTO :: int where "CSPI_E_DSCPROTO = - 10"

lemmas cspi_codes =
  CSPI_OK_def CSPI_W_INCOMPLETE_def CSPI_E_UNKNOWN_def CSPI_E_INVALID_HANDLE_def CSPI_E_SEQUENCE_def
  CSPI_E_INVALID_PARAM_def CSPI_E_SYSTEM_def CSPI_E_INVALID_MODE_def CSPI_E_ILLEGAL_CALL_def
  CSPI_E_MALLOC_def CSPI_E_VERSION_def CSPI_E_DSCPROTO_def

type_synonym CSPI_BITMASK = u64

definition cspi_bit :: "nat \<Rightarrow> CSPI_BITMASK" where "cspi_bit n = push_bit n 1"
definition CUSTOM_ENV_BIT :: "nat \<Rightarrow> CSPI_BITMASK" where "CUSTOM_ENV_BIT n = cspi_bit (4 + n)"

definition CSPI_ENV_HEALTH :: CSPI_BITMASK where "CSPI_ENV_HEALTH = cspi_bit 0"
definition CSPI_ENV_TRIGMODE :: CSPI_BITMASK where "CSPI_ENV_TRIGMODE = cspi_bit 1"
definition CSPI_ENV_PLL :: CSPI_BITMASK where "CSPI_ENV_PLL = cspi_bit 2"
definition CSPI_ENV_FEATURE :: CSPI_BITMASK where "CSPI_ENV_FEATURE = cspi_bit 3"
definition CSPI_ENV_KX :: CSPI_BITMASK where "CSPI_ENV_KX = CUSTOM_ENV_BIT 0"
definition CSPI_ENV_KY :: CSPI_BITMASK where "CSPI_ENV_KY = CUSTOM_ENV_BIT 1"
definition CSPI_ENV_XOFFSET :: CSPI_BITMASK where "CSPI_ENV_XOFFSET = CUSTOM_ENV_BIT 2"
definition CSPI_ENV_YOFFSET :: CSPI_BITMASK where "CSPI_ENV_YOFFSET = CUSTOM_ENV_BIT 3"
definition CSPI_ENV_QOFFSET :: CSPI_BITMASK where "CSPI_ENV_QOFFSET = CUSTOM_ENV_BIT 4"
definition CSPI_ENV_SWITCH :: CSPI_BITMASK where "CSPI_ENV_SWITCH = CUSTOM_ENV_BIT 5"
definition CSPI_ENV_GAIN :: CSPI_BITMASK where "CSPI_ENV_GAIN = CUSTOM_ENV_BIT 6"
definition CSPI_ENV_AGC :: CSPI_BITMASK where "CSPI_ENV_AGC = CUSTOM_ENV_BIT 7"
definition CSPI_ENV_DSC :: CSPI_BITMASK where "CSPI_ENV_DSC = CUSTOM_ENV_BIT 8"
definition CSPI_ENV_ILK :: CSPI_BITMASK where "CSPI_ENV_ILK = CUSTOM_ENV_BIT 9"
definition CSPI_ENV_ILKSTATUS :: CSPI_BITMASK where "CSPI_ENV_ILKSTATUS = CUSTOM_ENV_BIT 10"
definition CSPI_ENV_PMOFFSET :: CSPI_BITMASK where "CSPI_ENV_PMOFFSET = CUSTOM_ENV_BIT 11"
definition CSPI_ENV_TRIGDELAY :: CSPI_BITMASK where "CSPI_ENV_TRIGDELAY = CUSTOM_ENV_BIT 12"
definition CSPI_ENV_EXTSWITCH :: CSPI_BITMASK where "CSPI_ENV_EXTSWITCH = CUSTOM_ENV_BIT 13"
definition CSPI_ENV_SWDELAY :: CSPI_BITMASK where "CSPI_ENV_SWDELAY = CUSTOM_ENV_BIT 14"
definition CSPI_ENV_NOTCH1 :: CSPI_BITMASK where "CSPI_ENV_NOTCH1 = CUSTOM_ENV_BIT 15"
definition CSPI_ENV_NOTCH2 :: CSPI_BITMASK where "CSPI_ENV_NOTCH2 = CUSTOM_ENV_BIT 16"
definition CSPI_ENV_POLYPHASE_FIR :: CSPI_BITMASK where "CSPI_ENV_POLYPHASE_FIR = CUSTOM_ENV_BIT 17"
definition CSPI_ENV_DDC_MAFLENGTH :: CSPI_BITMASK where "CSPI_ENV_DDC_MAFLENGTH = CUSTOM_ENV_BIT 18"
definition CSPI_ENV_DDC_MAFDELAY :: CSPI_BITMASK where "CSPI_ENV_DDC_MAFDELAY = CUSTOM_ENV_BIT 19"
definition CSPI_ENV_MTVCXOFFS :: CSPI_BITMASK where "CSPI_ENV_MTVCXOFFS = CUSTOM_ENV_BIT 20"
definition CSPI_ENV_MTNCOSHFT :: CSPI_BITMASK where "CSPI_ENV_MTNCOSHFT = CUSTOM_ENV_BIT 21"
definition CSPI_ENV_MTPHSOFFS :: CSPI_BITMASK where "CSPI_ENV_MTPHSOFFS = CUSTOM_ENV_BIT 22"
definition CSPI_ENV_MTUNLCKTR :: CSPI_BITMASK where "CSPI_ENV_MTUNLCKTR = CUSTOM_ENV_BIT 23"
definition CSPI_ENV_MTSYNCIN :: CSPI_BITMASK where "CSPI_ENV_MTSYNCIN = CUSTOM_ENV_BIT 24"
definition CSPI_ENV_STUNLCKTR :: CSPI_BITMASK where "CSPI_ENV_STUNLCKTR = CUSTOM_ENV_BIT 25"
definition CSPI_ENV_LPLLDSTAT :: CSPI_BITMASK where "CSPI_ENV_LPLLDSTAT = CUSTOM_ENV_BIT 26"
definition CSPI_ENV_MAX_ADC :: CSPI_BITMASK where "CSPI_ENV_MAX_ADC = CUSTOM_ENV_BIT 27"
definition CSPI_ENV_AVERAGE_SUM :: CSPI_BITMASK where "CSPI_ENV_AVERAGE_SUM = CUSTOM_ENV_BIT 28"
definition CSPI_ENV_PM :: CSPI_BITMASK where "CSPI_ENV_PM = CUSTOM_ENV_BIT 29"
definition CSPI_ENV_SR :: CSPI_BITMASK where "CSPI_ENV_SR = CUSTOM_ENV_BIT 30"
definition CSPI_ENV_SP :: CSPI_BITMASK where "CSPI_ENV_SP = CUSTOM_ENV_BIT 31"
definition CSPI_ENV_FREV :: CSPI_BITMASK where "CSPI_ENV_FREV = CUSTOM_ENV_BIT 32"
definition CSPI_ENV_PMDEC :: CSPI_BITMASK where "CSPI_ENV_PMDEC = CUSTOM_ENV_BIT 33"

lemmas env_masks =
  cspi_bit_def CUSTOM_ENV_BIT_def CSPI_ENV_HEALTH_def CSPI_ENV_TRIGMODE_def CSPI_ENV_PLL_def CSPI_ENV_FEATURE_def
  CSPI_ENV_KX_def CSPI_ENV_KY_def CSPI_ENV_XOFFSET_def CSPI_ENV_YOFFSET_def CSPI_ENV_QOFFSET_def
  CSPI_ENV_SWITCH_def CSPI_ENV_GAIN_def CSPI_ENV_AGC_def CSPI_ENV_DSC_def CSPI_ENV_ILK_def
  CSPI_ENV_ILKSTATUS_def CSPI_ENV_PMOFFSET_def CSPI_ENV_TRIGDELAY_def CSPI_ENV_EXTSWITCH_def
  CSPI_ENV_SWDELAY_def CSPI_ENV_NOTCH1_def CSPI_ENV_NOTCH2_def CSPI_ENV_POLYPHASE_FIR_def
  CSPI_ENV_DDC_MAFLENGTH_def CSPI_ENV_DDC_MAFDELAY_def CSPI_ENV_MTVCXOFFS_def CSPI_ENV_MTNCOSHFT_def
  CSPI_ENV_MTPHSOFFS_def CSPI_ENV_MTUNLCKTR_def CSPI_ENV_MTSYNCIN_def CSPI_ENV_STUNLCKTR_def
  CSPI_ENV_LPLLDSTAT_def CSPI_ENV_MAX_ADC_def CSPI_ENV_AVERAGE_SUM_def CSPI_ENV_PM_def CSPI_ENV_SR_def
  CSPI_ENV_SP_def CSPI_ENV_FREV_def CSPI_ENV_PMDEC_def

text \<open>What setting a parameter may make stale in the cache.\<close>

definition CACHE_MASK :: CSPI_BITMASK where
  "CACHE_MASK = CSPI_ENV_KX OR CSPI_ENV_KY OR CSPI_ENV_XOFFSET OR CSPI_ENV_YOFFSET OR CSPI_ENV_QOFFSET
     OR CSPI_ENV_SR OR CSPI_ENV_SP OR CSPI_ENV_LPLLDSTAT OR CSPI_ENV_DSC OR CSPI_ENV_FREV"

section \<open>Parameters\<close>

text \<open>
  \<open>CSPI_ENVPARAMS\<close> is a structure of 32-bit members which the tables address by pointers to the members:
  here a value for each member. The floating-point \<open>frev\<close> and the PLL status block are left out.
\<close>

datatype health_member = H_temp | H_fan nat | H_voltage nat
datatype pll_member = PLL_sc | PLL_mc
datatype feature_member = FE_customer | FE_itech
datatype ilk_member =
  ILK_mode | ILK_Xlow | ILK_Xhigh | ILK_Ylow | ILK_Yhigh | ILK_overflow_limit | ILK_overflow_dur | ILK_gain_limit
datatype pm_member =
  PM_mode | PM_min_x_limit | PM_max_x_limit | PM_min_y_limit | PM_max_y_limit | PM_overflow_limit | PM_overflow_dur
datatype sr_member = SR_enable | SR_cspi_enable | SR_averaging_stop | SR_average_window | SR_start | SR_window
datatype sp_member = SP_threshold | SP_n_before | SP_n_after

datatype env_member =
    P_health health_member | P_pll pll_member | P_trig_mode | P_feature feature_member
  | P_Kx | P_Ky | P_Xoffset | P_Yoffset | P_Qoffset | P_switches | P_gain | P_agc | P_dsc
  | P_ilk ilk_member | P_ilk_status | P_PMoffset | P_PMdec | P_trig_delay
  | P_external_switching | P_switching_delay | P_ddc_maflength | P_ddc_mafdelay
  | P_notch1 nat | P_notch2 nat | P_polyphase_fir nat
  | P_mtvcxoffs | P_mtncoshft | P_mtphsoffs | P_mtunlcktr | P_mtsyncin | P_stunlcktr
  | P_max_adc | P_average_sum | P_pm pm_member | P_sr sr_member | P_sp sp_member

type_synonym CSPI_ENVPARAMS = "env_member \<Rightarrow> u32"

text \<open>
  A validator gets a pointer to the member: it refuses the value or leaves a value in the member, as a
  rule the same.
\<close>

type_synonym validator = "u32 \<Rightarrow> u32 option"

definition check :: "(u32 \<Rightarrow> bool) \<Rightarrow> validator" where
  "check P v = (if P v then Some v else None)"

record Param_map =
  pm_field :: env_member
  pm_mask :: CSPI_BITMASK
  pm_code :: nat
  pm_validate :: "validator option"

definition PARAM :: "CSPI_BITMASK \<Rightarrow> nat \<Rightarrow> env_member \<Rightarrow> validator option \<Rightarrow> Param_map" where
  "PARAM m c f v = \<lparr>pm_field = f, pm_mask = m, pm_code = c, pm_validate = v\<rparr>"

section \<open>Validation\<close>

definition is_validtrigmode :: "u32 \<Rightarrow> bool" where
  "is_validtrigmode m = (m = LIBERA_TRIGMODE_GET \<or> m = LIBERA_TRIGMODE_SET)"

definition ebpp_is_validcoef :: "u32 \<Rightarrow> bool" where "ebpp_is_validcoef K = (K \<le> 536870911)"

definition ebpp_is_validoffset :: "u32 \<Rightarrow> bool" where
  "ebpp_is_validoffset v = (- 536870912 \<le> sint v \<and> sint v \<le> 536870911)"

definition ebpp_is_validdec :: "u32 \<Rightarrow> bool" where "ebpp_is_validdec d = (d = 1 \<or> d = 64)"

definition CSPI_SWITCH_AUTO :: u32 where "CSPI_SWITCH_AUTO = 0xff"
definition CSPI_SWITCH_DIRECT :: u32 where "CSPI_SWITCH_DIRECT = 0x100"
definition CSPI_SWITCH_DIRECT_BRILLIANCE :: u32 where "CSPI_SWITCH_DIRECT_BRILLIANCE = 0x0F"
definition CSPI_SWITCH_DIRECT_NOTBRILLIANCE :: u32 where "CSPI_SWITCH_DIRECT_NOTBRILLIANCE = 0x03"
definition CSPI_SWITCH_MIN :: u32 where "CSPI_SWITCH_MIN = 0"
definition CSPI_SWITCH_MAX :: u32 where "CSPI_SWITCH_MAX = 0x0f"

definition ebpp_is_validswitch :: "u32 \<Rightarrow> bool" where
  "ebpp_is_validswitch s =
     (s = CSPI_SWITCH_AUTO \<or> s = CSPI_SWITCH_DIRECT \<or> CSPI_SWITCH_MIN \<le> s \<or> s \<le> CSPI_SWITCH_MAX)"

definition ebpp_is_validgain :: "u32 \<Rightarrow> bool" where "ebpp_is_validgain g = (- 80 \<le> sint g \<and> sint g \<le> 0)"
definition ebpp_is_validagc :: "u32 \<Rightarrow> bool" where "ebpp_is_validagc a = (a = 1 \<or> a = 0)"
definition ebpp_is_validdsc :: "u32 \<Rightarrow> bool" where "ebpp_is_validdsc d = (d \<in> {0, 1, 2, 3})"
definition ebpp_is_validilk :: "u32 \<Rightarrow> bool" where "ebpp_is_validilk m = (m \<in> {0, 1, 3})"

definition ebpp_is_validpmoffset :: "u32 \<Rightarrow> bool" where
  "ebpp_is_validpmoffset v = (- 524288 < sint v \<and> sint v < 524288)"

definition ebpp_is_validdecimation :: "u32 \<Rightarrow> bool" where "ebpp_is_validdecimation v = (v = 1 \<or> v = 64)"

definition ebpp_is_validtrigdelay :: "u32 \<Rightarrow> bool" where
  "ebpp_is_validtrigdelay v = (0 \<le> sint v \<and> sint v \<le> 0x3fff)"

text \<open>\<open>param < g_decimation\<close> compares as unsigned.\<close>

definition ebpp_is_validmafparameter :: "u32 \<Rightarrow> u32 \<Rightarrow> bool" where
  "ebpp_is_validmafparameter g_decimation v = (0 \<le> sint v \<and> v < g_decimation)"

definition ebpp_is_valid_int25 :: "u32 \<Rightarrow> bool" where
  "ebpp_is_valid_int25 v = (- 0x1000000 \<le> sint v \<and> sint v \<le> 0xFFFFFF)"

definition ebpp_is_valid_int5 :: "u32 \<Rightarrow> bool" where "ebpp_is_valid_int5 v = (- 16 \<le> sint v \<and> sint v \<le> 15)"

text \<open>\<open>for (val = (param&0x1F); !(val&1) && val; val>>=1 )\<close>\<close>

function strip_zeros :: "u32 \<Rightarrow> u32" where
  "strip_zeros val = (if val AND 1 = 0 \<and> val \<noteq> 0 then strip_zeros (drop_bit 1 val) else val)"
  by pat_completeness auto
termination
proof (relation "measure unat")
  fix val :: u32
  assume "val AND 1 = 0 \<and> val \<noteq> 0"
  then have "0 < unat val" by (simp add: unat_gt_0)
  moreover have "unat (drop_bit 1 val) = unat val div 2"
    by (simp add: drop_bit_eq_div unat_div_distrib)
  ultimately show "(drop_bit 1 val, val) \<in> measure unat" unfolding in_measure by linarith
qed simp

definition ebpp_is_valid_averagewindow :: "u32 \<Rightarrow> bool" where
  "ebpp_is_valid_averagewindow v = (v \<le> 16 \<and> drop_bit 1 (strip_zeros (v AND 0x1F)) = 0)"

definition ebpp_is_valid_uint7 :: "u32 \<Rightarrow> bool" where "ebpp_is_valid_uint7 v = (0 \<le> sint v \<and> sint v \<le> 127)"
definition ebpp_is_valid_int16 :: "u32 \<Rightarrow> bool" where "ebpp_is_valid_int16 v = (- 32768 \<le> sint v \<and> sint v \<le> 32767)"
definition ebpp_is_valid_bool :: "u32 \<Rightarrow> bool" where "ebpp_is_valid_bool v = (0 \<le> sint v \<and> sint v \<le> 1)"
definition ebpp_is_valid_pmmode :: "u32 \<Rightarrow> bool" where "ebpp_is_valid_pmmode v = (0 \<le> sint v \<and> sint v < 3)"
definition ebpp_is_valid_spint :: "u32 \<Rightarrow> bool" where "ebpp_is_valid_spint v = (0 \<le> sint v \<and> sint v < 1024)"
definition ebpp_is_valid_overflowlimit :: "u32 \<Rightarrow> bool" where
  "ebpp_is_valid_overflowlimit v = (0 \<le> sint v \<and> sint v < 32767)"
definition ebpp_is_validoverflowdur :: "u32 \<Rightarrow> bool" where
  "ebpp_is_validoverflowdur v = (0 \<le> sint v \<and> sint v < 1024)"

text \<open>The overflow limit comes back in the upper half; the shift is unsigned.\<close>

definition ebpp_get_overflowlimit :: validator where "ebpp_get_overflowlimit v = Some (drop_bit 16 v)"

text \<open>
  \<open>/opt/dsc/gain.conf\<close> as its lines: blank lines and comments, or gain and attenuators. \<open>None\<close>: the file
  does not open.
\<close>

datatype gain_line = Comment | Gain s32 s32 s32

fun toattn_lines :: "s32 \<Rightarrow> gain_line list \<Rightarrow> s32" where
  "toattn_lines gn [] = - 1"
| "toattn_lines gn (Comment # ls) = toattn_lines gn ls"
| "toattn_lines gn (Gain g a1 a2 # ls) = (if gn = g then a1 + a2 else toattn_lines gn ls)"

definition ebpp_toattn :: "gain_line list option \<Rightarrow> s32 \<Rightarrow> s32" where
  "ebpp_toattn conf gn = (case conf of None \<Rightarrow> - 1 | Some ls \<Rightarrow> toattn_lines gn ls)"

text \<open>The gain limit is packed with its attenuation into the member itself.\<close>

definition ebpp_set_gainlimit :: "gain_line list option \<Rightarrow> validator" where
  "ebpp_set_gainlimit conf v =
     (let attn = ebpp_toattn conf v in
      if attn = - 1 then None else Some (push_bit 16 v OR (attn AND 0x0000ffff)))"

definition ebpp_get_gainlimit :: validator where "ebpp_get_gainlimit v = Some (signed_drop_bit 16 v)"

section \<open>State and surroundings\<close>

text \<open>
  The library's state that parameters touch: the driver, the mutexes of the environment and of the
  cache (whether they are held), the cache and its dirty mark, the decimation, and what was sent to the
  PLL daemon.
\<close>

record libst =
  krn :: kernel
  e_mutex :: bool
  cache_mutex :: bool
  cache :: Cache
  is_cache_dirty :: bool
  g_decimation :: u32
  pll_sent :: "string list"

text \<open>
  What the surroundings of a call are: the descriptor of the configuration device, what its calls find in
  the hardware, the file of gains, the answers of the DSC server, the pipes of the PLL daemon, the files
  of the sensors.
\<close>

datatype dsc_reply = NoServer | ShortReply | Reply u32 int

datatype pll_command = NoCommandPipe | CommandLost | CommandSent

record sensors =
  se_temp :: "s32 option"
  se_fan0 :: "u32 option"
  se_fan1 :: "u32 option"
  se_voltage :: "(nat \<Rightarrow> u32) option"

record lib_env =
  le_filp :: filp
  le_io :: ioenv
  le_gain :: "gain_line list option"
  le_dsc :: "nat \<Rightarrow> u32 \<Rightarrow> dsc_reply"
  le_pll_open :: bool
  le_pll_lock :: bool
  le_pll_command :: pll_command
  le_pll_reply :: bool
  le_sensors :: sensors

section \<open>Through the configuration device\<close>

text \<open>The two ioctls; the request is on the library's stack, so copying it never faults.\<close>

definition cfg_dev_set :: "lib_env \<Rightarrow> nat \<Rightarrow> u32 \<Rightarrow> kernel \<Rightarrow> kernel \<times> bool" where
  "cfg_dev_set e idx v k =
     (case libera_cfg_ioctl (le_filp e) (SET_CFG (0, of_nat idx, v)) (le_io e) k of
        (k, r, _) \<Rightarrow> (k, case r of Inl _ \<Rightarrow> False | Inr _ \<Rightarrow> True))"

definition cfg_dev_get :: "lib_env \<Rightarrow> nat \<Rightarrow> kernel \<Rightarrow> u32 option" where
  "cfg_dev_get e idx k =
     (case libera_cfg_ioctl (le_filp e) (GET_CFG (0, of_nat idx, 0)) (le_io e) k of
        (k, r, out) \<Rightarrow> (case r of Inl _ \<Rightarrow> None | Inr _ \<Rightarrow> (case out of CfgReq q \<Rightarrow> Some (snd q) | _ \<Rightarrow> Some 0)))"

type_synonym 'a par_result = "CSPI_ENVPARAMS \<times> 'a libst_scheme \<times> int"

definition validated :: "validator option \<Rightarrow> u32 \<Rightarrow> u32 option" where
  "validated f v = (case f of None \<Rightarrow> Some v | Some g \<Rightarrow> g v)"

definition set_param :: "lib_env \<Rightarrow> Param_map \<Rightarrow> CSPI_ENVPARAMS \<Rightarrow> 'a libst_scheme \<Rightarrow> 'a par_result" where
  "set_param e m p s =
     (case validated (pm_validate m) (p (pm_field m)) of
        None \<Rightarrow> (p, s, CSPI_E_INVALID_PARAM)
      | Some v \<Rightarrow>
          let (k, ok) = cfg_dev_set e (pm_code m) v (krn s)
          in (p(pm_field m := v), s\<lparr>krn := k\<rparr>, if ok then CSPI_OK else CSPI_E_SYSTEM))"

definition get_param :: "lib_env \<Rightarrow> Param_map \<Rightarrow> CSPI_ENVPARAMS \<Rightarrow> 'a libst_scheme \<Rightarrow> 'a par_result" where
  "get_param e m p s =
     (case cfg_dev_get e (pm_code m) (krn s) of
        None \<Rightarrow> (p, s, CSPI_E_SYSTEM)
      | Some v \<Rightarrow>
          (case validated (pm_validate m) v of
             None \<Rightarrow> (p(pm_field m := v), s, CSPI_E_INVALID_PARAM)
           | Some w \<Rightarrow> (p(pm_field m := w), s, CSPI_OK)))"

text \<open>The loop over a table, for \<open>set_param\<close> or \<open>get_param\<close>.\<close>

fun handle_params ::
  "(Param_map \<Rightarrow> CSPI_ENVPARAMS \<Rightarrow> 'a libst_scheme \<Rightarrow> 'a par_result) \<Rightarrow> CSPI_BITMASK \<Rightarrow> Param_map list
     \<Rightarrow> CSPI_ENVPARAMS \<Rightarrow> 'a libst_scheme \<Rightarrow> 'a par_result" where
  "handle_params proxy flags [] p s = (p, s, CSPI_OK)"
| "handle_params proxy flags (m # ms) p s =
     (if flags AND pm_mask m \<noteq> 0 then
        (case proxy m p s of
           (p, s, rc) \<Rightarrow> if rc \<noteq> CSPI_OK then (p, s, rc) else handle_params proxy flags ms p s)
      else handle_params proxy flags ms p s)"

text \<open>One step after the other while they succeed.\<close>

definition and_then ::
  "'a par_result \<Rightarrow> (CSPI_ENVPARAMS \<Rightarrow> 'a libst_scheme \<Rightarrow> 'a par_result) \<Rightarrow> 'a par_result" where
  "and_then r f = (case r of (p, s, rc) \<Rightarrow> if rc = CSPI_OK then f p s else (p, s, rc))"

section \<open>Parameters of every instrument\<close>

definition cspi_sethealthparam :: "CSPI_BITMASK \<Rightarrow> int" where
  "cspi_sethealthparam flags = (if flags AND CSPI_ENV_HEALTH \<noteq> 0 then CSPI_E_ILLEGAL_CALL else CSPI_OK)"

definition cspi_setfeatureparam :: "CSPI_BITMASK \<Rightarrow> int" where
  "cspi_setfeatureparam flags = (if flags AND CSPI_ENV_FEATURE \<noteq> 0 then CSPI_E_ILLEGAL_CALL else CSPI_OK)"

definition cspi_getfeatureparam :: "lib_env \<Rightarrow> CSPI_BITMASK \<Rightarrow> CSPI_ENVPARAMS \<Rightarrow> 'a libst_scheme \<Rightarrow> 'a par_result" where
  "cspi_getfeatureparam e flags p s =
     (if flags AND CSPI_ENV_FEATURE \<noteq> 0 then
        (case cfg_dev_get e LIBERA_CFG_FEATURE_CUSTOMER (krn s) of
           None \<Rightarrow> (p, s, CSPI_E_SYSTEM)
         | Some c \<Rightarrow>
             (case cfg_dev_get e LIBERA_CFG_FEATURE_ITECH (krn s) of
                None \<Rightarrow> (p(P_feature FE_customer := c), s, CSPI_E_SYSTEM)
              | Some i \<Rightarrow> (p(P_feature FE_customer := c, P_feature FE_itech := i), s, CSPI_OK)))
      else (p, s, CSPI_OK))"

text \<open>
  The sensors: temperature in thousandths of a degree, two fans, eight voltages. The read of the voltages
  compares an unsigned count with 0, so a failed read is not noticed and the members take what the
  buffer on the stack held; only a device that does not open is an error.
\<close>

definition cspi_gethealthparam :: "lib_env \<Rightarrow> CSPI_BITMASK \<Rightarrow> CSPI_ENVPARAMS \<Rightarrow> 'a libst_scheme \<Rightarrow> 'a par_result" where
  "cspi_gethealthparam e flags p s =
     (if flags AND CSPI_ENV_HEALTH = 0 then (p, s, CSPI_OK)
      else
        (case se_temp (le_sensors e) of
           None \<Rightarrow> (p, s, CSPI_E_SYSTEM)
         | Some t \<Rightarrow>
             let p = p(P_health H_temp := of_int (cdiv (sint t) 1000)) in
             (case se_fan0 (le_sensors e) of
                None \<Rightarrow> (p, s, CSPI_E_SYSTEM)
              | Some f0 \<Rightarrow>
                  let p = p(P_health (H_fan 0) := f0) in
                  (case se_fan1 (le_sensors e) of
                     None \<Rightarrow> (p, s, CSPI_E_SYSTEM)
                   | Some f1 \<Rightarrow>
                       let p = p(P_health (H_fan 1) := f1) in
                       (case se_voltage (le_sensors e) of
                          None \<Rightarrow> (p, s, CSPI_E_SYSTEM)
                        | Some v \<Rightarrow> (fold (\<lambda>i p. p(P_health (H_voltage i) := v i)) [0..<8] p, s, CSPI_OK))))))"

definition base_set_map :: "Param_map list" where
  "base_set_map = [PARAM CSPI_ENV_TRIGMODE LIBERA_CFG_TRIGMODE P_trig_mode (Some (check is_validtrigmode))]"

definition base_setenvparam :: "lib_env \<Rightarrow> CSPI_BITMASK \<Rightarrow> CSPI_ENVPARAMS \<Rightarrow> 'a libst_scheme \<Rightarrow> 'a par_result" where
  "base_setenvparam e flags p s =
     (if flags = 0 then (p, s, CSPI_OK)
      else
        and_then (handle_params (set_param e) flags base_set_map p s) (\<lambda>p s.
        and_then (p, s, cspi_sethealthparam flags) (\<lambda>p s.
          (p, s, cspi_setfeatureparam flags))))"

definition base_get_map :: "Param_map list" where
  "base_get_map =
     [PARAM CSPI_ENV_TRIGMODE LIBERA_CFG_TRIGMODE P_trig_mode None,
      PARAM CSPI_ENV_PLL LIBERA_CFG_SCPLL (P_pll PLL_sc) None,
      PARAM CSPI_ENV_PLL LIBERA_CFG_MCPLL (P_pll PLL_mc) None]"

definition base_getenvparam :: "lib_env \<Rightarrow> CSPI_BITMASK \<Rightarrow> CSPI_ENVPARAMS \<Rightarrow> 'a libst_scheme \<Rightarrow> 'a par_result" where
  "base_getenvparam e flags p s =
     (if flags = 0 then (p, s, CSPI_OK)
      else
        and_then (handle_params (get_param e) flags base_get_map p s) (\<lambda>p s.
        and_then (cspi_gethealthparam e flags p s) (\<lambda>p s.
          cspi_getfeatureparam e flags p s)))"

section \<open>Parameters of the EBPP\<close>

definition custom_set_map :: "lib_env \<Rightarrow> u32 \<Rightarrow> Param_map list" where
  "custom_set_map e g_dec =
     [PARAM CSPI_ENV_KX LIBERA_CFG_KX P_Kx (Some (check ebpp_is_validcoef)),
      PARAM CSPI_ENV_KY LIBERA_CFG_KY P_Ky (Some (check ebpp_is_validcoef)),
      PARAM CSPI_ENV_XOFFSET LIBERA_CFG_XOFFSET P_Xoffset (Some (check ebpp_is_validoffset)),
      PARAM CSPI_ENV_YOFFSET LIBERA_CFG_YOFFSET P_Yoffset (Some (check ebpp_is_validoffset)),
      PARAM CSPI_ENV_QOFFSET LIBERA_CFG_QOFFSET P_Qoffset (Some (check ebpp_is_validoffset)),
      PARAM CSPI_ENV_ILK LIBERA_CFG_ILK_MODE (P_ilk ILK_mode) (Some (check ebpp_is_validilk)),
      PARAM CSPI_ENV_ILK LIBERA_CFG_ILK_XLOW (P_ilk ILK_Xlow) (Some (check ebpp_is_valid_int25)),
      PARAM CSPI_ENV_ILK LIBERA_CFG_ILK_XHIGH (P_ilk ILK_Xhigh) (Some (check ebpp_is_valid_int25)),
      PARAM CSPI_ENV_ILK LIBERA_CFG_ILK_YLOW (P_ilk ILK_Ylow) (Some (check ebpp_is_valid_int25)),
      PARAM CSPI_ENV_ILK LIBERA_CFG_ILK_YHIGH (P_ilk ILK_Yhigh) (Some (check ebpp_is_valid_int25)),
      PARAM CSPI_ENV_ILK LIBERA_CFG_ILK_OVERFLOW_DUR (P_ilk ILK_overflow_dur) (Some (check ebpp_is_validoverflowdur)),
      PARAM CSPI_ENV_ILK LIBERA_CFG_ILK_OVERFLOW_LIMIT (P_ilk ILK_overflow_limit) (Some (check ebpp_is_valid_overflowlimit)),
      PARAM CSPI_ENV_ILK LIBERA_CFG_ILK_GAIN_LIMIT (P_ilk ILK_gain_limit) (Some (ebpp_set_gainlimit (le_gain e))),
      PARAM CSPI_ENV_ILKSTATUS LIBERA_CFG_ILKSTATUS P_ilk_status None,
      PARAM CSPI_ENV_PMOFFSET LIBERA_CFG_PMOFFSET P_PMoffset (Some (check ebpp_is_validpmoffset)),
      PARAM CSPI_ENV_PMDEC LIBERA_CFG_PMDEC P_PMdec (Some (check ebpp_is_validdecimation)),
      PARAM CSPI_ENV_TRIGDELAY LIBERA_CFG_TRIGDELAY P_trig_delay (Some (check ebpp_is_validtrigdelay)),
      PARAM CSPI_ENV_EXTSWITCH LIBERA_CFG_EXTSWITCH P_external_switching None,
      PARAM CSPI_ENV_SWDELAY LIBERA_CFG_SWDELAY P_switching_delay None,
      PARAM CSPI_ENV_DDC_MAFLENGTH LIBERA_CFG_DDC_MAFLENGTH P_ddc_maflength (Some (check (ebpp_is_validmafparameter g_dec))),
      PARAM CSPI_ENV_DDC_MAFDELAY LIBERA_CFG_DDC_MAFDELAY P_ddc_mafdelay (Some (check (ebpp_is_validmafparameter g_dec))),
      PARAM CSPI_ENV_PM LIBERA_CFG_PM_MODE (P_pm PM_mode) (Some (check ebpp_is_valid_pmmode)),
      PARAM CSPI_ENV_PM LIBERA_CFG_PM_XLOW (P_pm PM_min_x_limit) (Some (check ebpp_is_valid_int25)),
      PARAM CSPI_ENV_PM LIBERA_CFG_PM_XHIGH (P_pm PM_max_x_limit) (Some (check ebpp_is_valid_int25)),
      PARAM CSPI_ENV_PM LIBERA_CFG_PM_YLOW (P_pm PM_min_y_limit) (Some (check ebpp_is_valid_int25)),
      PARAM CSPI_ENV_PM LIBERA_CFG_PM_YHIGH (P_pm PM_max_y_limit) (Some (check ebpp_is_valid_int25)),
      PARAM CSPI_ENV_PM LIBERA_CFG_PM_OVERFLOW_LIMIT (P_pm PM_overflow_limit) (Some (check ebpp_is_valid_overflowlimit)),
      PARAM CSPI_ENV_PM LIBERA_CFG_PM_OVERFLOW_DUR (P_pm PM_overflow_dur) (Some (check ebpp_is_validoverflowdur)),
      PARAM CSPI_ENV_SR LIBERA_CFG_SR_ENABLE (P_sr SR_enable) (Some (check ebpp_is_valid_bool)),
      PARAM CSPI_ENV_SR LIBERA_CFG_SR_CSPI_ENABLE (P_sr SR_cspi_enable) (Some (check ebpp_is_valid_bool)),
      PARAM CSPI_ENV_SR LIBERA_CFG_SR_AVERAGING_STOP (P_sr SR_averaging_stop) (Some (check ebpp_is_valid_int5)),
      PARAM CSPI_ENV_SR LIBERA_CFG_SR_AVERAGE_WINDOW (P_sr SR_average_window) (Some (check ebpp_is_valid_averagewindow)),
      PARAM CSPI_ENV_SR LIBERA_CFG_SR_START (P_sr SR_start) (Some (check ebpp_is_valid_int5)),
      PARAM CSPI_ENV_SR LIBERA_CFG_SR_WINDOW (P_sr SR_window) (Some (check ebpp_is_valid_uint7)),
      PARAM CSPI_ENV_SP LIBERA_CFG_SP_THRESHOLD (P_sp SP_threshold) (Some (check ebpp_is_valid_int16)),
      PARAM CSPI_ENV_SP LIBERA_CFG_SP_N_BEFORE (P_sp SP_n_before) (Some (check ebpp_is_valid_spint)),
      PARAM CSPI_ENV_SP LIBERA_CFG_SP_N_AFTER (P_sp SP_n_after) (Some (check ebpp_is_valid_spint))]"

definition set_coeff_map :: "Param_map list" where
  "set_coeff_map =
     map (\<lambda>j. PARAM CSPI_ENV_NOTCH1 (LIBERA_CFG_NOTCH1 + j) (P_notch1 j) None) [0..<LIBERA_CFG_NOTCH_MAX]
     @ map (\<lambda>j. PARAM CSPI_ENV_NOTCH2 (LIBERA_CFG_NOTCH2 + j) (P_notch2 j) None) [0..<LIBERA_CFG_NOTCH_MAX]
     @ map (\<lambda>j. PARAM CSPI_ENV_POLYPHASE_FIR (LIBERA_CFG_POLYPHASE_FIR + j) (P_polyphase_fir j) None) [0..<LIBERA_CFG_FIR_MAX]"

definition set_coeff :: "lib_env \<Rightarrow> CSPI_BITMASK \<Rightarrow> CSPI_ENVPARAMS \<Rightarrow> 'a libst_scheme \<Rightarrow> 'a par_result" where
  "set_coeff e flags p s = handle_params (set_param e) flags set_coeff_map p s"

definition custom_get_map :: "Param_map list" where
  "custom_get_map =
     [PARAM CSPI_ENV_KX LIBERA_CFG_KX P_Kx None,
      PARAM CSPI_ENV_KY LIBERA_CFG_KY P_Ky None,
      PARAM CSPI_ENV_XOFFSET LIBERA_CFG_XOFFSET P_Xoffset None,
      PARAM CSPI_ENV_YOFFSET LIBERA_CFG_YOFFSET P_Yoffset None,
      PARAM CSPI_ENV_QOFFSET LIBERA_CFG_QOFFSET P_Qoffset None,
      PARAM CSPI_ENV_ILK LIBERA_CFG_ILK_MODE (P_ilk ILK_mode) None,
      PARAM CSPI_ENV_ILK LIBERA_CFG_ILK_XLOW (P_ilk ILK_Xlow) None,
      PARAM CSPI_ENV_ILK LIBERA_CFG_ILK_XHIGH (P_ilk ILK_Xhigh) None,
      PARAM CSPI_ENV_ILK LIBERA_CFG_ILK_YLOW (P_ilk ILK_Ylow) None,
      PARAM CSPI_ENV_ILK LIBERA_CFG_ILK_YHIGH (P_ilk ILK_Yhigh) None,
      PARAM CSPI_ENV_ILK LIBERA_CFG_ILK_OVERFLOW_DUR (P_ilk ILK_overflow_dur) None,
      PARAM CSPI_ENV_ILK LIBERA_CFG_ILK_OVERFLOW_LIMIT (P_ilk ILK_overflow_limit) (Some ebpp_get_overflowlimit),
      PARAM CSPI_ENV_ILK LIBERA_CFG_ILK_GAIN_LIMIT (P_ilk ILK_gain_limit) (Some ebpp_get_gainlimit),
      PARAM CSPI_ENV_ILKSTATUS LIBERA_CFG_ILKSTATUS P_ilk_status None,
      PARAM CSPI_ENV_PMOFFSET LIBERA_CFG_PMOFFSET P_PMoffset None,
      PARAM CSPI_ENV_PMDEC LIBERA_CFG_PMDEC P_PMdec None,
      PARAM CSPI_ENV_TRIGDELAY LIBERA_CFG_TRIGDELAY P_trig_delay None,
      PARAM CSPI_ENV_EXTSWITCH LIBERA_CFG_EXTSWITCH P_external_switching None,
      PARAM CSPI_ENV_SWDELAY LIBERA_CFG_SWDELAY P_switching_delay None,
      PARAM CSPI_ENV_DDC_MAFLENGTH LIBERA_CFG_DDC_MAFLENGTH P_ddc_maflength None,
      PARAM CSPI_ENV_DDC_MAFDELAY LIBERA_CFG_DDC_MAFDELAY P_ddc_mafdelay None,
      PARAM CSPI_ENV_MAX_ADC LIBERA_CFG_MAX_ADC P_max_adc None,
      PARAM CSPI_ENV_AVERAGE_SUM LIBERA_CFG_AVERAGE_SUM P_average_sum None,
      PARAM CSPI_ENV_PM LIBERA_CFG_PM_MODE (P_pm PM_mode) None,
      PARAM CSPI_ENV_PM LIBERA_CFG_PM_XLOW (P_pm PM_min_x_limit) None,
      PARAM CSPI_ENV_PM LIBERA_CFG_PM_XHIGH (P_pm PM_max_x_limit) None,
      PARAM CSPI_ENV_PM LIBERA_CFG_PM_YLOW (P_pm PM_min_y_limit) None,
      PARAM CSPI_ENV_PM LIBERA_CFG_PM_YHIGH (P_pm PM_max_y_limit) None,
      PARAM CSPI_ENV_PM LIBERA_CFG_PM_OVERFLOW_LIMIT (P_pm PM_overflow_limit) (Some ebpp_get_overflowlimit),
      PARAM CSPI_ENV_PM LIBERA_CFG_PM_OVERFLOW_DUR (P_pm PM_overflow_dur) None,
      PARAM CSPI_ENV_SR LIBERA_CFG_SR_ENABLE (P_sr SR_enable) None,
      PARAM CSPI_ENV_SR LIBERA_CFG_SR_CSPI_ENABLE (P_sr SR_cspi_enable) None,
      PARAM CSPI_ENV_SR LIBERA_CFG_SR_AVERAGING_STOP (P_sr SR_averaging_stop) None,
      PARAM CSPI_ENV_SR LIBERA_CFG_SR_AVERAGE_WINDOW (P_sr SR_average_window) None,
      PARAM CSPI_ENV_SR LIBERA_CFG_SR_START (P_sr SR_start) None,
      PARAM CSPI_ENV_SR LIBERA_CFG_SR_WINDOW (P_sr SR_window) None,
      PARAM CSPI_ENV_SP LIBERA_CFG_SP_THRESHOLD (P_sp SP_threshold) None,
      PARAM CSPI_ENV_SP LIBERA_CFG_SP_N_BEFORE (P_sp SP_n_before) None,
      PARAM CSPI_ENV_SP LIBERA_CFG_SP_N_AFTER (P_sp SP_n_after) None]"

section \<open>The DSC server\<close>

text \<open>Message types; a message carries the member's value and brings back a value and a status.\<close>

definition DSCD_SET_AGC :: nat where "DSCD_SET_AGC = 1"
definition DSCD_GET_AGC :: nat where "DSCD_GET_AGC = 2"
definition DSCD_SET_DSC :: nat where "DSCD_SET_DSC = 3"
definition DSCD_GET_DSC :: nat where "DSCD_GET_DSC = 4"
definition DSCD_SET_GAIN :: nat where "DSCD_SET_GAIN = 5"
definition DSCD_GET_GAIN :: nat where "DSCD_GET_GAIN = 6"
definition DSCD_SET_SWITCH :: nat where "DSCD_SET_SWITCH = 7"
definition DSCD_GET_SWITCH :: nat where "DSCD_GET_SWITCH = 8"
definition DSCD_GET_FREV :: nat where "DSCD_GET_FREV = 9"
definition DSCD_APPLY_SETTINGS :: nat where "DSCD_APPLY_SETTINGS = 10"

definition ebpp_dsc_message :: "lib_env \<Rightarrow> nat \<Rightarrow> u32 option \<Rightarrow> u32 option \<times> int" where
  "ebpp_dsc_message e msg_type val =
     (case le_dsc e msg_type (case val of None \<Rightarrow> 0 | Some v \<Rightarrow> v) of
        NoServer \<Rightarrow> (val, CSPI_E_SYSTEM)
      | ShortReply \<Rightarrow> (val, CSPI_E_DSCPROTO)
      | Reply v st \<Rightarrow> (map_option (\<lambda>_. v) val, if st < 0 then CSPI_E_SYSTEM else st))"

text \<open>An entry without member has no value (\<open>APPLY_SETTINGS\<close>; \<open>FREV\<close> carries a floating-point value).\<close>

record DSC_param_map =
  dm_valaddr :: "env_member option"
  dm_mask :: CSPI_BITMASK
  dm_type :: nat
  dm_validate :: "(u32 \<Rightarrow> bool) option"

fun ebpp_dsc_handle_params ::
  "lib_env \<Rightarrow> CSPI_BITMASK \<Rightarrow> DSC_param_map list \<Rightarrow> CSPI_ENVPARAMS \<Rightarrow> CSPI_ENVPARAMS \<times> int" where
  "ebpp_dsc_handle_params e flags [] p = (p, CSPI_OK)"
| "ebpp_dsc_handle_params e flags (m # ms) p =
     (if flags AND dm_mask m \<noteq> 0 then
        (let val = map_option p (dm_valaddr m) in
         if (case (dm_validate m, val) of (Some f, Some v) \<Rightarrow> \<not> f v | _ \<Rightarrow> False) then (p, CSPI_E_INVALID_PARAM)
         else
           (case ebpp_dsc_message e (dm_type m) val of
              (val, rc) \<Rightarrow>
                let p = (case (dm_valaddr m, val) of (Some a, Some v) \<Rightarrow> p(a := v) | _ \<Rightarrow> p)
                in if rc \<noteq> CSPI_OK then (p, rc) else ebpp_dsc_handle_params e flags ms p))
      else ebpp_dsc_handle_params e flags ms p)"

definition dsc_set_map :: "DSC_param_map list" where
  "dsc_set_map =
     [\<lparr>dm_valaddr = Some P_switches, dm_mask = CSPI_ENV_SWITCH, dm_type = DSCD_SET_SWITCH, dm_validate = Some ebpp_is_validswitch\<rparr>,
      \<lparr>dm_valaddr = Some P_agc, dm_mask = CSPI_ENV_AGC, dm_type = DSCD_SET_AGC, dm_validate = Some ebpp_is_validagc\<rparr>,
      \<lparr>dm_valaddr = Some P_gain, dm_mask = CSPI_ENV_GAIN, dm_type = DSCD_SET_GAIN, dm_validate = Some ebpp_is_validgain\<rparr>,
      \<lparr>dm_valaddr = Some P_dsc, dm_mask = CSPI_ENV_DSC, dm_type = DSCD_SET_DSC, dm_validate = Some ebpp_is_validdsc\<rparr>,
      \<lparr>dm_valaddr = None, dm_mask = CSPI_ENV_ILK, dm_type = DSCD_APPLY_SETTINGS, dm_validate = None\<rparr>]"

definition ebpp_setdscparam :: "lib_env \<Rightarrow> CSPI_BITMASK \<Rightarrow> CSPI_ENVPARAMS \<Rightarrow> 'a libst_scheme \<Rightarrow> 'a par_result" where
  "ebpp_setdscparam e flags p s =
     (if \<not> fmode_write (le_filp e) then (p, s, CSPI_E_SYSTEM)
      else
        and_then
          (if p P_switches = CSPI_SWITCH_DIRECT then
             and_then (cspi_getfeatureparam e CSPI_ENV_FEATURE p s) (\<lambda>p s.
               (p(P_switches := if LIBERA_IS_BRILLIANCE (p (P_feature FE_itech)) then CSPI_SWITCH_DIRECT_BRILLIANCE
                                else CSPI_SWITCH_DIRECT_NOTBRILLIANCE), s, CSPI_OK))
           else (p, s, CSPI_OK))
          (\<lambda>p s.
             let (p, rc) = ebpp_dsc_handle_params e flags dsc_set_map p in
             (p, if flags AND CSPI_ENV_FREV \<noteq> 0 then s\<lparr>is_cache_dirty := True\<rparr> else s, rc)))"

definition dsc_get_map :: "DSC_param_map list" where
  "dsc_get_map =
     [\<lparr>dm_valaddr = Some P_switches, dm_mask = CSPI_ENV_SWITCH, dm_type = DSCD_GET_SWITCH, dm_validate = None\<rparr>,
      \<lparr>dm_valaddr = Some P_gain, dm_mask = CSPI_ENV_GAIN, dm_type = DSCD_GET_GAIN, dm_validate = None\<rparr>,
      \<lparr>dm_valaddr = Some P_agc, dm_mask = CSPI_ENV_AGC, dm_type = DSCD_GET_AGC, dm_validate = None\<rparr>,
      \<lparr>dm_valaddr = Some P_dsc, dm_mask = CSPI_ENV_DSC, dm_type = DSCD_GET_DSC, dm_validate = None\<rparr>,
      \<lparr>dm_valaddr = None, dm_mask = CSPI_ENV_FREV, dm_type = DSCD_GET_FREV, dm_validate = None\<rparr>]"

definition ebpp_getdscparam :: "lib_env \<Rightarrow> CSPI_BITMASK \<Rightarrow> CSPI_ENVPARAMS \<Rightarrow> 'a libst_scheme \<Rightarrow> 'a par_result" where
  "ebpp_getdscparam e flags p s =
     (let (p, rc) = ebpp_dsc_handle_params e flags dsc_get_map p in (p, s, rc))"

section \<open>The PLL daemon\<close>

definition ebpp_is_valid_mtvcxoffset :: "u32 \<Rightarrow> bool" where
  "ebpp_is_valid_mtvcxoffset v = (sint v \<le> 500 \<and> - 500 \<le> sint v)"
definition ebpp_is_valid_mtncoshft :: "u32 \<Rightarrow> bool" where "ebpp_is_valid_mtncoshft v = (v = 0 \<or> v = 1)"
definition ebpp_is_valid_mtphsoffs :: "u32 \<Rightarrow> bool" where
  "ebpp_is_valid_mtphsoffs v = (sint v \<le> 6250 \<and> - 6250 \<le> sint v)"
definition ebpp_is_valid_mtunlcktr :: "u32 \<Rightarrow> bool" where
  "ebpp_is_valid_mtunlcktr v = (0 < sint v \<and> sint v \<le> 30000)"
definition ebpp_is_valid_mtsyncin :: "u32 \<Rightarrow> bool" where "ebpp_is_valid_mtsyncin v = (0 \<le> sint v)"
definition ebpp_is_valid_stunlcktr :: "u32 \<Rightarrow> bool" where
  "ebpp_is_valid_stunlcktr v = (0 < sint v \<and> sint v \<le> 30000)"

text \<open>\<open>%d\<close> of \<open>sprintf\<close>.\<close>

fun digits :: "nat \<Rightarrow> string" where
  "digits n = (if n < 10 then [char_of (48 + n)] else digits (n div 10) @ [char_of (48 + n mod 10)])"

definition decimal :: "int \<Rightarrow> string" where
  "decimal i = (if i < 0 then CHR ''-'' # digits (nat (- i)) else digits (nat i))"

record PLL_param_map =
  lm_valaddr :: env_member
  lm_mask :: u32
  lm_cmd :: char
  lm_validate :: "u32 \<Rightarrow> bool"

text \<open>The member \<open>mask\<close> is a \<open>size_t\<close>: the flags are cut to 32 bits on the way into the table.\<close>

definition pll_set_map :: "PLL_param_map list" where
  "pll_set_map =
     [\<lparr>lm_valaddr = P_mtvcxoffs, lm_mask = ucast CSPI_ENV_MTVCXOFFS, lm_cmd = CHR ''o'', lm_validate = ebpp_is_valid_mtvcxoffset\<rparr>,
      \<lparr>lm_valaddr = P_mtncoshft, lm_mask = ucast CSPI_ENV_MTNCOSHFT, lm_cmd = CHR ''c'', lm_validate = ebpp_is_valid_mtncoshft\<rparr>,
      \<lparr>lm_valaddr = P_mtphsoffs, lm_mask = ucast CSPI_ENV_MTPHSOFFS, lm_cmd = CHR ''f'', lm_validate = ebpp_is_valid_mtphsoffs\<rparr>,
      \<lparr>lm_valaddr = P_mtunlcktr, lm_mask = ucast CSPI_ENV_MTUNLCKTR, lm_cmd = CHR ''l'', lm_validate = ebpp_is_valid_mtunlcktr\<rparr>,
      \<lparr>lm_valaddr = P_mtsyncin, lm_mask = ucast CSPI_ENV_MTSYNCIN, lm_cmd = CHR ''s'', lm_validate = ebpp_is_valid_mtsyncin\<rparr>,
      \<lparr>lm_valaddr = P_stunlcktr, lm_mask = ucast CSPI_ENV_STUNLCKTR, lm_cmd = CHR ''k'', lm_validate = ebpp_is_valid_stunlcktr\<rparr>]"

text \<open>The command string built from the table, \<open>None\<close> on an invalid value.\<close>

fun pll_command_string :: "CSPI_BITMASK \<Rightarrow> PLL_param_map list \<Rightarrow> CSPI_ENVPARAMS \<Rightarrow> string \<Rightarrow> string option" where
  "pll_command_string flags [] p cmd = Some cmd"
| "pll_command_string flags (m # ms) p cmd =
     (if flags AND ucast (lm_mask m) \<noteq> 0 then
        if lm_validate m (p (lm_valaddr m))
        then pll_command_string flags ms p (cmd @ lm_cmd m # decimal (sint (p (lm_valaddr m))) @ '' '')
        else None
      else pll_command_string flags ms p cmd)"

text \<open>\<open>fopen\<close>, \<open>fputs\<close> and \<open>fclose\<close> on the command pipe.\<close>

definition ebpp_pll_setcmd :: "lib_env \<Rightarrow> string \<Rightarrow> 'a libst_scheme \<Rightarrow> 'a libst_scheme \<times> int" where
  "ebpp_pll_setcmd e cmd s =
     (case le_pll_command e of
        NoCommandPipe \<Rightarrow> (s, CSPI_E_INVALID_HANDLE)
      | CommandLost \<Rightarrow> (s, CSPI_E_SYSTEM)
      | CommandSent \<Rightarrow> (s\<lparr>pll_sent := pll_sent s @ [cmd]\<rparr>, CSPI_OK))"

text \<open>\<open>cmd_str\<close> has 96 bytes with the terminating zero; a longer command is written past its end.\<close>

definition ebpp_set_pllparam ::
  "lib_env \<Rightarrow> CSPI_BITMASK \<Rightarrow> CSPI_ENVPARAMS \<Rightarrow> 'a libst_scheme \<Rightarrow> 'a par_result call" where
  "ebpp_set_pllparam e flags p s =
     (case pll_command_string flags pll_set_map p [] of
        None \<Rightarrow> Ret (p, s, CSPI_E_INVALID_PARAM)
      | Some cmd \<Rightarrow>
          if 96 \<le> length cmd then Fault
          else if cmd = [] then Ret (p, s, CSPI_OK)
          else let (s, rc) = ebpp_pll_setcmd e cmd s in Ret (p, s, rc))"

text \<open>
  The status: open the status pipe, lock it, drop old answers, send the query, read the three parts.
  The content of the status block is not kept.
\<close>

definition ebpp_get_pllparam ::
  "lib_env \<Rightarrow> CSPI_BITMASK \<Rightarrow> CSPI_ENVPARAMS \<Rightarrow> 'a libst_scheme \<Rightarrow> 'a par_result" where
  "ebpp_get_pllparam e flags p s =
     (if flags AND CSPI_ENV_LPLLDSTAT = 0 then (p, s, CSPI_OK)
      else if \<not> le_pll_open e then (p, s, CSPI_E_INVALID_HANDLE)
      else if \<not> le_pll_lock e then (p, s, CSPI_E_INVALID_HANDLE)
      else
        (case ebpp_pll_setcmd e ''q '' s of
           (s, rc) \<Rightarrow> if rc = CSPI_OK then (p, s, if le_pll_reply e then CSPI_OK else CSPI_E_SYSTEM) else (p, s, rc)))"

section \<open>Setting and reading\<close>

definition custom_setenvparam ::
  "lib_env \<Rightarrow> CSPI_BITMASK \<Rightarrow> CSPI_ENVPARAMS \<Rightarrow> 'a libst_scheme \<Rightarrow> 'a par_result call" where
  "custom_setenvparam e flags p s =
     call_bind
       (case and_then (base_setenvparam e flags p s) (\<lambda>p s.
             and_then (handle_params (set_param e) flags (custom_set_map e (g_decimation s)) p s) (\<lambda>p s.
             and_then (set_coeff e flags p s) (\<lambda>p s.
               ebpp_setdscparam e flags p s))) of
          (p, s, rc) \<Rightarrow> if rc = CSPI_OK then ebpp_set_pllparam e flags p s else Ret (p, s, rc))
       (\<lambda>(p, s, rc). Ret (p, if flags AND CACHE_MASK \<noteq> 0 then s\<lparr>is_cache_dirty := True\<rparr> else s, rc))"

definition custom_getenvparam :: "lib_env \<Rightarrow> CSPI_BITMASK \<Rightarrow> CSPI_ENVPARAMS \<Rightarrow> 'a libst_scheme \<Rightarrow> 'a par_result" where
  "custom_getenvparam e flags p s =
     (if flags = 0 then (p, s, CSPI_OK)
      else
        and_then (base_getenvparam e flags p s) (\<lambda>p s.
        and_then (handle_params (get_param e) flags custom_get_map p s) (\<lambda>p s.
        and_then (ebpp_getdscparam e flags p s) (\<lambda>p s.
          ebpp_get_pllparam e flags p s))))"

text \<open>The calls of the library; \<open>h\<close> and \<open>p\<close> say whether the handle is valid and the structure given.\<close>

definition cspi_setenvparam ::
  "lib_env \<Rightarrow> bool \<Rightarrow> CSPI_ENVPARAMS option \<Rightarrow> CSPI_BITMASK \<Rightarrow> 'a libst_scheme
     \<Rightarrow> (CSPI_ENVPARAMS option \<times> 'a libst_scheme \<times> int) call" where
  "cspi_setenvparam e h p flags s =
     (if \<not> h then Ret (p, s, CSPI_E_INVALID_HANDLE)
      else (case p of
        None \<Rightarrow> Ret (p, s, CSPI_E_INVALID_PARAM)
      | Some q \<Rightarrow>
          if e_mutex s then Hang
          else call_bind (custom_setenvparam e flags q (s\<lparr>e_mutex := True\<rparr>)) (\<lambda>(q, s, rc).
            Ret (Some q, s\<lparr>e_mutex := False\<rparr>, rc))))"

definition cspi_getenvparam ::
  "lib_env \<Rightarrow> bool \<Rightarrow> CSPI_ENVPARAMS option \<Rightarrow> CSPI_BITMASK \<Rightarrow> 'a libst_scheme
     \<Rightarrow> (CSPI_ENVPARAMS option \<times> 'a libst_scheme \<times> int) call" where
  "cspi_getenvparam e h p flags s =
     (if \<not> h then Ret (p, s, CSPI_E_INVALID_HANDLE)
      else (case p of
        None \<Rightarrow> Ret (p, s, CSPI_E_INVALID_PARAM)
      | Some q \<Rightarrow>
          if e_mutex s then Hang
          else (case custom_getenvparam e flags q (s\<lparr>e_mutex := True\<rparr>) of
            (q, s, rc) \<Rightarrow> Ret (Some q, s\<lparr>e_mutex := False\<rparr>, rc))))"

section \<open>The cache\<close>

text \<open>
  The cached copy of the parameters, with the beam-current dependent offsets added. An error of the two
  extra requests returns with the mutex of the cache held.
\<close>

definition cached :: "CSPI_ENVPARAMS \<Rightarrow> Cache \<Rightarrow> Cache" where
  "cached ep c = c\<lparr>c_Kx := ep P_Kx, c_Ky := ep P_Ky,
     c_Xoffset := ep P_Xoffset, c_Yoffset := ep P_Yoffset, c_Qoffset := ep P_Qoffset\<rparr>"

definition cached_rest :: "CSPI_ENVPARAMS \<Rightarrow> Cache \<Rightarrow> Cache" where
  "cached_rest ep c = c\<lparr>sp_threshold := ep (P_sp SP_threshold), sp_n_before := ep (P_sp SP_n_before),
     sp_n_after := ep (P_sp SP_n_after), sr_dsc := ep P_dsc, sr_enable := ep (P_sr SR_enable),
     sr_cspi_enable := ep (P_sr SR_cspi_enable), sr_averaging_stop := ep (P_sr SR_averaging_stop),
     sr_average_window := ep (P_sr SR_average_window), sr_start := ep (P_sr SR_start),
     sr_window := ep (P_sr SR_window)\<rparr>"

text \<open>\<open>junk\<close> is what the structure on the stack holds before.\<close>

definition ebpp_update_cache :: "lib_env \<Rightarrow> CSPI_ENVPARAMS \<Rightarrow> 'a libst_scheme \<Rightarrow> ('a libst_scheme \<times> int) call" where
  "ebpp_update_cache e junk s =
     (case custom_getenvparam e CACHE_MASK junk s of
        (ep, s, rc) \<Rightarrow>
          if rc \<noteq> CSPI_OK then Ret (s, rc)
          else if cache_mutex s then Hang
          else
            let s = s\<lparr>cache_mutex := True, cache := cached ep (cache s)\<rparr> in
            (case cfg_dev_get e LIBERA_CFG_BCD_XOFFSET (krn s) of
               None \<Rightarrow> Ret (s, CSPI_E_SYSTEM)
             | Some x \<Rightarrow>
                 let s = s\<lparr>cache := (cache s)\<lparr>c_Xoffset := c_Xoffset (cache s) + x\<rparr>\<rparr> in
                 (case cfg_dev_get e LIBERA_CFG_BCD_YOFFSET (krn s) of
                    None \<Rightarrow> Ret (s, CSPI_E_SYSTEM)
                  | Some y \<Rightarrow>
                      let s = s\<lparr>cache := (cache s)\<lparr>c_Yoffset := c_Yoffset (cache s) + y\<rparr>\<rparr> in
                      Ret (s\<lparr>cache := cached_rest ep (cache s), cache_mutex := False\<rparr>, rc))))"

definition custom_initop :: "lib_env \<Rightarrow> CSPI_ENVPARAMS \<Rightarrow> 'a libst_scheme \<Rightarrow> ('a libst_scheme \<times> int) call" where
  "custom_initop e junk s =
     (if is_cache_dirty s then
        if e_mutex s then Hang
        else
          call_bind (ebpp_update_cache e junk (s\<lparr>is_cache_dirty := False, e_mutex := True\<rparr>)) (\<lambda>(s, rc).
            Ret (s\<lparr>e_mutex := False\<rparr>, rc))
      else Ret (s, CSPI_OK))"

text \<open>Events of the configuration that concern a cached parameter make the cache stale.\<close>

definition hook_params :: "nat list" where
  "hook_params =
     [LIBERA_CFG_KX, LIBERA_CFG_KY, LIBERA_CFG_XOFFSET, LIBERA_CFG_YOFFSET, LIBERA_CFG_QOFFSET, LIBERA_CFG_LEVEL,
      LIBERA_CFG_DSC, LIBERA_CFG_SR_CSPI_ENABLE, LIBERA_CFG_SR_AVERAGING_STOP, LIBERA_CFG_SR_AVERAGE_WINDOW,
      LIBERA_CFG_SR_START, LIBERA_CFG_SR_WINDOW, LIBERA_CFG_SP_THRESHOLD, LIBERA_CFG_SP_N_BEFORE,
      LIBERA_CFG_SP_N_AFTER]"

definition signal_handler_hook :: "libera_event_t \<Rightarrow> 'a libst_scheme \<Rightarrow> 'a libst_scheme" where
  "signal_handler_hook ev s =
     (if ev_id ev = LIBERA_EVENT_CFG \<and> unat (ev_param ev) \<in> set hook_params then s\<lparr>is_cache_dirty := True\<rparr> else s)"

end
