(* ===== verification/Cspi_Con.thy ===== *)
theory Cspi_Con
  imports Cspi_Env Eventd
begin

text \<open>
  Handles and connections of the CSPI library (\<open>cspi.c\<close>, \<open>cspi_events.c\<close>, the part of \<open>cspi/ebpp.c\<close> they
  use): the environment and its list of connections, parameters of the library and of a connection,
  opening a data source, reading samples, setting the time, and the thread that hands events to the
  connections. Assertions are compiled out, as in the release build.
\<close>

section \<open>State\<close>

definition CSPI_MODE_UNKNOWN :: s32 where "CSPI_MODE_UNKNOWN = 0"
definition CSPI_MODE_DD :: s32 where "CSPI_MODE_DD = 1"
definition CSPI_MODE_SA :: s32 where "CSPI_MODE_SA = 2"
definition CSPI_MODE_PM :: s32 where "CSPI_MODE_PM = 3"
definition CSPI_MODE_ADC :: s32 where "CSPI_MODE_ADC = 4"
definition CSPI_MODE_AVERAGE :: s32 where "CSPI_MODE_AVERAGE = 5"
definition CSPI_MODE_ADC_CW :: s32 where "CSPI_MODE_ADC_CW = 6"
definition CSPI_MODE_ADC_SP :: s32 where "CSPI_MODE_ADC_SP = 7"
definition CSPI_MODE_ADC_SP_ROT :: s32 where "CSPI_MODE_ADC_SP_ROT = 8"

lemmas cspi_modes =
  CSPI_MODE_UNKNOWN_def CSPI_MODE_DD_def CSPI_MODE_SA_def CSPI_MODE_PM_def CSPI_MODE_ADC_def CSPI_MODE_AVERAGE_def
  CSPI_MODE_ADC_CW_def CSPI_MODE_ADC_SP_def CSPI_MODE_ADC_SP_ROT_def

definition CSPI_VER :: s32 where "CSPI_VER = 0x0010"
definition CSPI_LIB_VERSION :: CSPI_BITMASK where "CSPI_LIB_VERSION = cspi_bit 0"
definition CSPI_LIB_SUPERUSER :: CSPI_BITMASK where "CSPI_LIB_SUPERUSER = cspi_bit 1"
definition CSPI_CON_MODE :: CSPI_BITMASK where "CSPI_CON_MODE = cspi_bit 0"
definition CSPI_CON_HANDLER :: CSPI_BITMASK where "CSPI_CON_HANDLER = cspi_bit 1"
definition CSPI_CON_USERDATA :: CSPI_BITMASK where "CSPI_CON_USERDATA = cspi_bit 2"
definition CSPI_CON_EVENTMASK :: CSPI_BITMASK where "CSPI_CON_EVENTMASK = cspi_bit 3"
definition CSPI_CON_DEC :: CSPI_BITMASK where "CSPI_CON_DEC = cspi_bit 8"
definition CSPI_CON_SANONBLOCK :: CSPI_BITMASK where "CSPI_CON_SANONBLOCK = cspi_bit 9"
definition CSPI_TIME_MT :: CSPI_BITMASK where "CSPI_TIME_MT = cspi_bit 0"
definition CSPI_TIME_ST :: CSPI_BITMASK where "CSPI_TIME_ST = cspi_bit 1"

lemmas con_flags =
  cspi_bit_def CSPI_CON_MODE_def CSPI_CON_HANDLER_def CSPI_CON_USERDATA_def CSPI_CON_EVENTMASK_def CSPI_CON_DEC_def
  CSPI_CON_SANONBLOCK_def CSPI_LIB_VERSION_def CSPI_LIB_SUPERUSER_def CSPI_TIME_MT_def CSPI_TIME_ST_def

text \<open>A connection; its descriptor is that of the device file, \<open>None\<close> for -1. A null handler is \<open>None\<close>.\<close>

record Connection = dnode +
  connection_id :: s32
  c_mode :: s32
  c_fd :: "nat option"
  c_pid :: s32
  c_event_mask :: CSPI_BITMASK
  c_handler :: "nat option"
  c_user_data :: u32
  c_timestamp :: libera_timestamp_t

text \<open>
  The environment (there is one) with the library's parameters, the memory of the connections, whether the
  event thread and its named pipe exist, the requests written to the event daemon, and the buffers that
  were allocated and not freed.
\<close>

record cspi = libst +
  usage_count :: u32
  evaction :: bool
  connection_count :: u32
  con_head :: "nat option"
  con_heap :: "Connection heap"
  env_fd :: "filp option"
  lib_version :: s32
  superuser :: s32
  last_id :: s32
  event_pipe :: bool
  evd_requests :: "Request list"
  buffers :: nat

text \<open>A handle: null, the environment, a connection, or a pointer to something else.\<close>

datatype CSPIHANDLE = NULL_HANDLE | ENV_HANDLE | CON_HANDLE nat | FOREIGN_HANDLE

text \<open>
  What the library finds around it: the number of a file it opens, whether the driver's magic number is
  its own, memory, the request pipe of the event daemon, its own named pipe and thread, its process
  number, and the system calls on the data sources.
\<close>

datatype daemon_pipe = NoRequestPipe | NoDaemon | RequestLost | RequestTaken

record sys =
  sy_file :: nat
  sy_magic :: bool
  sy_malloc :: "nat option"
  sy_buffer :: bool
  sy_daemon :: daemon_pipe
  sy_pipe :: bool
  sy_thread :: bool
  sy_pid :: s32
  sy_open :: "string \<Rightarrow> kernel \<Rightarrow> (kernel \<times> nat option) call"
  sy_close :: "nat \<Rightarrow> kernel \<Rightarrow> kernel \<times> bool"
  sy_lseek :: "nat \<Rightarrow> u64 \<Rightarrow> int \<Rightarrow> kernel \<Rightarrow> (kernel \<times> bool) call"
  sy_read :: "nat \<Rightarrow> u32 \<Rightarrow> kernel \<Rightarrow> (kernel \<times> (errno + s32 list)) call"
  sy_tstamp :: "s32 \<Rightarrow> nat \<Rightarrow> kernel \<Rightarrow> (kernel \<times> libera_timestamp_t option) call"
  sy_set_dec :: "nat \<Rightarrow> u32 \<Rightarrow> kernel \<Rightarrow> (kernel \<times> bool) call"
  sy_get_dec :: "nat \<Rightarrow> kernel \<Rightarrow> (kernel \<times> u32 option) call"
  sy_nonblock :: "nat \<Rightarrow> bool \<Rightarrow> kernel \<Rightarrow> kernel \<times> bool"

text \<open>Requests of the environment go to its descriptor; on -1 they fail.\<close>

definition with_fd :: "cspi \<Rightarrow> lib_env \<Rightarrow> lib_env" where
  "with_fd s e =
     (case env_fd s of
        Some f \<Rightarrow> e\<lparr>le_filp := f\<rparr>
      | None \<Rightarrow> e\<lparr>le_filp := (le_filp e)\<lparr>fmode_write := False\<rparr>, le_io := (le_io e)\<lparr>io_access := False\<rparr>\<rparr>)"

text \<open>The mutex of the environment.\<close>

definition env_lock :: "cspi \<Rightarrow> cspi call" where
  "env_lock s = (if e_mutex s then Hang else Ret (s\<lparr>e_mutex := True\<rparr>))"

definition env_unlock :: "cspi \<Rightarrow> cspi" where
  "env_unlock s = s\<lparr>e_mutex := False\<rparr>"

section \<open>Environment\<close>

definition is_validmode :: "s32 \<Rightarrow> bool" where
  "is_validmode m = (m \<in> {CSPI_MODE_DD, CSPI_MODE_SA, CSPI_MODE_PM, CSPI_MODE_ADC, CSPI_MODE_ADC_CW, CSPI_MODE_ADC_SP,
     CSPI_MODE_ADC_SP_ROT, CSPI_MODE_AVERAGE})"

definition is_validversion :: "s32 \<Rightarrow> bool" where "is_validversion v = (v = CSPI_VER)"

definition test_drvmismatch :: "lib_env \<Rightarrow> sys \<Rightarrow> cspi \<Rightarrow> int" where
  "test_drvmismatch e sy s =
     (case libera_cfg_ioctl (le_filp (with_fd s e)) GET_MAGIC (le_io (with_fd s e)) (krn s) of
        (_, Inl _, _) \<Rightarrow> CSPI_E_SYSTEM
      | (_, Inr _, _) \<Rightarrow> if sy_magic sy then CSPI_OK else CSPI_E_VERSION)"

text \<open>The first user opens the configuration device, for writing as superuser.\<close>

definition base_initenv :: "lib_env \<Rightarrow> sys \<Rightarrow> cspi \<Rightarrow> (cspi \<times> int) call" where
  "base_initenv e sy s =
     (if usage_count s = 1 then
        let f = \<lparr>file_id = sy_file sy, fmode_read = True, fmode_write = (superuser s \<noteq> 0), o_nonblock = False\<rparr> in
        call_bind (libera_cfg_open f (krn s)) (\<lambda>(k, r).
          case r of
            Inl _ \<Rightarrow> Ret (s\<lparr>krn := k, env_fd := None\<rparr>, CSPI_E_SYSTEM)
          | Inr _ \<Rightarrow> let s = s\<lparr>krn := k, env_fd := Some f\<rparr> in Ret (s, test_drvmismatch e sy s))
      else Ret (s, test_drvmismatch e sy s))"

definition custom_initenv :: "lib_env \<Rightarrow> sys \<Rightarrow> cspi \<Rightarrow> (cspi \<times> int) call" where
  "custom_initenv e sy s =
     call_bind (base_initenv e sy s) (\<lambda>(s, rc).
       let (s, rc) = (if rc = 0 then
                        (case cfg_dev_get (with_fd s e) LIBERA_CFG_DEC_DDC (krn s) of
                           None \<Rightarrow> (s, CSPI_E_SYSTEM)
                         | Some v \<Rightarrow> (s\<lparr>g_decimation := v\<rparr>, rc))
                      else (s, rc))
       in Ret (s\<lparr>is_cache_dirty := True\<rparr>, rc))"

definition alloc_env :: "lib_env \<Rightarrow> sys \<Rightarrow> cspi \<Rightarrow> (cspi \<times> int) call" where
  "alloc_env e sy s =
     call_bind (env_lock s) (\<lambda>s.
     call_bind (custom_initenv e sy (s\<lparr>usage_count := usage_count s + 1\<rparr>)) (\<lambda>(s, rc).
       Ret (env_unlock s, rc)))"

definition free_env :: "cspi \<Rightarrow> cspi call" where
  "free_env s = call_bind (env_lock s) (\<lambda>s. Ret (env_unlock (s\<lparr>usage_count := usage_count s - 1\<rparr>)))"

text \<open>With connections left, the function returns with the mutex locked.\<close>

definition destroy_env :: "cspi \<Rightarrow> (cspi \<times> int) call" where
  "destroy_env s =
     call_bind (env_lock s) (\<lambda>s.
       if usage_count s = 1 then
         if connection_count s \<noteq> 0 then Ret (s, CSPI_E_SEQUENCE)
         else
           let k = (case env_fd s of None \<Rightarrow> krn s | Some f \<Rightarrow> libera_cfg_release f (krn s))
           in Ret (env_unlock (s\<lparr>krn := k, env_fd := None\<rparr>), CSPI_OK)
       else Ret (env_unlock s, CSPI_OK))"

section \<open>Events\<close>

text \<open>
  A request to the event daemon. Opening the request pipe for writing waits for a daemon to read it.
\<close>

definition do_event_handler_registration :: "sys \<Rightarrow> s32 \<Rightarrow> s32 \<Rightarrow> u32 \<Rightarrow> cspi \<Rightarrow> (cspi \<times> int) call" where
  "do_event_handler_registration sy pid uid msk s =
     (case sy_daemon sy of
        NoRequestPipe \<Rightarrow> Ret (s, - 1)
      | NoDaemon \<Rightarrow> Hang
      | RequestLost \<Rightarrow> Ret (s, - 1)
      | RequestTaken \<Rightarrow> Ret (s\<lparr>evd_requests := evd_requests s @ [\<lparr>r_pid = pid, r_uid = uid, r_mask = msk\<rparr>]\<rparr>, 0))"

definition register_event_handler :: "sys \<Rightarrow> Connection \<Rightarrow> cspi \<Rightarrow> (cspi \<times> int) call" where
  "register_event_handler sy c = do_event_handler_registration sy (c_pid c) (connection_id c) (ucast (c_event_mask c))"

definition unregister_event_handler :: "sys \<Rightarrow> Connection \<Rightarrow> cspi \<Rightarrow> (cspi \<times> int) call" where
  "unregister_event_handler sy c = do_event_handler_registration sy (c_pid c) (connection_id c) 0"

text \<open>The first handler creates the named pipe and the thread that reads it.\<close>

definition create_event_thread :: "sys \<Rightarrow> Connection \<Rightarrow> cspi \<Rightarrow> (cspi \<times> int) call" where
  "create_event_thread sy c s =
     (if evaction s then register_event_handler sy c s
      else if c_event_mask c = 0 \<or> c_handler c = None then Ret (s, CSPI_OK)
      else if \<not> sy_pipe sy then Ret (s, CSPI_E_SYSTEM)
      else
        let s = s\<lparr>event_pipe := True\<rparr> in
        if \<not> sy_thread sy then Ret (s, CSPI_E_SYSTEM)
        else register_event_handler sy c (s\<lparr>evaction := True\<rparr>))"

text \<open>The thread removes the named pipe when it ends; joining it waits for that.\<close>

definition destroy_event_thread :: "cspi \<Rightarrow> cspi" where
  "destroy_event_thread s = (if evaction s then s\<lparr>evaction := False, event_pipe := False\<rparr> else s)"

text \<open>
  The thread with one event: the hook, then the handler of each connection whose mask has all bits of the
  event, until one returns 0. The result is the list of calls: handler, event, user data.
\<close>

partial_function (option) dispatch_cons ::
  "(nat \<Rightarrow> libera_event_t \<Rightarrow> u32 \<Rightarrow> bool) \<Rightarrow> libera_event_t \<Rightarrow> Connection heap \<Rightarrow> nat option
     \<Rightarrow> (nat \<times> u32) list \<Rightarrow> (nat \<times> u32) list call option" where
  "dispatch_cons cont ev h p calls =
     (case p of
        None \<Rightarrow> Some (Ret calls)
      | Some a \<Rightarrow> (case h a of
            None \<Rightarrow> Some Fault
          | Some c \<Rightarrow>
              (case c_handler c of
                 Some f \<Rightarrow>
                   if scast (ev_id ev) AND c_event_mask c = scast (ev_id ev) then
                     let calls = calls @ [(f, c_user_data c)] in
                     if cont f ev (c_user_data c) then dispatch_cons cont ev h (d_next c) calls else Some (Ret calls)
                   else dispatch_cons cont ev h (d_next c) calls
               | None \<Rightarrow> dispatch_cons cont ev h (d_next c) calls)))"

definition thread_event ::
  "(nat \<Rightarrow> libera_event_t \<Rightarrow> u32 \<Rightarrow> bool) \<Rightarrow> libera_event_t \<Rightarrow> cspi \<Rightarrow> (cspi \<times> (nat \<times> u32) list) call" where
  "thread_event cont ev s =
     (let s = signal_handler_hook ev s in
      call_bind (returned (dispatch_cons cont ev (con_heap s) (con_head s) [])) (\<lambda>calls. Ret (s, calls)))"

section \<open>Connections\<close>

definition upd_con :: "(Connection \<Rightarrow> Connection) \<Rightarrow> nat \<Rightarrow> cspi \<Rightarrow> cspi call" where
  "upd_con f a s = call_bind (heap_upd f a (con_heap s)) (\<lambda>h. Ret (s\<lparr>con_heap := h\<rparr>))"

definition insert_con :: "nat \<Rightarrow> cspi \<Rightarrow> cspi call" where
  "insert_con a s =
     call_bind (env_lock s) (\<lambda>s.
     call_bind (dl_insert a (con_head s, con_heap s)) (\<lambda>(hd', h).
       Ret (env_unlock (s\<lparr>con_head := hd', con_heap := h, connection_count := connection_count s + 1\<rparr>))))"

text \<open>Only the last connection leaves the event daemon, with its own process and connection number.\<close>

definition remove_con :: "sys \<Rightarrow> nat \<Rightarrow> cspi \<Rightarrow> cspi call" where
  "remove_con sy a s =
     call_bind (env_lock s) (\<lambda>s.
     call_bind (dl_remove a (con_head s, con_heap s)) (\<lambda>(hd', h).
       let s = s\<lparr>con_head := hd', con_heap := h, connection_count := connection_count s - 1\<rparr> in
       if connection_count s = 0 then
         call_bind (heap_get a (con_heap s)) (\<lambda>c.
         call_bind (unregister_event_handler sy c s) (\<lambda>(s, _).
           Ret (env_unlock (destroy_event_thread s))))
       else Ret (env_unlock s)))"

text \<open>Without memory the null pointer is initialised.\<close>

definition alloc_con :: "sys \<Rightarrow> cspi \<Rightarrow> (cspi \<times> nat) call" where
  "alloc_con sy s =
     (case sy_malloc sy of
        None \<Rightarrow> Fault
      | Some a \<Rightarrow>
          let cid = last_id s + 1;
              c = \<lparr>d_prev = None, d_next = None, connection_id = cid, c_mode = CSPI_MODE_UNKNOWN, c_fd = None, c_pid = 0,
                   c_event_mask = 0xffff, c_handler = None, c_user_data = 0, c_timestamp = zero_timestamp\<rparr>
          in call_bind (insert_con a (s\<lparr>last_id := cid, con_heap := (con_heap s)(a \<mapsto> c)\<rparr>)) (\<lambda>s. Ret (s, a)))"

definition free_con :: "nat \<Rightarrow> cspi \<Rightarrow> cspi" where
  "free_con a s = s\<lparr>con_heap := (con_heap s)(a := None)\<rparr>"

datatype handle_type = CSPI_HANDLE_ENV | CSPI_HANDLE_CON | OTHER_HANDLE_TYPE

text \<open>The new handle is the middle component; \<open>None\<close>: nothing is stored (\<open>p\<close> says whether there is a place).\<close>

definition cspi_allochandle ::
  "lib_env \<Rightarrow> sys \<Rightarrow> handle_type \<Rightarrow> CSPIHANDLE \<Rightarrow> bool \<Rightarrow> cspi \<Rightarrow> (cspi \<times> CSPIHANDLE option \<times> int) call" where
  "cspi_allochandle e sy ty h p s =
     (if \<not> p then Ret (s, None, CSPI_E_INVALID_PARAM)
      else (case ty of
        CSPI_HANDLE_ENV \<Rightarrow>
          call_bind (alloc_env e sy s) (\<lambda>(s, rc).
            if rc \<noteq> CSPI_OK then call_bind (free_env s) (\<lambda>s. Ret (s, Some NULL_HANDLE, rc))
            else Ret (s, Some ENV_HANDLE, rc))
      | CSPI_HANDLE_CON \<Rightarrow>
          if h \<noteq> ENV_HANDLE then Ret (s, None, CSPI_E_INVALID_HANDLE)
          else call_bind (alloc_con sy s) (\<lambda>(s, a). Ret (s, Some (CON_HANDLE a), CSPI_OK))
      | OTHER_HANDLE_TYPE \<Rightarrow> Ret (s, None, CSPI_E_INVALID_PARAM)))"

definition cspi_freehandle :: "sys \<Rightarrow> handle_type \<Rightarrow> CSPIHANDLE \<Rightarrow> cspi \<Rightarrow> (cspi \<times> int) call" where
  "cspi_freehandle sy ty h s =
     (if h = NULL_HANDLE then Ret (s, CSPI_OK)
      else (case ty of
        CSPI_HANDLE_ENV \<Rightarrow>
          if h \<noteq> ENV_HANDLE then Ret (s, CSPI_E_INVALID_HANDLE)
          else call_bind (destroy_env s) (\<lambda>(s, rc).
                 if rc = CSPI_OK then call_bind (free_env s) (\<lambda>s. Ret (s, rc)) else Ret (s, rc))
      | CSPI_HANDLE_CON \<Rightarrow>
          (case h of
             CON_HANDLE a \<Rightarrow>
               call_bind (heap_get a (con_heap s)) (\<lambda>c.
                 if c_fd c \<noteq> None then Ret (s, CSPI_E_SEQUENCE)
                 else call_bind (remove_con sy a s) (\<lambda>s. Ret (free_con a s, CSPI_OK)))
           | _ \<Rightarrow> Ret (s, CSPI_E_INVALID_HANDLE))
      | OTHER_HANDLE_TYPE \<Rightarrow> Ret (s, CSPI_E_INVALID_PARAM)))"

text \<open>What a call on a connection does first: the handle is checked, the connection read.\<close>

definition on_con :: "CSPIHANDLE \<Rightarrow> cspi \<Rightarrow> 'a \<Rightarrow> (nat \<Rightarrow> Connection \<Rightarrow> (cspi \<times> 'a \<times> int) call) \<Rightarrow> (cspi \<times> 'a \<times> int) call" where
  "on_con h s x f =
     (case h of
        CON_HANDLE a \<Rightarrow> call_bind (heap_get a (con_heap s)) (f a)
      | _ \<Rightarrow> Ret (s, x, CSPI_E_INVALID_HANDLE))"

section \<open>Parameters of the library and of connections\<close>

record CSPI_LIBPARAMS =
  lp_version :: s32
  lp_superuser :: s32

definition set_libparam :: "CSPI_LIBPARAMS \<Rightarrow> CSPI_BITMASK \<Rightarrow> cspi \<Rightarrow> cspi \<times> int" where
  "set_libparam p flags s =
     (if flags AND CSPI_LIB_VERSION \<noteq> 0 \<and> \<not> is_validversion (lp_version p) then (s, CSPI_E_INVALID_PARAM)
      else
        let s = (if flags AND CSPI_LIB_VERSION \<noteq> 0 then s\<lparr>lib_version := lp_version p\<rparr> else s);
            s = (if flags AND CSPI_LIB_SUPERUSER \<noteq> 0 then s\<lparr>superuser := lp_superuser p\<rparr> else s)
        in (s, CSPI_OK))"

definition cspi_setlibparam :: "CSPI_LIBPARAMS option \<Rightarrow> CSPI_BITMASK \<Rightarrow> cspi \<Rightarrow> (cspi \<times> int) call" where
  "cspi_setlibparam p flags s =
     (case p of
        None \<Rightarrow> Ret (s, CSPI_E_INVALID_PARAM)
      | Some p \<Rightarrow> call_bind (env_lock s) (\<lambda>s. let (s, rc) = set_libparam p flags s in Ret (env_unlock s, rc)))"

definition get_libparam :: "CSPI_LIBPARAMS \<Rightarrow> CSPI_BITMASK \<Rightarrow> cspi \<Rightarrow> CSPI_LIBPARAMS" where
  "get_libparam p flags s =
     (let p = (if flags AND CSPI_LIB_VERSION \<noteq> 0 then p\<lparr>lp_version := lib_version s\<rparr> else p)
      in if flags AND CSPI_LIB_SUPERUSER \<noteq> 0 then p\<lparr>lp_superuser := superuser s\<rparr> else p)"

definition cspi_getlibparam ::
  "CSPI_LIBPARAMS option \<Rightarrow> CSPI_BITMASK \<Rightarrow> cspi \<Rightarrow> (cspi \<times> CSPI_LIBPARAMS option \<times> int) call" where
  "cspi_getlibparam p flags s =
     (case p of
        None \<Rightarrow> Ret (s, None, CSPI_E_INVALID_PARAM)
      | Some p \<Rightarrow> call_bind (env_lock s) (\<lambda>s. Ret (env_unlock s, Some (get_libparam p flags s), CSPI_OK)))"

record CSPI_CONPARAMS =
  cp_mode :: s32
  cp_handler :: "nat option"
  cp_user_data :: u32
  cp_event_mask :: CSPI_BITMASK
  cp_dec :: u32
  cp_nonblock :: u32

definition base_setconparam ::
  "sys \<Rightarrow> nat \<Rightarrow> CSPI_CONPARAMS \<Rightarrow> CSPI_BITMASK \<Rightarrow> cspi \<Rightarrow> (cspi \<times> int) call" where
  "base_setconparam sy a p flags s =
     (if flags = 0 then Ret (s, CSPI_OK)
      else if flags AND CSPI_CON_MODE \<noteq> 0 \<and> \<not> is_validmode (cp_mode p) then Ret (s, CSPI_E_INVALID_PARAM)
      else
        call_bind (if flags AND CSPI_CON_MODE \<noteq> 0 then upd_con (c_mode_update (\<lambda>_. cp_mode p)) a s else Ret s) (\<lambda>s.
        call_bind (if flags AND CSPI_CON_EVENTMASK \<noteq> 0 then upd_con (c_event_mask_update (\<lambda>_. cp_event_mask p)) a s else Ret s) (\<lambda>s.
        call_bind
          (if flags AND CSPI_CON_HANDLER \<noteq> 0 \<and> cp_handler p \<noteq> None then
             call_bind (upd_con (\<lambda>c. c\<lparr>c_pid := sy_pid sy, c_handler := cp_handler p\<rparr>) a s) (\<lambda>s.
             call_bind (env_lock s) (\<lambda>s.
             call_bind (heap_get a (con_heap s)) (\<lambda>c.
             call_bind (create_event_thread sy c s) (\<lambda>(s, rc). Ret (env_unlock s, rc)))))
           else Ret (s, CSPI_OK)) (\<lambda>(s, rc).
        call_bind (if flags AND CSPI_CON_USERDATA \<noteq> 0 then upd_con (c_user_data_update (\<lambda>_. cp_user_data p)) a s else Ret s)
          (\<lambda>s. Ret (s, rc))))))"

text \<open>The parameters of the EBPP: the decimation of a DD connection, waiting on an SA connection.\<close>

definition custom_setconparam ::
  "sys \<Rightarrow> nat \<Rightarrow> CSPI_CONPARAMS \<Rightarrow> CSPI_BITMASK \<Rightarrow> cspi \<Rightarrow> (cspi \<times> int) call" where
  "custom_setconparam sy a p flags s =
     call_bind (base_setconparam sy a p flags s) (\<lambda>(s, rc).
       if rc \<noteq> CSPI_OK then Ret (s, rc)
       else
         call_bind (heap_get a (con_heap s)) (\<lambda>c.
         call_bind
           (if flags AND CSPI_CON_DEC \<noteq> 0 then
              (case c_fd c of
                 None \<Rightarrow> Ret (s, CSPI_E_SEQUENCE)
               | Some fd \<Rightarrow>
                   if c_mode c \<noteq> CSPI_MODE_DD then Ret (s, CSPI_E_ILLEGAL_CALL)
                   else if \<not> ebpp_is_validdec (cp_dec p) then Ret (s, CSPI_E_INVALID_PARAM)
                   else call_bind (sy_set_dec sy fd (cp_dec p) (krn s)) (\<lambda>(k, ok).
                     Ret (s\<lparr>krn := k\<rparr>, if ok then CSPI_OK else CSPI_E_SYSTEM)))
            else Ret (s, CSPI_OK)) (\<lambda>(s, rc).
           if rc \<noteq> CSPI_OK then Ret (s, rc)
           else if flags AND CSPI_CON_SANONBLOCK \<noteq> 0 then
             (case c_fd c of
                None \<Rightarrow> Ret (s, CSPI_E_SEQUENCE)
              | Some fd \<Rightarrow>
                  if c_mode c \<noteq> CSPI_MODE_SA then Ret (s, CSPI_E_ILLEGAL_CALL)
                  else let (k, ok) = sy_nonblock sy fd (cp_nonblock p \<noteq> 0) (krn s)
                       in Ret (s\<lparr>krn := k\<rparr>, if ok then CSPI_OK else CSPI_E_SYSTEM))
           else Ret (s, rc))))"

definition cspi_setconparam ::
  "sys \<Rightarrow> CSPIHANDLE \<Rightarrow> CSPI_CONPARAMS option \<Rightarrow> CSPI_BITMASK \<Rightarrow> cspi \<Rightarrow> (cspi \<times> CSPI_CONPARAMS option \<times> int) call" where
  "cspi_setconparam sy h p flags s =
     on_con h s p (\<lambda>a c.
       case p of
         None \<Rightarrow> Ret (s, p, CSPI_E_INVALID_PARAM)
       | Some q \<Rightarrow> call_bind (custom_setconparam sy a q flags s) (\<lambda>(s, rc). Ret (s, p, rc)))"

text \<open>Reading the parameters back calls the function that sets them.\<close>

definition cspi_getconparam ::
  "sys \<Rightarrow> CSPIHANDLE \<Rightarrow> CSPI_CONPARAMS option \<Rightarrow> CSPI_BITMASK \<Rightarrow> cspi \<Rightarrow> (cspi \<times> CSPI_CONPARAMS option \<times> int) call" where
  "cspi_getconparam sy h p flags s =
     on_con h s p (\<lambda>a c.
       case p of
         None \<Rightarrow> Ret (s, p, CSPI_E_INVALID_PARAM)
       | Some q \<Rightarrow>
           if c_fd c = None then Ret (s, p, CSPI_E_SEQUENCE)
           else call_bind (custom_setconparam sy a q flags s) (\<lambda>(s, rc). Ret (s, p, rc)))"

text \<open>The functions that would read them.\<close>

definition base_getconparam :: "Connection \<Rightarrow> CSPI_CONPARAMS \<Rightarrow> CSPI_BITMASK \<Rightarrow> CSPI_CONPARAMS" where
  "base_getconparam c p flags =
     (if flags = 0 then p
      else
        let p = (if flags AND CSPI_CON_MODE \<noteq> 0 then p\<lparr>cp_mode := c_mode c\<rparr> else p);
            p = (if flags AND CSPI_CON_HANDLER \<noteq> 0 then p\<lparr>cp_handler := c_handler c\<rparr> else p);
            p = (if flags AND CSPI_CON_USERDATA \<noteq> 0 then p\<lparr>cp_user_data := c_user_data c\<rparr> else p)
        in if flags AND CSPI_CON_EVENTMASK \<noteq> 0 then p\<lparr>cp_event_mask := c_event_mask c\<rparr> else p)"

definition custom_getconparam ::
  "sys \<Rightarrow> Connection \<Rightarrow> CSPI_CONPARAMS \<Rightarrow> CSPI_BITMASK \<Rightarrow> cspi \<Rightarrow> (cspi \<times> CSPI_CONPARAMS \<times> int) call" where
  "custom_getconparam sy c p flags s =
     (let p = base_getconparam c p flags in
      if flags AND CSPI_CON_DEC = 0 then Ret (s, p, CSPI_OK)
      else if c_mode c \<noteq> CSPI_MODE_DD then Ret (s, p, CSPI_E_ILLEGAL_CALL)
      else (case c_fd c of
        None \<Rightarrow> Ret (s, p, CSPI_E_SYSTEM)
      | Some fd \<Rightarrow> call_bind (sy_get_dec sy fd (krn s)) (\<lambda>(k, r).
          case r of
            None \<Rightarrow> Ret (s\<lparr>krn := k\<rparr>, p, CSPI_E_SYSTEM)
          | Some d \<Rightarrow> Ret (s\<lparr>krn := k\<rparr>, p\<lparr>cp_dec := d\<rparr>, CSPI_OK))))"

section \<open>Data sources\<close>

definition get_devicename :: "s32 \<Rightarrow> string" where
  "get_devicename m =
     [''notused'', ''/dev/libera.dd'', ''/dev/libera.sa'', ''/dev/libera.pm'', ''/dev/libera.adc'', ''/dev/libera.dd'',
      ''/dev/libera.adc'', ''/dev/libera.adc'', ''/dev/libera.adc''] ! unat m"

definition cspi_connect :: "sys \<Rightarrow> CSPIHANDLE \<Rightarrow> cspi \<Rightarrow> (cspi \<times> unit \<times> int) call" where
  "cspi_connect sy h s =
     on_con h s () (\<lambda>a c.
       if c_fd c \<noteq> None then Ret (s, (), CSPI_E_SEQUENCE)
       else if c_mode c = CSPI_MODE_UNKNOWN then Ret (s, (), CSPI_E_INVALID_MODE)
       else if 9 \<le> unat (c_mode c) then Fault
       else
         call_bind (sy_open sy (get_devicename (c_mode c)) (krn s)) (\<lambda>(k, fd).
           let s = s\<lparr>krn := k\<rparr> in
           case fd of
             None \<Rightarrow> Ret (s, (), CSPI_E_SYSTEM)
           | Some n \<Rightarrow>
               call_bind (upd_con (\<lambda>c. c\<lparr>c_fd := Some n, c_timestamp := zero_timestamp\<rparr>) a s) (\<lambda>s. Ret (s, (), CSPI_OK))))"

definition cspi_disconnect :: "sys \<Rightarrow> CSPIHANDLE \<Rightarrow> cspi \<Rightarrow> (cspi \<times> unit \<times> int) call" where
  "cspi_disconnect sy h s =
     on_con h s () (\<lambda>a c.
       case c_fd c of
         None \<Rightarrow> call_bind (upd_con (c_mode_update (\<lambda>_. CSPI_MODE_UNKNOWN)) a s) (\<lambda>s. Ret (s, (), CSPI_OK))
       | Some n \<Rightarrow>
           (case sy_close sy n (krn s) of
              (k, False) \<Rightarrow> Ret (s\<lparr>krn := k\<rparr>, (), CSPI_E_SYSTEM)
            | (k, True) \<Rightarrow>
                call_bind (upd_con (\<lambda>c. c\<lparr>c_fd := None, c_mode := CSPI_MODE_UNKNOWN\<rparr>) a (s\<lparr>krn := k\<rparr>))
                  (\<lambda>s. Ret (s, (), CSPI_OK))))"

definition CSPI_SEEK_MT :: int where "CSPI_SEEK_MT = 1"
definition CSPI_SEEK_ST :: int where "CSPI_SEEK_ST = 0"
definition CSPI_SEEK_TR :: int where "CSPI_SEEK_TR = 2"

definition cspi_seek :: "sys \<Rightarrow> CSPIHANDLE \<Rightarrow> u64 option \<Rightarrow> int \<Rightarrow> cspi \<Rightarrow> (cspi \<times> unit \<times> int) call" where
  "cspi_seek sy h offset origin s =
     on_con h s () (\<lambda>a c.
       case offset of
         None \<Rightarrow> Ret (s, (), CSPI_E_INVALID_PARAM)
       | Some off \<Rightarrow>
           if origin \<notin> {CSPI_SEEK_MT, CSPI_SEEK_ST, CSPI_SEEK_TR} then Ret (s, (), CSPI_E_INVALID_PARAM)
           else (case c_fd c of
             None \<Rightarrow> Ret (s, (), CSPI_E_SEQUENCE)
           | Some fd \<Rightarrow>
               if c_mode c \<noteq> CSPI_MODE_DD \<and> c_mode c \<noteq> CSPI_MODE_AVERAGE then Ret (s, (), CSPI_E_ILLEGAL_CALL)
               else call_bind (sy_lseek sy fd off origin (krn s)) (\<lambda>(k, ok).
                 Ret (s\<lparr>krn := k\<rparr>, (), if ok then CSPI_OK else CSPI_E_SYSTEM))))"

section \<open>Reading\<close>

text \<open>
  An operator gets the cache, where its input and output start in the memory, and the number of atoms. The
  operators of the ADC modes calculate in floating point and are an argument. The result of a read: the
  state, the destination, the number of atoms if it was stored, and the code.
\<close>

type_synonym aux_fnc = "Cache \<Rightarrow> nat \<Rightarrow> nat \<Rightarrow> nat \<Rightarrow> memory \<Rightarrow> (memory \<times> int) call"
type_synonym read_result = "(cspi \<times> (memory \<times> nat option) \<times> int) call"

text \<open>\<open>custom_initop\<close> on the one environment; \<open>junk\<close> is what the parameters on its stack hold.\<close>

definition initop :: "lib_env \<Rightarrow> CSPI_ENVPARAMS \<Rightarrow> cspi \<Rightarrow> (cspi \<times> int) call" where
  "initop e junk s = custom_initop (with_fd s e) junk s"

text \<open>In DD mode the cache is refreshed first, whatever comes of it.\<close>

definition custom_getdefaultop ::
  "lib_env \<Rightarrow> (s32 \<Rightarrow> aux_fnc) \<Rightarrow> CSPI_ENVPARAMS \<Rightarrow> s32 \<Rightarrow> cspi \<Rightarrow> (cspi \<times> aux_fnc option) call" where
  "custom_getdefaultop e fl junk mode s =
     (if mode = CSPI_MODE_DD then
        call_bind (initop e junk s) (\<lambda>(s, _).
          Ret (s, Some (if sr_dsc (cache s) = 2 \<and> sr_cspi_enable (cache s) \<noteq> 0 then ebpp_transform_dd_remove_spikes
                        else ebpp_transform_dd)))
      else if mode = CSPI_MODE_PM then Ret (s, Some ebpp_transform_dd)
      else if mode \<in> {CSPI_MODE_ADC_CW, CSPI_MODE_ADC_SP, CSPI_MODE_ADC_SP_ROT} then Ret (s, Some (fl mode))
      else Ret (s, None))"

text \<open>\<open>read\<close> into a buffer; more than the buffer holds is written past its end.\<close>

definition read_into :: "s32 list \<Rightarrow> memory \<Rightarrow> memory call" where
  "read_into ws mem = (if length mem < length ws then Fault else Ret (ws @ drop (length ws) mem))"

definition read_dd ::
  "lib_env \<Rightarrow> sys \<Rightarrow> CSPI_ENVPARAMS \<Rightarrow> nat \<Rightarrow> memory \<Rightarrow> u32 \<Rightarrow> aux_fnc option \<Rightarrow> cspi \<Rightarrow> read_result" where
  "read_dd e sy junk a dest count op s =
     call_bind (heap_get a (con_heap s)) (\<lambda>c.
     call_bind (sy_read sy (the (c_fd c)) (count * 32) (krn s)) (\<lambda>(k, r).
       let s = s\<lparr>krn := k\<rparr> in
       case r of
         Inl _ \<Rightarrow> Ret (s, (dest, None), CSPI_E_SYSTEM)
       | Inr ws \<Rightarrow>
           call_bind (read_into ws dest) (\<lambda>dest.
           call_bind (sy_tstamp sy (if c_mode c = CSPI_MODE_DD then CSPI_MODE_DD else CSPI_MODE_PM) (the (c_fd c)) (krn s)) (\<lambda>(k, ts).
             let s = s\<lparr>krn := k\<rparr> in
             case ts of
               None \<Rightarrow> Ret (s, (dest, None), CSPI_E_SYSTEM)
             | Some ts \<Rightarrow>
                 let nb = length ws div 8; rc = (if nb \<noteq> unat count then CSPI_W_INCOMPLETE else CSPI_OK) in
                 call_bind (upd_con (c_timestamp_update (\<lambda>_. ts)) a s) (\<lambda>s.
                   case op of
                     None \<Rightarrow> Ret (s, (dest, Some nb), rc)
                   | Some f \<Rightarrow>
                       call_bind (initop e junk s) (\<lambda>(s, irc).
                         if irc \<noteq> CSPI_OK then Ret (s, (dest, Some nb), irc)
                         else call_bind (f (cache s) 0 0 nb dest) (\<lambda>(dest, _). Ret (s, (dest, Some nb), rc))))))))"

text \<open>
  ADC samples; except in plain ADC mode they go to a buffer first, which the operator reads: the memory is
  then the buffer followed by the destination. The buffer is not freed when the refresh fails.
\<close>

definition read_adc ::
  "lib_env \<Rightarrow> sys \<Rightarrow> CSPI_ENVPARAMS \<Rightarrow> nat \<Rightarrow> memory \<Rightarrow> u32 \<Rightarrow> aux_fnc option \<Rightarrow> cspi \<Rightarrow> read_result" where
  "read_adc e sy junk a dest count op s =
     call_bind (heap_get a (con_heap s)) (\<lambda>c.
       let own = (c_mode c \<noteq> CSPI_MODE_ADC); words = 2 * unat count in
       if own \<and> \<not> sy_buffer sy then Ret (s, (dest, None), CSPI_E_MALLOC)
       else
         let s = (if own then s\<lparr>buffers := buffers s + 1\<rparr> else s);
             buf = (if own then replicate words 0 else dest);
             free = (\<lambda>s. if own then s\<lparr>buffers := buffers s - 1\<rparr> else s) in
         call_bind (sy_read sy (the (c_fd c)) (count * 8) (krn s)) (\<lambda>(k, r).
           let s = s\<lparr>krn := k\<rparr> in
           case r of
             Inl _ \<Rightarrow> Ret (free s, (dest, None), CSPI_E_SYSTEM)
           | Inr ws \<Rightarrow>
               call_bind (read_into ws buf) (\<lambda>buf.
                 let rc = (if 4 * length ws \<noteq> unat (count * 8) then CSPI_W_INCOMPLETE else CSPI_OK);
                     eread = length ws div 2 in
                 case op of
                   None \<Rightarrow> Ret (free s, (if own then dest else buf, Some eread), rc)
                 | Some f \<Rightarrow>
                     call_bind (initop e junk s) (\<lambda>(s, irc).
                       if irc \<noteq> CSPI_OK then Ret (s, (if own then dest else buf, Some eread), irc)
                       else
                         call_bind (if own then f (cache s) 0 (length buf) eread (buf @ dest) else f (cache s) 0 0 eread buf) (\<lambda>(mem, _).
                           Ret (free s, (if own then drop (length buf) mem else mem,
                             Some (if c_mode c = CSPI_MODE_ADC_SP \<or> c_mode c = CSPI_MODE_ADC_SP_ROT then 1 else eread)),
                             CSPI_OK))))))"

text \<open>The average between two triggers: a DD read of one atom for the time stamp, the sum from the driver.\<close>

definition read_avg ::
  "lib_env \<Rightarrow> sys \<Rightarrow> CSPI_ENVPARAMS \<Rightarrow> nat \<Rightarrow> memory \<Rightarrow> aux_fnc option \<Rightarrow> cspi \<Rightarrow> read_result" where
  "read_avg e sy junk a dest op s =
     call_bind (cspi_seek sy (CON_HANDLE a) (Some 0) CSPI_SEEK_TR s) (\<lambda>(s, _, rc).
       if rc \<noteq> CSPI_OK then Ret (s, (dest, Some 0), rc)
       else
         call_bind (heap_get a (con_heap s)) (\<lambda>c.
         call_bind (sy_read sy (the (c_fd c)) 32 (krn s)) (\<lambda>(k, r).
           let s = s\<lparr>krn := k\<rparr> in
           case r of
             Inl _ \<Rightarrow> Ret (s, (dest, Some 0), CSPI_E_SYSTEM)
           | Inr ws \<Rightarrow>
               call_bind (sy_tstamp sy CSPI_MODE_DD (the (c_fd c)) (krn s)) (\<lambda>(k, ts).
                 let s = s\<lparr>krn := k\<rparr> in
                 case ts of
                   None \<Rightarrow> Ret (s, (dest, Some 0), CSPI_E_SYSTEM)
                 | Some ts \<Rightarrow>
                     call_bind (upd_con (c_timestamp_update (\<lambda>_. ts)) a s) (\<lambda>s.
                     call_bind (cspi_getenvparam (with_fd s e) True (Some junk) CSPI_ENV_AVERAGE_SUM s) (\<lambda>(p, s, rc).
                       if rc \<noteq> CSPI_OK then Ret (s, (dest, Some 0), rc)
                       else if dest = [] then Fault
                       else
                         let dest = dest[0 := the p P_average_sum] in
                         case op of
                           None \<Rightarrow> Ret (s, (dest, Some 1), rc)
                         | Some f \<Rightarrow>
                             call_bind (initop e junk s) (\<lambda>(s, irc).
                               if irc \<noteq> CSPI_OK then Ret (s, (dest, Some 1), irc)
                               else call_bind (f (cache s) 0 0 1 dest) (\<lambda>(dest, _). Ret (s, (dest, Some 1), rc)))))))))"

definition is_streamingmode :: "s32 \<Rightarrow> bool" where "is_streamingmode m = (m = CSPI_MODE_SA)"

definition cspi_read_ex ::
  "lib_env \<Rightarrow> sys \<Rightarrow> CSPI_ENVPARAMS \<Rightarrow> CSPIHANDLE \<Rightarrow> memory option \<Rightarrow> u32 \<Rightarrow> aux_fnc option \<Rightarrow> cspi \<Rightarrow> read_result" where
  "cspi_read_ex e sy junk h dest count op s =
     on_con h s ([], None) (\<lambda>a c.
       case dest of
         None \<Rightarrow> Ret (s, ([], None), CSPI_E_INVALID_PARAM)
       | Some mem \<Rightarrow>
           if c_fd c = None then Ret (s, (mem, None), CSPI_E_SEQUENCE)
           else if is_streamingmode (c_mode c) then Ret (s, (mem, None), CSPI_E_ILLEGAL_CALL)
           else if c_mode c \<in> {CSPI_MODE_ADC, CSPI_MODE_ADC_CW, CSPI_MODE_ADC_SP, CSPI_MODE_ADC_SP_ROT}
           then read_adc e sy junk a mem count op s
           else if c_mode c = CSPI_MODE_AVERAGE then read_avg e sy junk a mem op s
           else read_dd e sy junk a mem count op s)"

text \<open>The default operator is chosen by the mode before the handle is checked.\<close>

definition cspi_read ::
  "lib_env \<Rightarrow> sys \<Rightarrow> (s32 \<Rightarrow> aux_fnc) \<Rightarrow> CSPI_ENVPARAMS \<Rightarrow> CSPIHANDLE \<Rightarrow> memory option \<Rightarrow> u32 \<Rightarrow> cspi \<Rightarrow> read_result" where
  "cspi_read e sy fl junk h dest count s =
     (case h of
        CON_HANDLE a \<Rightarrow>
          call_bind (heap_get a (con_heap s)) (\<lambda>c.
          call_bind (custom_getdefaultop e fl junk (c_mode c) s) (\<lambda>(s, op).
            cspi_read_ex e sy junk h dest count op s))
      | _ \<Rightarrow> Fault)"

text \<open>One atom of the SA stream; the mode has no operator.\<close>

definition cspi_get ::
  "sys \<Rightarrow> CSPIHANDLE \<Rightarrow> memory option \<Rightarrow> cspi \<Rightarrow> (cspi \<times> memory option \<times> int) call" where
  "cspi_get sy h atom s =
     on_con h s atom (\<lambda>a c.
       case atom of
         None \<Rightarrow> Ret (s, atom, CSPI_E_INVALID_PARAM)
       | Some mem \<Rightarrow>
           (case c_fd c of
              None \<Rightarrow> Ret (s, atom, CSPI_E_SEQUENCE)
            | Some fd \<Rightarrow>
                if c_mode c \<noteq> CSPI_MODE_SA then Ret (s, atom, CSPI_E_ILLEGAL_CALL)
                else call_bind (sy_read sy fd 64 (krn s)) (\<lambda>(k, r).
                  let s = s\<lparr>krn := k\<rparr> in
                  case r of
                    Inl _ \<Rightarrow> Ret (s, atom, CSPI_E_SYSTEM)
                  | Inr ws \<Rightarrow> call_bind (read_into ws mem) (\<lambda>mem. Ret (s, Some mem, CSPI_OK)))))"

section \<open>Time\<close>

text \<open>A stamp whose seconds are not positive counts as none.\<close>

definition cspi_gettimestamp ::
  "CSPIHANDLE \<Rightarrow> libera_timestamp_t option \<Rightarrow> cspi \<Rightarrow> (cspi \<times> libera_timestamp_t option \<times> int) call" where
  "cspi_gettimestamp h ts s =
     on_con h s ts (\<lambda>a c.
       case ts of
         None \<Rightarrow> Ret (s, ts, CSPI_E_INVALID_PARAM)
       | Some _ \<Rightarrow>
           if c_fd c = None \<or> sint (tv_sec (ts_st (c_timestamp c))) \<le> 0 then Ret (s, ts, CSPI_E_SEQUENCE)
           else if c_mode c \<notin> {CSPI_MODE_DD, CSPI_MODE_PM, CSPI_MODE_AVERAGE} then Ret (s, ts, CSPI_E_ILLEGAL_CALL)
           else Ret (s, Some (c_timestamp c), CSPI_OK))"

text \<open>The event device is opened for the call; machine time before system time.\<close>

definition cspi_settime ::
  "sys \<Rightarrow> ioenv \<Rightarrow> (kernel \<Rightarrow> (kernel \<times> (errno + int)) call) \<Rightarrow> libera_HRtimestamp_t option \<Rightarrow> CSPI_BITMASK
     \<Rightarrow> cspi \<Rightarrow> (cspi \<times> int) call" where
  "cspi_settime sy io acq ts flags s =
     (case ts of
        None \<Rightarrow> Ret (s, CSPI_E_INVALID_PARAM)
      | Some ts \<Rightarrow>
          if flags = 0 then Ret (s, CSPI_OK)
          else
            let f = \<lparr>file_id = sy_file sy, fmode_read = True, fmode_write = False, o_nonblock = False\<rparr>;
                req = (\<lambda>on cmd (k, loc, rc).
                  if on \<and> rc \<noteq> (- 1 :: int) then
                    call_bind (libera_event_ioctl acq f cmd io loc k) (\<lambda>(k, loc, r, _).
                      Ret (k, loc, case r of Inl _ \<Rightarrow> - 1 | Inr n \<Rightarrow> n))
                  else Ret (k, loc, rc))
            in call_bind (libera_event_open f True (krn s)) (\<lambda>(k, loc, r).
              case (r, loc) of
                (Inr _, Some loc) \<Rightarrow>
                  call_bind (req (flags AND CSPI_TIME_MT \<noteq> 0) (SET_MT (0, ts)) (k, loc, 0)) (\<lambda>x.
                  call_bind (req (flags AND CSPI_TIME_ST \<noteq> 0) (SET_ST (0, ts)) x) (\<lambda>(k, loc, rc).
                    Ret (s\<lparr>krn := libera_event_release f loc k\<rparr>, if rc = 0 then CSPI_OK else CSPI_E_SYSTEM)))
              | _ \<Rightarrow> Ret (s\<lparr>krn := k\<rparr>, CSPI_E_SYSTEM)))"

section \<open>Parameters of the fast application\<close>

text \<open>
  A block of bytes goes to the FA device or comes from it; \<open>h\<close> says whether the handle is the environment,
  \<open>pbuf\<close> whether there is a buffer. The size of an element is a multiple of 4.
\<close>

definition fa_filp :: "sys \<Rightarrow> bool \<Rightarrow> filp" where
  "fa_filp sy wr = \<lparr>file_id = sy_file sy, fmode_read = \<not> wr, fmode_write = wr, o_nonblock = False\<rparr>"

definition cspi_setenvparam_fa ::
  "sys \<Rightarrow> bool \<Rightarrow> CSPIHANDLE \<Rightarrow> u32 \<Rightarrow> u8 list option \<Rightarrow> u32 \<Rightarrow> u32 \<Rightarrow> cspi \<Rightarrow> (cspi \<times> int) call" where
  "cspi_setenvparam_fa sy sig h offset pbuf sz count s =
     (if h \<noteq> ENV_HANDLE then Ret (s, CSPI_E_INVALID_HANDLE)
      else (case pbuf of
        None \<Rightarrow> Ret (s, CSPI_E_INVALID_PARAM)
      | Some bytes \<Rightarrow>
          if sz mod 4 \<noteq> 0 then Ret (s, CSPI_E_INVALID_PARAM)
          else
            call_bind (libera_fa_open (fa_filp sy True) (krn s)) (\<lambda>(k, r).
              let s = s\<lparr>krn := k\<rparr> in
              case r of
                Inl _ \<Rightarrow> Ret (s, CSPI_E_SYSTEM)
              | Inr _ \<Rightarrow>
                  call_bind (env_lock s) (\<lambda>s.
                  call_bind
                    (case libera_fa_llseek (ucast offset) 0 0 of
                       (_, Inl _) \<Rightarrow> Ret (s, CSPI_E_SYSTEM)
                     | (pos, Inr _) \<Rightarrow>
                         call_bind (libera_fa_write sig (False, bytes) (count * sz) pos (krn s)) (\<lambda>(k, _, r).
                           Ret (s\<lparr>krn := k\<rparr>, (case r of Inl _ \<Rightarrow> CSPI_E_SYSTEM
                             | Inr n \<Rightarrow> if of_int n = count * sz then CSPI_OK else CSPI_E_SYSTEM)))) (\<lambda>(s, rc).
                    let s = env_unlock s in
                    Ret (s\<lparr>krn := libera_fa_release (fa_filp sy True) (krn s)\<rparr>, rc))))))"

definition cspi_getenvparam_fa ::
  "sys \<Rightarrow> bool \<Rightarrow> reg_read \<Rightarrow> CSPIHANDLE \<Rightarrow> u32 \<Rightarrow> u8 list option \<Rightarrow> u32 \<Rightarrow> u32 \<Rightarrow> cspi
     \<Rightarrow> (cspi \<times> u8 list option \<times> int) call" where
  "cspi_getenvparam_fa sy sig readl h offset pbuf sz count s =
     (if h \<noteq> ENV_HANDLE then Ret (s, pbuf, CSPI_E_INVALID_HANDLE)
      else (case pbuf of
        None \<Rightarrow> Ret (s, pbuf, CSPI_E_INVALID_PARAM)
      | Some old \<Rightarrow>
          if sz mod 4 \<noteq> 0 then Ret (s, pbuf, CSPI_E_INVALID_PARAM)
          else
            call_bind (libera_fa_open (fa_filp sy False) (krn s)) (\<lambda>(k, r).
              let s = s\<lparr>krn := k\<rparr> in
              case r of
                Inl _ \<Rightarrow> Ret (s, pbuf, CSPI_E_SYSTEM)
              | Inr _ \<Rightarrow>
                  call_bind (env_lock s) (\<lambda>s.
                  call_bind
                    (case libera_fa_llseek (ucast offset) 0 0 of
                       (_, Inl _) \<Rightarrow> Ret (s, pbuf, CSPI_E_SYSTEM)
                     | (pos, Inr _) \<Rightarrow>
                         call_bind (libera_fa_read sig readl False (count * sz) pos (krn s)) (\<lambda>(k, _, r, bytes).
                           Ret (s\<lparr>krn := k\<rparr>, (case r of Inl _ \<Rightarrow> (pbuf, CSPI_E_SYSTEM)
                             | Inr n \<Rightarrow> (Some (bytes @ drop (length bytes) old),
                                 if of_int n = count * sz then CSPI_OK else CSPI_E_SYSTEM))))) (\<lambda>(s, buf, rc).
                    let s = env_unlock s in
                    Ret (s\<lparr>krn := libera_fa_release (fa_filp sy False) (krn s)\<rparr>, buf, rc))))))"

end
