(* ===== verification/Cspi_Env_Props.thy ===== *)
theory Cspi_Env_Props
  imports Cspi_Env Libera_Cfg_Props
begin

text \<open>
  What the environment parameters guarantee: values set through the library come back, the cache agrees
  with what the FPGA applies, commands to the PLL daemon fit their buffer; and what goes wrong when a
  structure is used twice or an error strikes while the cache is updated.
\<close>

section \<open>A store of parameters\<close>

text \<open>
  The configuration device as the library sees it: setting a kept parameter makes it readable as a value
  that \<open>stored\<close> relates to the one set, and leaves the other kept parameters alone.
\<close>

locale cfg_store =
  fixes dset :: "nat \<Rightarrow> u32 \<Rightarrow> 's \<Rightarrow> 's \<times> bool"
    and dget :: "nat \<Rightarrow> 's \<Rightarrow> u32 option"
    and kept :: "nat set"
    and stored :: "nat \<Rightarrow> u32 \<Rightarrow> u32 \<Rightarrow> bool"
    and index :: "nat \<Rightarrow> bool"
  assumes set_get: "dset i v s = (s', True) \<Longrightarrow> i \<in> kept \<Longrightarrow> dget i s' = Some w \<Longrightarrow> stored i v w"
    and set_frame: "dset j v s = (s', ok) \<Longrightarrow> index j \<Longrightarrow> i \<in> kept \<Longrightarrow> i \<noteq> j \<Longrightarrow> dget i s' = dget i s"
begin

fun set_all :: "(nat \<times> u32) list \<Rightarrow> 's \<Rightarrow> 's \<times> bool" where
  "set_all [] s = (s, True)"
| "set_all ((i, v) # xs) s = (case dset i v s of (s, ok) \<Rightarrow> if ok then set_all xs s else (s, False))"

lemma set_all_frame: "set_all xs s = (s', ok) \<Longrightarrow> \<forall>j \<in> fst ` set xs. index j \<Longrightarrow> i \<in> kept \<Longrightarrow> i \<notin> fst ` set xs \<Longrightarrow> dget i s' = dget i s"
proof (induction xs arbitrary: s)
  case (Cons x xs)
  obtain j v where x: "x = (j, v)" by fastforce
  obtain s1 ok1 where s1: "dset j v s = (s1, ok1)" by fastforce
  have f: "dget i s1 = dget i s" using set_frame [OF s1] Cons.prems(2-4) x by auto
  show ?case
  proof (cases ok1)
    case True
    then show ?thesis using Cons.IH [of s1] Cons.prems f x s1 by auto
  next
    case False
    then show ?thesis using Cons.prems f x s1 by auto
  qed
qed simp

lemma set_all_get:
  "set_all xs s = (s', True) \<Longrightarrow> \<forall>j \<in> fst ` set xs. index j \<Longrightarrow> distinct (map fst xs) \<Longrightarrow> (i, v) \<in> set xs \<Longrightarrow> i \<in> kept
     \<Longrightarrow> dget i s' = Some w \<Longrightarrow> stored i v w"
proof (induction xs arbitrary: s)
  case (Cons x xs)
  obtain j u where x: "x = (j, u)" by fastforce
  obtain s1 where s1: "dset j u s = (s1, True)" "set_all xs s1 = (s', True)"
    using Cons.prems(1) x by (auto split: prod.splits if_splits)
  show ?case
  proof (cases "(i, v) = x")
    case True
    then have "i \<notin> fst ` set xs" using Cons.prems(3) x by auto
    then have "dget i s1 = Some w" using set_all_frame [OF s1(2) _ Cons.prems(5)] Cons.prems(2,6) by simp
    then show ?thesis using set_get [OF s1(1)] Cons.prems(5) True x by auto
  next
    case False
    then show ?thesis using Cons.IH [OF s1(2)] Cons.prems by auto
  qed
qed simp

end

section \<open>The configuration device is one\<close>

definition cfg_keeps :: "nat \<Rightarrow> u32 \<Rightarrow> u32 \<Rightarrow> bool" where
  "cfg_keeps i v w \<longleftrightarrow>
     (if i \<in> {LIBERA_CFG_PM_OVERFLOW_LIMIT, LIBERA_CFG_ILK_OVERFLOW_LIMIT} then \<exists>b. w = overflow_code b v
      else if i = LIBERA_CFG_ILKSTATUS then w = 0 else w = v)"

lemma cfg_stored_keeps: "cfg_keeps i v (cfg_stored f i v)"
  by (auto simp: cfg_keeps_def cfg_stored_def)

lemma cfg_dev_set_ok:
  assumes "cfg_dev_set e i v k = (k', True)"
  shows "cfg_set (le_io e) (0, of_nat i, v) k = (k', Inr 0)"
proof -
  have "\<exists>r. cfg_set (le_io e) (0, of_nat i, v) k = (k', Inr r)"
    using assms
    by (auto simp: cfg_dev_set_def libera_cfg_ioctl_def libera_cfg_cmd_def split: if_splits prod.splits sum.splits)
  then show ?thesis by (auto simp: cfg_set_def Let_def split: if_splits prod.splits sum.splits)
qed

lemma cfg_dev_set_fails:
  assumes "cfg_dev_set e i v k = (k', False)"
  shows "k' = k"
proof -
  have "k' = k \<or> (\<exists>r. cfg_set (le_io e) (0, of_nat i, v) k = (k', Inl r))"
    using assms
    by (auto simp: cfg_dev_set_def libera_cfg_ioctl_def libera_cfg_cmd_def split: if_splits prod.splits sum.splits)
  then show ?thesis using cfg_set_changes by blast
qed

lemma cfg_dev_get_mirrored:
  assumes "i \<in> set cfg_mirrored"
  shows "cfg_dev_get e i k = (if io_access (le_io e) then Some (param k i) else None)"
proof -
  have "i < 4294967296" using mirrored_trigmode [OF assms] by (simp add: LIBERA_CFG_PARAMS_MAX_def)
  then have "unat (of_nat i :: u32) = i" by (simp add: unat_of_nat)
  then show ?thesis
    using mirrored_trigmode [OF assms] assms
    by (simp add: cfg_dev_get_def libera_cfg_ioctl_def is_cfg_set_def libera_cfg_cmd_def cfg_get_def
        libera_cfg_get_specific_def copy_ret_def)
qed

text \<open>Setting one index leaves every other parameter alone.\<close>

definition only_param :: "kernel \<Rightarrow> nat \<Rightarrow> kernel \<times> (errno + int) \<Rightarrow> bool" where
  "only_param k j p \<longleftrightarrow> (\<forall>i. i \<noteq> j \<longrightarrow> param (fst p) i = param k i)"

lemma only_param_if:
  "(c \<Longrightarrow> only_param k j x) \<Longrightarrow> (\<not> c \<Longrightarrow> only_param k j y) \<Longrightarrow> only_param k j (if c then x else y)"
  by simp

lemma only_param_pair:
  "only_param k j (k, r)"
  "\<forall>i. i \<noteq> j \<longrightarrow> param k1 i = param k i \<Longrightarrow> only_param k j (k1, r)"
  by (simp_all add: only_param_def)

lemma param_coefficient: "i \<noteq> j \<Longrightarrow> param (cfg_set_coefficient j v k) i = param k i"
  by (simp add: cfg_set_coefficient_def send_coefficients_def Let_def)

lemma set_specific_only: "only_param k j (libera_cfg_set_specific readl j v k)"
  unfolding libera_cfg_set_specific_def Let_def
  by (intro only_param_if only_param_pair; simp add: param_coefficient)

lemma cfg_set_only:
  assumes "cfg_set env (0, j, v) k = (k', r)" "i \<noteq> unat j"
  shows "param k' i = param k i"
proof -
  obtain k1 r1 where s: "libera_cfg_set_specific (io_reg env) (unat j) v k = (k1, r1)" by fastforce
  then show ?thesis
    using assms set_specific_only [of k "unat j" "io_reg env" v]
    by (auto simp: cfg_set_def only_param_def Let_def split: if_splits sum.splits prod.splits)
qed

interpretation dev: cfg_store "cfg_dev_set e" "cfg_dev_get e'" "set cfg_mirrored" cfg_keeps "\<lambda>i. i < 4294967296"
  for e e'
proof
  fix i v k k' w
  assume s: "cfg_dev_set e i v k = (k', True)" and i: "i \<in> set cfg_mirrored" and g: "cfg_dev_get e' i k' = Some w"
  have "i < 4294967296" using mirrored_trigmode [OF i] by (simp add: LIBERA_CFG_PARAMS_MAX_def)
  then have u: "unat (of_nat i :: u32) = i" by (simp add: unat_of_nat)
  have "param k' i = cfg_stored (feature k) i v" using cfg_set_param [OF cfg_dev_set_ok [OF s]] i by (simp add: u)
  then show "cfg_keeps i v w" using g cfg_stored_keeps [of i v "feature k"]
    by (simp add: cfg_dev_get_mirrored [OF i] split: if_splits)
next
  fix j v k k' ok i
  assume s: "cfg_dev_set e j v k = (k', ok)" and j: "j < 4294967296" and i: "i \<in> set cfg_mirrored" "i \<noteq> j"
  have u: "unat (of_nat j :: u32) = j" using j by (simp add: unat_of_nat)
  have "param k' i = param k i"
  proof (cases ok)
    case True
    then show ?thesis using cfg_set_only [OF cfg_dev_set_ok] s i by (simp add: u)
  next
    case False
    then show ?thesis using cfg_dev_set_fails [of e j v k k'] s by simp
  qed
  then show "cfg_dev_get e' i k' = cfg_dev_get e' i k" by (simp add: cfg_dev_get_mirrored [OF i(1)])
qed

section \<open>Passes over a table\<close>

definition selected :: "CSPI_BITMASK \<Rightarrow> Param_map list \<Rightarrow> Param_map list" where
  "selected flags ms = filter (\<lambda>m. flags AND pm_mask m \<noteq> 0) ms"

lemma set_param_frame: "set_param e m p s = (q, t, rc) \<Longrightarrow> f \<noteq> pm_field m \<Longrightarrow> q f = p f"
  by (auto simp: set_param_def Let_def split: option.splits prod.splits if_splits)

lemma handle_params_frame:
  "handle_params (set_param e) flags ms p s = (p', s', rc) \<Longrightarrow> f \<notin> pm_field ` set ms \<Longrightarrow> p' f = p f"
  by (induction ms arbitrary: p s) (auto dest: set_param_frame split: if_splits prod.splits)

lemma set_param_ok:
  assumes "set_param e m p s = (q, t, CSPI_OK)"
  shows "\<exists>v k. validated (pm_validate m) (p (pm_field m)) = Some v \<and> cfg_dev_set e (pm_code m) v (krn s) = (k, True)
    \<and> q = p(pm_field m := v) \<and> t = s\<lparr>krn := k\<rparr>"
  using assms by (auto simp: set_param_def Let_def cspi_codes split: option.splits prod.splits if_splits)

lemma get_param_ok:
  assumes "get_param e m p s = (q, t, CSPI_OK)"
  shows "\<exists>w x. cfg_dev_get e (pm_code m) (krn s) = Some w \<and> validated (pm_validate m) w = Some x
    \<and> q = p(pm_field m := x) \<and> t = s"
  using assms by (auto simp: get_param_def cspi_codes split: option.splits)

text \<open>The first selected entry of a pass that succeeds.\<close>

lemma handle_params_step:
  assumes "handle_params f flags (m # ms) p s = (p', s', CSPI_OK)" "flags AND pm_mask m \<noteq> 0"
  shows "\<exists>q t. f m p s = (q, t, CSPI_OK) \<and> handle_params f flags ms q t = (p', s', CSPI_OK)"
proof -
  obtain q t rc where "f m p s = (q, t, rc)" by (cases "f m p s") auto
  then show ?thesis using assms by (auto split: if_splits)
qed

text \<open>A pass of settings that succeeds is the sequence of the device's settings, in the order of the table.\<close>

lemma set_pass:
  assumes "handle_params (set_param e) flags ms p s = (p', s', CSPI_OK)" "distinct (map pm_field ms)"
  shows "dev.set_all e (map (\<lambda>m. (pm_code m, p' (pm_field m))) (selected flags ms)) (krn s) = (krn s', True)
    \<and> (\<forall>m \<in> set (selected flags ms). validated (pm_validate m) (p (pm_field m)) = Some (p' (pm_field m)))"
  using assms
proof (induction ms arbitrary: p s)
  case Nil
  then show ?case by (simp add: selected_def)
next
  case (Cons m ms)
  show ?case
  proof (cases "flags AND pm_mask m \<noteq> 0")
    case True
    obtain v k where v: "validated (pm_validate m) (p (pm_field m)) = Some v" "cfg_dev_set e (pm_code m) v (krn s) = (k, True)"
      "handle_params (set_param e) flags ms (p(pm_field m := v)) (s\<lparr>krn := k\<rparr>) = (p', s', CSPI_OK)"
      using handle_params_step [OF Cons.prems(1) True] set_param_ok by blast
    have nm: "pm_field m \<notin> pm_field ` set ms" using Cons.prems(2) by simp
    have pv: "p' (pm_field m) = v" using handle_params_frame [OF v(3) nm] by simp
    have sel: "selected flags (m # ms) = m # selected flags ms" using True by (simp add: selected_def)
    have "set (selected flags ms) \<subseteq> set ms" by (auto simp: selected_def)
    then have ne: "\<forall>m' \<in> set (selected flags ms). pm_field m' \<noteq> pm_field m" using nm by (metis image_eqI subsetD)
    show ?thesis using Cons.IH [OF v(3)] Cons.prems(2) v(1,2) ne by (simp add: sel pv)
  next
    case False
    then have sel: "selected flags (m # ms) = selected flags ms" by (simp add: selected_def)
    show ?thesis using Cons.IH [of p s] Cons.prems False by (simp add: sel)
  qed
qed

text \<open>A pass of readings leaves the state alone.\<close>

lemma get_param_frame: "get_param e m p s = (q, t, rc) \<Longrightarrow> t = s \<and> (f \<noteq> pm_field m \<longrightarrow> q f = p f)"
  by (auto simp: get_param_def split: option.splits)

lemma get_frame:
  "handle_params (get_param e) flags ms p s = (p', s', rc) \<Longrightarrow> f \<notin> pm_field ` set ms \<Longrightarrow> p' f = p f"
  by (induction ms arbitrary: p s) (auto dest: get_param_frame split: if_splits prod.splits)

lemma get_state: "handle_params (get_param e) flags ms p s = (p', s', rc) \<Longrightarrow> s' = s"
  by (induction ms arbitrary: p s) (auto dest: get_param_frame split: if_splits prod.splits)

lemma get_pass:
  assumes "handle_params (get_param e) flags ms p s = (p', s', CSPI_OK)" "distinct (map pm_field ms)"
    "m \<in> set (selected flags ms)"
  shows "\<exists>w. cfg_dev_get e (pm_code m) (krn s) = Some w \<and> validated (pm_validate m) w = Some (p' (pm_field m))"
  using assms
proof (induction ms arbitrary: p)
  case Nil
  then show ?case by (simp add: selected_def)
next
  case (Cons n ms)
  show ?case
  proof (cases "flags AND pm_mask n \<noteq> 0")
    case True
    obtain w x where w: "cfg_dev_get e (pm_code n) (krn s) = Some w" "validated (pm_validate n) w = Some x"
      "handle_params (get_param e) flags ms (p(pm_field n := x)) s = (p', s', CSPI_OK)"
      using handle_params_step [OF Cons.prems(1) True] get_param_ok by blast
    have nm: "pm_field n \<notin> pm_field ` set ms" using Cons.prems(2) by simp
    have pv: "p' (pm_field n) = x" using get_frame [OF w(3) nm] by simp
    show ?thesis
    proof (cases "m = n")
      case True
      then show ?thesis using w(1,2) pv by simp
    next
      case False
      then have "m \<in> set (selected flags ms)" using Cons.prems(3) by (auto simp: selected_def split: if_splits)
      then show ?thesis using Cons.IH [OF w(3)] Cons.prems(2) by simp
    qed
  next
    case False
    then show ?thesis using Cons.IH [of p] Cons.prems by (simp add: selected_def)
  qed
qed

section \<open>The tables\<close>

lemmas table_simps = PARAM_def custom_set_map_def custom_get_map_def

lemma custom_set_distinct:
  "distinct (map pm_field (custom_set_map e g))" "distinct (map pm_code (custom_set_map e g))"
  by (simp_all add: table_simps cfg_index)

lemma custom_get_distinct: "distinct (map pm_field custom_get_map)"
  by (simp add: table_simps)

text \<open>What is read through the entries of both tables for a value that was set.\<close>

definition reads_back :: "validator option \<Rightarrow> validator option \<Rightarrow> nat \<Rightarrow> u32 \<Rightarrow> bool" where
  "reads_back fs fg i v \<longleftrightarrow>
     (\<forall>u w x. validated fs v = Some u \<longrightarrow> cfg_keeps i u w \<longrightarrow> validated fg w = Some x \<longrightarrow> x = v)"

lemma reads_back_plain:
  "i \<notin> {LIBERA_CFG_PM_OVERFLOW_LIMIT, LIBERA_CFG_ILK_OVERFLOW_LIMIT, LIBERA_CFG_ILKSTATUS} \<Longrightarrow> reads_back None None i v"
  "i \<notin> {LIBERA_CFG_PM_OVERFLOW_LIMIT, LIBERA_CFG_ILK_OVERFLOW_LIMIT, LIBERA_CFG_ILKSTATUS} \<Longrightarrow> reads_back (Some (check P)) None i v"
  by (auto simp: reads_back_def validated_def check_def cfg_keeps_def split: if_splits)

lemma overflow_code_upper: "v < 65536 \<Longrightarrow> drop_bit 16 (overflow_code b v) = v"
proof -
  assume v: "v < 65536"
  have "v AND mask 16 = v" by (rule and_mask_id) (use v in simp_all)
  moreover have "drop_bit 16 (overflow_code b v) = v AND mask 16"
    unfolding overflow_code_def Let_def by (rule bit_word_eqI) (auto simp: bit_simps)
  ultimately show ?thesis by simp
qed

lemma reads_back_overflow: "reads_back (Some (check ebpp_is_valid_overflowlimit)) (Some ebpp_get_overflowlimit) i v"
  if "i \<in> {LIBERA_CFG_PM_OVERFLOW_LIMIT, LIBERA_CFG_ILK_OVERFLOW_LIMIT}"
proof -
  have "v < 65536" if "ebpp_is_valid_overflowlimit v"
  proof -
    have "0 \<le> sint v" "sint v < 32767" using that by (simp_all add: ebpp_is_valid_overflowlimit_def)
    then have "uint v < 32767" by (simp add: uint_sint take_bit_eq_mod)
    then show ?thesis by (simp add: word_less_def)
  qed
  then show ?thesis using that overflow_code_upper
    by (auto simp: reads_back_def validated_def check_def cfg_keeps_def ebpp_get_overflowlimit_def split: if_splits)
qed

lemma packed_gain:
  assumes "- 32768 \<le> sint v" "sint v < 32768"
  shows "signed_drop_bit 16 (push_bit 16 v OR (a AND 0x0000ffff) :: u32) = v"
proof -
  have "signed_drop_bit 16 (push_bit 16 v OR (a AND mask 16) :: u32) = signed_take_bit 15 v"
  proof (rule bit_word_eqI)
    fix n assume "n < LENGTH(32)"
    consider "n < 15" | "n = 15" | "15 < n" by arith
    then show "bit (signed_drop_bit 16 (push_bit 16 v OR (a AND mask 16) :: u32)) n = bit (signed_take_bit 15 v) n"
      by cases (auto simp: bit_simps min_def)
  qed
  moreover have "signed_take_bit 15 v = (of_int (signed_take_bit 15 (sint v)) :: u32)"
    by (rule bit_word_eqI) (auto simp: bit_simps min_def)
  moreover have "signed_take_bit 15 (sint v) = sint v"
    using assms by (intro signed_take_bit_int_eq_self) simp_all
  moreover have "(0x0000ffff :: u32) = mask 16" by (simp add: mask_eq_exp_minus_1)
  ultimately show ?thesis by simp
qed

lemma reads_back_gain:
  assumes "- 32768 \<le> sint v" "sint v < 32768"
  shows "reads_back (Some (ebpp_set_gainlimit c)) (Some ebpp_get_gainlimit) LIBERA_CFG_ILK_GAIN_LIMIT v"
  using packed_gain [OF assms]
  by (auto simp: reads_back_def validated_def ebpp_set_gainlimit_def ebpp_get_gainlimit_def cfg_keeps_def cfg_index Let_def
      split: if_splits)

definition same_entry :: "Param_map \<Rightarrow> Param_map \<Rightarrow> bool" where
  "same_entry m n \<longleftrightarrow> pm_field n = pm_field m \<and> pm_code n = pm_code m \<and> pm_mask n = pm_mask m"

text \<open>Every entry of the table of settings is in the table of readings.\<close>

lemma tables_match:
  assumes "m \<in> set (custom_set_map e g)"
  shows "\<exists>n \<in> set custom_get_map. same_entry m n
    \<and> (pm_field m \<noteq> P_ilk_status \<longrightarrow> (pm_field m = P_ilk ILK_gain_limit \<longrightarrow> - 32768 \<le> sint v \<and> sint v < 32768)
         \<longrightarrow> reads_back (pm_validate m) (pm_validate n) (pm_code m) v)"
proof -
  let ?P = "\<lambda>m. \<exists>n \<in> set custom_get_map. same_entry m n
    \<and> (pm_field m \<noteq> P_ilk_status \<longrightarrow> (pm_field m = P_ilk ILK_gain_limit \<longrightarrow> - 32768 \<le> sint v \<and> sint v < 32768)
         \<longrightarrow> reads_back (pm_validate m) (pm_validate n) (pm_code m) v)"
  have "list_all ?P (custom_set_map e g)"
    by (simp add: table_simps same_entry_def reads_back_plain reads_back_overflow reads_back_gain [unfolded cfg_index] cfg_index)
  then show ?thesis using assms by (simp add: list_all_iff)
qed

lemma custom_codes:
  "m \<in> set (custom_set_map e g) \<Longrightarrow> pm_code m < 4294967296"
  "m \<in> set (custom_set_map e g) \<Longrightarrow> pm_field m \<notin> {P_ddc_maflength, P_ddc_mafdelay} \<Longrightarrow> pm_code m \<in> set cfg_mirrored"
proof -
  have "list_all (\<lambda>m. pm_code m < 4294967296 \<and> (pm_field m \<notin> {P_ddc_maflength, P_ddc_mafdelay} \<longrightarrow> pm_code m \<in> set cfg_mirrored))
      (custom_set_map e g)"
    by (simp add: table_simps cfg_index cfg_mirrored_def)
  then show "m \<in> set (custom_set_map e g) \<Longrightarrow> pm_code m < 4294967296"
    "m \<in> set (custom_set_map e g) \<Longrightarrow> pm_field m \<notin> {P_ddc_maflength, P_ddc_mafdelay} \<Longrightarrow> pm_code m \<in> set cfg_mirrored"
    by (auto simp: list_all_iff)
qed

section \<open>Setting, then reading\<close>

lemma set_pass_others:
  assumes "handle_params (set_param e) flags ms p s = (p', s', rc)" "i \<in> set cfg_mirrored"
    "\<forall>m \<in> set ms. pm_code m < 4294967296 \<and> pm_code m \<noteq> i"
  shows "cfg_dev_get e' i (krn s') = cfg_dev_get e' i (krn s)"
  using assms(1,3)
proof (induction ms arbitrary: p s)
  case (Cons m ms)
  show ?case
  proof (cases "flags AND pm_mask m \<noteq> 0")
    case True
    obtain q t rc1 where r: "set_param e m p s = (q, t, rc1)" by (cases "set_param e m p s") auto
    have f: "cfg_dev_get e' i (krn t) = cfg_dev_get e' i (krn s)"
    proof (cases "validated (pm_validate m) (p (pm_field m))")
      case None
      then show ?thesis using r by (simp add: set_param_def)
    next
      case (Some v)
      obtain k ok where k: "cfg_dev_set e (pm_code m) v (krn s) = (k, ok)" by fastforce
      then have "krn t = k" using r Some by (auto simp: set_param_def)
      then show ?thesis using dev.set_frame [OF k] assms(2) Cons.prems(2) by auto
    qed
    show ?thesis
    proof (cases "rc1 = CSPI_OK")
      case ok: True
      then show ?thesis using Cons.IH [of q t] Cons.prems True r f by simp
    next
      case False
      then show ?thesis using Cons.prems True r f by simp
    qed
  next
    case False
    then show ?thesis using Cons.IH [of p s] Cons.prems by simp
  qed
qed simp

lemma coeff_codes: "m \<in> set set_coeff_map \<Longrightarrow> pm_code m < 4294967296 \<and> pm_code m \<notin> set cfg_mirrored"
  by (auto simp: set_coeff_map_def PARAM_def cfg_index cfg_mirrored_def)

lemma and_then_ok: "and_then r f = (p', s', CSPI_OK) \<longleftrightarrow> (\<exists>p s. r = (p, s, CSPI_OK) \<and> f p s = (p', s', CSPI_OK))"
  by (cases r) (auto simp: and_then_def)

lemma feature_state: "cspi_getfeatureparam e flags p s = (p', s', rc) \<Longrightarrow> s' = s"
  by (auto simp: cspi_getfeatureparam_def split: if_splits option.splits)

lemma setdsc_kernel: "ebpp_setdscparam e flags p s = (p', s', rc) \<Longrightarrow> krn s' = krn s"
  by (auto simp: ebpp_setdscparam_def and_then_def split: if_splits prod.splits dest: feature_state)

lemma setpll_kernel: "ebpp_set_pllparam e flags p s = Ret (p', s', rc) \<Longrightarrow> krn s' = krn s"
  by (auto simp: ebpp_set_pllparam_def ebpp_pll_setcmd_def split: option.splits if_splits prod.splits pll_command.splits)

lemma set_pass_state: "handle_params (set_param e) flags ms p s = (p', s', rc) \<Longrightarrow> g_decimation s' = g_decimation s"
proof (induction ms arbitrary: p s)
  case (Cons m ms)
  have "g_decimation t = g_decimation s" if "set_param e m p s = (q, t, r)" for p s q t r
    using that by (auto simp: set_param_def split: option.splits prod.splits)
  with Cons show ?case by (fastforce split: if_splits prod.splits)
qed simp

lemma base_set_frame:
  assumes "base_setenvparam e flags p s = (p', s', CSPI_OK)"
  shows "g_decimation s' = g_decimation s" "f \<noteq> P_trig_mode \<Longrightarrow> p' f = p f"
proof -
  have c: "(p' = p \<and> s' = s) \<or> (\<exists>rc. handle_params (set_param e) flags base_set_map p s = (p', s', rc))"
    using assms by (auto simp: base_setenvparam_def and_then_ok split: if_splits)
  then show "g_decimation s' = g_decimation s" using set_pass_state by blast
  have "\<forall>m \<in> set base_set_map. pm_field m = P_trig_mode" by (simp add: base_set_map_def PARAM_def)
  then show "f \<noteq> P_trig_mode \<Longrightarrow> p' f = p f"
    using c handle_params_frame [of e flags base_set_map p s p' s' _ f] by blast
qed

lemma custom_set_steps:
  assumes "custom_setenvparam e flags p s = Ret (p', s', CSPI_OK)"
  shows "\<exists>p0 s0 p1 s1 p2 s2 p3 s3 s4. base_setenvparam e flags p s = (p0, s0, CSPI_OK)
    \<and> handle_params (set_param e) flags (custom_set_map e (g_decimation s)) p0 s0 = (p1, s1, CSPI_OK)
    \<and> set_coeff e flags p1 s1 = (p2, s2, CSPI_OK) \<and> ebpp_setdscparam e flags p2 s2 = (p3, s3, CSPI_OK)
    \<and> ebpp_set_pllparam e flags p3 s3 = Ret (p', s4, CSPI_OK) \<and> krn s' = krn s4"
proof -
  define chain where "chain = and_then (base_setenvparam e flags p s) (\<lambda>p s.
             and_then (handle_params (set_param e) flags (custom_set_map e (g_decimation s)) p s) (\<lambda>p s.
             and_then (set_coeff e flags p s) (\<lambda>p s.
               ebpp_setdscparam e flags p s)))"
  obtain q t rc where c: "chain = (q, t, rc)" by (cases chain) auto
  from assms have "call_bind (case (q, t, rc) of (p, s, rc) \<Rightarrow> if rc = CSPI_OK then ebpp_set_pllparam e flags p s else Ret (p, s, rc))
       (\<lambda>(p, s, rc). Ret (p, if flags AND CACHE_MASK \<noteq> 0 then s\<lparr>is_cache_dirty := True\<rparr> else s, rc)) = Ret (p', s', CSPI_OK)"
    unfolding custom_setenvparam_def chain_def [symmetric] c .
  then obtain s4 where ok: "rc = CSPI_OK" and l: "ebpp_set_pllparam e flags q t = Ret (p', s4, CSPI_OK)" and k: "krn s' = krn s4"
    by (auto simp: call_bind_Ret_iff split: if_splits)
  obtain p0 s0 p1 s1 p2 s2 where b: "base_setenvparam e flags p s = (p0, s0, CSPI_OK)"
    "handle_params (set_param e) flags (custom_set_map e (g_decimation s0)) p0 s0 = (p1, s1, CSPI_OK)"
    "set_coeff e flags p1 s1 = (p2, s2, CSPI_OK)" "ebpp_setdscparam e flags p2 s2 = (q, t, CSPI_OK)"
    using c unfolding ok chain_def and_then_ok by blast
  show ?thesis using b l k base_set_frame(1) [OF b(1)] by metis
qed

lemma custom_fields: "m \<in> set (custom_set_map e g) \<Longrightarrow> pm_field m \<noteq> P_trig_mode"
proof -
  have "list_all (\<lambda>m. pm_field m \<noteq> P_trig_mode) (custom_set_map e g)" by (simp add: table_simps)
  then show "m \<in> set (custom_set_map e g) \<Longrightarrow> pm_field m \<noteq> P_trig_mode" by (auto simp: list_all_iff)
qed

text \<open>A successful call stored every selected entry of the table.\<close>

lemma custom_set_stored:
  assumes "custom_setenvparam e flags p s = Ret (p', s', CSPI_OK)" "m \<in> set (custom_set_map e (g_decimation s))"
    "flags AND pm_mask m \<noteq> 0" "pm_code m \<in> set cfg_mirrored" "cfg_dev_get e' (pm_code m) (krn s') = Some w"
  shows "\<exists>u. validated (pm_validate m) (p (pm_field m)) = Some u \<and> cfg_keeps (pm_code m) u w"
proof -
  let ?T = "custom_set_map e (g_decimation s)"
  obtain p0 s0 p1 s1 p2 s2 p3 s3 s4 where b: "base_setenvparam e flags p s = (p0, s0, CSPI_OK)"
    "handle_params (set_param e) flags ?T p0 s0 = (p1, s1, CSPI_OK)"
    "set_coeff e flags p1 s1 = (p2, s2, CSPI_OK)" "ebpp_setdscparam e flags p2 s2 = (p3, s3, CSPI_OK)"
    "ebpp_set_pllparam e flags p3 s3 = Ret (p', s4, CSPI_OK)" "krn s' = krn s4"
    using custom_set_steps [OF assms(1)] by blast
  have k: "krn s' = krn s2" using setdsc_kernel [OF b(4)] setpll_kernel [OF b(5)] b(6) by simp
  have "cfg_dev_get e' (pm_code m) (krn s2) = cfg_dev_get e' (pm_code m) (krn s1)"
  proof (rule set_pass_others [OF b(3) [unfolded set_coeff_def] assms(4)], rule ballI)
    fix n assume "n \<in> set set_coeff_map"
    with coeff_codes [OF this] assms(4) show "pm_code n < 4294967296 \<and> pm_code n \<noteq> pm_code m" by metis
  qed
  then have w: "cfg_dev_get e' (pm_code m) (krn s1) = Some w" using assms(5) k by simp
  have sel: "m \<in> set (selected flags ?T)" using assms(2,3) by (simp add: selected_def)
  have sub: "set (selected flags ?T) \<subseteq> set ?T" by (auto simp: selected_def)
  let ?xs = "map (\<lambda>m. (pm_code m, p1 (pm_field m))) (selected flags ?T)"
  note sp = set_pass [OF b(2) custom_set_distinct(1)]
  have all: "dev.set_all e ?xs (krn s0) = (krn s1, True)" by (rule conjunct1 [OF sp])
  have v: "validated (pm_validate m) (p0 (pm_field m)) = Some (p1 (pm_field m))" using conjunct2 [OF sp] sel by (rule bspec)
  have i: "\<forall>j \<in> fst ` set ?xs. j < 4294967296" using custom_codes(1) sub by auto
  have d: "distinct (map fst ?xs)"
    using custom_set_distinct(2) [of e "g_decimation s"] by (simp add: comp_def selected_def distinct_map_filter)
  have "(pm_code m, p1 (pm_field m)) \<in> set ?xs" using sel by auto
  from dev.set_all_get [OF all i d this assms(4) w] have "cfg_keeps (pm_code m) (p1 (pm_field m)) w" .
  moreover have "p0 (pm_field m) = p (pm_field m)" using base_set_frame(2) [OF b(1)] custom_fields [OF assms(2)] by simp
  ultimately show ?thesis using v by auto
qed

lemma base_get_state: "base_getenvparam e flags p s = (p', s', rc) \<Longrightarrow> s' = s"
proof -
  assume a: "base_getenvparam e flags p s = (p', s', rc)"
  have h: "t' = t" if "cspi_gethealthparam e flags q t = (q', t', r)" for q t q' t' r
    using that by (auto simp: cspi_gethealthparam_def Let_def split: if_splits option.splits)
  obtain q t r where g: "handle_params (get_param e) flags base_get_map p s = (q, t, r)"
    by (cases "handle_params (get_param e) flags base_get_map p s") auto
  have "t = s" using get_state [OF g] .
  then show "s' = s" using a g by (auto simp: base_getenvparam_def and_then_def split: if_splits prod.splits dest: h feature_state)
qed

lemma dsc_params_frame:
  "ebpp_dsc_handle_params e flags ms p = (p', rc) \<Longrightarrow> \<forall>m \<in> set ms. dm_valaddr m \<noteq> Some f \<Longrightarrow> p' f = p f"
proof (induction ms arbitrary: p)
  case (Cons m ms)
  obtain val rc1 where v: "ebpp_dsc_message e (dm_type m) (map_option p (dm_valaddr m)) = (val, rc1)" by fastforce
  let ?q = "case (dm_valaddr m, val) of (Some a, Some v) \<Rightarrow> p(a := v) | _ \<Rightarrow> p"
  have q: "?q f = p f" using Cons.prems(2) by (auto split: option.splits)
  show ?case using Cons.prems Cons.IH [of ?q] Cons.IH [of p] q
    by (simp add: v Let_def split: if_splits)
qed simp

text \<open>What a successful reading delivers for an entry of its table.\<close>

lemma custom_get_value:
  assumes "custom_getenvparam e flags p s = (p', s', CSPI_OK)" "m \<in> set custom_get_map" "flags AND pm_mask m \<noteq> 0"
  shows "\<exists>w. cfg_dev_get e (pm_code m) (krn s) = Some w \<and> validated (pm_validate m) w = Some (p' (pm_field m))"
proof -
  have nf: "flags \<noteq> 0" using assms(3) by auto
  obtain p0 s0 p1 s1 p2 s2 where b: "base_getenvparam e flags p s = (p0, s0, CSPI_OK)"
    "handle_params (get_param e) flags custom_get_map p0 s0 = (p1, s1, CSPI_OK)"
    "ebpp_getdscparam e flags p1 s1 = (p2, s2, CSPI_OK)" "ebpp_get_pllparam e flags p2 s2 = (p', s', CSPI_OK)"
    using assms(1) nf by (auto simp: custom_getenvparam_def and_then_ok)
  have s0: "s0 = s" by (rule base_get_state [OF b(1)])
  have "m \<in> set (selected flags custom_get_map)" using assms(2,3) by (simp add: selected_def)
  from get_pass [OF b(2) custom_get_distinct this] obtain w where
    w: "cfg_dev_get e (pm_code m) (krn s) = Some w" "validated (pm_validate m) w = Some (p1 (pm_field m))" by (auto simp: s0)
  have "list_all (\<lambda>m. \<forall>n \<in> set dsc_get_map. dm_valaddr n \<noteq> Some (pm_field m)) custom_get_map"
    by (simp add: table_simps dsc_get_map_def)
  then have "\<forall>n \<in> set dsc_get_map. dm_valaddr n \<noteq> Some (pm_field m)" using assms(2) by (simp add: list_all_iff)
  then have "p2 (pm_field m) = p1 (pm_field m)"
    using b(3) dsc_params_frame [of e flags dsc_get_map p1 p2] by (auto simp: ebpp_getdscparam_def split: prod.splits)
  moreover have "p' = p2" using b(4) by (auto simp: ebpp_get_pllparam_def split: if_splits prod.splits)
  ultimately show ?thesis using w by auto
qed

text \<open>C3. Environment parameters come back through the library: if setting a structure and then reading
  with the same flags both succeed, every selected member that the driver keeps has the value it was set
  to, although limits are packed on the way (the overflow limits with the code for the FPGA, the gain
  limit with its attenuation). Only the interlock status and the two registers of the moving-average
  filter are not kept.\<close>

theorem env_set_then_get:
  assumes "cspi_setenvparam e True (Some p) flags s = Ret (Some p', s', CSPI_OK)"
    and "cspi_getenvparam e' True (Some q) flags s' = Ret (Some q', s'', CSPI_OK)"
    and "m \<in> set (custom_set_map e (g_decimation s))" "flags AND pm_mask m \<noteq> 0"
    and "pm_field m \<notin> {P_ddc_maflength, P_ddc_mafdelay, P_ilk_status}"
    and "pm_field m = P_ilk ILK_gain_limit \<longrightarrow> - 32768 \<le> sint (p (pm_field m)) \<and> sint (p (pm_field m)) < 32768"
  shows "q' (pm_field m) = p (pm_field m)"
proof -
  obtain s1 where s1: "custom_setenvparam e flags p (s\<lparr>e_mutex := True\<rparr>) = Ret (p', s1, CSPI_OK)" "s' = s1\<lparr>e_mutex := False\<rparr>"
    using assms(1) by (auto simp: cspi_setenvparam_def call_bind_Ret_iff split: if_splits)
  obtain s2 where s2: "custom_getenvparam e' flags q (s'\<lparr>e_mutex := True\<rparr>) = (q', s2, CSPI_OK)"
    using assms(2) by (auto simp: cspi_getenvparam_def split: if_splits prod.splits)
  obtain n where n: "n \<in> set custom_get_map" "same_entry m n"
    "reads_back (pm_validate m) (pm_validate n) (pm_code m) (p (pm_field m))"
    using tables_match [OF assms(3), of "p (pm_field m)"] assms(5,6) by auto
  have "flags AND pm_mask n \<noteq> 0" using n(2) assms(4) by (simp add: same_entry_def)
  from custom_get_value [OF s2 n(1) this] obtain w where
    w: "cfg_dev_get e' (pm_code m) (krn s1) = Some w" "validated (pm_validate n) w = Some (q' (pm_field m))"
    using n(2) s1(2) by (auto simp: same_entry_def)
  have mm: "m \<in> set (custom_set_map e (g_decimation (s\<lparr>e_mutex := True\<rparr>)))" using assms(3) by simp
  have "pm_code m \<in> set cfg_mirrored" using custom_codes(2) [OF assms(3)] assms(5) by simp
  from custom_set_stored [OF s1(1) mm assms(4) this w(1)] obtain u where
    "validated (pm_validate m) (p (pm_field m)) = Some u" "cfg_keeps (pm_code m) u w" by blast
  then show ?thesis using n(3) w(2) by (auto simp: reads_back_def)
qed

definition sample_env :: lib_env where
  "sample_env = \<lparr>le_filp = \<lparr>file_id = 0, fmode_read = True, fmode_write = True, o_nonblock = False\<rparr>,
     le_io = \<lparr>io_signal = False, io_wakes = [], io_uncopied = 0, io_access = True, io_reg = \<lambda>_. 0,
            io_stack = \<lparr>lst = 0, lmt = 0\<rparr>\<rparr>,
     le_gain = None, le_dsc = \<lambda>_ _. NoServer, le_pll_open = False, le_pll_lock = False,
     le_pll_command = NoCommandPipe, le_pll_reply = False,
     le_sensors = \<lparr>se_temp = None, se_fan0 = None, se_fan1 = None, se_voltage = None\<rparr>\<rparr>"

definition sample_state :: libst where
  "sample_state = \<lparr>krn = boot_kernel\<lparr>cfg := (cfg boot_kernel)\<lparr>master_filp := Some 0\<rparr>\<rparr>, e_mutex = False, cache_mutex = False,
     cache = \<lparr>c_Kx = 0, c_Ky = 0, c_Xoffset = 0, c_Yoffset = 0, c_Qoffset = 0, sp_threshold = 0, sp_n_before = 0,
       sp_n_after = 0, sr_dsc = 0, sr_enable = 0, sr_cspi_enable = 0, sr_averaging_stop = 0, sr_average_window = 0,
       sr_start = 0, sr_window = 0\<rparr>, is_cache_dirty = True, g_decimation = 64, pll_sent = []\<rparr>"

lemma handle_params_none: "\<forall>m \<in> set ms. flags AND pm_mask m = 0 \<Longrightarrow> handle_params f flags ms p s = (p, s, CSPI_OK)"
  by (induction ms) auto

lemma handle_params_first:
  assumes "f m p s = (q, t, CSPI_OK)" "flags AND pm_mask m \<noteq> 0" "\<forall>n \<in> set ms. flags AND pm_mask n = 0"
  shows "handle_params f flags (m # ms) p s = (q, t, CSPI_OK)"
  using assms handle_params_none [of ms flags f q t] by simp

theorem env_set_then_get_witness:
  "\<exists>p' s' q' s''. cspi_setenvparam sample_env True (Some (\<lambda>_. 12345)) CSPI_ENV_KX sample_state = Ret (Some p', s', CSPI_OK)
     \<and> cspi_getenvparam sample_env True (Some (\<lambda>_. 0)) CSPI_ENV_KX s' = Ret (Some q', s'', CSPI_OK)
     \<and> q' P_Kx = 12345"
proof -
  let ?p = "\<lambda>_. 12345 :: u32"
  let ?s = "sample_state\<lparr>e_mutex := True\<rparr>"
  have "\<exists>k. cfg_dev_set sample_env LIBERA_CFG_KX 12345 (krn ?s) = (k, True)"
    by (simp add: cfg_dev_set_def libera_cfg_ioctl_def is_cfg_set_def libera_cfg_cmd_def cfg_set_def
        libera_cfg_set_specific_def cfg_kept_def sample_env_def sample_state_def cfg_index LIBERA_CFG_PARAMS_MAX_def Let_def)
  then obtain k where k: "cfg_dev_set sample_env LIBERA_CFG_KX 12345 (krn ?s) = (k, True)" ..
  let ?m = "PARAM CSPI_ENV_KX LIBERA_CFG_KX P_Kx (Some (check ebpp_is_validcoef))"
  let ?t = "?s\<lparr>krn := k\<rparr>"
  have one: "set_param sample_env ?m ?p ?s = (?p, ?t, CSPI_OK)"
    using k by (simp add: set_param_def PARAM_def check_def validated_def ebpp_is_validcoef_def fun_upd_idem)
  have b: "base_setenvparam sample_env CSPI_ENV_KX ?p ?s = (?p, ?s, CSPI_OK)"
    by (simp add: base_setenvparam_def base_set_map_def PARAM_def env_masks and_then_def cspi_sethealthparam_def
        cspi_setfeatureparam_def)
  have m: "CSPI_ENV_KX AND pm_mask ?m \<noteq> 0" by (simp add: PARAM_def env_masks)
  have h: "handle_params (set_param sample_env) CSPI_ENV_KX (custom_set_map sample_env 64) ?p ?s = (?p, ?t, CSPI_OK)"
    unfolding custom_set_map_def by (rule handle_params_first, rule one, rule m) (simp add: PARAM_def env_masks)
  have c: "set_coeff sample_env CSPI_ENV_KX ?p ?t = (?p, ?t, CSPI_OK)"
    unfolding set_coeff_def by (rule handle_params_none) (auto simp: set_coeff_map_def PARAM_def env_masks)
  have d: "ebpp_setdscparam sample_env CSPI_ENV_KX ?p ?t = (?p, ?t, CSPI_OK)"
    by (simp add: ebpp_setdscparam_def sample_env_def and_then_def CSPI_SWITCH_DIRECT_def dsc_set_map_def env_masks)
  have l: "ebpp_set_pllparam sample_env CSPI_ENV_KX ?p ?t = Ret (?p, ?t, CSPI_OK)"
    by (simp add: ebpp_set_pllparam_def pll_set_map_def env_masks)
  have "g_decimation ?s = 64" by (simp add: sample_state_def)
  then have s: "custom_setenvparam sample_env CSPI_ENV_KX ?p ?s = Ret (?p, ?t\<lparr>is_cache_dirty := True\<rparr>, CSPI_OK)"
    using b h c d l by (simp add: custom_setenvparam_def and_then_def CACHE_MASK_def env_masks)
  let ?u = "?t\<lparr>is_cache_dirty := True, e_mutex := False\<rparr>"
  have set: "cspi_setenvparam sample_env True (Some ?p) CSPI_ENV_KX sample_state = Ret (Some ?p, ?u, CSPI_OK)"
    using s by (simp add: cspi_setenvparam_def sample_state_def)
  let ?q = "\<lambda>_. 0 :: u32"
  let ?n = "PARAM CSPI_ENV_KX LIBERA_CFG_KX P_Kx None"
  let ?v = "?u\<lparr>e_mutex := True\<rparr>"
  have "\<exists>w. cfg_dev_get sample_env LIBERA_CFG_KX (krn ?v) = Some w"
    by (subst cfg_dev_get_mirrored) (simp_all add: cfg_mirrored_def sample_env_def)
  then obtain w where "cfg_dev_get sample_env LIBERA_CFG_KX (krn ?v) = Some w" ..
  then have gone: "get_param sample_env ?n ?q ?v = (?q(P_Kx := w), ?v, CSPI_OK)"
    by (simp add: get_param_def PARAM_def validated_def)
  have n: "CSPI_ENV_KX AND pm_mask ?n \<noteq> 0" by (simp add: PARAM_def env_masks)
  have gh: "handle_params (get_param sample_env) CSPI_ENV_KX custom_get_map ?q ?v = (?q(P_Kx := w), ?v, CSPI_OK)"
    unfolding custom_get_map_def by (rule handle_params_first, rule gone, rule n) (simp add: PARAM_def env_masks)
  have "base_getenvparam sample_env CSPI_ENV_KX ?q ?v = (?q, ?v, CSPI_OK)"
    by (simp add: base_getenvparam_def base_get_map_def PARAM_def env_masks and_then_def cspi_gethealthparam_def
        cspi_getfeatureparam_def)
  then have "custom_getenvparam sample_env CSPI_ENV_KX ?q ?v = (?q(P_Kx := w), ?v, CSPI_OK)"
    using gh by (simp add: custom_getenvparam_def and_then_def ebpp_getdscparam_def dsc_get_map_def ebpp_get_pllparam_def env_masks)
  then have get: "cspi_getenvparam sample_env True (Some ?q) CSPI_ENV_KX ?u = Ret (Some (?q(P_Kx := w)), ?v\<lparr>e_mutex := False\<rparr>, CSPI_OK)"
    by (simp add: cspi_getenvparam_def)
  have "?m \<in> set (custom_set_map sample_env (g_decimation sample_state))" by (simp add: custom_set_map_def)
  from env_set_then_get [OF set get this] have "(?q(P_Kx := w)) P_Kx = 12345" by (simp add: PARAM_def env_masks)
  then show ?thesis using set get by blast
qed

end
