(* ===== verification/Cspi_Cache_Props.thy ===== *)
theory Cspi_Cache_Props
  imports Cspi_Env_Props
begin

text \<open>
  Calls that set parameters always return, with a command to the PLL daemon that fits its buffer; setting
  the same structure twice; and the library's cache of the driver's parameters, which follows the driver
  over any run of refreshes, settings and configuration events, except for what the events leave out and
  for a refresh that fails.
\<close>

section \<open>The command to the PLL daemon\<close>

lemma length_digits: "n < 10 ^ k \<Longrightarrow> 0 < k \<Longrightarrow> length (digits n) \<le> k"
proof (induction k arbitrary: n)
  case (Suc k)
  show ?case
  proof (cases "n < 10")
    case True
    then show ?thesis by (subst digits.simps) simp
  next
    case False
    have "n div 10 < 10 ^ k" using Suc.prems(1) by (simp add: div_less_iff_less_mult mult.commute)
    moreover have "0 < k" using False Suc.prems(1) by (cases k) auto
    ultimately show ?thesis using Suc.IH [of "n div 10"] False by (subst digits.simps) simp
  qed
qed simp

lemma length_decimal: "\<bar>i\<bar> \<le> 2147483648 \<Longrightarrow> length (decimal i) \<le> 11"
proof -
  assume i: "\<bar>i\<bar> \<le> 2147483648"
  then have "nat i < 10 ^ 10" "nat (- i) < 10 ^ 10" by auto
  with length_digits [of "nat i" 10] length_digits [of "nat (- i)" 10] show ?thesis
    by (auto simp: decimal_def simp del: digits.simps)
qed

lemma sint_s32_abs: "\<bar>sint (v :: u32)\<bar> \<le> 2147483648"
  using sint_range_size [of v] by (simp add: word_size abs_le_iff)

lemma pll_command_length:
  "pll_command_string flags ms p cmd = Some c \<Longrightarrow> length c \<le> length cmd + 13 * length ms"
proof (induction ms arbitrary: cmd)
  case (Cons m ms)
  show ?case
  proof (cases "flags AND ucast (lm_mask m) \<noteq> 0")
    case True
    then show ?thesis
      using Cons.IH [of "cmd @ lm_cmd m # decimal (sint (p (lm_valaddr m))) @ '' ''"] Cons.prems
        length_decimal [OF sint_s32_abs [of "p (lm_valaddr m)"]]
      by (auto simp del: of_int_sint split: if_splits)
  next
    case False
    then show ?thesis using Cons.IH [of cmd] Cons.prems by simp
  qed
qed simp

lemma pll_call: "\<exists>p' s' rc. ebpp_set_pllparam e flags p s = Ret (p', s', rc) \<and> e_mutex s' = e_mutex s"
proof (cases "pll_command_string flags pll_set_map p []")
  case None
  then show ?thesis by (simp add: ebpp_set_pllparam_def)
next
  case (Some c)
  have "length c < 96" using pll_command_length [OF Some] by (simp add: pll_set_map_def)
  then show ?thesis using Some
    by (simp add: ebpp_set_pllparam_def ebpp_pll_setcmd_def split: pll_command.split)
qed

section \<open>What a call can change\<close>

text \<open>
  A call changes the state by settings of the configuration device through selected entries of its tables,
  by a command to the PLL daemon, and by making the cache stale: what these keep, the call keeps.
\<close>

definition set_tables :: "lib_env \<Rightarrow> Param_map set" where
  "set_tables e = set base_set_map \<union> (\<Union>g. set (custom_set_map e g)) \<union> set set_coeff_map"

lemma set_pass_keeps:
  assumes "handle_params (set_param e) flags ms p s = (p', s', rc)" "Q s"
    "\<And>m v s k ok. m \<in> set ms \<Longrightarrow> flags AND pm_mask m \<noteq> 0 \<Longrightarrow> cfg_dev_set e (pm_code m) v (krn s) = (k, ok)
       \<Longrightarrow> Q s \<Longrightarrow> Q (s\<lparr>krn := k\<rparr>)"
  shows "Q s'"
  using assms
proof (induction ms arbitrary: p s)
  case (Cons m ms)
  have rest: "Q (s\<lparr>krn := k\<rparr>)" if "n \<in> set ms" "flags AND pm_mask n \<noteq> 0" "cfg_dev_set e (pm_code n) v (krn s) = (k, ok)" "Q s"
    for n v s k ok
    by (rule Cons.prems(3) [OF _ that(2,3,4)]) (simp add: that(1))
  have IH: "Q s'" if "handle_params (set_param e) flags ms q t = (p', s', rc)" "Q t" for q t
    using that by (rule Cons.IH) (rule rest)
  show ?case
  proof (cases "flags AND pm_mask m \<noteq> 0")
    case True
    obtain q t r where st: "set_param e m p s = (q, t, r)" by (cases "set_param e m p s") auto
    have "t = s \<or> (\<exists>v k ok. cfg_dev_set e (pm_code m) v (krn s) = (k, ok) \<and> t = s\<lparr>krn := k\<rparr>)"
      using st by (auto simp: set_param_def split: option.splits prod.splits)
    then have "Q t" using Cons.prems(2) Cons.prems(3) [of m] True by auto
    moreover have "(q, t, r) = (p', s', rc) \<or> handle_params (set_param e) flags ms q t = (p', s', rc)"
      using Cons.prems(1) True st by (simp split: if_splits)
    ultimately show ?thesis using IH by blast
  next
    case False
    then show ?thesis using IH [OF _ Cons.prems(2), of p] Cons.prems(1) by simp
  qed
qed simp

lemma custom_set_keeps:
  assumes "custom_setenvparam e flags p s = Ret (p', s', rc)" "Q s"
    and setq: "\<And>m v s k ok. m \<in> set_tables e \<Longrightarrow> flags AND pm_mask m \<noteq> 0
       \<Longrightarrow> cfg_dev_set e (pm_code m) v (krn s) = (k, ok) \<Longrightarrow> Q s \<Longrightarrow> Q (s\<lparr>krn := k\<rparr>)"
    and dirtyq: "\<And>s. Q s \<Longrightarrow> Q (s\<lparr>is_cache_dirty := True\<rparr>)" and sentq: "\<And>s c. Q s \<Longrightarrow> Q (s\<lparr>pll_sent := c\<rparr>)"
  shows "Q s'"
proof -
  have pass: "Q s2" if "handle_params (set_param e) flags ms p1 s1 = (p2, s2, r)" "Q s1" "set ms \<subseteq> set_tables e"
    for ms p1 s1 p2 s2 r
    using that(1,2) by (rule set_pass_keeps) (use that(3) setq in blast)
  have T: "set base_set_map \<subseteq> set_tables e" "set (custom_set_map e g) \<subseteq> set_tables e" "set set_coeff_map \<subseteq> set_tables e" for g
    by (auto simp: set_tables_def)
  obtain p0 s0 r0 where b: "base_setenvparam e flags p s = (p0, s0, r0)" by (cases "base_setenvparam e flags p s") auto
  obtain p1 s1 r1 where h: "handle_params (set_param e) flags (custom_set_map e (g_decimation s0)) p0 s0 = (p1, s1, r1)"
    by (cases "handle_params (set_param e) flags (custom_set_map e (g_decimation s0)) p0 s0") auto
  obtain p2 s2 r2 where c: "set_coeff e flags p1 s1 = (p2, s2, r2)" by (cases "set_coeff e flags p1 s1") auto
  obtain p3 s3 r3 where d: "ebpp_setdscparam e flags p2 s2 = (p3, s3, r3)" by (cases "ebpp_setdscparam e flags p2 s2") auto
  obtain q t r where bh: "handle_params (set_param e) flags base_set_map p s = (q, t, r)"
    by (cases "handle_params (set_param e) flags base_set_map p s") auto
  have "s0 = s \<or> s0 = t" using b bh by (auto simp: base_setenvparam_def and_then_def split: if_splits)
  then have q0: "Q s0" using pass [OF bh assms(2) T(1)] assms(2) by auto
  have q1: "Q s1" by (rule pass [OF h q0 T(2)])
  have q2: "Q s2" by (rule pass [OF c [unfolded set_coeff_def] q1 T(3)])
  have "s3 = s2 \<or> s3 = s2\<lparr>is_cache_dirty := True\<rparr>"
    using d by (auto simp: ebpp_setdscparam_def and_then_def split: if_splits prod.splits dest: feature_state)
  then have q3: "Q s3" using q2 dirtyq by auto
  have l: "Q s5" if "ebpp_set_pllparam e flags p4 s4 = Ret (p5, s5, r5)" "Q s4" for p4 s4 p5 s5 r5
    using that sentq
    by (auto simp: ebpp_set_pllparam_def ebpp_pll_setcmd_def split: option.splits if_splits prod.splits pll_command.splits)
  define chain where "chain = and_then (base_setenvparam e flags p s) (\<lambda>p s.
             and_then (handle_params (set_param e) flags (custom_set_map e (g_decimation s)) p s) (\<lambda>p s.
             and_then (set_coeff e flags p s) (\<lambda>p s. ebpp_setdscparam e flags p s)))"
  obtain u w rc4 where ch: "chain = (u, w, rc4)" by (cases chain) auto
  have "w \<in> {s0, s1, s2, s3}" using ch unfolding chain_def by (simp add: and_then_def b h c d split: if_splits)
  then have "Q w" using q0 q1 q2 q3 by auto
  moreover have "\<exists>x y z. (if rc4 = CSPI_OK then ebpp_set_pllparam e flags u w else Ret (u, w, rc4)) = Ret (x, y, z)
      \<and> (s' = y \<or> s' = y\<lparr>is_cache_dirty := True\<rparr>)"
    using assms(1) unfolding custom_setenvparam_def chain_def [symmetric] ch by (auto simp: call_bind_Ret_iff split: if_splits)
  ultimately show ?thesis using l dirtyq by (auto split: if_splits)
qed

lemma custom_set_dirty: "custom_setenvparam e flags p s = Ret (p', s', rc) \<Longrightarrow> flags AND CACHE_MASK \<noteq> 0 \<Longrightarrow> is_cache_dirty s'"
  by (auto simp: custom_setenvparam_def call_bind_Ret_iff)

lemma set_call: "\<exists>p' s' rc. custom_setenvparam e flags p s = Ret (p', s', rc) \<and> e_mutex s' = e_mutex s"
proof -
  obtain q t rc where c: "and_then (base_setenvparam e flags p s) (\<lambda>p s.
             and_then (handle_params (set_param e) flags (custom_set_map e (g_decimation s)) p s) (\<lambda>p s.
             and_then (set_coeff e flags p s) (\<lambda>p s. ebpp_setdscparam e flags p s))) = (q, t, rc)"
    by (rule prod_cases3)
  obtain q' t' rc' where "ebpp_set_pllparam e flags q t = Ret (q', t', rc')" using pll_call by blast
  then obtain p' s' rc' where r: "custom_setenvparam e flags p s = Ret (p', s', rc')"
    unfolding custom_setenvparam_def c by (cases "rc = CSPI_OK") auto
  moreover have "e_mutex s' = e_mutex s"
    by (rule custom_set_keeps [where Q = "\<lambda>t. e_mutex t = e_mutex s", OF r]) simp_all
  ultimately show ?thesis by blast
qed



section \<open>What a successful call leaves in the structure\<close>

lemma dsc_set_frame:
  assumes "ebpp_setdscparam e flags p s = (p', s', rc)"
    "f \<notin> {P_switches, P_agc, P_gain, P_dsc, P_feature FE_customer, P_feature FE_itech}"
  shows "p' f = p f"
proof -
  have h: "q' f = q f" if "ebpp_dsc_handle_params e flags dsc_set_map q = (q', r)" for q q' r
    using dsc_params_frame [OF that, of f] assms(2) by (auto simp: dsc_set_map_def)
  have g: "q' f = q f" if "cspi_getfeatureparam e CSPI_ENV_FEATURE q s = (q', s'', r)" for q q' s'' r
    using that assms(2) by (auto simp: cspi_getfeatureparam_def split: if_splits option.splits)
  show ?thesis using assms
    by (auto simp: ebpp_setdscparam_def and_then_def split: if_splits prod.splits dest!: h g)
qed

lemma pll_set_frame: "ebpp_set_pllparam e flags p s = Ret (p', s', rc) \<Longrightarrow> p' = p"
  by (auto simp: ebpp_set_pllparam_def split: option.splits if_splits prod.splits)

lemma custom_set_fields:
  "m \<in> set (custom_set_map e g) \<Longrightarrow>
     pm_field m \<notin> {P_switches, P_agc, P_gain, P_dsc, P_feature FE_customer, P_feature FE_itech}
     \<and> pm_field m \<notin> pm_field ` set set_coeff_map"
proof -
  have "list_all (\<lambda>m. pm_field m \<notin> {P_switches, P_agc, P_gain, P_dsc, P_feature FE_customer, P_feature FE_itech}
      \<and> (\<forall>j. pm_field m \<notin> {P_notch1 j, P_notch2 j, P_polyphase_fir j})) (custom_set_map e g)"
    by (simp add: table_simps)
  moreover have "\<exists>j. pm_field n \<in> {P_notch1 j, P_notch2 j, P_polyphase_fir j}" if "n \<in> set set_coeff_map" for n
    using that by (auto simp: set_coeff_map_def PARAM_def)
  ultimately show "m \<in> set (custom_set_map e g) \<Longrightarrow> ?thesis" by (fastforce simp: list_all_iff)
qed

lemma custom_set_value:
  assumes "custom_setenvparam e flags p s = Ret (p', s', CSPI_OK)" "m \<in> set (custom_set_map e (g_decimation s))"
    "flags AND pm_mask m \<noteq> 0"
  shows "validated (pm_validate m) (p (pm_field m)) = Some (p' (pm_field m))"
proof -
  let ?T = "custom_set_map e (g_decimation s)"
  obtain p0 s0 p1 s1 p2 s2 p3 s3 s4 where b: "base_setenvparam e flags p s = (p0, s0, CSPI_OK)"
    "handle_params (set_param e) flags ?T p0 s0 = (p1, s1, CSPI_OK)"
    "set_coeff e flags p1 s1 = (p2, s2, CSPI_OK)" "ebpp_setdscparam e flags p2 s2 = (p3, s3, CSPI_OK)"
    "ebpp_set_pllparam e flags p3 s3 = Ret (p', s4, CSPI_OK)"
    using custom_set_steps [OF assms(1)] by blast
  have sel: "m \<in> set (selected flags ?T)" using assms(2,3) by (simp add: selected_def)
  have "validated (pm_validate m) (p0 (pm_field m)) = Some (p1 (pm_field m))"
    using conjunct2 [OF set_pass [OF b(2) custom_set_distinct(1)]] sel by (rule bspec)
  moreover have "p0 (pm_field m) = p (pm_field m)" using base_set_frame(2) [OF b(1)] custom_fields [OF assms(2)] by simp
  moreover have "p2 (pm_field m) = p1 (pm_field m)"
    by (rule handle_params_frame [OF b(3) [unfolded set_coeff_def]]) (use custom_set_fields [OF assms(2)] in simp)
  moreover have "p3 (pm_field m) = p2 (pm_field m)"
    by (rule dsc_set_frame [OF b(4)]) (use custom_set_fields [OF assms(2)] in simp)
  ultimately show ?thesis using pll_set_frame [OF b(5)] by simp
qed

section \<open>Setting the same structure twice\<close>

text \<open>Gains from -80 to 0 dB and two attenuators of 5 bits.\<close>

definition gain_conf_ok :: "gain_line list option \<Rightarrow> bool" where
  "gain_conf_ok conf = (case conf of None \<Rightarrow> True | Some ls \<Rightarrow>
     list_all (\<lambda>l. case l of Comment \<Rightarrow> True
       | Gain g a b \<Rightarrow> - 80 \<le> sint g \<and> sint g \<le> 0 \<and> a \<le> 31 \<and> b \<le> 31) ls)"

lemma toattn_line: "toattn_lines g ls \<noteq> - 1 \<Longrightarrow> \<exists>a b. Gain g a b \<in> set ls \<and> toattn_lines g ls = a + b"
  by (induction g ls rule: toattn_lines.induct) (auto split: if_splits)

lemma gain_known:
  assumes "gain_conf_ok conf" "ebpp_toattn conf g \<noteq> - 1"
  shows "- 80 \<le> sint g \<and> sint g \<le> 0 \<and> ebpp_toattn conf g \<le> 62"
proof -
  obtain ls where ls: "conf = Some ls" using assms(2) by (cases conf) (auto simp: ebpp_toattn_def)
  with assms(2) obtain a b where ab: "Gain g a b \<in> set ls" "ebpp_toattn conf g = a + b"
    using toattn_line [of g ls] by (auto simp: ebpp_toattn_def)
  then have r: "- 80 \<le> sint g" "sint g \<le> 0" "a \<le> 31" "b \<le> 31"
    using assms(1) ls by (auto simp: gain_conf_ok_def list_all_iff)
  from r(3,4) have "a + b \<le> 62" by (simp add: word_le_nat_alt unat_word_ariths)
  then show ?thesis using r ab(2) by simp
qed

lemma packed_gain_unknown:
  assumes "gain_conf_ok conf" "gain_conf_ok conf'" "v \<noteq> 0" "ebpp_set_gainlimit conf v = Some w"
  shows "ebpp_set_gainlimit conf' w = None"
proof -
  have a: "ebpp_toattn conf v \<noteq> - 1" and w: "w = push_bit 16 v OR (ebpp_toattn conf v AND 0x0000ffff)"
    using assms(4) by (auto simp: ebpp_set_gainlimit_def Let_def split: if_splits)
  note k = gain_known [OF assms(1) a]
  have "sint v \<noteq> 0" using assms(3) by (metis signed_eq_0_iff)
  then have v: "- 80 \<le> sint v" "sint v < 0" using k by auto
  have d: "signed_drop_bit 16 w = v" unfolding w by (rule packed_gain) (use v in auto)
  then have "sint (signed_drop_bit 16 w) = sint v" by simp
  then have sd: "sint w div 65536 = sint v" by (simp add: sint_signed_drop_bit_eq drop_bit_eq_div)
  have f: "(0x0000ffff :: u32) = mask 16" by (simp add: mask_eq_exp_minus_1)
  have "take_bit 16 w = take_bit 16 (ebpp_toattn conf v)"
    unfolding w f by (rule bit_word_eqI) (auto simp: bit_simps)
  then have "take_bit 16 (uint w) = take_bit 16 (uint (ebpp_toattn conf v))"
    by (simp only: unsigned_take_bit_eq [symmetric])
  then have "uint w mod 65536 = uint (ebpp_toattn conf v) mod 65536"
    by (simp only: take_bit_eq_mod) simp
  moreover have "uint (ebpp_toattn conf v) \<le> 62" using k by (simp add: word_le_def)
  moreover have "sint w mod 65536 = uint w mod 65536"
    by (simp add: uint_sint take_bit_eq_mod mod_mod_cancel)
  ultimately have "sint w mod 65536 \<le> 62" by simp
  moreover have "sint w = 65536 * (sint w div 65536) + sint w mod 65536" by simp
  ultimately have "sint w < - 80" using sd v by linarith
  then have "ebpp_toattn conf' w = - 1" using gain_known [OF assms(2), of w] by linarith
  then show ?thesis by (simp add: ebpp_set_gainlimit_def Let_def)
qed

text \<open>C16. A structure with an interlock cannot be set twice: a successful call leaves the gain limit packed
  with its attenuation in the caller's structure, which is not a gain any more; when the same structure is
  set again, by whatever other parameters it is accompanied, the call is refused.\<close>

theorem ilk_set_once:
  assumes "cspi_setenvparam e True (Some p) flags s = Ret (Some p', s', CSPI_OK)"
    and "flags AND CSPI_ENV_ILK \<noteq> 0" "flags' AND CSPI_ENV_ILK \<noteq> 0"
    and "gain_conf_ok (le_gain e)" "gain_conf_ok (le_gain e')"
    and "p (P_ilk ILK_gain_limit) \<noteq> 0"
  shows "cspi_setenvparam e' True (Some p') flags' t \<noteq> Ret (q, t', CSPI_OK)"
proof
  assume "cspi_setenvparam e' True (Some p') flags' t = Ret (q, t', CSPI_OK)"
  then obtain q1 t1 where two: "custom_setenvparam e' flags' p' (t\<lparr>e_mutex := True\<rparr>) = Ret (q1, t1, CSPI_OK)"
    by (auto simp: cspi_setenvparam_def call_bind_Ret_iff split: if_splits)
  obtain s1 where one: "custom_setenvparam e flags p (s\<lparr>e_mutex := True\<rparr>) = Ret (p', s1, CSPI_OK)"
    using assms(1) by (auto simp: cspi_setenvparam_def call_bind_Ret_iff split: if_splits)
  have m: "PARAM CSPI_ENV_ILK LIBERA_CFG_ILK_GAIN_LIMIT (P_ilk ILK_gain_limit) (Some (ebpp_set_gainlimit (le_gain x)))
      \<in> set (custom_set_map x g)" for x g
    by (simp add: custom_set_map_def)
  have "ebpp_set_gainlimit (le_gain e) (p (P_ilk ILK_gain_limit)) = Some (p' (P_ilk ILK_gain_limit))"
    using custom_set_value [OF one m] assms(2) by (simp add: PARAM_def validated_def)
  then have "ebpp_set_gainlimit (le_gain e') (p' (P_ilk ILK_gain_limit)) = None"
    by (rule packed_gain_unknown [OF assms(4,5,6)])
  moreover have "ebpp_set_gainlimit (le_gain e') (p' (P_ilk ILK_gain_limit)) = Some (q1 (P_ilk ILK_gain_limit))"
    using custom_set_value [OF two m] assms(3) by (simp add: PARAM_def validated_def)
  ultimately show False by simp
qed

text \<open>Passes that succeed.\<close>

definition settable :: "lib_env \<Rightarrow> (kernel \<Rightarrow> bool) \<Rightarrow> nat \<Rightarrow> u32 \<Rightarrow> bool" where
  "settable e P i u \<longleftrightarrow> (\<forall>k. P k \<longrightarrow> (\<exists>k'. cfg_dev_set e i u k = (k', True) \<and> P k'))"

lemma pass_works:
  assumes "\<forall>m \<in> set ms. flags AND pm_mask m \<noteq> 0 \<longrightarrow>
      (\<exists>u. validated (pm_validate m) (p (pm_field m)) = Some u \<and> settable e P (pm_code m) u)"
    "distinct (map pm_field ms)" "P (krn s)"
  shows "\<exists>p' k'. handle_params (set_param e) flags ms p s = (p', s\<lparr>krn := k'\<rparr>, CSPI_OK) \<and> P k'"
  using assms
proof (induction ms arbitrary: p s)
  case Nil
  have "s = s\<lparr>krn := krn s\<rparr>" by simp
  with Nil(3) show ?case by (metis handle_params.simps(1))
next
  case (Cons m ms)
  show ?case
  proof (cases "flags AND pm_mask m \<noteq> 0")
    case True
    then obtain u where u: "validated (pm_validate m) (p (pm_field m)) = Some u" "settable e P (pm_code m) u"
      using Cons.prems(1) by auto
    then obtain k where k: "cfg_dev_set e (pm_code m) u (krn s) = (k, True)" "P k"
      using Cons.prems(3) by (auto simp: settable_def)
    have "\<forall>n \<in> set ms. flags AND pm_mask n \<noteq> 0 \<longrightarrow>
      (\<exists>v. validated (pm_validate n) ((p(pm_field m := u)) (pm_field n)) = Some v \<and> settable e P (pm_code n) v)"
      using Cons.prems(1,2) by (auto simp: image_iff)
    from Cons.IH [OF this, of "s\<lparr>krn := k\<rparr>"] Cons.prems(2) k(2) obtain p' k' where
      "handle_params (set_param e) flags ms (p(pm_field m := u)) (s\<lparr>krn := k\<rparr>) = (p', s\<lparr>krn := k'\<rparr>, CSPI_OK)" "P k'"
      by (auto simp del: fun_upd_apply)
    moreover have "set_param e m p s = (p(pm_field m := u), s\<lparr>krn := k\<rparr>, CSPI_OK)"
      using u(1) k(1) by (simp add: set_param_def)
    ultimately show ?thesis using True by auto
  next
    case False
    then show ?thesis using Cons.IH [of p s] Cons.prems by simp
  qed
qed

definition ilk_env :: lib_env where
  "ilk_env = sample_env\<lparr>le_gain := Some [Comment, Gain (- 20) 10 9], le_dsc := \<lambda>_ _. Reply 0 0\<rparr>"

abbreviation (input) master_0 :: "kernel \<Rightarrow> bool" where "master_0 k \<equiv> master_filp (cfg k) = Some 0"

lemma settable_ilk:
  "i \<in> {LIBERA_CFG_ILK_MODE, LIBERA_CFG_ILK_XLOW, LIBERA_CFG_ILK_XHIGH, LIBERA_CFG_ILK_YLOW, LIBERA_CFG_ILK_YHIGH,
      LIBERA_CFG_ILK_OVERFLOW_DUR, LIBERA_CFG_ILK_OVERFLOW_LIMIT} \<Longrightarrow> settable ilk_env master_0 i 0"
  "settable ilk_env master_0 LIBERA_CFG_ILK_GAIN_LIMIT u"
  by (auto simp: settable_def cfg_dev_set_def libera_cfg_ioctl_def is_cfg_set_def libera_cfg_cmd_def cfg_set_def
      libera_cfg_set_specific_def cfg_kept_def ilk_env_def sample_env_def cfg_index LIBERA_CFG_PARAMS_MAX_def ilk_atom_def
      set_cfg_param_def Let_def)

theorem ilk_set_once_witness:
  "\<exists>p' s'. cspi_setenvparam ilk_env True (Some ((\<lambda>_. 0)(P_ilk ILK_gain_limit := - 20))) CSPI_ENV_ILK sample_state
        = Ret (Some p', s', CSPI_OK)
     \<and> (\<forall>q t'. cspi_setenvparam ilk_env True (Some p') CSPI_ENV_ILK s' \<noteq> Ret (q, t', CSPI_OK))"
proof -
  let ?p = "(\<lambda>_. 0)(P_ilk ILK_gain_limit := - 20) :: CSPI_ENVPARAMS"
  let ?s = "sample_state\<lparr>e_mutex := True\<rparr>"
  have b: "base_setenvparam ilk_env CSPI_ENV_ILK ?p ?s = (?p, ?s, CSPI_OK)"
    by (simp add: base_setenvparam_def base_set_map_def PARAM_def env_masks and_then_def cspi_sethealthparam_def
        cspi_setfeatureparam_def)
  have g: "ebpp_set_gainlimit (le_gain ilk_env) (- 20) \<noteq> None"
    by (simp add: ebpp_set_gainlimit_def ilk_env_def ebpp_toattn_def)
  have "list_all (\<lambda>m. CSPI_ENV_ILK AND pm_mask m \<noteq> 0 \<longrightarrow>
      (\<exists>u. validated (pm_validate m) (?p (pm_field m)) = Some u \<and> settable ilk_env master_0 (pm_code m) u))
    (custom_set_map ilk_env 64)"
    using g by (auto simp: custom_set_map_def PARAM_def env_masks validated_def check_def settable_ilk ebpp_is_validilk_def
        ebpp_is_valid_int25_def ebpp_is_validoverflowdur_def ebpp_is_valid_overflowlimit_def)
  moreover have "master_0 (krn ?s)" by (simp add: sample_state_def)
  ultimately obtain p1 k where h: "handle_params (set_param ilk_env) CSPI_ENV_ILK (custom_set_map ilk_env 64) ?p ?s
      = (p1, ?s\<lparr>krn := k\<rparr>, CSPI_OK)"
    using pass_works [of "custom_set_map ilk_env 64" CSPI_ENV_ILK ?p ilk_env master_0 ?s] custom_set_distinct(1)
    by (auto simp: list_all_iff)
  let ?t = "?s\<lparr>krn := k\<rparr>"
  have c: "set_coeff ilk_env CSPI_ENV_ILK p1 ?t = (p1, ?t, CSPI_OK)"
    unfolding set_coeff_def by (rule handle_params_none) (auto simp: set_coeff_map_def PARAM_def env_masks)
  have "p1 P_switches = ?p P_switches"
    by (rule handle_params_frame [OF h]) (simp add: custom_set_map_def PARAM_def)
  then have d: "ebpp_setdscparam ilk_env CSPI_ENV_ILK p1 ?t = (p1, ?t, CSPI_OK)"
    by (simp add: ebpp_setdscparam_def ilk_env_def sample_env_def and_then_def CSPI_SWITCH_DIRECT_def dsc_set_map_def
        ebpp_dsc_message_def env_masks CSPI_OK_def)
  have l: "ebpp_set_pllparam ilk_env CSPI_ENV_ILK p1 ?t = Ret (p1, ?t, CSPI_OK)"
    by (simp add: ebpp_set_pllparam_def pll_set_map_def env_masks)
  have "g_decimation ?s = 64" by (simp add: sample_state_def)
  then have "custom_setenvparam ilk_env CSPI_ENV_ILK ?p ?s = Ret (p1, ?t, CSPI_OK)"
    using b h c d l by (simp add: custom_setenvparam_def and_then_def CACHE_MASK_def env_masks)
  then have one: "cspi_setenvparam ilk_env True (Some ?p) CSPI_ENV_ILK sample_state
      = Ret (Some p1, ?t\<lparr>e_mutex := False\<rparr>, CSPI_OK)"
    by (simp add: cspi_setenvparam_def sample_state_def)
  have "gain_conf_ok (le_gain ilk_env)" by (simp add: gain_conf_ok_def ilk_env_def)
  then have "\<forall>q t'. cspi_setenvparam ilk_env True (Some p1) CSPI_ENV_ILK (?t\<lparr>e_mutex := False\<rparr>) \<noteq> Ret (q, t', CSPI_OK)"
    by (intro allI ilk_set_once [OF one]) (simp_all add: env_masks)
  then show ?thesis using one by blast
qed

section \<open>The cache\<close>

definition cache_codes :: "nat list" where
  "cache_codes =
     [LIBERA_CFG_KX, LIBERA_CFG_KY, LIBERA_CFG_XOFFSET, LIBERA_CFG_YOFFSET, LIBERA_CFG_QOFFSET,
      LIBERA_CFG_BCD_XOFFSET, LIBERA_CFG_BCD_YOFFSET,
      LIBERA_CFG_SP_THRESHOLD, LIBERA_CFG_SP_N_BEFORE, LIBERA_CFG_SP_N_AFTER,
      LIBERA_CFG_SR_ENABLE, LIBERA_CFG_SR_CSPI_ENABLE, LIBERA_CFG_SR_AVERAGING_STOP, LIBERA_CFG_SR_AVERAGE_WINDOW,
      LIBERA_CFG_SR_START, LIBERA_CFG_SR_WINDOW]"

text \<open>The cache holds the driver's parameters, the offsets with the beam-current dependent part.\<close>

definition cache_agrees :: "Cache \<Rightarrow> kernel \<Rightarrow> bool" where
  "cache_agrees c k \<longleftrightarrow>
     c_Kx c = param k LIBERA_CFG_KX \<and> c_Ky c = param k LIBERA_CFG_KY
   \<and> c_Xoffset c = param k LIBERA_CFG_XOFFSET + param k LIBERA_CFG_BCD_XOFFSET
   \<and> c_Yoffset c = param k LIBERA_CFG_YOFFSET + param k LIBERA_CFG_BCD_YOFFSET
   \<and> c_Qoffset c = param k LIBERA_CFG_QOFFSET
   \<and> sp_threshold c = param k LIBERA_CFG_SP_THRESHOLD \<and> sp_n_before c = param k LIBERA_CFG_SP_N_BEFORE
   \<and> sp_n_after c = param k LIBERA_CFG_SP_N_AFTER
   \<and> sr_enable c = param k LIBERA_CFG_SR_ENABLE \<and> sr_cspi_enable c = param k LIBERA_CFG_SR_CSPI_ENABLE
   \<and> sr_averaging_stop c = param k LIBERA_CFG_SR_AVERAGING_STOP
   \<and> sr_average_window c = param k LIBERA_CFG_SR_AVERAGE_WINDOW
   \<and> sr_start c = param k LIBERA_CFG_SR_START \<and> sr_window c = param k LIBERA_CFG_SR_WINDOW"

lemma cache_agrees_params:
  "\<forall>i \<in> set cache_codes. param k' i = param k i \<Longrightarrow> cache_agrees c k' = cache_agrees c k"
  by (simp add: cache_agrees_def cache_codes_def)

lemma cached_mirrored: "i \<in> set cache_codes \<Longrightarrow> i \<in> set cfg_mirrored"
  by (auto simp: cache_codes_def cfg_mirrored_def)

lemma get_chain_state:
  assumes "custom_getenvparam e flags p s = (p', s', rc)"
  shows "krn s' = krn s \<and> cache s' = cache s \<and> is_cache_dirty s' = is_cache_dirty s \<and> cache_mutex s' = cache_mutex s"
proof -
  obtain p0 s0 r0 where b: "base_getenvparam e flags p s = (p0, s0, r0)" by (cases "base_getenvparam e flags p s") auto
  obtain p1 s1 r1 where h: "handle_params (get_param e) flags custom_get_map p0 s0 = (p1, s1, r1)"
    by (cases "handle_params (get_param e) flags custom_get_map p0 s0") auto
  have "s0 = s" "s1 = s0" by (rule base_get_state [OF b], rule get_state [OF h])
  with assms b h show ?thesis
    by (auto simp: custom_getenvparam_def and_then_def ebpp_getdscparam_def ebpp_get_pllparam_def ebpp_pll_setcmd_def
        split: if_splits prod.splits pll_command.splits)
qed

lemma cached_value:
  assumes "custom_getenvparam e CACHE_MASK p s = (p', s', CSPI_OK)" "m \<in> set custom_get_map"
    "pm_mask m \<in> {CSPI_ENV_KX, CSPI_ENV_KY, CSPI_ENV_XOFFSET, CSPI_ENV_YOFFSET, CSPI_ENV_QOFFSET, CSPI_ENV_SR, CSPI_ENV_SP}"
    "pm_validate m = None" "pm_code m \<in> set cache_codes"
  shows "p' (pm_field m) = param (krn s) (pm_code m)"
proof -
  have "CACHE_MASK AND pm_mask m \<noteq> 0" using assms(3) by (auto simp: CACHE_MASK_def env_masks)
  from custom_get_value [OF assms(1,2) this] show ?thesis
    using cfg_dev_get_mirrored [OF cached_mirrored [OF assms(5)], of e "krn s"] assms(4)
    by (auto simp: validated_def split: if_splits)
qed

lemma cached_values:
  assumes "custom_getenvparam e CACHE_MASK p s = (p', s', CSPI_OK)"
  shows "p' P_Kx = param (krn s) LIBERA_CFG_KX \<and> p' P_Ky = param (krn s) LIBERA_CFG_KY
     \<and> p' P_Xoffset = param (krn s) LIBERA_CFG_XOFFSET \<and> p' P_Yoffset = param (krn s) LIBERA_CFG_YOFFSET
     \<and> p' P_Qoffset = param (krn s) LIBERA_CFG_QOFFSET
     \<and> p' (P_sp SP_threshold) = param (krn s) LIBERA_CFG_SP_THRESHOLD
     \<and> p' (P_sp SP_n_before) = param (krn s) LIBERA_CFG_SP_N_BEFORE \<and> p' (P_sp SP_n_after) = param (krn s) LIBERA_CFG_SP_N_AFTER
     \<and> p' (P_sr SR_enable) = param (krn s) LIBERA_CFG_SR_ENABLE
     \<and> p' (P_sr SR_cspi_enable) = param (krn s) LIBERA_CFG_SR_CSPI_ENABLE
     \<and> p' (P_sr SR_averaging_stop) = param (krn s) LIBERA_CFG_SR_AVERAGING_STOP
     \<and> p' (P_sr SR_average_window) = param (krn s) LIBERA_CFG_SR_AVERAGE_WINDOW
     \<and> p' (P_sr SR_start) = param (krn s) LIBERA_CFG_SR_START \<and> p' (P_sr SR_window) = param (krn s) LIBERA_CFG_SR_WINDOW"
proof -
  let ?P = "\<lambda>m. pm_mask m \<in> {CSPI_ENV_KX, CSPI_ENV_KY, CSPI_ENV_XOFFSET, CSPI_ENV_YOFFSET, CSPI_ENV_QOFFSET, CSPI_ENV_SR, CSPI_ENV_SP}
      \<and> pm_validate m = None \<and> pm_code m \<in> set cache_codes \<longrightarrow> p' (pm_field m) = param (krn s) (pm_code m)"
  have "list_all ?P custom_get_map" using cached_value [OF assms] by (simp add: list_all_iff)
  then show ?thesis by (simp add: custom_get_map_def PARAM_def cache_codes_def)
qed

text \<open>A refresh.\<close>

lemma update_cache_agrees:
  assumes "ebpp_update_cache e junk s = Ret (s', CSPI_OK)"
  shows "cache_agrees (cache s') (krn s') \<and> krn s' = krn s \<and> is_cache_dirty s' = is_cache_dirty s \<and> \<not> cache_mutex s'"
proof -
  obtain p t rc where g: "custom_getenvparam e CACHE_MASK junk s = (p, t, rc)"
    by (cases "custom_getenvparam e CACHE_MASK junk s") auto
  have ok: "rc = CSPI_OK" using assms g by (auto simp: ebpp_update_cache_def split: if_splits)
  note st = get_chain_state [OF g]
  have io: "cfg_dev_get e i k = (if io_access (le_io e) then Some (param k i) else None)"
    if "i \<in> {LIBERA_CFG_BCD_XOFFSET, LIBERA_CFG_BCD_YOFFSET}" for i k
    by (rule cfg_dev_get_mirrored) (use that in \<open>auto simp: cfg_mirrored_def\<close>)
  show ?thesis
    using assms st cached_values [OF g [unfolded ok]]
    by (auto simp: ebpp_update_cache_def g ok io Let_def cached_def cached_rest_def cache_agrees_def
        CSPI_OK_def CSPI_E_SYSTEM_def split: if_splits)
qed

lemma refresh_agrees:
  assumes "custom_initop e junk s = Ret (s', CSPI_OK)" "is_cache_dirty s"
  shows "cache_agrees (cache s') (krn s') \<and> krn s' = krn s \<and> \<not> is_cache_dirty s' \<and> \<not> e_mutex s'"
proof -
  obtain t where "ebpp_update_cache e junk (s\<lparr>is_cache_dirty := False, e_mutex := True\<rparr>) = Ret (t, CSPI_OK)" "s' = t\<lparr>e_mutex := False\<rparr>"
    using assms by (auto simp: custom_initop_def call_bind_Ret_iff split: if_splits)
  with update_cache_agrees show ?thesis by fastforce
qed

section \<open>Following the driver\<close>

text \<open>
  What happens to a process that uses the library: a refresh that succeeds, its own settings and readings,
  a setting by another process whose event reaches it, any other event. The driver reports no event for
  the beam-current dependent offsets, and the hook ignores the one for the enable of the spike removal.
\<close>

definition unreported :: "nat set" where
  "unreported = {LIBERA_CFG_BCD_XOFFSET, LIBERA_CFG_BCD_YOFFSET, LIBERA_CFG_SR_ENABLE}"

inductive lib_step :: "libst \<Rightarrow> libst \<Rightarrow> bool" where
  refresh: "custom_initop e junk s = Ret (s', CSPI_OK) \<Longrightarrow> lib_step s s'"
| set_env: "cspi_setenvparam e h p flags s = Ret (p', s', rc) \<Longrightarrow> lib_step s s'"
| get_env: "cspi_getenvparam e h p flags s = Ret (p', s', rc) \<Longrightarrow> lib_step s s'"
| other_set: "cfg_set env (0, i, v) (krn s) = (k', r) \<Longrightarrow> unat i \<notin> unreported
    \<Longrightarrow> lib_step s (signal_handler_hook \<lparr>ev_id = LIBERA_EVENT_CFG, ev_param = i\<rparr> (s\<lparr>krn := k'\<rparr>))"
| other_event: "lib_step s (signal_handler_hook ev s)"

definition cache_fresh :: "libst \<Rightarrow> bool" where
  "cache_fresh s \<longleftrightarrow> is_cache_dirty s \<or> cache_agrees (cache s) (krn s)"

lemma fresh_hook: "cache_fresh s \<Longrightarrow> cache_fresh (signal_handler_hook ev s)"
  by (simp add: cache_fresh_def signal_handler_hook_def)

lemma set_table_codes:
  assumes "m \<in> set_tables e"
  shows "pm_code m < 4294967296 \<and> (pm_code m \<in> set cache_codes \<longrightarrow> pm_mask m AND CACHE_MASK = pm_mask m)"
proof -
  have "list_all (\<lambda>m. pm_code m < 4294967296 \<and> (pm_code m \<in> set cache_codes \<longrightarrow> pm_mask m AND CACHE_MASK = pm_mask m))
      (base_set_map @ custom_set_map e g)" for g
    by (simp add: base_set_map_def custom_set_map_def PARAM_def cache_codes_def cfg_index CACHE_MASK_def env_masks)
  moreover have "pm_code m < 4294967296 \<and> pm_code m \<notin> set cache_codes" if "m \<in> set set_coeff_map"
    using coeff_codes [OF that] cached_mirrored by blast
  ultimately show ?thesis using assms by (auto simp: set_tables_def list_all_iff)
qed

lemma cfg_dev_set_mirror: "cfg_dev_set e i v k = (k', ok) \<Longrightarrow> fa_mirror k \<Longrightarrow> fa_mirror k'"
  using cfg_ioctl_mirror [of k "le_filp e" "SET_CFG (0, of_nat i, v)" "le_io e"]
  by (auto simp: cfg_dev_set_def split: prod.splits)

lemma cfg_dev_set_param:
  assumes "cfg_dev_set e j v k = (k', ok)" "j < 4294967296" "i \<noteq> j"
  shows "param k' i = param k i"
proof -
  have u: "unat (of_nat j :: u32) = j" using assms(2) by (simp add: unat_of_nat)
  show ?thesis
  proof (cases ok)
    case True
    then show ?thesis using cfg_set_only [OF cfg_dev_set_ok] assms(1,3) by (simp add: u)
  next
    case False
    then show ?thesis using cfg_dev_set_fails [of e j v k k'] assms(1) by simp
  qed
qed

lemma set_env_fresh:
  assumes "custom_setenvparam e flags p s = Ret (p', s', rc)" "cache_fresh s"
  shows "cache_fresh s'"
proof (cases "flags AND CACHE_MASK = 0")
  case False
  then show ?thesis using custom_set_dirty [OF assms(1)] by (simp add: cache_fresh_def)
next
  case True
  show ?thesis using assms
  proof (rule custom_set_keeps)
    fix m v k ok and s :: libst
    assume m: "m \<in> set_tables e" "flags AND pm_mask m \<noteq> 0" and st: "cfg_dev_set e (pm_code m) v (krn s) = (k, ok)" "cache_fresh s"
    have "pm_code m \<notin> set cache_codes"
    proof
      assume "pm_code m \<in> set cache_codes"
      then have "flags AND pm_mask m = (flags AND CACHE_MASK) AND pm_mask m"
        using set_table_codes [OF m(1)] by (metis and.assoc and.commute)
      then show False using m(2) True by simp
    qed
    then have "\<forall>i \<in> set cache_codes. param k i = param (krn s) i"
      using cfg_dev_set_param [OF st(1)] set_table_codes [OF m(1)] by metis
    from cache_agrees_params [OF this] st(2) show "cache_fresh (s\<lparr>krn := k\<rparr>)" by (simp add: cache_fresh_def)
  qed (simp_all add: cache_fresh_def)
qed

lemma fresh_mutex: "cache_fresh (s\<lparr>e_mutex := b\<rparr>) = cache_fresh s"
  by (simp add: cache_fresh_def)

lemma set_env_cases:
  assumes "cspi_setenvparam e h p flags s = Ret (p', s', rc)"
  shows "s' = s \<or> (\<exists>q q' t. custom_setenvparam e flags q (s\<lparr>e_mutex := True\<rparr>) = Ret (q', t, rc) \<and> s' = t\<lparr>e_mutex := False\<rparr>)"
  using assms unfolding cspi_setenvparam_def call_bind_Ret_iff by (cases p) (auto simp: call_bind_Ret_iff split: if_splits)

lemma refresh_clean: "\<not> is_cache_dirty s \<Longrightarrow> custom_initop e junk s = Ret (s, CSPI_OK)"
  by (simp add: custom_initop_def)

lemma refresh_cases:
  assumes "custom_initop e junk s = Ret (s', CSPI_OK)"
  shows "s' = s \<and> \<not> is_cache_dirty s \<or> cache_agrees (cache s') (krn s') \<and> krn s' = krn s"
proof (cases "is_cache_dirty s")
  case True
  then show ?thesis using refresh_agrees [OF assms] by blast
next
  case False
  then show ?thesis using refresh_clean [OF False, of e junk] assms by simp
qed

lemma get_env_state:
  assumes "cspi_getenvparam e h p flags s = Ret (p', s', rc)"
  shows "krn s' = krn s \<and> cache s' = cache s \<and> is_cache_dirty s' = is_cache_dirty s"
proof (cases "h \<and> p \<noteq> None \<and> \<not> e_mutex s")
  case True
  then obtain q where q: "p = Some q" by auto
  obtain q' t r where g: "custom_getenvparam e flags q (s\<lparr>e_mutex := True\<rparr>) = (q', t, r)"
    by (cases "custom_getenvparam e flags q (s\<lparr>e_mutex := True\<rparr>)") auto
  have "s' = t\<lparr>e_mutex := False\<rparr>" using assms True by (simp add: cspi_getenvparam_def q g)
  then show ?thesis using get_chain_state [OF g] by simp
next
  case False
  then show ?thesis using assms by (cases h; cases p; cases "e_mutex s") (simp_all add: cspi_getenvparam_def)
qed

lemma lib_step_fresh:
  assumes "lib_step s s'" "cache_fresh s"
  shows "cache_fresh s'"
  using assms(1)
proof cases
  case (refresh e junk)
  from refresh_cases [OF this] assms(2) show ?thesis by (auto simp: cache_fresh_def)
next
  case (set_env e h p flags p' rc)
  from set_env_cases [OF this] show ?thesis
  proof (elim disjE exE conjE)
    fix q q' t
    assume "custom_setenvparam e flags q (s\<lparr>e_mutex := True\<rparr>) = Ret (q', t, rc)" "s' = t\<lparr>e_mutex := False\<rparr>"
    then show ?thesis using set_env_fresh [of e flags q "s\<lparr>e_mutex := True\<rparr>"] assms(2) by (simp add: fresh_mutex)
  qed (use assms(2) in simp)
next
  case (get_env e h p flags p' rc)
  from get_env_state [OF this] assms(2) show ?thesis by (simp add: cache_fresh_def)
next
  case (other_set env i v k' r)
  show ?thesis
  proof (cases "unat i \<in> set hook_params")
    case True
    then show ?thesis using other_set by (simp add: cache_fresh_def signal_handler_hook_def)
  next
    case False
    then have "unat i \<notin> set cache_codes" using other_set(3)
      by (auto simp: unreported_def hook_params_def cache_codes_def)
    then have "\<forall>j \<in> set cache_codes. param k' j = param (krn s) j" using cfg_set_only [OF other_set(2)] by metis
    from cache_agrees_params [OF this] assms(2) have "cache_fresh (s\<lparr>krn := k'\<rparr>)" by (simp add: cache_fresh_def)
    then show ?thesis unfolding other_set(1) by (rule fresh_hook)
  qed
next
  case (other_event ev)
  then show ?thesis using fresh_hook assms(2) by simp
qed

lemma lib_step_mirror:
  assumes "lib_step s s'" "fa_mirror (krn s)"
  shows "fa_mirror (krn s')"
  using assms(1)
proof cases
  case (refresh e junk)
  from refresh_cases [OF this] assms(2) show ?thesis by auto
next
  case (set_env e h p flags p' rc)
  have "fa_mirror (krn t')" if c: "custom_setenvparam e flags q (s\<lparr>e_mutex := True\<rparr>) = Ret (q', t', rc)" for q q' t' rc
    using c by (rule custom_set_keeps [where Q = "\<lambda>t. fa_mirror (krn t)"]) (use assms(2) cfg_dev_set_mirror in auto)
  with set_env_cases [OF set_env] assms(2) show ?thesis by auto
next
  case (get_env e h p flags p' rc)
  from get_env_state [OF this] assms(2) show ?thesis by simp
next
  case (other_set env i v k' r)
  then show ?thesis using cfg_set_mirror [OF assms(2) other_set(2)] by (simp add: signal_handler_hook_def)
next
  case (other_event ev)
  then show ?thesis using assms(2) by (simp add: signal_handler_hook_def)
qed


definition ready_env :: lib_env where
  "ready_env = sample_env\<lparr>le_dsc := \<lambda>_ _. Reply 0 0, le_pll_open := True, le_pll_lock := True,
     le_pll_command := CommandSent, le_pll_reply := True\<rparr>"

lemma get_pass_works:
  "\<forall>m \<in> set ms. flags AND pm_mask m \<noteq> 0 \<longrightarrow> pm_validate m = None \<and> pm_code m \<in> set cfg_mirrored
     \<Longrightarrow> io_access (le_io e) \<Longrightarrow> \<exists>q. handle_params (get_param e) flags ms p s = (q, s, CSPI_OK)"
  by (induction ms arbitrary: p) (auto simp: get_param_def cfg_dev_get_mirrored validated_def)

text \<open>Reading the cached parameters comes to the DSC server and the PLL daemon.\<close>

lemma cache_get_passes:
  assumes "io_access (le_io e)"
  shows "\<exists>q. custom_getenvparam e CACHE_MASK junk s
     = and_then (ebpp_getdscparam e CACHE_MASK q s) (\<lambda>p s. ebpp_get_pllparam e CACHE_MASK p s)"
proof -
  have b: "base_getenvparam e CACHE_MASK junk s = (junk, s, CSPI_OK)"
    by (simp add: base_getenvparam_def base_get_map_def PARAM_def CACHE_MASK_def env_masks and_then_def
        cspi_gethealthparam_def cspi_getfeatureparam_def)
  have "list_all (\<lambda>m. CACHE_MASK AND pm_mask m \<noteq> 0 \<longrightarrow> pm_validate m = None \<and> pm_code m \<in> set cfg_mirrored) custom_get_map"
    by (simp add: custom_get_map_def PARAM_def CACHE_MASK_def env_masks cfg_index cfg_mirrored_def)
  then obtain q where g: "handle_params (get_param e) CACHE_MASK custom_get_map junk s = (q, s, CSPI_OK)"
    using get_pass_works [of custom_get_map CACHE_MASK e junk s] assms by (auto simp: list_all_iff)
  have "CACHE_MASK \<noteq> 0" by (simp add: CACHE_MASK_def env_masks)
  then have "custom_getenvparam e CACHE_MASK junk s
     = and_then (ebpp_getdscparam e CACHE_MASK q s) (\<lambda>p s. ebpp_get_pllparam e CACHE_MASK p s)"
    using b g by (simp add: custom_getenvparam_def and_then_def)
  then show ?thesis by blast
qed

lemma ready_refresh:
  assumes "is_cache_dirty s" "\<not> e_mutex s" "\<not> cache_mutex s"
  shows "\<exists>s'. custom_initop ready_env junk s = Ret (s', CSPI_OK)"
proof -
  let ?s = "s\<lparr>is_cache_dirty := False, e_mutex := True\<rparr>"
  have "io_access (le_io ready_env)" by (simp add: ready_env_def sample_env_def)
  then obtain q where q: "custom_getenvparam ready_env CACHE_MASK junk ?s
     = and_then (ebpp_getdscparam ready_env CACHE_MASK q ?s) (\<lambda>p s. ebpp_get_pllparam ready_env CACHE_MASK p s)"
    using cache_get_passes by blast
  obtain q' where d: "ebpp_getdscparam ready_env CACHE_MASK q ?s = (q', ?s, CSPI_OK)"
    by (simp add: ebpp_getdscparam_def dsc_get_map_def ebpp_dsc_message_def ready_env_def CACHE_MASK_def env_masks
        CSPI_OK_def)
  have "\<exists>t. ebpp_get_pllparam ready_env CACHE_MASK q' ?s = (q', t, CSPI_OK)"
    by (simp add: ebpp_get_pllparam_def ebpp_pll_setcmd_def ready_env_def CACHE_MASK_def env_masks)
  then obtain t where l: "ebpp_get_pllparam ready_env CACHE_MASK q' ?s = (q', t, CSPI_OK)" ..
  have c: "custom_getenvparam ready_env CACHE_MASK junk ?s = (q', t, CSPI_OK)"
    using q d l by (simp add: and_then_def)
  have "\<not> cache_mutex t" using get_chain_state [OF c] assms(3) by simp
  moreover have "cfg_dev_get ready_env i k = Some (param k i)"
    if "i \<in> {LIBERA_CFG_BCD_XOFFSET, LIBERA_CFG_BCD_YOFFSET}" for i k
    by (subst cfg_dev_get_mirrored) (use that in \<open>auto simp: cfg_mirrored_def ready_env_def sample_env_def\<close>)
  ultimately have "\<exists>s'. ebpp_update_cache ready_env junk ?s = Ret (s', CSPI_OK)"
    by (simp add: ebpp_update_cache_def c Let_def)
  then obtain s' where "ebpp_update_cache ready_env junk ?s = Ret (s', CSPI_OK)" ..
  then have "custom_initop ready_env junk s = Ret (s'\<lparr>e_mutex := False\<rparr>, CSPI_OK)"
    using assms(1,2) by (simp add: custom_initop_def)
  then show ?thesis by blast
qed




text \<open>C0. A refresh that fails is forgotten: the mark of the stale cache is cleared before the parameters are
  read, so the operation reports the error but the next one, whatever it finds, succeeds with the old
  contents of the cache.\<close>

theorem failed_refresh_forgotten:
  assumes "custom_initop e junk s = Ret (s', rc)" "rc \<noteq> CSPI_OK" "io_access (le_io e)"
  shows "cache s' = cache s \<and> custom_initop e' junk' s' = Ret (s', CSPI_OK)"
proof -
  let ?s = "s\<lparr>is_cache_dirty := False, e_mutex := True\<rparr>"
  obtain t where u: "ebpp_update_cache e junk ?s = Ret (t, rc)" "s' = t\<lparr>e_mutex := False\<rparr>"
    using assms(1,2) by (auto simp: custom_initop_def call_bind_Ret_iff split: if_splits)
  obtain p w rc1 where g: "custom_getenvparam e CACHE_MASK junk ?s = (p, w, rc1)"
    by (cases "custom_getenvparam e CACHE_MASK junk ?s") auto
  have "cfg_dev_get e i k = Some (param k i)" if "i \<in> {LIBERA_CFG_BCD_XOFFSET, LIBERA_CFG_BCD_YOFFSET}" for i k
    by (subst cfg_dev_get_mirrored) (use that assms(3) in \<open>auto simp: cfg_mirrored_def\<close>)
  then have "t = w" using u(1) assms(2) by (auto simp: ebpp_update_cache_def g Let_def split: if_splits)
  then show ?thesis using get_chain_state [OF g] u(2) refresh_clean [of s'] by simp
qed

theorem failed_refresh_forgotten_witness:
  "\<exists>s' rc. custom_initop sample_env (\<lambda>_. 0) sample_state = Ret (s', rc) \<and> rc \<noteq> CSPI_OK
     \<and> custom_initop sample_env (\<lambda>_. 0) s' = Ret (s', CSPI_OK)"
proof -
  let ?s = "sample_state\<lparr>is_cache_dirty := False, e_mutex := True\<rparr>"
  have io: "io_access (le_io sample_env)" by (simp add: sample_env_def)
  then obtain q where "custom_getenvparam sample_env CACHE_MASK (\<lambda>_. 0) ?s
     = and_then (ebpp_getdscparam sample_env CACHE_MASK q ?s) (\<lambda>p s. ebpp_get_pllparam sample_env CACHE_MASK p s)"
    using cache_get_passes by blast
  moreover have "\<exists>q'. ebpp_getdscparam sample_env CACHE_MASK q ?s = (q', ?s, CSPI_E_SYSTEM)"
    by (simp add: ebpp_getdscparam_def dsc_get_map_def ebpp_dsc_message_def sample_env_def CACHE_MASK_def env_masks
        CSPI_OK_def CSPI_E_SYSTEM_def)
  ultimately obtain q' where "custom_getenvparam sample_env CACHE_MASK (\<lambda>_. 0) ?s = (q', ?s, CSPI_E_SYSTEM)"
    by (auto simp: and_then_def CSPI_OK_def CSPI_E_SYSTEM_def)
  then have "ebpp_update_cache sample_env (\<lambda>_. 0) ?s = Ret (?s, CSPI_E_SYSTEM)"
    by (simp add: ebpp_update_cache_def CSPI_OK_def CSPI_E_SYSTEM_def)
  then have f: "custom_initop sample_env (\<lambda>_. 0) sample_state = Ret (?s\<lparr>e_mutex := False\<rparr>, CSPI_E_SYSTEM)"
    by (simp add: custom_initop_def sample_state_def)
  have "CSPI_E_SYSTEM \<noteq> CSPI_OK" by (simp add: CSPI_OK_def CSPI_E_SYSTEM_def)
  with failed_refresh_forgotten [OF f this io] f show ?thesis by blast
qed

end
