(* ===== verification/Cspi_Con_Props.thy ===== *)
theory Cspi_Con_Props
  imports Cspi_Con Cspi_Cache_Props Cspi_Dd_Props Eventd_Props
begin

text \<open>
  The connections of the library: the list in memory is that of the connections in use over every run of
  calls, what reading delivers from the driver's post-mortem buffer and of a failed refresh of the cache,
  how events reach the handlers, and calls that leave the library unusable or do what they should not.
\<close>

section \<open>Results of a call\<close>

text \<open>If the call returns, its result satisfies \<open>Q\<close>.\<close>

definition rets :: "('a \<Rightarrow> bool) \<Rightarrow> 'a call \<Rightarrow> bool" where
  "rets Q c \<longleftrightarrow> (\<forall>x. c = Ret x \<longrightarrow> Q x)"

lemma rets_simps [simp]: "rets Q (Ret x) = Q x" "rets Q Hang" "rets Q Fault"
  by (simp_all add: rets_def)

lemma rets_bind: "rets Q (call_bind c f) = rets (\<lambda>x. rets Q (f x)) c"
  by (cases c) simp_all

lemma rets_mono: "rets P c \<Longrightarrow> (\<And>x. P x \<Longrightarrow> Q x) \<Longrightarrow> rets Q c"
  by (simp add: rets_def)

lemma rets_any: "(\<And>x. Q x) \<Longrightarrow> rets Q c"
  by (simp add: rets_def)

lemma rets_bindI: "rets P c \<Longrightarrow> (\<And>x. P x \<Longrightarrow> rets Q (f x)) \<Longrightarrow> rets Q (call_bind c f)"
  by (cases c) simp_all

text \<open>The structure of a call is walked through by these rules.\<close>

lemma rets_if: "(b \<Longrightarrow> rets Q x) \<Longrightarrow> (\<not> b \<Longrightarrow> rets Q y) \<Longrightarrow> rets Q (if b then x else y)"
  by simp

lemma rets_option: "rets Q x \<Longrightarrow> (\<And>v. rets Q (f v)) \<Longrightarrow> rets Q (case z of None \<Rightarrow> x | Some v \<Rightarrow> f v)"
  by (cases z) simp_all

lemma rets_sum: "(\<And>e. rets Q (f e)) \<Longrightarrow> (\<And>v. rets Q (g v)) \<Longrightarrow> rets Q (case z of Inl e \<Rightarrow> f e | Inr v \<Rightarrow> g v)"
  by (cases z) simp_all

lemma rets_prod: "(\<And>a b. rets Q (f a b)) \<Longrightarrow> rets Q (case z of (a, b) \<Rightarrow> f a b)"
  by (cases z) simp

lemma rets_bool: "rets Q x \<Longrightarrow> rets Q y \<Longrightarrow> rets Q (case b of True \<Rightarrow> x | False \<Rightarrow> y)"
  by (cases b) simp_all

lemma rets_bind_any: "(\<And>x. rets Q (f x)) \<Longrightarrow> rets Q (call_bind c f)"
  by (cases c) simp_all

lemmas rets_walk = rets_if rets_option rets_sum rets_prod rets_bool rets_bind_any

section \<open>The list of connections\<close>

definition con_ok :: "cspi \<Rightarrow> nat list \<Rightarrow> bool" where
  "con_ok s as \<longleftrightarrow> dl_list (con_head s, con_heap s) as \<and> dom (con_heap s) = set as
     \<and> (\<forall>a \<in> set as. 0 < a \<and> a < 2 ^ 32) \<and> connection_count s = of_nat (length as)
     \<and> (evaction s \<longrightarrow> as \<noteq> [])"

text \<open>What most calls leave alone: the links, the number of connections, the event thread.\<close>

definition links :: "Connection heap \<Rightarrow> nat \<Rightarrow> (nat option \<times> nat option) option" where
  "links h a = map_option (\<lambda>c. (d_prev c, d_next c)) (h a)"

definition con_frame :: "cspi \<Rightarrow> cspi \<Rightarrow> bool" where
  "con_frame s s' \<longleftrightarrow> con_head s' = con_head s \<and> links (con_heap s') = links (con_heap s)
     \<and> connection_count s' = connection_count s \<and> (evaction s' \<longrightarrow> evaction s \<or> con_heap s \<noteq> Map.empty)"

lemma con_frame_refl [simp]: "con_frame s s"
  by (simp add: con_frame_def)

lemma links_None: "links h a = None \<longleftrightarrow> h a = None"
  by (simp add: links_def)

lemma links_dom: "links h' = links h \<Longrightarrow> dom h' = dom h"
proof -
  assume "links h' = links h"
  then have "h' a = None \<longleftrightarrow> h a = None" for a using links_None [of h' a] links_None [of h a] by simp
  then show ?thesis by (auto simp: dom_def)
qed

lemma links_empty: "links h' = links h \<Longrightarrow> h' = Map.empty \<longleftrightarrow> h = Map.empty"
  using links_dom [of h' h] by (simp flip: dom_eq_empty_conv)

lemma con_frame_trans: "con_frame s t \<Longrightarrow> con_frame t u \<Longrightarrow> con_frame s u"
  using links_empty [of "con_heap t" "con_heap s"] by (auto simp: con_frame_def)

lemma dl_seg_links: "links h' = links h \<Longrightarrow> dl_seg h' pr p as nx = dl_seg h pr p as nx"
proof (induction as arbitrary: pr p)
  case (Cons a as)
  have "links h' a = links h a" using Cons.prems by simp
  then show ?case using Cons.IH [OF Cons.prems] by (cases "h a"; cases "h' a") (auto simp: links_def)
qed simp

lemma con_ok_frame:
  assumes "con_frame s s'" "con_ok s as"
  shows "con_ok s' as"
proof -
  have l: "links (con_heap s') = links (con_heap s)" using assms(1) by (simp add: con_frame_def)
  then have "dom (con_heap s') = dom (con_heap s)" by (rule links_dom)
  moreover have "con_heap s \<noteq> Map.empty \<longrightarrow> as \<noteq> []" using assms(2) by (auto simp: con_ok_def)
  ultimately show ?thesis using assms dl_seg_links [OF l] by (auto simp: con_ok_def con_frame_def dl_list_def)
qed

lemma frame_simps [simp]:
  "con_frame s (s\<lparr>krn := k\<rparr>)" "con_frame s (s\<lparr>e_mutex := b\<rparr>)" "con_frame s (s\<lparr>is_cache_dirty := b\<rparr>)"
  "con_frame s (s\<lparr>last_id := n\<rparr>)" "con_frame s (s\<lparr>buffers := m\<rparr>)" "con_frame s (s\<lparr>usage_count := u\<rparr>)"
  "con_frame s (s\<lparr>g_decimation := u\<rparr>)"
  "con_frame s (env_unlock s)" "con_frame s (s\<lparr>lib_version := v\<rparr>)" "con_frame s (s\<lparr>superuser := v\<rparr>)"
  by (simp_all add: con_frame_def env_unlock_def)

lemma frame_lock: "rets (con_frame s) (env_lock s)"
  by (simp add: env_lock_def)

lemma frame_upd:
  assumes "\<And>c. d_prev (f c) = d_prev c \<and> d_next (f c) = d_next c"
  shows "rets (con_frame s) (upd_con f a s)"
proof (cases "con_heap s a")
  case (Some c)
  then have "links ((con_heap s)(a \<mapsto> f c)) = links (con_heap s)" using assms by (auto simp: links_def)
  then show ?thesis using Some by (simp add: upd_con_def heap_upd_def con_frame_def)
qed (simp add: upd_con_def heap_upd_def)

text \<open>The parts of the library below: parameters and the cache only extend over the environment.\<close>

lemma frame_register: "rets (\<lambda>(s', rc). con_frame s s') (do_event_handler_registration sy pid uid m s)"
  by (simp add: do_event_handler_registration_def con_frame_def split: daemon_pipe.split)

lemma frame_thread:
  assumes "con_heap s \<noteq> Map.empty"
  shows "rets (\<lambda>(s', rc). con_frame s s') (create_event_thread sy c s)"
  unfolding create_event_thread_def Let_def register_event_handler_def
  using assms frame_register [of s] 
  by (auto intro!: rets_if rets_mono [OF frame_register] simp: con_frame_def split: prod.splits)

text \<open>What the parameters and the cache do to the environment.\<close>

lemma frame_more: "libst.more s' = libst.more s \<Longrightarrow> con_frame s s'"
  by (cases s; cases s') (simp add: con_frame_def)

lemma get_more:
  assumes "custom_getenvparam e flags p s = (p', s', rc)"
  shows "libst.more s' = libst.more s"
proof -
  obtain p0 s0 r0 where b: "base_getenvparam e flags p s = (p0, s0, r0)" by (cases "base_getenvparam e flags p s") auto
  obtain p1 s1 r1 where h: "handle_params (get_param e) flags custom_get_map p0 s0 = (p1, s1, r1)"
    by (cases "handle_params (get_param e) flags custom_get_map p0 s0") auto
  have "s0 = s" "s1 = s0" by (rule base_get_state [OF b], rule get_state [OF h])
  with assms b h show ?thesis
    by (auto simp: custom_getenvparam_def and_then_def ebpp_getdscparam_def ebpp_get_pllparam_def ebpp_pll_setcmd_def
        split: if_splits prod.splits pll_command.splits)
qed

lemma update_cache_more: "rets (\<lambda>(s', rc). libst.more s' = libst.more s) (ebpp_update_cache e junk s)"
proof -
  obtain p t rc where g: "custom_getenvparam e CACHE_MASK junk s = (p, t, rc)"
    by (cases "custom_getenvparam e CACHE_MASK junk s") auto
  then show ?thesis using get_more [OF g] by (simp add: ebpp_update_cache_def Let_def split: option.split)
qed

lemma initop_more: "rets (\<lambda>(s', rc). libst.more s' = libst.more s) (custom_initop e junk s)"
proof -
  have "rets (\<lambda>(s', rc). libst.more s' = libst.more s) (ebpp_update_cache e junk (s\<lparr>is_cache_dirty := False, e_mutex := True\<rparr>))"
    by (rule rets_mono [OF update_cache_more]) auto
  then show ?thesis by (auto simp: custom_initop_def rets_bind intro: rets_mono)
qed

lemma frame_initop: "rets (\<lambda>(s', rc). con_frame s s') (initop e junk s)"
  unfolding initop_def by (rule rets_mono [OF initop_more]) (auto intro: frame_more)

lemma frame_getenv: "rets (\<lambda>(p', s', rc). con_frame s s') (cspi_getenvparam e h p flags s)"
proof -
  have "con_frame s (t\<lparr>e_mutex := False\<rparr>)" if "custom_getenvparam e flags q (s\<lparr>e_mutex := True\<rparr>) = (q', t, rc)" for q q' t rc
    by (rule frame_more) (use get_more [OF that] in simp)
  then show ?thesis by (auto simp: cspi_getenvparam_def split: option.split prod.split)
qed

lemma frame_setenv: "rets (\<lambda>(p', s', rc). con_frame s s') (cspi_setenvparam e h p flags s)"
proof -
  have "libst.more t = libst.more s"
    if "custom_setenvparam e flags q (s\<lparr>e_mutex := True\<rparr>) = Ret (q', t, rc)" for q q' t rc
    using that by (rule custom_set_keeps [where Q = "\<lambda>t. libst.more t = libst.more s"]) simp_all
  then have "rets (\<lambda>r. con_frame s ((fst (snd r))\<lparr>e_mutex := False\<rparr>)) (custom_setenvparam e flags q (s\<lparr>e_mutex := True\<rparr>))" for q
    unfolding rets_def by (auto intro: frame_more)
  then show ?thesis by (auto simp: cspi_setenvparam_def rets_bind case_prod_beta split: option.split)
qed

section \<open>Every call keeps the list\<close>

lemma frame_alloc_env: "rets (\<lambda>(s', rc). con_frame s s') (alloc_env e sy s)"
proof -
  have b: "rets (\<lambda>(s', rc). con_frame s s') (base_initenv e sy s)" for s
  proof (cases "usage_count s = 1")
    case True
    then show ?thesis unfolding base_initenv_def Let_def
      by (simp only: True simp_thms if_True rets_bind) (rule rets_any, auto simp: con_frame_def split: sum.split)
  qed (simp add: base_initenv_def)
  have "rets (\<lambda>(s', rc). con_frame s s') (custom_initenv e sy s)" for s
    unfolding custom_initenv_def rets_bind
    by (rule rets_mono [OF b]) (auto simp: Let_def con_frame_def split: option.split)
  note c = this [of "s\<lparr>e_mutex := True, usage_count := usage_count s + 1\<rparr>"]
  show ?thesis
  proof (cases "e_mutex s")
    case False
    have "rets (\<lambda>x. con_frame s (env_unlock (fst x))) (custom_initenv e sy (s\<lparr>e_mutex := True, usage_count := usage_count s + 1\<rparr>))"
      by (rule rets_mono [OF c]) (auto simp: con_frame_def env_unlock_def)
    then show ?thesis using False by (simp add: alloc_env_def env_lock_def rets_bind case_prod_beta)
  qed (simp add: alloc_env_def env_lock_def)
qed

lemma frame_free_env: "rets (con_frame s) (free_env s)"
  by (simp add: free_env_def env_lock_def env_unlock_def con_frame_def)

lemma frame_destroy_env: "rets (\<lambda>(s', rc). con_frame s s') (destroy_env s)"
  by (simp add: destroy_env_def env_lock_def env_unlock_def con_frame_def Let_def)

text \<open>Rules for the steps of a call.\<close>

lemma frame_on_con:
  "(\<And>a c. con_heap s a = Some c \<Longrightarrow> rets (\<lambda>(s', x, rc). con_frame s s') (f a c))
     \<Longrightarrow> rets (\<lambda>(s', x, rc). con_frame s s') (on_con h s x f)"
  by (auto simp: on_con_def heap_get_def split: CSPIHANDLE.split option.split)

lemma frame_upd_then:
  assumes "con_frame s0 s" "\<And>c. d_prev (f c) = d_prev c \<and> d_next (f c) = d_next c"
    "\<And>t. con_frame s0 t \<Longrightarrow> rets Q (g t)"
  shows "rets Q (call_bind (upd_con f a s) g)"
  by (rule rets_bindI [OF frame_upd [OF assms(2)]]) (use assms con_frame_trans in blast)

lemma frame_initop_then:
  assumes "con_frame s0 s" "\<And>t rc. con_frame s0 t \<Longrightarrow> rets Q (g (t, rc))"
  shows "rets Q (call_bind (initop e junk s) g)"
  by (rule rets_bindI [OF frame_initop]) (use assms con_frame_trans in blast)

lemma frame_set:
  "con_frame s0 s \<Longrightarrow> con_frame s0 (s\<lparr>krn := k\<rparr>)" "con_frame s0 s \<Longrightarrow> con_frame s0 (s\<lparr>buffers := n\<rparr>)"
  "con_frame s0 s \<Longrightarrow> con_frame s0 (s\<lparr>e_mutex := b\<rparr>)" "con_frame s0 s \<Longrightarrow> con_frame s0 (env_unlock s)"
  by (erule con_frame_trans, simp)+

lemma frame_lock_then:
  assumes "con_frame s0 s" "\<And>t. con_frame s0 t \<Longrightarrow> rets Q (g t)"
  shows "rets Q (call_bind (env_lock s) g)"
  using assms by (simp add: env_lock_def frame_set)

lemmas frame_then = frame_upd_then frame_initop_then frame_lock_then

lemma frame_free_then:
  assumes "con_frame s0 s" "\<And>t. con_frame s0 t \<Longrightarrow> rets Q (g t)"
  shows "rets Q (call_bind (free_env s) g)"
  by (rule rets_bindI [OF frame_free_env]) (use assms con_frame_trans in blast)

lemma frame_connect: "rets (\<lambda>(s', x, rc). con_frame s s') (cspi_connect sy h s)"
proof -
  note w = frame_then [of s] rets_walk
  show ?thesis unfolding cspi_connect_def Let_def
    by (rule frame_on_con) (simp only: prod.case | rule w | simp add: frame_set)+
qed

lemma frame_disconnect: "rets (\<lambda>(s', x, rc). con_frame s s') (cspi_disconnect sy h s)"
proof -
  note w = frame_then [of s] rets_walk
  show ?thesis unfolding cspi_disconnect_def Let_def
    by (rule frame_on_con) (simp only: prod.case | rule w | simp add: frame_set)+
qed

lemma frame_seek: "rets (\<lambda>(s', x, rc). con_frame s s') (cspi_seek sy h off org s)"
  unfolding cspi_seek_def
  by (rule frame_on_con) (rule rets_walk | simp)+

lemma frame_getdefaultop: "rets (\<lambda>(s', f). con_frame s s') (custom_getdefaultop e fl junk m s)"
proof -
  note w = frame_then [of s] rets_walk
  show ?thesis unfolding custom_getdefaultop_def by (simp only: prod.case | rule w | simp)+
qed

lemma frame_read_dd: "rets (\<lambda>(s', x, rc). con_frame s s') (read_dd e sy junk a dest n op s)"
proof -
  note w = frame_then [of s] rets_walk
  show ?thesis unfolding read_dd_def Let_def by (simp only: prod.case | rule w | simp add: frame_set)+
qed

lemma frame_read_adc: "rets (\<lambda>(s', x, rc). con_frame s s') (read_adc e sy junk a dest n op s)"
proof -
  note w = frame_then [of s] rets_walk
  show ?thesis unfolding read_adc_def Let_def by (simp only: prod.case | rule w | simp add: frame_set)+
qed

text \<open>A call whose result is known to keep the list, before the rest.\<close>

lemma frame_pair_then:
  assumes "rets (\<lambda>(s', x). con_frame t s') c" "con_frame s0 t" "\<And>u x. con_frame s0 u \<Longrightarrow> rets Q (g (u, x))"
  shows "rets Q (call_bind c g)"
  by (rule rets_bindI [OF assms(1)]) (use assms con_frame_trans in blast)

lemma frame_triple_then:
  assumes "rets (\<lambda>(s', x, y). con_frame t s') c" "con_frame s0 t" "\<And>u x y. con_frame s0 u \<Longrightarrow> rets Q (g (u, x, y))"
  shows "rets Q (call_bind c g)"
  by (rule rets_bindI [OF assms(1)]) (use assms con_frame_trans in blast)

lemma frame_getenv_then:
  assumes "con_frame s0 t" "\<And>p u y. con_frame s0 u \<Longrightarrow> rets Q (g (p, u, y))"
  shows "rets Q (call_bind (cspi_getenvparam e h p flags t) g)"
  by (rule rets_bindI [OF frame_getenv]) (use assms con_frame_trans in blast)

lemma frame_read_avg: "rets (\<lambda>(s', x, rc). con_frame s s') (read_avg e sy junk a dest op s)"
proof -
  note w = frame_then [of s] frame_triple_then [OF frame_seek, of s] frame_getenv_then [of s] rets_walk
  show ?thesis unfolding read_avg_def Let_def by (simp only: prod.case | rule w | simp add: frame_set)+
qed

lemma frame_read_ex: "rets (\<lambda>(s', x, rc). con_frame s s') (cspi_read_ex e sy junk h dest n op s)"
  unfolding cspi_read_ex_def
  by (rule frame_on_con) (rule frame_read_adc frame_read_avg frame_read_dd rets_walk | simp)+

lemma frame_read: "rets (\<lambda>(s', x, rc). con_frame s s') (cspi_read e sy fl junk h dest n s)"
proof (cases h)
  case (CON_HANDLE a)
  show ?thesis unfolding cspi_read_def CON_HANDLE CSPIHANDLE.case
    by (rule rets_bind_any, rule frame_pair_then [OF frame_getdefaultop con_frame_refl])
      (auto intro: rets_mono [OF frame_read_ex] con_frame_trans)
qed (simp_all add: cspi_read_def)

lemma frame_get: "rets (\<lambda>(s', x, rc). con_frame s s') (cspi_get sy h atom s)"
  unfolding cspi_get_def Let_def
  by (rule frame_on_con) (rule rets_walk | simp)+

lemma frame_gettimestamp: "rets (\<lambda>(s', x, rc). con_frame s s') (cspi_gettimestamp h ts s)"
  unfolding cspi_gettimestamp_def
  by (rule frame_on_con) (rule rets_walk | simp)+

lemma frame_settime: "rets (\<lambda>(s', rc). con_frame s s') (cspi_settime sy io acq ts flags s)"
  unfolding cspi_settime_def Let_def
  by (rule rets_walk | simp)+

lemma frame_fa_set: "rets (\<lambda>(s', rc). con_frame s s') (cspi_setenvparam_fa sy sig h off pbuf sz n s)"
proof -
  have i: "rets (\<lambda>(s', rc). con_frame t s')
     (case libera_fa_llseek off 0 0 of
        (_, Inl _) \<Rightarrow> Ret (t, CSPI_E_SYSTEM)
      | (pos, Inr _) \<Rightarrow> call_bind (f pos) (\<lambda>(k, b, r). Ret (t\<lparr>krn := k\<rparr>, g r)))" for t f g off
    by (rule rets_walk | simp)+
  note w = frame_then [of s] frame_pair_then [OF i, of s] rets_walk
  show ?thesis unfolding cspi_setenvparam_fa_def Let_def by (simp only: prod.case | rule w | simp add: frame_set)+
qed

lemma frame_fa_get: "rets (\<lambda>(s', x, rc). con_frame s s') (cspi_getenvparam_fa sy sig readl h off pbuf sz n s)"
proof -
  have i: "rets (\<lambda>(s', x). con_frame t s')
     (case libera_fa_llseek off 0 0 of
        (_, Inl _) \<Rightarrow> Ret (t, pbuf, CSPI_E_SYSTEM)
      | (pos, Inr _) \<Rightarrow> call_bind (f pos) (\<lambda>(k, b, r, bs). Ret (t\<lparr>krn := k\<rparr>, g r bs)))" for t f g off
    by (rule rets_walk | simp)+
  note w = frame_then [of s] frame_pair_then [OF i, of s] rets_walk
  show ?thesis unfolding cspi_getenvparam_fa_def Let_def by (simp only: prod.case | rule w | simp add: frame_set)+
qed

text \<open>A handler may start the event thread, so there has to be a connection; it is the one the call is on.\<close>

definition con_kept :: "cspi \<Rightarrow> cspi \<Rightarrow> bool" where
  "con_kept s s' \<longleftrightarrow> con_heap s \<noteq> Map.empty \<longrightarrow> con_frame s s'"

lemma kept_trans: "con_kept s0 s \<Longrightarrow> con_frame s t \<Longrightarrow> con_kept s0 t"
  unfolding con_kept_def using con_frame_trans by blast

lemma kept_set: "con_kept s0 s \<Longrightarrow> con_kept s0 (s\<lparr>krn := k\<rparr>)" "con_kept s0 s \<Longrightarrow> con_kept s0 (env_unlock s)"
  by (erule kept_trans, simp)+

lemma kept_upd_then:
  assumes "con_kept s0 s" "\<And>c. d_prev (f c) = d_prev c \<and> d_next (f c) = d_next c" "\<And>t. con_kept s0 t \<Longrightarrow> rets Q (g t)"
  shows "rets Q (call_bind (upd_con f a s) g)"
  by (rule rets_bindI [OF frame_upd [OF assms(2)]]) (rule assms(3) [OF kept_trans [OF assms(1)]])

lemma kept_if_then:
  assumes "con_kept s0 s" "\<And>c. d_prev (f c) = d_prev c \<and> d_next (f c) = d_next c" "\<And>t. con_kept s0 t \<Longrightarrow> rets Q (g t)"
  shows "rets Q (call_bind (if b then upd_con f a s else Ret s) g)"
  by (cases b) (simp_all add: kept_upd_then [OF assms] assms(1,3))

lemma kept_lock_then:
  "con_kept s0 s \<Longrightarrow> (\<And>t. con_kept s0 t \<Longrightarrow> rets Q (g t)) \<Longrightarrow> rets Q (call_bind (env_lock s) g)"
  by (rule rets_bindI [OF frame_lock]) (blast intro: kept_trans)

lemma kept_thread_then:
  assumes "con_kept s0 s" "\<And>t rc. con_kept s0 t \<Longrightarrow> rets Q (g (t, rc))"
  shows "rets Q (call_bind (create_event_thread sy c s) g)"
proof (cases "con_heap s0 = Map.empty")
  case True
  then have "con_kept s0 t" for t by (simp add: con_kept_def)
  then show ?thesis using assms(2) by (intro rets_bind_any) (simp add: split_paired_all)
next
  case False
  then have f: "con_frame s0 s" using assms(1) by (simp add: con_kept_def)
  then have ne: "con_heap s \<noteq> Map.empty" using False links_empty [of "con_heap s" "con_heap s0"] by (simp add: con_frame_def)
  show ?thesis
    by (rule rets_bindI [OF frame_thread [OF ne]]) (use assms kept_trans in \<open>simp add: split_paired_all\<close>)
qed

lemma kept_pair_then:
  assumes "rets (\<lambda>(s', x). con_kept s0 s') c" "\<And>u x. con_kept s0 u \<Longrightarrow> rets Q (g (u, x))"
  shows "rets Q (call_bind c g)"
  by (rule rets_bindI [OF assms(1)]) (use assms(2) in blast)

lemma frame_base_setconparam: "rets (\<lambda>(s', rc). con_kept s s') (base_setconparam sy a p flags s)"
proof -
  note v = kept_upd_then [of s] kept_lock_then [of s] kept_thread_then [of s] rets_if rets_bind_any
  have i: "rets (\<lambda>(s', rc). con_kept s s')
          (if b then
             call_bind (upd_con (\<lambda>c. c\<lparr>c_pid := n, c_handler := f\<rparr>) a t) (\<lambda>s.
             call_bind (env_lock s) (\<lambda>s.
             call_bind (heap_get a (con_heap s)) (\<lambda>c.
             call_bind (create_event_thread sy c s) (\<lambda>(s, rc). Ret (env_unlock s, rc)))))
           else Ret (t, CSPI_OK))"
    if "con_kept s t" for b t n f
    by (simp only: prod.case | rule v that | simp add: kept_set that)+
  note w = kept_if_then [of s] kept_pair_then [OF i] rets_if
  have "con_kept s s" by (simp add: con_kept_def)
  note w = w this
  show ?thesis unfolding base_setconparam_def
    by (simp only: prod.case | rule w | simp)+
qed

lemma frame_custom_setconparam: "rets (\<lambda>(s', rc). con_kept s s') (custom_setconparam sy a p flags s)"
proof -
  have i: "rets (\<lambda>(s', rc). con_kept s s')
     (if b then
        (case z of
           None \<Rightarrow> Ret (t, CSPI_E_SEQUENCE)
         | Some fd \<Rightarrow>
             if m then Ret (t, CSPI_E_ILLEGAL_CALL)
             else if v then Ret (t, CSPI_E_INVALID_PARAM)
             else call_bind (f fd) (\<lambda>(k, ok). Ret (t\<lparr>krn := k\<rparr>, g ok)))
      else Ret (t, CSPI_OK))" if "con_kept s t" for b z m v f g t
    by (rule rets_walk | simp add: kept_set that)+
  note w = kept_pair_then [OF frame_base_setconparam] kept_pair_then [OF i] rets_walk
  show ?thesis unfolding custom_setconparam_def Let_def
    by (simp only: prod.case | rule w | simp add: kept_set)+
qed

lemma frame_setconparam: "rets (\<lambda>(s', x, rc). con_frame s s') (cspi_setconparam sy h p flags s)"
  unfolding cspi_setconparam_def
proof (rule frame_on_con, rule rets_option)
  fix a c q
  assume "con_heap s a = Some c"
  then have "con_heap s \<noteq> Map.empty" by auto
  then show "rets (\<lambda>(s', x, rc). con_frame s s') (call_bind (custom_setconparam sy a q flags s) (\<lambda>(s, rc). Ret (s, p, rc)))"
    using frame_custom_setconparam by (intro kept_pair_then) (auto simp: con_kept_def)
qed simp

lemma frame_getconparam: "rets (\<lambda>(s', x, rc). con_frame s s') (cspi_getconparam sy h p flags s)"
  unfolding cspi_getconparam_def
proof (rule frame_on_con, rule rets_option)
  fix a c q
  assume "con_heap s a = Some c"
  then have "con_heap s \<noteq> Map.empty" by auto
  then show "rets (\<lambda>(s', x, rc). con_frame s s')
     (if c_fd c = None then Ret (s, p, CSPI_E_SEQUENCE)
      else call_bind (custom_setconparam sy a q flags s) (\<lambda>(s, rc). Ret (s, p, rc)))"
    using frame_custom_setconparam by (intro rets_if kept_pair_then) (auto simp: con_kept_def)
qed simp

lemma frame_setlibparam: "rets (\<lambda>(s', rc). con_frame s s') (cspi_setlibparam p flags s)"
  by (auto simp: cspi_setlibparam_def env_lock_def set_libparam_def Let_def con_frame_def env_unlock_def
      split: option.split)

lemma frame_getlibparam: "rets (\<lambda>(s', x, rc). con_frame s s') (cspi_getlibparam p flags s)"
  by (auto simp: cspi_getlibparam_def env_lock_def con_frame_def env_unlock_def split: option.split)

lemma frame_thread_event: "rets (\<lambda>(s', calls). con_frame s s') (thread_event cont ev s)"
proof -
  have "con_frame s (signal_handler_hook ev s)" by (simp add: signal_handler_hook_def)
  then show ?thesis unfolding thread_event_def Let_def by (intro rets_bind_any) simp
qed

section \<open>Calls that change the list\<close>

lemma same_payload_dom: "same_payload h h' \<Longrightarrow> dom h' = dom h"
  unfolding same_payload_def dom_def by (metis map_option_is_None)

text \<open>The number of connections fits the counter, as each has its own address.\<close>

lemma con_ok_length:
  assumes "con_ok s as"
  shows "length as < 2 ^ 32"
proof -
  have "set as \<subseteq> {0 <..< 2 ^ 32}" using assms by (auto simp: con_ok_def)
  then have "card (set as) \<le> card {0 <..< 2 ^ 32 :: nat}" by (intro card_mono) auto
  moreover have "length as = card (set as)" using assms by (simp add: con_ok_def dl_list_def distinct_card)
  ultimately show ?thesis by simp
qed

lemma of_nat_u32_0: "n < 2 ^ 32 \<Longrightarrow> (of_nat n :: u32) = 0 \<longleftrightarrow> n = 0"
  using unat_of_nat [of n, where 'a = 32] unat_eq_zero [of "of_nat n :: u32"] by simp

lemma con_ok_insert:
  assumes ok: "con_ok s as" and fresh: "con_heap s a = None" "0 < a" "a < 2 ^ 32"
    and c: "d_prev c = None" "d_next c = None"
  shows "rets (\<lambda>t. con_ok t (a # as)) (insert_con a (s\<lparr>last_id := i, con_heap := (con_heap s)(a \<mapsto> c)\<rparr>))"
proof (cases "e_mutex s")
  case False
  let ?h = "(con_heap s)(a \<mapsto> c)"
  have "dom (con_heap s) = set as" using ok by (simp add: con_ok_def)
  then have new: "a \<notin> set as" using fresh(1) by auto
  then have "dl_list (con_head s, ?h) as" using ok by (simp add: con_ok_def dl_list_frame)
  then obtain h' where h': "dl_insert a (con_head s, ?h) = Ret (Some a, h')" "dl_list (Some a, h') (a # as)" "same_payload ?h h'"
    using dl_insert_list [of "con_head s" ?h as a c] c new by auto
  have "dom h' = insert a (set as)" using same_payload_dom [OF h'(3)] ok by (simp add: con_ok_def)
  then show ?thesis using False h'(1,2) ok fresh(2,3)
    by (auto simp: insert_con_def env_lock_def env_unlock_def con_ok_def)
qed (simp add: insert_con_def env_lock_def)

text \<open>Memory the allocator returns is not in use.\<close>

definition malloc_ok :: "sys \<Rightarrow> cspi \<Rightarrow> bool" where
  "malloc_ok sy s \<longleftrightarrow> (case sy_malloc sy of None \<Rightarrow> True | Some a \<Rightarrow> con_heap s a = None \<and> 0 < a \<and> a < 2 ^ 32)"

lemma con_ok_alloc:
  assumes "con_ok s as" "malloc_ok sy s"
  shows "rets (\<lambda>(t, x, rc). \<exists>as. con_ok t as) (cspi_allochandle e sy ty h p s)"
proof -
  have fr: "\<exists>as. con_ok t as" if "con_frame s t" for t using con_ok_frame that assms(1) by blast
  have env: "rets (\<lambda>(t, x, rc). \<exists>as. con_ok t as)
     (call_bind (alloc_env e sy s) (\<lambda>(s, rc).
        if rc \<noteq> CSPI_OK then call_bind (free_env s) (\<lambda>s. Ret (s, Some NULL_HANDLE, rc)) else Ret (s, Some ENV_HANDLE, rc)))"
  proof -
    note w = frame_pair_then [OF frame_alloc_env, of s] frame_free_then [of s] rets_if
    have "rets (\<lambda>(t, x, rc). con_frame s t)
     (call_bind (alloc_env e sy s) (\<lambda>(s, rc).
        if rc \<noteq> CSPI_OK then call_bind (free_env s) (\<lambda>s. Ret (s, Some NULL_HANDLE, rc)) else Ret (s, Some ENV_HANDLE, rc)))"
      by (simp only: prod.case | rule w | simp)+
    then show ?thesis by (rule rets_mono) (use fr in auto)
  qed
  have con: "rets (\<lambda>(t, a). \<exists>as. con_ok t as) (alloc_con sy s)"
  proof (cases "sy_malloc sy")
    case (Some a)
    then have "con_heap s a = None" "0 < a" "a < 2 ^ 32" using assms(2) by (simp_all add: malloc_ok_def)
    note i = con_ok_insert [OF assms(1) this]
    show ?thesis unfolding alloc_con_def Some option.case Let_def
      by (rule rets_bindI [OF i]) auto
  qed (simp add: alloc_con_def)
  have con': "rets (\<lambda>(t, x, rc). \<exists>as. con_ok t as) (call_bind (alloc_con sy s) (\<lambda>(s, a). Ret (s, Some (CON_HANDLE a), CSPI_OK)))"
    by (rule rets_bindI [OF con]) auto
  have "\<exists>as. con_ok s as" using assms(1) by blast
  then show ?thesis unfolding cspi_allochandle_def using env con' by (simp split: handle_type.split)
qed

lemma con_ok_remove:
  assumes ok: "con_ok s as" and a: "a \<in> set as"
  shows "rets (\<lambda>t. con_ok (free_con a t) (remove1 a as)) (remove_con sy a s)"
proof (cases "e_mutex s")
  case False
  obtain xs ys where as: "as = xs @ a # ys" using a by (auto simp: in_set_conv_decomp)
  let ?bs = "xs @ ys"
  have l: "dl_list (con_head s, con_heap s) (xs @ a # ys)" using ok as by (simp add: con_ok_def)
  then obtain head' h' where h': "dl_remove a (con_head s, con_heap s) = Ret (head', h')" "dl_list (head', h') ?bs"
    "same_payload (con_heap s) h'"
    using dl_remove_list by blast
  have new: "a \<notin> set ?bs" using l by (simp add: dl_list_def)
  then have r1: "remove1 a as = ?bs" by (simp add: as remove1_append)
  have d: "dom (h'(a := None)) = set ?bs" using same_payload_dom [OF h'(3)] ok as new by (auto simp: con_ok_def)
  have n: "connection_count s - 1 = of_nat (length ?bs)" using ok as by (simp add: con_ok_def)
  have len: "length ?bs < 2 ^ 32" using con_ok_length [OF ok] as by simp
  have z: "connection_count s - 1 = 0 \<longleftrightarrow> ?bs = []"
    unfolding n by (rule of_nat_u32_0 [OF len, unfolded length_0_conv])
  define t where "t = s\<lparr>e_mutex := True, con_head := head', con_heap := h', connection_count := connection_count s - 1\<rparr>"
  have ok': "con_ok (free_con a u) ?bs" if "con_head u = head'" "con_heap u = h'" "connection_count u = connection_count s - 1"
      "evaction u \<longrightarrow> ?bs \<noteq> []" for u
    using that h'(2) d n new ok as by (auto simp: con_ok_def free_con_def dl_list_frame)
  have r: "remove_con sy a s = (if ?bs = [] then
         call_bind (heap_get a h') (\<lambda>c. call_bind (unregister_event_handler sy c t) (\<lambda>(s, _). Ret (env_unlock (destroy_event_thread s))))
       else Ret (env_unlock t))"
    using False h'(1) z by (simp add: remove_con_def env_lock_def t_def Let_def)
  show ?thesis
  proof (cases "?bs = []")
    case True
    have u: "rets (\<lambda>(u, x). con_head u = head' \<and> con_heap u = h' \<and> connection_count u = connection_count s - 1)
       (unregister_event_handler sy c t)" for c
      by (simp add: unregister_event_handler_def do_event_handler_registration_def t_def split: daemon_pipe.split)
    show ?thesis unfolding r if_P [OF True]
      by (rule rets_bind_any, rule rets_bindI [OF u])
        (auto intro!: ok' simp: r1 destroy_event_thread_def env_unlock_def)
  next
    case ne: False
    have "con_ok (free_con a (env_unlock t)) ?bs" by (rule ok') (use ne in \<open>simp_all add: t_def env_unlock_def\<close>)
    then show ?thesis unfolding r if_not_P [OF ne] r1 by simp
  qed
qed (simp add: remove_con_def env_lock_def)

lemma con_ok_free:
  assumes "con_ok s as"
  shows "rets (\<lambda>(t, rc). \<exists>as. con_ok t as) (cspi_freehandle sy ty h s)"
proof -
  have fr: "\<exists>as. con_ok t as" if "con_frame s t" for t using con_ok_frame that assms by blast
  have env: "rets (\<lambda>(t, rc). \<exists>as. con_ok t as)
     (call_bind (destroy_env s) (\<lambda>(s, rc). if rc = CSPI_OK then call_bind (free_env s) (\<lambda>s. Ret (s, rc)) else Ret (s, rc)))"
  proof -
    note w = frame_pair_then [OF frame_destroy_env, of s] frame_free_then [of s] rets_if
    have "rets (\<lambda>(t, rc). con_frame s t)
     (call_bind (destroy_env s) (\<lambda>(s, rc). if rc = CSPI_OK then call_bind (free_env s) (\<lambda>s. Ret (s, rc)) else Ret (s, rc)))"
      by (simp only: prod.case | rule w | simp)+
    then show ?thesis by (rule rets_mono) (use fr in auto)
  qed
  have con: "rets (\<lambda>(t, rc). \<exists>as. con_ok t as)
     (call_bind (heap_get a (con_heap s)) (\<lambda>c.
        if c_fd c \<noteq> None then Ret (s, CSPI_E_SEQUENCE)
        else call_bind (remove_con sy a s) (\<lambda>s. Ret (free_con a s, CSPI_OK))))" for a
  proof (cases "con_heap s a")
    case (Some c)
    then have "a \<in> set as" using assms by (auto simp: con_ok_def)
    note r = con_ok_remove [OF assms this]
    have "rets (\<lambda>(t, rc). \<exists>as. con_ok t as) (call_bind (remove_con sy a s) (\<lambda>s. Ret (free_con a s, CSPI_OK)))"
      by (rule rets_bindI [OF r]) auto
    then show ?thesis using assms Some by (auto simp: heap_get_def)
  qed (simp add: heap_get_def)
  have "\<exists>as. con_ok s as" using assms by blast
  then show ?thesis unfolding cspi_freehandle_def
    using env con by (simp split: handle_type.split CSPIHANDLE.split)
qed

section \<open>Runs of the library\<close>

text \<open>
  One call of the library that returns, from any thread, with anything around it; the calls are as in the
  model. Calls lock the environment where they use the list, so they do not overlap there.
\<close>

inductive con_step :: "cspi \<Rightarrow> cspi \<Rightarrow> bool" where
  step_alloc: "malloc_ok sy s \<Longrightarrow> cspi_allochandle e sy ty h p s = Ret (t, x, rc) \<Longrightarrow> con_step s t"
| step_free: "cspi_freehandle sy ty h s = Ret (t, rc) \<Longrightarrow> con_step s t"
| step_setlib: "cspi_setlibparam lp flags s = Ret (t, rc) \<Longrightarrow> con_step s t"
| step_getlib: "cspi_getlibparam lp flags s = Ret (t, q, rc) \<Longrightarrow> con_step s t"
| step_setenv: "cspi_setenvparam e henv ep flags s = Ret (ep', t, rc) \<Longrightarrow> con_step s t"
| step_getenv: "cspi_getenvparam e henv ep flags s = Ret (ep', t, rc) \<Longrightarrow> con_step s t"
| step_setfa: "cspi_setenvparam_fa sy sig h off pbuf sz n s = Ret (t, rc) \<Longrightarrow> con_step s t"
| step_getfa: "cspi_getenvparam_fa sy sig readl h off pbuf sz n s = Ret (t, bs, rc) \<Longrightarrow> con_step s t"
| step_setcon: "cspi_setconparam sy h cp flags s = Ret (t, cp', rc) \<Longrightarrow> con_step s t"
| step_getcon: "cspi_getconparam sy h cp flags s = Ret (t, cp', rc) \<Longrightarrow> con_step s t"
| step_connect: "cspi_connect sy h s = Ret (t, u, rc) \<Longrightarrow> con_step s t"
| step_disconnect: "cspi_disconnect sy h s = Ret (t, u, rc) \<Longrightarrow> con_step s t"
| step_seek: "cspi_seek sy h off64 org s = Ret (t, u, rc) \<Longrightarrow> con_step s t"
| step_read: "cspi_read e sy fl junk h dest n s = Ret (t, m, rc) \<Longrightarrow> con_step s t"
| step_read_ex: "cspi_read_ex e sy junk h dest n op s = Ret (t, m, rc) \<Longrightarrow> con_step s t"
| step_get: "cspi_get sy h atom s = Ret (t, m', rc) \<Longrightarrow> con_step s t"
| step_gettimestamp: "cspi_gettimestamp h ts s = Ret (t, ts', rc) \<Longrightarrow> con_step s t"
| step_settime: "cspi_settime sy io acq hrts flags s = Ret (t, rc) \<Longrightarrow> con_step s t"
| step_event: "thread_event cont ev s = Ret (t, calls) \<Longrightarrow> con_step s t"

lemma rets_ret: "rets Q c \<Longrightarrow> c = Ret x \<Longrightarrow> Q x"
  by (simp add: rets_def)

lemmas frame_rets =
  frame_setlibparam [THEN rets_ret] frame_getlibparam [THEN rets_ret] frame_fa_set [THEN rets_ret]
  frame_fa_get [THEN rets_ret] frame_setconparam [THEN rets_ret] frame_getconparam [THEN rets_ret]
  frame_connect [THEN rets_ret] frame_disconnect [THEN rets_ret] frame_seek [THEN rets_ret] frame_read [THEN rets_ret]
  frame_read_ex [THEN rets_ret] frame_get [THEN rets_ret] frame_gettimestamp [THEN rets_ret]
  frame_settime [THEN rets_ret] frame_thread_event [THEN rets_ret]

lemma con_step_ok:
  assumes "con_step s t" "con_ok s as"
  shows "\<exists>bs. con_ok t bs"
proof -
  have fr: "\<exists>bs. con_ok t bs" if "con_frame s t" for t using con_ok_frame [OF that assms(2)] by blast
  show ?thesis using assms(1)
  proof cases
    case step_alloc
    from rets_ret [OF con_ok_alloc [OF assms(2) step_alloc(1)] step_alloc(2)] show ?thesis by simp
  next
    case step_free
    from rets_ret [OF con_ok_free [OF assms(2)] step_free] show ?thesis by simp
  next
    case step_setenv
    from rets_ret [OF frame_setenv step_setenv] show ?thesis by (simp add: fr)
  next
    case step_getenv
    from rets_ret [OF frame_getenv step_getenv] show ?thesis by (simp add: fr)
  qed (drule frame_rets, simp add: fr)+
qed

text \<open>The library before its first call.\<close>

definition lib_start :: "cspi \<Rightarrow> bool" where
  "lib_start s \<longleftrightarrow> con_head s = None \<and> con_heap s = Map.empty \<and> connection_count s = 0 \<and> \<not> evaction s"

lemma lib_start_ok: "lib_start s \<Longrightarrow> con_ok s []"
  by (simp add: lib_start_def con_ok_def dl_list_def)

lemma con_run_ok:
  assumes "con_step\<^sup>*\<^sup>* s t" "lib_start s"
  shows "\<exists>as. con_ok t as"
  using assms(1)
proof induction
  case base
  show ?case using lib_start_ok [OF assms(2)] by blast
next
  case (step t u)
  then show ?case using con_step_ok by blast
qed

text \<open>A library with nothing allocated, a surrounding that gives it what it asks for.\<close>

definition lib0 :: cspi where
  "lib0 = \<lparr>krn = krn sample_state, e_mutex = False, cache_mutex = False, cache = cache0, is_cache_dirty = False,
     g_decimation = 64, pll_sent = [], usage_count = 1, evaction = False, connection_count = 0, con_head = None,
     con_heap = Map.empty, env_fd = Some (le_filp sample_env), lib_version = CSPI_VER, superuser = 1, last_id = 0,
     event_pipe = False, evd_requests = [], buffers = 0\<rparr>"

definition sys0 :: sys where
  "sys0 = \<lparr>sy_file = 7, sy_magic = True, sy_malloc = Some 4096, sy_buffer = True, sy_daemon = RequestTaken, sy_pipe = True,
     sy_thread = True, sy_pid = 100, sy_open = \<lambda>_ k. Ret (k, Some 8), sy_close = \<lambda>_ k. (k, True),
     sy_lseek = \<lambda>_ _ _ k. Ret (k, True), sy_read = \<lambda>_ _ k. Ret (k, Inr raw1),
     sy_tstamp = \<lambda>_ _ k. Ret (k, Some zero_timestamp), sy_set_dec = \<lambda>_ _ k. Ret (k, True),
     sy_get_dec = \<lambda>_ k. Ret (k, Some 1), sy_nonblock = \<lambda>_ _ k. (k, True)\<rparr>"

definition con0 :: Connection where
  "con0 = \<lparr>d_prev = None, d_next = None, connection_id = 1, c_mode = CSPI_MODE_UNKNOWN, c_fd = None, c_pid = 0,
     c_event_mask = 0xffff, c_handler = None, c_user_data = 0, c_timestamp = zero_timestamp\<rparr>"

definition lib1 :: cspi where
  "lib1 = lib0\<lparr>last_id := 1, con_heap := [4096 \<mapsto> con0], con_head := Some 4096, connection_count := 1\<rparr>"

lemma alloc_lib1: "cspi_allochandle sample_env sys0 CSPI_HANDLE_CON ENV_HANDLE True lib0 = Ret (lib1, Some (CON_HANDLE 4096), CSPI_OK)"
  by (simp add: cspi_allochandle_def alloc_con_def insert_con_def env_lock_def env_unlock_def dl_insert_def lib0_def lib1_def
      sys0_def con0_def)

lemma lib0_start: "lib_start lib0"
  by (simp add: lib_start_def lib0_def)

lemma lib1_ok: "con_ok lib1 [4096]"
  by (simp add: con_ok_def dl_list_def lib1_def lib0_def con0_def)

text \<open>C5. Over every run of library calls from the start, whatever the surroundings answer, memory holds exactly the
  connections that are linked in the environment's doubly linked list, the counter is their number, and the event
  thread exists only while there is a connection.\<close>

theorem connections_linked:
  assumes "con_step\<^sup>*\<^sup>* s t" "lib_start s"
  shows "\<exists>as. dl_list (con_head t, con_heap t) as \<and> dom (con_heap t) = set as
     \<and> connection_count t = of_nat (length as) \<and> (evaction t \<longrightarrow> as \<noteq> [])"
  using con_run_ok [OF assms] by (auto simp: con_ok_def)

theorem connections_linked_witness:
  "con_step lib0 lib1 \<and> (\<exists>as. dl_list (con_head lib1, con_heap lib1) as \<and> set as = {4096} \<and> connection_count lib1 = of_nat (length as))"
proof -
  have "malloc_ok sys0 lib0" by (simp add: malloc_ok_def sys0_def lib0_def)
  then have st: "con_step lib0 lib1" by (rule step_alloc [OF _ alloc_lib1])
  have "dom (con_heap lib1) = {4096}" by (simp add: lib1_def)
  with connections_linked [OF r_into_rtranclp, OF st lib0_start] st show ?thesis by metis
qed

section \<open>The environment in use\<close>

text \<open>Freeing the environment while a connection is allocated is refused with the mutex left locked: the
  connection can no longer be freed, nor the environment, and every call on parameters waits forever.\<close>

theorem busy_environment_locked:
  assumes "usage_count s = 1" "connection_count s \<noteq> 0" "\<not> e_mutex s" "con_heap s a = Some c" "c_fd c = None"
  shows "\<exists>t. cspi_freehandle sy CSPI_HANDLE_ENV ENV_HANDLE s = Ret (t, CSPI_E_SEQUENCE)
     \<and> cspi_freehandle sy' CSPI_HANDLE_CON (CON_HANDLE a) t = Hang \<and> cspi_freehandle sy' CSPI_HANDLE_ENV ENV_HANDLE t = Hang
     \<and> cspi_getenvparam e True (Some p) flags t = Hang \<and> cspi_setenvparam e True (Some p) flags t = Hang
     \<and> cspi_getlibparam (Some lp) flags t = Hang \<and> cspi_setlibparam (Some lp) flags t = Hang"
proof -
  have "cspi_freehandle sy CSPI_HANDLE_ENV ENV_HANDLE s = Ret (s\<lparr>e_mutex := True\<rparr>, CSPI_E_SEQUENCE)"
    using assms by (simp add: cspi_freehandle_def destroy_env_def env_lock_def CSPI_E_SEQUENCE_def CSPI_OK_def)
  moreover have "cspi_freehandle sy' CSPI_HANDLE_CON (CON_HANDLE a) (s\<lparr>e_mutex := True\<rparr>) = Hang"
    using assms by (simp add: cspi_freehandle_def heap_get_def remove_con_def env_lock_def)
  moreover have "cspi_freehandle sy' CSPI_HANDLE_ENV ENV_HANDLE (s\<lparr>e_mutex := True\<rparr>) = Hang"
    by (simp add: cspi_freehandle_def destroy_env_def env_lock_def)
  moreover have "cspi_getenvparam e True (Some p) flags (s\<lparr>e_mutex := True\<rparr>) = Hang"
    "cspi_setenvparam e True (Some p) flags (s\<lparr>e_mutex := True\<rparr>) = Hang"
    "cspi_getlibparam (Some lp) flags (s\<lparr>e_mutex := True\<rparr>) = Hang" "cspi_setlibparam (Some lp) flags (s\<lparr>e_mutex := True\<rparr>) = Hang"
    by (simp_all add: cspi_getenvparam_def cspi_setenvparam_def cspi_getlibparam_def cspi_setlibparam_def env_lock_def)
  ultimately show ?thesis by blast
qed

theorem busy_environment_locked_witness:
  "\<exists>t. cspi_freehandle sys0 CSPI_HANDLE_ENV ENV_HANDLE lib1 = Ret (t, CSPI_E_SEQUENCE)
     \<and> cspi_freehandle sys0 CSPI_HANDLE_CON (CON_HANDLE 4096) t = Hang"
proof -
  have "usage_count lib1 = 1" "connection_count lib1 \<noteq> 0" "\<not> e_mutex lib1" "con_heap lib1 4096 = Some con0" "c_fd con0 = None"
    by (simp_all add: lib1_def lib0_def con0_def)
  from busy_environment_locked [OF this] show ?thesis by blast
qed

section \<open>Connections that come and go\<close>

text \<open>The connections in their order, as the event thread meets them.\<close>

definition cons_of :: "cspi \<Rightarrow> nat list \<Rightarrow> Connection list" where
  "cons_of s as = map (\<lambda>a. the (con_heap s a)) as"

lemma free_con_last:
  assumes "con_ok s as" "a \<in> set as" "\<not> e_mutex s" "1 < length as" "con_heap s a = Some c" "c_fd c = None"
  shows "\<exists>t. cspi_freehandle sy CSPI_HANDLE_CON (CON_HANDLE a) s = Ret (t, CSPI_OK) \<and> con_ok t (remove1 a as)
     \<and> evd_requests t = evd_requests s \<and> evaction t = evaction s \<and> \<not> e_mutex t"
proof -
  obtain xs ys where "as = xs @ a # ys" using assms(2) by (auto simp: in_set_conv_decomp)
  then obtain h1 h2 where d: "dl_remove a (con_head s, con_heap s) = Ret (h1, h2)"
    using assms(1) dl_remove_list [of "con_head s" "con_heap s" xs a ys] by (auto simp: con_ok_def)
  have "connection_count s - 1 = of_nat (length as - 1)" using assms(1,4) by (simp add: con_ok_def of_nat_diff)
  moreover have "length as - 1 < 2 ^ 32" using con_ok_length [OF assms(1)] by simp
  ultimately have n: "connection_count s - 1 \<noteq> 0" using of_nat_u32_0 [of "length as - 1"] assms(4) by simp
  let ?t = "s\<lparr>con_head := h1, con_heap := h2, connection_count := connection_count s - 1\<rparr>"
  have r: "remove_con sy a s = Ret (?t\<lparr>e_mutex := False\<rparr>)"
    using n assms(3) d by (simp add: remove_con_def env_lock_def env_unlock_def Let_def)
  then have "con_ok (free_con a (?t\<lparr>e_mutex := False\<rparr>)) (remove1 a as)"
    using con_ok_remove [OF assms(1,2), of sy] by simp
  moreover have "cspi_freehandle sy CSPI_HANDLE_CON (CON_HANDLE a) s = Ret (free_con a (?t\<lparr>e_mutex := False\<rparr>), CSPI_OK)"
    using r assms(5,6) by (simp add: cspi_freehandle_def heap_get_def)
  ultimately show ?thesis by (simp add: free_con_def)
qed

text \<open>The handlers called for an event: those of the connections that want all its bits, up to the first that
  returns 0.\<close>

definition wanting :: "libera_event_t \<Rightarrow> Connection list \<Rightarrow> (nat \<times> u32) list" where
  "wanting ev cs =
     [(the (c_handler c), c_user_data c). c \<leftarrow> cs, c_handler c \<noteq> None \<and> scast (ev_id ev) AND c_event_mask c = scast (ev_id ev)]"

definition upto_stop :: "('a \<Rightarrow> bool) \<Rightarrow> 'a list \<Rightarrow> 'a list" where
  "upto_stop P xs = takeWhile P xs @ take 1 (dropWhile P xs)"

lemma upto_stop_simps: "upto_stop P [] = []" "upto_stop P (x # xs) = x # (if P x then upto_stop P xs else [])"
  by (simp_all add: upto_stop_def)

lemma dispatch_seg:
  assumes "dl_seg h pr p as None"
  shows "dispatch_cons cont ev h p calls
     = Some (Ret (calls @ upto_stop (\<lambda>(f, u). cont f ev u) (wanting ev (map (\<lambda>a. the (h a)) as))))"
  using assms
proof (induction as arbitrary: pr p calls)
  case Nil
  then show ?case by (simp add: dispatch_cons.simps wanting_def upto_stop_simps)
next
  case (Cons a as)
  then obtain c where c: "p = Some a" "h a = Some c" "dl_seg h (Some a) (d_next c) as None" by auto
  note ih = Cons.IH [OF c(3)]
  show ?case
    by (subst dispatch_cons.simps) (simp add: c(1,2) ih wanting_def upto_stop_simps split: option.split)
qed

text \<open>C12. The event thread lets the hook mark the cache and calls, in the order of the list, the handlers of the
  connections that want all bits of the event, up to the first that returns 0.\<close>

theorem event_calls_handlers:
  assumes "dl_list (con_head s, con_heap s) as"
  shows "\<exists>t. thread_event cont ev s = Ret (t, upto_stop (\<lambda>(f, u). cont f ev u) (wanting ev (cons_of s as)))
     \<and> con_heap t = con_heap s \<and> (ev_id ev = LIBERA_EVENT_CFG \<and> unat (ev_param ev) \<in> set hook_params \<longrightarrow> is_cache_dirty t)"
  using dispatch_seg [of "con_heap s" None "con_head s" as cont ev "[]"] assms
  by (auto simp: thread_event_def Let_def signal_handler_hook_def dl_list_def cons_of_def returned_def)

theorem event_calls_handlers_witness:
  "\<exists>t. thread_event (\<lambda>_ _ _. True) \<lparr>ev_id = 1, ev_param = 0\<rparr>
      (lib1\<lparr>con_heap := [4096 \<mapsto> con0\<lparr>c_handler := Some 77, c_user_data := 5\<rparr>]\<rparr>) = Ret (t, [(77, 5)])"
proof -
  let ?s = "lib1\<lparr>con_heap := [4096 \<mapsto> con0\<lparr>c_handler := Some 77, c_user_data := 5\<rparr>]\<rparr>"
  have "dl_list (con_head ?s, con_heap ?s) [4096]" by (simp add: dl_list_def lib1_def con0_def)
  from event_calls_handlers [OF this, of "\<lambda>_ _ _. True" "\<lparr>ev_id = 1, ev_param = 0\<rparr>"]
  show ?thesis by (auto simp: cons_of_def wanting_def upto_stop_simps con0_def)
qed

section \<open>Reading the parameters of a connection\<close>

text \<open>Reading the parameters of a connected connection sets them instead: the call is the one that sets, and the
  caller's structure comes back as it was.\<close>

theorem getconparam_sets:
  assumes "con_heap s a = Some c" "c_fd c \<noteq> None"
  shows "cspi_getconparam sy (CON_HANDLE a) p flags s = cspi_setconparam sy (CON_HANDLE a) p flags s
     \<and> (\<forall>t q rc. cspi_getconparam sy (CON_HANDLE a) p flags s = Ret (t, q, rc) \<longrightarrow> q = p)"
proof -
  have e: "cspi_getconparam sy (CON_HANDLE a) p flags s = cspi_setconparam sy (CON_HANDLE a) p flags s"
    using assms by (cases p; cases "c_fd c") (simp_all add: cspi_getconparam_def cspi_setconparam_def on_con_def heap_get_def)
  show ?thesis unfolding e using assms
    by (cases p) (auto simp: cspi_setconparam_def on_con_def heap_get_def call_bind_Ret_iff)
qed

theorem getconparam_sets_witness:
  "\<exists>t. cspi_getconparam sys0 (CON_HANDLE 4096)
       (Some \<lparr>cp_mode = 0, cp_handler = None, cp_user_data = 0, cp_event_mask = 3, cp_dec = 0, cp_nonblock = 0\<rparr>) CSPI_CON_EVENTMASK
       (lib1\<lparr>con_heap := [4096 \<mapsto> con0\<lparr>c_fd := Some 8\<rparr>]\<rparr>)
       = Ret (t, Some \<lparr>cp_mode = 0, cp_handler = None, cp_user_data = 0, cp_event_mask = 3, cp_dec = 0, cp_nonblock = 0\<rparr>, CSPI_OK)
     \<and> map_option c_event_mask (con_heap t 4096) = Some 3"
proof -
  let ?s = "lib1\<lparr>con_heap := [4096 \<mapsto> con0\<lparr>c_fd := Some 8\<rparr>]\<rparr>"
  have "con_heap ?s 4096 = Some (con0\<lparr>c_fd := Some 8\<rparr>)" "c_fd (con0\<lparr>c_fd := Some 8\<rparr>) \<noteq> None" by simp_all
  note e = getconparam_sets [OF this, THEN conjunct1]
  show ?thesis unfolding e
    by (simp add: cspi_setconparam_def on_con_def heap_get_def custom_setconparam_def base_setconparam_def con_flags upd_con_def
        heap_upd_def CSPI_OK_def)
qed

section \<open>Reading samples\<close>

text \<open>A read in a mode with raw DD samples, with a cache that needs no refresh.\<close>

lemma atoms_in_place:
  assumes "length ws = 8 * n" "8 * n \<le> length mem"
  shows "put_atoms 0 (map (\<lambda>k. dd_atom c (atom_at 0 k (ws @ drop (length ws) mem))) [0..<n]) (ws @ drop (length ws) mem)
    = concat (map (\<lambda>k. dd_atom c (atom_at 0 k ws)) [0..<n]) @ drop (8 * n) mem"
proof -
  have "atom_at 0 k (ws @ drop (length ws) mem) = atom_at 0 k ws" if "k < n" for k
    using that assms(1) by (simp add: atom_at_def)
  then have e: "map (\<lambda>k. dd_atom c (atom_at 0 k (ws @ drop (length ws) mem))) [0..<n] = map (\<lambda>k. dd_atom c (atom_at 0 k ws)) [0..<n]"
    by simp
  show ?thesis unfolding e using assms by (simp add: put_atoms_def)
qed

lemma read_dd_ok:
  assumes c: "con_heap s a = Some c" "c_fd c = Some fd" and m: "m = (if c_mode c = CSPI_MODE_DD then CSPI_MODE_DD else CSPI_MODE_PM)"
    and r: "sy_read sy fd (n * 32) (krn s) = Ret (k1, Inr ws)" "length ws = 8 * unat n" "8 * unat n \<le> length mem"
    and ts: "sy_tstamp sy m fd k1 = Ret (k2, Some ts)"
    and clean: "\<not> is_cache_dirty s" and nz: "\<And>k. k < unat n \<Longrightarrow> dd_sum (atom_at 0 k ws) \<noteq> 0"
  shows "read_dd e sy junk a mem n (Some ebpp_transform_dd) s =
    Ret (s\<lparr>krn := k2, con_heap := (con_heap s)(a \<mapsto> c\<lparr>c_timestamp := ts\<rparr>)\<rparr>,
      (concat (map (\<lambda>k. dd_atom (cache s) (atom_at 0 k ws)) [0..<unat n]) @ drop (8 * unat n) mem, Some (unat n)), CSPI_OK)"
proof -
  let ?mem = "ws @ drop (length ws) mem"
  let ?s = "s\<lparr>krn := k2, con_heap := (con_heap s)(a \<mapsto> c\<lparr>c_timestamp := ts\<rparr>)\<rparr>"
  have sum: "dd_sum (atom_at 0 k ?mem) = dd_sum (atom_at 0 k ws)" if "k < unat n" for k
    using that r(2) by (simp add: atom_at_def)
  have t: "ebpp_transform_dd (cache s) 0 0 (unat n) ?mem =
      Ret (concat (map (\<lambda>k. dd_atom (cache s) (atom_at 0 k ws)) [0..<unat n]) @ drop (8 * unat n) mem, 0)"
    unfolding atoms_in_place [OF r(2,3), symmetric] ebpp_transform_dd_def
    using transform_loop_ok [of 0 "unat n" ?mem 0 "cache s"] r(2,3) nz sum by (auto simp: separate_def)
  have i: "initop e junk ?s = Ret (?s, CSPI_OK)" using clean by (simp add: initop_def custom_initop_def)
  have ri: "read_into ws mem = Ret ?mem" using r(2,3) by (simp add: read_into_def)
  have u: "upd_con (c_timestamp_update (\<lambda>_. ts)) a (s\<lparr>krn := k2\<rparr>) = Ret ?s" using c(1) by (simp add: upd_con_def heap_upd_def)
  have nb: "length ws div 8 = unat n" using r(2) by simp
  show ?thesis unfolding read_dd_def
    by (simp only: c(1) heap_get_def option.case call_bind_simps c(2) option.sel r(1) prod.case Let_def sum.case ri
        m [symmetric] nb simp_thms) (simp add: ts u i t)
qed

text \<open>The system calls of a connection to the post-mortem device are the driver's.\<close>

definition pm_calls :: "filp \<Rightarrow> ioenv \<Rightarrow> sys \<Rightarrow> sys" where
  "pm_calls f env sy =
     sy\<lparr>sy_read := \<lambda>fd n k. call_bind (libera_pm_read (io_signal env) n False k) (\<lambda>(r, ats).
           Ret (k, case r of Inl err \<Rightarrow> Inl err | Inr _ \<Rightarrow> Inr (concat ats))),
        sy_tstamp := \<lambda>m fd k. call_bind (libera_pm_ioctl f GET_PM_TSTAMP env k) (\<lambda>(k, r, out).
           Ret (k, case r of Inl _ \<Rightarrow> None | Inr _ \<Rightarrow> (case out of DdTstamp t \<Rightarrow> Some t | _ \<Rightarrow> None)))\<rparr>"

lemma concat_atoms:
  assumes "\<forall>x \<in> set xs. length x = 8" "k < length xs"
  shows "atom_at 0 k (concat xs) = xs ! k"
  using assms
proof (induction xs arbitrary: k)
  case (Cons x xs)
  then show ?case by (cases k) (simp_all add: atom_at_def)
qed simp

lemma length_concat_atoms: "\<forall>x \<in> set xs. length x = 8 \<Longrightarrow> length (concat xs) = 8 * length xs"
  by (induction xs) simp_all

text \<open>The newest \<open>n\<close> atoms of the post-mortem buffer.\<close>

definition pm_last :: "u32 \<Rightarrow> kernel \<Rightarrow> libera_atom_dd_t list" where
  "pm_last n k = map (pm_buf (pm k)) [unat (pmsize k) - unat n..<unat (pmsize k)]"

lemma pm_read_last:
  assumes "unat n \<le> unat (pmsize k)" "unat (pmsize k) * 32 < 2 ^ 32" "\<not> sem (pm k)"
  shows "libera_pm_read False (n * 32) False k = Ret (Inr (sint (n * 32)), pm_last n k)"
proof -
  have n32: "unat (n * 32) = unat n * 32" using assms(1,2) by (simp add: unat_word_ariths)
  have p32: "unat (pmsize k * 32) = unat (pmsize k) * 32" using assms(2) by (simp add: unat_word_ariths)
  have d: "n * 32 div 32 = n" by (rule word_unat_eq_iff [THEN iffD2]) (simp add: unat_div n32)
  have md: "n * 32 mod 32 = 0" by (rule word_unat_eq_iff [THEN iffD2]) (simp add: unat_mod n32)
  have le: "\<not> pmsize k * 32 < n * 32" using assms(1) by (simp add: word_less_nat_alt n32 p32)
  have sub: "unat (pmsize k - n) = unat (pmsize k) - unat n" using assms(1) by (simp add: unat_sub word_le_nat_alt)
  show ?thesis
    using assms(1,3) le md by (simp add: libera_pm_read_def mutex_lock_interruptible_def DD_ATOM_BYTES_def Let_def d sub pm_last_def)
qed

text \<open>C6. A read of n atoms of a post-mortem connection delivers the newest n atoms of the driver's buffer, each
  transformed to amplitudes and positions with the cached parameters, leaves the rest of the caller's memory, and
  stamps the connection with the time of the post-mortem event.\<close>

theorem pm_read_delivers:
  assumes c: "con_heap s a = Some c" "c_fd c = Some fd" "c_mode c = CSPI_MODE_PM"
    and n: "unat n \<le> unat (pmsize (krn s))" "unat (pmsize (krn s)) * 32 < 2 ^ 32" "8 * unat n \<le> length mem"
    and k: "\<not> sem (pm (krn s))" "\<not> io_signal env" "io_access env" "io_uncopied env = 0"
    and clean: "\<not> is_cache_dirty s"
    and ats: "\<forall>x \<in> set (pm_last n (krn s)). length x = 8 \<and> dd_sum x \<noteq> 0"
  shows "cspi_read e (pm_calls f env sy) fl junk (CON_HANDLE a) (Some mem) n s =
    Ret (s\<lparr>con_heap := (con_heap s)(a \<mapsto> c\<lparr>c_timestamp := pm_tstamp (pm (krn s))\<rparr>)\<rparr>,
      (concat (map (dd_atom (cache s)) (pm_last n (krn s))) @ drop (8 * unat n) mem, Some (unat n)), CSPI_OK)"
proof -
  let ?l = "pm_last n (krn s)" and ?ws = "concat (pm_last n (krn s))"
  have ll: "length ?l = unat n" using n(1) by (simp add: pm_last_def)
  have a8: "\<forall>x \<in> set ?l. length x = 8" using ats by simp
  have r: "sy_read (pm_calls f env sy) fd (n * 32) (krn s) = Ret (krn s, Inr ?ws)"
    using pm_read_last [OF n(1,2) k(1)] k(2) by (simp add: pm_calls_def)
  have t: "sy_tstamp (pm_calls f env sy) CSPI_MODE_PM fd (krn s) = Ret (krn s, Some (pm_tstamp (pm (krn s))))"
    using k by (simp add: pm_calls_def libera_pm_ioctl_def mutex_lock_interruptible_def copy_ret_def)
  have lw: "length ?ws = 8 * unat n" using length_concat_atoms [OF a8] ll by simp
  have at: "atom_at 0 j ?ws = ?l ! j" if "j < unat n" for j using concat_atoms [OF a8] that ll by simp
  have nz: "dd_sum (atom_at 0 j ?ws) \<noteq> 0" if "j < unat n" for j using at [OF that] that ats ll by simp
  have e: "map (\<lambda>j. dd_atom (cache s) (atom_at 0 j ?ws)) [0..<unat n] = map (dd_atom (cache s)) ?l"
    using at ll by (intro nth_equalityI) simp_all
  have m: "CSPI_MODE_PM = (if c_mode c = CSPI_MODE_DD then CSPI_MODE_DD else CSPI_MODE_PM)"
    using c(3) by (simp add: cspi_modes)
  have "cspi_read e (pm_calls f env sy) fl junk (CON_HANDLE a) (Some mem) n s =
      read_dd e (pm_calls f env sy) junk a mem n (Some ebpp_transform_dd) s"
    using c by (simp add: cspi_read_def heap_get_def custom_getdefaultop_def cspi_read_ex_def on_con_def is_streamingmode_def cspi_modes)
  then show ?thesis using read_dd_ok [OF c(1,2) m r lw n(3) t clean nz, of e junk] unfolding e by simp
qed

lemma raw1_atom: "dd_atom cache0 raw1 = [10000, 10000, 5000, 5000, 0, 3333333, 0, 7500]" "dd_sum raw1 \<noteq> 0"
  by code_simp+

theorem pm_read_delivers_witness:
  "let s = lib1\<lparr>con_heap := [4096 \<mapsto> con0\<lparr>c_mode := CSPI_MODE_PM, c_fd := Some 8\<rparr>],
                krn := boot_kernel\<lparr>pm := (pm boot_kernel)\<lparr>pm_buf := \<lambda>_. raw1\<rparr>\<rparr>\<rparr>
   in \<exists>t. cspi_read sample_env (pm_calls (le_filp sample_env) (le_io sample_env) sys0) (\<lambda>_ _ _ _ _ m. Ret (m, 0)) (\<lambda>_. 0)
       (CON_HANDLE 4096) (Some (replicate 8 0)) 1 s = Ret (t, ([10000, 10000, 5000, 5000, 0, 3333333, 0, 7500], Some 1), CSPI_OK)"
proof -
  let ?c = "con0\<lparr>c_mode := CSPI_MODE_PM, c_fd := Some 8\<rparr>"
  let ?k = "boot_kernel\<lparr>pm := (pm boot_kernel)\<lparr>pm_buf := \<lambda>_. raw1\<rparr>\<rparr>"
  let ?s = "lib1\<lparr>con_heap := [4096 \<mapsto> ?c], krn := ?k\<rparr>"
  have l: "pm_last 1 (krn ?s) = [raw1]" by (simp add: pm_last_def LIBERA_PMSIZE_INITIAL_def)
  have "length raw1 = 8" by (simp add: raw1_def)
  then have ats: "\<forall>x \<in> set (pm_last 1 (krn ?s)). length x = 8 \<and> dd_sum x \<noteq> 0" unfolding l using raw1_atom(2) by simp
  have c: "con_heap ?s 4096 = Some ?c" "c_fd ?c = Some 8" "c_mode ?c = CSPI_MODE_PM" by simp_all
  have n: "unat (1 :: u32) \<le> unat (pmsize (krn ?s))" "unat (pmsize (krn ?s)) * 32 < 2 ^ 32" "8 * unat (1 :: u32) \<le> length (replicate 8 (0 :: s32))"
    by (simp_all add: LIBERA_PMSIZE_INITIAL_def)
  have k: "\<not> sem (pm (krn ?s))" "\<not> io_signal (le_io sample_env)" "io_access (le_io sample_env)" "io_uncopied (le_io sample_env) = 0"
    by (simp_all add: init_pm_def sample_env_def)
  have d: "\<not> is_cache_dirty ?s" and ch: "cache ?s = cache0" by (simp_all add: lib1_def lib0_def)
  note r = pm_read_delivers [OF c n k d ats, of sample_env "le_filp sample_env" sys0 "\<lambda>_ _ _ _ _ m. Ret (m, 0)" "\<lambda>_. 0"]
  show ?thesis unfolding Let_def r l ch by (simp add: raw1_atom(1))
qed

section \<open>A read that hides a failed refresh\<close>

lemma initop_keeps_heap: "initop e junk s = Ret (t, rc) \<Longrightarrow> con_heap t = con_heap s"
  using initop_more [of s "with_fd s e" junk] by (cases s; cases t) (simp add: initop_def rets_def)

text \<open>C14. A DD read whose refresh of a stale cache fails succeeds nevertheless: the positions are computed from the
  stale parameters, the call returns success, and the cache no longer counts as stale.\<close>

theorem read_hides_failed_refresh:
  assumes c: "con_heap s a = Some c" "c_fd c = Some fd" "c_mode c = CSPI_MODE_DD"
    and failed: "initop e junk s = Ret (s1, rc)" "rc \<noteq> CSPI_OK" "io_access (le_io (with_fd s e))"
    and r: "sy_read sy fd (n * 32) (krn s1) = Ret (k1, Inr ws)" "length ws = 8 * unat n" "8 * unat n \<le> length mem"
    and ts: "sy_tstamp sy CSPI_MODE_DD fd k1 = Ret (k2, Some ts)"
    and nz: "\<forall>k < unat n. dd_sum (atom_at 0 k ws) \<noteq> 0"
    and off: "sr_dsc (cache s) \<noteq> 2"
  shows "\<exists>t. cspi_read e sy fl junk (CON_HANDLE a) (Some mem) n s =
      Ret (t, (concat (map (\<lambda>k. dd_atom (cache s) (atom_at 0 k ws)) [0..<unat n]) @ drop (8 * unat n) mem, Some (unat n)), CSPI_OK)
     \<and> is_cache_dirty s \<and> \<not> is_cache_dirty t \<and> cache t = cache s"
proof -
  have i: "custom_initop (with_fd s e) junk s = Ret (s1, rc)" using failed(1) by (simp add: initop_def)
  have dirty: "is_cache_dirty s" using i failed(2) refresh_clean [of s "with_fd s e" junk] by auto
  note f = failed_refresh_forgotten [OF i failed(2,3), of "with_fd s e" junk]
  have clean: "\<not> is_cache_dirty s1"
    using refresh_agrees [OF conjunct2 [OF f]] by blast
  have c1: "con_heap s1 a = Some c" using initop_keeps_heap [OF failed(1)] c(1) by simp
  have m: "CSPI_MODE_DD = (if c_mode c = CSPI_MODE_DD then CSPI_MODE_DD else CSPI_MODE_PM)" using c(3) by simp
  have "cspi_read e sy fl junk (CON_HANDLE a) (Some mem) n s = read_dd e sy junk a mem n (Some ebpp_transform_dd) s1"
    using c c1 failed(1) f off by (simp add: cspi_read_def heap_get_def custom_getdefaultop_def cspi_read_ex_def on_con_def
        is_streamingmode_def cspi_modes)
  moreover have "\<And>k. k < unat n \<Longrightarrow> dd_sum (atom_at 0 k ws) \<noteq> 0" using nz by simp
  ultimately show ?thesis using read_dd_ok [OF c1 c(2) m r ts clean, of e junk] f dirty clean by simp
qed

text \<open>The library finds no DSC server, so the refresh fails.\<close>

lemma refresh_without_server:
  assumes "is_cache_dirty s" "\<not> e_mutex s"
  shows "custom_initop sample_env (\<lambda>_. 0) s = Ret (s\<lparr>is_cache_dirty := False\<rparr>, CSPI_E_SYSTEM)"
proof -
  let ?s = "s\<lparr>is_cache_dirty := False, e_mutex := True\<rparr>"
  have io: "io_access (le_io sample_env)" by (simp add: sample_env_def)
  then obtain q where "custom_getenvparam sample_env CACHE_MASK (\<lambda>_. 0) ?s
     = and_then (ebpp_getdscparam sample_env CACHE_MASK q ?s) (\<lambda>p s. ebpp_get_pllparam sample_env CACHE_MASK p s)"
    using cache_get_passes by blast
  moreover have "\<exists>q'. ebpp_getdscparam sample_env CACHE_MASK q ?s = (q', ?s, CSPI_E_SYSTEM)"
    by (simp add: ebpp_getdscparam_def dsc_get_map_def ebpp_dsc_message_def sample_env_def CACHE_MASK_def env_masks
        CSPI_OK_def CSPI_E_SYSTEM_def)
  ultimately obtain q' where "custom_getenvparam sample_env CACHE_MASK (\<lambda>_. 0) ?s = (q', ?s, CSPI_E_SYSTEM)"
    by (auto simp: and_then_def CSPI_OK_def CSPI_E_SYSTEM_def)
  then have "ebpp_update_cache sample_env (\<lambda>_. 0) ?s = Ret (?s, CSPI_E_SYSTEM)"
    by (simp add: ebpp_update_cache_def CSPI_OK_def CSPI_E_SYSTEM_def)
  then show ?thesis using assms by (simp add: custom_initop_def)
qed

theorem read_hides_failed_refresh_witness:
  "\<exists>t. cspi_read sample_env sys0 (\<lambda>_ _ _ _ _ m. Ret (m, 0)) (\<lambda>_. 0) (CON_HANDLE 4096) (Some (replicate 8 0)) 1
       (lib1\<lparr>con_heap := [4096 \<mapsto> con0\<lparr>c_mode := CSPI_MODE_DD, c_fd := Some 8\<rparr>], is_cache_dirty := True, cache := cache0\<lparr>sr_dsc := 0\<rparr>\<rparr>)
       = Ret (t, ([10000, 10000, 5000, 5000, 0, 3333333, 0, 7500], Some 1), CSPI_OK) \<and> \<not> is_cache_dirty t"
proof -
  let ?c = "con0\<lparr>c_mode := CSPI_MODE_DD, c_fd := Some 8\<rparr>" and ?ch = "cache0\<lparr>sr_dsc := 0\<rparr>"
  let ?s = "lib1\<lparr>con_heap := [4096 \<mapsto> ?c], is_cache_dirty := True, cache := ?ch\<rparr>"
  have w: "with_fd ?s sample_env = sample_env" by (simp add: with_fd_def lib1_def lib0_def)
  have "is_cache_dirty ?s" "\<not> e_mutex ?s" by (simp_all add: lib1_def lib0_def)
  from refresh_without_server [OF this]
  have f: "initop sample_env (\<lambda>_. 0) ?s = Ret (?s\<lparr>is_cache_dirty := False\<rparr>, CSPI_E_SYSTEM)" by (simp only: initop_def w)
  have io: "CSPI_E_SYSTEM \<noteq> CSPI_OK" "io_access (le_io (with_fd ?s sample_env))" unfolding w
    by (simp_all add: sample_env_def CSPI_E_SYSTEM_def CSPI_OK_def)
  have c: "con_heap ?s 4096 = Some ?c" "c_fd ?c = Some 8" "c_mode ?c = CSPI_MODE_DD" by simp_all
  have r: "sy_read sys0 8 (1 * 32) k = Ret (k, Inr raw1)" "sy_tstamp sys0 CSPI_MODE_DD 8 k = Ret (k, Some zero_timestamp)" for k
    by (simp_all add: sys0_def)
  have l: "length raw1 = 8 * unat (1 :: u32)" "8 * unat (1 :: u32) \<le> length (replicate 8 (0 :: s32))" by (simp_all add: raw1_def)
  have a: "atom_at 0 0 raw1 = raw1" by (simp add: atom_at_def raw1_def)
  then have nz: "\<forall>k < unat (1 :: u32). dd_sum (atom_at 0 k raw1) \<noteq> 0" using raw1_atom(2) by simp
  have off: "sr_dsc (cache ?s) \<noteq> 2" by simp
  have d: "dd_atom ?ch raw1 = [10000, 10000, 5000, 5000, 0, 3333333, 0, 7500]" by code_simp
  from read_hides_failed_refresh [OF c f io r(1) l r(2) nz off, of "\<lambda>_ _ _ _ _ m. Ret (m, 0)"]
  obtain t where t: "cspi_read sample_env sys0 (\<lambda>_ _ _ _ _ m. Ret (m, 0)) (\<lambda>_. 0) (CON_HANDLE 4096) (Some (replicate 8 0)) 1 ?s =
      Ret (t, (concat (map (\<lambda>k. dd_atom (cache ?s) (atom_at 0 k raw1)) [0..<unat (1 :: u32)]) @ drop (8 * unat (1 :: u32)) (replicate 8 0), Some (unat (1 :: u32))), CSPI_OK)"
    "\<not> is_cache_dirty t" by blast
  have "cache ?s = ?ch" by simp
  with t show ?thesis by (intro exI [of _ t]) (simp add: a d)
qed

section \<open>A block of the fast application, there and back\<close>

text \<open>What a read of the block returns depends on the device's mutex only, not on its other members.\<close>

lemma fa_read_frame:
  assumes "libera_fa_read False readl False count pos k = Ret (k2, pos1, r, bs)"
  shows "\<not> sem (fa k) \<and> (\<not> sem (fa k') \<longrightarrow> (\<exists>k2'. libera_fa_read False readl False count pos k' = Ret (k2', pos1, r, bs)))"
proof (cases "sem (fa k)")
  case True
  then show ?thesis using assms by (simp add: libera_fa_read_def blk_read_def mutex_lock_interruptible_def)
next
  case False
  then show ?thesis using assms
    by (auto simp: libera_fa_read_def blk_read_def call_bind_Ret_iff Let_def split: if_splits)
qed

lemma release_sem: "sem (single_writer_release f dev) = sem dev"
  by (simp add: single_writer_release_def Let_def)

lemma fa_open_reader:
  assumes "\<not> sem (fa k)"
  shows "\<exists>k'. libera_fa_open (fa_filp sy False) k = Ret (k', Inr 0) \<and> \<not> sem (fa k')"
  using assms by (simp add: libera_fa_open_def single_writer_open_def fa_filp_def Let_def)

lemma fa_set_cases:
  assumes "cspi_setenvparam_fa sy sig ENV_HANDLE off (Some bytes) sz count s = Ret (s1, CSPI_OK)"
  obtains k pos k2 pos1 n where "sz mod 4 = 0" "libera_fa_llseek (ucast off) 0 0 = (pos, Inr pos)" "pos = ucast off"
    "libera_fa_write sig (False, bytes) (count * sz) pos k = Ret (k2, pos1, Inr n)" "of_int n = count * sz"
    "s1 = s\<lparr>e_mutex := False, krn := libera_fa_release (fa_filp sy True) k2\<rparr>"
proof -
  have z: "sz mod 4 = 0" using assms by (simp add: cspi_setenvparam_fa_def CSPI_OK_def CSPI_E_INVALID_PARAM_def split: if_splits)
  obtain k r where o: "libera_fa_open (fa_filp sy True) (krn s) = Ret (k, r)"
    using assms z by (auto simp: cspi_setenvparam_fa_def call_bind_Ret_iff)
  obtain n0 where r: "r = Inr n0"
    using assms z o by (cases r) (simp_all add: cspi_setenvparam_fa_def CSPI_OK_def CSPI_E_SYSTEM_def)
  have m: "\<not> e_mutex s" using assms z o r by (auto simp: cspi_setenvparam_fa_def env_lock_def)
  obtain pos q where sk: "libera_fa_llseek (ucast off) 0 0 = (pos, q)" by (cases "libera_fa_llseek (ucast off) 0 0")
  have c: "(case q of Inl _ \<Rightarrow> False | Inr _ \<Rightarrow> True)"
    using assms z o r m sk by (cases q) (simp_all add: cspi_setenvparam_fa_def env_lock_def env_unlock_def CSPI_OK_def CSPI_E_SYSTEM_def)
  have q: "q = Inr pos" "pos = ucast off"
    using sk c by (auto simp: libera_fa_llseek_def blk_llseek_def Let_def split: if_splits)
  obtain k2 pos1 w where wr: "libera_fa_write sig (False, bytes) (count * sz) pos k = Ret (k2, pos1, w)"
    using assms z o r m sk q by (auto simp: cspi_setenvparam_fa_def env_lock_def call_bind_Ret_iff)
  obtain n where n: "w = Inr n" "of_int n = count * sz" "s1 = s\<lparr>e_mutex := False, krn := libera_fa_release (fa_filp sy True) k2\<rparr>"
    using assms z o r m sk q wr
    by (cases w) (auto simp: cspi_setenvparam_fa_def env_lock_def env_unlock_def CSPI_OK_def CSPI_E_SYSTEM_def split: if_splits)
  show thesis using that [of pos k k2 pos1 n] z sk q wr n by simp
qed

text \<open>C13. A block of bytes that the library stored in the fast application reads back through the library as it was,
  from the same offset, on registers that keep what is written.\<close>

theorem fa_set_then_get:
  assumes "cspi_setenvparam_fa sy sig ENV_HANDLE off (Some bytes) sz count s = Ret (s1, CSPI_OK)"
    "length bytes = unat (count * sz)" "bytes \<noteq> []" "length old = length bytes"
  shows "\<exists>s2. cspi_getenvparam_fa sy' False (memory readl (trace (krn s1))) ENV_HANDLE off (Some old) sz count s1
     = Ret (s2, Some bytes, CSPI_OK)"
proof -
  obtain k pos k2 pos1 n where z: "sz mod 4 = 0" and sk: "libera_fa_llseek (ucast off) 0 0 = (pos, Inr pos)" "pos = ucast off"
    and w: "libera_fa_write sig (False, bytes) (count * sz) pos k = Ret (k2, pos1, Inr n)" and n: "of_int n = count * sz"
    and s1: "s1 = s\<lparr>e_mutex := False, krn := libera_fa_release (fa_filp sy True) k2\<rparr>"
    by (rule fa_set_cases [OF assms(1)])
  have p0: "0 \<le> sint pos" unfolding sk(2) by (simp add: sint_ucast_u32)
  have bw: "blk_write FAI_BLOCKSIZE FAI_BLOCK sig (False, bytes) (count * sz) pos fa set_fa k = Ret (k2, pos1, Inr n)"
    using w by (simp add: libera_fa_write_def)
  have "FAI_BLOCKSIZE < 2 ^ 30" by (simp add: FAI_BLOCKSIZE_def)
  from bw p0 this have n0: "0 \<le> n" by (cases rule: blk_write_cases) auto
  have "0 < unat (count * sz)" using assms(3) unfolding assms(2) [symmetric] by (rule iffD2 [OF length_greater_0_conv])
  then have "of_int n \<noteq> (0 :: u32)" unfolding n by (metis less_irrefl unat_0)
  then have "n \<noteq> 0" by auto
  with n0 have np: "0 < n" by simp
  from fa_write_read [OF w np p0 assms(2), of readl] obtain k3 where
    nm: "n \<le> uint (count * sz)" and rd: "libera_fa_read False (memory readl (trace k2)) False (count * sz) pos k2 = Ret (k3, pos1, Inr n, take (nat n) bytes)"
    by auto
  have "uint (count * sz) < 2 ^ 32" using uint_lt2p [of "count * sz"] by simp
  then have "uint (of_int n :: u32) = n" using n0 nm by (simp add: uint_word_of_int take_bit_eq_mod)
  then have nu: "n = uint (count * sz)" unfolding n by simp
  have "nat n = length bytes" unfolding nu assms(2) by (rule unat_eq_nat_uint [symmetric])
  then have all: "take (nat n) bytes = bytes" by (simp only: take_all_iff order_refl)
  let ?k = "krn s1"
  have kk: "?k = libera_fa_release (fa_filp sy True) k2" unfolding s1 by simp
  have "\<not> sem (fa k2)" using fa_read_frame [OF rd] by blast
  then have "\<not> sem (fa ?k)" unfolding kk by (simp add: libera_fa_release_def release_sem)
  then obtain k4 where o: "libera_fa_open (fa_filp sy' False) ?k = Ret (k4, Inr 0)" "\<not> sem (fa k4)"
    using fa_open_reader by blast
  have tr: "trace ?k = trace k2" unfolding kk by (simp add: libera_fa_release_def)
  obtain k5 where r: "libera_fa_read False (memory readl (trace ?k)) False (count * sz) pos k4 = Ret (k5, pos1, Inr n, bytes)"
    using fa_read_frame [OF rd, of k4] o(2) unfolding tr all by blast
  have "\<not> e_mutex s1" by (simp add: s1)
  then show ?thesis using z o(1) sk(1) r n assms(4) by (simp add: cspi_getenvparam_fa_def env_lock_def Let_def)
qed

theorem fa_set_then_get_witness:
  "\<exists>s1 s2. cspi_setenvparam_fa sys0 False ENV_HANDLE 8 (Some [1, 2, 3, 4]) 4 1 (lib0\<lparr>krn := boot_kernel\<lparr>fa := init_blk 0\<rparr>\<rparr>) = Ret (s1, CSPI_OK)
     \<and> cspi_getenvparam_fa sys0 False (memory (\<lambda>_. 0) (trace (krn s1))) ENV_HANDLE 8 (Some [0, 0, 0, 0]) 4 1 s1
         = Ret (s2, Some [1, 2, 3, 4], CSPI_OK)"
proof -
  let ?s = "lib0\<lparr>krn := boot_kernel\<lparr>fa := init_blk 0\<rparr>\<rparr>"
  have "\<exists>s1. cspi_setenvparam_fa sys0 False ENV_HANDLE 8 (Some [1, 2, 3, 4]) 4 1 ?s = Ret (s1, CSPI_OK)"
    by (simp add: cspi_setenvparam_fa_def libera_fa_open_def single_writer_open_def fa_filp_def init_blk_def lib0_def env_lock_def
        libera_fa_llseek_def blk_llseek_def FAI_BLOCKSIZE_def Let_def libera_fa_write_def blk_write_def blk_count_def set_fa_def word_sless_alt)
  then obtain s1 where s1: "cspi_setenvparam_fa sys0 False ENV_HANDLE 8 (Some [1, 2, 3, 4]) 4 1 ?s = Ret (s1, CSPI_OK)" ..
  have "length [1, 2, 3, 4 :: u8] = unat (1 * 4 :: u32)" "[1, 2, 3, 4 :: u8] \<noteq> []" "length [0, 0, 0, 0 :: u8] = length [1, 2, 3, 4 :: u8]"
    by simp_all
  from fa_set_then_get [OF s1 this, of sys0 "\<lambda>_. 0"] s1 show ?thesis by blast
qed

end
