(* ===== verification/Libera_Bunch.thy ===== *)
theory Libera_Bunch
  imports Libera_Dd Libera_Cfg
begin

text \<open>
  What the bunch-by-bunch (\<open>bbfp.c\<close>) and hadron (\<open>hbpp.c\<close>) builds of the driver share: their constants
  (\<open>bbfp.h\<close>, \<open>hbpp.h\<close>), the discipline of arm and trigger, their trigger handlers, and the DMA FIFO at
  their sizes. \<open>BBFP\<close> and \<open>HBPP\<close> name the build where the two differ.
\<close>

section \<open>Constants\<close>

definition T_TRIG_FA1 :: nat where "T_TRIG_FA1 = 1"
definition T_TRIG_FA0 :: nat where "T_TRIG_FA0 = 0"

definition LIBERA_TRIG_FA_MC0 :: s32 where "LIBERA_TRIG_FA_MC0 = 3"
definition LIBERA_TRIG_FA_MC1 :: s32 where "LIBERA_TRIG_FA_MC1 = 4"
definition LIBERA_TRIG_FA_SC0 :: s32 where "LIBERA_TRIG_FA_SC0 = 5"

definition DD_CB_FIFO_POSTFILT :: u32 where "DD_CB_FIFO_POSTFILT = 0x0 + HB_OFFSET"
definition DD_CB_FIFO_STARTADDR :: u32 where "DD_CB_FIFO_STARTADDR = 0x4 + HB_OFFSET"
definition DD_CB_FIFO_ADDRSTEP :: u32 where "DD_CB_FIFO_ADDRSTEP = 0x8 + HB_OFFSET"
definition DD_CB_FIFO_SNGLSIZE :: u32 where "DD_CB_FIFO_SNGLSIZE = 0xc + HB_OFFSET"
definition DD_CB_FIFO_NOTRANS :: u32 where "DD_CB_FIFO_NOTRANS = 0x10 + HB_OFFSET"

definition HB_ATOMS :: u32 where "HB_ATOMS = 0x2000000"
definition BUNCH_BLOCK_ATOMS :: s32 where "BUNCH_BLOCK_ATOMS = 512"
definition BUNCH_FIFO_ATOMS :: s32 where "BUNCH_FIFO_ATOMS = 16384"
definition BUNCH_FIFO_MASK :: s32 where "BUNCH_FIFO_MASK = BUNCH_FIFO_ATOMS - 1"

definition BUNCH_OB_SIZE :: "u32 \<Rightarrow> u32" where
  "BUNCH_OB_SIZE status = drop_bit 0 status AND (push_bit 11 1 - 1)"

definition mod_op :: "u64 \<Rightarrow> u32 \<Rightarrow> u32 option" where
  "mod_op dividend divisor = map_option snd (div_u64_rem dividend divisor)"

section \<open>Command to the circular buffer\<close>

definition write_CBfifo :: "u32 \<Rightarrow> u32 \<Rightarrow> u32 \<Rightarrow> u32 \<Rightarrow> u32 \<Rightarrow> kernel \<Rightarrow> kernel" where
  "write_CBfifo cb_PostFilt cb_StartAddr cb_AddrStep cb_SnglSize cb_NoTrans k =
     reg_write cb_NoTrans DD_CB_FIFO_NOTRANS (reg_write cb_SnglSize DD_CB_FIFO_SNGLSIZE
       (reg_write cb_AddrStep DD_CB_FIFO_ADDRSTEP (reg_write cb_StartAddr DD_CB_FIFO_STARTADDR
         (reg_write cb_PostFilt DD_CB_FIFO_POSTFILT k))))"

definition libera_dd_write_CBfifo_BBFP :: "u32 \<Rightarrow> u32 \<Rightarrow> u32 \<Rightarrow> u32 \<Rightarrow> u32 \<Rightarrow> kernel \<Rightarrow> kernel" where
  "libera_dd_write_CBfifo_BBFP = write_CBfifo"

definition libera_dd_write_CBfifo_HBPP :: "u32 \<Rightarrow> u32 \<Rightarrow> u32 \<Rightarrow> u32 \<Rightarrow> u32 \<Rightarrow> kernel \<Rightarrow> kernel" where
  "libera_dd_write_CBfifo_HBPP = write_CBfifo"

section \<open>Arm and trigger\<close>

text \<open>Both builds have the same two sets of triggers.\<close>

definition BBFP_Arms :: s32 where "BBFP_Arms = TRIGGER_BIT T_TRIG_POST_MORTEM OR TRIGGER_BIT T_TRIG_FA1"
definition BBFP_Trigs :: s32 where "BBFP_Trigs = TRIGGER_BIT T_TRIG_TRIGGER OR TRIGGER_BIT T_TRIG_FA0"
definition HBPP_Arms :: s32 where "HBPP_Arms = TRIGGER_BIT T_TRIG_POST_MORTEM OR TRIGGER_BIT T_TRIG_FA1"
definition HBPP_Trigs :: s32 where "HBPP_Trigs = TRIGGER_BIT T_TRIG_TRIGGER OR TRIGGER_BIT T_TRIG_FA0"

definition valid_trigger :: "s32 \<Rightarrow> s32 \<Rightarrow> nat \<Rightarrow> kernel \<Rightarrow> kernel \<times> bool" where
  "valid_trigger arms trigs trigno k =
     (let v = ValidTrigVector (event k) in
      if v AND TRIGGER_BIT trigno \<noteq> 0 then
        (k\<lparr>event := (event k)\<lparr>ValidTrigVector := (if v AND arms \<noteq> 0 then trigs else if v AND trigs \<noteq> 0 then arms else v)\<rparr>\<rparr>,
         True)
      else (k, False))"

definition libera_valid_trigger_BBFP :: "nat \<Rightarrow> kernel \<Rightarrow> kernel \<times> bool" where
  "libera_valid_trigger_BBFP = valid_trigger BBFP_Arms BBFP_Trigs"

definition libera_valid_trigger_HBPP :: "nat \<Rightarrow> kernel \<Rightarrow> kernel \<times> bool" where
  "libera_valid_trigger_HBPP = valid_trigger HBPP_Arms HBPP_Trigs"

text \<open>The handlers of the system clock; the log of an overflow is left out.\<close>

definition SCtrig :: "u64 \<Rightarrow> nat \<Rightarrow> kernel \<Rightarrow> kernel" where
  "SCtrig stamp i k =
     (if i = T_TRIG_FA0 then
        fst (libera_send_event LIBERA_EVENT_FA LIBERA_TRIG_FA_SC0
          (upd_paired T_TRIG_TRIGGER (putLSTtoCircBuf (paired_timestamps (event k) T_TRIG_TRIGGER) stamp) k))
      else if i = T_TRIG_FA1 \<or> i = T_TRIG_POST_MORTEM then k
      else set_fifo (SCQ i) (fst (putToFIFO (sc_timestamps (event k) i) stamp)) k)"

definition libera_SCtrig_specific_BBFP :: "u64 \<Rightarrow> u64 \<Rightarrow> nat \<Rightarrow> kernel \<Rightarrow> kernel" where
  "libera_SCtrig_specific_BBFP stamp stamp_raw i k = SCtrig stamp i k"

definition libera_SCtrig_specific_HBPP :: "u64 \<Rightarrow> u64 \<Rightarrow> nat \<Rightarrow> kernel \<Rightarrow> kernel" where
  "libera_SCtrig_specific_HBPP stamp stamp_raw i k = SCtrig stamp i k"

definition libera_renew_HB_offset :: "u64 \<Rightarrow> kernel \<Rightarrow> kernel" where
  "libera_renew_HB_offset stamp k = k\<lparr>event := (event k)\<lparr>HB_offset_lmt := stamp mod ucast HB_ATOMS\<rparr>\<rparr>"

definition libera_MCtrig_specific_BBFP :: "u64 \<Rightarrow> u64 \<Rightarrow> nat \<Rightarrow> kernel \<Rightarrow> kernel" where
  "libera_MCtrig_specific_BBFP stamp stamp_raw i k =
     (if i = T_TRIG_FA0 then
        (case libera_valid_trigger_BBFP i k of
           (k, False) \<Rightarrow> k
         | (k, True) \<Rightarrow>
             fst (libera_send_event LIBERA_EVENT_FA LIBERA_TRIG_FA_MC0
               (upd_paired T_TRIG_TRIGGER (putLMTtoCircBuf (paired_timestamps (event k) T_TRIG_TRIGGER) stamp) k)))
      else if i = T_TRIG_POST_MORTEM then
        (case libera_valid_trigger_BBFP i k of
           (k, False) \<Rightarrow> k
         | (k, True) \<Rightarrow>
             fst (libera_send_event LIBERA_EVENT_PM 0
               (upd_paired T_TRIG_POST_MORTEM (putLMTtoCircBuf (paired_timestamps (event k) T_TRIG_POST_MORTEM) stamp) k)))
      else if i = T_TRIG_FA1 then
        (case libera_valid_trigger_BBFP i k of
           (k, False) \<Rightarrow> k
         | (k, True) \<Rightarrow>
             fst (libera_send_event LIBERA_EVENT_FA LIBERA_TRIG_FA_MC1
               (upd_paired T_TRIG_POST_MORTEM (putLMTtoCircBuf (paired_timestamps (event k) T_TRIG_POST_MORTEM) stamp) k)))
      else set_fifo (MCQ i) (fst (putToFIFO (mc_timestamps (event k) i) stamp)) k)"

text \<open>In the hadron build only the hardware arm is checked.\<close>

definition libera_MCtrig_specific_HBPP :: "u64 \<Rightarrow> u64 \<Rightarrow> nat \<Rightarrow> kernel \<Rightarrow> kernel" where
  "libera_MCtrig_specific_HBPP stamp stamp_raw i k =
     (if i = T_TRIG_FA0 then
        fst (libera_send_event LIBERA_EVENT_FA LIBERA_TRIG_FA_MC0
          (upd_paired T_TRIG_TRIGGER (putLMTtoCircBuf (paired_timestamps (event k) T_TRIG_TRIGGER) stamp) k))
      else if i = T_TRIG_POST_MORTEM then
        (case libera_valid_trigger_HBPP i k of (k, False) \<Rightarrow> k | (k, True) \<Rightarrow> libera_renew_HB_offset stamp k)
      else if i = T_TRIG_FA1 then
        fst (libera_send_event LIBERA_EVENT_FA LIBERA_TRIG_FA_MC1 (libera_renew_HB_offset stamp k))
      else set_fifo (MCQ i) (fst (putToFIFO (mc_timestamps (event k) i) stamp)) k)"

text \<open>The part of the machine-clock handler of \<open>libera_main.c\<close> for a TRIGGER trigger outside the SET mode.\<close>

definition mc_get_trigger_BBFP :: "u64 \<Rightarrow> kernel \<Rightarrow> kernel" where
  "mc_get_trigger_BBFP stamp k =
     (case libera_valid_trigger_BBFP T_TRIG_TRIGGER k of
        (k, False) \<Rightarrow> k
      | (k, True) \<Rightarrow>
          let k = upd_paired T_TRIG_TRIGGER (putLMTtoCircBuf (paired_timestamps (event k) T_TRIG_TRIGGER) stamp) k in
          if cfg_param (cfg k) LIBERA_CFG_TRIGMODE = LIBERA_TRIGMODE_GET then fst (libera_send_event LIBERA_EVENT_TRIGGET 0 k)
          else k)"

section \<open>Initialisation and configuration\<close>

text \<open>The first trigger stands at half of the history buffer; the arm is awaited.\<close>

definition init_triggers_bunch :: "s32 \<Rightarrow> kernel \<Rightarrow> kernel \<times> int" where
  "init_triggers_bunch arms k =
     (let k = k\<lparr>event := (event k)\<lparr>ValidTrigVector := arms\<rparr>\<rparr>;
          (k, ret) = libera_sctrig_enable (TRIGGER_BIT T_TRIG_FA1 OR TRIGGER_BIT T_TRIG_FA0) k
      in if ret \<noteq> 0 then (k, ret) else libera_mctrig_enable (TRIGGER_BIT T_TRIG_FA1 OR TRIGGER_BIT T_TRIG_FA0) k)"

definition virgin_trigger :: "kernel \<Rightarrow> kernel" where
  "virgin_trigger k =
     (let virgin_trig = ucast (HB_ATOMS div 2);
          k = upd_paired T_TRIG_TRIGGER (putLSTtoCircBuf (paired_timestamps (event k) T_TRIG_TRIGGER) virgin_trig) k
      in upd_paired T_TRIG_TRIGGER (putLMTtoCircBuf (paired_timestamps (event k) T_TRIG_TRIGGER) virgin_trig) k)"

definition libera_init_specific_HBPP :: "kernel \<Rightarrow> kernel \<times> int" where
  "libera_init_specific_HBPP k = init_triggers_bunch HBPP_Arms (virgin_trigger k)"

text \<open>The size of a logical atom: the module's parameter, or what the feature register says.\<close>

definition LIBERA_INSTRUMENT_BBB :: u32 where "LIBERA_INSTRUMENT_BBB = 1"
definition LIBERA_TYPE_BBBQ :: u32 where "LIBERA_TYPE_BBBQ = 0"
definition LIBERA_TYPE_BBBS :: u32 where "LIBERA_TYPE_BBBS = 1"

definition LIBERA_ATOM_SIZE :: "u32 \<Rightarrow> u32" where
  "LIBERA_ATOM_SIZE f = drop_bit 20 (f AND push_bit 20 0xF)"

definition LIBERA_IS_BBB :: "u32 \<Rightarrow> bool" where
  "LIBERA_IS_BBB f = (LIBERA_INSTRUMENT f = LIBERA_INSTRUMENT_BBB)"

definition LIBERA_IS_BBBQ :: "u32 \<Rightarrow> bool" where
  "LIBERA_IS_BBBQ f = (LIBERA_IS_BBB f \<and> LIBERA_INS_TYPE f = LIBERA_TYPE_BBBQ)"

definition LIBERA_IS_BBBS :: "u32 \<Rightarrow> bool" where
  "LIBERA_IS_BBBS f = (LIBERA_IS_BBB f \<and> LIBERA_INS_TYPE f = LIBERA_TYPE_BBBS)"

definition bbfp_atomsize :: "u32 \<Rightarrow> u32 \<Rightarrow> u32" where
  "bbfp_atomsize f atomsize =
     (if atomsize = 0 then
        if LIBERA_IS_BBBQ f then 4
        else if LIBERA_IS_BBBS f then (if LIBERA_ATOM_SIZE f = 0 then 5 else LIBERA_ATOM_SIZE f)
        else 4
      else atomsize)"

text \<open>\<open>f\<close> is the feature register, \<open>atomsize\<close> the parameter; the third component is the size in use.\<close>

definition libera_init_specific_BBFP :: "u32 \<Rightarrow> u32 \<Rightarrow> kernel \<Rightarrow> kernel \<times> int \<times> u32" where
  "libera_init_specific_BBFP f atomsize k =
     (let (k, ret) = init_triggers_bunch BBFP_Arms (virgin_trigger k) in (k, ret, bbfp_atomsize f atomsize))"

text \<open>No parameters beyond the common ones.\<close>

definition libera_cfg_get_specific_BBFP :: "u32 \<Rightarrow> errno + int" where "libera_cfg_get_specific_BBFP idx = Inl EINVAL"
definition libera_cfg_set_specific_BBFP :: "u32 \<Rightarrow> errno + int" where "libera_cfg_set_specific_BBFP idx = Inl EINVAL"
definition libera_cfg_get_specific_HBPP :: "u32 \<Rightarrow> errno + int" where "libera_cfg_get_specific_HBPP idx = Inl EINVAL"
definition libera_cfg_set_specific_HBPP :: "u32 \<Rightarrow> errno + int" where "libera_cfg_set_specific_HBPP idx = Inl EINVAL"

section \<open>The DMA FIFO\<close>

text \<open>
  The FIFO and its interrupt are those of \<open>libera_event.h\<close> and \<open>libera_main.c\<close>, with the sizes of these
  builds. Its memory holds samples, \<open>spa\<close> of them in an atom: four numbers in the bunch-by-bunch build, one
  sample of four channels in the hadron build. \<open>b_hw\<close> is what the board still puts into its output buffer.
  What the interrupts do happens where the reader sleeps and between the rounds of its loop.
\<close>

record 'a bdma =
  b_buf :: "nat \<Rightarrow> 'a"
  b_put :: s32
  b_get :: s32
  b_csize :: s32
  b_remaining :: s32
  b_status :: u32
  b_overrun :: bool
  b_hw :: "'a list"
  b_transfer :: bool

definition b_flush :: "'a bdma \<Rightarrow> 'a bdma" where "b_flush q = q\<lparr>b_put := 0, b_get := 0\<rparr>"

definition b_len :: "'a bdma \<Rightarrow> s32" where
  "b_len q = (b_put q + BUNCH_FIFO_ATOMS - b_get q) AND BUNCH_FIFO_MASK"

definition b_tail :: "'a bdma \<Rightarrow> s32" where "b_tail q = BUNCH_FIFO_ATOMS - b_put q"
definition b_nonempty :: "'a bdma \<Rightarrow> bool" where "b_nonempty q = (b_put q \<noteq> b_get q)"

definition b_get_csize :: "'a bdma \<Rightarrow> 'a bdma" where
  "b_get_csize q =
     (let a = (if b_remaining q <s BUNCH_BLOCK_ATOMS then b_remaining q else BUNCH_BLOCK_ATOMS);
          ob = BUNCH_OB_SIZE (b_status q);
          b = (if b_tail q < ob then b_tail q else ob);
          csize_temp = (if a < b then a else b);
          left = BUNCH_FIFO_ATOMS - 1 - b_len q
      in q\<lparr>b_csize := (if left <s csize_temp then left else csize_temp)\<rparr>)"

definition b_command :: "'a bdma \<Rightarrow> 'a bdma" where "b_command q = q\<lparr>b_transfer := True\<rparr>"

fun put_samples :: "nat \<Rightarrow> 'a list \<Rightarrow> (nat \<Rightarrow> 'a) \<Rightarrow> (nat \<Rightarrow> 'a)" where
  "put_samples i [] buf = buf"
| "put_samples i (x # xs) buf = put_samples (i + 1) xs (buf(i := x))"

text \<open>
  The end of the transfer in flight: the controller has moved the next samples of the board; \<open>st\<close> is the
  status the handler reads.
\<close>

definition b_interrupt :: "nat \<Rightarrow> u32 \<Rightarrow> 'a bdma \<Rightarrow> 'a bdma" where
  "b_interrupt spa st q =
     (if \<not> b_transfer q then q
      else
        let n = unat (b_csize q) * spa;
            q = q\<lparr>b_buf := put_samples (unat (b_put q) * spa) (take n (b_hw q)) (b_buf q), b_hw := drop n (b_hw q),
                   b_status := st\<rparr>;
            q = (if DD_OB_OVERRUN st \<noteq> 0 then q\<lparr>b_overrun := True\<rparr> else q);
            q = q\<lparr>b_remaining := b_remaining q - b_csize q\<rparr>;
            index = (b_put q + b_csize q) AND BUNCH_FIFO_MASK;
            q = (if index = b_get q then q else q\<lparr>b_put := index\<rparr>);
            q = b_get_csize q
        in if 0 <s b_csize q then b_command q else q\<lparr>b_transfer := False\<rparr>)"

text \<open>Waiting for data in the output buffer: the list holds what the status register shows after each sleep.\<close>

fun b_sync :: "nat \<Rightarrow> nat \<Rightarrow> u32 list \<Rightarrow> 'a bdma \<Rightarrow> ('a bdma \<times> errno option) call" where
  "b_sync hz wait_count sts q =
     (if b_remaining q \<noteq> 0 \<and> BUNCH_OB_SIZE (b_status q) = 0 then
        (case sts of
           [] \<Rightarrow> Hang
         | st # sts \<Rightarrow>
             let q = q\<lparr>b_status := st\<rparr> in
             if hz < wait_count then Ret (q, Some EIO) else b_sync hz (wait_count + 1) sts q)
      else Ret (q, None))"

declare b_sync.simps [simp del]

end
