(* ===== verification/Libera_Hbpp.thy ===== *)
theory Libera_Hbpp
  imports Libera_Bunch
begin

text \<open>
  The DD device of the hadron build (\<open>hbpp.c\<close>): seeking, the transfer from the output buffer to user
  space, and the read. An atom is one sample of four channels, so the FIFO's memory holds one sample per atom.
\<close>

section \<open>Descriptor\<close>

text \<open>
  The descriptor of \<open>libera_dd.c\<close> with the fields of the request the bunch builds use: the offset from the
  trigger, the last trigger, the time of the arm and the position of the trigger behind it, in samples.
\<close>

record bunch_local = libera_dd_local_t +
  rel_offset :: s64
  lasttrig :: libera_Ltimestamp_t
  arm_lmt :: u64
  trig_position :: s64

definition last_trigger :: "kernel \<Rightarrow> libera_Ltimestamp_t" where
  "last_trigger k = getFromCircBuf (paired_timestamps (event k) T_TRIG_TRIGGER)"

definition HBPP_MT_SAMPLES :: u64 where "HBPP_MT_SAMPLES = 1"
definition HBPP_ATOM_SAMPLES :: u64 where "HBPP_ATOM_SAMPLES = 1"
definition HBPP_MAX_SAMPLES :: u32 where "HBPP_MAX_SAMPLES = 2 * 1024 * 1024"
definition HBPP_SAMPLE_BYTES :: u32 where "HBPP_SAMPLE_BYTES = 8"

section \<open>Seeking\<close>

definition libera_dd_llseek_HBPP :: "s64 \<Rightarrow> nat \<Rightarrow> bunch_local \<Rightarrow> bunch_local \<times> (errno + int)" where
  "libera_dd_llseek_HBPP time whence loc =
     (if whence = 1 then (loc\<lparr>rel_offset := time\<rparr>, Inr 0)
      else if whence = 0 \<or> whence = 2 then (loc, Inl EINVAL)
      else (loc, Inl EINVAL))"

section \<open>Waiting for the history buffer to stop\<close>

text \<open>
  The second half of the buffer fills after the trigger \<open>t\<close>. The jiffies are a product of 32 bits with sign
  divided as a number without; \<open>stamps\<close> is what the interrupts put into the FIFOs in the sleep.
\<close>

definition hb_stop_jiffies :: "u32 \<Rightarrow> u32 \<Rightarrow> s32 \<Rightarrow> s32 option" where
  "hb_stop_jiffies hz f diff = (if f = 0 then None else Some ((diff * FLMC_DECI_HZ * hz) div f + 1))"

definition hb_stop_diff :: "libera_Ltimestamp_t \<Rightarrow> libera_Ltimestamp_t \<Rightarrow> s32" where
  "hb_stop_diff t ctime = ucast (lmt t - lmt ctime + ucast (HB_ATOMS div 2))"

definition hb_stop_wait ::
  "u32 \<Rightarrow> (fifo_sel \<times> u64) list \<Rightarrow> libera_Ltimestamp_t \<Rightarrow> libera_Ltimestamp_t \<Rightarrow> kernel
     \<Rightarrow> (kernel \<times> errno option) call" where
  "hb_stop_wait hz stamps t ctime k =
     (if 0 <s hb_stop_diff t ctime then
        (case hb_stop_jiffies hz (flmcdHz k) (hb_stop_diff t ctime) of
           None \<Rightarrow> Fault
         | Some j \<Rightarrow> if j <s hz then Ret (fold irq_stamp stamps k, None) else Ret (k, Some EDEADLK))
      else Ret (k, None))"

section \<open>Transfer\<close>

text \<open>
  The variables of the loop: atoms seen, the next atom wanted, the place in it, samples copied, the time of
  the next sample, and the samples given to the user.
\<close>

record 'a hb_copy =
  hb_OBAtoms :: u32
  hb_AtomNo :: u32
  hb_offset :: u32
  hb_written :: u32
  hb_slmt :: u64
  hb_out :: "'a list"

definition hb_atom_no :: "u64 \<Rightarrow> u32" where
  "hb_atom_no t = ucast ((t div HBPP_ATOM_SAMPLES) mod ucast HB_ATOMS)"

text \<open>The samples of one atom, until \<open>copy_to_user\<close> fails (\<open>bad\<close>, by the number of the sample).\<close>

function hb_samples ::
  "(u32 \<Rightarrow> bool) \<Rightarrow> (nat \<Rightarrow> 'a) \<Rightarrow> nat \<Rightarrow> u32 \<Rightarrow> u32 \<Rightarrow> 'a hb_copy \<Rightarrow> 'a hb_copy \<times> bool" where
  "hb_samples bad buf slot sample_count step c =
     (if hb_offset c < ucast HBPP_ATOM_SAMPLES \<and> hb_written c < sample_count then
        if bad (hb_written c) then (c, False)
        else hb_samples bad buf slot sample_count step
               (c\<lparr>hb_out := hb_out c @ [buf (slot * unat HBPP_ATOM_SAMPLES + unat (hb_offset c))],
                  hb_written := hb_written c + 1, hb_offset := hb_offset c + step,
                  hb_slmt := hb_slmt c + ucast step\<rparr>)
      else (c, True))"
  by pat_completeness auto
termination
proof (relation "measure (\<lambda>(bad, buf, slot, n, step, c). unat n - unat (hb_written c))", goal_cases)
  case (2 bad buf slot n step c)
  then have "unat (hb_written c + 1) = unat (hb_written c) + 1"
    by (auto simp: word_less_nat_alt intro!: unat_add_lem [THEN iffD1, of _ 1, simplified]
        order_le_less_trans [OF _ unsigned_less [of n]])
  then show ?case using 2 by (auto simp: word_less_nat_alt)
qed simp

declare hb_samples.simps [simp del]

primrec hb_atoms ::
  "nat \<Rightarrow> (u32 \<Rightarrow> bool) \<Rightarrow> u32 \<Rightarrow> u32 \<Rightarrow> u32 \<Rightarrow> u32 \<Rightarrow> 'a bdma \<Rightarrow> 'a hb_copy \<Rightarrow> 'a bdma \<times> 'a hb_copy \<times> bool"
where
  "hb_atoms 0 bad atom_count sample_count step first q c = (q, c, True)"
| "hb_atoms (Suc n) bad atom_count sample_count step first q c =
     (let free = q\<lparr>b_get := (b_get q + 1) AND BUNCH_FIFO_MASK\<rparr> in
      if hb_OBAtoms c < atom_count then
        let wanted = ((hb_OBAtoms c + first) mod HB_ATOMS = hb_AtomNo c);
            c = c\<lparr>hb_OBAtoms := hb_OBAtoms c + 1\<rparr>
        in if wanted then
             (case hb_samples bad (b_buf q) (unat (b_get q)) sample_count step c of
                (c, False) \<Rightarrow> (q, c, False)
              | (c, True) \<Rightarrow>
                  hb_atoms n bad atom_count sample_count step first free
                    (c\<lparr>hb_AtomNo := hb_atom_no (hb_slmt c),
                       hb_offset := hb_offset c mod ucast HBPP_ATOM_SAMPLES\<rparr>))
           else hb_atoms n bad atom_count sample_count step first free c
      else hb_atoms n bad atom_count sample_count step first free c)"

text \<open>A reader with an empty FIFO sleeps; each sleep has its interrupts and may end with a signal.\<close>

fun b_wait ::
  "nat \<Rightarrow> bool \<Rightarrow> (u32 list \<times> bool) list \<Rightarrow> 'a bdma \<Rightarrow> ('a bdma \<times> errno option) call" where
  "b_wait spa sig [] q =
     (if b_nonempty q then Ret (q, None) else if sig then Ret (q, Some ERESTARTSYS) else Hang)"
| "b_wait spa sig (s # ss) q =
     (if b_nonempty q then Ret (q, None) else if sig then Ret (q, Some ERESTARTSYS)
      else b_wait spa (snd s) ss (fold (b_interrupt spa) (fst s) q))"

text \<open>
  What a round of the loop meets: the interrupts since the last round, a pending signal, the sleeps for data,
  and, where it starts the controller again, the status register and what it shows after each sleep.
\<close>

record hb_round =
  hr_irqs :: "u32 list"
  hr_signal :: bool
  hr_sleeps :: "(u32 list \<times> bool) list"
  hr_status :: u32
  hr_sync :: "u32 list"

definition hb_restart :: "nat \<Rightarrow> hb_round \<Rightarrow> 'a bdma \<Rightarrow> ('a bdma \<times> errno option) call" where
  "hb_restart hz r q =
     (if \<not> b_transfer q \<and> b_remaining q \<noteq> 0 then
        call_bind (b_sync hz 0 (hr_sync r) (q\<lparr>b_status := hr_status r\<rparr>)) (\<lambda>(q, e).
          case e of
            Some err \<Rightarrow> Ret (q, Some err)
          | None \<Rightarrow>
              let q = b_get_csize q in
              if \<not> 0 <s b_csize q \<and> BUNCH_FIFO_ATOMS - 1 - b_len q = 0 then Ret (q, None)
              else Ret (b_command q, None))
      else Ret (q, None))"

type_synonym 'a hb_result = "('a bdma \<times> 'a hb_copy \<times> errno option) call"

fun hb_rounds ::
  "nat \<Rightarrow> (u32 \<Rightarrow> bool) \<Rightarrow> u32 \<Rightarrow> u32 \<Rightarrow> u32 \<Rightarrow> u32 \<Rightarrow> hb_round list \<Rightarrow> 'a bdma \<Rightarrow> 'a hb_copy
     \<Rightarrow> 'a hb_result" where
  "hb_rounds hz bad atom_count sample_count step first [] q c = Hang"
| "hb_rounds hz bad atom_count sample_count step first (r # rs) q c =
     call_bind (b_wait 1 (hr_signal r) (hr_sleeps r) (fold (b_interrupt 1) (hr_irqs r) q)) (\<lambda>(q, e).
       case e of
         Some err \<Rightarrow> Ret (q, c, Some err)
       | None \<Rightarrow>
           let fifo_atoms = unat (b_len q) in
           if fifo_atoms = 0 then Ret (q, c, Some EFAULT)
           else
             (case hb_atoms fifo_atoms bad atom_count sample_count step first q c of
                (q, c, False) \<Rightarrow> Ret (q, c, Some EFAULT)
              | (q, c, True) \<Rightarrow>
                  call_bind (hb_restart hz r q) (\<lambda>(q, e).
                    case e of
                      Some err \<Rightarrow> Ret (q, c, Some err)
                    | None \<Rightarrow>
                        if b_remaining q \<noteq> 0 \<or> b_nonempty q
                        then hb_rounds hz bad atom_count sample_count step first rs q c
                        else Ret (q, c, None))))"

text \<open>The status register when the transfer starts and ends, the first sleeps, the rounds, failing copies.\<close>

record hb_env =
  hx_status :: u32
  hx_sync :: "u32 list"
  hx_rounds :: "hb_round list"
  hx_last :: u32
  hx_bad :: "u32 \<Rightarrow> bool"

text \<open>
  The size of the first block is the one of before the wait for the output buffer. The result is the number
  of samples; what was copied and the time reached are in the variables of the loop.
\<close>

definition b_begin :: "u32 \<Rightarrow> u32 \<Rightarrow> 'a bdma \<Rightarrow> 'a bdma" where
  "b_begin status atom_count q =
     b_get_csize (b_flush (q\<lparr>b_status := status, b_overrun := False, b_transfer := False, b_remaining := atom_count\<rparr>))"

definition libera_dd_transfer_OBfifoToUser_DMA ::
  "nat \<Rightarrow> hb_env \<Rightarrow> u32 \<Rightarrow> u32 \<Rightarrow> u32 \<Rightarrow> u32 \<Rightarrow> u64 \<Rightarrow> 'a bdma \<Rightarrow> ('a bdma \<times> 'a hb_copy \<times> (errno + u32)) call"
where
  "libera_dd_transfer_OBfifoToUser_DMA hz env atom_count sample_count atom_offset step slmt q =
     (let first = hb_atom_no slmt;
          c = \<lparr>hb_OBAtoms = 0, hb_AtomNo = first, hb_offset = atom_offset, hb_written = 0, hb_slmt = slmt, hb_out = []\<rparr>
      in call_bind (b_sync hz 0 (hx_sync env) (b_begin (hx_status env) atom_count q)) (\<lambda>(q, e).
        case e of
          Some err \<Rightarrow> Ret (q, c, Inl err)
        | None \<Rightarrow>
            call_bind (hb_rounds hz (hx_bad env) atom_count sample_count step first (hx_rounds env) (b_command q) c)
              (\<lambda>(q, c, e).
                case e of
                  Some err \<Rightarrow> Ret (q, c, Inl err)
                | None \<Rightarrow>
                    let q = q\<lparr>b_status := hx_last env\<rparr> in
                    if BUNCH_OB_SIZE (b_status q) \<noteq> 0 then Ret (q, c, Inl EIO)
                    else if hb_OBAtoms c \<noteq> atom_count then Ret (q, c, Inl EFAULT)
                    else Ret (q, c, Inr (hb_written c)))))"

section \<open>Reading\<close>

text \<open>
  What a read meets: the sleep for the current time, the stamps of the sleep for the buffer to stop, the sleep
  for the DD interrupt, the transfer; \<open>HZ\<close>.
\<close>

record hbpp_env =
  he_ctime :: "bool \<times> wake list"
  he_stop :: "(fifo_sel \<times> u64) list"
  he_irq :: "bool \<times> wake list"
  he_xfer :: "hb_env"
  he_hz :: nat

type_synonym 'a hbpp_result = "(kernel \<times> bunch_local \<times> 'a bdma \<times> (errno + int) \<times> 'a list) call"

text \<open>
  The request in sample time: \<open>lmt\<close> counts samples, \<open>ts_mt\<close> machine periods. The last component is the error
  of the conversion; what was stored before it stays.
\<close>

definition hbpp_locate :: "u32 \<Rightarrow> bunch_local \<Rightarrow> (bunch_local \<times> errno option) option" where
  "hbpp_locate f loc =
     (let q = Qts loc;
          mt = lmt (lasttrig loc) + rel_offset loc div HBPP_MT_SAMPLES;
          q = q\<lparr>qU := (qU q)\<lparr>ts_mt := mt\<rparr>,
                qL := (qL q)\<lparr>lmt := HBPP_MT_SAMPLES * lmt (lasttrig loc) + rel_offset loc\<rparr>\<rparr>
      in case lmt2lst f mt (lasttrig loc) of
           None \<Rightarrow> None
         | Some (Inl err) \<Rightarrow> Some (loc\<lparr>Qts := q\<rparr>, Some err)
         | Some (Inr t) \<Rightarrow>
             let q = q\<lparr>qL := (qL q)\<lparr>lst := t\<rparr>, qU := (qU q)\<lparr>ts_st := lst2st t\<rparr>\<rparr>
             in Some (loc\<lparr>Qts := q, dd_tstamp := qU q\<rparr>, None))"

definition hbpp_next_request :: "u64 \<Rightarrow> u64 \<Rightarrow> bunch_local \<Rightarrow> bunch_local" where
  "hbpp_next_request slmt_HB HB_offset_samp loc =
     (let q = Qts loc in
      loc\<lparr>Qts := q\<lparr>qU := (qU q)\<lparr>ts_mt := ts_mt (qU q) + (slmt_HB + HB_offset_samp - lmt (qL q)) div HBPP_MT_SAMPLES\<rparr>,
                   qL := (qL q)\<lparr>lmt := lmt (qL q) + (slmt_HB + HB_offset_samp)\<rparr>\<rparr>\<rparr>)"

definition hbpp_read_data ::
  "hbpp_env \<Rightarrow> u32 \<Rightarrow> u64 \<Rightarrow> bunch_local \<Rightarrow> 'a bdma \<Rightarrow> kernel \<Rightarrow> 'a hbpp_result" where
  "hbpp_read_data env count HB_offset_samp loc q k =
     (let slmt_HB = lmt (qL (Qts loc)) - HB_offset_samp;
          atom_offset = ucast (slmt_HB mod HBPP_ATOM_SAMPLES);
          atom_start = hb_atom_no slmt_HB;
          sizeS = count div HBPP_SAMPLE_BYTES;
          sizeA = (sizeS + atom_offset) div ucast HBPP_ATOM_SAMPLES + 1
      in if sizeA = 0 then Ret (k, hbpp_next_request slmt_HB HB_offset_samp loc, q, Inr 0, [])
         else
           call_bind (getBlockedFromFIFO DDQ (fst (he_irq env)) (snd (he_irq env))
               (libera_dd_write_CBfifo_HBPP 0 atom_start 1 1 sizeA k)) (\<lambda>(k, r).
             case r of
               Inl e \<Rightarrow> Ret (k, loc, q, Inr 0, [])
             | Inr _ \<Rightarrow>
                 call_bind (libera_dd_transfer_OBfifoToUser_DMA (he_hz env) (he_xfer env) sizeA sizeS atom_offset 1
                     slmt_HB q) (\<lambda>(q, c, r).
                   let k = dd_irq_enable k in
                   case r of
                     Inl e \<Rightarrow> Ret (k, loc, q, Inl e, hb_out c)
                   | Inr OB_ret \<Rightarrow>
                       Ret (k, hbpp_next_request (hb_slmt c) HB_offset_samp loc, q,
                            Inr (sint (OB_ret * HBPP_SAMPLE_BYTES)), hb_out c))))"

definition libera_dd_read_HBPP ::
  "bool \<Rightarrow> hbpp_env \<Rightarrow> u32 \<Rightarrow> bunch_local \<Rightarrow> 'a bdma \<Rightarrow> kernel \<Rightarrow> 'a hbpp_result" where
  "libera_dd_read_HBPP sig env count loc q k =
     (let HB_offset_samp = HB_offset_lmt (event k) * HBPP_MT_SAMPLES in
      case mutex_lock_interruptible sig (sem (dd k)) of
        Interrupted \<Rightarrow> Ret (k, loc, q, Inl ERESTARTSYS, [])
      | Sleeps \<Rightarrow> Hang
      | Acquired \<Rightarrow>
          if HBPP_MAX_SAMPLES * HBPP_SAMPLE_BYTES < count then Ret (k, loc, q, Inl EINVAL, [])
          else if count mod HBPP_SAMPLE_BYTES \<noteq> 0 then Ret (k, loc, q, Inl EINVAL, [])
          else if rel_offset loc <s 0 \<or> ucast HB_ATOMS \<le>s rel_offset loc then Ret (k, loc, q, Inl EINVAL, [])
          else
            let loc = loc\<lparr>lasttrig := last_trigger k\<rparr> in
            call_bind (libera_get_CTIME (fst (he_ctime env)) (snd (he_ctime env)) k) (\<lambda>(k, r).
              case r of
                Inl e \<Rightarrow> Ret (k, loc, q, Inl e, [])
              | Inr ctime \<Rightarrow>
                  call_bind (hb_stop_wait (of_nat (he_hz env)) (he_stop env) (lasttrig loc) ctime k) (\<lambda>(k, e).
                    case e of
                      Some err \<Rightarrow> Ret (k, loc, q, Inl err, [])
                    | None \<Rightarrow>
                        (case hbpp_locate (flmcdHz k) loc of
                           None \<Rightarrow> Fault
                         | Some (loc, Some err) \<Rightarrow> Ret (k, loc, q, Inl err, [])
                         | Some (loc, None) \<Rightarrow> hbpp_read_data env count HB_offset_samp loc q k))))"

end
