(* ===== verification/Libera_Hbpp_Props.thy ===== *)
theory Libera_Hbpp_Props
  imports Libera_Hbpp Libera_Dd_Props
begin

text \<open>
  Properties of the hadron build: a read that succeeds gives the user exactly the samples of the board from the
  start of the request on, in order, as many as asked for; and what goes wrong in the waits.
\<close>

section \<open>The DMA FIFO as a list\<close>

definition bput :: "'a bdma \<Rightarrow> nat" where "bput q = unat (b_put q)"
definition bget :: "'a bdma \<Rightarrow> nat" where "bget q = unat (b_get q)"
definition blen :: "'a bdma \<Rightarrow> nat" where "blen q = (bput q + 16384 - bget q) mod 16384"

definition blist :: "'a bdma \<Rightarrow> 'a list" where
  "blist q = map (\<lambda>i. b_buf q ((bget q + i) mod 16384)) [0 ..< blen q]"

definition b_ok :: "'a bdma \<Rightarrow> bool" where "b_ok q \<longleftrightarrow> bput q < 16384 \<and> bget q < 16384"

lemma BUNCH_MASK: "BUNCH_FIFO_MASK = mask 14"
  by (simp add: BUNCH_FIFO_MASK_def BUNCH_FIFO_ATOMS_def mask_eq_exp_minus_1)

lemma length_blist [simp]: "length (blist q) = blen q"
  by (simp add: blist_def)

lemma blen_less: "blen q < 16384"
  by (simp add: blen_def)

lemma b_len_unat: "b_ok q \<Longrightarrow> unat (b_len q) = blen q"
proof -
  assume ok: "b_ok q"
  have "unat (b_put q + BUNCH_FIFO_ATOMS) = bput q + 16384"
    using ok by (simp add: BUNCH_FIFO_ATOMS_def unat_word_ariths b_ok_def bput_def)
  then have "unat (b_put q + BUNCH_FIFO_ATOMS - b_get q) = bput q + 16384 - bget q"
    using ok by (subst unat_sub_if') (simp_all add: b_ok_def bget_def)
  then show ?thesis by (simp add: b_len_def BUNCH_MASK unat_and_mask blen_def)
qed

lemma bput_eq: "b_ok q \<Longrightarrow> bput q = (bget q + blen q) mod 16384"
  by (simp add: blen_def b_ok_def mod_add_right_eq)

lemma b_nonempty_iff: "b_ok q \<Longrightarrow> b_nonempty q \<longleftrightarrow> blen q \<noteq> 0"
proof -
  assume ok: "b_ok q"
  have "bput q = bget q \<longleftrightarrow> blen q = 0" using bput_eq [OF ok] ok by (auto simp: b_ok_def blen_def)
  then show ?thesis by (auto simp: b_nonempty_def bput_def bget_def word_unat_eq_iff)
qed

section \<open>Size of a block\<close>

lemma BUNCH_OB_SIZE_less: "unat (BUNCH_OB_SIZE s) < 2048"
proof -
  have m: "push_bit 11 1 - 1 = (mask 11 :: u32)" by (simp add: mask_eq_exp_minus_1)
  show ?thesis by (simp only: BUNCH_OB_SIZE_def m unat_and_mask) simp
qed

definition block_fits :: "'a bdma \<Rightarrow> bool" where
  "block_fits q \<longleftrightarrow> unat (b_csize q) \<le> unat (b_remaining q) \<and> bput q + unat (b_csize q) \<le> 16384
     \<and> blen q + unat (b_csize q) \<le> 16383"

lemma b_get_csize_frame [simp]:
  "bput (b_get_csize q) = bput q" "bget (b_get_csize q) = bget q" "blen (b_get_csize q) = blen q"
  "b_ok (b_get_csize q) = b_ok q" "blist (b_get_csize q) = blist q" "b_remaining (b_get_csize q) = b_remaining q"
  "b_hw (b_get_csize q) = b_hw q" "b_transfer (b_get_csize q) = b_transfer q"
  by (simp_all add: b_get_csize_def Let_def bput_def bget_def blen_def b_ok_def blist_def)

lemma block_fits_new:
  assumes ok: "b_ok q" and r: "unat (b_remaining q) < 2 ^ 31"
  shows "block_fits (b_get_csize q)"
proof -
  have sl: "a <s b \<longleftrightarrow> unat a < unat b" if "unat a < 2 ^ 31" "unat b < 2 ^ 31" for a b :: s32
  proof -
    have "sint a = int (unat a)" "sint b = int (unat b)"
      using that by (auto intro!: sint_small simp del: of_nat_unat)
    then show ?thesis by (simp only: word_sless_alt of_nat_less_iff)
  qed
  let ?ob = "BUNCH_OB_SIZE (b_status q)"
  have t: "unat (b_tail q) = 16384 - bput q"
    using ok by (simp add: b_tail_def BUNCH_FIFO_ATOMS_def unat_sub_if' b_ok_def bput_def)
  have l: "unat (BUNCH_FIFO_ATOMS - 1 - b_len q) = 16383 - blen q"
    using b_len_unat [OF ok] blen_less [of q] by (simp add: BUNCH_FIFO_ATOMS_def unat_sub_if')
  define A where "A = (if b_remaining q <s BUNCH_BLOCK_ATOMS then b_remaining q else BUNCH_BLOCK_ATOMS)"
  define B where "B = (if b_tail q < ?ob then b_tail q else ?ob)"
  define C where "C = (if A < B then A else B)"
  have "unat A = min (unat (b_remaining q)) 512" using r by (simp add: A_def sl BUNCH_BLOCK_ATOMS_def)
  moreover have "unat B = min (16384 - bput q) (unat ?ob)" by (simp add: B_def word_less_nat_alt t)
  ultimately have c: "unat C = min (min (unat (b_remaining q)) 512) (min (16384 - bput q) (unat ?ob))"
    by (auto simp: C_def word_less_nat_alt min_def)
  then have "unat C < 2 ^ 31" by simp
  then have "BUNCH_FIFO_ATOMS - 1 - b_len q <s C \<longleftrightarrow> 16383 - blen q < unat C"
    using l by (subst sl) simp_all
  moreover have "b_csize (b_get_csize q) =
      (if BUNCH_FIFO_ATOMS - 1 - b_len q <s C then BUNCH_FIFO_ATOMS - 1 - b_len q else C)"
    by (simp add: b_get_csize_def Let_def C_def A_def B_def)
  ultimately have "unat (b_csize (b_get_csize q)) = min (16383 - blen q) (unat C)" using l by (simp add: min_def)
  then have "unat (b_csize (b_get_csize q)) \<le> 16383 - blen q" "unat (b_csize (b_get_csize q)) \<le> unat C"
    by simp_all
  moreover have "unat C \<le> unat (b_remaining q)" "unat C \<le> 16384 - bput q" using c by simp_all
  moreover have "bput q < 16384" using ok by (simp add: b_ok_def)
  ultimately show ?thesis using blen_less [of q] unfolding block_fits_def b_get_csize_frame by linarith
qed

section \<open>A block arrives\<close>

lemma put_samples_at:
  "put_samples i xs buf j = (if i \<le> j \<and> j < i + length xs then xs ! (j - i) else buf j)"
proof (induction xs arbitrary: i buf)
  case (Cons a xs)
  show ?case
    by (simp only: put_samples.simps Cons) (auto simp: nth_Cons' le_Suc_eq less_Suc_eq)
qed auto

lemma blist_take_block:
  assumes ok: "b_ok q" and n: "length xs = unat (b_csize q)" and b: "block_fits q"
  defines "q' \<equiv> q\<lparr>b_buf := put_samples (bput q) xs (b_buf q), b_put := (b_put q + b_csize q) AND BUNCH_FIFO_MASK\<rparr>"
  shows "b_ok q'" "blen q' = blen q + length xs" "blist q' = blist q @ xs"
proof -
  have p: "bput q' = (bput q + length xs) mod 16384"
    using ok b n by (simp add: q'_def bput_def BUNCH_MASK unat_and_mask unat_word_ariths block_fits_def b_ok_def)
  have g: "bget q' = bget q" by (simp add: q'_def bget_def)
  have buf: "b_buf q' = put_samples (bput q) xs (b_buf q)" by (simp add: q'_def)
  show ok': "b_ok q'" using ok p g by (simp add: b_ok_def)
  have small: "blen q + length xs < 16384" using b n by (simp add: block_fits_def)
  show l: "blen q' = blen q + length xs"
  proof (rule ring_offset_unique [where a = "bget q" and N = 16384])
    show "(bget q + blen q') mod 16384 = (bget q + (blen q + length xs)) mod 16384"
      using bput_eq [OF ok'] g p bput_eq [OF ok] by (metis add.assoc mod_add_left_eq)
  qed (use small blen_less [of q'] in simp_all)
  have put: "(bget q + blen q) mod 16384 = bput q" using bput_eq [OF ok] by simp
  have nowrap: "bput q + length xs \<le> 16384" using b n by (simp add: block_fits_def)
  have slot: "(bget q + (blen q + j)) mod 16384 = bput q + j" if "j < length xs" for j
  proof -
    have "(bget q + (blen q + j)) mod 16384 = (bput q + j) mod 16384" using put by (metis add.assoc mod_add_left_eq)
    then show ?thesis using nowrap that by simp
  qed
  show "blist q' = blist q @ xs"
  proof (rule nth_equalityI)
    fix i
    assume "i < length (blist q')"
    then have i: "i < blen q + length xs" by (simp add: l)
    show "blist q' ! i = (blist q @ xs) ! i"
    proof (cases "i < blen q")
      case True
      have "(bget q + i) mod 16384 \<noteq> bput q + j" if "j < length xs" for j
      proof
        assume "(bget q + i) mod 16384 = bput q + j"
        then have "(bget q + i) mod 16384 = (bget q + (blen q + j)) mod 16384" using slot [OF that] by simp
        then have "i = blen q + j" by (rule ring_offset_unique) (use True small that in simp_all)
        then show False using True by simp
      qed
      then have "\<not> (bput q \<le> (bget q + i) mod 16384 \<and> (bget q + i) mod 16384 < bput q + length xs)"
        by (metis add_less_cancel_left le_Suc_ex)
      then have "b_buf q' ((bget q + i) mod 16384) = b_buf q ((bget q + i) mod 16384)"
        by (simp only: buf put_samples_at if_False)
      then show ?thesis using True i by (simp add: l blist_def g nth_append)
    next
      case False
      define j where "j = i - blen q"
      have j: "i = blen q + j" "j < length xs" using False i by (auto simp: j_def)
      have "blist q' ! i = put_samples (bput q) xs (b_buf q) (bput q + j)"
        using i slot [OF j(2)] j(1) by (simp add: l blist_def g buf)
      then show ?thesis using j by (simp add: put_samples_at nth_append)
    qed
  qed (simp add: l)
qed

section \<open>What the controller moved\<close>

text \<open>
  \<open>S\<close> is what the board puts out for a request of \<open>a\<close> atoms, \<open>n\<close> the number of atoms the reader has freed: the
  FIFO holds the next ones, and the rest is still to come.
\<close>

definition moved :: "'a list \<Rightarrow> nat \<Rightarrow> nat \<Rightarrow> 'a bdma \<Rightarrow> bool" where
  "moved S a n q \<longleftrightarrow> b_ok q \<and> block_fits q \<and> a < 2 ^ 31 \<and> a \<le> length S
     \<and> n + blen q + unat (b_remaining q) = a \<and> b_hw q = drop (a - unat (b_remaining q)) S
     \<and> blist q = take (blen q) (drop n S)"

lemma moved_get_csize:
  assumes "b_ok q" "a < 2 ^ 31" "a \<le> length S" "n + blen q + unat (b_remaining q) = a"
    "b_hw q = drop (a - unat (b_remaining q)) S" "blist q = take (blen q) (drop n S)"
  shows "moved S a n (b_get_csize q)"
  using assms block_fits_new [of q] by (simp add: moved_def)

lemma b_simps [simp]:
  "bput (q\<lparr>b_status := s\<rparr>) = bput q" "bget (q\<lparr>b_status := s\<rparr>) = bget q" "blen (q\<lparr>b_status := s\<rparr>) = blen q"
  "bput (q\<lparr>b_overrun := v\<rparr>) = bput q" "bget (q\<lparr>b_overrun := v\<rparr>) = bget q" "blen (q\<lparr>b_overrun := v\<rparr>) = blen q"
  "bput (q\<lparr>b_transfer := v\<rparr>) = bput q" "bget (q\<lparr>b_transfer := v\<rparr>) = bget q" "blen (q\<lparr>b_transfer := v\<rparr>) = blen q"
  "bput (q\<lparr>b_remaining := m\<rparr>) = bput q" "bget (q\<lparr>b_remaining := m\<rparr>) = bget q" "blen (q\<lparr>b_remaining := m\<rparr>) = blen q"
  "bput (q\<lparr>b_hw := h\<rparr>) = bput q" "bget (q\<lparr>b_hw := h\<rparr>) = bget q" "blen (q\<lparr>b_hw := h\<rparr>) = blen q"
  by (simp_all add: bput_def bget_def blen_def)

lemma b_more_simps [simp]:
  "b_ok (q\<lparr>b_status := s\<rparr>) = b_ok q" "b_ok (q\<lparr>b_overrun := v\<rparr>) = b_ok q" "b_ok (q\<lparr>b_transfer := v\<rparr>) = b_ok q"
  "b_ok (q\<lparr>b_remaining := m\<rparr>) = b_ok q" "b_ok (q\<lparr>b_hw := h\<rparr>) = b_ok q"
  "blist (q\<lparr>b_status := s\<rparr>) = blist q" "blist (q\<lparr>b_overrun := v\<rparr>) = blist q" "blist (q\<lparr>b_transfer := v\<rparr>) = blist q"
  "blist (q\<lparr>b_remaining := m\<rparr>) = blist q" "blist (q\<lparr>b_hw := h\<rparr>) = blist q"
  by (simp_all add: b_ok_def blist_def)

lemma moved_frame [simp]:
  "moved S a n (q\<lparr>b_status := s\<rparr>) = moved S a n q" "moved S a n (q\<lparr>b_overrun := v\<rparr>) = moved S a n q"
  "moved S a n (q\<lparr>b_transfer := v\<rparr>) = moved S a n q"
  by (simp_all add: moved_def block_fits_def)

lemma moved_interrupt:
  assumes m: "moved S a n q"
  shows "moved S a n (b_interrupt 1 st q)"
proof (cases "b_transfer q")
  case True
  let ?c = "unat (b_csize q)"
  let ?xs = "take ?c (b_hw q)"
  have ok: "b_ok q" and fits: "block_fits q" using m by (simp_all add: moved_def)
  have c: "?c \<le> unat (b_remaining q)" using fits by (simp add: block_fits_def)
  have moved_so_far: "a - unat (b_remaining q) = n + blen q" using m by (auto simp: moved_def)
  have len: "length ?xs = ?c" using m c by (auto simp: moved_def)
  define q1 where "q1 = q\<lparr>b_buf := put_samples (bput q) ?xs (b_buf q), b_put := (b_put q + b_csize q) AND BUNCH_FIFO_MASK\<rparr>"
  note blk = blist_take_block [OF ok len fits, folded q1_def]
  define q2 where "q2 = q1\<lparr>b_hw := drop ?c (b_hw q), b_status := st, b_overrun := b_overrun q \<or> DD_OB_OVERRUN st \<noteq> 0,
    b_remaining := b_remaining q - b_csize q\<rparr>"
  have rem: "unat (b_remaining q - b_csize q) = unat (b_remaining q) - ?c" using c by (simp add: unat_sub_if')
  have "b_put q = b_get q" if "(b_put q + b_csize q) AND BUNCH_FIFO_MASK = b_get q"
  proof -
    have "bput q1 = bget q1" using that by (simp add: q1_def bput_def bget_def)
    then have "blen q1 = 0" using blk(1) by (simp add: blen_def b_ok_def)
    then have "blen q = 0" using blk(2) by simp
    then show ?thesis using bput_eq [OF ok] ok by (simp add: b_ok_def bput_def bget_def word_unat_eq_iff)
  qed
  note put = this
  define qa where "qa = q\<lparr>b_buf := put_samples (bput q) ?xs (b_buf q), b_hw := drop ?c (b_hw q), b_status := st\<rparr>"
  define qb where "qb = (if DD_OB_OVERRUN st \<noteq> 0 then qa\<lparr>b_overrun := True\<rparr> else qa)"
  define qc where "qc = qb\<lparr>b_remaining := b_remaining qb - b_csize qb\<rparr>"
  have eq: "(if (b_put qc + b_csize qc) AND BUNCH_FIFO_MASK = b_get qc then qc
      else qc\<lparr>b_put := (b_put qc + b_csize qc) AND BUNCH_FIFO_MASK\<rparr>) = q2"
    using put by (cases q) (auto simp: qc_def qb_def qa_def q2_def q1_def)
  have "b_interrupt 1 st q = (let q = b_get_csize (if (b_put qc + b_csize qc) AND BUNCH_FIFO_MASK = b_get qc then qc
      else qc\<lparr>b_put := (b_put qc + b_csize qc) AND BUNCH_FIFO_MASK\<rparr>)
    in if 0 <s b_csize q then b_command q else q\<lparr>b_transfer := False\<rparr>)"
    by (simp only: b_interrupt_def True Let_def not_True_eq_False if_False mult_1_right qc_def qb_def qa_def bput_def)
  then have "b_interrupt 1 st q = (let q = b_get_csize q2 in if 0 <s b_csize q then b_command q else q\<lparr>b_transfer := False\<rparr>)"
    unfolding eq .
  moreover have "moved S a n (b_get_csize q2)"
  proof (rule moved_get_csize)
    show "b_ok q2" using blk(1) by (simp add: q2_def)
    show "n + blen q2 + unat (b_remaining q2) = a" using m c blk(2) len by (simp add: q2_def rem moved_def)
    show "b_hw q2 = drop (a - unat (b_remaining q2)) S" using m c by (simp add: q2_def rem moved_def add.commute)
    show "blist q2 = take (blen q2) (drop n S)"
      using m blk(2,3) len moved_so_far by (simp add: q2_def moved_def take_add add.commute)
  qed (use m in \<open>simp_all add: moved_def\<close>)
  ultimately show ?thesis by (simp add: Let_def b_command_def)
next
  case False
  then show ?thesis using m by (simp add: b_interrupt_def)
qed

lemma moved_interrupts: "moved S a n q \<Longrightarrow> moved S a n (fold (b_interrupt 1) is q)"
  by (induction "is" arbitrary: q) (simp_all add: moved_interrupt del: One_nat_def)

lemma moved_free:
  assumes m: "moved S a n q" and l: "0 < blen q"
  defines "q' \<equiv> q\<lparr>b_get := (b_get q + 1) AND BUNCH_FIFO_MASK\<rparr>"
  shows "moved S a (Suc n) q'" "blen q' = blen q - 1" "b_buf q (bget q) = S ! n"
proof -
  have ok: "b_ok q" using m by (simp add: moved_def)
  have p: "bput q' = bput q" by (simp add: q'_def bput_def)
  have g: "bget q' = (bget q + 1) mod 16384"
    using ok by (simp add: q'_def bget_def BUNCH_MASK unat_and_mask unat_word_ariths b_ok_def)
  have ok': "b_ok q'" using ok p g by (simp add: b_ok_def)
  show l': "blen q' = blen q - 1"
  proof (rule ring_offset_unique [where a = "bget q + 1" and N = 16384])
    have "(bget q + 1 + blen q') mod 16384 = (bget q' + blen q') mod 16384" by (simp add: g mod_add_left_eq)
    also have "\<dots> = (bget q + blen q) mod 16384" using bput_eq [OF ok] bput_eq [OF ok'] p by simp
    finally show "(bget q + 1 + blen q') mod 16384 = (bget q + 1 + (blen q - 1)) mod 16384" using l by simp
  qed (use blen_less [of q'] blen_less [of q] in simp_all)
  have b: "b_buf q' = b_buf q" by (simp add: q'_def)
  have at: "b_buf q ((bget q + i) mod 16384) = S ! (n + i)" if "i < blen q" for i
  proof -
    have "blist q ! i = take (blen q) (drop n S) ! i" using m by (simp add: moved_def)
    then show ?thesis using that m by (simp add: blist_def moved_def)
  qed
  show "b_buf q (bget q) = S ! n" using at [of 0] l ok by (simp add: b_ok_def)
  have "blist q' = take (blen q') (drop (Suc n) S)"
  proof (rule nth_equalityI)
    show "length (blist q') = length (take (blen q') (drop (Suc n) S))" using m l l' by (auto simp: moved_def)
    fix i
    assume "i < length (blist q')"
    then have i: "Suc i < blen q" and i': "i < blen q - Suc 0" using l' by simp_all
    have "b_buf q' ((bget q' + i) mod 16384) = b_buf q ((bget q + Suc i) mod 16384)"
      by (simp add: b g mod_add_left_eq)
    then show "blist q' ! i = take (blen q') (drop (Suc n) S) ! i"
      using at [OF i] i i' l' m by (simp add: blist_def moved_def)
  qed
  then show "moved S a (Suc n) q'"
    using m l l' ok' p by (auto simp: moved_def block_fits_def q'_def)
qed

section \<open>What the reader copied\<close>

text \<open>After \<open>i\<close> atoms of a request for \<open>n\<close> samples from the time \<open>t\<close> on.\<close>

definition copied :: "'a list \<Rightarrow> nat \<Rightarrow> u64 \<Rightarrow> nat \<Rightarrow> 'a hb_copy \<Rightarrow> bool" where
  "copied S n t i c \<longleftrightarrow> hb_OBAtoms c = of_nat i \<and> hb_offset c = 0 \<and> hb_written c = of_nat (min i n)
     \<and> hb_out c = take (min i n) S \<and> hb_slmt c = t + of_nat (min i n) \<and> hb_AtomNo c = hb_atom_no (hb_slmt c)"

lemma hb_samples_one:
  "hb_offset c = 0 \<Longrightarrow> hb_samples bad buf slot n 1 c =
    (if hb_written c < n then
       if bad (hb_written c) then (c, False)
       else (c\<lparr>hb_out := hb_out c @ [buf slot], hb_written := hb_written c + 1, hb_offset := 1,
               hb_slmt := hb_slmt c + 1\<rparr>, True)
     else (c, True))"
  by (simp add: hb_samples.simps [of bad buf slot n 1] HBPP_ATOM_SAMPLES_def)

lemma hb_atom_no_add: "i < 2 ^ 31 \<Longrightarrow> (of_nat i + hb_atom_no t) mod HB_ATOMS = hb_atom_no (t + of_nat i)"
proof -
  assume i: "i < 2 ^ 31"
  have h: "unat (hb_atom_no x) = unat x mod 33554432" for x
  proof -
    have "unat x mod 33554432 < 4294967296" by (rule order_less_trans [OF mod_less_divisor]) simp_all
    then show ?thesis
      by (simp add: hb_atom_no_def HBPP_ATOM_SAMPLES_def HB_ATOMS_def unsigned_ucast_eq unat_mod take_bit_nat_eq_self)
  qed
  have "unat ((of_nat i :: u32) + hb_atom_no t) = i + unat t mod 33554432"
    using i order_less_trans [OF mod_less_divisor, of 33554432 33554433 "unat t"]
    by (simp add: unat_word_ariths h unat_of_nat take_bit_nat_eq_self)
  then have "unat ((of_nat i + hb_atom_no t) mod HB_ATOMS) = (i + unat t) mod 33554432"
    by (simp add: unat_mod HB_ATOMS_def mod_add_right_eq)
  moreover have "unat (t + of_nat i) mod 33554432 = (i + unat t) mod 33554432"
  proof -
    have "unat (of_nat i :: u64) = i" using i by (simp add: unat_of_nat take_bit_nat_eq_self)
    then have "unat (t + of_nat i) = (unat t + i) mod 2 ^ 64" by (simp only: unat_word_ariths) simp
    moreover have "(33554432 :: nat) dvd 2 ^ 64" by simp
    ultimately have "unat (t + of_nat i) mod 33554432 = (unat t + i) mod 33554432" by (simp only: mod_mod_cancel)
    then show ?thesis by (simp add: add.commute)
  qed
  ultimately show ?thesis by (simp add: word_unat_eq_iff h)
qed

lemma copied_wanted:
  assumes c: "copied S n t i c" and i: "i \<le> n" "n < 2 ^ 30"
  shows "(hb_OBAtoms c + hb_atom_no t) mod HB_ATOMS = hb_AtomNo c"
  using c i hb_atom_no_add [of i t] by (simp add: copied_def min_absorb1)

lemma copied_step:
  assumes c: "copied S n t i c" and i: "i \<le> n" "n < 2 ^ 30" "Suc n \<le> length S" and b: "buf slot = S ! i"
    and s: "hb_samples bad buf slot (of_nat n) 1 (c\<lparr>hb_OBAtoms := hb_OBAtoms c + 1\<rparr>) = (c', True)"
  shows "copied S n t (Suc i) (c'\<lparr>hb_AtomNo := hb_atom_no (hb_slmt c'), hb_offset := hb_offset c' mod ucast HBPP_ATOM_SAMPLES\<rparr>)"
proof -
  have w: "hb_written c < of_nat n \<longleftrightarrow> i < n"
    using c i by (simp add: copied_def min_absorb1 word_less_nat_alt unat_of_nat take_bit_nat_eq_self)
  have one: "x mod 1 = 0" for x :: u32 by simp
  show ?thesis
  proof (cases "i < n")
    case True
    then have m: "min (Suc i) n = Suc i" "min i n = i" by simp_all
    have "c' = c\<lparr>hb_OBAtoms := hb_OBAtoms c + 1, hb_out := hb_out c @ [buf slot], hb_written := hb_written c + 1,
        hb_offset := 1, hb_slmt := hb_slmt c + 1\<rparr>"
      using s c w True by (cases c) (simp add: hb_samples_one copied_def split: if_splits)
    then show ?thesis
      using c i True b by (simp add: copied_def m HBPP_ATOM_SAMPLES_def take_Suc_conv_app_nth add.commute)
  next
    case False
    then have m: "min (Suc i) n = n" "min i n = n" using i by simp_all
    have "c' = c\<lparr>hb_OBAtoms := hb_OBAtoms c + 1\<rparr>" using s c w False by (simp add: hb_samples_one copied_def)
    then show ?thesis using c i False by (simp add: copied_def m HBPP_ATOM_SAMPLES_def add.commute)
  qed
qed

lemma hb_atoms_deliver:
  assumes "moved S (Suc n) i q" "copied S n t i c" "m \<le> blen q" "n < 2 ^ 30"
    "hb_atoms m bad (of_nat (Suc n)) (of_nat n) 1 (hb_atom_no t) q c = (q', c', True)"
  shows "moved S (Suc n) (i + m) q' \<and> copied S n t (i + m) c' \<and> blen q' = blen q - m"
  using assms
proof (induction m arbitrary: i q c)
  case (Suc m)
  have i: "i \<le> n" "Suc n \<le> length S" and l: "0 < blen q" using Suc.prems by (auto simp: moved_def)
  define free where "free = q\<lparr>b_get := (b_get q + 1) AND BUNCH_FIFO_MASK\<rparr>"
  note f = moved_free [OF Suc.prems(1) l, folded free_def]
  have "hb_OBAtoms c = of_nat i" using Suc.prems(2) by (simp add: copied_def)
  then have o: "hb_OBAtoms c < of_nat (Suc n)"
    using i(1) Suc.prems(4) by (simp add: word_less_nat_alt unat_of_nat take_bit_nat_eq_self del: of_nat_Suc)
  have w: "(hb_OBAtoms c + hb_atom_no t) mod HB_ATOMS = hb_AtomNo c"
    by (rule copied_wanted [OF Suc.prems(2) i(1) Suc.prems(4)])
  obtain c1 where s: "hb_samples bad (b_buf q) (unat (b_get q)) (of_nat n) 1 (c\<lparr>hb_OBAtoms := hb_OBAtoms c + 1\<rparr>) = (c1, True)"
    and r: "hb_atoms m bad (of_nat (Suc n)) (of_nat n) 1 (hb_atom_no t) free
      (c1\<lparr>hb_AtomNo := hb_atom_no (hb_slmt c1), hb_offset := hb_offset c1 mod ucast HBPP_ATOM_SAMPLES\<rparr>) = (q', c', True)"
    using Suc.prems(5) o w by (auto simp: Let_def free_def simp del: of_nat_Suc split: prod.splits bool.splits)
  have b: "b_buf q (unat (b_get q)) = S ! i" using f(3) by (simp add: bget_def)
  note c1 = copied_step [OF Suc.prems(2) i(1) Suc.prems(4) i(2) b s]
  show ?case using Suc.IH [OF f(1) c1 _ Suc.prems(4) r] f(2) Suc.prems(3) by simp
qed simp

lemma moved_wait: "b_wait 1 sig ss q = Ret (q', e) \<Longrightarrow> moved S a n q \<Longrightarrow> moved S a n q'"
  by (induction "1 :: nat" sig ss q rule: b_wait.induct)
     (auto split: if_splits simp: moved_interrupts simp del: One_nat_def)

lemma moved_sync: "b_sync hz w sts q = Ret (q', e) \<Longrightarrow> moved S a n q \<Longrightarrow> moved S a n q'"
proof (induction hz w sts q rule: b_sync.induct)
  case (1 hz w sts q)
  show ?case using 1 by (cases sts) (auto simp: b_sync.simps [of hz w _ q] Let_def split: if_splits)
qed

lemma moved_restart:
  assumes "hb_restart hz r q = Ret (q', e)" "moved S a n q"
  shows "moved S a n q'"
proof -
  have g: "moved S a n (b_get_csize x)" if "moved S a n x" for x :: "'a bdma"
    using that by (intro moved_get_csize) (simp_all add: moved_def)
  show ?thesis
  proof (cases "\<not> b_transfer q \<and> b_remaining q \<noteq> 0")
    case True
    obtain q1 e1 where s: "b_sync hz 0 (hr_sync r) (q\<lparr>b_status := hr_status r\<rparr>) = Ret (q1, e1)"
      using assms(1) True by (auto simp: hb_restart_def call_bind_Ret_iff)
    have m: "moved S a n q1" using moved_sync [OF s] assms(2) by simp
    show ?thesis
      using assms(1) True s m g [OF m]
      by (cases e1) (auto simp: hb_restart_def Let_def b_command_def split: if_splits)
  next
    case False
    then show ?thesis using assms by (auto simp: hb_restart_def)
  qed
qed

lemma hb_rounds_deliver:
  assumes "moved S (Suc n) i q" "copied S n t i c" "n < 2 ^ 30"
    "hb_rounds hz bad (of_nat (Suc n)) (of_nat n) 1 (hb_atom_no t) rs q c = Ret (q', c', None)"
  shows "copied S n t (Suc n) c'"
  using assms
proof (induction rs arbitrary: i q c)
  case (Cons r rs)
  let ?q1 = "fold (b_interrupt 1) (hr_irqs r) q"
  obtain q2 e where w: "b_wait 1 (hr_signal r) (hr_sleeps r) ?q1 = Ret (q2, e)"
    using Cons.prems(4) by (auto simp: call_bind_Ret_iff simp del: One_nat_def)
  have e: "e = None" using Cons.prems(4) w by (cases e) auto
  have m2: "moved S (Suc n) i q2" by (rule moved_wait [OF w moved_interrupts [OF Cons.prems(1)]])
  then have len: "unat (b_len q2) = blen q2" by (simp add: b_len_unat moved_def)
  obtain q3 c3 f where a: "hb_atoms (blen q2) bad (of_nat (Suc n)) (of_nat n) 1 (hb_atom_no t) q2 c = (q3, c3, f)"
    by (metis prod_cases3)
  have f: "f" using Cons.prems(4) w e len a by (cases f) (auto simp: Let_def split: if_splits simp del: of_nat_Suc One_nat_def)
  have d: "moved S (Suc n) (i + blen q2) q3" "copied S n t (i + blen q2) c3"
    using hb_atoms_deliver [OF m2 Cons.prems(2) le_refl Cons.prems(3)] a f by auto
  obtain q4 e4 where s: "hb_restart hz r q3 = Ret (q4, e4)"
    using Cons.prems(4) w e len a f by (auto simp: Let_def call_bind_Ret_iff split: if_splits simp del: of_nat_Suc One_nat_def)
  have e4: "e4 = None"
    using Cons.prems(4) w e len a f s by (cases e4) (auto simp: Let_def split: if_splits simp del: of_nat_Suc One_nat_def)
  have m4: "moved S (Suc n) (i + blen q2) q4" by (rule moved_restart [OF s d(1)])
  show ?case
  proof (cases "b_remaining q4 \<noteq> 0 \<or> b_nonempty q4")
    case True
    then have "hb_rounds hz bad (of_nat (Suc n)) (of_nat n) 1 (hb_atom_no t) rs q4 c3 = Ret (q', c', None)"
      using Cons.prems(4) w e len a f s e4 by (auto simp: Let_def split: if_splits simp del: of_nat_Suc One_nat_def)
    then show ?thesis by (rule Cons.IH [OF m4 d(2) Cons.prems(3)])
  next
    case False
    then have "c3 = c'"
      using Cons.prems(4) w e len a f s e4 by (auto simp: Let_def split: if_splits simp del: of_nat_Suc One_nat_def)
    moreover have "i + blen q2 = Suc n" using m4 False b_nonempty_iff [of q4] by (auto simp: moved_def)
    ultimately show ?thesis using d(2) by simp
  qed
qed simp

section \<open>A read\<close>

lemma transfer_delivers:
  assumes "libera_dd_transfer_OBfifoToUser_DMA hz env (of_nat (Suc n)) (of_nat n) 0 1 t q = Ret (q', c, Inr w)"
    "n < 2 ^ 30" "n < length (b_hw q)"
  shows "w = of_nat n \<and> hb_out c = take n (b_hw q) \<and> hb_slmt c = t + of_nat n"
proof -
  let ?S = "b_hw q" and ?a = "of_nat (Suc n) :: u32"
  define c0 where "c0 = \<lparr>hb_OBAtoms = 0, hb_AtomNo = hb_atom_no t, hb_offset = 0, hb_written = 0, hb_slmt = t,
    hb_out = [] :: 'a list\<rparr>"
  have a: "unat ?a = Suc n" using assms(2) by (simp add: unat_of_nat take_bit_nat_eq_self del: of_nat_Suc)
  have m0: "moved ?S (Suc n) 0 (b_begin (hx_status env) ?a q)"
    unfolding b_begin_def
    by (rule moved_get_csize)
       (use assms(2,3) a in \<open>simp_all add: b_ok_def b_flush_def bput_def bget_def blen_def blist_def\<close>)
  have k0: "copied ?S n t 0 c0" by (simp add: copied_def c0_def)
  obtain q1 e where s: "b_sync hz 0 (hx_sync env) (b_begin (hx_status env) ?a q) = Ret (q1, e)"
    using assms(1) by (auto simp: libera_dd_transfer_OBfifoToUser_DMA_def Let_def call_bind_Ret_iff simp del: of_nat_Suc)
  have e: "e = None"
    using assms(1) s by (cases e) (auto simp: libera_dd_transfer_OBfifoToUser_DMA_def Let_def simp del: of_nat_Suc)
  have m1: "moved ?S (Suc n) 0 (b_command q1)" using moved_sync [OF s m0] by (simp add: b_command_def)
  obtain q2 c2 e2 where r: "hb_rounds hz (hx_bad env) ?a (of_nat n) 1 (hb_atom_no t) (hx_rounds env) (b_command q1) c0 = Ret (q2, c2, e2)"
    using assms(1) s e by (auto simp: libera_dd_transfer_OBfifoToUser_DMA_def c0_def Let_def call_bind_Ret_iff simp del: of_nat_Suc)
  have e2: "e2 = None"
    using assms(1) s e r by (cases e2) (auto simp: libera_dd_transfer_OBfifoToUser_DMA_def c0_def Let_def simp del: of_nat_Suc)
  have "w = hb_written c2" "c = c2"
    using assms(1) s e r e2
    by (auto simp: libera_dd_transfer_OBfifoToUser_DMA_def c0_def Let_def simp del: of_nat_Suc split: if_splits)
  then show ?thesis
    using hb_rounds_deliver [OF m1 k0 assms(2) r [unfolded e2]] by (simp add: copied_def)
qed

lemma hbpp_read_data_delivers:
  assumes "hbpp_read_data env count HB loc q k = Ret (k', loc', q', Inr r, out)"
    "unat count \<le> 2 ^ 24" "unat count mod 8 = 0" "unat count div 8 < length (b_hw q)"
  shows "r = 0 \<and> out = [] \<or> r = int (unat count) \<and> out = take (unat count div 8) (b_hw q)"
proof -
  let ?n = "unat count div 8" and ?t = "lmt (qL (Qts loc)) - HB"
  have n: "?n \<le> 2 ^ 21" using assms(2) by simp
  have u: "unat (count div 8) = ?n" by (simp add: unat_div)
  have sS: "count div HBPP_SAMPLE_BYTES = of_nat ?n"
    using u n by (simp add: HBPP_SAMPLE_BYTES_def word_unat_eq_iff unat_of_nat take_bit_nat_eq_self)
  have off: "(ucast (?t mod HBPP_ATOM_SAMPLES) :: u32) = 0" by (simp add: HBPP_ATOM_SAMPLES_def)
  have sA: "(of_nat ?n + 0) div ucast HBPP_ATOM_SAMPLES + 1 = (of_nat (Suc ?n) :: u32)"
    by (simp add: HBPP_ATOM_SAMPLES_def add.commute)
  have "unat (of_nat (Suc ?n) :: u32) = Suc ?n" using n by (simp add: unat_of_nat take_bit_nat_eq_self del: of_nat_Suc)
  then have nz: "(of_nat (Suc ?n) :: u32) \<noteq> 0" by (metis nat.distinct(1) unat_0)
  let ?k = "libera_dd_write_CBfifo_HBPP 0 (hb_atom_no ?t) 1 1 (of_nat (Suc ?n)) k"
  obtain k1 i where g: "getBlockedFromFIFO DDQ (fst (he_irq env)) (snd (he_irq env)) ?k = Ret (k1, i)"
    using assms(1) nz unfolding hbpp_read_data_def Let_def sS off sA by (auto simp: call_bind_Ret_iff simp del: of_nat_Suc)
  show ?thesis
  proof (cases i)
    case (Inl x)
    then show ?thesis
      using assms(1) nz g unfolding hbpp_read_data_def Let_def sS off sA by (auto simp del: of_nat_Suc)
  next
    case (Inr x)
    obtain q1 c y where t: "libera_dd_transfer_OBfifoToUser_DMA (he_hz env) (he_xfer env) (of_nat (Suc ?n)) (of_nat ?n) 0 1 ?t q
        = Ret (q1, c, y)"
      using assms(1) nz g Inr unfolding hbpp_read_data_def Let_def sS off sA
      by (auto simp: call_bind_Ret_iff simp del: of_nat_Suc)
    obtain w where w: "y = Inr w" "r = sint (w * HBPP_SAMPLE_BYTES)" "out = hb_out c"
      using assms(1) nz g Inr t unfolding hbpp_read_data_def Let_def sS off sA
      by (cases y) (auto simp del: of_nat_Suc)
    have f: "w = of_nat ?n" "hb_out c = take ?n (b_hw q)"
      using transfer_delivers [OF t [unfolded w(1)]] n assms(4) by simp_all
    have "?n * 8 = unat count" using assms(3) by presburger
    then have "unat (w * HBPP_SAMPLE_BYTES) = unat count"
      using n by (simp add: f HBPP_SAMPLE_BYTES_def unat_word_ariths unat_of_nat take_bit_nat_eq_self)
    then have "r = int (unat count)"
      using sint_small [of "w * HBPP_SAMPLE_BYTES"] assms(2) w(2) by simp
    then show ?thesis using w(3) f(2) by simp
  qed
qed


definition hbpp_bdma :: "int bdma" where
  "hbpp_bdma = \<lparr>b_buf = (\<lambda>_. 0), b_put = 0, b_get = 0, b_csize = 0, b_remaining = 0, b_status = 0, b_overrun = False,
     b_hw = [10, 20, 30], b_transfer = False\<rparr>"

definition hbpp_xfer :: hb_env where
  "hbpp_xfer = \<lparr>hx_status = 3, hx_sync = [],
     hx_rounds = [\<lparr>hr_irqs = [0], hr_signal = False, hr_sleeps = [], hr_status = 0, hr_sync = []\<rparr>],
     hx_last = 0, hx_bad = (\<lambda>_. False)\<rparr>"

definition hbpp_read_env :: hbpp_env where
  "hbpp_read_env = \<lparr>he_ctime = (False, []), he_stop = [], he_irq = (False, []), he_xfer = hbpp_xfer, he_hz = 100\<rparr>"

definition hbpp_loc :: bunch_local where
  "hbpp_loc = \<lparr>dec = 1, Qts = Qts fresh_dd_local, dd_tstamp = zero_timestamp, rel_offset = 0,
     lasttrig = \<lparr>lst = 0, lmt = 0\<rparr>, arm_lmt = 0, trig_position = 0\<rparr>"

lemma hbpp_transfer_example:
  "(case libera_dd_transfer_OBfifoToUser_DMA 100 hbpp_xfer 3 2 0 1 0 hbpp_bdma of Ret (q, c, r) \<Rightarrow> Some (hb_out c, r) | _ \<Rightarrow> None)
     = Some ([10, 20], Inr 2)"
  by code_simp

lemma hbpp_read_example:
  "\<exists>k' loc' q'. libera_dd_read_HBPP False hbpp_read_env 16 hbpp_loc hbpp_bdma kernel_d1 = Ret (k', loc', q', Inr 16, [10, 20])"
proof -
  obtain q c where t: "libera_dd_transfer_OBfifoToUser_DMA 100 hbpp_xfer 3 2 0 1 0 hbpp_bdma = Ret (q, c, Inr 2)" "hb_out c = [10, 20]"
    using hbpp_transfer_example by (auto split: call.splits)
  obtain k1 where c: "libera_get_CTIME False [] kernel_d1 = Ret (k1, Inr \<lparr>lst = 500, lmt = 2000\<rparr>)"
    "dd k1 = dd kernel_d1" "\<not> sem (event k1)"
    using CTIME_one_stamp [of kernel_d1 500 2000 False] by (auto simp: kernel_d1_def init_event_def)
  have fr: "flmcdHz k1 = 1080000000"
    using sleep_frame_CTIME [OF c(1)] by (simp add: sleep_frame_def kernel_d1_def LIBERA_FLMC_INITIAL_def)
  have lt: "last_trigger kernel_d1 = \<lparr>lst = 0, lmt = 0\<rparr>"
    by (simp add: last_trigger_def kernel_d1_def init_event_def getFromCircBuf_def)
  have st: "hb_stop_wait 100 [] \<lparr>lst = 0, lmt = 0\<rparr> \<lparr>lst = 500, lmt = 2000\<rparr> k1 = Ret (k1, None)"
    by (simp add: hb_stop_wait_def hb_stop_diff_def hb_stop_jiffies_def fr HB_ATOMS_def FLMC_DECI_HZ_def word_sless_alt)
  obtain loc1 where l: "hbpp_locate 1080000000 (hbpp_loc\<lparr>lasttrig := \<lparr>lst = 0, lmt = 0\<rparr>\<rparr>) = Some (loc1, None)"
    "lmt (qL (Qts loc1)) = 0"
    by (simp add: hbpp_locate_def hbpp_loc_def HBPP_MT_SAMPLES_def lmt2lst_def DELTA_LMT_OVERFLOW_def div_u64_def Let_def)
  let ?k = "libera_dd_write_CBfifo_HBPP 0 0 1 1 3 k1"
  have "fifo_of DDQ ?k = one_stamp 1" "\<not> sem (event ?k)"
    using c(2,3) by (simp_all add: libera_dd_write_CBfifo_HBPP_def write_CBfifo_def kernel_d1_def)
  note g = getBlocked_one_stamp [OF this, of False]
  have "hb_atom_no 0 = 0" by (simp add: hb_atom_no_def)
  then have "\<exists>k' loc' q'. hbpp_read_data hbpp_read_env 16 0 loc1 hbpp_bdma k1 = Ret (k', loc', q', Inr 16, [10, 20])"
    using g t l(2)
    by (simp add: hbpp_read_data_def hbpp_read_env_def HBPP_ATOM_SAMPLES_def HBPP_SAMPLE_BYTES_def Let_def)
  moreover have "sem (dd kernel_d1) = False" "HB_offset_lmt (event kernel_d1) = 0"
    by (simp_all add: kernel_d1_def init_dd_def init_event_def)
  ultimately show ?thesis
    using c(1) st l fr lt
    by (simp add: libera_dd_read_HBPP_def hbpp_read_env_def mutex_lock_interruptible_def HBPP_MAX_SAMPLES_def HBPP_SAMPLE_BYTES_def
        HBPP_MT_SAMPLES_def Let_def hbpp_loc_def HB_ATOMS_def word_sless_alt word_sle_eq)
qed


section \<open>Waiting for the history buffer to stop\<close>

text \<open>With \<open>HZ\<close> at 100, the wait for the history buffer to stop covers less than half of the time the
  buffer needs when the trigger has just come, for every frequency \<open>f\<close> of the machine clock: the product that
  gives the jiffies does not fit 32 bits (a jiffy is \<open>f / 1000\<close> machine periods, \<open>2 ^ 24\<close> periods are needed).\<close>

theorem stop_wait_too_short:
  assumes "f \<noteq> 0"
  shows "\<exists>j. hb_stop_jiffies 100 f (hb_stop_diff t t) = Some j \<and> 2 * (unat j * unat f) < 1000 * 2 ^ 24"
proof -
  let ?j = "0xE8000000 div f + 1 :: u32"
  have d: "hb_stop_diff t t = 0x1000000" by (simp add: hb_stop_diff_def HB_ATOMS_def)
  have le: "0xE8000000 div unat f * unat f \<le> 0xE8000000" by simp
  have "0xE8000000 div unat f < 0xFFFFFFFF" by (rule order_le_less_trans [OF div_le_dividend]) simp
  then have "unat (0xE8000000 div f) + 1 < 2 ^ LENGTH(32)" by (simp add: unat_div)
  then have "unat ?j = unat (0xE8000000 div f) + 1" by (simp only: unat_word_ariths) simp
  then have "unat ?j = 0xE8000000 div unat f + 1" by (simp add: unat_div)
  then have "unat ?j * unat f \<le> 0xE8000000 + unat f" using le by (simp add: add_mult_distrib)
  moreover have "unat f < 2 ^ LENGTH(32)" by (rule unsigned_less)
  then have "unat f < 4294967296" by simp
  ultimately have "2 * (unat ?j * unat f) < 1000 * 16777216" by linarith
  then have "2 * (unat ?j * unat f) < 1000 * 2 ^ 24" by simp
  moreover have "(0x1000000 * FLMC_DECI_HZ * 100 :: u32) = 0xE8000000" by (simp add: FLMC_DECI_HZ_def)
  then have "hb_stop_jiffies 100 f (hb_stop_diff t t) = Some ?j" using assms by (simp only: hb_stop_jiffies_def d if_False)
  ultimately show ?thesis by blast
qed

theorem stop_wait_too_short_witness:
  "\<exists>j. hb_stop_jiffies 100 1080000000 (hb_stop_diff \<lparr>lst = 0, lmt = 7\<rparr> \<lparr>lst = 0, lmt = 7\<rparr>) = Some j
     \<and> 2 * (unat j * 1080000000) < 1000 * 2 ^ 24"
  using stop_wait_too_short [of 1080000000 "\<lparr>lst = 0, lmt = 7\<rparr>"] by simp

end
