(* ===== verification/Libera_Bbfp.thy ===== *)
theory Libera_Bbfp
  imports Libera_Hbpp
begin

text \<open>
  The DD device of the bunch-by-bunch build (\<open>bbfp.c\<close>). Positions count samples from the arm; an atom of the
  board's memory holds four samples, a logical atom \<open>atomsize\<close> of them. A file is read from its position on,
  every \<open>dec\<close>-th sample.
\<close>

section \<open>Constants\<close>

definition BBFP_MT_SAMPLES :: u64 where "BBFP_MT_SAMPLES = 4"
definition LIBERA_HB_SIZE :: s32 where "LIBERA_HB_SIZE = 256 * 1024 * 1024"
definition LIBERA_DD_SAMP_SIZE :: u32 where "LIBERA_DD_SAMP_SIZE = 2"
definition LIBERA_DD_CIRCBUF_SAMP :: s32 where "LIBERA_DD_CIRCBUF_SAMP = LIBERA_HB_SIZE div LIBERA_DD_SAMP_SIZE"

section \<open>Position and time\<close>

text \<open>
  The time of a position. The last component is the error of the conversion to system time, which leaves the
  stored timestamp as it was; \<open>None\<close> is a division by zero.
\<close>

definition libera_update_timestamp :: "u32 \<Rightarrow> bunch_local \<Rightarrow> s64 \<Rightarrow> (bunch_local \<times> errno option) option" where
  "libera_update_timestamp f loc f_pos =
     (let q = Qts loc;
          l = arm_lmt loc * BBFP_MT_SAMPLES + f_pos;
          mt = l div BBFP_MT_SAMPLES;
          q = q\<lparr>qL := (qL q)\<lparr>lmt := l\<rparr>, qU := (qU q)\<lparr>ts_mt := mt\<rparr>\<rparr>
      in case lmt2lst f mt (lasttrig loc) of
           None \<Rightarrow> None
         | Some (Inl err) \<Rightarrow> Some (loc\<lparr>Qts := q\<rparr>, Some err)
         | Some (Inr t) \<Rightarrow>
             let q = q\<lparr>qL := (qL q)\<lparr>lst := t\<rparr>, qU := (qU q)\<lparr>ts_st := lst2st t\<rparr>\<rparr>
             in Some (loc\<lparr>Qts := q, dd_tstamp := qU q\<rparr>, None))"

text \<open>The first multiple of the logical atom \<open>l\<close> at or behind the trigger.\<close>

definition bb_trigger_pos :: "u32 \<Rightarrow> u64 \<Rightarrow> s64 option" where
  "bb_trigger_pos l trigger_pos =
     (let p = trigger_pos * BBFP_MT_SAMPLES in
      case mod_op (p + ucast l) l of
        None \<Rightarrow> None
      | Some m \<Rightarrow> map_option (\<lambda>residue. p + ucast residue) (mod_op (ucast (l - m)) l))"

text \<open>The sleep for the current time and the stamps of the sleep for the buffer to stop; \<open>HZ\<close>; \<open>atomsize\<close>.\<close>

record bb_pos_env =
  bp_ctime :: "bool \<times> wake list"
  bp_stop :: "(fifo_sel \<times> u64) list"
  bp_hz :: nat
  bp_atomsize :: u32

type_synonym bb_pos_result = "(kernel \<times> bunch_local \<times> s64 \<times> errno option) call"

definition libera_position_to_trigger ::
  "bb_pos_env \<Rightarrow> libera_Ltimestamp_t \<Rightarrow> bunch_local \<Rightarrow> s64 \<Rightarrow> kernel \<Rightarrow> bb_pos_result" where
  "libera_position_to_trigger env trig_time loc f_pos k =
     call_bind (libera_get_CTIME (fst (bp_ctime env)) (snd (bp_ctime env)) k) (\<lambda>(k, r).
       case r of
         Inl e \<Rightarrow> Ret (k, loc, f_pos, Some e)
       | Inr ctime \<Rightarrow>
           call_bind (hb_stop_wait (of_nat (bp_hz env)) (bp_stop env) (lasttrig loc) ctime k) (\<lambda>(k, e).
             case e of
               Some err \<Rightarrow> Ret (k, loc, f_pos, Some err)
             | None \<Rightarrow>
                 let loc = loc\<lparr>lasttrig := trig_time\<rparr>;
                     arm_time = getFromCircBuf (paired_timestamps (event k) T_TRIG_POST_MORTEM)
                 in if lmt trig_time < lmt arm_time then Ret (k, loc, f_pos, Some EPERM)
                    else
                      (case bb_trigger_pos (bp_atomsize env) (lmt trig_time - lmt arm_time) of
                         None \<Rightarrow> Fault
                       | Some p \<Rightarrow>
                           (case libera_update_timestamp (flmcdHz k) (loc\<lparr>trig_position := p, arm_lmt := lmt arm_time\<rparr>) p of
                              None \<Rightarrow> Fault
                            | Some (loc, _) \<Rightarrow> Ret (k, loc\<lparr>rel_offset := 0\<rparr>, p, None)))))"

definition libera_new_trigger :: "bunch_local \<Rightarrow> kernel \<Rightarrow> libera_Ltimestamp_t \<times> bool" where
  "libera_new_trigger loc k = (last_trigger k, lmt (lasttrig loc) \<noteq> lmt (last_trigger k))"

section \<open>Seeking\<close>

definition bb_eof :: "u32 \<Rightarrow> s64 \<Rightarrow> s64 option" where
  "bb_eof atomsize trig_pos =
     map_option (\<lambda>m. trig_pos + ucast (LIBERA_DD_CIRCBUF_SAMP div 2) - ucast m) (mod_op trig_pos atomsize)"

definition bb_clamp :: "s64 \<Rightarrow> s64 \<Rightarrow> s64 \<Rightarrow> s64" where
  "bb_clamp bof eof p = (if eof <s p then eof else if p <s bof then bof else p)"

definition libera_dd_llseek_BBFP ::
  "bb_pos_env \<Rightarrow> s64 \<Rightarrow> nat \<Rightarrow> bunch_local \<Rightarrow> s64 \<Rightarrow> kernel \<Rightarrow> (kernel \<times> bunch_local \<times> s64 \<times> (errno + s64)) call" where
  "libera_dd_llseek_BBFP env offset whence loc f_pos k =
     (if whence \<noteq> 1 then Ret (k, loc, f_pos, Inl EINVAL)
      else
        let (trig_time, new) = libera_new_trigger loc k in
        call_bind (if new then libera_position_to_trigger env trig_time loc f_pos k else Ret (k, loc, f_pos, None))
          (\<lambda>(k, loc, f_pos, e).
            case e of
              Some err \<Rightarrow> Ret (k, loc, f_pos, Inl err)
            | None \<Rightarrow>
                (case bb_eof (bp_atomsize env) (trig_position loc) of
                   None \<Rightarrow> Fault
                 | Some eof \<Rightarrow>
                     let f_pos = bb_clamp (eof - ucast LIBERA_DD_CIRCBUF_SAMP) eof (f_pos + offset) in
                     (case libera_update_timestamp (flmcdHz k) loc f_pos of
                        None \<Rightarrow> Fault
                      | Some (loc, _) \<Rightarrow> Ret (k, loc, f_pos, Inr f_pos)))))"

section \<open>Decimation into user space\<close>

text \<open>
  The samples are collected in place, at the front of the chunk. The result of the loop is the buffer and the
  two counters; \<open>dec\<close> is not zero there.
\<close>

function dec_loop :: "nat \<Rightarrow> nat \<Rightarrow> nat \<Rightarrow> nat \<Rightarrow> nat \<Rightarrow> (nat \<Rightarrow> 'a) \<Rightarrow> (nat \<Rightarrow> 'a) \<times> nat \<times> nat" where
  "dec_loop d bufsize base i j buf =
     (if i < bufsize \<and> 0 < d then dec_loop d bufsize base (i + d) (j + 1) (buf(base + j := buf (base + i)))
      else (buf, i, j))"
  by pat_completeness auto
termination by (relation "measure (\<lambda>(d, n, b, i, j, buf). n - i)") auto

declare dec_loop.simps [simp del]

text \<open>
  One chunk: the buffer afterwards, the samples copied, the offset of the next sample in the next chunk, the
  number copied. A chunk of \<open>2 ^ 31\<close> samples or more lies outside every mapping. Indices behind the buffer read
  what is there.
\<close>

definition copy_buffer_to_user ::
  "bool \<Rightarrow> (nat \<Rightarrow> 'a) \<Rightarrow> nat \<Rightarrow> u32 \<Rightarrow> u32 \<Rightarrow> u32 \<Rightarrow> ((nat \<Rightarrow> 'a) \<times> 'a list \<times> u32 \<times> (errno + u32)) call" where
  "copy_buffer_to_user fails buf base bufsize d dec_offset =
     (if bufsize = 0 then Ret (buf, [], dec_offset, Inr 0)
      else if bufsize < dec_offset then Ret (buf, [], dec_offset - bufsize, Inr 0)
      else if 0x80000000 \<le> bufsize then Fault
      else
        let n = unat (bufsize - dec_offset); start = base + unat dec_offset in
        if 1 < d then
          let (buf, i, j) = dec_loop (unat d) n start (unat d) 1 buf; dec_offset = of_nat (i - n) in
          if fails then Ret (buf, [], dec_offset, Inl EFAULT)
          else Ret (buf, map buf [start ..< start + j], dec_offset, Inr (of_nat j))
        else if fails then Ret (buf, [], 0, Inl EFAULT)
        else Ret (buf, map buf [start ..< start + unat bufsize], 0, Inr bufsize))"

section \<open>From the output buffer to the FIFO\<close>

text \<open>
  A sleep of the reader: the interrupts of the controller and the triggers in it, and whether a signal is
  pending after it.
\<close>

record bb_sleep =
  sl_irqs :: "u32 list"
  sl_trigs :: "u64 list"
  sl_signal :: bool

fun bb_wait ::
  "nat \<Rightarrow> bool \<Rightarrow> bb_sleep list \<Rightarrow> 'a bdma \<Rightarrow> kernel \<Rightarrow> ('a bdma \<times> kernel \<times> errno option) call" where
  "bb_wait n sig [] q k =
     (if b_nonempty q then Ret (q, k, None) else if sig then Ret (q, k, Some ERESTARTSYS) else Hang)"
| "bb_wait n sig (s # ss) q k =
     (if b_nonempty q then Ret (q, k, None)
      else if sig then Ret (q, k, Some ERESTARTSYS)
      else
        let q = fold (b_interrupt 4) (sl_irqs s) q; k = fold mc_get_trigger_BBFP (sl_trigs s) k in
        if 1000 < n then Ret (q, k, Some EDEADLK) else bb_wait (n + 1) (sl_signal s) ss q k)"

text \<open>
  What a round of the read meets: the interrupts and triggers since the last one, the status register, what it
  shows after each sleep for the output buffer, a pending signal, the sleeps for data, the two copies that
  may fail, and a signal pending after them.
\<close>

record bb_round =
  br_irqs :: "u32 list"
  br_trigs :: "u64 list"
  br_status :: u32
  br_sync :: "u32 list"
  br_signal :: bool
  br_sleeps :: "bb_sleep list"
  br_fails :: "bool \<times> bool"
  br_break :: bool

text \<open>The result is the number of samples in the FIFO.\<close>

definition dma_copy_fifo_to_buffer ::
  "nat \<Rightarrow> bb_round \<Rightarrow> 'a bdma \<Rightarrow> kernel \<Rightarrow> ('a bdma \<times> kernel \<times> (errno + s32)) call" where
  "dma_copy_fifo_to_buffer hz r q k =
     (let finish = \<lambda>q k.
            call_bind (bb_wait 0 (br_signal r) (br_sleeps r) q k) (\<lambda>(q, k, e).
              case e of
                Some err \<Rightarrow> Ret (q, k, Inl err)
              | None \<Rightarrow> Ret (q, k, Inr (b_len q * ucast BBFP_MT_SAMPLES)))
      in if \<not> b_transfer q \<and> 0 <s b_remaining q then
           call_bind (b_sync hz 0 (br_sync r) (q\<lparr>b_status := br_status r\<rparr>)) (\<lambda>(q, e).
             case e of
               Some err \<Rightarrow> Ret (q, k, Inl err)
             | None \<Rightarrow>
                 let q = b_get_csize q in
                 if \<not> 0 <s b_csize q \<and> BUNCH_FIFO_ATOMS - 1 - b_len q = 0
                 then Ret (q, k, Inr (b_len q * ucast BBFP_MT_SAMPLES))
                 else finish (b_command q) k)
         else finish q k)"

section \<open>Reading\<close>

text \<open>The variables of the loop: samples to skip in the FIFO, decimation offset, samples processed and copied.\<close>

record 'a bb_vars =
  v_smpl :: s64
  v_off :: u32
  v_processed :: s32
  v_copied :: s32
  v_out :: "'a list"

definition sdiv_mt :: "s32 \<Rightarrow> s32" where
  "sdiv_mt x = (if x <s 0 then - ((- x) div ucast BBFP_MT_SAMPLES) else x div ucast BBFP_MT_SAMPLES)"

text \<open>The part of the data up to the end of the FIFO's memory, when the data wraps.\<close>

type_synonym 'a bb_copied = "('a bdma \<times> 'a bb_vars \<times> s32 \<times> s32 \<times> errno option) call"

definition bb_copy_tail ::
  "u32 \<Rightarrow> bool \<Rightarrow> s32 \<Rightarrow> s32 \<Rightarrow> 'a bdma \<Rightarrow> 'a bb_vars \<Rightarrow> 'a bb_copied" where
  "bb_copy_tail d fails to_copy copied_samples q v =
     (let tail_ddr_smpl = (BUNCH_FIFO_ATOMS - b_get q) * ucast BBFP_MT_SAMPLES;
          tail_bsize = ucast (ucast tail_ddr_smpl - (v_smpl v + ucast (v_off v)));
          src = unat (b_get q) * 4 + unat (v_smpl v)
      in call_bind (copy_buffer_to_user fails (b_buf q) src tail_bsize d (v_off v)) (\<lambda>(buf, out, off, r).
        case r of
          Inl e \<Rightarrow> Ret (q\<lparr>b_buf := buf\<rparr>, v\<lparr>v_off := off\<rparr>, to_copy, copied_samples, Some e)
        | Inr n \<Rightarrow>
            Ret (q\<lparr>b_buf := buf, b_get := 0\<rparr>,
                 v\<lparr>v_smpl := 0, v_off := off, v_processed := v_processed v + tail_bsize,
                   v_copied := v_copied v + n, v_out := v_out v @ out\<rparr>,
                 to_copy - tail_bsize, copied_samples - tail_ddr_smpl, None)))"

definition bb_copy_samples ::
  "u32 \<Rightarrow> u32 \<Rightarrow> bool \<times> bool \<Rightarrow> s32 \<Rightarrow> 'a bdma \<Rightarrow> 'a bb_vars \<Rightarrow> ('a bdma \<times> 'a bb_vars \<times> errno option) call" where
  "bb_copy_samples d samples_to_process fails copied_samples q v =
     (let a = scast copied_samples - v_smpl v;
          b = ucast (samples_to_process - v_processed v);
          to_copy = ucast (if a <s b then a else b)
      in call_bind
           (if BUNCH_FIFO_ATOMS <s b_get q + sdiv_mt to_copy
            then bb_copy_tail d (fst fails) to_copy copied_samples q v
            else Ret (q, v, to_copy, copied_samples, None))
           (\<lambda>(q, v, to_copy, copied_samples, e).
             case e of
               Some err \<Rightarrow> Ret (q, v, Some err)
             | None \<Rightarrow>
                 let src = unat (b_get q) * 4 + unat (v_smpl v) in
                 call_bind (copy_buffer_to_user (snd fails) (b_buf q) src to_copy d (v_off v)) (\<lambda>(buf, out, off, r).
                   case r of
                     Inl e \<Rightarrow> Ret (q\<lparr>b_buf := buf\<rparr>, v\<lparr>v_off := off\<rparr>, Some e)
                   | Inr n \<Rightarrow>
                       Ret (q\<lparr>b_buf := buf, b_get := (b_get q + sdiv_mt copied_samples) AND BUNCH_FIFO_MASK\<rparr>,
                            v\<lparr>v_smpl := 0, v_off := off, v_processed := v_processed v + to_copy,
                              v_copied := v_copied v + n, v_out := v_out v @ out\<rparr>, None))))"

fun bb_rounds ::
  "nat \<Rightarrow> u32 \<Rightarrow> u32 \<Rightarrow> u32 \<Rightarrow> bb_round list \<Rightarrow> u32 \<Rightarrow> 'a bdma \<Rightarrow> 'a bb_vars \<Rightarrow> kernel
     \<Rightarrow> ('a bdma \<times> 'a bb_vars \<times> kernel \<times> errno option) call" where
  "bb_rounds hz d samples_to_process ddr_atom_count [] loop_count q v k = Hang"
| "bb_rounds hz d samples_to_process ddr_atom_count (r # rs) loop_count q v k =
     call_bind (dma_copy_fifo_to_buffer hz r (fold (b_interrupt 4) (br_irqs r) q) (fold mc_get_trigger_BBFP (br_trigs r) k))
       (\<lambda>(q, k, cs).
         case cs of
           Inl e \<Rightarrow> Ret (q, v, k, Some e)
         | Inr copied_samples \<Rightarrow>
             call_bind
               (if 0 <s copied_samples then bb_copy_samples d samples_to_process (br_fails r) copied_samples q v
                else Ret (q, v, None))
               (\<lambda>(q, v, e).
                 case e of
                   Some err \<Rightarrow> Ret (q, v, k, Some err)
                 | None \<Rightarrow>
                     if br_break r then Ret (q, v, k, None)
                     else if ddr_atom_count < loop_count + 1 then Ret (q, v, k, Some EDEADLK)
                     else if b_remaining q \<noteq> 0 \<or> b_nonempty q
                     then bb_rounds hz d samples_to_process ddr_atom_count rs (loop_count + 1) q v k
                     else Ret (q, v, k, None)))"

text \<open>
  The request: how many samples to go through, from the position \<open>pos\<close>; the comparison is one of unsigned
  numbers.
\<close>

definition bb_to_eof :: "u32 \<Rightarrow> s64 \<Rightarrow> s64 \<Rightarrow> s32 option" where
  "bb_to_eof atomsize trig_pos pos =
     map_option (\<lambda>m. ucast (pos - trig_pos + ucast (LIBERA_DD_CIRCBUF_SAMP div 2) - ucast m)) (mod_op trig_pos atomsize)"

definition bb_samples :: "s32 \<Rightarrow> u32 \<Rightarrow> u32 \<Rightarrow> u32" where
  "bb_samples to_eof count d =
     (let wanted = (count div LIBERA_DD_SAMP_SIZE - 1) * d + 1 in if to_eof < wanted then to_eof else wanted)"

definition bb_atom :: "s64 \<Rightarrow> s64" where "bb_atom p = signed_drop_bit 2 p"

definition bb_atom_count :: "s64 \<Rightarrow> s64 \<Rightarrow> u32" where
  "bb_atom_count from_pos to_pos =
     (let to_at = bb_atom to_pos;
          to_at = (if to_pos mod BBFP_MT_SAMPLES \<noteq> 0 then to_at + 1 else to_at)
      in ucast (to_at - bb_atom from_pos))"

text \<open>
  \<open>f_pos\<close> is the position of the file, \<open>pos\<close> the copy of it the kernel passes to the read and stores back.
\<close>

record bb_env =
  be_pos :: bb_pos_env
  be_signal :: bool
  be_rounds :: "bb_round list"

record 'a bb_state =
  bs_loc :: bunch_local
  bs_f_pos :: s64
  bs_pos :: s64
  bs_q :: "'a bdma"

type_synonym 'a bb_result = "(kernel \<times> 'a bb_state \<times> (errno + int) \<times> 'a list) call"

definition bb_flush :: "u32 \<Rightarrow> 'a bdma \<Rightarrow> 'a bdma" where
  "bb_flush ddr_atom_count q =
     b_flush (q\<lparr>b_overrun := False, b_transfer := False, b_remaining := ddr_atom_count\<rparr>)"

text \<open>The locked part of the read.\<close>

definition bb_read_data ::
  "bb_env \<Rightarrow> u32 \<Rightarrow> s64 \<Rightarrow> s64 \<Rightarrow> 'a bb_state \<Rightarrow> kernel \<Rightarrow> 'a bb_result" where
  "bb_read_data env samples_to_process from_pos to_pos s k =
     (let ddr_start = ucast (bb_atom from_pos mod ucast HB_ATOMS);
          ddr_atom_count = bb_atom_count from_pos to_pos;
          k = libera_dd_write_CBfifo_BBFP 0 ddr_start 1 1 ddr_atom_count k;
          v = \<lparr>v_smpl = from_pos - bb_atom from_pos * BBFP_MT_SAMPLES, v_off = 0, v_processed = 0, v_copied = 0,
               v_out = []\<rparr>
      in call_bind (bb_rounds (bp_hz (be_pos env)) (dec (bs_loc s)) samples_to_process ddr_atom_count
             (be_rounds env) 0 (bb_flush ddr_atom_count (bs_q s)) v k) (\<lambda>(q, v, k, e).
        let s = s\<lparr>bs_q := q\<rparr>;
            e = (if snd (libera_new_trigger (bs_loc s) k) then Some EIO else e)
        in case e of
             Some err \<Rightarrow> Ret (k, s, Inl err, v_out v)
           | None \<Rightarrow>
               Ret (k, s\<lparr>bs_pos := bs_pos s + ucast (v_processed v + v_off v)\<rparr>,
                    Inr (sint (v_copied v * LIBERA_DD_SAMP_SIZE)), v_out v)))"

definition libera_dd_read_BBFP :: "bb_env \<Rightarrow> u32 \<Rightarrow> 'a bb_state \<Rightarrow> kernel \<Rightarrow> 'a bb_result" where
  "libera_dd_read_BBFP env count s k =
     (let loc = bs_loc s; from_pos = bs_pos s in
      case bb_to_eof (bp_atomsize (be_pos env)) (trig_position loc) from_pos of
        None \<Rightarrow> Fault
      | Some to_eof \<Rightarrow>
          let samples_to_process = bb_samples to_eof count (dec loc);
              to_pos = from_pos + ucast samples_to_process;
              (trig_time, new) = libera_new_trigger loc k
          in if from_pos = to_pos then Ret (k, s, Inr 0, [])
             else
               call_bind
                 (if new then libera_position_to_trigger (be_pos env) trig_time loc (bs_f_pos s) k
                  else
                    (case libera_update_timestamp (flmcdHz k) loc (bs_f_pos s) of
                       None \<Rightarrow> Fault
                     | Some (loc, _) \<Rightarrow> Ret (k, loc, bs_f_pos s, None)))
                 (\<lambda>(k, loc, f_pos, e).
                   let s = s\<lparr>bs_loc := loc, bs_f_pos := f_pos\<rparr> in
                   case e of
                     Some err \<Rightarrow> Ret (k, s, Inl err, [])
                   | None \<Rightarrow>
                       (case mutex_lock_interruptible (be_signal env) (sem (dd k)) of
                          Interrupted \<Rightarrow> Ret (k, s, Inl ERESTARTSYS, [])
                        | Sleeps \<Rightarrow> Hang
                        | Acquired \<Rightarrow> bb_read_data env samples_to_process from_pos to_pos s k)))"

end
