(* ===== verification/Libera_Bbfp_Props.thy ===== *)
theory Libera_Bbfp_Props
  imports Libera_Bbfp Libera_Dd_Props
begin

text \<open>
  Properties of the bunch-by-bunch and hadron builds: arm and trigger alternate, so a read is refused exactly
  while the history buffer runs; where a trigger and a seek put a file; decimation chunk by chunk; the size of a
  hadron transfer; and what goes wrong in the waits and at the ends of the buffer.
\<close>

section \<open>Arm and trigger\<close>

definition last_arm :: "kernel \<Rightarrow> libera_Ltimestamp_t" where
  "last_arm k = getFromCircBuf (paired_timestamps (event k) T_TRIG_POST_MORTEM)"

text \<open>One machine-clock trigger outside the SET mode, as the handler of \<open>libera_main.c\<close> distributes it.\<close>

definition mc_trigger_BBFP :: "nat \<times> u64 \<Rightarrow> kernel \<Rightarrow> kernel" where
  "mc_trigger_BBFP e k =
     (if fst e = T_TRIG_TRIGGER then mc_get_trigger_BBFP (snd e) k
      else libera_MCtrig_specific_BBFP (snd e) 0 (fst e) k)"

definition armed_order :: "u64 \<Rightarrow> kernel \<Rightarrow> bool" where
  "armed_order t k \<longleftrightarrow> circbuf_ok (paired_timestamps (event k) T_TRIG_TRIGGER)
     \<and> circbuf_ok (paired_timestamps (event k) T_TRIG_POST_MORTEM)
     \<and> lmt (last_trigger k) \<le> t \<and> lmt (last_arm k) \<le> t
     \<and> (ValidTrigVector (event k) = BBFP_Arms \<and> lmt (last_arm k) \<le> lmt (last_trigger k)
        \<or> ValidTrigVector (event k) = BBFP_Trigs \<and> lmt (last_trigger k) < lmt (last_arm k))"

lemmas trig_nos = T_TRIG_TRIGGER_def T_TRIG_POST_MORTEM_def T_TRIG_FA0_def T_TRIG_FA1_def

lemma lmt_getFrom_putLMT: "circbuf_ok q \<Longrightarrow> lmt (getFromCircBuf (putLMTtoCircBuf q t)) = t"
  by (simp add: circbuf_ok_def getFromCircBuf_def putLMTtoCircBuf_def TRIG_LOG_BITS_def circbuf_prev)

lemma trig_vectors: "BBFP_Arms = 0x20800000" "BBFP_Trigs = 0x40400000"
  by (simp_all add: BBFP_Arms_def BBFP_Trigs_def TRIGGER_BIT_def trig_nos)

lemma valid_trigger_toggles:
  assumes "ValidTrigVector (event k) = BBFP_Arms \<or> ValidTrigVector (event k) = BBFP_Trigs"
  shows "i \<in> {T_TRIG_POST_MORTEM, T_TRIG_FA1} \<Longrightarrow> libera_valid_trigger_BBFP i k =
      (if ValidTrigVector (event k) = BBFP_Arms then (k\<lparr>event := (event k)\<lparr>ValidTrigVector := BBFP_Trigs\<rparr>\<rparr>, True)
       else (k, False))"
    and "i \<in> {T_TRIG_TRIGGER, T_TRIG_FA0} \<Longrightarrow> libera_valid_trigger_BBFP i k =
      (if ValidTrigVector (event k) = BBFP_Trigs then (k\<lparr>event := (event k)\<lparr>ValidTrigVector := BBFP_Arms\<rparr>\<rparr>, True)
       else (k, False))"
  using assms
  by (auto simp: libera_valid_trigger_BBFP_def valid_trigger_def Let_def TRIGGER_BIT_def trig_nos trig_vectors)

lemma send_event_stamps [simp]:
  "paired_timestamps (event (fst (libera_send_event e p k))) = paired_timestamps (event k)"
  "ValidTrigVector (event (fst (libera_send_event e p k))) = ValidTrigVector (event k)"
  "sc_timestamps (event (fst (libera_send_event e p k))) = sc_timestamps (event k)"
  "mc_timestamps (event (fst (libera_send_event e p k))) = mc_timestamps (event k)"
  "sem (event (fst (libera_send_event e p k))) = sem (event k)"
  "CTIME_sem (event (fst (libera_send_event e p k))) = CTIME_sem (event k)"
  "flmcdHz (fst (libera_send_event e p k)) = flmcdHz k"
  by (simp_all add: libera_send_event_def split: prod.splits)

lemma set_fifo_stamps [simp]:
  "paired_timestamps (event (set_fifo s q k)) = paired_timestamps (event k)"
  "ValidTrigVector (event (set_fifo s q k)) = ValidTrigVector (event k)"
  by (cases s; simp)+

lemma stamp_paired_simps [simp]:
  "paired_timestamps (event (upd_paired i q k)) = (paired_timestamps (event k))(i := q)"
  "ValidTrigVector (event (upd_paired i q k)) = ValidTrigVector (event k)"
  "sc_timestamps (event (upd_paired i q k)) = sc_timestamps (event k)"
  "mc_timestamps (event (upd_paired i q k)) = mc_timestamps (event k)"
  "sem (event (upd_paired i q k)) = sem (event k)"
  "CTIME_sem (event (upd_paired i q k)) = CTIME_sem (event k)"
  "flmcdHz (upd_paired i q k) = flmcdHz k"
  by (simp_all add: upd_paired_def)

lemma armed_order_step:
  assumes "armed_order t k" "t < snd e"
  shows "armed_order (snd e) (mc_trigger_BBFP e k)"
proof -
  note v = valid_trigger_toggles [of k]
  have w: "ValidTrigVector (event k) = BBFP_Arms \<or> ValidTrigVector (event k) = BBFP_Trigs"
    using assms by (auto simp: armed_order_def)
  have ne: "BBFP_Arms \<noteq> BBFP_Trigs" by (simp add: trig_vectors)
  consider "fst e = T_TRIG_TRIGGER" | "fst e = T_TRIG_FA0" | "fst e = T_TRIG_POST_MORTEM" | "fst e = T_TRIG_FA1"
    | "fst e \<notin> {T_TRIG_TRIGGER, T_TRIG_FA0, T_TRIG_POST_MORTEM, T_TRIG_FA1}" by blast
  then show ?thesis
    using assms w ne
    by cases (auto simp: mc_trigger_BBFP_def mc_get_trigger_BBFP_def libera_MCtrig_specific_BBFP_def v armed_order_def
        last_trigger_def last_arm_def lmt_getFrom_putLMT circbuf_ok_putLMT Let_def trig_nos)
qed

lemma armed_order_run:
  "sorted_wrt (<) (t # map snd es) \<Longrightarrow> armed_order t k \<Longrightarrow> \<exists>t. armed_order t (fold mc_trigger_BBFP es k)"
proof (induction es arbitrary: t k)
  case (Cons e es)
  then show ?case using armed_order_step [of t k e] by auto
qed auto

lemma bunch_init_armed_order:
  assumes "circbuf_ok (paired_timestamps (event k) T_TRIG_TRIGGER)"
    "circbuf_ok (paired_timestamps (event k) T_TRIG_POST_MORTEM)" "lmt (last_arm k) = 0"
  shows "armed_order (ucast (HB_ATOMS div 2)) (fst (libera_init_specific_BBFP f a k))"
  using assms
  by (auto simp: libera_init_specific_BBFP_def init_triggers_bunch_def virgin_trigger_def libera_sctrig_enable_def
      libera_mctrig_enable_def Let_def armed_order_def last_trigger_def last_arm_def lmt_getFrom_putLMT
      circbuf_ok_putLMT circbuf_ok_putLST trig_nos HB_ATOMS_def)

lemma hb_stop_wait_frame:
  assumes "hb_stop_wait hz st t c k = Ret (k', e)"
  shows "sleep_frame k k'" "e = None \<or> e = Some EDEADLK"
  using assms sleep_frame_stamps [OF sleep_frame_refl]
  by (auto simp: hb_stop_wait_def split: if_splits option.splits)

section \<open>Going to the trigger\<close>

lemma update_timestamp_frame:
  assumes "libera_update_timestamp f loc p = Some (loc', e)"
  shows "trig_position loc' = trig_position loc" "arm_lmt loc' = arm_lmt loc" "lasttrig loc' = lasttrig loc"
    "dec loc' = dec loc"
  using assms by (auto simp: libera_update_timestamp_def Let_def split: option.splits sum.splits)

lemma position_to_trigger_cases:
  assumes "libera_position_to_trigger env t loc p k = Ret (k', loc', p', e)"
  shows "sleep_frame k k'"
    and "e \<in> {Some ERESTARTSYS, Some EFAULT, Some EDEADLK} \<and> p' = p
      \<or> e = Some EPERM \<and> lmt t < lmt (last_arm k) \<and> p' = p
      \<or> e = None \<and> lmt (last_arm k) \<le> lmt t
        \<and> bb_trigger_pos (bp_atomsize env) (lmt t - lmt (last_arm k)) = Some p' \<and> trig_position loc' = p'
        \<and> arm_lmt loc' = lmt (last_arm k) \<and> lasttrig loc' = t"
proof -
  obtain k1 r where c: "libera_get_CTIME (fst (bp_ctime env)) (snd (bp_ctime env)) k = Ret (k1, r)"
    using assms by (auto simp: libera_position_to_trigger_def call_bind_Ret_iff)
  note f1 = sleep_frame_CTIME [OF c]
  have "sleep_frame k k' \<and> (e \<in> {Some ERESTARTSYS, Some EFAULT, Some EDEADLK} \<and> p' = p
      \<or> e = Some EPERM \<and> lmt t < lmt (last_arm k) \<and> p' = p
      \<or> e = None \<and> lmt (last_arm k) \<le> lmt t
        \<and> bb_trigger_pos (bp_atomsize env) (lmt t - lmt (last_arm k)) = Some p' \<and> trig_position loc' = p'
        \<and> arm_lmt loc' = lmt (last_arm k) \<and> lasttrig loc' = t)"
  proof (cases r)
    case (Inl x)
    then show ?thesis
      using assms c f1 get_CTIME_errors [of _ _ k k1 x] by (auto simp: libera_position_to_trigger_def)
  next
    case (Inr ctime)
    obtain k2 w where h: "hb_stop_wait (of_nat (bp_hz env)) (bp_stop env) (lasttrig loc) ctime k1 = Ret (k2, w)"
      using assms c Inr by (auto simp: libera_position_to_trigger_def call_bind_Ret_iff)
    have f2: "sleep_frame k k2" by (rule sleep_frame_trans [OF f1 hb_stop_wait_frame(1) [OF h]])
    then have a: "getFromCircBuf (paired_timestamps (event k2) T_TRIG_POST_MORTEM) = last_arm k"
      by (simp add: sleep_frame_def last_arm_def)
    show ?thesis
    proof (cases w)
      case None
      show ?thesis
      proof (cases "lmt t < lmt (last_arm k)")
        case True
        then show ?thesis
          using assms c Inr h a f2 None by (simp add: libera_position_to_trigger_def Let_def)
      next
        case False
        obtain b where b: "bb_trigger_pos (bp_atomsize env) (lmt t - lmt (last_arm k)) = Some b"
          using assms c Inr h a None False
          by (cases "bb_trigger_pos (bp_atomsize env) (lmt t - lmt (last_arm k))")
             (simp_all add: libera_position_to_trigger_def Let_def)
        let ?u = "libera_update_timestamp (flmcdHz k2)
          (loc\<lparr>lasttrig := t, trig_position := b, arm_lmt := lmt (last_arm k)\<rparr>) b"
        have u: "?u \<noteq> None"
          using assms c Inr h a None False b
          by (cases ?u) (simp_all add: libera_position_to_trigger_def Let_def)
        then obtain l x where u: "?u = Some (l, x)" by fastforce
        show ?thesis
          using assms c Inr h a None False b u f2 update_timestamp_frame [OF u]
          by (auto simp: libera_position_to_trigger_def Let_def)
      qed
    next
      case (Some x)
      then show ?thesis
        using assms c Inr h f2 hb_stop_wait_frame(2) [OF h] by (auto simp: libera_position_to_trigger_def)
    qed
  qed
  then show "sleep_frame k k'" "e \<in> {Some ERESTARTSYS, Some EFAULT, Some EDEADLK} \<and> p' = p
      \<or> e = Some EPERM \<and> lmt t < lmt (last_arm k) \<and> p' = p
      \<or> e = None \<and> lmt (last_arm k) \<le> lmt t
        \<and> bb_trigger_pos (bp_atomsize env) (lmt t - lmt (last_arm k)) = Some p' \<and> trig_position loc' = p'
        \<and> arm_lmt loc' = lmt (last_arm k) \<and> lasttrig loc' = t"
    by blast+
qed


text \<open>The state the witnesses start from: a loaded module that has been armed.\<close>

definition bunch_kernel :: kernel where "bunch_kernel = fst (libera_init_specific_BBFP 0 5 kernel_d1)"
definition armed_kernel :: kernel where "armed_kernel = mc_trigger_BBFP (T_TRIG_POST_MORTEM, 0x2000000) bunch_kernel"

definition bunch_loc :: bunch_local where
  "bunch_loc = \<lparr>dec = 1, Qts = Qts fresh_dd_local, dd_tstamp = zero_timestamp, rel_offset = 0,
     lasttrig = \<lparr>lst = 0, lmt = 0xFFFFFFFFFF000000\<rparr>, arm_lmt = 0, trig_position = 0\<rparr>"

definition bunch_pos_env :: bb_pos_env where
  "bunch_pos_env = \<lparr>bp_ctime = (False, []), bp_stop = [], bp_hz = 100, bp_atomsize = 5\<rparr>"

lemma bunch_kernel_simps:
  "ValidTrigVector (event bunch_kernel) = BBFP_Arms"
  "sc_timestamps (event bunch_kernel) = (\<lambda>_. one_stamp 500)" "mc_timestamps (event bunch_kernel) = (\<lambda>_. one_stamp 2000)"
  "sem (event bunch_kernel) = False" "CTIME_sem (event bunch_kernel) = False" "flmcdHz bunch_kernel = LIBERA_FLMC_INITIAL"
  by (simp_all add: bunch_kernel_def libera_init_specific_BBFP_def init_triggers_bunch_def virgin_trigger_def
      libera_sctrig_enable_def libera_mctrig_enable_def Let_def kernel_d1_def init_event_def)

lemma armed_kernel_simps:
  "ValidTrigVector (event armed_kernel) = BBFP_Trigs"
  "sc_timestamps (event armed_kernel) = (\<lambda>_. one_stamp 500)" "mc_timestamps (event armed_kernel) = (\<lambda>_. one_stamp 2000)"
  "sem (event armed_kernel) = False" "CTIME_sem (event armed_kernel) = False" "flmcdHz armed_kernel = LIBERA_FLMC_INITIAL"
  using valid_trigger_toggles(1) [of bunch_kernel T_TRIG_POST_MORTEM] bunch_kernel_simps
  by (simp_all add: armed_kernel_def mc_trigger_BBFP_def libera_MCtrig_specific_BBFP_def T_TRIG_POST_MORTEM_def
      T_TRIG_TRIGGER_def T_TRIG_FA0_def)

lemma kernel_d1_order:
  "circbuf_ok (paired_timestamps (event kernel_d1) i)" "lmt (last_arm kernel_d1) = 0"
  by (simp_all add: kernel_d1_def init_event_def circbuf_ok_def last_arm_def getFromCircBuf_def)

lemma armed_kernel_order: "lmt (last_trigger armed_kernel) < lmt (last_arm armed_kernel)"
proof -
  have "armed_order (ucast (HB_ATOMS div 2)) bunch_kernel"
    unfolding bunch_kernel_def by (rule bunch_init_armed_order) (simp_all add: kernel_d1_order)
  then have "armed_order 0x2000000 armed_kernel"
    using armed_order_step [of _ bunch_kernel "(T_TRIG_POST_MORTEM, 0x2000000)"]
    by (simp add: armed_kernel_def HB_ATOMS_def)
  then show ?thesis by (auto simp: armed_order_def armed_kernel_simps trig_vectors)
qed

lemma no_stop_wait:
  "lmt c = 2000 \<Longrightarrow> hb_stop_wait hz st (lasttrig bunch_loc) c k = Ret (k, None)"
  by (simp add: hb_stop_wait_def hb_stop_diff_def bunch_loc_def HB_ATOMS_def word_sless_alt)

lemma refused_run:
  "\<exists>k' loc'. libera_position_to_trigger bunch_pos_env (last_trigger armed_kernel) bunch_loc 0 armed_kernel
     = Ret (k', loc', 0, Some EPERM)"
proof -
  obtain k1 where c: "libera_get_CTIME False [] armed_kernel = Ret (k1, Inr \<lparr>lst = 500, lmt = 2000\<rparr>)"
    using CTIME_one_stamp [of armed_kernel 500 2000 False] armed_kernel_simps by auto
  have "getFromCircBuf (paired_timestamps (event k1) T_TRIG_POST_MORTEM) = last_arm armed_kernel"
    using sleep_frame_CTIME [OF c] by (simp add: sleep_frame_def last_arm_def)
  then show ?thesis
    using c armed_kernel_order
    by (simp add: libera_position_to_trigger_def no_stop_wait bunch_pos_env_def Let_def)
qed


section \<open>Positions\<close>

lemma mod_op_unat:
  assumes "l \<noteq> 0"
  shows "\<exists>m. mod_op a l = Some m \<and> unat m = unat a mod unat l"
proof -
  have "unat a mod unat l < unat l" using assms by (simp add: unat_gt_0)
  moreover have "unat l < 2 ^ LENGTH(32)" by (rule unsigned_less)
  ultimately have "unat a mod unat l < 2 ^ 32" by simp
  then show ?thesis
    using assms by (simp add: mod_op_def div_u64_rem_def unsigned_ucast_eq unat_mod take_bit_nat_eq_self)
qed

lemma bb_trigger_pos_unat:
  assumes "l \<noteq> 0" "4 * unat n + unat l < 2 ^ 63"
  shows "\<exists>p. bb_trigger_pos l n = Some p
    \<and> unat p = 4 * unat n + (unat l - 4 * unat n mod unat l) mod unat l"
proof -
  have p: "unat (n * BBFP_MT_SAMPLES) = 4 * unat n"
    using assms by (simp add: BBFP_MT_SAMPLES_def unat_word_ariths)
  have pl: "unat (n * BBFP_MT_SAMPLES + ucast l) = 4 * unat n + unat l"
    using assms unat_add_exact [of "n * BBFP_MT_SAMPLES" "ucast l"] by (simp add: p)
  obtain m where m: "mod_op (n * BBFP_MT_SAMPLES + ucast l) l = Some m" "unat m = 4 * unat n mod unat l"
    using mod_op_unat [OF assms(1), of "n * BBFP_MT_SAMPLES + ucast l"] by (auto simp: pl)
  have ml: "unat m < unat l" using m(2) assms(1) by (simp add: unat_gt_0)
  then have lm: "unat (l - m) = unat l - unat m" by (simp add: unat_sub_if')
  obtain r where r: "mod_op (ucast (l - m)) l = Some r" "unat r = (unat l - unat m) mod unat l"
    using mod_op_unat [OF assms(1), of "ucast (l - m)"] by (auto simp: lm)
  have "unat r < unat l" using r(2) assms(1) by (simp add: unat_gt_0)
  then have "unat (n * BBFP_MT_SAMPLES + ucast r) = 4 * unat n + unat r"
    using assms(2) unat_add_exact [of "n * BBFP_MT_SAMPLES" "ucast r"] by (simp add: p)
  then show ?thesis using m r by (simp add: bb_trigger_pos_def Let_def)
qed

lemma next_multiple:
  fixes x l :: nat
  assumes "0 < l"
  shows "l dvd x + (l - x mod l) mod l" "(l - x mod l) mod l < l"
proof -
  show "l dvd x + (l - x mod l) mod l"
  proof (cases "x mod l = 0")
    case False
    then have "(l - x mod l) mod l = l - x mod l" by (intro mod_less) (use False assms in linarith)
    then have "x + (l - x mod l) mod l = l * (x div l) + l"
      using mult_div_mod_eq [of l x] mod_less_divisor [OF assms, of x] by linarith
    then show ?thesis by simp
  qed (use assms in auto)
qed (use assms in simp)

text \<open>When a file of the bunch-by-bunch build is put to a trigger, its position, counted in samples from
  the arm, is the first multiple of the logical atom at or behind the sample of the trigger, the trigger is
  remembered, and nothing but the time stamps and mutexes of the event device changes.\<close>

theorem trigger_position_aligned:
  assumes "libera_position_to_trigger env t loc p k = Ret (k', loc', p', None)"
    "bp_atomsize env \<noteq> 0" "4 * unat (lmt t) + unat (bp_atomsize env) < 2 ^ 63"
  shows "unat (bp_atomsize env) dvd unat p'
    \<and> 4 * (unat (lmt t) - unat (lmt (last_arm k))) \<le> unat p'
    \<and> unat p' < 4 * (unat (lmt t) - unat (lmt (last_arm k))) + unat (bp_atomsize env)
    \<and> lmt (last_arm k) \<le> lmt t \<and> trig_position loc' = p' \<and> lasttrig loc' = t \<and> sleep_frame k k'"
proof -
  note c = position_to_trigger_cases [OF assms(1)]
  have le: "lmt (last_arm k) \<le> lmt t" using c(2) by simp
  then have d: "unat (lmt t - lmt (last_arm k)) = unat (lmt t) - unat (lmt (last_arm k))"
    by (simp add: unat_sub)
  have w: "4 * (unat (lmt t) - unat (lmt (last_arm k))) + unat (bp_atomsize env) < 2 ^ 63"
    using assms(3) by linarith
  obtain q where q: "bb_trigger_pos (bp_atomsize env) (lmt t - lmt (last_arm k)) = Some q"
    "unat q = 4 * (unat (lmt t) - unat (lmt (last_arm k)))
       + (unat (bp_atomsize env) - 4 * (unat (lmt t) - unat (lmt (last_arm k))) mod unat (bp_atomsize env))
         mod unat (bp_atomsize env)"
    using bb_trigger_pos_unat [OF assms(2), of "lmt t - lmt (last_arm k)"] w unfolding d by blast
  have p: "p' = q" using c(2) q(1) by simp
  have "0 < unat (bp_atomsize env)" using assms(2) by (simp add: unat_gt_0)
  note n = next_multiple [OF this, of "4 * (unat (lmt t) - unat (lmt (last_arm k)))"]
  show ?thesis using n c le by (simp add: p q(2))
qed

definition fired_kernel :: kernel where "fired_kernel = mc_trigger_BBFP (T_TRIG_TRIGGER, 0x2000003) armed_kernel"

lemma fired_kernel_simps:
  "ValidTrigVector (event fired_kernel) = BBFP_Arms"
  "sc_timestamps (event fired_kernel) = (\<lambda>_. one_stamp 500)" "mc_timestamps (event fired_kernel) = (\<lambda>_. one_stamp 2000)"
  "sem (event fired_kernel) = False" "CTIME_sem (event fired_kernel) = False" "flmcdHz fired_kernel = LIBERA_FLMC_INITIAL"
  using valid_trigger_toggles(2) [of armed_kernel T_TRIG_TRIGGER] armed_kernel_simps
  by (simp_all add: fired_kernel_def mc_trigger_BBFP_def mc_get_trigger_BBFP_def Let_def)

lemma fired_kernel_times: "lmt (last_arm fired_kernel) = 0x2000000" "lmt (last_trigger fired_kernel) = 0x2000003"
proof -
  have o: "armed_order (ucast (HB_ATOMS div 2)) bunch_kernel"
    unfolding bunch_kernel_def by (rule bunch_init_armed_order) (simp_all add: kernel_d1_order)
  then have a: "armed_order 0x2000000 armed_kernel"
    using armed_order_step [of _ bunch_kernel "(T_TRIG_POST_MORTEM, 0x2000000)"]
    by (simp add: armed_kernel_def HB_ATOMS_def)
  have "lmt (last_arm armed_kernel) = 0x2000000"
    using o valid_trigger_toggles(1) [of bunch_kernel T_TRIG_POST_MORTEM] bunch_kernel_simps
    by (simp add: armed_kernel_def mc_trigger_BBFP_def libera_MCtrig_specific_BBFP_def last_arm_def T_TRIG_POST_MORTEM_def
        T_TRIG_TRIGGER_def T_TRIG_FA0_def lmt_getFrom_putLMT armed_order_def)
  then show "lmt (last_arm fired_kernel) = 0x2000000" "lmt (last_trigger fired_kernel) = 0x2000003"
    using a valid_trigger_toggles(2) [of armed_kernel T_TRIG_TRIGGER] armed_kernel_simps
    by (simp_all add: fired_kernel_def mc_trigger_BBFP_def mc_get_trigger_BBFP_def Let_def last_arm_def last_trigger_def
        lmt_getFrom_putLMT armed_order_def T_TRIG_TRIGGER_def T_TRIG_POST_MORTEM_def)
qed

lemma position_run:
  "\<exists>k' loc'. libera_position_to_trigger bunch_pos_env (last_trigger fired_kernel) bunch_loc 0 fired_kernel
     = Ret (k', loc', 15, None)"
proof -
  obtain k1 where c: "libera_get_CTIME False [] fired_kernel = Ret (k1, Inr \<lparr>lst = 500, lmt = 2000\<rparr>)"
    using CTIME_one_stamp [of fired_kernel 500 2000 False] fired_kernel_simps by auto
  then have "getFromCircBuf (paired_timestamps (event k1) T_TRIG_POST_MORTEM) = last_arm fired_kernel"
    "flmcdHz k1 = LIBERA_FLMC_INITIAL"
    using sleep_frame_CTIME [OF c] fired_kernel_simps by (simp_all add: sleep_frame_def last_arm_def)
  then show ?thesis
    using c fired_kernel_times
    by (simp add: libera_position_to_trigger_def no_stop_wait bunch_pos_env_def Let_def bb_trigger_pos_def
        mod_op_def div_u64_rem_def BBFP_MT_SAMPLES_def libera_update_timestamp_def lmt2lst_def div_u64_def
        DELTA_LMT_OVERFLOW_def LIBERA_FLMC_INITIAL_def)
qed

theorem trigger_position_aligned_witness:
  "\<exists>k' loc'. libera_position_to_trigger bunch_pos_env (last_trigger fired_kernel) bunch_loc 0 fired_kernel
     = Ret (k', loc', 15, None) \<and> trig_position loc' = 15 \<and> (5 :: nat) dvd 15"
proof -
  obtain k' loc' where r: "libera_position_to_trigger bunch_pos_env (last_trigger fired_kernel) bunch_loc 0 fired_kernel
     = Ret (k', loc', 15, None)"
    using position_run by blast
  from trigger_position_aligned [OF r] r show ?thesis by (auto simp: bunch_pos_env_def fired_kernel_times)
qed

section \<open>Seeking\<close>

lemma sint_of_int_s64: "- 9223372036854775808 \<le> i \<Longrightarrow> i < 9223372036854775808 \<Longrightarrow> sint (of_int i :: s64) = i"
  by (simp add: sint_sbintrunc' signed_take_bit_int_eq_self)

text \<open>C26. After a seek the position of a file of the bunch-by-bunch build lies within the \<open>2 ^ 27\<close> samples of the
  history buffer around its trigger, from \<open>2 ^ 26\<close> samples before the trigger's logical atom to \<open>2 ^ 26\<close>
  behind it, whatever the offset: the call returns the new position.\<close>

theorem seek_stays_in_buffer:
  assumes "libera_dd_llseek_BBFP env offset 1 loc p k = Ret (k', loc', p', Inr r)"
    "bp_atomsize env \<noteq> 0" "unat (trig_position loc') < 2 ^ 62"
  shows "r = p'
    \<and> sint p' \<in> {int (unat (trig_position loc')) - int (unat (trig_position loc') mod unat (bp_atomsize env)) - 2 ^ 26
        .. int (unat (trig_position loc')) - int (unat (trig_position loc') mod unat (bp_atomsize env)) + 2 ^ 26}"
proof -
  obtain tt new where n: "libera_new_trigger loc k = (tt, new)" by fastforce
  obtain k1 loc1 p1 where
    c: "(if new then libera_position_to_trigger env tt loc p k else Ret (k, loc, p, None)) = Ret (k1, loc1, p1, None)"
    using assms(1) n by (auto simp: libera_dd_llseek_BBFP_def call_bind_Ret_iff split: option.splits)
  obtain m where m: "mod_op (trig_position loc1) (bp_atomsize env) = Some m"
    "unat m = unat (trig_position loc1) mod unat (bp_atomsize env)"
    using mod_op_unat [OF assms(2)] by blast
  define eof where "eof = trig_position loc1 + 0x4000000 - ucast m"
  have e: "bb_eof (bp_atomsize env) (trig_position loc1) = Some eof"
    using m(1) by (simp add: bb_eof_def eof_def LIBERA_DD_CIRCBUF_SAMP_def LIBERA_HB_SIZE_def LIBERA_DD_SAMP_SIZE_def)
  define q where "q = bb_clamp (eof - 0x8000000) eof (p1 + offset)"
  have b: "bb_clamp (eof - ucast LIBERA_DD_CIRCBUF_SAMP) eof (p1 + offset) = q"
    by (simp add: q_def LIBERA_DD_CIRCBUF_SAMP_def LIBERA_HB_SIZE_def LIBERA_DD_SAMP_SIZE_def)
  obtain loc2 x where u: "libera_update_timestamp (flmcdHz k1) loc1 q = Some (loc2, x)"
    using assms(1) n c e b
    by (cases "libera_update_timestamp (flmcdHz k1) loc1 q") (auto simp: libera_dd_llseek_BBFP_def)
  have r: "p' = q" "r = q" "loc' = loc2" using assms(1) n c e b u by (auto simp: libera_dd_llseek_BBFP_def Let_def)
  have t: "trig_position loc1 = trig_position loc'" using update_timestamp_frame(1) [OF u] r(3) by simp
  let ?T = "int (unat (trig_position loc'))" let ?m = "int (unat m)"
  have "?T < int (2 ^ 62)" using assms(3) by (simp only: of_nat_less_iff)
  then have tl: "?T < 4611686018427387904" by simp
  have ml: "unat m \<le> unat (trig_position loc')" by (simp add: m(2) t)
  have mi: "?m \<le> ?T" using ml by (simp only: of_nat_le_iff)
  have s: "sint (of_int (?T + 67108864 - ?m) :: s64) = ?T + 67108864 - ?m"
    by (rule sint_of_int_s64; use tl mi in linarith)
  have s': "sint (of_int (?T - 67108864 - ?m) :: s64) = ?T - 67108864 - ?m"
    by (rule sint_of_int_s64; use tl mi in linarith)
  have "eof = of_int (?T + 67108864 - ?m)" "eof - 0x8000000 = of_int (?T - 67108864 - ?m)"
    by (simp_all add: eof_def t)
  then have se: "sint eof = ?T + 67108864 - ?m" and sb: "sint (eof - 0x8000000) = ?T - 67108864 - ?m"
    using s s' by metis+
  have "sint (eof - 0x8000000) \<le> sint q \<and> sint q \<le> sint eof"
    using se sb by (auto simp: q_def bb_clamp_def word_sless_alt)
  then show ?thesis using r m(2) se sb by (simp add: t)
qed

lemma update_timestamp_total: "f \<noteq> 0 \<Longrightarrow> \<exists>loc' e. libera_update_timestamp f loc p = Some (loc', e)"
  by (auto simp: libera_update_timestamp_def Let_def lmt2lst_def div_u64_def split: if_splits sum.splits)

lemma seek_run:
  "\<exists>k' loc'. libera_dd_llseek_BBFP bunch_pos_env 100 1 bunch_loc 0 fired_kernel = Ret (k', loc', 115, Inr 115)
     \<and> trig_position loc' = 15"
proof -
  obtain k1 loc1 where r: "libera_position_to_trigger bunch_pos_env (last_trigger fired_kernel) bunch_loc 0 fired_kernel
     = Ret (k1, loc1, 15, None)"
    using position_run by blast
  have n: "libera_new_trigger bunch_loc fired_kernel = (last_trigger fired_kernel, True)"
    by (simp add: libera_new_trigger_def fired_kernel_times bunch_loc_def)
  have f: "flmcdHz k1 = LIBERA_FLMC_INITIAL" "trig_position loc1 = 15"
    using position_to_trigger_cases [OF r] fired_kernel_simps(6) by (simp_all add: sleep_frame_def)
  obtain loc2 e where u: "libera_update_timestamp (flmcdHz k1) loc1 115 = Some (loc2, e)"
    using update_timestamp_total [of "flmcdHz k1" loc1 115] by (auto simp: f LIBERA_FLMC_INITIAL_def)
  have "bb_eof 5 15 = Some 0x400000F"
    by (simp add: bb_eof_def mod_op_def div_u64_rem_def LIBERA_DD_CIRCBUF_SAMP_def LIBERA_HB_SIZE_def LIBERA_DD_SAMP_SIZE_def)
  then show ?thesis
    using r n f u update_timestamp_frame(1) [OF u]
    by (simp add: libera_dd_llseek_BBFP_def bunch_pos_env_def bb_clamp_def word_sless_alt LIBERA_DD_CIRCBUF_SAMP_def
        LIBERA_HB_SIZE_def LIBERA_DD_SAMP_SIZE_def)
qed

theorem seek_stays_in_buffer_witness:
  "\<exists>k' loc'. libera_dd_llseek_BBFP bunch_pos_env 100 1 bunch_loc 0 fired_kernel = Ret (k', loc', 115, Inr 115)
     \<and> sint (115 :: s64) \<in> {15 - 2 ^ 26 .. 15 + 2 ^ 26}"
proof -
  obtain k' loc' where r: "libera_dd_llseek_BBFP bunch_pos_env 100 1 bunch_loc 0 fired_kernel = Ret (k', loc', 115, Inr 115)"
    "trig_position loc' = 15"
    using seek_run by blast
  from seek_stays_in_buffer [OF r(1)] r show ?thesis by (auto simp: bunch_pos_env_def)
qed

section \<open>Decimation\<close>

text \<open>Every \<open>d\<close>-th sample after the first \<open>k\<close>, and how many samples to skip after a list.\<close>

fun every :: "nat \<Rightarrow> nat \<Rightarrow> 'a list \<Rightarrow> 'a list" where
  "every d k [] = []"
| "every d 0 (x # xs) = x # every d (d - 1) xs"
| "every d (Suc k) (x # xs) = every d k xs"

fun to_skip :: "nat \<Rightarrow> nat \<Rightarrow> 'a list \<Rightarrow> nat" where
  "to_skip d k [] = k"
| "to_skip d 0 (x # xs) = to_skip d (d - 1) xs"
| "to_skip d (Suc k) (x # xs) = to_skip d k xs"

lemma every_append: "every d k (xs @ ys) = every d k xs @ every d (to_skip d k xs) ys"
  by (induction d k xs rule: every.induct) auto

lemma to_skip_append: "to_skip d k (xs @ ys) = to_skip d (to_skip d k xs) ys"
  by (induction d k xs rule: every.induct) auto

lemma every_drop: "every d k xs = every d 0 (drop k xs)"
  by (induction d k xs rule: every.induct) auto

lemma to_skip_drop: "to_skip d k xs = (if length xs \<le> k then k - length xs else to_skip d 0 (drop k xs))"
proof (induction d k xs rule: to_skip.induct)
  case (2 d x xs)
  then show ?case by simp
qed auto

lemma to_skip_less: "k < d \<Longrightarrow> to_skip d k xs < d"
  by (induction d k xs rule: to_skip.induct) auto

lemma every_index:
  assumes "0 < d" "length xs \<le> j * d" "length xs + d > j * d"
  shows "every d 0 xs = map (\<lambda>q. xs ! (q * d)) [0 ..< j]" "to_skip d 0 xs = j * d - length xs"
  using assms
proof (induction j arbitrary: xs)
  case (Suc j)
  {
    case 1
    then obtain x ys where xs: "xs = x # ys" by (cases xs) auto
    have "j = 0" if "\<not> d \<le> length xs" using 1 that by (cases j) auto
    then have "every d 0 (drop d xs) = map (\<lambda>q. drop d xs ! (q * d)) [0 ..< j]"
      using Suc.IH(1) [of "drop d xs"] 1 by (cases "d \<le> length xs") auto
    moreover have "drop d xs ! (q * d) = xs ! (Suc q * d)" if "q < j" for q
    proof -
      have "d \<le> length xs" using 1 that by (cases j) auto
      then show ?thesis by (simp add: add.commute)
    qed
    moreover have "drop (d - 1) ys = drop d xs" using 1 by (cases d) (auto simp: xs)
    ultimately show ?case
      using every_drop [of d "d - 1" ys] by (simp add: xs upt_conv_Cons map_Suc_upt [symmetric] del: upt_Suc)
  next
    case 2
    then obtain x ys where xs: "xs = x # ys" by (cases xs) auto
    have d: "drop (d - 1) ys = drop d xs" using 2 by (cases d) (auto simp: xs)
    have j: "j = 0" if "length xs \<le> d" using 2 that by (cases j) auto
    show ?case
      using Suc.IH(2) [of "drop d xs"] 2 to_skip_drop [of d "d - 1" ys] d j
      by (cases "length xs \<le> d") (auto simp: xs)
  }
qed auto

lemma dec_loop_result:
  assumes "1 < d" "dec_loop d n base (j * d) j buf = (buf', i', j')"
  shows "map buf' [base ..< base + j'] = map buf [base ..< base + j] @ map (\<lambda>q. buf (base + q * d)) [j ..< j']
    \<and> i' = j' * d \<and> n \<le> i' \<and> j \<le> j' \<and> (j < j' \<longrightarrow> i' < n + d)"
  using assms(2)
proof (induction "n - j * d" arbitrary: j buf rule: less_induct)
  case less
  show ?case
  proof (cases "j * d < n")
    case True
    define buf1 where "buf1 = buf(base + j := buf (base + j * d))"
    have r: "dec_loop d n base (Suc j * d) (Suc j) buf1 = (buf', i', j')"
      using less(2) True assms(1) by (simp add: dec_loop.simps [of d n base "j * d"] buf1_def add.commute)
    have IH: "map buf' [base ..< base + j'] = map buf1 [base ..< base + Suc j] @ map (\<lambda>q. buf1 (base + q * d)) [Suc j ..< j']
      \<and> i' = j' * d \<and> n \<le> i' \<and> Suc j \<le> j' \<and> (Suc j < j' \<longrightarrow> i' < n + d)"
    proof (rule less(1) [OF _ r])
      show "n - Suc j * d < n - j * d" using True assms(1) by simp
    qed
    have later: "buf1 (base + q * d) = buf (base + q * d)" if "Suc j \<le> q" for q
    proof -
      have "q * 1 < q * d" using assms(1) that by (intro mult_strict_left_mono) auto
      then have "q * d \<noteq> j" using that by linarith
      then show ?thesis by (simp add: buf1_def)
    qed
    have a: "map buf1 [base ..< base + Suc j] = map buf [base ..< base + j] @ [buf (base + j * d)]"
      by (simp add: buf1_def)
    have b: "map (\<lambda>q. buf1 (base + q * d)) [Suc j ..< j'] = map (\<lambda>q. buf (base + q * d)) [Suc j ..< j']"
      using later by simp
    have "[j ..< j'] = j # [Suc j ..< j']" using IH by (simp add: upt_conv_Cons)
    moreover have "i' < n + d"
    proof (cases "Suc j < j'")
      case False
      then have "j' = Suc j" using IH by simp
      then show ?thesis using IH True by simp
    qed (use IH in simp)
    ultimately show ?thesis using IH a b by simp
  next
    case False
    then have "buf' = buf" "i' = j * d" "j' = j" using less(2) by (auto simp: dec_loop.simps)
    then show ?thesis using False by simp
  qed
qed

text \<open>A chunk stands at the front of the memory, something else behind it.\<close>

definition chunk_mem :: "(nat \<Rightarrow> 'a) \<Rightarrow> 'a list \<Rightarrow> nat \<Rightarrow> 'a" where
  "chunk_mem rest c i = (if i < length c then c ! i else rest i)"

lemma copy_chunk:
  fixes d off :: u32
  assumes "unat off < unat d" "length c < 2 ^ 31" "c = [] \<or> unat off \<noteq> length c"
  shows "\<exists>mem. copy_buffer_to_user False (chunk_mem rest c) 0 (of_nat (length c)) d off
    = Ret (mem, every (unat d) (unat off) c, of_nat (to_skip (unat d) (unat off) c),
           Inr (of_nat (length (every (unat d) (unat off) c))))"
proof -
  have l: "unat (of_nat (length c) :: u32) = length c"
    using assms(2) by (simp add: unat_of_nat take_bit_nat_eq_self)
  consider "c = []" | "c \<noteq> []" "length c < unat off" | "c \<noteq> []" "unat off < length c" using assms(3) by linarith
  then show ?thesis
  proof cases
    case 1
    then show ?thesis by (simp add: copy_buffer_to_user_def)
  next
    case 2
    then have "(of_nat (length c) :: u32) < off" "(of_nat (length c) :: u32) \<noteq> 0"
      using l by (simp_all add: word_less_nat_alt flip: unat_eq_0)
    moreover have "unat (off - of_nat (length c)) = unat off - length c" using 2 l by (simp add: unat_sub_if')
    then have "(of_nat (unat (off - of_nat (length c))) :: u32) = of_nat (unat off - length c)" by simp
    then have "off - of_nat (length c) = of_nat (unat off - length c)" by simp
    ultimately show ?thesis
      using 2 every_drop [of "unat d" "unat off" c] to_skip_drop [of "unat d" "unat off" c]
      by (simp add: copy_buffer_to_user_def)
  next
    case 3
    let ?n = "length c - unat off"
    have n: "(of_nat (length c) :: u32) \<noteq> 0" "\<not> (of_nat (length c) :: u32) < off"
      "\<not> (0x80000000 :: u32) \<le> of_nat (length c)" "unat (of_nat (length c) - off) = ?n"
      using 3 l assms(2) by (simp_all add: word_less_nat_alt word_le_nat_alt unat_sub_if' flip: unat_eq_0)
    show ?thesis
    proof (cases "1 < d")
      case True
      then have d: "1 < unat d" by (simp add: word_less_nat_alt)
      obtain mem i j where r: "dec_loop (unat d) ?n (unat off) (1 * unat d) 1 (chunk_mem rest c) = (mem, i, j)"
        by (metis prod_cases3)
      note f = dec_loop_result [OF d r]
      have "j * unat d < ?n + unat d" using f 3 by (cases "1 < j") auto
      then have e: "every (unat d) 0 (drop (unat off) c) = map (\<lambda>q. drop (unat off) c ! (q * unat d)) [0 ..< j]"
        "to_skip (unat d) 0 (drop (unat off) c) = j * unat d - ?n"
        using every_index [of "unat d" "drop (unat off) c" j] f d by simp_all
      have same: "drop (unat off) c ! (q * unat d) = chunk_mem rest c (unat off + q * unat d)" if "q < j" for q
      proof -
        have "q * unat d + unat d \<le> j * unat d" using that by (metis Suc_leI mult_Suc mult_le_mono1 add.commute)
        then have "q * unat d < ?n" using \<open>j * unat d < ?n + unat d\<close> by linarith
        then have "unat off + q * unat d < length c" using 3 by linarith
        then show ?thesis using 3 by (simp add: chunk_mem_def)
      qed
      then have "map mem [unat off ..< unat off + j] = every (unat d) (unat off) c"
        using same [of 0] f e(1) every_drop [of "unat d" "unat off" c] upt_conv_Cons [of 0 j] by simp
      moreover have "to_skip (unat d) (unat off) c = i - ?n"
        using f e(2) to_skip_drop [of "unat d" "unat off" c] 3 by simp
      moreover have "length (every (unat d) (unat off) c) = j"
        using e(1) every_drop [of "unat d" "unat off" c] by simp
      ultimately show ?thesis using n r True by (simp add: copy_buffer_to_user_def Let_def)
    next
      case False
      then have "unat d = 1" "off = 0"
        using assms(1) by (simp_all add: word_less_nat_alt flip: unat_eq_0)
      moreover have "every 1 0 xs = xs \<and> to_skip 1 0 xs = 0" for xs :: "'a list" by (induction xs) auto
      moreover have "map (chunk_mem rest c) [0 ..< length c] = c"
        by (rule nth_equalityI) (simp_all add: chunk_mem_def)
      ultimately show ?thesis
        using n False l by (simp add: copy_buffer_to_user_def Let_def)
    qed
  qed
qed

text \<open>The chunks of a read, one after another, each at the front of its memory.\<close>

fun copy_chunks :: "(nat \<Rightarrow> 'a) \<Rightarrow> u32 \<Rightarrow> u32 \<Rightarrow> 'a list list \<Rightarrow> ('a list \<times> u32) call" where
  "copy_chunks rest d off [] = Ret ([], off)"
| "copy_chunks rest d off (c # cs) =
     call_bind (copy_buffer_to_user False (chunk_mem rest c) 0 (of_nat (length c)) d off) (\<lambda>(mem, out, off, r).
       call_bind (copy_chunks rest d off cs) (\<lambda>(outs, off). Ret (out @ outs, off)))"

text \<open>Some chunk ends exactly where its next sample would be.\<close>

fun ends_at_sample :: "nat \<Rightarrow> nat \<Rightarrow> 'a list list \<Rightarrow> bool" where
  "ends_at_sample d k [] = False"
| "ends_at_sample d k (c # cs) = (c \<noteq> [] \<and> length c = k \<or> ends_at_sample d (to_skip d k c) cs)"

text \<open>C24. Copying a read of the bunch-by-bunch build chunk by chunk, each decimated in place with the offset
  the chunk before left, gives the user exactly every \<open>dec\<close>-th sample of the whole and the right offset for
  the next chunk, however the data is cut, as long as no chunk ends just where its next sample would be.\<close>

theorem chunked_decimation:
  assumes "unat off < unat d" "\<forall>c\<in>set cs. length c < 2 ^ 31" "\<not> ends_at_sample (unat d) (unat off) cs"
  shows "copy_chunks rest d off cs
    = Ret (every (unat d) (unat off) (concat cs), of_nat (to_skip (unat d) (unat off) (concat cs)))"
  using assms
proof (induction cs arbitrary: off)
  case (Cons c cs)
  let ?k = "to_skip (unat d) (unat off) c"
  obtain mem r where c: "copy_buffer_to_user False (chunk_mem rest c) 0 (of_nat (length c)) d off
      = Ret (mem, every (unat d) (unat off) c, of_nat ?k, r)"
    using copy_chunk [of off d c rest] Cons.prems by auto
  have k: "?k < unat d" by (rule to_skip_less [OF Cons.prems(1)])
  moreover have "unat d < 2 ^ LENGTH(32)" by (rule unsigned_less)
  ultimately have "unat (of_nat ?k :: u32) = ?k" by (simp add: unat_of_nat take_bit_nat_eq_self)
  then show ?case
    using Cons.IH [of "of_nat ?k"] Cons.prems k c by (simp add: every_append to_skip_append)
qed simp

lemma decimation_example:
  "every 3 0 [0, 1, 2, 3, 4, 5, 6, 7 :: int] = [0, 3, 6]" "to_skip 3 0 [0, 1, 2, 3, 4, 5, 6, 7 :: int] = 1"
  "ends_at_sample 3 0 [[0, 1], [2, 3, 4, 5], [6, 7 :: int]] = False" "every 3 2 [1, 2 :: int] = []"
  by code_simp+

theorem chunked_decimation_witness:
  "copy_chunks (\<lambda>_. 99) 3 0 [[0, 1], [2, 3, 4, 5], [6, 7]] = Ret ([0, 3, 6 :: int], 1)"
  using chunked_decimation [of "0 :: u32" 3 "[[0, 1], [2, 3, 4, 5], [6, 7 :: int]]" "\<lambda>_. 99"] decimation_example
  by (simp del: copy_chunks.simps ends_at_sample.simps)

text \<open>When a chunk of the bunch-by-bunch read does end just where its next sample would be, the copy to
  user space takes one more sample, the stale one behind the data.\<close>

theorem chunk_end_stale_sample:
  fixes d :: u32
  assumes "1 < d" "c \<noteq> []" "length c < unat d" "length c < 2 ^ 31"
  shows "copy_chunks rest d (of_nat (length c)) [c] = Ret ([rest (length c)], d)"
proof -
  have l: "unat (of_nat (length c) :: u32) = length c"
    using assms(4) by (simp add: unat_of_nat take_bit_nat_eq_self)
  have n: "(of_nat (length c) :: u32) \<noteq> 0" "\<not> (0x80000000 :: u32) \<le> of_nat (length c)"
    using assms l by (simp_all add: word_le_nat_alt flip: unat_eq_0)
  moreover have "dec_loop (unat d) 0 s (unat d) (Suc 0) mem = (mem, unat d, Suc 0)" for s and mem :: "nat \<Rightarrow> 'a"
    by (simp add: dec_loop.simps [of "unat d" 0])
  ultimately show ?thesis
    using assms l by (simp add: copy_buffer_to_user_def chunk_mem_def)
qed

theorem chunk_end_stale_sample_witness:
  "copy_chunks (\<lambda>_. 99) 3 2 [[1, 2 :: int]] = Ret ([99], 3) \<and> every 3 2 [1, 2 :: int] = []"
  using chunk_end_stale_sample [of 3 "[1, 2 :: int]" "\<lambda>_. 99"] decimation_example(4)
  by (simp del: copy_chunks.simps)

section \<open>The ends of the buffer\<close>

lemma to_eof_at:
  assumes "l \<noteq> 0" "unat trig mod unat l = 0"
  shows "bb_to_eof l trig p = Some (ucast (p - trig + 0x4000000))"
proof -
  obtain m where "mod_op trig l = Some m" "unat m = 0" using mod_op_unat [OF assms(1), of trig] assms(2) by auto
  then show ?thesis
    by (simp add: bb_to_eof_def LIBERA_DD_CIRCBUF_SAMP_def LIBERA_HB_SIZE_def LIBERA_DD_SAMP_SIZE_def unsigned_eq_0_iff)
qed

text \<open>A read of the bunch-by-bunch device at the start of the history buffer, where a seek puts a file that
  goes back as far as it can, returns no data and changes nothing, whatever \<open>count\<close> is: the distance to the
  end of the buffer is counted from the wrong side.\<close>

theorem read_at_start_is_empty:
  assumes "bp_atomsize (be_pos env) \<noteq> 0"
    "unat (trig_position (bs_loc s)) mod unat (bp_atomsize (be_pos env)) = 0"
    "bs_pos s = trig_position (bs_loc s) - 0x4000000"
  shows "libera_dd_read_BBFP env count s k = Ret (k, s, Inr 0, [])"
proof -
  have "bb_to_eof (bp_atomsize (be_pos env)) (trig_position (bs_loc s)) (bs_pos s) = Some 0"
    by (simp add: to_eof_at [OF assms(1,2)] assms(3))
  moreover have "bb_samples 0 c d = 0" for c d by (auto simp: bb_samples_def Let_def word_gt_0)
  ultimately show ?thesis by (simp add: libera_dd_read_BBFP_def Let_def split: prod.splits)
qed

definition start_env :: bb_env where
  "start_env = \<lparr>be_pos = bunch_pos_env, be_signal = False, be_rounds = []\<rparr>"

definition start_state :: "int bb_state" where
  "start_state = \<lparr>bs_loc = bunch_loc\<lparr>trig_position := 15\<rparr>, bs_f_pos = 15 - 0x4000000, bs_pos = 15 - 0x4000000,
     bs_q = \<lparr>b_buf = (\<lambda>_. 0), b_put = 0, b_get = 0, b_csize = 0, b_remaining = 0, b_status = 0, b_overrun = False,
       b_hw = [], b_transfer = False\<rparr>\<rparr>"

theorem read_at_start_is_empty_witness:
  "libera_dd_read_BBFP start_env 4096 start_state fired_kernel = Ret (fired_kernel, start_state, Inr 0, [])"
  by (rule read_at_start_is_empty) (simp_all add: start_env_def start_state_def bunch_pos_env_def)

text \<open>A read of no bytes (or of one) with a decimation above one asks the board for all samples up to the end
  of the buffer and copies every \<open>dec\<close>-th of them to the user, who has no room for any: the last sample is
  counted from \<open>count / 2 - 1\<close> on, which wraps.\<close>

theorem empty_read_takes_rest:
  fixes to_eof :: s32
  assumes "count < 2" "2 \<le> d" "to_eof \<le> 0 - d"
  shows "bb_samples to_eof count d = to_eof"
proof -
  have "count div LIBERA_DD_SAMP_SIZE = 0"
    using assms(1) by (simp add: LIBERA_DD_SAMP_SIZE_def word_unat_eq_iff unat_div word_less_nat_alt)
  then have w: "(count div LIBERA_DD_SAMP_SIZE - 1) * d + 1 = 0 - d + 1" by simp
  have "d \<noteq> 0" using assms(2) by auto
  then have "unat (0 - d) = 2 ^ 32 - unat d" using unat_sub_if' [of 0 d] by (auto simp: unat_gt_0)
  moreover have "2 \<le> unat d" using assms(2) by (simp add: word_le_nat_alt)
  moreover have "unat d < 2 ^ LENGTH(32)" by (rule unsigned_less)
  ultimately have "unat (0 - d + 1) = unat (0 - d) + 1" by (simp only: unat_word_ariths) simp
  then have "to_eof < 0 - d + 1" using assms(3) by (simp add: word_less_nat_alt word_le_nat_alt)
  then show ?thesis unfolding bb_samples_def Let_def w by simp
qed

theorem empty_read_takes_rest_witness: "bb_samples 0x7FFFFF 0 16 = 0x7FFFFF"
  using empty_read_takes_rest [of 0 16 "0x7FFFFF"] by simp

section \<open>One trigger per read\<close>


definition one_sample_round :: bb_round where
  "one_sample_round = \<lparr>br_irqs = [], br_trigs = [], br_status = 1, br_sync = [], br_signal = False,
     br_sleeps = [\<lparr>sl_irqs = [0], sl_trigs = [], sl_signal = False\<rparr>], br_fails = (False, False), br_break = False\<rparr>"

definition four_samples :: "int bdma" where
  "four_samples = \<lparr>b_buf = (\<lambda>_. 0), b_put = 0, b_get = 0, b_csize = 0, b_remaining = 1, b_status = 0, b_overrun = False,
     b_hw = [10, 20, 30, 40], b_transfer = False\<rparr>"

lemmas bunch_consts = BUNCH_FIFO_ATOMS_def BUNCH_FIFO_MASK_def BUNCH_BLOCK_ATOMS_def BUNCH_OB_SIZE_def BBFP_MT_SAMPLES_def

lemma one_sample_dma:
  "\<exists>q. dma_copy_fifo_to_buffer 100 one_sample_round four_samples k = Ret (q, k, Inr 4) \<and> b_get q = 0 \<and> b_put q = 1
     \<and> b_remaining q = 0 \<and> b_buf q 3 = 40"
  by (simp add: dma_copy_fifo_to_buffer_def one_sample_round_def four_samples_def b_sync.simps b_get_csize_def b_len_def
      b_tail_def b_nonempty_def b_command_def b_interrupt_def bunch_consts DD_OB_OVERRUN_def word_sless_alt Let_def)

lemma one_sample_rounds:
  "\<exists>q v. bb_rounds 100 1 1 1 [one_sample_round] 0 four_samples
      \<lparr>v_smpl = 3, v_off = 0, v_processed = 0, v_copied = 0, v_out = []\<rparr> k = Ret (q, v, k, None)
     \<and> v_processed v = 1 \<and> v_off v = 0 \<and> v_copied v = 1 \<and> v_out v = [40]"
proof -
  obtain q where q: "dma_copy_fifo_to_buffer 100 one_sample_round four_samples k = Ret (q, k, Inr 4)" "b_get q = 0"
    "b_put q = 1" "b_remaining q = 0" "b_buf q 3 = 40"
    using one_sample_dma by blast
  have small: "\<not> (0x80000000 :: u32) \<le> 1" by (simp add: word_le_nat_alt)
  have "\<exists>q'. bb_copy_samples 1 1 (False, False) 4 q \<lparr>v_smpl = 3, v_off = 0, v_processed = 0, v_copied = 0, v_out = []\<rparr>
    = Ret (q', \<lparr>v_smpl = 0, v_off = 0, v_processed = 1, v_copied = 1, v_out = [40]\<rparr>, None) \<and> b_remaining q' = 0
      \<and> b_get q' = 1 \<and> b_put q' = 1"
    using q small by (simp add: bb_copy_samples_def copy_buffer_to_user_def sdiv_mt_def bunch_consts word_sless_alt Let_def)
  then obtain q' where c: "bb_copy_samples 1 1 (False, False) 4 q \<lparr>v_smpl = 3, v_off = 0, v_processed = 0, v_copied = 0, v_out = []\<rparr>
    = Ret (q', \<lparr>v_smpl = 0, v_off = 0, v_processed = 1, v_copied = 1, v_out = [40]\<rparr>, None)" "b_remaining q' = 0"
    "b_get q' = 1" "b_put q' = 1" by blast
  have "br_irqs one_sample_round = []" "br_trigs one_sample_round = []" "br_fails one_sample_round = (False, False)"
    "br_break one_sample_round = False"
    by (simp_all add: one_sample_round_def)
  then show ?thesis using q(1) c by (simp add: b_nonempty_def word_sless_alt)
qed

definition one_sample_env :: bb_env where
  "one_sample_env = \<lparr>be_pos = bunch_pos_env, be_signal = False, be_rounds = [one_sample_round]\<rparr>"

definition one_sample_state :: "int bb_state" where
  "one_sample_state = \<lparr>bs_loc = bunch_loc\<lparr>trig_position := 15, lasttrig := \<lparr>lst = 0, lmt = 0x2000003\<rparr>\<rparr>, bs_f_pos = 15,
     bs_pos = 15, bs_q = four_samples\<rparr>"

lemma mc_trigger_dd: "dd (mc_trigger_BBFP e k) = dd k"
  by (auto simp: mc_trigger_BBFP_def mc_get_trigger_BBFP_def libera_MCtrig_specific_BBFP_def libera_valid_trigger_BBFP_def
      valid_trigger_def upd_paired_def Let_def)

lemma fired_kernel_dd: "sem (dd fired_kernel) = False"
  by (simp add: fired_kernel_def armed_kernel_def mc_trigger_dd bunch_kernel_def libera_init_specific_BBFP_def
      init_triggers_bunch_def virgin_trigger_def libera_sctrig_enable_def libera_mctrig_enable_def Let_def kernel_d1_def
      upd_paired_def init_dd_def)

lemma one_sample_read:
  "\<exists>k' s'. libera_dd_read_BBFP one_sample_env 2 one_sample_state fired_kernel = Ret (k', s', Inr 2, [40])"
proof -
  define k1 where "k1 = libera_dd_write_CBfifo_BBFP 0 3 1 1 1 fired_kernel"
  have lk: "last_trigger k1 = last_trigger fired_kernel"
    by (simp add: k1_def libera_dd_write_CBfifo_BBFP_def write_CBfifo_def last_trigger_def)
  have "flmcdHz fired_kernel \<noteq> 0" by (simp add: fired_kernel_simps LIBERA_FLMC_INITIAL_def)
  then obtain loc1 e where u: "libera_update_timestamp (flmcdHz fired_kernel) (bs_loc one_sample_state) 15 = Some (loc1, e)"
    using update_timestamp_total by blast
  note l = update_timestamp_frame [OF u]
  have loc1: "dec loc1 = 1" "lmt (lasttrig loc1) = 0x2000003"
    using l by (simp_all add: one_sample_state_def bunch_loc_def)
  obtain q v where r: "bb_rounds 100 1 1 1 [one_sample_round] 0 four_samples
      \<lparr>v_smpl = 3, v_off = 0, v_processed = 0, v_copied = 0, v_out = []\<rparr> k1 = Ret (q, v, k1, None)"
    "v_processed v = 1" "v_off v = 0" "v_copied v = 1" "v_out v = [40]"
    using one_sample_rounds by blast
  have a: "bb_atom 15 = 3" "bb_atom_count 15 16 = 1"
    by (simp_all add: bb_atom_count_def bb_atom_def BBFP_MT_SAMPLES_def Let_def)
  have fl: "bb_flush 1 four_samples = four_samples" by (simp add: bb_flush_def b_flush_def four_samples_def)
  have d: "\<exists>k' s'. bb_read_data one_sample_env 1 15 16 (one_sample_state\<lparr>bs_loc := loc1, bs_f_pos := 15\<rparr>) fired_kernel
      = Ret (k', s', Inr 2, [40])"
    using r lk loc1 fired_kernel_times
    by (simp add: bb_read_data_def a one_sample_env_def bunch_pos_env_def one_sample_state_def fl BBFP_MT_SAMPLES_def
        HB_ATOMS_def k1_def [symmetric] libera_new_trigger_def LIBERA_DD_SAMP_SIZE_def)
  have eof: "bb_to_eof 5 15 15 = Some 0x4000000" by (simp add: to_eof_at)
  have n: "bb_samples 0x4000000 2 1 = 1" by (simp add: bb_samples_def LIBERA_DD_SAMP_SIZE_def Let_def)
  have nt: "libera_new_trigger (bs_loc one_sample_state) fired_kernel = (last_trigger fired_kernel, False)"
    by (simp add: libera_new_trigger_def fired_kernel_times one_sample_state_def)
  have s: "bs_pos one_sample_state = 15" "bs_f_pos one_sample_state = 15" "trig_position (bs_loc one_sample_state) = 15"
    "dec (bs_loc one_sample_state) = 1" "bp_atomsize (be_pos one_sample_env) = 5" "be_signal one_sample_env = False"
    by (simp_all add: one_sample_state_def bunch_loc_def one_sample_env_def bunch_pos_env_def)
  show ?thesis
    using u d fired_kernel_dd by (simp add: libera_dd_read_BBFP_def Let_def s eof n nt mutex_lock_interruptible_def)
qed


end
