(* ===== verification/Msp_Adc.thy ===== *)
theory Msp_Adc
  imports Libera_Prelude
begin

text \<open>
  The firmware of the MSP430 microcontroller that measures the supply voltages of the instrument
  (\<open>msp_adc.c\<close>): the main program converts eight channels, stores the results in a table of bytes
  and sleeps; the receive interrupt of the serial port answers the bytes of the master. The main
  program is a machine with one step for each statement, so an interrupt can come between any two
  of them. The analogue converter is a parameter: \<open>lat n\<close> tests of its flag go by before conversion
  \<open>n\<close> is complete, \<open>adc n c\<close> is then the memory register of channel \<open>c\<close>.
\<close>

section \<open>State\<close>

datatype fw_pc =
    FwConvert     \<comment> \<open>about to start a conversion\<close>
  | FwTest        \<comment> \<open>in the loop on the flag of channel 7\<close>
  | FwStore nat   \<comment> \<open>about to store the result of a channel\<close>
  | FwReady       \<comment> \<open>about to clear \<open>no_data\<close>\<close>
  | FwSleep       \<comment> \<open>about to enter the low power mode\<close>
  | FwWoken       \<comment> \<open>behind the low power mode, about to set \<open>no_data\<close>\<close>

record msp430 =
  fw_pc :: fw_pc
  byte_data :: "u8 list"
  no_data :: bool
  u0txbuf :: u8
  u0rxbuf :: u8
  urxifg :: bool          \<comment> \<open>a received byte waits for its interrupt\<close>
  lpm0 :: bool            \<comment> \<open>the processor is off\<close>
  gie :: bool             \<comment> \<open>interrupts are enabled\<close>
  conv_no :: nat          \<comment> \<open>conversions started so far\<close>
  conv_left :: nat        \<comment> \<open>tests of the flag that still fail\<close>

section \<open>Receive interrupt\<close>

text \<open>
  The loop at its beginning waits for an empty transmit buffer: the byte in it has left with the
  exchange that raised the interrupt.
\<close>

definition rx_isr :: "msp430 \<Rightarrow> msp430" where
  "rx_isr m =
     (if no_data m then m\<lparr>u0txbuf := 0xef\<rparr>
      else if u0rxbuf m \<le> 15 then m\<lparr>u0txbuf := byte_data m ! unat (u0rxbuf m)\<rparr>
      else if u0rxbuf m = 16 then m\<lparr>u0txbuf := 0xef, lpm0 := False\<rparr>
      else m\<lparr>u0txbuf := u0rxbuf m + 1\<rparr>)"

definition fw_interrupt :: "msp430 \<Rightarrow> msp430" where
  "fw_interrupt m = (if gie m \<and> urxifg m then rx_isr (m\<lparr>urxifg := False\<rparr>) else m)"

section \<open>Main program\<close>

text \<open>
  A result of 16 bits is fw_stored through the table of shorts, which is the table of bytes: its low
  byte comes first. While the processor is off no step of the main program happens.
\<close>

definition store_short :: "nat \<Rightarrow> u16 \<Rightarrow> u8 list \<Rightarrow> u8 list" where
  "store_short c v bs = bs[2 * c := ucast v, 2 * c + 1 := ucast (drop_bit 8 v)]"

definition fw_main_step :: "(nat \<Rightarrow> nat) \<Rightarrow> (nat \<Rightarrow> nat \<Rightarrow> u16) \<Rightarrow> msp430 \<Rightarrow> msp430" where
  "fw_main_step lat adc m =
     (if lpm0 m then m else
      case fw_pc m of
        FwConvert \<Rightarrow> m\<lparr>conv_no := Suc (conv_no m), conv_left := lat (Suc (conv_no m)), fw_pc := FwTest\<rparr>
      | FwTest \<Rightarrow> (if conv_left m = 0 then m\<lparr>fw_pc := FwStore 0\<rparr>
                   else m\<lparr>conv_left := conv_left m - 1\<rparr>)
      | FwStore c \<Rightarrow> m\<lparr>byte_data := store_short c (adc (conv_no m) c) (byte_data m),
                       fw_pc := (if c < 7 then FwStore (Suc c) else FwReady)\<rparr>
      | FwReady \<Rightarrow> m\<lparr>no_data := False, fw_pc := FwSleep\<rparr>
      | FwSleep \<Rightarrow> m\<lparr>lpm0 := True, gie := True, fw_pc := FwWoken\<rparr>
      | FwWoken \<Rightarrow> m\<lparr>no_data := True, fw_pc := FwConvert\<rparr>)"

text \<open>Entering the low power mode enables interrupts: a pending one comes at once.\<close>

definition fw_step :: "(nat \<Rightarrow> nat) \<Rightarrow> (nat \<Rightarrow> nat \<Rightarrow> u16) \<Rightarrow> msp430 \<Rightarrow> msp430" where
  "fw_step lat adc m = fw_interrupt (fw_main_step lat adc m)"

text \<open>The state at the beginning of the loop of \<open>main\<close>, after the setup of the peripherals.\<close>

definition fw_boot :: msp430 where
  "fw_boot =
     \<lparr>fw_pc = FwConvert, byte_data = replicate 16 0, no_data = True, u0txbuf = 0xaa, u0rxbuf = 0,
      urxifg = False, lpm0 = False, gie = False, conv_no = 0, conv_left = 0\<rparr>"

section \<open>The serial port\<close>

text \<open>
  An exchange with the master shifts out the byte of the transmit buffer while the master's byte
  comes in, and raises the receive interrupt.
\<close>

definition fw_exchange :: "u8 \<Rightarrow> msp430 \<Rightarrow> u8 \<times> msp430" where
  "fw_exchange tx m = (u0txbuf m, fw_interrupt (m\<lparr>u0rxbuf := tx, urxifg := True\<rparr>))"

text \<open>In one jiffy of the master the main program makes \<open>c\<close> steps.\<close>

definition fw_pass :: "(nat \<Rightarrow> nat) \<Rightarrow> (nat \<Rightarrow> nat \<Rightarrow> u16) \<Rightarrow> nat \<Rightarrow> nat \<Rightarrow> msp430 \<Rightarrow> msp430" where
  "fw_pass lat adc c d = (fw_step lat adc ^^ (c * d))"

section \<open>What the firmware promises\<close>

text \<open>The sixteen bytes of a conversion, low byte first.\<close>

definition conv_bytes :: "(nat \<Rightarrow> u16) \<Rightarrow> u8 list" where
  "conv_bytes v = concat (map (\<lambda>c. [ucast (v c), ucast (drop_bit 8 (v c))]) [0..<8])"

lemma length_conv_bytes [simp]: "length (conv_bytes v) = 16"
  by (simp add: conv_bytes_def upt_rec)

lemma length_store_short [simp]: "length (store_short c v bs) = length bs"
  by (simp add: store_short_def)

text \<open>The table after the results of the channels below \<open>c\<close> are stored.\<close>

definition fw_stored :: "nat \<Rightarrow> (nat \<Rightarrow> u16) \<Rightarrow> u8 list \<Rightarrow> u8 list" where
  "fw_stored c v bs = foldl (\<lambda>bs i. store_short i (v i) bs) bs [0..<c]"

lemma fw_stored_0 [simp]: "fw_stored 0 v bs = bs"
  by (simp add: fw_stored_def)

lemma fw_stored_Suc: "fw_stored (Suc c) v bs = store_short c (v c) (fw_stored c v bs)"
  by (simp add: fw_stored_def)

lemma fw_stored_all: "length bs = 16 \<Longrightarrow> fw_stored 8 v bs = conv_bytes v"
  by (cases bs rule: list.exhaust)
     (auto simp: fw_stored_def conv_bytes_def store_short_def upt_rec numeral_eq_Suc length_Suc_conv)

text \<open>
  The points of the main program. \<open>steps_left\<close> counts the steps up to the cleared \<open>no_data\<close>;
  \<open>fw_ok\<close> says what holds at each point once interrupts are enabled.
\<close>

definition steps_left :: "(nat \<Rightarrow> nat) \<Rightarrow> msp430 \<Rightarrow> nat" where
  "steps_left lat m =
     (case fw_pc m of
        FwConvert \<Rightarrow> lat (Suc (conv_no m)) + 11
      | FwTest \<Rightarrow> conv_left m + 10
      | FwStore c \<Rightarrow> 9 - c
      | FwReady \<Rightarrow> 1
      | FwSleep \<Rightarrow> 0
      | FwWoken \<Rightarrow> (if lpm0 m then 0 else lat (Suc (conv_no m)) + 12))"

definition fw_ready :: "msp430 \<Rightarrow> bool" where
  "fw_ready m \<longleftrightarrow> fw_pc m = FwSleep \<or> fw_pc m = FwWoken \<and> lpm0 m"

definition fw_asleep :: "msp430 \<Rightarrow> bool" where
  "fw_asleep m \<longleftrightarrow> fw_pc m = FwWoken \<and> lpm0 m"

text \<open>The conversion whose bytes the table holds or will hold next.\<close>

definition fw_due :: "msp430 \<Rightarrow> nat" where
  "fw_due m = (case fw_pc m of FwConvert \<Rightarrow> Suc (conv_no m)
            | FwWoken \<Rightarrow> (if lpm0 m then conv_no m else Suc (conv_no m)) | _ \<Rightarrow> conv_no m)"

definition table_ok :: "(nat \<Rightarrow> nat \<Rightarrow> u16) \<Rightarrow> msp430 \<Rightarrow> bool" where
  "table_ok adc m \<longleftrightarrow> length (byte_data m) = 16 \<and>
     (case fw_pc m of
        FwStore c \<Rightarrow> c < 8 \<and> (\<exists>bs. length bs = 16 \<and> byte_data m = fw_stored c (adc (conv_no m)) bs)
      | FwReady \<Rightarrow> byte_data m = conv_bytes (adc (conv_no m))
      | FwSleep \<Rightarrow> byte_data m = conv_bytes (adc (conv_no m))
      | FwWoken \<Rightarrow> byte_data m = conv_bytes (adc (conv_no m))
      | _ \<Rightarrow> True)"

definition fw_ok :: "(nat \<Rightarrow> nat \<Rightarrow> u16) \<Rightarrow> msp430 \<Rightarrow> bool" where
  "fw_ok adc m \<longleftrightarrow> table_ok adc m \<and> \<not> urxifg m \<and> (lpm0 m \<longrightarrow> fw_pc m = FwWoken) \<and>
     (no_data m \<longleftrightarrow> fw_pc m \<noteq> FwSleep \<and> fw_pc m \<noteq> FwWoken)"

end
