(* ===== verification/Msp_Main.thy ===== *)
theory Msp_Main
  imports Libera_Prelude
begin

text \<open>
  The Linux driver for the voltage monitor (\<open>msp_main.c\<close>, \<open>msp.h\<close>), in the build without
  \<open>MSP_IRQ\<close>: opening, closing and reading the device, the exchange of bytes over the synchronous
  serial port, the protocol with the microcontroller, the transformation of the counts to
  millivolts, loading and unloading. The microcontroller is a parameter: \<open>m_xchg\<close> exchanges one byte
  with it, \<open>m_pass\<close> lets jiffies go by. Logging is left out.
\<close>

section \<open>Constants\<close>

abbreviation (input) MSP_PROTO_END :: nat where "MSP_PROTO_END \<equiv> 16"
abbreviation (input) MSP_PROTO_CONV_START :: u32 where "MSP_PROTO_CONV_START \<equiv> 0x10"
abbreviation (input) MSP_PROTO_CONV_IN_PROGRESS :: u32 where "MSP_PROTO_CONV_IN_PROGRESS \<equiv> 0xef"
abbreviation (input) MSP_PROTO_CONV_TEST :: u32 where "MSP_PROTO_CONV_TEST \<equiv> 0xa5"
abbreviation (input) MSP_ADC_RANGE :: s32 where "MSP_ADC_RANGE \<equiv> 4096"
abbreviation (input) MSP_ADC_VREF :: s32 where "MSP_ADC_VREF \<equiv> 2500"
abbreviation (input) MSP_MAX_INTERVAL :: nat where "MSP_MAX_INTERVAL \<equiv> 1"
abbreviation (input) SIZEOF_msp_atom_t :: nat where "SIZEOF_msp_atom_t \<equiv> 32"

abbreviation (input) SSSR_BSY :: u32 where "SSSR_BSY \<equiv> push_bit 4 1"
abbreviation (input) SSSR_TFS :: u32 where "SSSR_TFS \<equiv> push_bit 5 1"
abbreviation (input) SSSR_RFS :: u32 where "SSSR_RFS \<equiv> push_bit 6 1"

text \<open>Resistor scaling coefficients: numerator and denominator.\<close>

definition res_coeff :: "(s32 \<times> s32) list" where
  "res_coeff = [(101, 100), (101, 100), (120, 100), (1511, 1000), (250, 100), (611, 100),
                (315, 100), (290, 100), (1000, 3550)]"

section \<open>State\<close>

record msp_device =
  ms_open_count :: int
  ms_writers :: u32
  ms_readers :: u32
  ms_master :: "nat option"
  ms_sem :: bool
  RX_buf :: "u32 list"
  RX_seq :: u32

record msp_file =
  mf_id :: nat
  mf_read :: bool
  mf_write :: bool

definition msp_init_dev :: msp_device where
  "msp_init_dev = \<lparr>ms_open_count = 0, ms_writers = 0, ms_readers = 0, ms_master = None, ms_sem = False,
                   RX_buf = replicate 32 0, RX_seq = 0\<rparr>"

text \<open>
  The machine around the driver: the status register of the serial port at its successive
  readings, the partner on the bus, the jiffies. \<open>b_peer\<close> is the state of the partner,
  \<open>b_polls\<close> counts the readings of the status register.
\<close>

record 'p machine =
  m_xchg :: "u8 \<Rightarrow> 'p \<Rightarrow> u8 \<times> 'p"
  m_pass :: "nat \<Rightarrow> 'p \<Rightarrow> 'p"
  m_sssr :: "nat \<Rightarrow> u32"

record 'p bus =
  b_peer :: 'p
  b_polls :: nat

definition msp_delay_jiffies :: "'p machine \<Rightarrow> nat \<Rightarrow> 'p bus \<Rightarrow> 'p bus" where
  "msp_delay_jiffies M d b = b\<lparr>b_peer := m_pass M d (b_peer b)\<rparr>"

section \<open>Exchanging words\<close>

text \<open>
  \<open>while ( !P ) msp_delay_jiffies(1)\<close>: a loop that is not left within \<open>n\<close> tests is \<open>Hang\<close>. The
  same number bounds the loop on the end of a conversion.
\<close>

fun msp_wait_until :: "'p machine \<Rightarrow> (u32 \<Rightarrow> bool) \<Rightarrow> nat \<Rightarrow> 'p bus \<Rightarrow> 'p bus call" where
  "msp_wait_until M P 0 b = Hang"
| "msp_wait_until M P (Suc n) b =
     (let st = m_sssr M (b_polls b); b = b\<lparr>b_polls := Suc (b_polls b)\<rparr> in
      if P st then Ret b else msp_wait_until M P n (msp_delay_jiffies M 1 b))"

definition ssp_sync_tx :: "'p machine \<Rightarrow> nat \<Rightarrow> 'p bus \<Rightarrow> 'p bus call" where
  "ssp_sync_tx M n b =
     call_bind (msp_wait_until M (\<lambda>st. st AND SSSR_TFS \<noteq> 0) n b) (\<lambda>b.
       msp_wait_until M (\<lambda>st. st AND SSSR_BSY = 0) n b)"

definition ssp_sync_rx :: "'p machine \<Rightarrow> nat \<Rightarrow> 'p bus \<Rightarrow> 'p bus call" where
  "ssp_sync_rx M n b =
     call_bind (msp_wait_until M (\<lambda>st. st AND SSSR_RFS \<noteq> 0) n b) (\<lambda>b.
       msp_wait_until M (\<lambda>st. st AND SSSR_BSY = 0) n b)"

text \<open>The port is set up for frames of 8 bits: the low byte goes out, a byte comes in.\<close>

definition ssp_exchange :: "'p machine \<Rightarrow> nat \<Rightarrow> u32 \<Rightarrow> 'p bus \<Rightarrow> ('p bus \<times> u32) call" where
  "ssp_exchange M n tx b =
     call_bind (ssp_sync_tx M n b) (\<lambda>b.
       let (r, p) = m_xchg M (ucast (tx AND 0xffff)) (b_peer b) in
       call_bind (ssp_sync_rx M n (b\<lparr>b_peer := p\<rparr>)) (\<lambda>b.
         let rx = ucast r AND 0xffff in Ret (msp_delay_jiffies M 1 b, rx)))"

section \<open>Counts to millivolts\<close>

text \<open>C division of \<open>int\<close> values.\<close>

definition sdiv32 :: "s32 \<Rightarrow> s32 \<Rightarrow> s32" where
  "sdiv32 a b = word_of_int (cdiv (sint a) (sint b))"

definition transform_one :: "u32 list \<Rightarrow> nat \<Rightarrow> s32 list \<Rightarrow> s32 list" where
  "transform_one d i v =
     (let v = v[i := push_bit 8 (d ! (2 * i + 1)) OR d ! (2 * i)];
          v = v[i := sdiv32 (v ! i * MSP_ADC_VREF) MSP_ADC_RANGE];
          v = v[i := sdiv32 (v ! i * fst (res_coeff ! i)) (snd (res_coeff ! i))] in
      if i = 6 then v[i := v ! i - sdiv32 (v ! 5 * 1500) 1000]
      else if i = 7 then v[i := v ! i - sdiv32 (5500 * 1500) 1000]
      else v)"

definition msp_transform :: "u32 list \<Rightarrow> s32 list \<Rightarrow> nat \<Rightarrow> s32 list" where
  "msp_transform raw v skip = foldl (\<lambda>v i. transform_one (drop skip raw) i v) v [0..<8]"

section \<open>The protocol\<close>

definition rx_store :: "u32 \<Rightarrow> msp_device \<Rightarrow> msp_device call" where
  "rx_store v d =
     (if unat (RX_seq d) < 32
      then Ret (d\<lparr>RX_buf := (RX_buf d)[unat (RX_seq d) := v], RX_seq := RX_seq d + 1\<rparr>)
      else Fault)"

fun msp_conv_wait :: "'p machine \<Rightarrow> nat \<Rightarrow> nat \<Rightarrow> 'p bus \<Rightarrow> 'p bus call" where
  "msp_conv_wait M n 0 b = Hang"
| "msp_conv_wait M n (Suc k) b =
     call_bind (ssp_exchange M n MSP_PROTO_CONV_TEST b) (\<lambda>(b, rx).
       if rx = MSP_PROTO_CONV_IN_PROGRESS then msp_conv_wait M n k (msp_delay_jiffies M 1 b)
       else Ret b)"

fun msp_receive :: "'p machine \<Rightarrow> nat \<Rightarrow> u32 list \<Rightarrow> msp_device \<Rightarrow> 'p bus \<Rightarrow> (msp_device \<times> 'p bus) call" where
  "msp_receive M n [] d b = Ret (d, b)"
| "msp_receive M n (t # ts) d b =
     call_bind (ssp_exchange M n t b) (\<lambda>(b, rx).
     call_bind (rx_store rx d) (\<lambda>d. msp_receive M n ts d b))"

text \<open>
  The transformed atom is a variable of the module, \<open>atom\<close>; what reaches the caller is the list of
  atoms copied. \<open>copy_ok\<close> tells whether \<open>copy_to_user\<close> can write the buffer.
\<close>

definition transfer_atom ::
  "'p machine \<Rightarrow> nat \<Rightarrow> msp_device \<Rightarrow> s32 list \<Rightarrow> 'p bus \<Rightarrow> (msp_device \<times> s32 list \<times> 'p bus \<times> bool) call" where
  "transfer_atom M n d atom b =
     call_bind (ssp_exchange M n MSP_PROTO_CONV_START b) (\<lambda>(b, _).
     call_bind (msp_conv_wait M n n b) (\<lambda>b.
       let d = d\<lparr>RX_seq := 0\<rparr> in
       call_bind (ssp_exchange M n (RX_seq d) b) (\<lambda>(b, rx).
         if rx \<noteq> MSP_PROTO_CONV_TEST + 1 then Ret (d, atom, b, False)
         else call_bind (msp_receive M n (map of_nat [1..<MSP_PROTO_END]) d b) (\<lambda>(d, b).
              call_bind (msp_receive M n [of_nat (MSP_PROTO_END - 1)] d b) (\<lambda>(d, b).
                Ret (d, msp_transform (RX_buf d) atom 0, b, True))))))"

fun msp_transfer ::
  "'p machine \<Rightarrow> nat \<Rightarrow> bool \<Rightarrow> nat \<Rightarrow> s32 list list \<Rightarrow> msp_device \<Rightarrow> s32 list \<Rightarrow> 'p bus \<Rightarrow>
   (msp_device \<times> s32 list \<times> 'p bus \<times> (errno + nat) \<times> s32 list list) call" where
  "msp_transfer M n copy_ok 0 out d atom b =
     Ret (d, atom, b, Inr (SIZEOF_msp_atom_t * length out), out)"
| "msp_transfer M n copy_ok (Suc k) out d atom b =
     call_bind (transfer_atom M n d atom b) (\<lambda>(d, atom, b, ok).
       if \<not> ok then Ret (d, atom, b, Inl EBADE, out)
       else if \<not> copy_ok then Ret (d, atom, b, Inl EFAULT, out)
       else msp_transfer M n copy_ok k (out @ [atom]) d atom b)"

section \<open>File operations\<close>

definition msp_open :: "nat \<Rightarrow> msp_file \<Rightarrow> msp_device \<Rightarrow> (msp_device \<times> (errno + nat)) call" where
  "msp_open minor f d =
     (if 0 < minor then Ret (d, Inl ENODEV)
      else if ms_sem d then Hang
      else if mf_write f then Ret (d, Inl EACCES)
      else let d = (if mf_read f
                    then d\<lparr>ms_master := (if ms_master d = None then Some (mf_id f) else ms_master d),
                           ms_readers := ms_readers d + 1\<rparr>
                    else d)
           in Ret (d\<lparr>ms_open_count := ms_open_count d + 1\<rparr>, Inr 0))"

definition msp_release :: "msp_device \<Rightarrow> (msp_device \<times> (errno + nat)) call" where
  "msp_release d =
     (if ms_sem d then Hang
      else let d = d\<lparr>ms_open_count := ms_open_count d - 1, ms_readers := ms_readers d - 1\<rparr> in
           Ret (if ms_readers d = 0 then d\<lparr>ms_master := None\<rparr> else d, Inr 0))"

definition msp_read ::
  "'p machine \<Rightarrow> nat \<Rightarrow> bool \<Rightarrow> bool \<Rightarrow> nat \<Rightarrow> msp_device \<Rightarrow> s32 list \<Rightarrow> 'p bus \<Rightarrow>
   (msp_device \<times> s32 list \<times> 'p bus \<times> (errno + nat) \<times> s32 list list) call" where
  "msp_read M n signal copy_ok count d atom b =
     (case mutex_lock_interruptible signal (ms_sem d) of
        Sleeps \<Rightarrow> Hang
      | Interrupted \<Rightarrow> Ret (d, atom, b, Inl ERESTARTSYS, [])
      | Acquired \<Rightarrow>
          if count > MSP_MAX_INTERVAL * SIZEOF_msp_atom_t then Ret (d, atom, b, Inl EINVAL, [])
          else if count mod SIZEOF_msp_atom_t \<noteq> 0 then Ret (d, atom, b, Inl EINVAL, [])
          else if count div SIZEOF_msp_atom_t = 0 then Ret (d, atom, b, Inr 0, [])
          else msp_transfer M n copy_ok (count div SIZEOF_msp_atom_t) [] d atom b)"

section \<open>Loading and unloading\<close>

text \<open>
  The kernel's answers are parameters: the address of the mapping, the results of
  \<open>check_mem_region\<close> and \<open>register_chrdev\<close> (an error or success), whether the region can be
  requested. The registers of the processor the module sets up are named; the bit of the clock
  enable register is a constant of the kernel and a parameter.
\<close>

datatype pxa_reg = CKEN | SSCR0 | SSCR1 | GPDR0 | GAFR0_U

record msp_module =
  msp_iobase :: u32
  mod_mapped :: bool
  mod_region :: bool
  mod_chrdev :: bool
  pxa :: "pxa_reg \<Rightarrow> u32"
  cpld :: reg_trace
  mod_dev :: msp_device

record msp_answers =
  ans_map :: u32
  ans_check :: "errno option"
  ans_request :: bool
  ans_chrdev :: "errno option"
  ans_cken_ssp :: u32

definition MSP_RESET :: u32 where "MSP_RESET = 0xe"
abbreviation (input) MRR_PGM :: u32 where "MRR_PGM \<equiv> 4"
abbreviation (input) MRR_TCK :: u32 where "MRR_TCK \<equiv> 2"
abbreviation (input) MRR_NMI :: u32 where "MRR_NMI \<equiv> 1"

definition msp_reset :: "msp_module \<Rightarrow> msp_module" where
  "msp_reset k =
     (let w = (\<lambda>v k. k\<lparr>cpld := writel v (msp_iobase k + MSP_RESET) (cpld k)\<rparr>) in
      w ((MRR_NMI OR MRR_TCK) AND NOT MRR_PGM)
        (w (MRR_PGM OR MRR_TCK OR MRR_NMI)
          (w ((MRR_PGM OR MRR_TCK) AND NOT MRR_NMI) k)))"

definition pxa_upd :: "pxa_reg \<Rightarrow> (u32 \<Rightarrow> u32) \<Rightarrow> msp_module \<Rightarrow> msp_module" where
  "pxa_upd r f k = k\<lparr>pxa := (pxa k)(r := f (pxa k r))\<rparr>"

text \<open>Frames of 8 bits, SPI format, the clock divisor; the last one enables the port.\<close>

abbreviation (input) SSCR0_setup :: u32 where
  "SSCR0_setup \<equiv> ((8 - 1) AND 0xf) OR push_bit 4 0 OR (push_bit 8 0xf AND 0xff00)"

definition msp_hw_init :: "u32 \<Rightarrow> msp_module \<Rightarrow> msp_module" where
  "msp_hw_init cken k =
     (let k = pxa_upd CKEN (\<lambda>x. x OR cken) k;
          k = pxa_upd SSCR0 (\<lambda>_. SSCR0_setup) k;
          k = pxa_upd SSCR1 (\<lambda>_. 0x10) k;
          k = pxa_upd GPDR0 (\<lambda>x. x OR (push_bit 23 1 OR push_bit 24 1 OR push_bit 25 1)) k;
          k = pxa_upd GPDR0 (\<lambda>x. x AND NOT (push_bit 26 1 OR push_bit 27 1)) k;
          k = pxa_upd GAFR0_U (\<lambda>x. x AND 0xff003fff) k;
          k = pxa_upd GAFR0_U (\<lambda>x. x OR 0x005a8000) k;
          k = pxa_upd SSCR0 (\<lambda>_. SSCR0_setup OR push_bit 7 1) k
      in msp_reset k)"

text \<open>The exits of \<open>msp_init\<close>: \<open>err_ChrDev\<close> gives the region back, \<open>err_IOmem\<close> nothing.\<close>

definition msp_init :: "msp_answers \<Rightarrow> msp_module \<Rightarrow> msp_module \<times> (errno + nat)" where
  "msp_init a k =
     (let k = k\<lparr>mod_dev := msp_init_dev, msp_iobase := ans_map a, mod_mapped := True\<rparr> in
      case ans_check a of
        Some e \<Rightarrow> (k, Inl e)
      | None \<Rightarrow>
          if \<not> ans_request a then (k, Inl ENODEV)
          else let k = k\<lparr>mod_region := True\<rparr> in
            (case ans_chrdev a of
               Some e \<Rightarrow> (k\<lparr>mod_region := False\<rparr>, Inl e)
             | None \<Rightarrow> (msp_hw_init (ans_cken_ssp a) (k\<lparr>mod_chrdev := True\<rparr>), Inr 0)))"

definition msp_exit :: "msp_module \<Rightarrow> msp_module" where
  "msp_exit k =
     (let k = k\<lparr>mod_chrdev := False\<rparr> in
      if msp_iobase k \<noteq> 0 then k\<lparr>mod_region := False, mod_mapped := False\<rparr> else k)"

end
