(* ===== verification/Msp_Protocol.thy ===== *)
theory Msp_Protocol
  imports Msp_Main
begin

text \<open>
  The contract between the voltage monitor's driver and its partner on the bus, as a locale: what
  the partner answers while it converts, once its table is complete, and when it is told to start.
  From the contract alone follows that the driver's transfer returns and fills its buffer with the
  sixteen bytes of the conversion it started.
\<close>

section \<open>The status register\<close>

text \<open>From every reading on, \<open>P\<close> holds within \<open>n\<close> readings.\<close>

definition answers_within :: "nat \<Rightarrow> (nat \<Rightarrow> u32) \<Rightarrow> (u32 \<Rightarrow> bool) \<Rightarrow> bool" where
  "answers_within n st P \<longleftrightarrow> (\<forall>i. \<exists>j<n. P (st (i + j)))"

definition port_alive :: "nat \<Rightarrow> (nat \<Rightarrow> u32) \<Rightarrow> bool" where
  "port_alive n st \<longleftrightarrow>
     answers_within n st (\<lambda>x. x AND SSSR_TFS \<noteq> 0) \<and> answers_within n st (\<lambda>x. x AND SSSR_RFS \<noteq> 0) \<and>
     answers_within n st (\<lambda>x. x AND SSSR_BSY = 0)"

lemma wait_until_returns:
  assumes "\<exists>j<n. P (m_sssr M (b_polls b + j))"
  shows "\<exists>k i. msp_wait_until M P n b = Ret (b\<lparr>b_peer := (m_pass M 1 ^^ k) (b_peer b), b_polls := i\<rparr>)"
  using assms
proof (induction n arbitrary: b)
  case (Suc n)
  show ?case
  proof (cases "P (m_sssr M (b_polls b))")
    case True
    have "msp_wait_until M P (Suc n) b = Ret (b\<lparr>b_polls := Suc (b_polls b)\<rparr>)"
      using True by simp
    moreover have "b\<lparr>b_polls := Suc (b_polls b)\<rparr> =
        b\<lparr>b_peer := (m_pass M 1 ^^ 0) (b_peer b), b_polls := Suc (b_polls b)\<rparr>" by simp
    ultimately show ?thesis by metis
  next
    case False
    let ?b = "msp_delay_jiffies M 1 (b\<lparr>b_polls := Suc (b_polls b)\<rparr>)"
    obtain j where j: "j < Suc n" "P (m_sssr M (b_polls b + j))" using Suc.prems by blast
    with False have "0 < j" by (cases j) simp_all
    with j have "\<exists>j<n. P (m_sssr M (b_polls ?b + j))"
      by (intro exI [of _ "j - 1"]) (simp add: msp_delay_jiffies_def)
    from Suc.IH [OF this] obtain k i where
      r: "msp_wait_until M P n ?b = Ret (?b\<lparr>b_peer := (m_pass M 1 ^^ k) (b_peer ?b), b_polls := i\<rparr>)"
      by blast
    have "?b\<lparr>b_peer := (m_pass M 1 ^^ k) (b_peer ?b), b_polls := i\<rparr> =
        b\<lparr>b_peer := (m_pass M 1 ^^ Suc k) (b_peer b), b_polls := i\<rparr>"
      by (simp add: msp_delay_jiffies_def funpow_swap1)
    moreover have "msp_wait_until M P (Suc n) b = msp_wait_until M P n ?b"
      using False by simp
    ultimately show ?thesis using r by (intro exI [of _ "Suc k"] exI [of _ i]) simp
  qed
qed simp

lemma sync_returns:
  assumes "answers_within n (m_sssr M) P" "answers_within n (m_sssr M) Q"
  shows "\<exists>k i. call_bind (msp_wait_until M P n b) (\<lambda>b. msp_wait_until M Q n b) =
               Ret (b\<lparr>b_peer := (m_pass M 1 ^^ k) (b_peer b), b_polls := i\<rparr>)"
proof -
  from assms(1) have "\<exists>j<n. P (m_sssr M (b_polls b + j))" by (simp add: answers_within_def)
  from wait_until_returns [OF this] obtain k1 i1 where
    1: "msp_wait_until M P n b = Ret (b\<lparr>b_peer := (m_pass M 1 ^^ k1) (b_peer b), b_polls := i1\<rparr>)" (is "_ = Ret ?b")
    by blast
  from assms(2) have "\<exists>j<n. Q (m_sssr M (b_polls ?b + j))" by (simp add: answers_within_def)
  from wait_until_returns [OF this] obtain k2 i2 where
    2: "msp_wait_until M Q n ?b = Ret (?b\<lparr>b_peer := (m_pass M 1 ^^ k2) (b_peer ?b), b_polls := i2\<rparr>)"
    by blast
  have "?b\<lparr>b_peer := (m_pass M 1 ^^ k2) (b_peer ?b), b_polls := i2\<rparr> =
      b\<lparr>b_peer := (m_pass M 1 ^^ (k2 + k1)) (b_peer b), b_polls := i2\<rparr>"
    by (simp add: funpow_add)
  with 1 2 show ?thesis by auto
qed

lemma mask_16: "(0xffff :: u32) = mask 16"
  by (simp add: mask_eq_exp_minus_1)

lemma low_byte_16: "ucast (tx AND 0xffff :: u32) = (ucast tx :: u8)"
  unfolding mask_16 by (rule bit_word_eqI) (auto simp: bit_simps)

lemma byte_low_16: "ucast (r :: u8) AND 0xffff = (ucast r :: u32)"
proof -
  have "unat r < 2 ^ LENGTH(8)" by (rule unsigned_less)
  then have "ucast r < (2 :: u32) ^ 16"
    by (simp add: word_less_nat_alt unsigned_ucast_eq take_bit_eq_mod)
  then show ?thesis unfolding mask_16 by (rule and_mask_id) simp
qed

text \<open>An exchange: jiffies, the byte, at least one jiffy.\<close>

lemma exchange_returns:
  assumes "port_alive n (m_sssr M)"
  shows "\<exists>b' k1 k2. ssp_exchange M n tx b =
           Ret (b', ucast (fst (m_xchg M (ucast tx) ((m_pass M 1 ^^ k1) (b_peer b))))) \<and>
         b_peer b' = (m_pass M 1 ^^ Suc k2) (snd (m_xchg M (ucast tx) ((m_pass M 1 ^^ k1) (b_peer b))))"
proof -
  obtain k1 i1 where 1: "ssp_sync_tx M n b = Ret (b\<lparr>b_peer := (m_pass M 1 ^^ k1) (b_peer b), b_polls := i1\<rparr>)" (is "_ = Ret ?b")
    using sync_returns [of n M "\<lambda>x. x AND SSSR_TFS \<noteq> 0" "\<lambda>x. x AND SSSR_BSY = 0" b] assms
    by (auto simp: port_alive_def ssp_sync_tx_def)
  let ?x = "m_xchg M (ucast tx) ((m_pass M 1 ^^ k1) (b_peer b))"
  obtain k2 i2 where 2: "ssp_sync_rx M n (?b\<lparr>b_peer := snd ?x\<rparr>) =
      Ret (?b\<lparr>b_peer := (m_pass M 1 ^^ k2) (snd ?x), b_polls := i2\<rparr>)"
    using sync_returns [of n M "\<lambda>x. x AND SSSR_RFS \<noteq> 0" "\<lambda>x. x AND SSSR_BSY = 0" "?b\<lparr>b_peer := snd ?x\<rparr>"] assms
    by (auto simp: port_alive_def ssp_sync_rx_def)
  let ?b' = "?b\<lparr>b_peer := (m_pass M 1 ^^ Suc k2) (snd ?x), b_polls := i2\<rparr>"
  have "ssp_exchange M n tx b = Ret (?b', ucast (fst ?x))"
    unfolding ssp_exchange_def 1 call_bind_simps low_byte_16 Let_def case_prod_beta using 2
    by (simp add: msp_delay_jiffies_def byte_low_16)
  moreover have "b_peer ?b' = (m_pass M 1 ^^ Suc k2) (snd ?x)" by simp
  ultimately show ?thesis by blast
qed

section \<open>The contract of the partner\<close>

text \<open>
  \<open>okp\<close> is the partner's invariant. It is \<open>busy\<close> converting, \<open>ready\<close> with a complete table or,
  right after the start byte, neither until the next jiffy; \<open>asleep\<close> it accepts a start. \<open>out\<close> is
  the byte it shifts out next, \<open>left\<close> bounds the jiffies up to the complete table, \<open>bytes\<close> is the
  table it has or will have, \<open>fresh\<close> the table of the conversion a start begins.
\<close>

locale conversion_slave =
  fixes M :: "'p machine"
    and tick :: "'p \<Rightarrow> 'p"
    and okp busy ready asleep :: "'p \<Rightarrow> bool"
    and out :: "'p \<Rightarrow> u8"
    and left :: "'p \<Rightarrow> nat"
    and bytes fresh :: "'p \<Rightarrow> u8 list"
    and latency :: "'p \<Rightarrow> nat"
  assumes pass_1: "m_pass M 1 = tick"
    and xchg_out: "okp p \<Longrightarrow> fst (m_xchg M t p) = out p"
    and xchg_ok: "okp p \<Longrightarrow> okp (snd (m_xchg M t p))"
    and tick_ok: "okp p \<Longrightarrow> okp (tick p)"
    and tick_out: "okp p \<Longrightarrow> out (tick p) = out p"
    and tick_bytes: "okp p \<Longrightarrow> bytes (tick p) = bytes p"
    and tick_left: "okp p \<Longrightarrow> left (tick p) \<le> left p - 1"
    and tick_settles: "okp p \<Longrightarrow> busy (tick p) \<or> ready (tick p)"
    and tick_ready: "okp p \<Longrightarrow> ready p \<Longrightarrow> asleep (tick p)"
    and tick_asleep: "okp p \<Longrightarrow> asleep p \<Longrightarrow> tick p = p"
    and asleep_ready: "asleep p \<Longrightarrow> ready p"
    and busy_left: "okp p \<Longrightarrow> busy p \<Longrightarrow> 0 < left p"
    and xchg_busy: "okp p \<Longrightarrow> busy p \<Longrightarrow>
      busy (snd (m_xchg M t p)) \<and> out (snd (m_xchg M t p)) = 0xef \<and>
      left (snd (m_xchg M t p)) = left p \<and> bytes (snd (m_xchg M t p)) = bytes p"
    and xchg_ready: "okp p \<Longrightarrow> ready p \<Longrightarrow> t \<noteq> 16 \<Longrightarrow>
      ready (snd (m_xchg M t p)) \<and> bytes (snd (m_xchg M t p)) = bytes p \<and>
      out (snd (m_xchg M t p)) = (if t < 16 then bytes p ! unat t else t + 1)"
    and xchg_start: "okp p \<Longrightarrow> asleep p \<Longrightarrow>
      bytes (snd (m_xchg M 16 p)) = fresh p \<and> left (snd (m_xchg M 16 p)) \<le> latency p \<and>
      out (snd (m_xchg M 16 p)) = 0xef"
    and bytes_length: "okp p \<Longrightarrow> length (bytes p) = 16"
begin

lemma ticks:
  assumes "okp p"
  shows "okp ((tick ^^ k) p)" "out ((tick ^^ k) p) = out p" "bytes ((tick ^^ k) p) = bytes p" "left ((tick ^^ k) p) \<le> left p - k"
proof -
  have "okp ((tick ^^ k) p) \<and> out ((tick ^^ k) p) = out p \<and> bytes ((tick ^^ k) p) = bytes p \<and> left ((tick ^^ k) p) \<le> left p - k"
  proof (induction k)
    case (Suc k)
    then have ok: "okp ((tick ^^ k) p)" by blast
    show ?case
      using Suc tick_ok [OF ok] tick_out [OF ok] tick_bytes [OF ok] tick_left [OF ok] by auto
  qed (simp add: assms)
  then show "okp ((tick ^^ k) p)" "out ((tick ^^ k) p) = out p" "bytes ((tick ^^ k) p) = bytes p" "left ((tick ^^ k) p) \<le> left p - k"
    by blast+
qed

lemma ticks_settle: "okp p \<Longrightarrow> busy ((tick ^^ Suc k) p) \<or> ready ((tick ^^ Suc k) p)"
  using tick_settles [of "(tick ^^ k) p"] ticks(1) by simp

lemma ticks_asleep: "okp p \<Longrightarrow> asleep p \<Longrightarrow> (tick ^^ k) p = p"
  by (induction k) (simp_all add: tick_asleep)

lemma ticks_ready:
  assumes "okp p" "ready p"
  shows "asleep ((tick ^^ Suc k) p)"
proof -
  have "asleep (tick p)" using assms by (rule tick_ready)
  then have "(tick ^^ k) (tick p) = tick p"
    using assms(1) by (intro ticks_asleep tick_ok)
  then show ?thesis using tick_ready [OF assms] by (simp add: funpow_swap1)
qed

lemma ticks_stay_ready: "okp p \<Longrightarrow> ready p \<Longrightarrow> ready ((tick ^^ k) p)"
  using ticks_ready asleep_ready by (cases k) (simp, blast)

lemma ticks_stay_settled:
  "okp p \<Longrightarrow> busy p \<or> ready p \<Longrightarrow> busy ((tick ^^ k) p) \<or> ready ((tick ^^ k) p)"
  using ticks_settle by (cases k) (simp, blast)

section \<open>The driver against the contract\<close>

lemma exchange_starts:
  assumes "port_alive n (m_sssr M)" "okp (b_peer b)" "asleep (b_peer b)"
  shows "\<exists>b' rx. ssp_exchange M n 16 b = Ret (b', rx) \<and> okp (b_peer b') \<and> out (b_peer b') = 0xef \<and>
    (busy (b_peer b') \<or> ready (b_peer b')) \<and> bytes (b_peer b') = fresh (b_peer b) \<and>
    left (b_peer b') \<le> latency (b_peer b)"
proof -
  obtain b' k1 k2 where x: "ssp_exchange M n 16 b = Ret (b', ucast (fst (m_xchg M (ucast (16 :: u32)) ((tick ^^ k1) (b_peer b)))))"
      "b_peer b' = (tick ^^ Suc k2) (snd (m_xchg M (ucast (16 :: u32)) ((tick ^^ k1) (b_peer b))))"
    using exchange_returns [OF assms(1), of 16 b] unfolding pass_1 by blast
  have sl: "(tick ^^ k1) (b_peer b) = b_peer b" by (rule ticks_asleep) (use assms in auto)
  let ?q = "snd (m_xchg M 16 (b_peer b))"
  have ok: "okp ?q" using assms(2) by (rule xchg_ok)
  have p': "b_peer b' = (tick ^^ Suc k2) ?q" using x(2) sl by simp
  have "okp (b_peer b')" "busy (b_peer b') \<or> ready (b_peer b')" "out (b_peer b') = 0xef"
      "bytes (b_peer b') = fresh (b_peer b)"
    unfolding p' using xchg_start [OF assms(2,3)] ticks(1-3) [OF ok, of "Suc k2"] ticks_settle [OF ok, of k2]
    by (simp_all del: funpow.simps)
  moreover have "left (b_peer b') \<le> latency (b_peer b)"
    unfolding p' using xchg_start [OF assms(2,3)] ticks(4) [OF ok, of "Suc k2"] by linarith
  ultimately show ?thesis using x(1) by blast
qed

lemma exchange_ready:
  assumes "port_alive n (m_sssr M)" "okp (b_peer b)" "ready (b_peer b)" "ucast t \<noteq> (16 :: u8)"
  shows "\<exists>b'. ssp_exchange M n t b = Ret (b', ucast (out (b_peer b))) \<and> okp (b_peer b') \<and>
    asleep (b_peer b') \<and> bytes (b_peer b') = bytes (b_peer b) \<and>
    out (b_peer b') = (if ucast t < (16 :: u8) then bytes (b_peer b) ! unat (ucast t :: u8) else ucast t + 1)"
proof -
  obtain b' k1 k2 where x: "ssp_exchange M n t b = Ret (b', ucast (fst (m_xchg M (ucast t) ((tick ^^ k1) (b_peer b)))))"
      "b_peer b' = (tick ^^ Suc k2) (snd (m_xchg M (ucast t) ((tick ^^ k1) (b_peer b))))"
    using exchange_returns [OF assms(1), of t b] unfolding pass_1 by blast
  let ?p = "(tick ^^ k1) (b_peer b)"
  have p: "okp ?p" "ready ?p" using ticks(1) ticks_stay_ready assms(2,3) by blast+
  let ?q = "snd (m_xchg M (ucast t) ?p)"
  have ok: "okp ?q" using p(1) by (rule xchg_ok)
  note q = xchg_ready [OF p assms(4)]
  have p': "b_peer b' = (tick ^^ Suc k2) ?q" by (rule x(2))
  have "okp (b_peer b')" "asleep (b_peer b')" unfolding p' using ok q by (blast intro: ticks ticks_ready)+
  moreover have "fst (m_xchg M (ucast t) ?p) = out (b_peer b)"
    using xchg_out [OF p(1)] ticks(2) [OF assms(2)] by simp
  moreover have "bytes (b_peer b') = bytes (b_peer b)" "out (b_peer b') = out ?q"
    unfolding p' using ticks(2,3) [OF ok] ticks(3) [OF assms(2)] q by (simp_all del: funpow.simps)
  ultimately show ?thesis
    unfolding x(1) using ticks(3) [OF assms(2), of k1] q by simp
qed

lemma exchange_test:
  assumes "port_alive n (m_sssr M)" "okp (b_peer b)" "busy (b_peer b) \<or> ready (b_peer b)"
  shows "\<exists>b'. ssp_exchange M n 0xa5 b = Ret (b', ucast (out (b_peer b))) \<and> okp (b_peer b') \<and>
    (busy (b_peer b') \<or> ready (b_peer b')) \<and> bytes (b_peer b') = bytes (b_peer b) \<and>
    (\<not> ready (b_peer b) \<and> out (b_peer b') = 0xef \<and> left (b_peer b') < left (b_peer b) \<or>
     out (b_peer b') = 0xa6 \<and> ready (b_peer b'))"
proof -
  obtain b' k1 k2 where x: "ssp_exchange M n 0xa5 b = Ret (b', ucast (fst (m_xchg M (ucast (0xa5 :: u32)) ((tick ^^ k1) (b_peer b)))))"
      "b_peer b' = (tick ^^ Suc k2) (snd (m_xchg M (ucast (0xa5 :: u32)) ((tick ^^ k1) (b_peer b))))"
    using exchange_returns [OF assms(1), of "0xa5" b] unfolding pass_1 by blast
  let ?p = "(tick ^^ k1) (b_peer b)"
  note p = ticks [OF assms(2), of k1]
  let ?q = "snd (m_xchg M 0xa5 ?p)"
  have ok: "okp ?q" using p(1) by (rule xchg_ok)
  note q = ticks [OF ok, of "Suc k2"]
  have p': "b_peer b' = (tick ^^ Suc k2) ?q" using x(2) by simp
  have e: "ssp_exchange M n 0xa5 b = Ret (b', ucast (out (b_peer b)))"
    using x(1) xchg_out [OF p(1)] p(2) by simp
  have d: "busy (b_peer b') \<or> ready (b_peer b')" unfolding p' by (rule ticks_settle [OF ok])
  have o': "out (b_peer b') = out ?q" unfolding p' by (rule q(2))
  show ?thesis
  proof (cases "ready ?p")
    case True
    then have r: "ready ?q" "bytes ?q = bytes ?p" "out ?q = 0xa6"
      using xchg_ready [OF p(1) True, of "0xa5"] by simp_all
    have "ready (b_peer b')" unfolding p' by (rule ticks_stay_ready [OF ok r(1)])
    moreover have "bytes (b_peer b') = bytes (b_peer b)" unfolding p' q(3) r(2) by (rule p(3))
    moreover have "okp (b_peer b')" unfolding p' by (rule q(1))
    ultimately show ?thesis using e d o' r(3) by metis
  next
    case False
    have nr: "\<not> ready (b_peer b)" using ticks_stay_ready [OF assms(2)] False by blast
    have b: "busy ?p" using ticks_stay_settled [OF assms(2,3), of k1] False by blast
    note r = xchg_busy [OF p(1) b, of "0xa5"]
    have "left (b_peer b') < left (b_peer b)"
      unfolding p' using q(4) r p(4) busy_left [OF p(1) b] by linarith
    moreover have "bytes (b_peer b') = bytes (b_peer b)" unfolding p' q(3) using r p(3) by metis
    moreover have "okp (b_peer b')" unfolding p' by (rule q(1))
    ultimately show ?thesis using e d o' r nr by metis
  qed
qed

lemma conv_wait_returns:
  assumes "port_alive n (m_sssr M)"
  shows "okp (b_peer b) \<Longrightarrow> busy (b_peer b) \<or> ready (b_peer b) \<Longrightarrow>
      out (b_peer b) = 0xef \<or> out (b_peer b) = 0xa6 \<and> ready (b_peer b) \<Longrightarrow>
      left (b_peer b) + 3 \<le> k \<or> ready (b_peer b) \<and> 2 \<le> k \<or> out (b_peer b) = 0xa6 \<and> 1 \<le> k \<Longrightarrow>
      \<exists>b'. msp_conv_wait M n k b = Ret b' \<and> okp (b_peer b') \<and> ready (b_peer b') \<and>
        out (b_peer b') = 0xa6 \<and> bytes (b_peer b') = bytes (b_peer b)"
proof (induction k arbitrary: b)
  case (Suc k)
  obtain b1 where 1: "ssp_exchange M n 0xa5 b = Ret (b1, ucast (out (b_peer b)))" "okp (b_peer b1)"
      "busy (b_peer b1) \<or> ready (b_peer b1)" "bytes (b_peer b1) = bytes (b_peer b)"
      "\<not> ready (b_peer b) \<and> out (b_peer b1) = 0xef \<and> left (b_peer b1) < left (b_peer b) \<or>
       out (b_peer b1) = 0xa6 \<and> ready (b_peer b1)"
    using exchange_test [OF assms Suc.prems(1,2)] by blast
  show ?case
  proof (cases "out (b_peer b) = 0xef")
    case True
    let ?b = "msp_delay_jiffies M 1 b1"
    have p: "b_peer ?b = (tick ^^ 1) (b_peer b1)" by (simp add: msp_delay_jiffies_def pass_1 [simplified])
    note t = ticks [OF 1(2), of 1]
    have "\<exists>b'. msp_conv_wait M n k ?b = Ret b' \<and> okp (b_peer b') \<and> ready (b_peer b') \<and>
        out (b_peer b') = 0xa6 \<and> bytes (b_peer b') = bytes (b_peer ?b)"
    proof (rule Suc.IH)
      show "okp (b_peer ?b)" unfolding p by (rule t(1))
      show "busy (b_peer ?b) \<or> ready (b_peer ?b)" unfolding p by (rule ticks_stay_settled [OF 1(2,3)])
      show "out (b_peer ?b) = 0xef \<or> out (b_peer ?b) = 0xa6 \<and> ready (b_peer ?b)"
        unfolding p t(2) using 1(5) ticks_stay_ready [OF 1(2)] by blast
      show "left (b_peer ?b) + 3 \<le> k \<or> ready (b_peer ?b) \<and> 2 \<le> k \<or> out (b_peer ?b) = 0xa6 \<and> 1 \<le> k"
        unfolding p t(2) using 1(5) t(4) Suc.prems(4) True by auto
    qed
    moreover have "bytes (b_peer ?b) = bytes (b_peer b)" unfolding p t(3) by (rule 1(4))
    moreover have "msp_conv_wait M n (Suc k) b = msp_conv_wait M n k ?b" using 1(1) True by simp
    ultimately show ?thesis by metis
  next
    case False
    then have o': "out (b_peer b) = 0xa6" "ready (b_peer b)" using Suc.prems(3) by blast+
    then have "msp_conv_wait M n (Suc k) b = Ret b1" using 1(1) by simp
    with 1 o'(2) show ?thesis by blast
  qed
qed auto

text \<open>What the bytes \<open>ts\<close> read: each answer comes with the next exchange.\<close>

lemma receive_reads:
  assumes "port_alive n (m_sssr M)"
  shows "okp (b_peer b) \<Longrightarrow> ready (b_peer b) \<Longrightarrow> \<forall>t\<in>set ts. t < 16 \<Longrightarrow>
      unat (RX_seq d) + length ts \<le> 32 \<Longrightarrow> length (RX_buf d) = 32 \<Longrightarrow>
      \<exists>d' b'. msp_receive M n (map of_nat ts) d b = Ret (d', b') \<and> okp (b_peer b') \<and> ready (b_peer b') \<and>
        (ts \<noteq> [] \<longrightarrow> asleep (b_peer b')) \<and> bytes (b_peer b') = bytes (b_peer b) \<and>
        d' = d\<lparr>RX_buf := RX_buf d', RX_seq := of_nat (unat (RX_seq d) + length ts)\<rparr> \<and>
        out (b_peer b') = last (out (b_peer b) # map (\<lambda>t. bytes (b_peer b) ! t) ts) \<and>
        RX_buf d' = take (unat (RX_seq d)) (RX_buf d) @
          map ucast (butlast (out (b_peer b) # map (\<lambda>t. bytes (b_peer b) ! t) ts)) @
          drop (unat (RX_seq d) + length ts) (RX_buf d)"
proof (induction ts arbitrary: b d)
  case (Cons t ts)
  have t: "t < 16" using Cons.prems(3) by simp
  have tn: "ucast (of_nat t :: u32) = (of_nat t :: u8)" by transfer (simp add: take_bit_take_bit)
  have tu: "unat (of_nat t :: u8) = t" using t by (simp add: unat_of_nat take_bit_eq_mod)
  then have t16: "(of_nat t :: u8) < 16" "(of_nat t :: u8) \<noteq> 16"
    using t by (simp_all add: word_less_nat_alt word_unat_eq_iff)
  obtain b1 where 1: "ssp_exchange M n (of_nat t) b = Ret (b1, ucast (out (b_peer b)))" "okp (b_peer b1)"
      "asleep (b_peer b1)" "bytes (b_peer b1) = bytes (b_peer b)" "out (b_peer b1) = bytes (b_peer b) ! t"
    using exchange_ready [OF assms Cons.prems(1,2), of "of_nat t"] t16 by (auto simp: tn tu)
  let ?d = "d\<lparr>RX_buf := (RX_buf d)[unat (RX_seq d) := ucast (out (b_peer b))], RX_seq := RX_seq d + 1\<rparr>"
  have seq: "unat (RX_seq d) < 32" using Cons.prems(4) by simp
  then have us: "unat (RX_seq d + 1) = Suc (unat (RX_seq d))"
    by (simp add: unat_word_ariths)
  have st: "rx_store (ucast (out (b_peer b))) d = Ret ?d" using seq by (simp add: rx_store_def)
  have p3: "\<forall>t\<in>set ts. t < 16" using Cons.prems(3) by simp
  have p4: "unat (RX_seq ?d) + length ts \<le> 32" using Cons.prems(4) us by simp
  have p5: "length (RX_buf ?d) = 32" using Cons.prems(5) by simp
  obtain d' b' where 2: "msp_receive M n (map of_nat ts) ?d b1 = Ret (d', b')" "okp (b_peer b')" "ready (b_peer b')"
      "ts \<noteq> [] \<longrightarrow> asleep (b_peer b')" "bytes (b_peer b') = bytes (b_peer b1)"
      "d' = ?d\<lparr>RX_buf := RX_buf d', RX_seq := of_nat (unat (RX_seq ?d) + length ts)\<rparr>"
      "out (b_peer b') = last (out (b_peer b1) # map (\<lambda>t. bytes (b_peer b1) ! t) ts)"
      "RX_buf d' = take (unat (RX_seq ?d)) (RX_buf ?d) @
          map ucast (butlast (out (b_peer b1) # map (\<lambda>t. bytes (b_peer b1) ! t) ts)) @
          drop (unat (RX_seq ?d) + length ts) (RX_buf ?d)"
    using Cons.IH [OF 1(2) asleep_ready [OF 1(3)] p3 p4 p5] by (elim exE conjE) (rule that)
  have "msp_receive M n (map of_nat (t # ts)) d b = Ret (d', b')" using 1(1) st 2(1) by simp
  moreover have "asleep (b_peer b')" using 1(3) 2(1,4) by (cases "ts = []") auto
  moreover have "d' = d\<lparr>RX_buf := RX_buf d', RX_seq := of_nat (unat (RX_seq d) + length (t # ts))\<rparr>"
    using 2(6) us by simp
  moreover have "RX_buf d' = take (unat (RX_seq d)) (RX_buf d) @
          map ucast (butlast (out (b_peer b) # map (\<lambda>t. bytes (b_peer b) ! t) (t # ts))) @
          drop (unat (RX_seq d) + length (t # ts)) (RX_buf d)"
    using 2(8) us seq Cons.prems(5) by (simp add: take_Suc_conv_app_nth 1(4,5))
  ultimately show ?case using 2 1 by auto
qed auto

text \<open>
  The whole transfer of an atom: the buffer of the device ends up with the sixteen bytes of the
  conversion that the start byte began, and the partner is asleep again.
\<close>

lemma transfer_atom_delivers:
  assumes "port_alive n (m_sssr M)" "okp (b_peer b)" "asleep (b_peer b)" "latency (b_peer b) + 3 \<le> n"
      and "length (RX_buf d) = 32"
  shows "\<exists>d' b'. transfer_atom M n d atom b = Ret (d', msp_transform (RX_buf d') atom 0, b', True) \<and>
      okp (b_peer b') \<and> asleep (b_peer b') \<and> bytes (b_peer b') = fresh (b_peer b) \<and>
      RX_buf d' = map ucast (fresh (b_peer b)) @ drop 16 (RX_buf d) \<and>
      d' = d\<lparr>RX_buf := RX_buf d', RX_seq := 16\<rparr>"
proof -
  obtain b1 rx1 where 1: "ssp_exchange M n 16 b = Ret (b1, rx1)" "okp (b_peer b1)" "out (b_peer b1) = 0xef"
      "busy (b_peer b1) \<or> ready (b_peer b1)" "bytes (b_peer b1) = fresh (b_peer b)"
      "left (b_peer b1) \<le> latency (b_peer b)"
    using exchange_starts [OF assms(1-3)] by blast
  obtain b2 where 2: "msp_conv_wait M n n b1 = Ret b2" "okp (b_peer b2)" "ready (b_peer b2)"
      "out (b_peer b2) = 0xa6" "bytes (b_peer b2) = fresh (b_peer b)"
    using conv_wait_returns [OF assms(1) 1(2,4), of n] 1(3,5,6) assms(4) by auto
  let ?d = "d\<lparr>RX_seq := 0\<rparr>"
  let ?B = "fresh (b_peer b)"
  have len: "length ?B = 16" using bytes_length [OF 2(2)] 2(5) by simp
  obtain b3 where 3: "ssp_exchange M n 0 b2 = Ret (b3, 0xa6)" "okp (b_peer b3)" "asleep (b_peer b3)"
      "bytes (b_peer b3) = ?B" "out (b_peer b3) = ?B ! 0"
    using exchange_ready [OF assms(1) 2(2,3), of 0] 2(4,5) by auto
  obtain d4 b4 where 4: "msp_receive M n (map of_nat [1..<16]) ?d b3 = Ret (d4, b4)" "okp (b_peer b4)" "ready (b_peer b4)"
      "bytes (b_peer b4) = ?B" "d4 = ?d\<lparr>RX_buf := RX_buf d4, RX_seq := 15\<rparr>" "out (b_peer b4) = ?B ! 15"
      "RX_buf d4 = map ucast (take 15 ?B) @ drop 15 (RX_buf d)"
  proof -
    have m: "map ((!) ?B) [0..<16] = ?B" using map_nth [of ?B] len by simp
    then have c: "?B ! 0 # map (\<lambda>t. ?B ! t) [1..<16] = ?B"
      using upt_rec [of 0 16] by (metis One_nat_def list.simps(9) zero_less_numeral)
    have "last ?B = ?B ! 15" "butlast ?B = take 15 ?B" using len last_conv_nth [of ?B]
      by (cases "?B = []", simp_all add: butlast_conv_take)
    with c 3 show thesis
      using receive_reads [OF assms(1) 3(2) asleep_ready [OF 3(3)], of "[1..<16]" ?d] assms(5)
      by (auto intro: that simp del: upt_rec_numeral)
  qed
  obtain d5 b5 where 5: "msp_receive M n (map of_nat [15]) d4 b4 = Ret (d5, b5)" "okp (b_peer b5)" "asleep (b_peer b5)"
      "bytes (b_peer b5) = ?B" "d5 = d4\<lparr>RX_buf := RX_buf d5, RX_seq := 16\<rparr>"
      "RX_buf d5 = take 15 (RX_buf d4) @ [ucast (?B ! 15)] @ drop 16 (RX_buf d4)"
  proof -
    have "RX_seq d4 = 15" "length (RX_buf d4) = 32" using 4(5,7) assms(5) len by (metis msp_device.select_convs(7) msp_device.surjective msp_device.update_convs(7), simp)
    then show thesis
      using receive_reads [OF assms(1) 4(2,3), of "[15]" d4] 4(4,6) by (auto intro: that)
  qed
  have B: "map ucast (take 15 ?B) @ [ucast (?B ! 15)] = map (ucast :: u8 \<Rightarrow> u32) ?B"
  proof -
    have "take (Suc 15) ?B = take 15 ?B @ [?B ! 15]" using len by (intro take_Suc_conv_app_nth) simp
    then have "map (ucast :: u8 \<Rightarrow> u32) (take (Suc 15) ?B) = map ucast (take 15 ?B @ [?B ! 15])" by (rule arg_cong)
    then show ?thesis using len by simp
  qed
  have "RX_buf d5 = map ucast ?B @ drop 16 (RX_buf d)"
    unfolding 5(6) 4(7) B [symmetric] using len assms(5) by simp
  moreover have "d5 = d\<lparr>RX_buf := RX_buf d5, RX_seq := 16\<rparr>"
    by (subst 5(5), subst 4(5)) simp
  moreover have "transfer_atom M n d atom b = Ret (d5, msp_transform (RX_buf d5) atom 0, b5, True)"
    unfolding transfer_atom_def Let_def using 1(1) 2(1) 3(1) 4(1) 5(1) by (simp del: upt_rec_numeral)
  ultimately show ?thesis using 5(2,3,4) by metis
qed

end

end
