(* ===== verification/Msp_Props.thy ===== *)
theory Msp_Props
  imports Msp_Adc Msp_Protocol
begin

text \<open>
  The voltage monitor as a whole: the firmware keeps the contract of the bus, so a read of the
  device delivers the voltages of the conversion it started. Then the transformation of counts to
  millivolts, the counters of the device and its loading.
\<close>

section \<open>The firmware keeps the contract\<close>

definition fw_on :: "(nat \<Rightarrow> nat \<Rightarrow> u16) \<Rightarrow> msp430 \<Rightarrow> bool" where
  "fw_on adc m \<longleftrightarrow> fw_ok adc m \<and> gie m \<and> \<not> urxifg m"

lemmas fw_defs = fw_on_def fw_ok_def table_ok_def fw_ready_def fw_asleep_def fw_due_def

lemma fw_quiet: "\<not> urxifg m \<Longrightarrow> fw_interrupt m = m"
  by (simp add: fw_interrupt_def)

lemma stored_conv_bytes:
  "length bs = 16 \<Longrightarrow> store_short 7 (v 7) (fw_stored 7 v bs) = conv_bytes v"
  using fw_stored_all [of bs v] fw_stored_Suc [of 7 v bs] by simp

text \<open>A step keeps the points of the main program.\<close>

lemma main_step_ok:
  assumes "fw_ok adc m"
  shows "fw_ok adc (fw_main_step lat adc m)"
proof (cases "lpm0 m")
  case True
  then show ?thesis using assms by (simp add: fw_main_step_def)
next
  case False
  show ?thesis
  proof (cases "fw_pc m")
    case (FwStore c)
    then obtain bs where bs: "c < 8" "length bs = 16" "byte_data m = fw_stored c (adc (conv_no m)) bs"
      using assms by (auto simp: fw_defs)
    show ?thesis
    proof (cases "c < 7")
      case True
      then show ?thesis
        using assms False FwStore bs by (auto simp: fw_main_step_def fw_defs fw_stored_Suc)
    next
      case c7: False
      with bs(1) have "c = 7" by simp
      then show ?thesis
        using assms False FwStore bs stored_conv_bytes [of bs "adc (conv_no m)"]
        by (simp add: fw_main_step_def fw_defs)
    qed
  next
    case FwTest
    then show ?thesis
      using assms False by (auto simp: fw_main_step_def fw_defs intro: exI [of _ "byte_data m"])
  qed (use assms False in \<open>simp_all add: fw_main_step_def fw_defs\<close>)
qed

lemma main_step_frame:
  assumes "fw_ok adc m"
  shows "u0txbuf (fw_main_step lat adc m) = u0txbuf m" "urxifg (fw_main_step lat adc m) = urxifg m"
    "gie m \<Longrightarrow> gie (fw_main_step lat adc m)"
    "fw_due (fw_main_step lat adc m) = fw_due m"
    "steps_left lat (fw_main_step lat adc m) \<le> steps_left lat m - 1"
  using assms by (cases "fw_pc m"; auto simp: fw_main_step_def fw_defs steps_left_def)+

lemma step_on:
  assumes "fw_on adc m"
  shows "fw_step lat adc m = fw_main_step lat adc m" "fw_on adc (fw_step lat adc m)"
proof -
  have "\<not> urxifg (fw_main_step lat adc m)"
    using assms main_step_frame(2) [of adc m lat] by (simp add: fw_on_def)
  then show 1: "fw_step lat adc m = fw_main_step lat adc m" by (simp add: fw_step_def fw_quiet)
  show "fw_on adc (fw_step lat adc m)"
    unfolding 1 using assms main_step_ok [of adc m lat] main_step_frame [of adc m lat] by (simp add: fw_on_def)
qed

lemma step_settles:
  assumes "fw_on adc m"
  shows "no_data (fw_step lat adc m) \<or> fw_ready (fw_step lat adc m)"
  unfolding step_on(1) [OF assms] using assms
  by (cases "fw_pc m") (auto simp: fw_main_step_def fw_defs)

lemma step_ready: "fw_on adc m \<Longrightarrow> fw_ready m \<Longrightarrow> fw_asleep (fw_step lat adc m)"
  using step_on(1) [of adc m lat] by (auto simp: fw_main_step_def fw_defs)

lemma step_asleep: "fw_on adc m \<Longrightarrow> fw_asleep m \<Longrightarrow> fw_step lat adc m = m"
  using step_on(1) [of adc m lat] by (auto simp: fw_main_step_def fw_defs)

text \<open>Several steps.\<close>

lemma steps_on:
  assumes "fw_on adc m"
  shows "fw_on adc ((fw_step lat adc ^^ k) m) \<and> u0txbuf ((fw_step lat adc ^^ k) m) = u0txbuf m \<and>
    fw_due ((fw_step lat adc ^^ k) m) = fw_due m \<and>
    steps_left lat ((fw_step lat adc ^^ k) m) \<le> steps_left lat m - k"
proof (induction k)
  case (Suc k)
  let ?m = "(fw_step lat adc ^^ k) m"
  have on: "fw_on adc ?m" using Suc by blast
  then have "fw_ok adc ?m" by (simp add: fw_on_def)
  from main_step_frame [OF this, of lat] Suc step_on [OF on, of lat] show ?case by auto
qed (use assms in simp)

lemma steps_asleep: "fw_on adc m \<Longrightarrow> fw_asleep m \<Longrightarrow> (fw_step lat adc ^^ k) m = m"
  by (induction k) (simp_all add: step_asleep)

lemma steps_ready:
  assumes "fw_on adc m" "fw_ready m"
  shows "fw_asleep ((fw_step lat adc ^^ Suc k) m)"
  using step_ready [OF assms, of lat] steps_asleep [OF step_on(2) [OF assms(1)], of lat k]
  by (simp add: funpow_swap1)

text \<open>An exchange while interrupts are enabled.\<close>

lemma exchange_on:
  assumes "fw_on adc m"
  shows "snd (fw_exchange t m) = rx_isr (m\<lparr>u0rxbuf := t, urxifg := False\<rparr>)" "fw_on adc (snd (fw_exchange t m))"
  using assms by (auto simp: fw_exchange_def fw_interrupt_def rx_isr_def fw_defs split: fw_pc.splits)

text \<open>The monitor at the other end of the bus; \<open>Suc c\<close> of its steps take a jiffy.\<close>

definition monitor ::
  "(nat \<Rightarrow> nat) \<Rightarrow> (nat \<Rightarrow> nat \<Rightarrow> u16) \<Rightarrow> nat \<Rightarrow> (nat \<Rightarrow> u32) \<Rightarrow> msp430 machine" where
  "monitor lat adc c st = \<lparr>m_xchg = fw_exchange, m_pass = fw_pass lat adc (Suc c), m_sssr = st\<rparr>"

lemma monitor_simps [simp]:
  "m_xchg (monitor lat adc c st) = fw_exchange"
  "m_pass (monitor lat adc c st) = fw_pass lat adc (Suc c)"
  "m_sssr (monitor lat adc c st) = st"
  by (simp_all add: monitor_def)

definition fw_tick :: "(nat \<Rightarrow> nat) \<Rightarrow> (nat \<Rightarrow> nat \<Rightarrow> u16) \<Rightarrow> nat \<Rightarrow> msp430 \<Rightarrow> msp430" where
  "fw_tick lat adc c = (fw_step lat adc ^^ Suc c)"

lemma tick_as_step: "fw_tick lat adc c m = fw_step lat adc ((fw_step lat adc ^^ c) m)"
  by (simp add: fw_tick_def)

lemma exchange_busy_data:
  assumes "fw_on adc m" "no_data m"
  shows "no_data (snd (fw_exchange t m))" "u0txbuf (snd (fw_exchange t m)) = 0xef"
    "steps_left lat (snd (fw_exchange t m)) = steps_left lat m" "fw_due (snd (fw_exchange t m)) = fw_due m"
  using assms unfolding exchange_on(1) [OF assms(1)] 
  by (cases "fw_pc m"; simp add: rx_isr_def steps_left_def fw_due_def)+

lemma byte_cases: "(t :: u8) \<noteq> 16 \<Longrightarrow> t \<le> 15 \<longleftrightarrow> t < 16"
proof -
  assume "t \<noteq> 16"
  then have "unat t \<noteq> 16" by (simp add: word_unat_eq_iff)
  then show ?thesis by (simp add: word_le_nat_alt word_less_nat_alt) linarith
qed

lemma exchange_ready_data:
  assumes "fw_on adc m" "fw_ready m" "t \<noteq> 16"
  shows "fw_ready (snd (fw_exchange t m))" "fw_due (snd (fw_exchange t m)) = fw_due m"
    "u0txbuf (snd (fw_exchange t m)) = (if t < 16 then conv_bytes (adc (fw_due m)) ! unat t else t + 1)"
proof -
  have r: "\<not> no_data m" "byte_data m = conv_bytes (adc (fw_due m))"
    using assms(1,2) by (auto simp: fw_defs)
  show "fw_ready (snd (fw_exchange t m))" "fw_due (snd (fw_exchange t m)) = fw_due m"
      "u0txbuf (snd (fw_exchange t m)) = (if t < 16 then conv_bytes (adc (fw_due m)) ! unat t else t + 1)"
    unfolding exchange_on(1) [OF assms(1)] using assms(2,3) r byte_cases [OF assms(3)]
    by (auto simp: rx_isr_def fw_ready_def fw_due_def)
qed

lemma exchange_start_data:
  assumes "fw_on adc m" "fw_asleep m"
  shows "fw_due (snd (fw_exchange 16 m)) = Suc (conv_no m)" "u0txbuf (snd (fw_exchange 16 m)) = 0xef"
    "steps_left lat (snd (fw_exchange 16 m)) = lat (Suc (conv_no m)) + 12"
proof -
  have r: "\<not> no_data m" "fw_pc m = FwWoken" using assms by (auto simp: fw_defs)
  show "fw_due (snd (fw_exchange 16 m)) = Suc (conv_no m)" "u0txbuf (snd (fw_exchange 16 m)) = 0xef"
      "steps_left lat (snd (fw_exchange 16 m)) = lat (Suc (conv_no m)) + 12"
    unfolding exchange_on(1) [OF assms(1)] using r by (simp_all add: rx_isr_def fw_due_def steps_left_def)
qed

lemma no_data_left: "fw_on adc m \<Longrightarrow> no_data m \<Longrightarrow> 0 < steps_left lat m"
  by (cases "fw_pc m") (auto simp: fw_defs steps_left_def)

interpretation fw: conversion_slave "monitor lat adc c st" "fw_tick lat adc c" "fw_on adc" no_data fw_ready
  fw_asleep u0txbuf "steps_left lat" "\<lambda>m. conv_bytes (adc (fw_due m))"
  "\<lambda>m. conv_bytes (adc (Suc (conv_no m)))" "\<lambda>m. lat (Suc (conv_no m)) + 12"
  for lat adc c st
proof unfold_locales
  show "m_pass (monitor lat adc c st) 1 = fw_tick lat adc c"
    by (simp add: fw_pass_def fw_tick_def)
next
  fix p :: msp430 and t :: u8
  assume on: "fw_on adc p"
  note steps = steps_on [OF on, where lat = lat]
  show "fst (m_xchg (monitor lat adc c st) t p) = u0txbuf p" by (simp add: fw_exchange_def)
  show "fw_on adc (snd (m_xchg (monitor lat adc c st) t p))" by (simp add: exchange_on(2) [OF on])
  show "fw_on adc (fw_tick lat adc c p)" "u0txbuf (fw_tick lat adc c p) = u0txbuf p"
      "conv_bytes (adc (fw_due (fw_tick lat adc c p))) = conv_bytes (adc (fw_due p))"
    using steps [where k = "Suc c"] by (simp_all add: fw_tick_def)
  show "steps_left lat (fw_tick lat adc c p) \<le> steps_left lat p - 1"
    using steps [where k = "Suc c"] unfolding fw_tick_def by linarith
  show "no_data (fw_tick lat adc c p) \<or> fw_ready (fw_tick lat adc c p)"
    unfolding tick_as_step using steps by (intro step_settles) blast
  show "fw_ready p \<Longrightarrow> fw_asleep (fw_tick lat adc c p)"
    unfolding fw_tick_def by (rule steps_ready [OF on])
  show "fw_asleep p \<Longrightarrow> fw_tick lat adc c p = p"
    unfolding fw_tick_def by (rule steps_asleep [OF on])
  show "no_data p \<Longrightarrow> 0 < steps_left lat p" by (rule no_data_left [OF on])
  show "no_data p \<Longrightarrow>
      no_data (snd (m_xchg (monitor lat adc c st) t p)) \<and> u0txbuf (snd (m_xchg (monitor lat adc c st) t p)) = 0xef \<and>
      steps_left lat (snd (m_xchg (monitor lat adc c st) t p)) = steps_left lat p \<and>
      conv_bytes (adc (fw_due (snd (m_xchg (monitor lat adc c st) t p)))) = conv_bytes (adc (fw_due p))"
    by (simp add: exchange_busy_data [OF on])
  show "fw_ready p \<Longrightarrow> t \<noteq> 16 \<Longrightarrow>
      fw_ready (snd (m_xchg (monitor lat adc c st) t p)) \<and>
      conv_bytes (adc (fw_due (snd (m_xchg (monitor lat adc c st) t p)))) = conv_bytes (adc (fw_due p)) \<and>
      u0txbuf (snd (m_xchg (monitor lat adc c st) t p)) =
        (if t < 16 then conv_bytes (adc (fw_due p)) ! unat t else t + 1)"
    by (simp add: exchange_ready_data [OF on])
  show "fw_asleep p \<Longrightarrow>
      conv_bytes (adc (fw_due (snd (m_xchg (monitor lat adc c st) 16 p)))) = conv_bytes (adc (Suc (conv_no p))) \<and>
      steps_left lat (snd (m_xchg (monitor lat adc c st) 16 p)) \<le> lat (Suc (conv_no p)) + 12 \<and>
      u0txbuf (snd (m_xchg (monitor lat adc c st) 16 p)) = 0xef"
    by (simp add: exchange_start_data [OF on])
qed (auto simp: fw_ready_def fw_asleep_def)

section \<open>Counts and millivolts\<close>

text \<open>The formula over unbounded integers: counts of the eight channels to millivolts.\<close>

definition coeff_num :: "int list" where
  "coeff_num = [101, 101, 120, 1511, 250, 611, 315, 290]"

definition coeff_den :: "int list" where
  "coeff_den = [100, 100, 100, 1000, 100, 100, 100, 100]"

lemma coeff_values:
  "list_all (\<lambda>i. fst (res_coeff ! i) = word_of_int (coeff_num ! i) \<and> snd (res_coeff ! i) = word_of_int (coeff_den ! i) \<and>
     0 \<le> coeff_num ! i \<and> coeff_num ! i \<le> 1511 \<and> 0 < coeff_den ! i \<and> coeff_den ! i \<le> 1000 \<and>
     39999 * coeff_num ! i div coeff_den ! i \<le> 244400) [0..<8]"
  by code_simp

definition scaled :: "nat \<Rightarrow> int \<Rightarrow> int" where
  "scaled i k = k * 2500 div 4096 * coeff_num ! i div coeff_den ! i"

definition millivolts :: "(nat \<Rightarrow> int) \<Rightarrow> int list" where
  "millivolts k = map (\<lambda>i. scaled i (k i)) [0..<6] @
     [scaled 6 (k 6) - scaled 5 (k 5) * 1500 div 1000, scaled 7 (k 7) - 8250]"

lemma sint_word_of_int:
  "- 2147483648 \<le> k \<Longrightarrow> k < 2147483648 \<Longrightarrow> sint (word_of_int k :: s32) = k"
  by (simp add: signed_of_int signed_take_bit_int_eq_self)

lemma sdiv32_of_int:
  assumes "0 \<le> x" "x < 2147483648" "0 < y" "y < 2147483648"
  shows "sdiv32 (word_of_int x) (word_of_int y) = word_of_int (x div y)"
  using assms by (simp add: sdiv32_def sint_word_of_int cdiv_nonneg)

lemma channel_scaled:
  assumes "0 \<le> k" "k \<le> 65535" "i < 8"
  shows "sdiv32 (sdiv32 (word_of_int k * 2500) 4096 * fst (res_coeff ! i)) (snd (res_coeff ! i)) = word_of_int (scaled i k)"
    and "0 \<le> scaled i k" "scaled i k \<le> 244400"
proof -
  have 1: "sdiv32 (word_of_int k * 2500) 4096 = word_of_int (k * 2500 div 4096)"
    using sdiv32_of_int [of "k * 2500" 4096] assms(1,2) by simp
  let ?k = "k * 2500 div 4096"
  have b: "0 \<le> ?k" "?k \<le> 39999" using assms(1,2) by auto
  have 2: "sdiv32 (word_of_int ?k * word_of_int x) (word_of_int y) = word_of_int (?k * x div y)"
    if "0 \<le> x" "x \<le> 1511" "0 < y" "y \<le> 1000" for x y
  proof -
    have "?k * x \<le> 39999 * 1511" using b that by (intro mult_mono) auto
    then show ?thesis using sdiv32_of_int [of "?k * x" y] b that by simp
  qed
  let ?x = "coeff_num ! i" and ?y = "coeff_den ! i"
  have xy: "fst (res_coeff ! i) = word_of_int ?x" "snd (res_coeff ! i) = word_of_int ?y"
      "0 \<le> ?x" "?x \<le> 1511" "0 < ?y" "?y \<le> 1000" "39999 * ?x div ?y \<le> 244400"
    using coeff_values assms(3) by (auto simp: list_all_iff)
  show "sdiv32 (sdiv32 (word_of_int k * 2500) 4096 * fst (res_coeff ! i)) (snd (res_coeff ! i)) = word_of_int (scaled i k)"
    unfolding 1 xy(1,2) scaled_def by (rule 2 [OF xy(3-6)])
  have "0 \<le> ?k * ?x div ?y" "?k * ?x div ?y \<le> 39999 * ?x div ?y"
    using xy b by (simp_all add: pos_imp_zdiv_nonneg_iff zdiv_mono1 mult_right_mono)
  then show "0 \<le> scaled i k" "scaled i k \<le> 244400"
    unfolding scaled_def using xy(7) by linarith+
qed

text \<open>The two bytes of a count, put together again.\<close>

lemma count_bytes: "push_bit 8 (ucast (ucast (drop_bit 8 (v :: u16)) :: u8)) OR ucast (ucast v :: u8) = (word_of_int (uint v) :: s32)"
proof -
  have "push_bit 8 (ucast (ucast (drop_bit 8 v) :: u8)) OR ucast (ucast v :: u8) = (ucast v :: s32)"
  proof (rule bit_word_eqI)
    fix n
    show "bit (push_bit 8 (ucast (ucast (drop_bit 8 v) :: u8)) OR ucast (ucast v :: u8) :: s32) n \<longleftrightarrow> bit (ucast v :: s32) n"
    proof (cases "n < 8")
      case False
      then have "8 + (n - 8) = n" by simp
      moreover have "bit v n \<Longrightarrow> n < 16" using bit_imp_le_length [of v n] by simp
      ultimately show ?thesis using False by (auto simp: bit_simps)
    qed (simp add: bit_simps)
  qed
  then show ?thesis by (rule trans) (rule ucast_eq)
qed

text \<open>One channel of the loop writes its scaled count; the two mixed channels subtract.\<close>

lemma transform_one_eq:
  assumes "length v = 8" "i < 8"
    and d: "push_bit 8 (d ! (2 * i + 1)) OR d ! (2 * i) = (word_of_int k :: s32)" and k: "0 \<le> k" "k \<le> 65535"
  shows "transform_one d i v =
    v[i := word_of_int (scaled i k) -
       (if i = 6 then sdiv32 (v ! 5 * 1500) 1000 else if i = 7 then sdiv32 (5500 * 1500) 1000 else 0)]"
  unfolding transform_one_def d using assms(1,2) channel_scaled(1) [OF k assms(2)]
  by (cases "i = 6"; cases "i = 7"; simp add: Let_def)

lemma nth_conv_bytes:
  "i < 8 \<Longrightarrow> conv_bytes v ! (2 * i) = ucast (v i)"
  "i < 8 \<Longrightarrow> conv_bytes v ! Suc (2 * i) = ucast (drop_bit 8 (v i))"
  by (auto simp: conv_bytes_def upt_rec numeral_eq_Suc less_Suc_eq)

lemma transform_millivolts:
  assumes "length atom = 8"
  shows "map sint (msp_transform (map ucast (conv_bytes v) @ r) atom 0) = millivolts (\<lambda>i. uint (v i))"
proof -
  let ?d = "map ucast (conv_bytes v) @ r :: u32 list"
  have d: "push_bit 8 (?d ! (2 * i + 1)) OR ?d ! (2 * i) = (word_of_int (uint (v i)) :: s32)" if "i < 8" for i
    using that nth_conv_bytes [of i v] by (simp add: nth_append count_bytes)
  have k: "0 \<le> uint (v i)" "uint (v i) \<le> 65535" for i using uint_lt2p [of "v i"] by simp_all
  have one: "transform_one ?d i w = w[i := word_of_int (scaled i (uint (v i))) -
      (if i = 6 then sdiv32 (w ! 5 * 1500) 1000 else if i = 7 then sdiv32 (5500 * 1500) 1000 else 0)]"
    if "length w = 8" "i < 8" for i w
    using that d k by (intro transform_one_eq) simp_all
  obtain a0 a1 a2 a3 a4 a5 a6 a7 where a: "atom = [a0, a1, a2, a3, a4, a5, a6, a7]"
    using assms by (auto simp: numeral_eq_Suc length_Suc_conv)
  have channels: "[0..<8] = [0, 1, 2, 3, 4, 5, 6, 7 :: nat]" and six: "[0..<6] = [0, 1, 2, 3, 4, 5 :: nat]"
    by (simp_all add: upt_rec)
  let ?w = "\<lambda>i. word_of_int (scaled i (uint (v i))) :: s32"
  have "msp_transform ?d atom 0 =
      [?w 0, ?w 1, ?w 2, ?w 3, ?w 4, ?w 5, ?w 6 - sdiv32 (?w 5 * 1500) 1000, ?w 7 - sdiv32 (5500 * 1500) 1000]"
    unfolding msp_transform_def a channels by (simp add: one)
  moreover have "sdiv32 (?w 5 * 1500) 1000 = word_of_int (scaled 5 (uint (v 5)) * 1500 div 1000)"
    using sdiv32_of_int [of "scaled 5 (uint (v 5)) * 1500" 1000] channel_scaled(2,3) [OF k, of 5 5] by simp
  moreover have "sdiv32 (5500 * 1500) 1000 = word_of_int 8250"
    using sdiv32_of_int [of 8250000 1000] by simp
  moreover have "sint (?w i) = scaled i (uint (v i))" if "i < 8" for i
    using channel_scaled(2,3) [OF k that, of i] by (intro sint_word_of_int) linarith+
  moreover have diff: "sint (?w i - word_of_int q) = scaled i (uint (v i)) - q"
    if "i < 8" "0 \<le> q" "q \<le> 1000000" for i q
    unfolding of_int_diff [symmetric]
    using channel_scaled(2,3) [OF k that(1), of i] that(2,3) by (intro sint_word_of_int) linarith+
  moreover have "0 \<le> scaled 5 (uint (v 5)) * 1500 div 1000" "scaled 5 (uint (v 5)) * 1500 div 1000 \<le> 1000000"
    using channel_scaled(2,3) [OF k, of 5 5] by auto
  moreover have "sint (?w 7 - 8250) = scaled 7 (uint (v 7)) - 8250" using diff [of 7 8250] by simp
  ultimately show ?thesis unfolding millivolts_def six by simp
qed

section \<open>Reading a voltage\<close>

text \<open>C32. A read of the voltage monitor delivers the voltages of the conversion it started: with the
  firmware asleep after some conversion, whatever its speed and the time a conversion takes, a read
  of one atom returns 32 bytes, the millivolts of the next conversion's counts, and leaves the
  firmware asleep and ready for the next read. The loops of the driver end within \<open>n\<close> tests each,
  if the port answers within \<open>n\<close> tests and the conversion takes at most \<open>n - 15\<close> jiffies.\<close>

theorem msp_read_delivers:
  assumes on: "fw_on adc (b_peer b)" "fw_asleep (b_peer b)"
      and port: "port_alive n st"
      and long: "lat (Suc (conv_no (b_peer b))) + 15 \<le> n"
      and dev: "\<not> ms_sem d" "length (RX_buf d) = 32" "length atom = 8"
  shows "\<exists>d' volts b'. msp_read (monitor lat adc c st) n signal True 32 d atom b = Ret (d', volts, b', Inr 32, [volts]) \<and>
    map sint volts = millivolts (\<lambda>i. uint (adc (Suc (conv_no (b_peer b))) i)) \<and>
    d' = d\<lparr>RX_buf := RX_buf d', RX_seq := 16\<rparr> \<and>
    fw_on adc (b_peer b') \<and> fw_asleep (b_peer b') \<and>
    conv_bytes (adc (conv_no (b_peer b'))) = conv_bytes (adc (Suc (conv_no (b_peer b))))"
proof -
  let ?M = "monitor lat adc c st" and ?v = "adc (Suc (conv_no (b_peer b)))"
  have "port_alive n (m_sssr ?M)" using port by simp
  from fw.transfer_atom_delivers [OF this on(1,2) _ dev(2), of atom] long obtain d' b' where
    t: "transfer_atom ?M n d atom b = Ret (d', msp_transform (RX_buf d') atom 0, b', True)"
      "fw_on adc (b_peer b')" "fw_asleep (b_peer b')"
      "conv_bytes (adc (fw_due (b_peer b'))) = conv_bytes ?v"
      "RX_buf d' = map ucast (conv_bytes ?v) @ drop 16 (RX_buf d)" "d' = d\<lparr>RX_buf := RX_buf d', RX_seq := 16\<rparr>"
    by auto
  let ?volts = "msp_transform (RX_buf d') atom 0"
  have "msp_read ?M n signal True 32 d atom b = Ret (d', ?volts, b', Inr 32, [?volts])"
    using dev(1) t(1) by (simp add: msp_read_def del: msp_transfer.simps) (simp add: numeral_eq_Suc)
  moreover have "map sint ?volts = millivolts (\<lambda>i. uint (?v i))"
    unfolding t(5) by (rule transform_millivolts [OF dev(3)])
  moreover have "fw_due (b_peer b') = conv_no (b_peer b')" using t(3) by (simp add: fw_asleep_def fw_due_def)
  ultimately show ?thesis using t by metis
qed

text \<open>The same for a firmware after its first conversion that needs three tests of the flag for the next.\<close>

definition sample_firmware :: msp430 where
  "sample_firmware =
     \<lparr>fw_pc = FwWoken, byte_data = conv_bytes (\<lambda>i. of_nat (100 + i)), no_data = False, u0txbuf = 0xef, u0rxbuf = 0,
      urxifg = False, lpm0 = True, gie = True, conv_no = 1, conv_left = 0\<rparr>"

theorem msp_read_delivers_witness:
  "\<exists>d' volts b'. msp_read (monitor (\<lambda>_. 3) (\<lambda>n i. of_nat (100 * n + i)) 0 (\<lambda>_. 0x60)) 18 False True 32 msp_init_dev
      (replicate 8 0) \<lparr>b_peer = sample_firmware, b_polls = 0\<rparr> = Ret (d', volts, b', Inr 32, [volts]) \<and>
    map sint volts = millivolts (\<lambda>i. uint (of_nat (200 + i) :: u16))"
proof -
  have "fw_on (\<lambda>n i. of_nat (100 * n + i)) sample_firmware" "fw_asleep sample_firmware"
    by (simp_all add: sample_firmware_def fw_defs)
  moreover have "port_alive 18 (\<lambda>_. 0x60)"
    by (auto simp: port_alive_def answers_within_def push_bit_eq_mult intro!: exI [of _ 0])
  ultimately show ?thesis
    using msp_read_delivers [of "\<lambda>n i. of_nat (100 * n + i)" "\<lparr>b_peer = sample_firmware, b_polls = 0\<rparr>" 18 "\<lambda>_. 0x60"
        "\<lambda>_. 3" msp_init_dev "replicate 8 0" 0 False]
    by (fastforce simp: msp_init_dev_def sample_firmware_def)
qed

section \<open>The device and the module\<close>

text \<open>Counts of 12 bits give voltages of at most 15.27 V before the subtractions.\<close>

lemma scaled_range:
  assumes "0 \<le> k" "k \<le> 4095" "i < 8"
  shows "scaled i k \<le> 15270"
proof -
  have k: "k * 2500 div 4096 \<le> 2499" using assms(2) by auto
  have x: "0 \<le> coeff_num ! i" "0 < coeff_den ! i" "2499 * coeff_num ! i div coeff_den ! i \<le> 15270"
  proof -
    have "list_all (\<lambda>i. 0 \<le> coeff_num ! i \<and> 0 < coeff_den ! i \<and> 2499 * coeff_num ! i div coeff_den ! i \<le> 15270) [0..<8]"
      by code_simp
    with assms(3) show "0 \<le> coeff_num ! i" "0 < coeff_den ! i" "2499 * coeff_num ! i div coeff_den ! i \<le> 15270"
      by (auto simp: list_all_iff)
  qed
  then have "scaled i k \<le> 2499 * coeff_num ! i div coeff_den ! i"
    unfolding scaled_def using k by (intro zdiv_mono1 mult_right_mono) auto
  with x show ?thesis by linarith
qed

text \<open>
  A file opened for neither reading nor writing is let in without being counted, but its release is
  counted: the number of readers falls short by one, below zero for the only file.
\<close>

lemma uncounted_open:
  assumes "\<not> mf_read f" "\<not> mf_write f" "\<not> ms_sem d"
  shows "\<exists>d'. msp_open 0 f d = Ret (d', Inr 0) \<and> ms_readers d' = ms_readers d \<and>
    (\<exists>d''. msp_release d' = Ret (d'', Inr 0) \<and> ms_readers d'' = ms_readers d - 1)"
  using assms by (simp add: msp_open_def msp_release_def Let_def)

lemma counted_open:
  assumes "mf_read f" "\<not> mf_write f" "\<not> ms_sem d" "ms_readers d = 0 \<longleftrightarrow> ms_master d = None"
      "ms_readers d + 1 \<noteq> 0"
  shows "\<exists>d'. msp_open 0 f d = Ret (d', Inr 0) \<and> msp_release d' = Ret (d, Inr 0)"
  using assms by (auto simp: msp_open_def msp_release_def Let_def)

text \<open>A failed load keeps the mapping only; a load that succeeds holds all three resources.\<close>

lemma msp_init_resources:
  assumes "\<not> mod_region k" "\<not> mod_chrdev k" "msp_init a k = (k', r)"
  shows "mod_mapped k'" "mod_region k' \<longleftrightarrow> (\<exists>n. r = Inr n)" "mod_chrdev k' \<longleftrightarrow> (\<exists>n. r = Inr n)"
    "msp_iobase k' = ans_map a"
  using assms by (auto simp: msp_init_def Let_def msp_hw_init_def pxa_upd_def msp_reset_def split: option.splits if_splits)

lemma msp_exit_resources:
  "msp_iobase k \<noteq> 0 \<Longrightarrow> \<not> mod_mapped (msp_exit k) \<and> \<not> mod_region (msp_exit k) \<and> \<not> mod_chrdev (msp_exit k)"
  by (simp add: msp_exit_def Let_def)

text \<open>The pins of the serial port: three outputs, two inputs, their alternate functions; no other pin changes.\<close>

lemma msp_pins:
  "pxa (msp_hw_init cken k) GPDR0 = (pxa k GPDR0 OR 0x03800000) AND NOT 0x0c000000"
  "pxa (msp_hw_init cken k) GAFR0_U = (pxa k GAFR0_U AND 0xff003fff) OR 0x005a8000"
  "pxa (msp_hw_init cken k) SSCR0 = 0xf87" "pxa (msp_hw_init cken k) SSCR1 = 0x10"
  by (simp_all add: msp_hw_init_def pxa_upd_def msp_reset_def Let_def push_bit_eq_mult)

lemma msp_reset_runs:
  "map snd (cpld (msp_reset k)) = map snd (cpld k) @ [6, 7, 3]"
  by (simp add: msp_reset_def writel_def Let_def)

end
