(* ===== verification/Msp_Load.thy ===== *)
theory Msp_Load
  imports Libera_Prelude
begin

text \<open>
  The boot loader tool of the voltage monitor (\<open>mspload.c\<close>): it drives the reset and test pins of the
  microcontroller through a register of the CPLD and programs it over a serial line, with frames of
  the controller's boot protocol made from the Intel HEX file on its standard input. Bytes of type
  \<open>char\<close> are unsigned, as on the ARM processor of the instrument. What \<open>scanf\<close> does is written out for
  the conversions used; reading a byte that the input does not hold leaves a variable undefined,
  which is \<open>Fault\<close>, and so is here the prefix 0x, which the C library may or may not accept. Pauses
  and messages on the screen are left out.
\<close>

section \<open>Constants and state\<close>

abbreviation (input) PGM :: u8 where "PGM \<equiv> 4"
abbreviation (input) TCK :: u8 where "TCK \<equiv> 2"
abbreviation (input) RST_NMI :: u8 where "RST_NMI \<equiv> 1"
abbreviation (input) BSL_SYNC :: u8 where "BSL_SYNC \<equiv> 0x80"
abbreviation (input) BSL_TXPWORD :: u8 where "BSL_TXPWORD \<equiv> 0x10"
abbreviation (input) BSL_TXBLK :: u8 where "BSL_TXBLK \<equiv> 0x12"
abbreviation (input) BSL_MERAS :: u8 where "BSL_MERAS \<equiv> 0x18"
abbreviation (input) BSL_LOADPC :: u8 where "BSL_LOADPC \<equiv> 0x1A"

text \<open>
  The variables of the program; \<open>reg2_log\<close> are the bytes written to the register, \<open>tty\<close> those
  written to the serial line, \<open>inp\<close> is what standard input still holds. \<open>tty_opens\<close> tells whether the
  serial line can be opened: it is opened anew for every byte.
\<close>

record bsl =
  reg2_log :: "u8 list"
  tty :: "u8 list"
  tty_opens :: bool
  frame_bytes :: "u8 list"
  frame_lenght :: nat
  frame_done :: bool
  cks_l :: u8
  cks_h :: u8
  stream_data :: u8
  number_of_data_bytes :: u8
  address_h :: u8
  address_l :: u8
  s_buf :: "u8 list"
  inp :: "u8 list"

section \<open>Pins\<close>

definition set_reg2 :: "u8 \<Rightarrow> bsl \<Rightarrow> bsl" where
  "set_reg2 v s = s\<lparr>reg2_log := reg2_log s @ [v]\<rparr>"

definition Bootstrap_ON :: "bsl \<Rightarrow> bsl" where
  "Bootstrap_ON s =
     (let s = set_reg2 (PGM OR TCK OR RST_NMI) s;
          s = set_reg2 ((PGM OR TCK) AND NOT RST_NMI) s;
          s = set_reg2 (PGM AND NOT TCK AND NOT RST_NMI) s;
          s = set_reg2 ((PGM OR TCK) AND NOT RST_NMI) s;
          s = set_reg2 (PGM AND NOT TCK AND NOT RST_NMI) s;
          s = set_reg2 ((PGM AND NOT TCK) OR RST_NMI) s
      in set_reg2 (PGM OR TCK OR RST_NMI) s)"

definition Bootstrap_OFF :: "bsl \<Rightarrow> bsl" where
  "Bootstrap_OFF s = set_reg2 (NOT PGM AND (TCK OR RST_NMI)) s"

definition Reset_msp :: "bsl \<Rightarrow> bsl" where
  "Reset_msp s =
     (let s = set_reg2 ((PGM OR TCK) AND NOT RST_NMI) s;
          s = set_reg2 (PGM OR TCK OR RST_NMI) s
      in set_reg2 ((RST_NMI OR TCK) AND NOT PGM) s)"

section \<open>Frames\<close>

text \<open>\<open>for (l=0; l<frame_lenght; l++) FRAME_BYTES[l]=B[l]\<close>, from \<open>l\<close> on with \<open>k\<close> rounds to go.\<close>

fun fill_frame :: "nat \<Rightarrow> nat \<Rightarrow> u8 list \<Rightarrow> u8 list \<Rightarrow> u8 list call" where
  "fill_frame l 0 B F = Ret F"
| "fill_frame l (Suc k) B F =
     (if l < length B \<and> l < length F then fill_frame (Suc l) k B (F[l := B ! l]) else Fault)"

fun cks_loop :: "nat \<Rightarrow> nat \<Rightarrow> u8 list \<Rightarrow> u8 \<times> u8 \<Rightarrow> (u8 \<times> u8) call" where
  "cks_loop i 0 F c = Ret c"
| "cks_loop i (Suc k) F c =
     (if i < length F
      then cks_loop (Suc i) k F (if i mod 2 = 0 then (fst c XOR F ! i, snd c) else (fst c, snd c XOR F ! i))
      else Fault)"

definition checksum :: "bsl \<Rightarrow> bsl call" where
  "checksum s =
     call_bind (cks_loop 0 (frame_lenght s) (frame_bytes s) (0, 0)) (\<lambda>(l, h).
       if frame_lenght s + 1 < length (frame_bytes s)
       then Ret (s\<lparr>cks_l := l, cks_h := h,
                   frame_bytes := (frame_bytes s)[frame_lenght s := NOT l, frame_lenght s + 1 := NOT h],
                   frame_lenght := frame_lenght s + 2\<rparr>)
       else Fault)"

fun write_bytes :: "nat \<Rightarrow> nat \<Rightarrow> u8 list \<Rightarrow> u8 list \<Rightarrow> u8 list call" where
  "write_bytes i 0 F out = Ret out"
| "write_bytes i (Suc k) F out =
     (if i < length F then write_bytes (Suc i) k F (out @ [F ! i]) else Fault)"

text \<open>A serial line that cannot be opened is a null pointer for \<open>fputc\<close>.\<close>

definition MSP_WRITE :: "bsl \<Rightarrow> bsl call" where
  "MSP_WRITE s =
     (if frame_done s
      then if \<not> tty_opens s then Fault
           else call_bind (write_bytes 0 (frame_lenght s) (frame_bytes s) (tty s @ [0x80])) (\<lambda>out.
             Ret (s\<lparr>tty := out, frame_done := False\<rparr>))
      else Ret (s\<lparr>frame_done := False\<rparr>))"

text \<open>What all functions that send a frame have in common.\<close>

definition send_frame :: "u8 list \<Rightarrow> nat \<Rightarrow> bsl \<Rightarrow> bsl call" where
  "send_frame B n s =
     call_bind (fill_frame 0 n B (frame_bytes s)) (\<lambda>F.
     call_bind (checksum (s\<lparr>frame_bytes := F, frame_lenght := n\<rparr>)) (\<lambda>s.
       MSP_WRITE (s\<lparr>frame_done := True\<rparr>)))"

definition erase_frame :: "u8 list" where
  "erase_frame = [BSL_SYNC, BSL_MERAS, 0x04, 0x04, 0x00, 0x00, 0x00, 0x00]"

definition erase_mem :: "bsl \<Rightarrow> bsl call" where
  "erase_mem s =
     call_bind (fill_frame 0 8 erase_frame (frame_bytes s)) (\<lambda>F.
     call_bind (checksum (s\<lparr>frame_bytes := F, frame_lenght := 8\<rparr>)) (\<lambda>s.
       MSP_WRITE (s\<lparr>frame_lenght := 10, frame_done := True\<rparr>)))"

definition passwd_frame :: "u8 list" where
  "passwd_frame = [BSL_SYNC, BSL_TXPWORD, 0x24, 0x24, 0x00, 0x00, 0x00, 0x00] @ replicate 32 0xFF"

definition passwd :: "bsl \<Rightarrow> bsl call" where
  "passwd = send_frame passwd_frame 40"

definition pc_patch_frame :: "u8 list" where
  "pc_patch_frame = [BSL_SYNC, BSL_LOADPC, 0x4, 0x4, 0x20, 0x02, 0x00, 0x00]"

definition load_PC_patch :: "bsl \<Rightarrow> bsl call" where
  "load_PC_patch = send_frame pc_patch_frame 8"

definition pc_frame :: "u8 list" where
  "pc_frame = [BSL_SYNC, BSL_LOADPC, 0x4, 0x4, 0x22, 0x0C, 0x00, 0x00]"

definition load_PC :: "bsl \<Rightarrow> bsl call" where
  "load_PC = send_frame pc_frame 8"

definition load_PC2 :: "bsl \<Rightarrow> bsl call" where
  "load_PC2 = send_frame [BSL_SYNC, BSL_LOADPC, 0x4, 0x4, 0x20, 0x02, 0x00, 0x00] 8"

definition patch_frame :: "u8 list" where
  "patch_frame =
    [BSL_SYNC, BSL_TXBLK, 0xC6, 0xC6, 0x20, 0x02, 0xC2, 0,
     0x31, 0x40, 0x1A, 0x02, 0x09, 0x43, 0xB0, 0x12, 0x2A, 0x0E, 0xB0, 0x12, 0xBA, 0x0D, 0x55, 0x42,
     0x0B, 0x02, 0x75, 0x90, 0x12, 0x00, 0x1F, 0x24, 0xB0, 0x12, 0xBA, 0x02, 0x55, 0x42, 0x0B, 0x02,
     0x75, 0x90, 0x16, 0x00, 0x16, 0x24, 0x75, 0x90, 0x14, 0x00, 0x11, 0x24, 0xB0, 0x12, 0x84, 0x0E,
     0x06, 0x3C, 0xB0, 0x12, 0x94, 0x0E, 0x03, 0x3C, 0x21, 0x53, 0xB0, 0x12, 0x8C, 0x0E, 0xB2, 0x40,
     0x10, 0xA5, 0x2C, 0x01, 0xB2, 0x40, 0x00, 0xA5, 0x28, 0x01, 0x30, 0x40, 0x42, 0x0C, 0x30, 0x40,
     0x76, 0x0D, 0x30, 0x40, 0xAC, 0x0C, 0x16, 0x42, 0x0E, 0x02, 0x17, 0x42, 0x10, 0x02, 0xE2, 0xB2,
     0x08, 0x02, 0x14, 0x24, 0xB0, 0x12, 0x10, 0x0F, 0x36, 0x90, 0x00, 0x10, 0x06, 0x28, 0xB2, 0x40,
     0x00, 0xA5, 0x2C, 0x01, 0xB2, 0x40, 0x40, 0xA5, 0x28, 0x01, 0xD6, 0x42, 0x06, 0x02, 0x00, 0x00,
     0x16, 0x53, 0x17, 0x83, 0xEF, 0x23, 0xB0, 0x12, 0xBA, 0x02, 0xD3, 0x3F, 0xB0, 0x12, 0x10, 0x0F,
     0x17, 0x83, 0xFC, 0x23, 0xB0, 0x12, 0xBA, 0x02, 0xD0, 0x3F, 0x18, 0x42, 0x12, 0x02, 0xB0, 0x12,
     0x10, 0x0F, 0xD2, 0x42, 0x06, 0x02, 0x12, 0x02, 0xB0, 0x12, 0x10, 0x0F, 0xD2, 0x42, 0x06, 0x02,
     0x13, 0x02, 0x38, 0xE3, 0x18, 0x92, 0x12, 0x02, 0xBF, 0x23, 0xE2, 0xB3, 0x08, 0x02, 0xBC, 0x23,
     0x30, 0x41]"

definition load_PATCH :: "bsl \<Rightarrow> bsl call" where
  "load_PATCH = send_frame patch_frame 202"

text \<open>\<open>frame_gen\<close>: the array \<open>A\<close> holds the header and a copy of the data at \<open>p\<close>.\<close>

fun copy_data :: "nat \<Rightarrow> nat \<Rightarrow> u8 list \<Rightarrow> u8 list \<Rightarrow> u8 list call" where
  "copy_data i 0 p A = Ret A"
| "copy_data i (Suc k) p A = (if i < length p then copy_data (Suc i) k p (A @ [p ! i]) else Fault)"

definition block_header :: "u8 \<Rightarrow> u8 \<Rightarrow> u8 \<Rightarrow> u8 list" where
  "block_header n al ah = [BSL_SYNC, BSL_TXBLK, n + 4, n + 4, al, ah, n, 0]"

definition frame_gen :: "u8 list \<Rightarrow> bsl \<Rightarrow> bsl call" where
  "frame_gen p s =
     (let n = number_of_data_bytes s in
      call_bind (copy_data 0 (unat n) p (block_header n (address_l s) (address_h s))) (\<lambda>A.
        send_frame A (8 + unat n) s))"

section \<open>Reading the HEX file\<close>

text \<open>\<open>do { scanf("%c",&StreamData); } while (StreamData!=':')\<close>: at the end of the input \<open>scanf\<close> keeps failing.\<close>

fun scan_colon :: "u8 \<Rightarrow> u8 list \<Rightarrow> (u8 \<times> u8 list) call" where
  "scan_colon sd [] = (if sd = 0x3a then Ret (sd, []) else Hang)"
| "scan_colon sd (c # cs) = (if c = 0x3a then Ret (c, cs) else scan_colon c cs)"

definition is_space :: "u8 \<Rightarrow> bool" where
  "is_space c \<longleftrightarrow> c = 32 \<or> 9 \<le> c \<and> c \<le> 13"

definition hex_value :: "u8 \<Rightarrow> u8 option" where
  "hex_value c =
     (if 48 \<le> c \<and> c \<le> 57 then Some (c - 48)
      else if 65 \<le> c \<and> c \<le> 70 then Some (c - 55)
      else if 97 \<le> c \<and> c \<le> 102 then Some (c - 87)
      else None)"

text \<open>The conversion \<open>%02x\<close>: white space, then at most two characters, a sign or digits.\<close>

definition read_byte :: "u8 list \<Rightarrow> (u8 \<times> u8 list) call" where
  "read_byte cs =
     (case dropWhile is_space cs of
        [] \<Rightarrow> Fault
      | c # r \<Rightarrow>
          (case hex_value c of
             Some d \<Rightarrow>
               (case r of
                  [] \<Rightarrow> Ret (d, [])
                | e # r' \<Rightarrow>
                    (case hex_value e of
                       Some f \<Rightarrow> Ret (16 * d + f, r')
                     | None \<Rightarrow> if d = 0 \<and> (e = 0x78 \<or> e = 0x58) then Fault else Ret (d, r)))
           | None \<Rightarrow>
               if c = 0x2b \<or> c = 0x2d then
                 (case r of
                    [] \<Rightarrow> Fault
                  | e # r' \<Rightarrow>
                      (case hex_value e of
                         Some f \<Rightarrow> Ret (if c = 0x2d then - f else f, r')
                       | None \<Rightarrow> Fault))
               else Fault))"

fun read_data :: "nat \<Rightarrow> nat \<Rightarrow> u8 list \<times> u8 list \<Rightarrow> (u8 list \<times> u8 list) call" where
  "read_data k 0 x = Ret x"
| "read_data k (Suc n) (S, cs) =
     call_bind (read_byte cs) (\<lambda>(b, cs). if k < length S then read_data (Suc k) n (S[k := b], cs) else Fault)"

text \<open>\<open>read_line\<close> returns 1, here \<open>True\<close>, at a record without data.\<close>

definition read_line :: "bsl \<Rightarrow> (bsl \<times> bool) call" where
  "read_line s =
     call_bind (scan_colon (stream_data s) (inp s)) (\<lambda>(_, cs).
     call_bind (read_byte cs) (\<lambda>(n, cs).
       if n = 0 then Ret (s\<lparr>stream_data := n, number_of_data_bytes := n, inp := cs\<rparr>, True)
       else call_bind (read_byte cs) (\<lambda>(ah, cs).
            call_bind (read_byte cs) (\<lambda>(al, cs).
            call_bind (read_byte cs) (\<lambda>(_, cs).
            call_bind (read_data 0 (unat n) (s_buf s, cs)) (\<lambda>(S, cs).
            call_bind (read_byte cs) (\<lambda>(c, cs).
              let s = s\<lparr>stream_data := c, number_of_data_bytes := n, address_h := ah, address_l := al,
                        s_buf := S, inp := cs\<rparr> in
              call_bind (frame_gen (s_buf s) s) (\<lambda>s. Ret (s, False)))))))))"

text \<open>Every line takes characters from the input, so the loop of \<open>read_file\<close> ends.\<close>

lemma read_byte_takes:
  assumes "read_byte cs = Ret (b, cs')"
  shows "length cs' < length cs"
proof -
  have "length (dropWhile is_space cs) \<le> length cs" by (rule length_dropWhile_le)
  with assms show ?thesis
    by (auto simp: read_byte_def split: list.splits option.splits if_splits)
qed

lemma scan_colon_takes: "scan_colon sd cs = Ret (c, cs') \<Longrightarrow> length cs' \<le> length cs"
  by (induction sd cs rule: scan_colon.induct) (auto split: if_splits)

lemma read_data_takes: "read_data k n (S, cs) = Ret (S', cs') \<Longrightarrow> length cs' \<le> length cs"
proof (induction k n "(S, cs)" arbitrary: S cs rule: read_data.induct)
  case (2 k n S cs)
  then obtain b cs1 where b: "read_byte cs = Ret (b, cs1)" "k < length S"
      "read_data (Suc k) n (S[k := b], cs1) = Ret (S', cs')"
    by (auto simp: call_bind_Ret_iff split: if_splits)
  from 2(1) [OF b(2) b(3)] read_byte_takes [OF b(1)] show ?case by simp
qed simp

lemma send_frame_inp: "send_frame B n s = Ret s' \<Longrightarrow> inp s' = inp s"
  by (auto simp: send_frame_def checksum_def MSP_WRITE_def call_bind_Ret_iff split: if_splits)

lemma frame_gen_inp: "frame_gen p s = Ret s' \<Longrightarrow> inp s' = inp s"
  by (auto simp: frame_gen_def Let_def call_bind_Ret_iff dest: send_frame_inp)

lemma read_line_takes:
  assumes "read_line s = Ret (s', e)"
  shows "length (inp s') < length (inp s)"
proof -
  obtain c cs n cs1 where 1: "scan_colon (stream_data s) (inp s) = Ret (c, cs)" "read_byte cs = Ret (n, cs1)"
    using assms by (auto simp: read_line_def call_bind_Ret_iff)
  note len = scan_colon_takes [OF 1(1)] read_byte_takes [OF 1(2)]
  show ?thesis
  proof (cases "n = 0")
    case True
    then show ?thesis using assms 1 len by (auto simp: read_line_def)
  next
    case False
    then show ?thesis
      using assms 1 len
      by (auto simp: read_line_def Let_def call_bind_Ret_iff dest!: read_byte_takes read_data_takes frame_gen_inp)
  qed
qed

lemma load_PC_patch_inp: "load_PC_patch s = Ret s' \<Longrightarrow> inp s' = inp s"
  by (simp add: load_PC_patch_def send_frame_inp)

text \<open>\<open>do { load_PC_patch(); } while (read_line() == 0)\<close>\<close>

function read_loop :: "bsl \<Rightarrow> bsl call" where
  "read_loop s =
     (case load_PC_patch s of
        Ret s1 \<Rightarrow> (case read_line s1 of
            Ret (s2, e) \<Rightarrow> (if e then Ret s2 else read_loop s2)
          | Hang \<Rightarrow> Hang | Fault \<Rightarrow> Fault)
      | Hang \<Rightarrow> Hang | Fault \<Rightarrow> Fault)"
  by pat_completeness auto
termination
  by (relation "measure (\<lambda>s. length (inp s))") (auto dest!: read_line_takes load_PC_patch_inp)

definition read_file :: "bsl \<Rightarrow> bsl call" where
  "read_file s = call_bind (load_PC_patch s) read_loop"

section \<open>Main program\<close>

definition bsl_erase :: "bsl \<Rightarrow> bsl call" where
  "bsl_erase s = call_bind (erase_mem (Bootstrap_ON s)) (\<lambda>s. Ret (Reset_msp (Bootstrap_OFF s)))"

definition bsl_program :: "bsl \<Rightarrow> bsl call" where
  "bsl_program s =
     call_bind (erase_mem (Bootstrap_ON s)) (\<lambda>s.
     call_bind (passwd (Bootstrap_ON (Reset_msp (Bootstrap_OFF s)))) (\<lambda>s.
     call_bind (load_PC s) (\<lambda>s.
     call_bind (passwd s) (\<lambda>s.
     call_bind (load_PATCH s) (\<lambda>s.
     call_bind (load_PC_patch s) (\<lambda>s.
     call_bind (read_file s) (\<lambda>s. Ret (Reset_msp (Bootstrap_OFF s)))))))))"

text \<open>
  The exit code. \<open>mapped\<close>: the register could be mapped; \<open>arg\<close> is the first character of the first
  argument. The cases for help and errors print.
\<close>

definition mspload_main :: "bool \<Rightarrow> u8 option \<Rightarrow> bsl \<Rightarrow> (bsl \<times> int) call" where
  "mspload_main mapped arg s =
     (if \<not> mapped then Ret (s, -1)
      else case arg of
        None \<Rightarrow> Ret (s, 0)
      | Some c \<Rightarrow>
          if c = 0x65 then call_bind (bsl_erase s) (\<lambda>s. Ret (s, 0))
          else if c = 0x72 then Ret (Reset_msp s, 0)
          else if c = 0x77 then call_bind (bsl_program s) (\<lambda>s. Ret (s, 0))
          else Ret (s, 0))"

end
