(* ===== verification/Msp_Load_Props.thy ===== *)
theory Msp_Load_Props
  imports Msp_Load
begin

text \<open>
  What the boot loader tool puts on the serial line. The frames of the boot protocol are decoded by a
  reader of their format, so the statement is about what a controller that keeps to the format
  understands: programming sends the fixed commands and every record of the HEX file, once and in
  order.
\<close>

section \<open>The format of a frame\<close>

text \<open>The checksums: exclusive or of the bytes at even and at odd places.\<close>

fun cks :: "u8 list \<Rightarrow> u8 \<times> u8" where
  "cks [] = (0, 0)"
| "cks (b # bs) = (b XOR snd (cks bs), fst (cks bs))"

definition with_cks :: "u8 list \<Rightarrow> u8 list" where
  "with_cks f = f @ [NOT (fst (cks f)), NOT (snd (cks f))]"

text \<open>
  A synchronisation byte, then a frame: header byte, command, twice the length \<open>L\<close>, \<open>L\<close> bytes of
  address, length and data, two checksums.
\<close>

definition take_frame :: "u8 list \<Rightarrow> ((u8 \<times> u8 list) \<times> u8 list) option" where
  "take_frame bs =
     (case bs of
        sync # h # cmd # l1 # l2 # r \<Rightarrow>
          let n = unat l1; body = take n r in
          if sync = 0x80 \<and> h = 0x80 \<and> l1 = l2 \<and> n + 2 \<le> length r \<and>
             take 2 (drop n r) = [NOT (fst (cks (h # cmd # l1 # l2 # body))), NOT (snd (cks (h # cmd # l1 # l2 # body)))]
          then Some ((cmd, body), drop (n + 2) r) else None
      | _ \<Rightarrow> None)"

lemma take_frame_shorter: "take_frame bs = Some (f, r) \<Longrightarrow> length r < length bs"
  by (auto simp: take_frame_def Let_def split: list.splits if_splits)

function parse_wire :: "u8 list \<Rightarrow> (u8 \<times> u8 list) list option" where
  "parse_wire bs =
     (if bs = [] then Some []
      else case take_frame bs of
        None \<Rightarrow> None
      | Some (f, r) \<Rightarrow> map_option ((#) f) (parse_wire r))"
  by pat_completeness auto
termination
  by (relation "measure length") (auto dest: take_frame_shorter)

declare parse_wire.simps [simp del]

text \<open>A well-formed frame: its length bytes fit its length.\<close>

definition frame_of :: "u8 \<Rightarrow> u8 list \<Rightarrow> u8 list" where
  "frame_of cmd body = [0x80, cmd, of_nat (length body), of_nat (length body)] @ body"

definition wire :: "u8 list \<Rightarrow> u8 list" where
  "wire f = 0x80 # with_cks f"

lemma take_frame_wire:
  assumes "length body < 256"
  shows "take_frame (wire (frame_of cmd body) @ r) = Some ((cmd, body), r)"
proof -
  have "unat (of_nat (length body) :: u8) = length body" using assms by (simp add: unat_of_nat take_bit_eq_mod)
  then show ?thesis by (simp add: take_frame_def wire_def with_cks_def frame_of_def Let_def)
qed

lemma parse_wire_Nil [simp]: "parse_wire [] = Some []"
  by (simp add: parse_wire.simps)

lemma parse_wire_Cons:
  "length body < 256 \<Longrightarrow> parse_wire (wire (frame_of cmd body) @ r) = map_option ((#) (cmd, body)) (parse_wire r)"
  by (subst parse_wire.simps) (simp add: take_frame_wire, simp add: wire_def)

lemma parse_wire_append:
  "parse_wire a = Some fs \<Longrightarrow> parse_wire (a @ b) = map_option ((@) fs) (parse_wire b)"
proof (induction a arbitrary: fs rule: length_induct)
  case (1 a)
  show ?case
  proof (cases "a = []")
    case True
    with 1(2) show ?thesis by (cases "parse_wire b") auto
  next
    case False
    with 1(2) obtain f r where f: "take_frame a = Some (f, r)" and r: "map_option ((#) f) (parse_wire r) = Some fs"
      by (auto simp: parse_wire.simps [of a] split: option.splits)
    then obtain fs' where fs': "parse_wire r = Some fs'" "fs = f # fs'" by auto
    have "take_frame (a @ b) = Some (f, r @ b)"
      using f by (auto simp: take_frame_def Let_def split: list.splits if_splits)
    moreover have "parse_wire (r @ b) = map_option ((@) fs') (parse_wire b)"
      using 1(1) take_frame_shorter [OF f] fs'(1) by blast
    ultimately show ?thesis
      using False fs'(2) by (subst parse_wire.simps, cases "parse_wire b") simp_all
  qed
qed

section \<open>Sending a frame\<close>

definition bsl_ok :: "bsl \<Rightarrow> bool" where
  "bsl_ok s \<longleftrightarrow> length (frame_bytes s) = 270 \<and> length (s_buf s) = 1024 \<and> tty_opens s"

lemma fill_frame_fills:
  "l + k \<le> length B \<Longrightarrow> l + k \<le> length F \<Longrightarrow>
   fill_frame l k B F = Ret (take l F @ take k (drop l B) @ drop (l + k) F)"
proof (induction k arbitrary: l F)
  case (Suc k)
  then have "take (Suc l) (F[l := B ! l]) = take l F @ [B ! l]" by (simp add: take_Suc_conv_app_nth)
  with Suc show ?case by (simp add: Cons_nth_drop_Suc [symmetric])
qed simp

lemma cks_loop_cks:
  "i + k \<le> length F \<Longrightarrow> cks_loop i k F c =
   Ret (if i mod 2 = 0 then (fst c XOR fst (cks (take k (drop i F))), snd c XOR snd (cks (take k (drop i F))))
        else (fst c XOR snd (cks (take k (drop i F))), snd c XOR fst (cks (take k (drop i F)))))"
proof (induction k arbitrary: i c)
  case (Suc k)
  then have d: "drop i F = F ! i # drop (Suc i) F" by (simp add: Cons_nth_drop_Suc)
  have m: "Suc i mod 2 = 0 \<longleftrightarrow> i mod 2 \<noteq> 0" by presburger
  show ?case using Suc.prems Suc.IH [of "Suc i"] m by (simp add: d xor.assoc)
qed simp

lemma write_bytes_writes: "i + k \<le> length F \<Longrightarrow> write_bytes i k F out = Ret (out @ take k (drop i F))"
proof (induction k arbitrary: i out)
  case (Suc k)
  then have "drop i F = F ! i # drop (Suc i) F" by (simp add: Cons_nth_drop_Suc)
  with Suc show ?case by simp
qed simp

lemma send_frame_sends:
  assumes "bsl_ok s" "n \<le> length B" "n \<le> 268"
  shows "\<exists>F l h. send_frame B n s =
    Ret (s\<lparr>tty := tty s @ wire (take n B), frame_bytes := F, frame_lenght := n + 2, frame_done := False, cks_l := l, cks_h := h\<rparr>)
    \<and> length F = 270"
proof -
  let ?F = "take n B @ drop n (frame_bytes s)"
  let ?c = "cks (take n B)"
  let ?G = "?F[n := NOT (fst ?c), n + 1 := NOT (snd ?c)]"
  have l: "length (frame_bytes s) = 270" "length ?F = 270" "tty_opens s" using assms by (simp_all add: bsl_ok_def)
  have 1: "fill_frame 0 n B (frame_bytes s) = Ret ?F" using assms l(1) by (simp add: fill_frame_fills)
  have t: "take n (drop 0 ?F) = take n B" using assms(2) by simp
  have "0 + n \<le> length ?F" using l(2) assms(3) by simp
  from cks_loop_cks [OF this, of "(0, 0)", unfolded t] have 2: "cks_loop 0 n ?F (0, 0) = Ret ?c" by simp
  have g: "take (n + 2) ?G = with_cks (take n B)"
  proof -
    have "drop n (frame_bytes s) = frame_bytes s ! n # frame_bytes s ! Suc n # drop (n + 2) (frame_bytes s)"
      using l(1) assms(3) by (simp add: Cons_nth_drop_Suc)
    then show ?thesis using assms(2) by (simp add: with_cks_def list_update_append)
  qed
  have "0 + (n + 2) \<le> length ?G" using l(2) assms(3) by simp
  from write_bytes_writes [OF this, of "tty s @ [0x80]"]
  have 3: "write_bytes 0 (n + 2) ?G (tty s @ [0x80]) = Ret (tty s @ wire (take n B))"
    unfolding drop_0 g wire_def by simp
  have "n + 1 < length ?F" "length ?G = 270" using l(2) assms(3) by simp_all
  with 1 2 3 l(3) show ?thesis
    unfolding send_frame_def checksum_def MSP_WRITE_def
    by (intro exI [of _ ?G] exI [of _ "fst ?c"] exI [of _ "snd ?c"])
       (simp add: case_prod_beta del: write_bytes.simps cks_loop.simps fill_frame.simps add_2_eq_Suc')
qed

section \<open>What a run sends\<close>

text \<open>From \<open>s\<close> to \<open>s'\<close> the pins took the values \<open>ps\<close> and the serial line carried the frames \<open>fs\<close>.\<close>

definition sent :: "bsl \<Rightarrow> bsl \<Rightarrow> u8 list \<Rightarrow> (u8 \<times> u8 list) list \<Rightarrow> bool" where
  "sent s s' ps fs \<longleftrightarrow> bsl_ok s' \<and> reg2_log s' = reg2_log s @ ps \<and>
     (\<exists>out. tty s' = tty s @ out \<and> parse_wire out = Some fs)"

lemma sent_trans: "sent s s1 ps fs \<Longrightarrow> sent s1 s2 qs gs \<Longrightarrow> sent s s2 (ps @ qs) (fs @ gs)"
  using parse_wire_append by (fastforce simp: sent_def)

lemma sent_ok: "sent s s' ps fs \<Longrightarrow> bsl_ok s'"
  by (simp add: sent_def)

lemma sent_pins:
  assumes "bsl_ok s"
  shows "sent s (Bootstrap_ON s) [7, 6, 4, 6, 4, 5, 7] []" "sent s (Bootstrap_OFF s) [3] []"
    "sent s (Reset_msp s) [6, 7, 3] []"
  using assms by (simp_all add: sent_def bsl_ok_def Bootstrap_ON_def Bootstrap_OFF_def Reset_msp_def set_reg2_def Let_def)

lemma pins_inp [simp]: "inp (Bootstrap_ON s) = inp s" "inp (Bootstrap_OFF s) = inp s" "inp (Reset_msp s) = inp s"
  by (simp_all add: Bootstrap_ON_def Bootstrap_OFF_def Reset_msp_def set_reg2_def Let_def)

text \<open>One frame.\<close>

lemma sends_frame:
  assumes "bsl_ok s" "B = frame_of cmd body" "length body + 4 = n" "n \<le> 259"
  shows "\<exists>s'. send_frame B n s = Ret s' \<and> sent s s' [] [(cmd, body)] \<and> inp s' = inp s \<and>
    stream_data s' = stream_data s"
proof -
  have B: "take n B = frame_of cmd body" "n \<le> length B" using assms(2,3) by (simp_all add: frame_of_def)
  obtain F l h where f: "send_frame B n s =
      Ret (s\<lparr>tty := tty s @ wire (take n B), frame_bytes := F, frame_lenght := n + 2, frame_done := False, cks_l := l, cks_h := h\<rparr>)"
      "length F = 270"
    using send_frame_sends [OF assms(1) B(2)] assms(4) by auto
  have "parse_wire (wire (frame_of cmd body)) = Some [(cmd, body)]"
    using parse_wire_Cons [of body cmd "[]"] assms(3,4) by simp
  then show ?thesis using f assms(1) B(1) by (auto simp: sent_def bsl_ok_def)
qed

lemma fixed_frames:
  "passwd_frame = frame_of 0x10 (replicate 4 0 @ replicate 32 0xFF)"
  "pc_patch_frame = frame_of 0x1A [0x20, 0x02, 0, 0]"
  "pc_frame = frame_of 0x1A [0x22, 0x0C, 0, 0]"
  "patch_frame = frame_of 0x12 (drop 4 patch_frame)"
  "erase_frame = frame_of 0x18 (replicate 4 0)"
  by (code_simp, code_simp, code_simp, code_simp, code_simp)

lemma length_patch_frame: "length patch_frame = 202"
  by code_simp

lemma erase_mem_send:
  assumes "bsl_ok s"
  shows "erase_mem s = send_frame erase_frame 8 s"
proof -
  obtain F where F: "fill_frame 0 8 erase_frame (frame_bytes s) = Ret F"
    using fill_frame_fills [of 0 8 erase_frame "frame_bytes s"] assms by (simp add: bsl_ok_def erase_frame_def)
  have "checksum t = Ret t' \<Longrightarrow> frame_lenght t = 8 \<Longrightarrow> t'\<lparr>frame_lenght := 10\<rparr> = t'" for t t'
    by (auto simp: checksum_def call_bind_Ret_iff split: if_splits)
  then show ?thesis
    unfolding erase_mem_def send_frame_def F call_bind_simps
    by (cases "checksum (s\<lparr>frame_bytes := F, frame_lenght := 8\<rparr>)") force+
qed

lemma sends_fixed:
  assumes "bsl_ok s"
  shows "\<exists>s'. passwd s = Ret s' \<and> sent s s' [] [(0x10, replicate 4 0 @ replicate 32 0xFF)] \<and> inp s' = inp s \<and>
      stream_data s' = stream_data s"
    "\<exists>s'. load_PC_patch s = Ret s' \<and> sent s s' [] [(0x1A, [0x20, 0x02, 0, 0])] \<and> inp s' = inp s \<and>
      stream_data s' = stream_data s"
    "\<exists>s'. load_PC s = Ret s' \<and> sent s s' [] [(0x1A, [0x22, 0x0C, 0, 0])] \<and> inp s' = inp s \<and>
      stream_data s' = stream_data s"
    "\<exists>s'. load_PATCH s = Ret s' \<and> sent s s' [] [(0x12, drop 4 patch_frame)] \<and> inp s' = inp s \<and>
      stream_data s' = stream_data s"
    "\<exists>s'. erase_mem s = Ret s' \<and> sent s s' [] [(0x18, replicate 4 0)] \<and> inp s' = inp s \<and>
      stream_data s' = stream_data s"
  unfolding passwd_def load_PC_patch_def load_PC_def load_PATCH_def erase_mem_send [OF assms]
  by (rule sends_frame [OF assms fixed_frames(1)] sends_frame [OF assms fixed_frames(2)]
        sends_frame [OF assms fixed_frames(3)] sends_frame [OF assms fixed_frames(4)]
        sends_frame [OF assms fixed_frames(5)]; simp add: length_patch_frame)+

text \<open>A block of data, at most 251 bytes: its length byte counts four more.\<close>

lemma copy_data_copies: "i + k \<le> length p \<Longrightarrow> copy_data i k p A = Ret (A @ take k (drop i p))"
proof (induction k arbitrary: i A)
  case (Suc k)
  then have "drop i p = p ! i # drop (Suc i) p" by (simp add: Cons_nth_drop_Suc)
  with Suc show ?case by simp
qed simp

lemma frame_gen_sends:
  assumes "bsl_ok s" "number_of_data_bytes s = of_nat n" "n \<le> 251" "n \<le> length p"
  shows "\<exists>s'. frame_gen p s = Ret s' \<and>
    sent s s' [] [(0x12, [address_l s, address_h s, of_nat n, 0] @ take n p)] \<and> inp s' = inp s \<and>
    stream_data s' = stream_data s"
proof -
  have u: "unat (of_nat n :: u8) = n" using assms(3) by (simp add: unat_of_nat take_bit_eq_mod)
  have "block_header (of_nat n) (address_l s) (address_h s) @ take n p =
      frame_of 0x12 ([address_l s, address_h s, of_nat n, 0] @ take n p)"
    using assms(4) by (simp add: block_header_def frame_of_def add.commute)
  from sends_frame [OF assms(1) this, of "8 + n"] assms(3,4) show ?thesis
    unfolding frame_gen_def Let_def assms(2) u using copy_data_copies [of 0 n p] by simp
qed

section \<open>Reading a HEX file\<close>

text \<open>
  A record of the file: address, type, data, checksum. The reader ignores type and checksum, so they
  are arbitrary here.
\<close>

record hexrec =
  h_addr_h :: u8
  h_addr_l :: u8
  h_type :: u8
  h_data :: "u8 list"
  h_cks :: u8

definition hexd :: "u8 \<Rightarrow> u8" where
  "hexd k = (if k < 10 then 48 + k else 55 + k)"

definition hex2 :: "u8 \<Rightarrow> u8 list" where
  "hex2 b = [hexd (b div 16), hexd (b mod 16)]"

definition hex_line :: "hexrec \<Rightarrow> u8 list" where
  "hex_line h = 0x3a # hex2 (of_nat (length (h_data h))) @ hex2 (h_addr_h h) @ hex2 (h_addr_l h) @ hex2 (h_type h) @
     concat (map hex2 (h_data h)) @ hex2 (h_cks h) @ [10]"

text \<open>The file ends with a record without data; what follows its byte count is not read.\<close>

definition hex_file :: "hexrec list \<Rightarrow> u8 list \<Rightarrow> u8 list" where
  "hex_file hs r = concat (map hex_line hs) @ 0x3a # hex2 0 @ r"

definition hexrec_ok :: "hexrec \<Rightarrow> bool" where
  "hexrec_ok h \<longleftrightarrow> 1 \<le> length (h_data h) \<and> length (h_data h) \<le> 251"

definition block_of :: "hexrec \<Rightarrow> u8 \<times> u8 list" where
  "block_of h = (0x12, [h_addr_l h, h_addr_h h, of_nat (length (h_data h)), 0] @ h_data h)"

lemma hex_value_hexd:
  assumes "k < 16"
  shows "hex_value (hexd k) = Some k" "\<not> is_space (hexd k)" "hexd k \<noteq> 0x3a"
proof -
  have "list_all (\<lambda>k. hex_value (hexd k) = Some k \<and> \<not> is_space (hexd k) \<and> hexd k \<noteq> 0x3a) (map of_nat [0..<16])"
    by code_simp
  moreover have "k \<in> set (map of_nat [0..<16])"
    using assms by (auto simp: word_less_nat_alt intro!: image_eqI [of _ _ "unat k"])
  ultimately have "hex_value (hexd k) = Some k \<and> \<not> is_space (hexd k) \<and> hexd k \<noteq> 0x3a"
    by (auto simp: list_all_iff)
  then show "hex_value (hexd k) = Some k" "\<not> is_space (hexd k)" "hexd k \<noteq> 0x3a" by simp_all
qed

lemma read_byte_hex2 [simp]: "read_byte (hex2 b @ r) = Ret (b, r)"
proof -
  have u: "unat b < 2 ^ LENGTH(8)" by (rule unsigned_less)
  have d: "b div 16 < 16" using u by (simp add: word_less_nat_alt unat_div)
  have m: "b mod 16 < 16" by (simp add: word_less_nat_alt unat_mod)
  show ?thesis
    using hex_value_hexd [OF d] hex_value_hexd [OF m] mult_div_mod_eq [of 16 b]
    by (simp add: read_byte_def hex2_def)
qed

lemma scan_colon_gap: "0x3a \<notin> set g \<Longrightarrow> scan_colon sd (g @ 0x3a # r) = Ret (0x3a, r)"
  by (induction g arbitrary: sd) auto

lemma read_data_hex:
  "k + length d \<le> length S \<Longrightarrow>
   read_data k (length d) (S, concat (map hex2 d) @ r) = Ret (take k S @ d @ drop (k + length d) S, r)"
proof (induction d arbitrary: k S)
  case (Cons b d)
  then have "take (Suc k) (S[k := b]) = take k S @ [b]" by (simp add: take_Suc_conv_app_nth)
  with Cons show ?case by simp
qed simp

lemma read_line_sends:
  assumes "bsl_ok s" "inp s = g @ hex_line h @ r" "0x3a \<notin> set g" "hexrec_ok h"
  shows "\<exists>s'. read_line s = Ret (s', False) \<and> sent s s' [] [block_of h] \<and> inp s' = [10] @ r \<and>
    stream_data s' = h_cks h"
proof -
  let ?n = "length (h_data h)"
  let ?S = "h_data h @ drop ?n (s_buf s)"
  have n: "?n \<le> 251" "1 \<le> ?n" using assms(4) by (simp_all add: hexrec_ok_def)
  have u: "unat (of_nat ?n :: u8) = ?n" using n by (simp add: unat_of_nat take_bit_eq_mod)
  have nz: "(of_nat ?n :: u8) \<noteq> 0"
  proof
    assume "(of_nat ?n :: u8) = 0"
    with u have "?n = 0" by simp
    with n(2) show False by simp
  qed
  have S: "length (s_buf s) = 1024" using assms(1) by (simp add: bsl_ok_def)
  let ?t = "s\<lparr>stream_data := h_cks h, number_of_data_bytes := of_nat ?n, address_h := h_addr_h h, address_l := h_addr_l h,
      s_buf := ?S, inp := [10] @ r\<rparr>"
  have "bsl_ok ?t" using assms(1) n S by (simp add: bsl_ok_def)
  from frame_gen_sends [OF this, of ?n ?S] n obtain s' where
    s': "frame_gen ?S ?t = Ret s'" "sent ?t s' [] [block_of h]" "inp s' = [10] @ r" "stream_data s' = h_cks h"
    by (auto simp: block_of_def)
  have "read_data 0 ?n (s_buf s, concat (map hex2 (h_data h)) @ hex2 (h_cks h) @ [10] @ r) =
      Ret (?S, hex2 (h_cks h) @ [10] @ r)"
    using read_data_hex [of 0 "h_data h" "s_buf s"] n S by simp
  then have "read_line s = Ret (s', False)"
    unfolding read_line_def assms(2) hex_line_def using s'(1) nz u
    by (simp add: scan_colon_gap [OF assms(3)] Let_def)
  moreover have "sent s s' [] [block_of h]" using s'(2) by (simp add: sent_def)
  ultimately show ?thesis using s'(3,4) by blast
qed

lemma read_line_ends:
  assumes "bsl_ok s" "inp s = g @ 0x3a # hex2 0 @ r" "0x3a \<notin> set g"
  shows "\<exists>s'. read_line s = Ret (s', True) \<and> sent s s' [] []"
  using assms by (simp add: read_line_def scan_colon_gap sent_def bsl_ok_def)

abbreviation (input) pc_cmd :: "u8 \<times> u8 list" where "pc_cmd \<equiv> (0x1A, [0x20, 0x02, 0, 0])"

lemma read_loop_sends:
  assumes "list_all hexrec_ok hs"
  shows "bsl_ok s \<Longrightarrow> inp s = g @ hex_file hs r \<Longrightarrow> 0x3a \<notin> set g \<Longrightarrow>
    \<exists>s'. read_loop s = Ret s' \<and> sent s s' [] (concat (map (\<lambda>h. [pc_cmd, block_of h]) hs) @ [pc_cmd])"
  using assms
proof (induction hs arbitrary: s g)
  case Nil
  obtain s1 where 1: "load_PC_patch s = Ret s1" "sent s s1 [] [pc_cmd]" "inp s1 = inp s"
    using sends_fixed(2) [OF Nil(1)] by blast
  obtain s2 where 2: "read_line s1 = Ret (s2, True)" "sent s1 s2 [] []"
    using read_line_ends [OF sent_ok [OF 1(2)]] 1(3) Nil(2,3) by (auto simp: hex_file_def)
  have "read_loop s = Ret s2" by (subst read_loop.simps) (simp add: 1(1) 2(1))
  with sent_trans [OF 1(2) 2(2)] show ?case by auto
next
  case (Cons h hs)
  obtain s1 where 1: "load_PC_patch s = Ret s1" "sent s s1 [] [pc_cmd]" "inp s1 = inp s"
    using sends_fixed(2) [OF Cons.prems(1)] by blast
  have "inp s1 = g @ hex_line h @ hex_file hs r" using 1(3) Cons.prems(2) by (simp add: hex_file_def)
  from read_line_sends [OF sent_ok [OF 1(2)] this Cons.prems(3)] Cons.prems(4) obtain s2 where
    2: "read_line s1 = Ret (s2, False)" "sent s1 s2 [] [block_of h]" "inp s2 = [10] @ hex_file hs r"
    by auto
  obtain s3 where 3: "read_loop s2 = Ret s3"
      "sent s2 s3 [] (concat (map (\<lambda>h. [pc_cmd, block_of h]) hs) @ [pc_cmd])"
    using Cons.IH [OF sent_ok [OF 2(2)] 2(3)] Cons.prems(4) by auto
  have "read_loop s = Ret s3" by (subst read_loop.simps) (simp add: 1(1) 2(1) 3(1) del: read_loop.simps)
  with sent_trans [OF sent_trans [OF 1(2) 2(2)] 3(2)] show ?case by auto
qed

text \<open>
  A file without an end record: after its last record the reader looks for a colon that does not come.
  Only when the checksum of the last record happens to be a colon does it go on, to read undefined bytes.
\<close>

lemma scan_colon_hangs: "0x3a \<notin> set g \<Longrightarrow> sd \<noteq> 0x3a \<Longrightarrow> scan_colon sd g = Hang"
  by (induction g arbitrary: sd) auto

lemma unterminated_file_hangs:
  assumes "list_all hexrec_ok hs"
  shows "bsl_ok s \<Longrightarrow> inp s = g @ concat (map hex_line hs) \<Longrightarrow> 0x3a \<notin> set g \<Longrightarrow>
    (if hs = [] then stream_data s else h_cks (last hs)) \<noteq> 0x3a \<Longrightarrow> read_loop s = Hang"
  using assms
proof (induction hs arbitrary: s g)
  case Nil
  obtain s1 where 1: "load_PC_patch s = Ret s1" "inp s1 = inp s" "stream_data s1 = stream_data s"
    using sends_fixed(2) [OF Nil(1)] by blast
  have "read_line s1 = Hang" using 1 Nil(2-4) scan_colon_hangs by (simp add: read_line_def)
  with 1(1) show ?case by (subst read_loop.simps) simp
next
  case (Cons h hs)
  obtain s1 where 1: "load_PC_patch s = Ret s1" "sent s s1 [] [pc_cmd]" "inp s1 = inp s"
    using sends_fixed(2) [OF Cons.prems(1)] by blast
  have "inp s1 = g @ hex_line h @ concat (map hex_line hs)" using 1(3) Cons.prems(2) by simp
  from read_line_sends [OF sent_ok [OF 1(2)] this Cons.prems(3)] Cons.prems(5) obtain s2 where
    2: "read_line s1 = Ret (s2, False)" "sent s1 s2 [] [block_of h]" "inp s2 = [10] @ concat (map hex_line hs)"
      "stream_data s2 = h_cks h"
    by auto
  have "read_loop s2 = Hang"
    using Cons.IH [OF sent_ok [OF 2(2)] 2(3)] 2(4) Cons.prems(4,5) by (auto split: if_splits)
  then show ?case by (subst read_loop.simps) (simp add: 1(1) 2(1) del: read_loop.simps)
qed

section \<open>Programming\<close>

text \<open>C27. Programming sends exactly the program: for every HEX file of records with 1 to 251 bytes of data, the
  command \<open>w\<close> of the boot loader tool returns, and a reader of the frame format finds on the serial line the
  mass erase, the password, the jumps, the patch and then every record of the file once and in
  order, with its address and data, each after a jump to the patch; the pins go through the entry
  sequence of the boot loader twice and end with the program running. Types and checksums of the
  records and what follows the end record make no difference.\<close>

theorem program_sent:
  assumes "bsl_ok s" "list_all hexrec_ok hs" "inp s = hex_file hs r"
  shows "\<exists>s' out. mspload_main True (Some 0x77) s = Ret (s', 0) \<and> tty s' = tty s @ out \<and>
    parse_wire out = Some ([(0x18, replicate 4 0), (0x10, replicate 4 0 @ replicate 32 0xFF), (0x1A, [0x22, 0x0C, 0, 0]),
      (0x10, replicate 4 0 @ replicate 32 0xFF), (0x12, drop 4 patch_frame), pc_cmd, pc_cmd] @
      concat (map (\<lambda>h. [pc_cmd, block_of h]) hs) @ [pc_cmd]) \<and>
    reg2_log s' = reg2_log s @ [7, 6, 4, 6, 4, 5, 7] @ [3] @ [6, 7, 3] @ [7, 6, 4, 6, 4, 5, 7] @ [3] @ [6, 7, 3]"
proof -
  note on = sent_pins(1) and off = sent_pins(2) and rs = sent_pins(3)
  obtain s1 where 1: "erase_mem (Bootstrap_ON s) = Ret s1" "sent (Bootstrap_ON s) s1 [] [(0x18, replicate 4 0)]"
      "inp s1 = inp s"
    using sends_fixed(5) [OF sent_ok [OF on [OF assms(1)]]] by auto
  note t1 = sent_trans [OF on [OF assms(1)] 1(2)]
  note t2 = sent_trans [OF t1 off [OF sent_ok [OF t1]]]
  note t3 = sent_trans [OF t2 rs [OF sent_ok [OF t2]]]
  note t4 = sent_trans [OF t3 on [OF sent_ok [OF t3]]]
  obtain s2 where 2: "passwd (Bootstrap_ON (Reset_msp (Bootstrap_OFF s1))) = Ret s2"
      "sent (Bootstrap_ON (Reset_msp (Bootstrap_OFF s1))) s2 [] [(0x10, replicate 4 0 @ replicate 32 0xFF)]" "inp s2 = inp s"
    using sends_fixed(1) [OF sent_ok [OF t4]] 1(3) by auto
  obtain s3 where 3: "load_PC s2 = Ret s3" "sent s2 s3 [] [(0x1A, [0x22, 0x0C, 0, 0])]" "inp s3 = inp s"
    using sends_fixed(3) [OF sent_ok [OF 2(2)]] 2(3) by auto
  obtain s4 where 4: "passwd s3 = Ret s4" "sent s3 s4 [] [(0x10, replicate 4 0 @ replicate 32 0xFF)]" "inp s4 = inp s"
    using sends_fixed(1) [OF sent_ok [OF 3(2)]] 3(3) by auto
  obtain s5 where 5: "load_PATCH s4 = Ret s5" "sent s4 s5 [] [(0x12, drop 4 patch_frame)]" "inp s5 = inp s"
    using sends_fixed(4) [OF sent_ok [OF 4(2)]] 4(3) by auto
  obtain s6 where 6: "load_PC_patch s5 = Ret s6" "sent s5 s6 [] [pc_cmd]" "inp s6 = inp s"
    using sends_fixed(2) [OF sent_ok [OF 5(2)]] 5(3) by auto
  obtain s7 where 7: "load_PC_patch s6 = Ret s7" "sent s6 s7 [] [pc_cmd]" "inp s7 = inp s"
    using sends_fixed(2) [OF sent_ok [OF 6(2)]] 6(3) by auto
  have "inp s7 = [] @ hex_file hs r" using 7(3) assms(3) by simp
  from read_loop_sends [OF assms(2) sent_ok [OF 7(2)] this] obtain s8 where
    8: "read_loop s7 = Ret s8" "sent s7 s8 [] (concat (map (\<lambda>h. [pc_cmd, block_of h]) hs) @ [pc_cmd])"
    by auto
  note t8 = sent_trans [OF sent_trans [OF sent_trans [OF sent_trans [OF sent_trans [OF sent_trans [OF sent_trans
    [OF t4 2(2)] 3(2)] 4(2)] 5(2)] 6(2)] 7(2)] 8(2)]
  note t9 = sent_trans [OF t8 off [OF sent_ok [OF t8]]]
  note t10 = sent_trans [OF t9 rs [OF sent_ok [OF t9]]]
  have "mspload_main True (Some 0x77) s = Ret (Reset_msp (Bootstrap_OFF s8), 0)"
    by (simp add: mspload_main_def bsl_program_def read_file_def 1(1) 2(1) 3(1) 4(1) 5(1) 6(1) 7(1) 8(1)
      del: read_loop.simps)
  with t10 show ?thesis by (fastforce simp: sent_def)
qed

text \<open>The same for the first line of \<open>msp_adc.a43\<close> and its end record.\<close>

definition first_line :: hexrec where
  "first_line = \<lparr>h_addr_h = 0xE0, h_addr_l = 0x00, h_type = 0,
     h_data = [0xB2, 0x40, 0x80, 0x5A, 0x20, 0x01, 0x3F, 0x40, 0x94, 0xE1, 0x3E, 0x40, 0x00, 0x02, 0x3D, 0x40], h_cks = 0x32\<rparr>"

definition sample_bsl :: bsl where
  "sample_bsl =
     \<lparr>reg2_log = [], tty = [], tty_opens = True, frame_bytes = replicate 270 0, frame_lenght = 0, frame_done = False,
      cks_l = 0, cks_h = 0, stream_data = 0, number_of_data_bytes = 0, address_h = 0, address_l = 0,
      s_buf = replicate 1024 0,
      inp = map of_char '':10E00000B240805A20013F4094E13E4000023D4032'' @ [10] @ map of_char '':00000001FF'' @ [10]\<rparr>"

lemma sample_input: "inp sample_bsl = hex_file [first_line] (map of_char ''000001FF'' @ [10])"
  by (simp add: sample_bsl_def hex_file_def hex_line_def first_line_def hex2_def hexd_def)

theorem program_sent_witness:
  "\<exists>s' out. mspload_main True (Some 0x77) sample_bsl = Ret (s', 0) \<and> tty s' = out \<and>
    parse_wire out = Some ([(0x18, replicate 4 0), (0x10, replicate 4 0 @ replicate 32 0xFF), (0x1A, [0x22, 0x0C, 0, 0]),
      (0x10, replicate 4 0 @ replicate 32 0xFF), (0x12, drop 4 patch_frame), pc_cmd, pc_cmd] @
      [pc_cmd, (0x12, [0x00, 0xE0, 16, 0, 0xB2, 0x40, 0x80, 0x5A, 0x20, 0x01, 0x3F, 0x40, 0x94, 0xE1, 0x3E, 0x40, 0x00, 0x02, 0x3D, 0x40])] @
      [pc_cmd])"
proof -
  have "bsl_ok sample_bsl" by (simp add: bsl_ok_def sample_bsl_def)
  moreover have "list_all hexrec_ok [first_line]" by (simp add: hexrec_ok_def first_line_def)
  moreover have "block_of first_line =
      (0x12, [0x00, 0xE0, 16, 0, 0xB2, 0x40, 0x80, 0x5A, 0x20, 0x01, 0x3F, 0x40, 0x94, 0xE1, 0x3E, 0x40, 0x00, 0x02, 0x3D, 0x40])"
    by (simp add: block_of_def first_line_def)
  moreover have "tty sample_bsl = []" by (simp add: sample_bsl_def)
  ultimately show ?thesis
    using program_sent [OF _ _ sample_input] by fastforce
qed

end
