(* ===== verification/Cspi_Pool.thy ===== *)
theory Cspi_Pool
  imports Libera_Prelude
begin

text \<open>
  The memory pool of the CSPI library (\<open>cspi/pool.c\<close>): objects of one size in a free list that is
  linked through the objects. Memory is a map from objects to their pointer \<open>next\<close>; an object whose
  pointer was never set is not in it, so reading it is \<open>Fault\<close>. What \<open>malloc\<close> returns is an argument:
  the number of the first of four fresh objects, or nothing.
\<close>

section \<open>Model\<close>

abbreviation (input) OBJECT_COUNT :: nat where "OBJECT_COUNT \<equiv> 4"

definition CHUNK_SIZE :: nat where
  "CHUNK_SIZE = 10240 * 8 * 4"

record mem_pool =
  pl_locked :: bool
  pl_head :: "nat option"
  pl_next :: "nat \<Rightarrow> nat option option"

definition link_objects :: "nat \<Rightarrow> (nat \<Rightarrow> nat option option) \<Rightarrow> nat \<Rightarrow> nat option option" where
  "link_objects b h = (foldl (\<lambda>h i. h(b + i \<mapsto> Some (b + i + 1))) h [1..<OBJECT_COUNT - 1])(b + (OBJECT_COUNT - 1) \<mapsto> None)"

definition pool_malloc :: "nat \<Rightarrow> nat option \<Rightarrow> mem_pool \<Rightarrow> (mem_pool \<times> nat option) call" where
  "pool_malloc n r s =
     (if n = 0 \<or> n > CHUNK_SIZE then Ret (s, r)
      else if pl_locked s then Hang
      else case pl_head s of
        Some p \<Rightarrow> (case pl_next s p of None \<Rightarrow> Fault | Some q \<Rightarrow> Ret (s\<lparr>pl_head := q\<rparr>, Some p))
      | None \<Rightarrow> (case r of
            None \<Rightarrow> Ret (s, None)
          | Some b \<Rightarrow> Ret (s\<lparr>pl_next := link_objects b (pl_next s), pl_head := Some (b + 1)\<rparr>, Some b)))"

definition pool_free :: "nat option \<Rightarrow> nat \<Rightarrow> mem_pool \<Rightarrow> mem_pool call" where
  "pool_free p n s =
     (case p of
        None \<Rightarrow> Ret s
      | Some a \<Rightarrow>
          if n = 0 \<or> n > CHUNK_SIZE then Ret s
          else if pl_locked s then Hang
          else Ret (s\<lparr>pl_next := (pl_next s)(a \<mapsto> pl_head s), pl_head := Some a\<rparr>))"

definition pool_start :: mem_pool where
  "pool_start = \<lparr>pl_locked = False, pl_head = None, pl_next = Map.empty\<rparr>"

section \<open>The free list\<close>

fun free_chain :: "(nat \<Rightarrow> nat option option) \<Rightarrow> nat option \<Rightarrow> nat list \<Rightarrow> bool" where
  "free_chain h p [] \<longleftrightarrow> p = None"
| "free_chain h p (a # as) \<longleftrightarrow> p = Some a \<and> (\<exists>q. h a = Some q \<and> free_chain h q as)"

lemma free_chain_upd [simp]: "a \<notin> set as \<Longrightarrow> free_chain (h(a := x)) p as = free_chain h p as"
  by (induction as arbitrary: p) auto

lemma link_objects_eq: "link_objects b h = h(b + 1 \<mapsto> Some (b + 2), b + 2 \<mapsto> Some (b + 3), b + 3 \<mapsto> None)"
  by (simp add: link_objects_def upt_rec eval_nat_numeral)

text \<open>
  Runs of a client that gives back only what it has: the pool, the objects the client has, all
  objects of the blocks allocated so far. A new block is disjoint from them.
\<close>

inductive pool_run :: "mem_pool \<Rightarrow> nat set \<Rightarrow> nat set \<Rightarrow> bool" where
  start: "pool_run pool_start {} {}"
| reuse: "pool_run s H A \<Longrightarrow> 0 < n \<Longrightarrow> n \<le> CHUNK_SIZE \<Longrightarrow> pl_head s \<noteq> None \<Longrightarrow>
    pool_malloc n r s = Ret (s', Some p) \<Longrightarrow> pool_run s' (insert p H) A"
| block: "pool_run s H A \<Longrightarrow> 0 < n \<Longrightarrow> n \<le> CHUNK_SIZE \<Longrightarrow> pl_head s = None \<Longrightarrow> {b..b + 3} \<inter> A = {} \<Longrightarrow>
    pool_malloc n (Some b) s = Ret (s', Some p) \<Longrightarrow> pool_run s' (insert p H) (A \<union> {b..b + 3})"
| free: "pool_run s H A \<Longrightarrow> 0 < n \<Longrightarrow> n \<le> CHUNK_SIZE \<Longrightarrow> p \<in> H \<Longrightarrow>
    pool_free (Some p) n s = Ret s' \<Longrightarrow> pool_run s' (H - {p}) A"

definition pool_ok :: "mem_pool \<Rightarrow> nat set \<Rightarrow> nat set \<Rightarrow> bool" where
  "pool_ok s H A \<longleftrightarrow> \<not> pl_locked s \<and>
     (\<exists>fs. distinct fs \<and> free_chain (pl_next s) (pl_head s) fs \<and> set fs \<inter> H = {} \<and> set fs \<union> H = A)"

lemma pool_malloc_reuse:
  assumes "pool_ok s H A" "0 < n" "n \<le> CHUNK_SIZE" "pl_head s \<noteq> None"
  shows "\<exists>s' p. pool_malloc n r s = Ret (s', Some p) \<and> p \<notin> H \<and> p \<in> A \<and> pool_ok s' (insert p H) A"
proof -
  from assms(1,4) obtain a fs q where f: "distinct (a # fs)" "pl_head s = Some a" "pl_next s a = Some q"
      "free_chain (pl_next s) q fs" "set (a # fs) \<inter> H = {}" "set (a # fs) \<union> H = A" "\<not> pl_locked s"
    unfolding pool_ok_def by (metis free_chain.elims(2))
  then have "pool_malloc n r s = Ret (s\<lparr>pl_head := q\<rparr>, Some a)" using assms(2,3) by (simp add: pool_malloc_def)
  moreover have "pool_ok (s\<lparr>pl_head := q\<rparr>) (insert a H) A"
    using f unfolding pool_ok_def by (intro conjI exI [of _ fs]) auto
  ultimately show ?thesis using f by auto
qed

lemma pool_malloc_block:
  assumes "pool_ok s H A" "0 < n" "n \<le> CHUNK_SIZE" "pl_head s = None" "{b..b + 3} \<inter> A = {}"
  shows "\<exists>s'. pool_malloc n (Some b) s = Ret (s', Some b) \<and> b \<notin> H \<and> pool_ok s' (insert b H) (A \<union> {b..b + 3})"
proof -
  from assms(1,4) have H: "H = A" "\<not> pl_locked s" by (auto simp: pool_ok_def elim: free_chain.elims)
  let ?s = "s\<lparr>pl_next := link_objects b (pl_next s), pl_head := Some (b + 1)\<rparr>"
  have "pool_malloc n (Some b) s = Ret (?s, Some b)" using assms H by (simp add: pool_malloc_def)
  moreover have "b \<in> {b..b + 3}" by simp
  moreover have "{b..b + 3} = {b, b + 1, b + 2, b + 3}" by auto
  moreover have "pool_ok ?s (insert b H) (A \<union> {b..b + 3})"
    unfolding pool_ok_def using assms(5) H calculation(3)
    by (intro conjI exI [of _ "[b + 1, b + 2, b + 3]"]) (auto simp: link_objects_eq)
  ultimately show ?thesis using assms(5) H by blast
qed

lemma pool_free_keeps:
  assumes "pool_ok s H A" "0 < n" "n \<le> CHUNK_SIZE" "p \<in> H"
  shows "\<exists>s'. pool_free (Some p) n s = Ret s' \<and> pl_head s' = Some p \<and> pool_ok s' (H - {p}) A"
proof -
  from assms(1) obtain fs where f: "distinct fs" "free_chain (pl_next s) (pl_head s) fs" "set fs \<inter> H = {}"
      "set fs \<union> H = A" "\<not> pl_locked s"
    unfolding pool_ok_def by blast
  then have "p \<notin> set fs" using assms(4) by auto
  with f assms show ?thesis
    by (simp add: pool_free_def pool_ok_def) (intro exI [of _ "p # fs"]; auto)
qed

text \<open>
  Over every such run each object is either with the client or on the free list, once: the pool never
  hands out an object the client has, loses none, and its mutex is free.
\<close>

theorem pool_run_ok: "pool_run s H A \<Longrightarrow> pool_ok s H A"
proof (induction rule: pool_run.induct)
  case start
  show ?case by (simp add: pool_ok_def pool_start_def)
next
  case (reuse s H A n r s' p)
  then show ?case using pool_malloc_reuse [of s H A n r] by auto
next
  case (block s H A n b s' p)
  then show ?case using pool_malloc_block [of s H A n b] by auto
next
  case (free s H A n p s')
  then show ?case using pool_free_keeps [of s H A n p] by auto
qed

end
