(* ===== verification/Spec2Isabelle.thy ===== *)
theory Spec2Isabelle
  imports Libera_Event_Props Libera_Sa_Props Libera_Timing_Props Libera_Dma_Props Libera_Dd_Props
    Libera_Cfg_Props Eventd_Props Cspi_Dd_Props
    Cspi_Con_Props Libera_Hbpp_Props Libera_Bbfp_Props Msp_Props Msp_Load_Props Cspi_Pool
begin

text \<open>
  Verification library of the Libera instrument software under \<open>src/models/Libera\<close>: the Linux
  kernel driver (\<open>driver/libera-driver-2-04-ebpp\<close>, built for the electron beam position processor,
  EBPP, and in part for the bunch-by-bunch and the hadron instrument), the user-space library over it
  (\<open>cspi\<close>) with its event daemon, and the voltage monitor (\<open>msp\<close>): a driver of its own and the firmware of
  the microcontroller that measures the supply voltages, and the tool that programs it.

  The program. The FPGA of the instrument fills a circular buffer of turn-by-turn data and stamps
  triggers with two clocks: the system clock (LST, 125 MHz ticks) and the machine clock (LMT). The
  interrupt handler moves the stamps into FIFOs, one per trigger and clock, pairs them, keeps the
  driver's time and fills the slow-acquisition (SA) ring. Each character device serves user space
  from these structures: the event device (triggers, time, asynchronous events for the daemon), the
  data-on-demand device (DD, seek by time and read from the circular buffer by DMA), the post-mortem
  device (PM, a buffer acquired through the DD path), the SA device (a pipe per reader), the
  configuration device (parameters, most of them mirrored in FPGA registers), the register blocks of
  fast acquisition (FA) and signal conditioning (DSC) and the ADC buffer.

  Theories and the code they model (all definitions carry the names of the source):
  \<^item> \<open>Libera_Prelude\<close>: C integers, error numbers, mutexes, register writes, the call type.
  \<^item> \<open>Libera_Ring\<close>: the rings of \<open>libera_event.h\<close> and \<open>libera_sa.h\<close>; one generic ring with the locale of a
    bounded FIFO, interpreted on the trigger, event and SA rings.
  \<^item> \<open>Libera_Time\<close>: the clock conversions of \<open>libera_dd.h\<close>.
  \<^item> \<open>Libera_Kernel\<close>, \<open>Libera_Ebpp_Map\<close>: the device structures of \<open>libera_kernel.h\<close> as one state record
    \<open>kernel\<close>, register map, shared functions of \<open>libera_main.c\<close>, initial state.
  \<^item> \<open>Libera_Event\<close>, \<open>Libera_Event_Props\<close>: the event device (\<open>libera_event.c\<close>) and \<open>libera_get_CTIME\<close>.
  \<^item> \<open>Libera_Sa\<close>, \<open>Libera_Sa_Props\<close>: the SA device (\<open>libera_sa.c\<close>), its interrupt handler and tasklet.
  \<^item> \<open>Libera_Timing\<close>, \<open>Libera_Timing_Props\<close>: the interrupt handler of \<open>libera_main.c\<close> with the handlers of
    both clocks, setting of the time and generation of events (\<open>ebpp.c\<close>).
  \<^item> \<open>Libera_Dma\<close>, \<open>Libera_Dma_Props\<close>: the DMA FIFO, the DMA interrupt and the transfer loop of the DD device.
  \<^item> \<open>Libera_Dd\<close>, \<open>Libera_Dd_Props\<close>: the DD and PM devices (\<open>libera_dd.c\<close>, \<open>libera_pm.c\<close>, their part of
    \<open>ebpp.c\<close>): what a read returns, the verdict of the wait, post-mortem acquisition and read-out.
  \<^item> \<open>Libera_Cfg\<close>: the configuration device (\<open>libera_cfg.c\<close>) and the EBPP parameters.
  \<^item> \<open>Libera_Blk\<close>: the register-block devices FA and DSC and the ADC buffer (\<open>libera_fa.c\<close>,
    \<open>libera_dsc.c\<close>, \<open>libera_adc.c\<close>).
  \<^item> \<open>Libera_Init\<close>: loading and unloading the module (\<open>libera_main.c\<close>).
  \<^item> \<open>Libera_Cfg_Props\<close>: the FPGA's mirror of the parameters as an invariant over all calls to these
    devices, who may change a parameter, reading back parameters and blocks, the interlock limit, the
    ADC samples, the resources of the module.
  \<^item> \<open>Libera_Bunch\<close>: what the bunch-by-bunch (BBFP) and hadron (HBPP) builds share: arm and trigger, trigger
    handlers, initialisation, the DMA FIFO at their sizes (\<open>bbfp.c\<close>, \<open>hbpp.c\<close>, \<open>libera_main.c\<close>).
  \<^item> \<open>Libera_Hbpp\<close>, \<open>Libera_Hbpp_Props\<close>: the DD device of the hadron build: seek, transfer, read; a read
    delivers what the board puts out, and the wait before it is too short.
  \<^item> \<open>Libera_Bbfp\<close>, \<open>Libera_Bbfp_Props\<close>: the DD device of the bunch-by-bunch build: positions, seek, decimation
    in place, read; arm and trigger alternate, a seek stays in the buffer, decimation chunk by chunk is that of
    the whole, a read is of one trigger.
  \<^item> \<open>Cspi_List\<close>: doubly linked lists on a heap, the nodes and operations that the library and the daemon
    share, with the lists they represent.
  \<^item> \<open>Eventd\<close>, \<open>Eventd_Props\<close>: the event daemon (\<open>cspi/eventd.c\<close>) over the driver's event device: requests
    to listen, the mask it sets in the driver, dispatch of an event to the named pipes, clean-up.
  \<^item> \<open>Cspi_Cordic\<close>: the amplitude of a raw sample (\<open>cspi/cordic.c\<close>) and its error on the real numbers.
  \<^item> \<open>Cspi_Dd\<close>, \<open>Cspi_Dd_Props\<close>: positions from raw samples and the removal of spikes (\<open>cspi/ebpp.c\<close>).
  \<^item> \<open>Cspi_Env\<close>: the environment parameters of the library (\<open>cspi.c\<close>, \<open>cspi/ebpp.c\<close>): the tables that map a
    member of the structure to a parameter of the driver, validation, setting and reading through the
    driver's configuration device, the DSC server and the PLL daemon, the cache for the positions.
  \<^item> \<open>Cspi_Env_Props\<close>: the configuration device as an interface of the library (a locale, interpreted on the
    driver's ioctl), parameters that come back as they were set.
  \<^item> \<open>Cspi_Cache_Props\<close>: calls that always return, the structure that cannot be set twice, and the cache,
    which follows the driver and so the FPGA, with what makes it miss a change.
  \<^item> \<open>Cspi_Con\<close>: handles, connections and reading (\<open>cspi.c\<close>, \<open>cspi_events.c\<close>, its part of \<open>cspi/ebpp.c\<close>): the
    list of connections, their parameters, opening a data source, reading, the time, the fast application, the
    registration with the event daemon and the dispatch of its events.
  \<^item> \<open>Cspi_Con_Props\<close>: the list of connections over every run of calls, what a read delivers from the driver,
    blocks that come back, handlers of an event, calls that lock up or do something else than they say.
  \<^item> \<open>Msp_Adc\<close>: the firmware of the voltage monitor (\<open>msp/src/msp_adc/msp_adc.c\<close>), its main program as a
    machine with a step for each statement, and its receive interrupt.
  \<^item> \<open>Msp_Main\<close>: the driver of the voltage monitor (\<open>msp/src/msp_main.c\<close>): files, serial exchanges, protocol,
    millivolts, loading.
  \<^item> \<open>Msp_Protocol\<close>: the contract of the partner on the serial bus as a locale; from it, that a transfer
    returns and with what.
  \<^item> \<open>Msp_Props\<close>: the firmware keeps the contract (an interpretation of the locale), so a read delivers the
    conversion it started; the millivolts as a formula on integers, the counters and resources of the driver.

  \<^item> \<open>Msp_Load\<close>, \<open>Msp_Load_Props\<close>: the tool that programs the microcontroller of the voltage monitor
    (\<open>msp/src/msp_adc/mspload.c\<close>): pins, frames of the boot protocol, the reader of the HEX file; what a run
    sends, decoded by a reader of the frame format, and a file on which it never ends.
  \<^item> \<open>Cspi_Pool\<close>: the memory pool (\<open>cspi/pool.c\<close>), which no other file of the library uses: objects are never
    handed out twice or lost.

  How state and calls are modelled. The globals of the module are the fields of \<open>kernel\<close>; register
  writes are appended to its \<open>trace\<close>, register reads and the content of FPGA FIFOs are arguments. A
  system call is one step from state to state (the device mutex is free when it starts, unless an
  earlier call leaked it, and then the call is the value \<open>Hang\<close>); a sleep takes from its arguments what
  the interrupts did meanwhile. Only the DMA transfer is a machine of small steps, because its reader
  and its interrupt share the DMA FIFO without a lock around a whole round. What C leaves undefined
  (an index out of range, a division by zero, a null pointer) is \<open>Fault\<close>; errors are \<open>Inl\<close> of the error
  number. Integers have the width of the 32-bit ARM target.

  Loops. The loops of the interrupt handler and of the sleeping calls recurse over the list of what
  the hardware presents, so they end with it; the SA tasklet takes the ring's size as fuel, which is
  enough because each round removes one of the pending atoms; the other loops are structural or have
  a termination proof. The loops of the voltage monitor's driver that wait for hardware take the number of
  tests as fuel; its read is shown to return when the port answers within that number and the
  conversion needs fifteen jiffies less.

  Not modelled: the instrument variants LLRF (which cannot be built from these files) and DPP (whose calls
  refuse), interrupts in the middle of a round of the bunch-by-bunch and hadron reads,
  in the library the floating-point transformations of ADC samples, the event thread's loop around \<open>select\<close>, the member \<open>frev\<close> and the content of
  the PLL status, kernel logs, the \<open>DEBUG\<close> branches, the set-up of the
  microcontroller's peripherals and the interrupt-driven transfer of the voltage monitor (compiled out), the character-device registration, packaging and the test
  programs, and the C++ drivers of the chaos framework, which is not part of the repository.
\<close>

end
